(* ===== verification/Prelude.thy ===== *)
theory Prelude
  imports Main "HOL-Library.Word" "HOL-Library.Monad_Syntax"
begin

text \<open>
  The vocabulary the component theories share.

  \<^item> Machine integers: \<open>u8\<close> to \<open>u64\<close> are words of their width; on the 32-bit targets of
    these drivers \<open>VADDR_T\<close>, \<open>size_t\<close> and pointers are \<open>u32\<close>.
  \<^item> The world outside the repository (the QEMU device behind the registers, the LiteOS kernel and
    the HDF framework) is the record \<open>env\<close>, a parameter of every operation that needs it. Its
    functions answer from the history of everything the driver did so far, so that nothing is
    assumed about the device or the kernel in a definition.
  \<^item> The history is the \<open>trace\<close> of register accesses and kernel calls, most recent first. Every
    operation takes the trace and returns it extended.
  \<^item> An array access outside the array is undefined behaviour of the C program. It is the result
    \<open>None\<close>, here in \<open>aget\<close> and \<open>aset\<close>. A polling loop that never ends is \<open>None\<close> too.
\<close>

unbundle bit_operations_syntax

subsection \<open>Types\<close>

type_synonym u8 = "8 word"
type_synonym u16 = "16 word"
type_synonym u32 = "32 word"
type_synonym u64 = "64 word"

text \<open>The status codes of the HDF framework the drivers return; \<open>HDF_OTHER\<close> is any further code
  that a framework call may produce and the driver passes on.\<close>

datatype HDF_STATUS =
    HDF_SUCCESS
  | HDF_FAILURE
  | HDF_ERR_NOT_SUPPORT
  | HDF_ERR_INVALID_PARAM
  | HDF_ERR_INVALID_OBJECT
  | HDF_ERR_MALLOC_FAIL
  | HDF_ERR_IO
  | HDF_DEV_ERR_NO_DEVICE
  | HDF_DEV_ERR_DEV_INIT_FAIL
  | HDF_OTHER int

text \<open>The kernel and framework functions the drivers call, in nine groups; each function's name
  abbreviates its constructor.\<close>

datatype (plugins only: code size) los_fn =
    LOS_DmaMemAlloc_fn
  | LOS_DmaMemFree_fn
  | LOS_HwiCreate_fn
  | LOS_HwiDelete_fn
  | HalIrqUnmask_fn
  | HalIrqMask_fn
  | LOS_PaddrQuery_fn
  | LOS_GetCpuCycle_fn
  | LOS_TaskYield_fn
  | LOS_Msleep_fn
  | LOS_IsUserAddressRange_fn
  | LOS_ArchCopyToUser_fn
  | LOS_PhysPagesAlloc_fn
  | LOS_PhysPagesFree_fn
  | LOS_ArchMmuMap_fn
  | LOS_EventRead_fn
  | LOS_EventWrite_fn
  | LOS_EventInit_fn
  | LOS_EventClear_fn
  | LOS_EventDestroy_fn
  | LOS_MuxCreate_fn
  | LOS_MuxPend_fn
  | LOS_MuxPost_fn
  | HalIrqEnable_fn
  | LOS_MemAlloc_fn
  | LOS_MemFree_fn
  | LOS_IntLock_fn
  | LOS_IntRestore_fn
  | LOS_Schedule_fn
  | LOS_RegionAlloc_fn
  | LOS_RegionFree_fn
  | LOS_RegionFind_fn
  | LOS_VmPageGet_fn
  | LOS_AtomicInc_fn
  | OsUnMMap_fn
  | LOS_MuxAcquire_fn
  | LOS_MuxRelease_fn
  | DCacheFlushRange_fn
  | DCacheInvRange_fn
  | HalHwiDefaultHandler_fn
  | HwiHook_fn
  | vfs_register_driver_fn
  | OsReboot_fn

datatype (plugins only: code size) osal_fn =
    OsalRegisterIrq_fn
  | OsalUnregisterIrq_fn
  | OsalMemCalloc_fn
  | OsalMemAlloc_fn
  | OsalMemFree_fn
  | OsalSpinInit_fn
  | OsalSpinDestroy_fn
  | OsalMutexInit_fn
  | OsalMutexLock_fn
  | OsalMutexUnlock_fn
  | OsalMutexDestroy_fn
  | OsalTimerCreate_fn
  | OsalTimerStartLoop_fn
  | OsalTimerDelete_fn
  | OsalIoRemap_fn
  | OsalIoUnmap_fn
  | OsalMSleep_fn
  | memcpy_s_fn

datatype (plugins only: code size) hdf_fn =
    DmaEventInit_fn
  | DmaEventWait_fn
  | DmaEventSignal_fn
  | MmcCntlrParse_fn
  | MmcCntlrAdd_fn
  | MmcCntlrAddDetectMsgToQueue_fn
  | MmcDeviceRemove_fn
  | MmcCntlrRemove_fn
  | MmcCntlrAllocDev_fn
  | MmcDeviceAddOps_fn
  | GpioCntlrAdd_fn
  | HidRegisterHdfInputDev_fn
  | HidUnregisterHdfInputDev_fn
  | HidReportEvent_fn
  | HdfWorkInit_fn
  | HdfAddWork_fn
  | HdfWorkQueueInit_fn
  | HdfWorkQueueDestroy_fn
  | SendInfoToHdf_fn
  | RandomOperationsInit_fn
  | DevUrandomRegister_fn
  | DeviceResourceGetIface_fn
  | drs_GetUint16_fn
  | drs_GetUint32_fn
  | UartHostCreate_fn
  | UartHostDestroy_fn
  | UartAddDev_fn
  | UartRemoveDev_fn

datatype (plugins only: code size) net_fn =
    NetBufDevAlloc_fn
  | NetBufPush_fn
  | NetBufFree_fn
  | NetBufGetAddress_fn
  | NetBufGetDataLen_fn
  | NetIfRx_fn
  | NetIfSetStatus_fn
  | NetIfSetAddr_fn
  | NetDeviceAdd_fn
  | NetDeviceDelete_fn
  | CreateEapolData_fn
  | DestroyEapolData_fn
  | RegChipDriver_fn
  | HdfWlanGetChipDriverMgr_fn
  | ChipDriverMgrDeInit_fn

datatype (plugins only: code size) plat_fn =
    uart_clk_cfg_fn
  | UartPutsReg_fn
  | CheckMagicKey_fn
  | notify_poll_fn
  | poll_wait_fn
  | HookHandler_fn

datatype (plugins only: code size) libc_fn =
    c_malloc_fn
  | c_zalloc_fn
  | c_free_fn
  | c_memset_fn
  | c_calloc_fn
  | c_memcpy_fn

datatype (plugins only: code size) cmsis_fn =
    osSemaphoreNew_fn
  | osSemaphoreDelete_fn
  | osSemaphoreAcquire_fn
  | osSemaphoreRelease_fn
  | osThreadNew_fn
  | osThreadTerminate_fn

datatype (plugins only: code size) posix_fn =
    sys_shmget_fn
  | sys_shmat_fn
  | sys_shmdt_fn
  | sys_shmctl_fn
  | sys_open_fn
  | sys_close_fn
  | sys_mmap_fn
  | sys_munmap_fn
  | sys_errno_fn
  | sys_sleep_fn

datatype (plugins only: code size) lwip_fn =
    mem_calloc_fn
  | mem_free_fn
  | netif_add_fn
  | netif_input_fn
  | pbuf_free_callback_fn
  | pbuf_ref_fn
  | pbuf_header_fn
  | pbuf_alloced_custom_fn

datatype (plugins only: code size) syscall =
    Los los_fn | Osal osal_fn | Hdf hdf_fn | Net net_fn | Plat plat_fn | Libc libc_fn | Cmsis cmsis_fn | Posix posix_fn | Lwip lwip_fn

abbreviation "LOS_DmaMemAlloc \<equiv> Los LOS_DmaMemAlloc_fn"
abbreviation "LOS_DmaMemFree \<equiv> Los LOS_DmaMemFree_fn"
abbreviation "LOS_HwiCreate \<equiv> Los LOS_HwiCreate_fn"
abbreviation "LOS_HwiDelete \<equiv> Los LOS_HwiDelete_fn"
abbreviation "HalIrqUnmask \<equiv> Los HalIrqUnmask_fn"
abbreviation "HalIrqMask \<equiv> Los HalIrqMask_fn"
abbreviation "LOS_PaddrQuery \<equiv> Los LOS_PaddrQuery_fn"
abbreviation "LOS_GetCpuCycle \<equiv> Los LOS_GetCpuCycle_fn"
abbreviation "LOS_TaskYield \<equiv> Los LOS_TaskYield_fn"
abbreviation "LOS_Msleep \<equiv> Los LOS_Msleep_fn"
abbreviation "LOS_IsUserAddressRange \<equiv> Los LOS_IsUserAddressRange_fn"
abbreviation "LOS_ArchCopyToUser \<equiv> Los LOS_ArchCopyToUser_fn"
abbreviation "LOS_PhysPagesAlloc \<equiv> Los LOS_PhysPagesAlloc_fn"
abbreviation "LOS_PhysPagesFree \<equiv> Los LOS_PhysPagesFree_fn"
abbreviation "LOS_ArchMmuMap \<equiv> Los LOS_ArchMmuMap_fn"
abbreviation "LOS_EventRead \<equiv> Los LOS_EventRead_fn"
abbreviation "LOS_EventWrite \<equiv> Los LOS_EventWrite_fn"
abbreviation "LOS_EventInit \<equiv> Los LOS_EventInit_fn"
abbreviation "LOS_EventClear \<equiv> Los LOS_EventClear_fn"
abbreviation "LOS_EventDestroy \<equiv> Los LOS_EventDestroy_fn"
abbreviation "LOS_MuxCreate \<equiv> Los LOS_MuxCreate_fn"
abbreviation "LOS_MuxPend \<equiv> Los LOS_MuxPend_fn"
abbreviation "LOS_MuxPost \<equiv> Los LOS_MuxPost_fn"
abbreviation "HalIrqEnable \<equiv> Los HalIrqEnable_fn"
abbreviation "LOS_MemAlloc \<equiv> Los LOS_MemAlloc_fn"
abbreviation "LOS_MemFree \<equiv> Los LOS_MemFree_fn"
abbreviation "LOS_IntLock \<equiv> Los LOS_IntLock_fn"
abbreviation "LOS_IntRestore \<equiv> Los LOS_IntRestore_fn"
abbreviation "LOS_Schedule \<equiv> Los LOS_Schedule_fn"
abbreviation "LOS_RegionAlloc \<equiv> Los LOS_RegionAlloc_fn"
abbreviation "LOS_RegionFree \<equiv> Los LOS_RegionFree_fn"
abbreviation "LOS_RegionFind \<equiv> Los LOS_RegionFind_fn"
abbreviation "LOS_VmPageGet \<equiv> Los LOS_VmPageGet_fn"
abbreviation "LOS_AtomicInc \<equiv> Los LOS_AtomicInc_fn"
abbreviation "OsUnMMap \<equiv> Los OsUnMMap_fn"
abbreviation "LOS_MuxAcquire \<equiv> Los LOS_MuxAcquire_fn"
abbreviation "LOS_MuxRelease \<equiv> Los LOS_MuxRelease_fn"
abbreviation "DCacheFlushRange \<equiv> Los DCacheFlushRange_fn"
abbreviation "DCacheInvRange \<equiv> Los DCacheInvRange_fn"
abbreviation "HalHwiDefaultHandler \<equiv> Los HalHwiDefaultHandler_fn"
abbreviation "HwiHook \<equiv> Los HwiHook_fn"
abbreviation "vfs_register_driver \<equiv> Los vfs_register_driver_fn"
abbreviation "OsReboot \<equiv> Los OsReboot_fn"

abbreviation "OsalRegisterIrq \<equiv> Osal OsalRegisterIrq_fn"
abbreviation "OsalUnregisterIrq \<equiv> Osal OsalUnregisterIrq_fn"
abbreviation "OsalMemCalloc \<equiv> Osal OsalMemCalloc_fn"
abbreviation "OsalMemAlloc \<equiv> Osal OsalMemAlloc_fn"
abbreviation "OsalMemFree \<equiv> Osal OsalMemFree_fn"
abbreviation "OsalSpinInit \<equiv> Osal OsalSpinInit_fn"
abbreviation "OsalSpinDestroy \<equiv> Osal OsalSpinDestroy_fn"
abbreviation "OsalMutexInit \<equiv> Osal OsalMutexInit_fn"
abbreviation "OsalMutexLock \<equiv> Osal OsalMutexLock_fn"
abbreviation "OsalMutexUnlock \<equiv> Osal OsalMutexUnlock_fn"
abbreviation "OsalMutexDestroy \<equiv> Osal OsalMutexDestroy_fn"
abbreviation "OsalTimerCreate \<equiv> Osal OsalTimerCreate_fn"
abbreviation "OsalTimerStartLoop \<equiv> Osal OsalTimerStartLoop_fn"
abbreviation "OsalTimerDelete \<equiv> Osal OsalTimerDelete_fn"
abbreviation "OsalIoRemap \<equiv> Osal OsalIoRemap_fn"
abbreviation "OsalIoUnmap \<equiv> Osal OsalIoUnmap_fn"
abbreviation "OsalMSleep \<equiv> Osal OsalMSleep_fn"
abbreviation "memcpy_s \<equiv> Osal memcpy_s_fn"

abbreviation "DmaEventInit \<equiv> Hdf DmaEventInit_fn"
abbreviation "DmaEventWait \<equiv> Hdf DmaEventWait_fn"
abbreviation "DmaEventSignal \<equiv> Hdf DmaEventSignal_fn"
abbreviation "MmcCntlrParse \<equiv> Hdf MmcCntlrParse_fn"
abbreviation "MmcCntlrAdd \<equiv> Hdf MmcCntlrAdd_fn"
abbreviation "MmcCntlrAddDetectMsgToQueue \<equiv> Hdf MmcCntlrAddDetectMsgToQueue_fn"
abbreviation "MmcDeviceRemove \<equiv> Hdf MmcDeviceRemove_fn"
abbreviation "MmcCntlrRemove \<equiv> Hdf MmcCntlrRemove_fn"
abbreviation "MmcCntlrAllocDev \<equiv> Hdf MmcCntlrAllocDev_fn"
abbreviation "MmcDeviceAddOps \<equiv> Hdf MmcDeviceAddOps_fn"
abbreviation "GpioCntlrAdd \<equiv> Hdf GpioCntlrAdd_fn"
abbreviation "HidRegisterHdfInputDev \<equiv> Hdf HidRegisterHdfInputDev_fn"
abbreviation "HidUnregisterHdfInputDev \<equiv> Hdf HidUnregisterHdfInputDev_fn"
abbreviation "HidReportEvent \<equiv> Hdf HidReportEvent_fn"
abbreviation "HdfWorkInit \<equiv> Hdf HdfWorkInit_fn"
abbreviation "HdfAddWork \<equiv> Hdf HdfAddWork_fn"
abbreviation "HdfWorkQueueInit \<equiv> Hdf HdfWorkQueueInit_fn"
abbreviation "HdfWorkQueueDestroy \<equiv> Hdf HdfWorkQueueDestroy_fn"
abbreviation "SendInfoToHdf \<equiv> Hdf SendInfoToHdf_fn"
abbreviation "RandomOperationsInit \<equiv> Hdf RandomOperationsInit_fn"
abbreviation "DevUrandomRegister \<equiv> Hdf DevUrandomRegister_fn"
abbreviation "DeviceResourceGetIface \<equiv> Hdf DeviceResourceGetIface_fn"
abbreviation "drs_GetUint16 \<equiv> Hdf drs_GetUint16_fn"
abbreviation "drs_GetUint32 \<equiv> Hdf drs_GetUint32_fn"
abbreviation "UartHostCreate \<equiv> Hdf UartHostCreate_fn"
abbreviation "UartHostDestroy \<equiv> Hdf UartHostDestroy_fn"
abbreviation "UartAddDev \<equiv> Hdf UartAddDev_fn"
abbreviation "UartRemoveDev \<equiv> Hdf UartRemoveDev_fn"

abbreviation "NetBufDevAlloc \<equiv> Net NetBufDevAlloc_fn"
abbreviation "NetBufPush \<equiv> Net NetBufPush_fn"
abbreviation "NetBufFree \<equiv> Net NetBufFree_fn"
abbreviation "NetBufGetAddress \<equiv> Net NetBufGetAddress_fn"
abbreviation "NetBufGetDataLen \<equiv> Net NetBufGetDataLen_fn"
abbreviation "NetIfRx \<equiv> Net NetIfRx_fn"
abbreviation "NetIfSetStatus \<equiv> Net NetIfSetStatus_fn"
abbreviation "NetIfSetAddr \<equiv> Net NetIfSetAddr_fn"
abbreviation "NetDeviceAdd \<equiv> Net NetDeviceAdd_fn"
abbreviation "NetDeviceDelete \<equiv> Net NetDeviceDelete_fn"
abbreviation "CreateEapolData \<equiv> Net CreateEapolData_fn"
abbreviation "DestroyEapolData \<equiv> Net DestroyEapolData_fn"
abbreviation "RegChipDriver \<equiv> Net RegChipDriver_fn"
abbreviation "HdfWlanGetChipDriverMgr \<equiv> Net HdfWlanGetChipDriverMgr_fn"
abbreviation "ChipDriverMgrDeInit \<equiv> Net ChipDriverMgrDeInit_fn"

abbreviation "uart_clk_cfg \<equiv> Plat uart_clk_cfg_fn"
abbreviation "UartPutsReg \<equiv> Plat UartPutsReg_fn"
abbreviation "CheckMagicKey \<equiv> Plat CheckMagicKey_fn"
abbreviation "notify_poll \<equiv> Plat notify_poll_fn"
abbreviation "poll_wait \<equiv> Plat poll_wait_fn"
abbreviation "HookHandler \<equiv> Plat HookHandler_fn"

abbreviation "c_malloc \<equiv> Libc c_malloc_fn"
abbreviation "c_zalloc \<equiv> Libc c_zalloc_fn"
abbreviation "c_free \<equiv> Libc c_free_fn"
abbreviation "c_memset \<equiv> Libc c_memset_fn"
abbreviation "c_calloc \<equiv> Libc c_calloc_fn"
abbreviation "c_memcpy \<equiv> Libc c_memcpy_fn"

abbreviation "osSemaphoreNew \<equiv> Cmsis osSemaphoreNew_fn"
abbreviation "osSemaphoreDelete \<equiv> Cmsis osSemaphoreDelete_fn"
abbreviation "osSemaphoreAcquire \<equiv> Cmsis osSemaphoreAcquire_fn"
abbreviation "osSemaphoreRelease \<equiv> Cmsis osSemaphoreRelease_fn"
abbreviation "osThreadNew \<equiv> Cmsis osThreadNew_fn"
abbreviation "osThreadTerminate \<equiv> Cmsis osThreadTerminate_fn"

abbreviation "sys_shmget \<equiv> Posix sys_shmget_fn"
abbreviation "sys_shmat \<equiv> Posix sys_shmat_fn"
abbreviation "sys_shmdt \<equiv> Posix sys_shmdt_fn"
abbreviation "sys_shmctl \<equiv> Posix sys_shmctl_fn"
abbreviation "sys_open \<equiv> Posix sys_open_fn"
abbreviation "sys_close \<equiv> Posix sys_close_fn"
abbreviation "sys_mmap \<equiv> Posix sys_mmap_fn"
abbreviation "sys_munmap \<equiv> Posix sys_munmap_fn"
abbreviation "sys_errno \<equiv> Posix sys_errno_fn"
abbreviation "sys_sleep \<equiv> Posix sys_sleep_fn"

abbreviation "mem_calloc \<equiv> Lwip mem_calloc_fn"
abbreviation "mem_free \<equiv> Lwip mem_free_fn"
abbreviation "netif_add \<equiv> Lwip netif_add_fn"
abbreviation "netif_input \<equiv> Lwip netif_input_fn"
abbreviation "pbuf_free_callback \<equiv> Lwip pbuf_free_callback_fn"
abbreviation "pbuf_ref \<equiv> Lwip pbuf_ref_fn"
abbreviation "pbuf_header \<equiv> Lwip pbuf_header_fn"
abbreviation "pbuf_alloced_custom \<equiv> Lwip pbuf_alloced_custom_fn"

datatype event =
    Rd u32 u32               \<comment> \<open>a register read: address and the value returned\<close>
  | Wr u32 u32               \<comment> \<open>a register write: address and value\<close>
  | Call syscall "u32 list"  \<comment> \<open>a kernel call with its arguments\<close>

type_synonym trace = "event list"

text \<open>The environment. \<open>rd_reg\<close> is the device: what a register holds after a history.
  \<open>sys_ret\<close> and \<open>sys_hdf\<close> are the results of kernel calls that return a number or pointer, or a
  status code. The others are kernel macros that are not part of the repository.\<close>

record env =
  rd_reg :: "trace \<Rightarrow> u32 \<Rightarrow> u32"
  sys_ret :: "trace \<Rightarrow> syscall \<Rightarrow> u32 list \<Rightarrow> u32"
  sys_hdf :: "trace \<Rightarrow> syscall \<Rightarrow> u32 list \<Rightarrow> HDF_STATUS"
  ALIGN :: "u32 \<Rightarrow> u32 \<Rightarrow> u32"
  IO_DEVICE_ADDR :: "u32 \<Rightarrow> u32"
  VMM_TO_DMA_ADDR :: "u64 \<Rightarrow> u64"
  LOS_ASSERT :: "bool \<Rightarrow> bool"  \<comment> \<open>whether execution goes on past the assertion\<close>

subsection \<open>Register access\<close>

definition GET_UINT32 :: "env \<Rightarrow> u32 \<Rightarrow> trace \<Rightarrow> u32 \<times> trace" where
  "GET_UINT32 E a t = (let v = rd_reg E t a in (v, Rd a v # t))"

definition WRITE_UINT32 :: "u32 \<Rightarrow> u32 \<Rightarrow> trace \<Rightarrow> trace" where
  "WRITE_UINT32 v a t = Wr a v # t"

text \<open>The equations that turn a register access into its effect on the trace.\<close>

named_theorems io_defs

lemma GET_UINT32_eq [io_defs]: "GET_UINT32 E a t = (rd_reg E t a, Rd a (rd_reg E t a) # t)"
  by (simp add: GET_UINT32_def Let_def)

lemma WRITE_UINT32_eq [io_defs]: "WRITE_UINT32 v a t = Wr a v # t"
  by (simp add: WRITE_UINT32_def)

text \<open>Kernel calls: one that returns a number or pointer, one that returns a status code, and one
  whose result the caller ignores.\<close>

definition kcall :: "env \<Rightarrow> syscall \<Rightarrow> u32 list \<Rightarrow> trace \<Rightarrow> u32 \<times> trace" where
  "kcall E f xs t = (sys_ret E t f xs, Call f xs # t)"

definition kstatus :: "env \<Rightarrow> syscall \<Rightarrow> u32 list \<Rightarrow> trace \<Rightarrow> HDF_STATUS \<times> trace" where
  "kstatus E f xs t = (sys_hdf E t f xs, Call f xs # t)"

definition kproc :: "syscall \<Rightarrow> u32 list \<Rightarrow> trace \<Rightarrow> trace" where
  "kproc f xs t = Call f xs # t"

lemmas [io_defs] = kcall_def kstatus_def kproc_def

fun writes_of :: "trace \<Rightarrow> (u32 \<times> u32) list" where
  "writes_of [] = []"
| "writes_of (Wr a v # t) = writes_of t @ [(a, v)]"
| "writes_of (_ # t) = writes_of t"

definition writes_to :: "u32 \<Rightarrow> trace \<Rightarrow> u32 list" where
  "writes_to a t = map snd (filter (\<lambda>w. fst w = a) (writes_of t))"

text \<open>The kernel calls of a trace, and those of one function in the order they were made.\<close>

fun kcalls :: "trace \<Rightarrow> trace" where
  "kcalls [] = []"
| "kcalls (Call f xs # t) = Call f xs # kcalls t"
| "kcalls (_ # t) = kcalls t"

fun calls_in :: "syscall \<Rightarrow> trace \<Rightarrow> u32 list list" where
  "calls_in f [] = []"
| "calls_in f (Call g xs # t) = (if g = f then calls_in f t @ [xs] else calls_in f t)"
| "calls_in f (_ # t) = calls_in f t"

definition calls_of :: "syscall \<Rightarrow> trace \<Rightarrow> u32 list list" where
  "calls_of f t = calls_in f (kcalls t)"

lemma writes_of_append [simp]: "writes_of (s @ t) = writes_of t @ writes_of s"
  by (induction s rule: writes_of.induct) auto

lemma writes_to_simps [simp]:
  "writes_to a [] = []"
  "writes_to a (Wr b v # t) = (if b = a then writes_to a t @ [v] else writes_to a t)"
  "writes_to a (Rd b v # t) = writes_to a t"
  "writes_to a (Call f xs # t) = writes_to a t"
  by (simp_all add: writes_to_def)

lemma writes_to_append [simp]: "writes_to a (s @ t) = writes_to a t @ writes_to a s"
  by (simp add: writes_to_def)

lemma calls_of_simps [simp]:
  "calls_of f [] = []"
  "calls_of f (Wr b v # t) = calls_of f t"
  "calls_of f (Rd b v # t) = calls_of f t"
  "calls_of f (Call g xs # t) = (if g = f then calls_of f t @ [xs] else calls_of f t)"
  by (simp_all add: calls_of_def)

lemma kcalls_append [simp]: "kcalls (s @ t) = kcalls s @ kcalls t"
  by (induction s rule: kcalls.induct) auto

lemma kcalls_calls_of: "kcalls t' = kcalls t \<Longrightarrow> calls_of f t' = calls_of f t"
  by (simp add: calls_of_def)

subsection \<open>Array access with the bound written out\<close>

definition aget :: "'a list \<Rightarrow> nat \<Rightarrow> 'a option" where
  "aget xs i = (if i < length xs then Some (xs ! i) else None)"

definition aset :: "'a list \<Rightarrow> nat \<Rightarrow> 'a \<Rightarrow> 'a list option" where
  "aset xs i v = (if i < length xs then Some (xs[i := v]) else None)"

lemma aget_in [simp]: "i < length xs \<Longrightarrow> aget xs i = Some (xs ! i)"
  by (simp add: aget_def)

lemma aset_in [simp]: "i < length xs \<Longrightarrow> aset xs i v = Some (xs[i := v])"
  by (simp add: aset_def)

lemma aget_eq_Some: "aget xs i = Some x \<longleftrightarrow> i < length xs \<and> x = xs ! i"
  by (auto simp: aget_def)

lemma aset_eq_Some: "aset xs i v = Some ys \<longleftrightarrow> i < length xs \<and> ys = xs[i := v]"
  by (auto simp: aset_def)

text \<open>An array of structs updated in place: \<open>xs[i].field = ...\<close>.\<close>

definition aupd :: "'a list \<Rightarrow> nat \<Rightarrow> ('a \<Rightarrow> 'a) \<Rightarrow> 'a list option" where
  "aupd xs i f = (if i < length xs then Some (xs[i := f (xs ! i)]) else None)"

lemma aupd_in [simp]: "i < length xs \<Longrightarrow> aupd xs i f = Some (xs[i := f (xs ! i)])"
  by (simp add: aupd_def)

lemma aupd_eq_Some: "aupd xs i f = Some ys \<longleftrightarrow> i < length xs \<and> ys = xs[i := f (xs ! i)]"
  by (auto simp: aupd_def)

subsection \<open>What the kernel macros promise\<close>

text \<open>The documented behaviour of the LiteOS macro \<open>ALIGN(a, b)\<close> for a power of two \<open>b\<close>:
  the next multiple of \<open>b\<close>, when it is representable.\<close>

definition align_ok :: "(u32 \<Rightarrow> u32 \<Rightarrow> u32) \<Rightarrow> bool" where
  "align_ok al \<longleftrightarrow> (\<forall>a k. k \<le> 12 \<longrightarrow> unat a + 2 ^ k \<le> 2 ^ 32 \<longrightarrow>
     unat (al a (2 ^ k)) = ((unat a + 2 ^ k - 1) div 2 ^ k) * 2 ^ k)"

text \<open>A concrete function that keeps the promise; witnesses instantiate the parameter with it.\<close>

definition align_example :: "u32 \<Rightarrow> u32 \<Rightarrow> u32" where
  "align_example a b = of_nat ((unat a + unat b - 1) div unat b * unat b)"

lemma round_up_bounds:
  fixes a b :: nat
  assumes "0 < b"
  shows "a \<le> (a + b - 1) div b * b" and "(a + b - 1) div b * b \<le> a + (b - 1)"
proof -
  have "(a + b - 1) div b * b + (a + b - 1) mod b = a + b - 1"
    by (rule div_mult_mod_eq)
  moreover have "(a + b - 1) mod b < b"
    using assms by simp
  ultimately show "a \<le> (a + b - 1) div b * b" and "(a + b - 1) div b * b \<le> a + (b - 1)"
    by linarith+
qed

lemma align_okD:
  assumes "align_ok al" and "k \<le> 12" and "unat a + 2 ^ k \<le> 2 ^ 32"
  shows "unat a \<le> unat (al a (2 ^ k))"
    and "unat (al a (2 ^ k)) \<le> unat a + (2 ^ k - 1)"
    and "unat (al a (2 ^ k)) mod 2 ^ k = 0"
  using assms round_up_bounds [of "2 ^ k" "unat a"] by (simp_all add: align_ok_def)

lemma unat_two_power:
  assumes "k < LENGTH('a::len)"
  shows "unat ((2 :: 'a word) ^ k) = 2 ^ k"
proof -
  have "(2::nat) ^ k < 2 ^ LENGTH('a)"
    using assms by (intro power_strict_increasing) simp_all
  then have "unat (of_nat (2 ^ k) :: 'a word) = 2 ^ k"
    by (simp only: unat_of_nat mod_less)
  then show ?thesis by simp
qed

lemma align_example_ok: "align_ok align_example"
  unfolding align_ok_def
proof (intro allI impI)
  fix a :: u32 and k :: nat
  assume k: "k \<le> 12" and b: "unat a + 2 ^ k \<le> 2 ^ 32"
  have p: "unat ((2::u32) ^ k) = 2 ^ k"
    using k by (intro unat_two_power) simp
  have q: "(0::nat) < 2 ^ k" by simp
  have "(unat a + 2 ^ k - 1) div 2 ^ k * 2 ^ k < (2::nat) ^ 32"
    using round_up_bounds(2) [OF q, of "unat a"] b q by linarith
  then have "(unat a + 2 ^ k - 1) div 2 ^ k * 2 ^ k < (2::nat) ^ LENGTH(32)"
    by simp
  then show "unat (align_example a (2 ^ k)) = (unat a + 2 ^ k - 1) div 2 ^ k * 2 ^ k"
    by (simp only: align_example_def p unat_of_nat mod_less)
qed

end
