(* ===== verification/Virtmmio.thy ===== *)
theory Virtmmio
  imports Prelude
begin

text \<open>
  The virtio-mmio transport, \<open>drivers/virtio/virtmmio.c\<close> and \<open>virtmmio.h\<close>: device status,
  discovery, feature negotiation, the layout of the virtqueues in memory and their registration
  with the device. \<open>VirtmmioDev\<close> and \<open>Virtq\<close> are the C structs; the memory a queue's pointers
  point to is modelled in theory \<open>Virtq\<close>.
\<close>

subsection \<open>Constants of \<open>virtmmio.h\<close>\<close>

abbreviation (input) VIRTIO_STATUS_RESET :: u32 where "VIRTIO_STATUS_RESET \<equiv> 0"
abbreviation (input) VIRTIO_STATUS_ACK :: u32 where "VIRTIO_STATUS_ACK \<equiv> 1"
abbreviation (input) VIRTIO_STATUS_DRIVER :: u32 where "VIRTIO_STATUS_DRIVER \<equiv> 2"
abbreviation (input) VIRTIO_STATUS_DRIVER_OK :: u32 where "VIRTIO_STATUS_DRIVER_OK \<equiv> 4"
abbreviation (input) VIRTIO_STATUS_FEATURES_OK :: u32 where "VIRTIO_STATUS_FEATURES_OK \<equiv> 8"
abbreviation (input) VIRTIO_STATUS_FAILED :: u32 where "VIRTIO_STATUS_FAILED \<equiv> 128"

abbreviation (input) VIRTIO_FEATURE_WORD0 :: u32 where "VIRTIO_FEATURE_WORD0 \<equiv> 0"
abbreviation (input) VIRTIO_FEATURE_WORD1 :: u32 where "VIRTIO_FEATURE_WORD1 \<equiv> 1"
abbreviation (input) VIRTIO_F_VERSION_1 :: u32 where "VIRTIO_F_VERSION_1 \<equiv> 1"

abbreviation (input) VIRTMMIO_REG_MAGICVALUE :: u32 where "VIRTMMIO_REG_MAGICVALUE \<equiv> 0x00"
abbreviation (input) VIRTMMIO_REG_VERSION :: u32 where "VIRTMMIO_REG_VERSION \<equiv> 0x04"
abbreviation (input) VIRTMMIO_REG_DEVICEID :: u32 where "VIRTMMIO_REG_DEVICEID \<equiv> 0x08"
abbreviation (input) VIRTMMIO_REG_DEVFEATURE :: u32 where "VIRTMMIO_REG_DEVFEATURE \<equiv> 0x10"
abbreviation (input) VIRTMMIO_REG_DEVFEATURESEL :: u32 where "VIRTMMIO_REG_DEVFEATURESEL \<equiv> 0x14"
abbreviation (input) VIRTMMIO_REG_DRVFEATURE :: u32 where "VIRTMMIO_REG_DRVFEATURE \<equiv> 0x20"
abbreviation (input) VIRTMMIO_REG_DRVFEATURESEL :: u32 where "VIRTMMIO_REG_DRVFEATURESEL \<equiv> 0x24"
abbreviation (input) VIRTMMIO_REG_QUEUESEL :: u32 where "VIRTMMIO_REG_QUEUESEL \<equiv> 0x30"
abbreviation (input) VIRTMMIO_REG_QUEUENUMMAX :: u32 where "VIRTMMIO_REG_QUEUENUMMAX \<equiv> 0x34"
abbreviation (input) VIRTMMIO_REG_QUEUENUM :: u32 where "VIRTMMIO_REG_QUEUENUM \<equiv> 0x38"
abbreviation (input) VIRTMMIO_REG_QUEUEREADY :: u32 where "VIRTMMIO_REG_QUEUEREADY \<equiv> 0x44"
abbreviation (input) VIRTMMIO_REG_QUEUENOTIFY :: u32 where "VIRTMMIO_REG_QUEUENOTIFY \<equiv> 0x50"
abbreviation (input) VIRTMMIO_REG_INTERRUPTSTATUS :: u32 where "VIRTMMIO_REG_INTERRUPTSTATUS \<equiv> 0x60"
abbreviation (input) VIRTMMIO_REG_INTERRUPTACK :: u32 where "VIRTMMIO_REG_INTERRUPTACK \<equiv> 0x64"
abbreviation (input) VIRTMMIO_REG_STATUS :: u32 where "VIRTMMIO_REG_STATUS \<equiv> 0x70"
abbreviation (input) VIRTMMIO_REG_QUEUEDESCLOW :: u32 where "VIRTMMIO_REG_QUEUEDESCLOW \<equiv> 0x80"
abbreviation (input) VIRTMMIO_REG_QUEUEDRIVERLOW :: u32 where "VIRTMMIO_REG_QUEUEDRIVERLOW \<equiv> 0x90"
abbreviation (input) VIRTMMIO_REG_QUEUEDEVICELOW :: u32 where "VIRTMMIO_REG_QUEUEDEVICELOW \<equiv> 0xA0"
abbreviation (input) VIRTMMIO_REG_CONFIGGENERATION :: u32 where "VIRTMMIO_REG_CONFIGGENERATION \<equiv> 0xFC"
abbreviation (input) VIRTMMIO_REG_CONFIG :: u32 where "VIRTMMIO_REG_CONFIG \<equiv> 0x100"

abbreviation (input) VIRTQ_ALIGN_DESC :: u32 where "VIRTQ_ALIGN_DESC \<equiv> 16"
abbreviation (input) VIRTQ_ALIGN_AVAIL :: u32 where "VIRTQ_ALIGN_AVAIL \<equiv> 2"
abbreviation (input) VIRTQ_ALIGN_USED :: u32 where "VIRTQ_ALIGN_USED \<equiv> 4"

abbreviation (input) VIRTMMIO_MAGIC :: u32 where "VIRTMMIO_MAGIC \<equiv> 0x74726976"
abbreviation (input) VIRTMMIO_VERSION :: u32 where "VIRTMMIO_VERSION \<equiv> 2"
abbreviation (input) VIRTMMIO_DEVICE_ID_NET :: u32 where "VIRTMMIO_DEVICE_ID_NET \<equiv> 1"
abbreviation (input) VIRTMMIO_DEVICE_ID_BLK :: u32 where "VIRTMMIO_DEVICE_ID_BLK \<equiv> 2"
abbreviation (input) VIRTMMIO_DEVICE_ID_RNG :: u32 where "VIRTMMIO_DEVICE_ID_RNG \<equiv> 4"
abbreviation (input) VIRTMMIO_DEVICE_ID_GPU :: u32 where "VIRTMMIO_DEVICE_ID_GPU \<equiv> 16"
abbreviation (input) VIRTMMIO_DEVICE_ID_INPUT :: u32 where "VIRTMMIO_DEVICE_ID_INPUT \<equiv> 18"

abbreviation (input) VIRTMMIO_BASE_ADDR :: u32 where "VIRTMMIO_BASE_ADDR \<equiv> 0x0A000000"
abbreviation (input) VIRTMMIO_BASE_SIZE :: u32 where "VIRTMMIO_BASE_SIZE \<equiv> 0x200"
abbreviation (input) VIRTMMIO_BASE_IRQ :: u32 where "VIRTMMIO_BASE_IRQ \<equiv> 16"
abbreviation (input) NUM_VIRTIO_TRANSPORTS :: nat where "NUM_VIRTIO_TRANSPORTS \<equiv> 32"
abbreviation (input) IRQ_SPI_BASE :: u32 where "IRQ_SPI_BASE \<equiv> 32"
abbreviation (input) VIRTMMIO_IRQ_NOTIFY_USED :: u32 where "VIRTMMIO_IRQ_NOTIFY_USED \<equiv> 1"
abbreviation (input) IRQ_MASK :: u32 where "IRQ_MASK \<equiv> 0xFF"
abbreviation (input) VIRTQ_NUM :: nat where "VIRTQ_NUM \<equiv> 2"

text \<open>Sizes of the structs of a virtqueue: a descriptor, the fixed parts of the available and the
  used ring, and an element of the used ring.\<close>

abbreviation (input) SIZEOF_VirtqDesc :: u32 where "SIZEOF_VirtqDesc \<equiv> 16"
abbreviation (input) SIZEOF_VirtqAvail :: u32 where "SIZEOF_VirtqAvail \<equiv> 4"
abbreviation (input) SIZEOF_uint16 :: u32 where "SIZEOF_uint16 \<equiv> 2"
abbreviation (input) SIZEOF_VirtqUsed :: u32 where "SIZEOF_VirtqUsed \<equiv> 4"
abbreviation (input) SIZEOF_VirtqUsedElem :: u32 where "SIZEOF_VirtqUsedElem \<equiv> 8"

subsection \<open>Data\<close>

record Virtq =
  qsz :: u16
  q_last :: u16
  q_desc :: u32
  q_avail :: u32
  q_used :: u32

record VirtmmioDev =
  base :: u32
  irq :: u32
  vq :: "Virtq list"

subsection \<open>Status\<close>

definition VirtioGetStatus :: "env \<Rightarrow> VirtmmioDev \<Rightarrow> trace \<Rightarrow> u32 \<times> trace" where
  "VirtioGetStatus E dev t = GET_UINT32 E (base dev + VIRTMMIO_REG_STATUS) t"

definition VirtioAddStatus :: "env \<Rightarrow> VirtmmioDev \<Rightarrow> u32 \<Rightarrow> trace \<Rightarrow> trace" where
  "VirtioAddStatus E dev val t =
     (let (s, t) = VirtioGetStatus E dev t
      in WRITE_UINT32 (s OR val) (base dev + VIRTMMIO_REG_STATUS) t)"

definition VirtioResetStatus :: "VirtmmioDev \<Rightarrow> trace \<Rightarrow> trace" where
  "VirtioResetStatus dev t = WRITE_UINT32 VIRTIO_STATUS_RESET (base dev + VIRTMMIO_REG_STATUS) t"

lemma VirtioGetStatus_eq [io_defs]:
  "VirtioGetStatus E dev t =
     (rd_reg E t (base dev + VIRTMMIO_REG_STATUS),
      Rd (base dev + VIRTMMIO_REG_STATUS) (rd_reg E t (base dev + VIRTMMIO_REG_STATUS)) # t)"
  by (simp add: VirtioGetStatus_def io_defs)

lemma VirtioAddStatus_eq [io_defs]:
  "VirtioAddStatus E dev val t =
     (let r = base dev + VIRTMMIO_REG_STATUS; s = rd_reg E t r in Wr r (s OR val) # Rd r s # t)"
  by (simp add: VirtioAddStatus_def io_defs Let_def)

text \<open>The busy wait \<open>while ((VirtioGetStatus(dev) & VIRTIO_STATUS_DRIVER) == 0) { }\<close>.\<close>

partial_function (option) wait_driver :: "env \<Rightarrow> VirtmmioDev \<Rightarrow> trace \<Rightarrow> trace option" where
  "wait_driver E dev t =
     (let (s, t') = VirtioGetStatus E dev t
      in if s AND VIRTIO_STATUS_DRIVER = 0 then wait_driver E dev t' else Some t')"

definition VirtmmioInitBegin :: "env \<Rightarrow> VirtmmioDev \<Rightarrow> trace \<Rightarrow> trace option" where
  "VirtmmioInitBegin E dev t =
     (let t = VirtioResetStatus dev t;
          t = VirtioAddStatus E dev VIRTIO_STATUS_ACK t;
          t = VirtioAddStatus E dev VIRTIO_STATUS_DRIVER t
      in wait_driver E dev t)"

definition VritmmioInitEnd :: "env \<Rightarrow> VirtmmioDev \<Rightarrow> trace \<Rightarrow> trace" where
  "VritmmioInitEnd E dev t = VirtioAddStatus E dev VIRTIO_STATUS_DRIVER_OK t"

definition VirtmmioInitFailed :: "env \<Rightarrow> VirtmmioDev \<Rightarrow> trace \<Rightarrow> trace" where
  "VirtmmioInitFailed E dev t = VirtioAddStatus E dev VIRTIO_STATUS_FAILED t"

subsection \<open>Discovery\<close>

text \<open>The three reads of the condition, evaluated left to right with \<open>&&\<close>.\<close>

definition slot_matches :: "env \<Rightarrow> u32 \<Rightarrow> u32 \<Rightarrow> trace \<Rightarrow> bool \<times> trace" where
  "slot_matches E devId va t =
     (let (m, t) = GET_UINT32 E (va + VIRTMMIO_REG_MAGICVALUE) t in
      if m \<noteq> VIRTMMIO_MAGIC then (False, t) else
      let (v, t) = GET_UINT32 E (va + VIRTMMIO_REG_VERSION) t in
      if v \<noteq> VIRTMMIO_VERSION then (False, t) else
      let (d, t) = GET_UINT32 E (va + VIRTMMIO_REG_DEVICEID) t in
      (d = devId, t))"

text \<open>The loop \<open>for (i = NUM_VIRTIO_TRANSPORTS - 1; i >= 0; i--)\<close>; the argument is the number of
  iterations left, so \<open>Suc i\<close> is the iteration with index \<open>i\<close>.\<close>

fun discover_loop :: "env \<Rightarrow> u32 \<Rightarrow> nat \<Rightarrow> u32 \<Rightarrow> VirtmmioDev \<Rightarrow> trace \<Rightarrow> bool \<times> VirtmmioDev \<times> trace" where
  "discover_loop E devId 0 va dev t = (False, dev, t)"
| "discover_loop E devId (Suc i) va dev t =
     (let (ok, t) = slot_matches E devId va t in
      if ok then (True, dev\<lparr>base := va, irq := IRQ_SPI_BASE + VIRTMMIO_BASE_IRQ + of_nat i\<rparr>, t)
      else discover_loop E devId i (va - VIRTMMIO_BASE_SIZE) dev t)"

definition VirtmmioDiscover :: "env \<Rightarrow> u32 \<Rightarrow> VirtmmioDev \<Rightarrow> trace \<Rightarrow> bool \<times> VirtmmioDev \<times> trace" where
  "VirtmmioDiscover E devId dev t =
     (let va = IO_DEVICE_ADDR E VIRTMMIO_BASE_ADDR
               + VIRTMMIO_BASE_SIZE * of_nat (NUM_VIRTIO_TRANSPORTS - 1)
      in discover_loop E devId NUM_VIRTIO_TRANSPORTS va dev t)"

subsection \<open>Feature negotiation\<close>

text \<open>A feature callback gets the offered features, the current \<open>*supported\<close>, its device structure
  and the history (it may read the device's configuration space); it returns whether to go on, the
  new \<open>*supported\<close> and the updated structure.\<close>

type_synonym 's VirtioFeatureFn = "u32 \<Rightarrow> u32 \<Rightarrow> 's \<Rightarrow> trace \<Rightarrow> bool \<times> u32 \<times> 's"

text \<open>The \<open>do ... while (before != after)\<close> loop: \<open>Inl\<close> is the early return when the callback
  refuses, \<open>Inr\<close> the supported features when the configuration was stable.\<close>

partial_function (option) negotiate_loop ::
  "env \<Rightarrow> VirtmmioDev \<Rightarrow> 's VirtioFeatureFn \<Rightarrow> u32 \<Rightarrow> 's \<Rightarrow> trace \<Rightarrow> (u32 option \<times> 's \<times> trace) option" where
  "negotiate_loop E dev fn features s t =
     (let (before, t) = GET_UINT32 E (base dev + VIRTMMIO_REG_CONFIGGENERATION) t;
          (ok, supported, s) = fn features 0 s t
      in if \<not> ok then Some (None, s, t)
         else let (after, t) = GET_UINT32 E (base dev + VIRTMMIO_REG_CONFIGGENERATION) t
              in if before \<noteq> after then negotiate_loop E dev fn features s t
                 else Some (Some supported, s, t))"

definition Negotiate ::
  "env \<Rightarrow> VirtmmioDev \<Rightarrow> u32 \<Rightarrow> 's VirtioFeatureFn \<Rightarrow> 's \<Rightarrow> trace \<Rightarrow> (bool \<times> 's \<times> trace) option" where
  "Negotiate E dev nth_word fn s t = do {
     let t = WRITE_UINT32 nth_word (base dev + VIRTMMIO_REG_DEVFEATURESEL) t;
     let (features, t) = GET_UINT32 E (base dev + VIRTMMIO_REG_DEVFEATURE) t;
     (r, s, t) \<leftarrow> negotiate_loop E dev fn features s t;
     (case r of
        None \<Rightarrow> Some (False, s, t)
      | Some supported \<Rightarrow>
          let t = WRITE_UINT32 nth_word (base dev + VIRTMMIO_REG_DRVFEATURESEL) t;
              t = WRITE_UINT32 supported (base dev + VIRTMMIO_REG_DRVFEATURE) t
          in Some (True, s, t))
   }"

definition VirtmmioNegotiate ::
  "env \<Rightarrow> VirtmmioDev \<Rightarrow> 's VirtioFeatureFn \<Rightarrow> 's VirtioFeatureFn \<Rightarrow> 's \<Rightarrow> trace
     \<Rightarrow> (bool \<times> 's \<times> trace) option" where
  "VirtmmioNegotiate E dev f0 f1 s t = do {
     (ok, s, t) \<leftarrow> Negotiate E dev VIRTIO_FEATURE_WORD0 f0 s t;
     if \<not> ok then Some (False, s, t) else do {
       (ok, s, t) \<leftarrow> Negotiate E dev VIRTIO_FEATURE_WORD1 f1 s t;
       if \<not> ok then Some (False, s, t) else
         let t = VirtioAddStatus E dev VIRTIO_STATUS_FEATURES_OK t;
             (st, t) = VirtioGetStatus E dev t
         in if st AND VIRTIO_STATUS_FEATURES_OK = 0 then Some (False, s, t)
            else Some (True, s, t)
     }
   }"

subsection \<open>Queue layout and registration\<close>

definition VirtqSize :: "env \<Rightarrow> u16 \<Rightarrow> u32" where
  "VirtqSize E n =
     VIRTQ_ALIGN_DESC - 1 +
     ALIGN E (SIZEOF_VirtqDesc * ucast n) VIRTQ_ALIGN_AVAIL +
     ALIGN E (SIZEOF_VirtqAvail + SIZEOF_uint16 * ucast n) VIRTQ_ALIGN_USED +
     SIZEOF_VirtqUsed + SIZEOF_VirtqUsedElem * ucast n"

definition WriteQueueAddr :: "env \<Rightarrow> u64 \<Rightarrow> VirtmmioDev \<Rightarrow> u32 \<Rightarrow> trace \<Rightarrow> trace" where
  "WriteQueueAddr E addr dev regLow t =
     (let addr = VMM_TO_DMA_ADDR E addr;
          t = WRITE_UINT32 (ucast (addr AND 0xFFFFFFFF)) (base dev + regLow) t
      in WRITE_UINT32 (ucast (drop_bit 32 addr)) (base dev + regLow + 4) t)"

definition CompleteConfigQueue :: "env \<Rightarrow> u32 \<Rightarrow> VirtmmioDev \<Rightarrow> trace \<Rightarrow> (bool \<times> trace) option" where
  "CompleteConfigQueue E queue dev t = do {
     q \<leftarrow> aget (vq dev) (unat queue);
     let t = WRITE_UINT32 queue (base dev + VIRTMMIO_REG_QUEUESEL) t;
     let (num, t) = GET_UINT32 E (base dev + VIRTMMIO_REG_QUEUEREADY) t;
     if \<not> LOS_ASSERT E (num = 0) then None else
     let (num, t) = GET_UINT32 E (base dev + VIRTMMIO_REG_QUEUENUMMAX) t in
     if num < ucast (qsz q) then Some (False, t) else
     let t = WRITE_UINT32 (ucast (qsz q)) (base dev + VIRTMMIO_REG_QUEUENUM) t;
         t = WriteQueueAddr E (ucast (q_desc q)) dev VIRTMMIO_REG_QUEUEDESCLOW t;
         t = WriteQueueAddr E (ucast (q_avail q)) dev VIRTMMIO_REG_QUEUEDRIVERLOW t;
         t = WriteQueueAddr E (ucast (q_used q)) dev VIRTMMIO_REG_QUEUEDEVICELOW t;
         t = WRITE_UINT32 1 (base dev + VIRTMMIO_REG_QUEUEREADY) t
     in Some (True, t)
   }"

definition CalculateQueueAddr :: "env \<Rightarrow> u32 \<Rightarrow> u16 \<Rightarrow> Virtq \<Rightarrow> u32 \<times> Virtq" where
  "CalculateQueueAddr E va n q =
     (let va = ALIGN E va VIRTQ_ALIGN_DESC;
          q = q\<lparr>q_desc := va, qsz := n\<rparr>;
          va = ALIGN E (va + SIZEOF_VirtqDesc * ucast n) VIRTQ_ALIGN_AVAIL;
          q = q\<lparr>q_avail := va\<rparr>;
          va = ALIGN E (va + SIZEOF_VirtqAvail + SIZEOF_uint16 * ucast n) VIRTQ_ALIGN_USED;
          q = q\<lparr>q_used := va\<rparr>
      in (va + SIZEOF_VirtqUsed + SIZEOF_VirtqUsedElem * ucast n, q))"

fun config_queue_loop ::
  "env \<Rightarrow> u32 \<Rightarrow> u16 list \<Rightarrow> VirtmmioDev \<Rightarrow> u32 \<Rightarrow> trace \<Rightarrow> (u32 \<times> VirtmmioDev \<times> trace) option" where
  "config_queue_loop E i [] dev va t = Some (va, dev, t)"
| "config_queue_loop E i (n # ns) dev va t = do {
     q \<leftarrow> aget (vq dev) (unat i);
     let (va, q) = CalculateQueueAddr E va n q;
     vqs \<leftarrow> aset (vq dev) (unat i) q;
     let dev = dev\<lparr>vq := vqs\<rparr>;
     (ok, t) \<leftarrow> CompleteConfigQueue E i dev t;
     if \<not> ok then Some (0, dev, t)
     else config_queue_loop E (i + 1) ns dev va t
   }"

definition VirtmmioConfigQueue ::
  "env \<Rightarrow> VirtmmioDev \<Rightarrow> u32 \<Rightarrow> u16 list \<Rightarrow> nat \<Rightarrow> trace \<Rightarrow> (u32 \<times> VirtmmioDev \<times> trace) option" where
  "VirtmmioConfigQueue E dev va szs num t =
     (if length szs < num then None else config_queue_loop E 0 (take num szs) dev va t)"

subsection \<open>Interrupt registration\<close>

text \<open>The handler, its argument and the device name of \<open>LOS_HwiCreate\<close> are the caller's; the call
  is recorded with the interrupt number.\<close>

definition VirtmmioRegisterIRQ :: "env \<Rightarrow> VirtmmioDev \<Rightarrow> trace \<Rightarrow> bool \<times> VirtmmioDev \<times> trace" where
  "VirtmmioRegisterIRQ E dev t =
     (let ret = sys_ret E t LOS_HwiCreate [irq dev];
          t = Call LOS_HwiCreate [irq dev] # t
      in if ret \<noteq> 0 then (False, dev, t)
         else (True, dev\<lparr>irq := irq dev OR NOT IRQ_MASK\<rparr>, Call HalIrqUnmask [irq dev] # t))"

subsection \<open>The status handshake\<close>

text \<open>The documented behaviour of the status register: it reads back the last value written.\<close>

definition status_echo :: "env \<Rightarrow> u32 \<Rightarrow> bool" where
  "status_echo E b \<longleftrightarrow> (\<forall>t. writes_to (b + VIRTMMIO_REG_STATUS) t \<noteq> [] \<longrightarrow>
     rd_reg E t (b + VIRTMMIO_REG_STATUS) = last (writes_to (b + VIRTMMIO_REG_STATUS) t))"

lemma status_echoD:
  "status_echo E b \<Longrightarrow> writes_to (b + 0x70) t = ws @ [v] \<Longrightarrow> rd_reg E t (b + 0x70) = v"
  by (simp add: status_echo_def)

primrec poll_history :: "env \<Rightarrow> VirtmmioDev \<Rightarrow> nat \<Rightarrow> trace \<Rightarrow> trace" where
  "poll_history E dev 0 t = t"
| "poll_history E dev (Suc n) t = poll_history E dev n (snd (VirtioGetStatus E dev t))"

definition driver_seen :: "env \<Rightarrow> VirtmmioDev \<Rightarrow> trace \<Rightarrow> bool" where
  "driver_seen E dev t \<longleftrightarrow> fst (VirtioGetStatus E dev t) AND VIRTIO_STATUS_DRIVER \<noteq> 0"

lemma wait_driver_unfold:
  "wait_driver E dev t =
     (if driver_seen E dev t then Some (snd (VirtioGetStatus E dev t))
      else wait_driver E dev (snd (VirtioGetStatus E dev t)))"
  by (subst wait_driver.simps) (simp add: driver_seen_def Let_def split: prod.split)

lemma wait_driver_returns:
  "driver_seen E dev (poll_history E dev n t) \<Longrightarrow> \<exists>t'. wait_driver E dev t = Some t'"
proof (induction n arbitrary: t)
  case 0
  then show ?case by (subst wait_driver_unfold) simp
next
  case (Suc n)
  then show ?case by (subst wait_driver_unfold) simp
qed

lemma wait_driver_saw:
  assumes "wait_driver E dev t = Some t'"
  shows "\<exists>n. driver_seen E dev (poll_history E dev n t) \<and> t' = poll_history E dev (Suc n) t"
proof (rule wait_driver.raw_induct [where P = "\<lambda>E dev t t'. \<exists>n. driver_seen E dev (poll_history E dev n t)
         \<and> t' = poll_history E dev (Suc n) t", OF _ assms], goal_cases)
  case (1 f E dev t t')
  obtain s u where su: "VirtioGetStatus E dev t = (s, u)" by (cases "VirtioGetStatus E dev t")
  show ?case
  proof (cases "driver_seen E dev t")
    case True
    with 1(2) su show ?thesis by (intro exI [of _ 0]) (simp add: driver_seen_def)
  next
    case False
    with 1(2) su have "f E dev u = Some t'" by (simp add: driver_seen_def)
    from 1(1) [OF this] obtain n where "driver_seen E dev (poll_history E dev n u)"
      "t' = poll_history E dev (Suc n) u" by blast
    with su show ?thesis by (intro exI [of _ "Suc n"]) simp
  qed
qed

lemma wait_driver_iff:
  "(\<exists>t'. wait_driver E dev t = Some t') \<longleftrightarrow> (\<exists>n. driver_seen E dev (poll_history E dev n t))"
  using wait_driver_returns wait_driver_saw by blast

lemma writes_of_GetStatus [simp]: "writes_of (snd (VirtioGetStatus E dev t)) = writes_of t"
  by (simp add: io_defs)

lemma writes_of_poll_history [simp]: "writes_of (poll_history E dev n t) = writes_of t"
  by (induction n arbitrary: t) simp_all

lemma wait_driver_writes: "wait_driver E dev t = Some t' \<Longrightarrow> writes_of t' = writes_of t"
  by (drule wait_driver_saw) (auto simp del: poll_history.simps)

lemma InitBegin_handshake:
  assumes "status_echo E (base dev)"
  shows "\<exists>t'. VirtmmioInitBegin E dev t = Some t' \<and>
    writes_of t' = writes_of t @ map (Pair (base dev + VIRTMMIO_REG_STATUS)) [0, 1, 3]"
proof -
  let ?r = "base dev + VIRTMMIO_REG_STATUS"
  let ?t1 = "Wr ?r 0 # t"
  let ?t2 = "Wr ?r 1 # Rd ?r 0 # ?t1"
  let ?t3 = "Wr ?r 3 # Rd ?r 1 # ?t2"
  have r1: "rd_reg E ?t1 ?r = 0" and r2: "rd_reg E ?t2 ?r = 1" and r3: "rd_reg E ?t3 ?r = 3"
    by (rule status_echoD [OF assms]; simp)+
  have b: "VirtmmioInitBegin E dev t = wait_driver E dev ?t3"
    using r1 r2 by (simp add: VirtmmioInitBegin_def VirtioResetStatus_def io_defs Let_def)
  have "driver_seen E dev ?t3"
    using r3 by (simp add: driver_seen_def io_defs)
  then obtain t' where "wait_driver E dev ?t3 = Some t'"
    using wait_driver_returns [of E dev 0] by auto
  moreover from this have "writes_of t' = writes_of ?t3" by (rule wait_driver_writes)
  ultimately show ?thesis using b by simp
qed

subsection \<open>Negotiation\<close>

lemma negotiate_loop_spec:
  assumes "negotiate_loop E dev fn features s t = Some (r, s', t')"
  shows "writes_of t' = writes_of t \<and> kcalls t' = kcalls t \<and>
    (\<forall>sp. r = Some sp \<longrightarrow> (\<exists>s0 t0. fn features 0 s0 t0 = (True, sp, s')))"
proof -
  let ?P = "\<lambda>E (dev::VirtmmioDev) (fn::'a VirtioFeatureFn) features (s::'a) t (r, s', t').
      writes_of t' = writes_of t \<and> kcalls t' = kcalls t \<and>
    (\<forall>sp. r = Some sp \<longrightarrow> (\<exists>s0 t0. fn features 0 s0 t0 = (True, sp, s')))"
  have "?P E dev fn features s t (r, s', t')"
  proof (rule negotiate_loop.raw_induct [where P = ?P, OF _ assms], goal_cases)
    case (1 g E dev fn features s t y)
    obtain ok sp u where fn: "fn features 0 s (Rd (base dev + 0xFC) (rd_reg E t (base dev + 0xFC)) # t) = (ok, sp, u)"
      by (cases "fn features 0 s (Rd (base dev + 0xFC) (rd_reg E t (base dev + 0xFC)) # t)")
    show ?case
      using 1(2) fn by (auto simp: io_defs Let_def split: if_splits dest!: 1(1))
  qed
  then show ?thesis by simp
qed


lemma Negotiate_True:
  assumes "Negotiate E dev n fn s t = Some (True, s', t')"
  shows "\<exists>sp s0 t0. fn (rd_reg E (Wr (base dev + VIRTMMIO_REG_DEVFEATURESEL) n # t)
                            (base dev + VIRTMMIO_REG_DEVFEATURE)) 0 s0 t0 = (True, sp, s') \<and>
    writes_of t' = writes_of t @ [(base dev + VIRTMMIO_REG_DEVFEATURESEL, n),
      (base dev + VIRTMMIO_REG_DRVFEATURESEL, n), (base dev + VIRTMMIO_REG_DRVFEATURE, sp)]"
  using assms by (fastforce simp: Negotiate_def io_defs Let_def split: option.splits Option.bind_splits
      dest!: negotiate_loop_spec)

lemma Negotiate_False:
  assumes "Negotiate E dev n fn s t = Some (False, s', t')"
  shows "writes_of t' = writes_of t @ [(base dev + VIRTMMIO_REG_DEVFEATURESEL, n)]"
  using assms by (auto simp: Negotiate_def io_defs Let_def split: option.splits Option.bind_splits
      dest!: negotiate_loop_spec)

lemma Negotiate_calls:
  assumes "Negotiate E dev n fn s t = Some (ok, s', t')"
  shows "kcalls t' = kcalls t"
  using assms by (auto simp: Negotiate_def io_defs Let_def split: option.splits Option.bind_splits
      dest!: negotiate_loop_spec)

lemma VirtmmioNegotiate_calls:
  assumes "VirtmmioNegotiate E dev f0 f1 s t = Some (ok, s', t')"
  shows "kcalls t' = kcalls t"
  using assms by (auto simp: VirtmmioNegotiate_def io_defs Let_def dest!: Negotiate_calls
      split: Option.bind_splits if_splits)

text \<open>A feature callback is honest when it adds to \<open>*supported\<close> only bits the device offers.\<close>

locale honest_callback =
  fixes fn :: "u32 \<Rightarrow> u32 \<Rightarrow> 's \<Rightarrow> trace \<Rightarrow> bool \<times> u32 \<times> 's"
  assumes offered: "fn F p s t = (ok, sp, s') \<Longrightarrow> sp AND NOT (F OR p) = 0"

text \<open>The pair of callbacks a driver hands to \<open>VirtmmioNegotiate\<close>: both are honest, and the second
  insists on the feature bit of a non-legacy device.\<close>

locale virtio_driver = f0: honest_callback f0 + f1: honest_callback f1
  for f0 :: "u32 \<Rightarrow> u32 \<Rightarrow> 's \<Rightarrow> trace \<Rightarrow> bool \<times> u32 \<times> 's"
    and f1 :: "u32 \<Rightarrow> u32 \<Rightarrow> 's \<Rightarrow> trace \<Rightarrow> bool \<times> u32 \<times> 's" +
  assumes version_1: "f1 F p s t = (True, sp, s') \<Longrightarrow> F AND VIRTIO_F_VERSION_1 \<noteq> 0 \<and> sp AND VIRTIO_F_VERSION_1 \<noteq> 0"
begin

lemma negotiated:
  assumes "VirtmmioNegotiate E dev f0 f1 s t = Some (True, s', t')"
  shows "\<exists>S0 S1 st t1 t2 v.
    S0 AND NOT (rd_reg E (Wr (base dev + VIRTMMIO_REG_DEVFEATURESEL) 0 # t) (base dev + VIRTMMIO_REG_DEVFEATURE)) = 0 \<and>
    S1 AND NOT (rd_reg E (Wr (base dev + VIRTMMIO_REG_DEVFEATURESEL) 1 # t1) (base dev + VIRTMMIO_REG_DEVFEATURE)) = 0 \<and>
    S1 AND VIRTIO_F_VERSION_1 \<noteq> 0 \<and>
    writes_of t' = writes_of t @
      [(base dev + VIRTMMIO_REG_DEVFEATURESEL, 0), (base dev + VIRTMMIO_REG_DRVFEATURESEL, 0),
       (base dev + VIRTMMIO_REG_DRVFEATURE, S0),
       (base dev + VIRTMMIO_REG_DEVFEATURESEL, 1), (base dev + VIRTMMIO_REG_DRVFEATURESEL, 1),
       (base dev + VIRTMMIO_REG_DRVFEATURE, S1),
       (base dev + VIRTMMIO_REG_STATUS, st OR VIRTIO_STATUS_FEATURES_OK)] \<and>
    t' = Rd (base dev + VIRTMMIO_REG_STATUS) v # t2 \<and> v AND VIRTIO_STATUS_FEATURES_OK \<noteq> 0"
proof -
  from assms obtain s1 t1 s2 t2 where
    n0: "Negotiate E dev 0 f0 s t = Some (True, s1, t1)" and
    n1: "Negotiate E dev 1 f1 s1 t1 = Some (True, s2, t2)" and
    ok: "rd_reg E (VirtioAddStatus E dev 8 t2) (base dev + 0x70) AND 8 \<noteq> 0" and
    t': "t' = snd (VirtioGetStatus E dev (VirtioAddStatus E dev 8 t2))"
    by (auto simp: VirtmmioNegotiate_def VirtioGetStatus_eq Let_def split: Option.bind_splits if_splits)
  from Negotiate_True [OF n0] obtain S0 where
    "S0 AND NOT (rd_reg E (Wr (base dev + VIRTMMIO_REG_DEVFEATURESEL) 0 # t) (base dev + VIRTMMIO_REG_DEVFEATURE)) = 0"
    "writes_of t1 = writes_of t @ [(base dev + VIRTMMIO_REG_DEVFEATURESEL, 0),
      (base dev + VIRTMMIO_REG_DRVFEATURESEL, 0), (base dev + VIRTMMIO_REG_DRVFEATURE, S0)]"
    by (auto dest: f0.offered)
  moreover from Negotiate_True [OF n1] obtain S1 where
    "S1 AND NOT (rd_reg E (Wr (base dev + VIRTMMIO_REG_DEVFEATURESEL) 1 # t1) (base dev + VIRTMMIO_REG_DEVFEATURE)) = 0"
    "S1 AND VIRTIO_F_VERSION_1 \<noteq> 0"
    "writes_of t2 = writes_of t1 @ [(base dev + VIRTMMIO_REG_DEVFEATURESEL, 1),
      (base dev + VIRTMMIO_REG_DRVFEATURESEL, 1), (base dev + VIRTMMIO_REG_DRVFEATURE, S1)]"
    by (metis f1.offered version_1 or.right_neutral)
  ultimately show ?thesis
    using ok t'
    by (intro exI [of _ S0] exI [of _ S1] exI [of _ "rd_reg E t2 (base dev + VIRTMMIO_REG_STATUS)"]
        exI [of _ t1] exI [of _ "VirtioAddStatus E dev VIRTIO_STATUS_FEATURES_OK t2"] exI) (simp add: io_defs Let_def)
qed

end


subsection \<open>The layout of the queues\<close>

text \<open>What the virtio specification asks of a queue in memory: the three parts aligned, in order,
  disjoint, inside \<open>[lo, hi)\<close>.\<close>

lemma align_ok_value:
  "align_ok al \<Longrightarrow> k \<le> 12 \<Longrightarrow> unat a + 2 ^ k \<le> 2 ^ 32 \<Longrightarrow>
   unat (al a (2 ^ k)) = ((unat a + 2 ^ k - 1) div 2 ^ k) * 2 ^ k"
  by (simp add: align_ok_def)

definition laid_out :: "nat \<Rightarrow> Virtq \<Rightarrow> u16 \<Rightarrow> nat \<Rightarrow> bool" where
  "laid_out lo q n hi \<longleftrightarrow> qsz q = n \<and>
     unat (q_desc q) mod 16 = 0 \<and> unat (q_avail q) mod 2 = 0 \<and> unat (q_used q) mod 4 = 0 \<and>
     lo \<le> unat (q_desc q) \<and>
     unat (q_desc q) + 16 * unat n \<le> unat (q_avail q) \<and>
     unat (q_avail q) + 4 + 2 * unat n \<le> unat (q_used q) \<and>
     unat (q_used q) + 4 + 8 * unat n \<le> hi"

lemma unat_u16_bound: "unat (n :: u16) < 65536"
  using unsigned_less [of n] by simp

lemma unat_ucast_u16 [simp]: "unat (ucast (n :: u16) :: u32) = unat n"
  using unat_u16_bound [of n] by (simp add: unsigned_ucast_eq take_bit_nat_eq_self)

text \<open>The bytes of a queue of \<open>n\<close> entries without the padding at its front.\<close>

definition queue_bytes :: "u16 \<Rightarrow> nat" where
  "queue_bytes n = 16 * unat n + (4 + 2 * unat n + 3) div 4 * 4 + 4 + 8 * unat n"

lemma queue_bytes_bound: "queue_bytes n \<le> 26 * unat n + 11"
  by (simp add: queue_bytes_def)

lemma unat_small_mult:
  fixes n :: u16
  assumes "k \<le> 16"
  shows "unat (of_nat k * ucast n :: u32) = k * unat n"
proof -
  have "k * unat n \<le> 16 * 65535"
    using assms unat_u16_bound [of n] by (intro mult_le_mono) simp_all
  then show ?thesis
    using assms by (simp add: unat_word_ariths unat_of_nat)
qed

lemma VirtqSize_bytes:
  assumes "align_ok (ALIGN E)"
  shows "unat (VirtqSize E n) = 15 + queue_bytes n"
proof -
  note n = unat_u16_bound [of n]
  have u16: "unat (16 * ucast n :: u32) = 16 * unat n"
   and u8: "unat (8 * ucast n :: u32) = 8 * unat n"
   and u2: "unat (2 * ucast n :: u32) = 2 * unat n"
    using unat_small_mult [of 16 n] unat_small_mult [of 8 n] unat_small_mult [of 2 n] by simp_all
  have u4: "unat (4 + 2 * ucast n :: u32) = 4 + 2 * unat n"
    using n by (simp add: unat_word_ariths u2)
  have a1: "unat (ALIGN E (16 * ucast n) 2) = 16 * unat n"
    using align_ok_value [OF assms, of 1 "16 * ucast n"] n u16 by simp
  have a2: "unat (ALIGN E (4 + 2 * ucast n) 4) = (4 + 2 * unat n + 3) div 4 * 4"
    using align_ok_value [OF assms, of 2 "4 + 2 * ucast n"] n u4 by simp
  show ?thesis
    using n a1 a2 u8 by (simp add: VirtqSize_def queue_bytes_def unat_word_ariths)
qed

lemma CalculateQueueAddr_layout:
  assumes al: "align_ok (ALIGN E)"
    and fits: "unat va + unat (VirtqSize E n) < 2 ^ 32"
    and c: "CalculateQueueAddr E va n q = (va', q')"
  shows "laid_out (unat va) q' n (unat va')" and "unat va' \<le> unat va + unat (VirtqSize E n)"
    and "unat va' = unat (q_used q') + 4 + 8 * unat (qsz q')" and "q_last q' = q_last q"
proof -
  note n = unat_u16_bound [of n]
  have u16: "unat (16 * ucast n :: u32) = 16 * unat n"
   and u8: "unat (8 * ucast n :: u32) = 8 * unat n"
   and u2: "unat (2 * ucast n :: u32) = 2 * unat n"
    using unat_small_mult [of 16 n] unat_small_mult [of 8 n] unat_small_mult [of 2 n] by simp_all
  have f: "unat va + 15 + queue_bytes n < 2 ^ 32"
    using fits VirtqSize_bytes [OF al] by simp
  define d where "d = ALIGN E va 16"
  define a where "a = ALIGN E (d + 16 * ucast n) 2"
  define u where "u = ALIGN E (a + 4 + 2 * ucast n) 4"
  note A = align_okD [OF al]
  have d: "unat va \<le> unat d" "unat d \<le> unat va + 15" "unat d mod 16 = 0"
    using A [of 4 va] f by (simp_all add: d_def)
  have d16: "unat (d + 16 * ucast n) = unat d + 16 * unat n"
    using d f by (simp add: unat_word_ariths u16 queue_bytes_def)
  have a: "unat (d + 16 * ucast n) \<le> unat a" "unat a \<le> unat (d + 16 * ucast n) + 1" "unat a mod 2 = 0"
    using A [of 1 "d + 16 * ucast n"] d d16 f by (simp_all add: a_def queue_bytes_def)
  have a': "unat a = unat d + 16 * unat n"
    using a d16 d(3) by presburger
  have a4: "unat (a + 4 + 2 * ucast n) = unat d + 16 * unat n + 4 + 2 * unat n"
    using a' d f by (simp add: unat_word_ariths u2 queue_bytes_def)
  have u: "unat (a + 4 + 2 * ucast n) \<le> unat u" "unat u \<le> unat (a + 4 + 2 * ucast n) + 3" "unat u mod 4 = 0"
    using A [of 2 "a + 4 + 2 * ucast n"] d a4 f by (simp_all add: u_def queue_bytes_def)
  have u': "unat u = unat d + 16 * unat n + (4 + 2 * unat n + 3) div 4 * 4"
    using u a4 d(3) by presburger
  have e: "unat (u + 4 + 8 * ucast n) = unat d + queue_bytes n"
    using u' d f by (simp add: unat_word_ariths u8 queue_bytes_def)
  have va': "va' = u + 4 + 8 * ucast n" and q': "q' = q\<lparr>q_desc := d, qsz := n, q_avail := a, q_used := u\<rparr>"
    using c by (auto simp: CalculateQueueAddr_def Let_def d_def a_def u_def)
  show "laid_out (unat va) q' n (unat va')"
    using d a a' a4 u e u' by (simp add: laid_out_def q' va' queue_bytes_def)
  show "unat va' \<le> unat va + unat (VirtqSize E n)"
    using e d VirtqSize_bytes [OF al] by (simp add: va')
  show "unat va' = unat (q_used q') + 4 + 8 * unat (qsz q')"
    using e u' by (simp add: va' q' queue_bytes_def)
  show "q_last q' = q_last q" by (simp add: q')
qed

subsection \<open>Registration of the queues\<close>


text \<open>One past the last byte of a queue, and a list of queues laid out one after the other.\<close>

definition queue_end :: "Virtq \<Rightarrow> nat" where
  "queue_end q = unat (q_used q) + 4 + 8 * unat (qsz q)"

fun queues_laid_out :: "nat \<Rightarrow> Virtq list \<Rightarrow> u16 list \<Rightarrow> nat \<Rightarrow> bool" where
  "queues_laid_out lo [] ns hi \<longleftrightarrow> ns = [] \<and> lo \<le> hi"
| "queues_laid_out lo (q # qs) [] hi \<longleftrightarrow> False"
| "queues_laid_out lo (q # qs) (n # ns) hi \<longleftrightarrow>
     laid_out lo q n (queue_end q) \<and> queues_laid_out (queue_end q) qs ns hi"

text \<open>The register writes that tell the device about a queue, in order.\<close>

definition addr_writes :: "env \<Rightarrow> u32 \<Rightarrow> u32 \<Rightarrow> (u32 \<times> u32) list" where
  "addr_writes E r a = [(r, ucast (VMM_TO_DMA_ADDR E (ucast a))),
                        (r + 4, ucast (drop_bit 32 (VMM_TO_DMA_ADDR E (ucast a))))]"

definition queue_writes :: "env \<Rightarrow> u32 \<Rightarrow> u32 \<Rightarrow> Virtq \<Rightarrow> (u32 \<times> u32) list" where
  "queue_writes E b i q =
     [(b + VIRTMMIO_REG_QUEUESEL, i), (b + VIRTMMIO_REG_QUEUENUM, ucast (qsz q))] @
     addr_writes E (b + VIRTMMIO_REG_QUEUEDESCLOW) (q_desc q) @
     addr_writes E (b + VIRTMMIO_REG_QUEUEDRIVERLOW) (q_avail q) @
     addr_writes E (b + VIRTMMIO_REG_QUEUEDEVICELOW) (q_used q) @
     [(b + VIRTMMIO_REG_QUEUEREADY, 1)]"

lemma ucast_low_half: "(ucast (a AND 0xFFFFFFFF :: u64) :: u32) = ucast a"
proof -
  have "(0xFFFFFFFF :: u64) = mask 32" by (simp add: mask_eq_exp_minus_1)
  then have "a AND 0xFFFFFFFF = take_bit 32 a" by (simp only: take_bit_eq_mask)
  then show ?thesis by (simp only:) (rule bit_word_eqI, simp add: bit_simps)
qed

text \<open>The two halves the device gets are the DMA address.\<close>

lemma addr_halves:
  fixes a :: u64
  shows "ucast (ucast a :: u32) OR push_bit 32 (ucast (ucast (drop_bit 32 a) :: u32)) = a"
  by (rule bit_word_eqI) (auto simp: bit_simps)

lemma CompleteConfigQueue_writes:
  assumes "CompleteConfigQueue E i dev t = Some (ok, t')"
  shows "unat i < length (vq dev)"
    and "writes_of t' = writes_of t @
      (if ok then queue_writes E (base dev) i (vq dev ! unat i) else [(base dev + VIRTMMIO_REG_QUEUESEL, i)])"
    and "kcalls t' = kcalls t"
  using assms by (auto simp: CompleteConfigQueue_def WriteQueueAddr_def io_defs Let_def aget_eq_Some
      queue_writes_def addr_writes_def ucast_low_half split: Option.bind_splits if_splits)

lemma config_queue_loop_Cons:
  assumes "config_queue_loop E i (n # ns) dev va t = Some (va', dev', t')"
  obtains va1 q1 dev1 ok t1 where
    "unat i < length (vq dev)"
    "CalculateQueueAddr E va n (vq dev ! unat i) = (va1, q1)"
    "dev1 = dev\<lparr>vq := (vq dev)[unat i := q1]\<rparr>"
    "CompleteConfigQueue E i dev1 t = Some (ok, t1)"
    "if ok then config_queue_loop E (i + 1) ns dev1 va1 t1 = Some (va', dev', t')
     else va' = 0 \<and> dev' = dev1 \<and> t' = t1"
proof -
  obtain va1 q1 where c: "CalculateQueueAddr E va n (vq dev ! unat i) = (va1, q1)"
    by (cases "CalculateQueueAddr E va n (vq dev ! unat i)")
  have i: "unat i < length (vq dev)"
    using assms by (auto simp: aget_eq_Some split: Option.bind_splits)
  let ?d = "dev\<lparr>vq := (vq dev)[unat i := q1]\<rparr>"
  obtain ok t1 where cc: "CompleteConfigQueue E i ?d t = Some (ok, t1)"
    using assms i c by (cases "CompleteConfigQueue E i ?d t") auto
  show thesis
    using assms i c cc by (intro that [OF i c refl cc]) (simp add: Let_def split: if_splits)
qed

lemma unat_Suc_u32:
  fixes i :: u32
  shows "unat i < k \<Longrightarrow> k \<le> 65536 \<Longrightarrow> unat (i + 1) = Suc (unat i)"
  by (simp add: unat_word_ariths)

lemma config_queue_loop_frame:
  "config_queue_loop E i ns dev va t = Some (va', dev', t') \<Longrightarrow> length (vq dev) \<le> 65536 \<Longrightarrow>
   base dev' = base dev \<and> irq dev' = irq dev \<and> length (vq dev') = length (vq dev) \<and>
   kcalls t' = kcalls t \<and> (\<forall>j < unat i. vq dev' ! j = vq dev ! j)"
proof (induction ns arbitrary: i dev va t)
  case Nil
  then show ?case by simp
next
  case (Cons n ns)
  from Cons.prems(1) obtain va1 q1 dev1 ok t1 where s: "unat i < length (vq dev)"
    "CalculateQueueAddr E va n (vq dev ! unat i) = (va1, q1)"
    "dev1 = dev\<lparr>vq := (vq dev)[unat i := q1]\<rparr>"
    "CompleteConfigQueue E i dev1 t = Some (ok, t1)"
    "if ok then config_queue_loop E (i + 1) ns dev1 va1 t1 = Some (va', dev', t')
     else va' = 0 \<and> dev' = dev1 \<and> t' = t1"
    by (rule config_queue_loop_Cons)
  show ?case
    using s Cons.IH [of "i + 1" dev1 va1 t1] Cons.prems(2) CompleteConfigQueue_writes(3) [OF s(4)]
      unat_Suc_u32 [OF s(1)] by (auto split: if_splits)
qed

lemma config_queue_loop_success:
  assumes al: "align_ok (ALIGN E)"
  shows "config_queue_loop E i ns dev va t = Some (va', dev', t') \<Longrightarrow> length (vq dev) \<le> 65536 \<Longrightarrow>
    unat i \<le> length (vq dev) \<Longrightarrow> va' \<noteq> 0 \<Longrightarrow> unat va + sum_list (map (\<lambda>n. unat (VirtqSize E n)) ns) < 2 ^ 32 \<Longrightarrow>
    unat i + length ns \<le> length (vq dev) \<and>
    queues_laid_out (unat va) (take (length ns) (drop (unat i) (vq dev'))) ns (unat va') \<and>
    unat va' \<le> unat va + sum_list (map (\<lambda>n. unat (VirtqSize E n)) ns) \<and>
    writes_of t' = writes_of t @ concat (map (\<lambda>j. queue_writes E (base dev) (of_nat j) (vq dev' ! j))
      [unat i ..< unat i + length ns])"
proof (induction ns arbitrary: i dev va t)
  case Nil
  then show ?case by simp
next
  case (Cons n ns)
  from Cons.prems(1) obtain va1 q1 dev1 ok t1 where s: "unat i < length (vq dev)"
    "CalculateQueueAddr E va n (vq dev ! unat i) = (va1, q1)"
    "dev1 = dev\<lparr>vq := (vq dev)[unat i := q1]\<rparr>"
    "CompleteConfigQueue E i dev1 t = Some (ok, t1)"
    "if ok then config_queue_loop E (i + 1) ns dev1 va1 t1 = Some (va', dev', t')
     else va' = 0 \<and> dev' = dev1 \<and> t' = t1"
    by (rule config_queue_loop_Cons)
  have ok: "ok" and rest: "config_queue_loop E (i + 1) ns dev1 va1 t1 = Some (va', dev', t')"
    using s(5) Cons.prems(4) by (auto split: if_splits)
  have i1: "unat (i + 1) = Suc (unat i)"
    using s(1) Cons.prems(2) by (rule unat_Suc_u32)
  have lay: "laid_out (unat va) q1 n (unat va1)" "unat va1 \<le> unat va + unat (VirtqSize E n)"
    "unat va1 = queue_end q1"
    using CalculateQueueAddr_layout [OF al _ s(2)] Cons.prems(5) by (simp_all add: queue_end_def)
  have IH: "Suc (unat i) + length ns \<le> length (vq dev)"
    "queues_laid_out (unat va1) (take (length ns) (drop (Suc (unat i)) (vq dev'))) ns (unat va')"
    "unat va' \<le> unat va1 + sum_list (map (\<lambda>n. unat (VirtqSize E n)) ns)"
    "writes_of t' = writes_of t1 @ concat (map (\<lambda>j. queue_writes E (base dev) (of_nat j) (vq dev' ! j))
      [Suc (unat i) ..< Suc (unat i) + length ns])"
    using Cons.IH [OF rest] Cons.prems(2,4,5) lay(2) s(1,3) i1 by auto
  have f: "length (vq dev') = length (vq dev)" "vq dev' ! unat i = q1"
    using config_queue_loop_frame [OF rest] Cons.prems(2) s(1,3) i1 by auto
  have "drop (unat i) (vq dev') = q1 # drop (Suc (unat i)) (vq dev')"
    using f s(1) by (metis Cons_nth_drop_Suc)
  moreover have "writes_of t1 = writes_of t @ queue_writes E (base dev) i q1"
    using CompleteConfigQueue_writes(2) [OF s(4)] ok s(1,3) by simp
  moreover have "[unat i ..< unat i + length (n # ns)] = unat i # [Suc (unat i) ..< Suc (unat i) + length ns]"
    by (simp add: upt_conv_Cons del: upt_Suc)
  ultimately show ?case
    using IH lay f s(1) by (simp del: upt_Suc)
qed


subsection \<open>Properties of the transport\<close>

text \<open>The environment of the witnesses: \<open>ALIGN\<close> and the address maps are concrete functions, every
  kernel call succeeds, a register reads what was written to it last, and one never written reads
  \<open>preset\<close>.\<close>

definition example_env :: "(u32 \<Rightarrow> u32) \<Rightarrow> env" where
  "example_env preset = \<lparr>
     rd_reg = (\<lambda>t a. if writes_to a t = [] then preset a else last (writes_to a t)),
     sys_ret = (\<lambda>t f xs. if f = LOS_HwiCreate then 0 else 0x1000),
     sys_hdf = (\<lambda>t f xs. HDF_SUCCESS),
     ALIGN = align_example,
     IO_DEVICE_ADDR = (\<lambda>a. a),
     VMM_TO_DMA_ADDR = (\<lambda>a. a),
     LOS_ASSERT = (\<lambda>b. b)\<rparr>"

lemma example_env_simps [simp]:
  "rd_reg (example_env preset) t a = (if writes_to a t = [] then preset a else last (writes_to a t))"
  "sys_hdf (example_env preset) t f xs = HDF_SUCCESS"
  "ALIGN (example_env preset) = align_example"
  "VMM_TO_DMA_ADDR (example_env preset) x = x"
  "IO_DEVICE_ADDR (example_env preset) y = y"
  "LOS_ASSERT (example_env preset) b = b"
  "sys_ret (example_env preset) t f xs = (if f = LOS_HwiCreate then 0 else 0x1000)"
  by (simp_all add: example_env_def)

definition example_dev :: VirtmmioDev where
  "example_dev = \<lparr>base = 0x0A000000, irq = 48, vq = replicate VIRTQ_NUM \<lparr>qsz = 0, q_last = 0, q_desc = 0, q_avail = 0, q_used = 0\<rparr>\<rparr>"

lemma example_dev_simps [simp]: "base example_dev = 0x0A000000" "irq example_dev = 48"
  "vq example_dev = replicate VIRTQ_NUM \<lparr>qsz = 0, q_last = 0, q_desc = 0, q_avail = 0, q_used = 0\<rparr>"
  by (simp_all add: example_dev_def)

lemma example_env_echo: "status_echo (example_env preset) b"
  by (simp add: status_echo_def)

subsubsection \<open>Discovery\<close>

text \<open>The identification registers of the 32 transport slots do not change.\<close>

definition slot_addr :: "env \<Rightarrow> nat \<Rightarrow> u32" where
  "slot_addr E i = IO_DEVICE_ADDR E VIRTMMIO_BASE_ADDR + VIRTMMIO_BASE_SIZE * of_nat i"

definition stable_ids :: "env \<Rightarrow> (u32 \<Rightarrow> u32) \<Rightarrow> bool" where
  "stable_ids E ids \<longleftrightarrow> (\<forall>t i. i < NUM_VIRTIO_TRANSPORTS \<longrightarrow>
     (\<forall>r \<in> {VIRTMMIO_REG_MAGICVALUE, VIRTMMIO_REG_VERSION, VIRTMMIO_REG_DEVICEID}.
        rd_reg E t (slot_addr E i + r) = ids (slot_addr E i + r)))"

definition has_device :: "env \<Rightarrow> (u32 \<Rightarrow> u32) \<Rightarrow> u32 \<Rightarrow> nat \<Rightarrow> bool" where
  "has_device E ids devId i \<longleftrightarrow> ids (slot_addr E i) = VIRTMMIO_MAGIC \<and>
     ids (slot_addr E i + VIRTMMIO_REG_VERSION) = VIRTMMIO_VERSION \<and>
     ids (slot_addr E i + VIRTMMIO_REG_DEVICEID) = devId"

lemma slot_matches_stable:
  assumes "stable_ids E ids" and "i < NUM_VIRTIO_TRANSPORTS"
  shows "fst (slot_matches E devId (slot_addr E i) t) \<longleftrightarrow> has_device E ids devId i"
    and "writes_of (snd (slot_matches E devId (slot_addr E i) t)) = writes_of t"
proof -
  have r: "rd_reg E t (slot_addr E i) = ids (slot_addr E i)"
    "rd_reg E t (slot_addr E i + 4) = ids (slot_addr E i + 4)"
    "rd_reg E t (slot_addr E i + 8) = ids (slot_addr E i + 8)" for t
    using assms unfolding stable_ids_def by force+
  show "fst (slot_matches E devId (slot_addr E i) t) \<longleftrightarrow> has_device E ids devId i"
    and "writes_of (snd (slot_matches E devId (slot_addr E i) t)) = writes_of t"
    by (simp_all add: slot_matches_def has_device_def io_defs r)
qed

lemma discover_loop_picks:
  assumes st: "stable_ids E ids"
  shows "n \<le> NUM_VIRTIO_TRANSPORTS \<Longrightarrow>
    discover_loop E devId n (slot_addr E n - VIRTMMIO_BASE_SIZE) dev t = (ok, dev', t') \<Longrightarrow>
    writes_of t' = writes_of t \<and>
    (case rev (filter (has_device E ids devId) [0..<n]) of
       [] \<Rightarrow> \<not> ok \<and> dev' = dev
     | i # _ \<Rightarrow> ok \<and> dev' = dev\<lparr>base := slot_addr E i, irq := 48 + of_nat i\<rparr>)"
proof (induction n arbitrary: t)
  case 0
  then show ?case by simp
next
  case (Suc n)
  have a: "slot_addr E (Suc n) - VIRTMMIO_BASE_SIZE = slot_addr E n"
    by (simp add: slot_addr_def algebra_simps)
  obtain m u where mu: "slot_matches E devId (slot_addr E n) t = (m, u)"
    by (cases "slot_matches E devId (slot_addr E n) t")
  then have m: "m \<longleftrightarrow> has_device E ids devId n" and u: "writes_of u = writes_of t"
    using slot_matches_stable [OF st, of n devId t] Suc.prems(1) by simp_all
  show ?case
    using Suc.prems Suc.IH [of u] u by (auto simp: a mu m split: if_splits)
qed

text \<open>Discovery over the 32 transports only reads, and picks the matching transport of the
  highest index; its registers and interrupt number are the ones of that index. With no matching
  transport it fails and leaves the device structure as it was.\<close>

theorem VirtmmioDiscover_picks_highest:
  assumes "stable_ids E ids"
    and "VirtmmioDiscover E devId dev t = (ok, dev', t')"
  shows "writes_of t' = writes_of t \<and>
    (case rev (filter (has_device E ids devId) [0..<NUM_VIRTIO_TRANSPORTS]) of
       [] \<Rightarrow> \<not> ok \<and> dev' = dev
     | i # _ \<Rightarrow> ok \<and> dev' = dev\<lparr>base := slot_addr E i, irq := 48 + of_nat i\<rparr>)"
proof (rule discover_loop_picks [OF assms(1)])
  show "discover_loop E devId NUM_VIRTIO_TRANSPORTS (slot_addr E NUM_VIRTIO_TRANSPORTS - VIRTMMIO_BASE_SIZE) dev t
      = (ok, dev', t')"
    using assms(2) by (simp add: VirtmmioDiscover_def slot_addr_def add_diff_eq [symmetric])
qed simp

definition example_ids :: "u32 \<Rightarrow> u32" where
  "example_ids a = (if a = 0x0A003A00 \<or> a = 0x0A003C00 then VIRTMMIO_MAGIC
     else if a = 0x0A003A04 \<or> a = 0x0A003C04 then VIRTMMIO_VERSION
     else if a = 0x0A003A08 \<or> a = 0x0A003C08 then VIRTMMIO_DEVICE_ID_NET else 0)"

lemma VirtmmioDiscover_picks_highest_witness:
  "\<exists>t'. VirtmmioDiscover (example_env example_ids\<lparr>rd_reg := \<lambda>t. example_ids\<rparr>) 1 example_dev []
      = (True, example_dev\<lparr>base := 0x0A003C00, irq := 78\<rparr>, t') \<and> writes_of t' = []"
proof -
  let ?E = "example_env example_ids\<lparr>rd_reg := \<lambda>t. example_ids\<rparr>"
  obtain ok dev' t' where r: "VirtmmioDiscover ?E 1 example_dev [] = (ok, dev', t')"
    by (metis prod_cases3)
  have "stable_ids ?E example_ids" by (simp add: stable_ids_def)
  from VirtmmioDiscover_picks_highest [OF this r]
  have "writes_of t' = []" "ok \<and> dev' = example_dev\<lparr>base := 0x0A003C00, irq := 78\<rparr>"
    by (simp_all add: upt_rec has_device_def slot_addr_def example_ids_def)
  with r show ?thesis by simp
qed

text \<open>C11. Initialisation of a device whose status register reads back what is written ends, and has
  written to it the reset, then ACKNOWLEDGE, then ACKNOWLEDGE together with DRIVER, and nothing else.\<close>

theorem VirtmmioInitBegin_handshake:
  assumes "status_echo E (base dev)"
  shows "\<exists>t'. VirtmmioInitBegin E dev t = Some t' \<and>
    writes_of t' = writes_of t @ map (Pair (base dev + VIRTMMIO_REG_STATUS)) [0, 1, 3]"
  using assms by (rule InitBegin_handshake)

lemma VirtmmioInitBegin_handshake_witness:
  "\<exists>t'. VirtmmioInitBegin (example_env (\<lambda>_. 0)) example_dev [] = Some t' \<and>
     writes_of t' = [(0x0A000070, 0), (0x0A000070, 1), (0x0A000070, 3)]"
  using VirtmmioInitBegin_handshake [of "example_env (\<lambda>_. 0)" example_dev "[]"]
  by (simp add: example_env_echo)

text \<open>The busy wait for the DRIVER bit ends exactly when the device shows the bit after some
  number of polls, and polling writes nothing.\<close>

theorem wait_driver_ends_iff:
  "(\<exists>t'. wait_driver E dev t = Some t' \<and> writes_of t' = writes_of t) \<longleftrightarrow>
   (\<exists>n. driver_seen E dev (poll_history E dev n t))"
  using wait_driver_iff wait_driver_writes by metis

text \<open>C6. Queue configuration. When \<open>VirtmmioConfigQueue\<close> succeeds, the queues lie one after the
  other from \<open>va\<close> on, each with its parts aligned and disjoint, all inside the memory that
  \<open>VirtqSize\<close> accounts for, and the device was told exactly these addresses, queue by queue, with
  the ready bit written last.\<close>

theorem VirtmmioConfigQueue_lays_out_and_registers:
  assumes "align_ok (ALIGN E)"
    and "VirtmmioConfigQueue E dev va szs num t = Some (va', dev', t')" and "va' \<noteq> 0"
    and "unat va + (\<Sum>n\<leftarrow>take num szs. unat (VirtqSize E n)) < 2 ^ 32"
    and "length (vq dev) \<le> 65536"
  shows "num \<le> length (vq dev) \<and>
    queues_laid_out (unat va) (take num (vq dev')) (take num szs) (unat va') \<and>
    unat va' \<le> unat va + (\<Sum>n\<leftarrow>take num szs. unat (VirtqSize E n)) \<and>
    writes_of t' = writes_of t @
      concat (map (\<lambda>j. queue_writes E (base dev) (of_nat j) (vq dev' ! j)) [0..<num])"
proof -
  have n: "num \<le> length szs" and l: "config_queue_loop E 0 (take num szs) dev va t = Some (va', dev', t')"
    using assms(2) by (simp_all add: VirtmmioConfigQueue_def split: if_splits)
  show ?thesis
    using config_queue_loop_success [OF assms(1) l assms(5) _ assms(3,4)] n by (simp add: min_absorb2)
qed

lemma VirtmmioConfigQueue_lays_out_and_registers_witness:
  "\<exists>dev' t'. VirtmmioConfigQueue (example_env (\<lambda>a. if a = 0x0A000034 then 1024 else 0)) (example_dev\<lparr>vq := take 1 (vq example_dev)\<rparr>)
       0x40000004 [4] 1 [] = Some (0x40000080, dev', t') \<and>
     queues_laid_out 0x40000004 (take 1 (vq dev')) [4] 0x40000080 \<and>
     writes_of t' = queue_writes (example_env (\<lambda>a. if a = 0x0A000034 then 1024 else 0)) 0x0A000000 0 (vq dev' ! 0)"
proof -
  let ?E = "example_env (\<lambda>a. if a = 0x0A000034 then 1024 else 0)"
  let ?D = "example_dev\<lparr>vq := take 1 (vq example_dev)\<rparr>"
  obtain dev' t' where r: "VirtmmioConfigQueue ?E ?D 0x40000004 [4] 1 [] = Some (0x40000080, dev', t')"
    by (simp add: VirtmmioConfigQueue_def CalculateQueueAddr_def CompleteConfigQueue_def WriteQueueAddr_def
        io_defs Let_def align_example_def example_dev_def)
  have s: "unat (VirtqSize ?E 4) = 127"
    by (simp add: VirtqSize_def align_example_def)
  show ?thesis
    using VirtmmioConfigQueue_lays_out_and_registers [of ?E ?D "0x40000004" "[4]" 1 "[]" "0x40000080" dev' t'] r s
    by (intro exI [of _ dev'] exI [of _ t']) (simp add: align_example_ok)
qed

subsection \<open>What the transport leaves alone\<close>

lemma kcalls_slot_matches [simp]: "kcalls (snd (slot_matches E devId va t)) = kcalls t"
  by (simp add: slot_matches_def io_defs)

lemma discover_loop_calls:
  "discover_loop E devId n va dev t = (ok, dev', t') \<Longrightarrow> kcalls t' = kcalls t \<and> vq dev' = vq dev
    \<and> (\<not> ok \<longrightarrow> dev' = dev)"
proof (induction n arbitrary: va t)
  case 0
  then show ?case by simp
next
  case (Suc n)
  obtain m u where mu: "slot_matches E devId va t = (m, u)"
    by (cases "slot_matches E devId va t")
  then have "kcalls u = kcalls t"
    using kcalls_slot_matches [of E devId va t] by simp
  with Suc.prems Suc.IH [of "va - 0x200" u] mu show ?case by (auto split: if_splits)
qed

lemma VirtmmioDiscover_frame:
  assumes "VirtmmioDiscover E devId dev t = (ok, dev', t')"
  shows "kcalls t' = kcalls t" and "vq dev' = vq dev" and "\<not> ok \<Longrightarrow> dev' = dev"
  using discover_loop_calls [of E devId _ _ dev t ok dev' t'] assms
  by (simp_all add: VirtmmioDiscover_def Let_def)

lemma kcalls_poll_history [simp]: "kcalls (poll_history E dev n t) = kcalls t"
  by (induction n arbitrary: t) (simp_all add: io_defs)

lemma wait_driver_calls: "wait_driver E dev t = Some t' \<Longrightarrow> kcalls t' = kcalls t"
  by (drule wait_driver_saw) (auto simp del: poll_history.simps)

lemma VirtmmioInitBegin_calls: "VirtmmioInitBegin E dev t = Some t' \<Longrightarrow> kcalls t' = kcalls t"
  by (auto simp: VirtmmioInitBegin_def VirtioResetStatus_def io_defs Let_def dest!: wait_driver_calls)

lemma VirtmmioInitFailed_calls [simp]: "kcalls (VirtmmioInitFailed E dev t) = kcalls t"
  by (simp add: VirtmmioInitFailed_def io_defs Let_def)

lemma VritmmioInitEnd_calls [simp]: "kcalls (VritmmioInitEnd E dev t) = kcalls t"
  by (simp add: VritmmioInitEnd_def io_defs Let_def)

lemma VirtmmioConfigQueue_calls:
  "VirtmmioConfigQueue E dev va szs num t = Some (va', dev', t') \<Longrightarrow> length (vq dev) \<le> 65536 \<Longrightarrow>
   kcalls t' = kcalls t \<and> base dev' = base dev \<and> irq dev' = irq dev \<and> length (vq dev') = length (vq dev)"
  using config_queue_loop_frame [of E 0 _ dev va t va' dev' t']
  by (simp add: VirtmmioConfigQueue_def split: if_splits)

text \<open>What both callbacks keep of the driver's structure, the negotiation keeps.\<close>

lemma negotiate_loop_keeps:
  assumes "negotiate_loop E dev fn features s t = Some (r, s', t')"
    and "\<And>F p s t ok sp s'. fn F p s t = (ok, sp, s') \<Longrightarrow> Q s \<Longrightarrow> Q s'" and "Q s"
  shows "Q s'"
proof -
  let ?P = "\<lambda>E (dev::VirtmmioDev) (fn::'a VirtioFeatureFn) (features::u32) (s::'a) (t::trace) (r::u32 option, s', t'::trace).
     (\<forall>F p s t ok sp s'. fn F p s t = (ok, sp, s') \<longrightarrow> Q s \<longrightarrow> Q s') \<longrightarrow> Q s \<longrightarrow> Q s'"
  have "?P E dev fn features s t (r, s', t')"
  proof (rule negotiate_loop.raw_induct [where P = ?P, OF _ assms(1)], goal_cases)
    case (1 g E dev fn features s t y)
    obtain ok sp u where fn: "fn features 0 s (Rd (base dev + 0xFC) (rd_reg E t (base dev + 0xFC)) # t) = (ok, sp, u)"
      by (cases "fn features 0 s (Rd (base dev + 0xFC) (rd_reg E t (base dev + 0xFC)) # t)")
    obtain r s' t' where y: "y = (r, s', t')" by (cases y)
    show ?case
      using 1(2) fn 1(1) [of E dev fn features u _ y] by (auto simp: io_defs Let_def y split: if_splits)
  qed
  with assms(2,3) show ?thesis by blast
qed

lemma Negotiate_keeps:
  assumes "Negotiate E dev n fn s t = Some (ok, s', t')"
    and "\<And>F p s t ok sp s'. fn F p s t = (ok, sp, s') \<Longrightarrow> Q s \<Longrightarrow> Q s'" and "Q s"
  shows "Q s'"
  using assms(1) negotiate_loop_keeps [of E dev fn _ s _ _ s' _ Q, OF _ assms(2,3)]
  by (auto simp: Negotiate_def io_defs Let_def split: Option.bind_splits option.splits)

lemma VirtmmioNegotiate_keeps:
  assumes "VirtmmioNegotiate E dev f0 f1 s t = Some (ok, s', t')"
    and k0: "\<And>F p s t ok sp s'. f0 F p s t = (ok, sp, s') \<Longrightarrow> Q s \<Longrightarrow> Q s'"
    and k1: "\<And>F p s t ok sp s'. f1 F p s t = (ok, sp, s') \<Longrightarrow> Q s \<Longrightarrow> Q s'" and "Q s"
  shows "Q s'"
  using assms(1) Negotiate_keeps [of E dev 0 f0 s t _ _ _ Q, OF _ k0 \<open>Q s\<close>] Negotiate_keeps [of E dev 1 f1 _ _ _ _ _ Q, OF _ k1]
  by (auto simp: VirtmmioNegotiate_def io_defs Let_def split: Option.bind_splits if_splits)

text \<open>A single feature bit the device offers.\<close>

lemma offered_bit:
  fixes F m :: u32
  assumes "F AND m \<noteq> 0" and "m = 2 ^ k"
  shows "m AND NOT F = 0"
proof -
  have "bit F k"
    using assms by (simp add: and_exp_eq_0_iff_not_bit)
  then show ?thesis
    using assms(2) by (intro bit_word_eqI) (auto simp: bit_simps)
qed

lemma or_offered:
  fixes F p m :: u32
  assumes "m AND NOT F = 0"
  shows "(p OR m) AND NOT (F OR p) = 0"
proof -
  have "(p OR m) AND NOT (F OR p) = (m AND NOT F) AND NOT p"
    by (rule bit_word_eqI) (auto simp: bit_simps)
  with assms show ?thesis by simp
qed

lemma none_offered: "p AND NOT (F OR p :: u32) = 0"
  by (rule bit_word_eqI) (auto simp: bit_simps)

text \<open>The shapes the drivers' callbacks have: the first adds at most one bit it found offered, the
  second is the same in every driver.\<close>

lemma honest_callbackI:
  assumes "\<And>F p s t ok sp s'. fn F p s t = (ok, sp, s') \<Longrightarrow> sp = p \<or> F AND 2 ^ k \<noteq> 0 \<and> sp = p OR 2 ^ k"
  shows "honest_callback fn"
proof
  fix F p s t ok sp s'
  assume "fn F p s t = (ok, sp, s')"
  from assms [OF this] show "sp AND NOT (F OR p) = 0"
    by (elim disjE conjE) (simp_all only: none_offered or_offered [OF offered_bit [OF _ refl]] not_False_eq_True)
qed

lemma virtio_driverI:
  assumes "honest_callback f0"
    and f1: "\<And>F p s t. f1 F p s t = (if F AND VIRTIO_F_VERSION_1 \<noteq> 0 then (True, p OR VIRTIO_F_VERSION_1, s) else (False, p, s))"
  shows "virtio_driver f0 f1"
proof (intro virtio_driver.intro assms(1))
  show "honest_callback f1"
    by (rule honest_callbackI [of _ 0]) (auto simp: f1 split: if_splits)
  show "virtio_driver_axioms f1"
  proof
    fix F p s t sp s'
    assume "f1 F p s t = (True, sp, s')"
    then have "F AND 1 \<noteq> 0" "sp = p OR 1" by (auto simp: f1 split: if_splits)
    moreover have "(p OR 1) AND 1 = (1 :: u32)" by (rule bit_word_eqI) (auto simp: bit_simps)
    ultimately show "F AND VIRTIO_F_VERSION_1 \<noteq> 0 \<and> sp AND VIRTIO_F_VERSION_1 \<noteq> 0" by simp
  qed
qed

subsection \<open>The steps of an initialisation\<close>

text \<open>Each step of an initialisation as a fact about its result.\<close>

lemma discover_step:
  "VirtmmioDiscover E devId dev t = (ok, dev', t') \<Longrightarrow>
     kcalls t' = kcalls t \<and> vq dev' = vq dev"
  by (simp add: VirtmmioDiscover_frame)

lemma init_begin_step: "VirtmmioInitBegin E dev t = Some t' \<Longrightarrow> kcalls t' = kcalls t"
  using VirtmmioInitBegin_calls by blast

lemma config_queue_step:
  assumes "VirtmmioConfigQueue E dev va szs num t = Some (va', dev', t')"
  shows "(length (vq dev) = 2 \<longrightarrow> length (vq dev') = 2 \<and> base dev' = base dev \<and> irq dev' = irq dev \<and>
    kcalls t' = kcalls t \<and> (szs = [n] \<and> num = 1 \<longrightarrow> qsz (vq dev' ! 0) = n))"
  using assms VirtmmioConfigQueue_calls [OF assms]
  by (auto simp: VirtmmioConfigQueue_def CalculateQueueAddr_def Let_def split: Option.bind_splits if_splits)

lemma irq_flag: "(i OR NOT IRQ_MASK) AND NOT IRQ_MASK \<noteq> (0 :: u32)"
proof -
  have "(i OR NOT IRQ_MASK) AND NOT IRQ_MASK = NOT (IRQ_MASK :: u32)"
    by (rule bit_word_eqI) (auto simp: bit_simps)
  then show ?thesis by simp
qed

lemma wait_driver_now: "driver_seen E dev t \<Longrightarrow> wait_driver E dev t = Some (snd (VirtioGetStatus E dev t))"
  by (subst wait_driver_unfold) simp

text \<open>The environment of the witnesses of the drivers: one device of the given kind sits in the
  last transport slot, offers the given features and queues of up to 1024 entries.\<close>

definition example_preset :: "u32 \<Rightarrow> u32 \<Rightarrow> u32 \<Rightarrow> u32" where
  "example_preset devId features a =
     (if a = 0x0A003E00 then VIRTMMIO_MAGIC
      else if a = 0x0A003E04 then VIRTMMIO_VERSION
      else if a = 0x0A003E08 then devId
      else if a = 0x0A003E10 then features
      else if a = 0x0A003E34 then 1024
      else 0)"

lemma example_discover:
  "VirtmmioDiscover (example_env (example_preset devId F)) devId dev [Call LOS_DmaMemAlloc xs] =
     (True, dev\<lparr>base := 0x0A003E00, irq := 79\<rparr>,
      [Rd 0x0A003E08 devId, Rd 0x0A003E04 2, Rd 0x0A003E00 0x74726976, Call LOS_DmaMemAlloc xs])"
  by (simp add: VirtmmioDiscover_def discover_loop.simps(2) [of _ _ "pred_numeral n" for n, folded numeral_eq_Suc]
      slot_matches_def io_defs Let_def example_preset_def)

text \<open>The same machine for devices with two queues: the ready register reads 0 for the queue selected
  next, whatever was written for the one before.\<close>

definition example_env2 :: "u32 \<Rightarrow> u32 \<Rightarrow> env" where
  "example_env2 devId F = (example_env (example_preset devId F))\<lparr>rd_reg := \<lambda>t a.
     if a = 0x0A003E44 then 0 else rd_reg (example_env (example_preset devId F)) t a\<rparr>"

lemma example_env2_simps [simp]:
  "rd_reg (example_env2 devId F) t a = (if a = 0x0A003E44 then 0 else
     if writes_to a t = [] then example_preset devId F a else last (writes_to a t))"
  "sys_hdf (example_env2 devId F) t f xs = HDF_SUCCESS"
  "ALIGN (example_env2 devId F) = align_example"
  "VMM_TO_DMA_ADDR (example_env2 devId F) x = x"
  "IO_DEVICE_ADDR (example_env2 devId F) y = y"
  "LOS_ASSERT (example_env2 devId F) b = b"
  "sys_ret (example_env2 devId F) t f xs = (if f = LOS_HwiCreate then 0 else 0x1000)"
  by (simp_all add: example_env2_def)

lemma example_discover2:
  "VirtmmioDiscover (example_env2 devId F) devId dev t =
     (if writes_of t = [] then (True, dev\<lparr>base := 0x0A003E00, irq := 79\<rparr>,
        [Rd 0x0A003E08 devId, Rd 0x0A003E04 2, Rd 0x0A003E00 0x74726976] @ t)
      else VirtmmioDiscover (example_env2 devId F) devId dev t)"
proof (cases "writes_of t = []")
  case True
  then have "writes_to a t = []" for a by (simp add: writes_to_def)
  with True show ?thesis
    by (simp add: VirtmmioDiscover_def discover_loop.simps(2) [of _ _ "pred_numeral n" for n, folded numeral_eq_Suc]
      slot_matches_def io_defs Let_def example_preset_def)
qed simp

lemmas example_discover2_now = example_discover2 [THEN trans, OF if_P]

end
