(* ===== verification/Virtq.thy ===== *)
theory Virtq
  imports Virtmmio
begin

text \<open>
  The memory behind a virtqueue: the descriptor table, the available ring the driver fills and the
  used ring the device fills, as \<open>virtmmio.h\<close> declares them. The struct \<open>Virtq\<close> of
  theory \<open>Virtmmio\<close> holds the addresses of the three parts; a \<open>vring\<close> holds their contents. The ring
  indices run freely over 16 bits and are reduced modulo the queue size at each access. The locale
  \<open>free_running\<close> proves that this is a bounded queue across the wrap-around of the index.
\<close>

subsection \<open>Data\<close>

abbreviation (input) VIRTQ_DESC_F_NEXT :: u16 where "VIRTQ_DESC_F_NEXT \<equiv> 1"
abbreviation (input) VIRTQ_DESC_F_WRITE :: u16 where "VIRTQ_DESC_F_WRITE \<equiv> 2"
abbreviation (input) VIRTQ_AVAIL_F_NO_INTERRUPT :: u16 where "VIRTQ_AVAIL_F_NO_INTERRUPT \<equiv> 1"
abbreviation (input) VIRTQ_USED_F_NO_NOTIFY :: u16 where "VIRTQ_USED_F_NO_NOTIFY \<equiv> 1"

record VirtqDesc =
  pAddr :: u64
  d_len :: u32
  d_flag :: u16
  d_next :: u16

record VirtqUsedElem =
  ue_id :: u32
  ue_len :: u32

record vring =
  descs :: "VirtqDesc list"
  avail_flag :: u16
  avail_index :: u16
  avail_ring :: "u16 list"
  used_flag :: u16
  used_index :: u16
  used_ring :: "VirtqUsedElem list"

text \<open>The memory of a queue of \<open>n\<close> entries after the driver cleared it.\<close>

definition zero_vring :: "nat \<Rightarrow> vring" where
  "zero_vring n = \<lparr>descs = replicate n \<lparr>pAddr = 0, d_len = 0, d_flag = 0, d_next = 0\<rparr>,
     avail_flag = 0, avail_index = 0, avail_ring = replicate n 0,
     used_flag = 0, used_index = 0, used_ring = replicate n \<lparr>ue_id = 0, ue_len = 0\<rparr>\<rparr>"

definition vring_ok :: "nat \<Rightarrow> vring \<Rightarrow> bool" where
  "vring_ok n r \<longleftrightarrow> length (descs r) = n \<and> length (avail_ring r) = n \<and> length (used_ring r) = n"

lemma zero_vring_ok [simp]: "vring_ok n (zero_vring n)"
  by (simp add: vring_ok_def zero_vring_def)

lemma vring_okD:
  "vring_ok n r \<Longrightarrow> length (descs r) = n"
  "vring_ok n r \<Longrightarrow> length (avail_ring r) = n"
  "vring_ok n r \<Longrightarrow> length (used_ring r) = n"
  by (simp_all add: vring_ok_def)

subsection \<open>Access\<close>

text \<open>The slot of a free-running index, \<open>index % qsz\<close>, computed in \<open>int\<close> as C promotes the
  operands; a zero \<open>qsz\<close> is a division by zero.\<close>

definition ring_slot :: "nat \<Rightarrow> u16 \<Rightarrow> nat option" where
  "ring_slot i n = (if n = 0 then None else Some (i mod unat n))"

text \<open>\<open>q->avail->ring[index % q->qsz] = head\<close>.\<close>

definition avail_put :: "u16 \<Rightarrow> nat \<Rightarrow> u16 \<Rightarrow> vring \<Rightarrow> vring option" where
  "avail_put n i head r = do {
     k \<leftarrow> ring_slot i n;
     ring \<leftarrow> aset (avail_ring r) k head;
     Some (r\<lparr>avail_ring := ring\<rparr>)
   }"

text \<open>\<open>q->avail->index += k\<close>.\<close>

definition avail_add :: "u16 \<Rightarrow> vring \<Rightarrow> vring" where
  "avail_add k r = r\<lparr>avail_index := avail_index r + k\<rparr>"

text \<open>\<open>q->used->ring[index % q->qsz]\<close>.\<close>

definition used_get :: "u16 \<Rightarrow> u16 \<Rightarrow> vring \<Rightarrow> VirtqUsedElem option" where
  "used_get n i r = do {
     k \<leftarrow> ring_slot (unat i) n;
     aget (used_ring r) k
   }"

text \<open>Updates of one descriptor.\<close>

definition desc_upd :: "nat \<Rightarrow> (VirtqDesc \<Rightarrow> VirtqDesc) \<Rightarrow> vring \<Rightarrow> vring option" where
  "desc_upd i f r = do {
     ds \<leftarrow> aupd (descs r) i f;
     Some (r\<lparr>descs := ds\<rparr>)
   }"

named_theorems ring_defs

lemma ring_slot_eq [ring_defs]: "n \<noteq> 0 \<Longrightarrow> ring_slot i n = Some (i mod unat n)"
  by (simp add: ring_slot_def)

lemma slot_bound: "(n :: u16) \<noteq> 0 \<Longrightarrow> unat n \<le> k \<Longrightarrow> i mod unat n < k"
  by (meson mod_less_divisor order_less_le_trans unat_gt_0)

lemma avail_put_in [ring_defs]:
  assumes "n \<noteq> 0" and "unat n \<le> length (avail_ring r)"
  shows "avail_put n i h r = Some (r\<lparr>avail_ring := (avail_ring r)[i mod unat n := h]\<rparr>)"
  using slot_bound [OF assms, of i] assms(1) by (simp add: avail_put_def ring_slot_def)

lemma used_get_in [ring_defs]:
  assumes "n \<noteq> 0" and "unat n \<le> length (used_ring r)"
  shows "used_get n i r = Some (used_ring r ! (unat i mod unat n))"
  using slot_bound [OF assms, of "unat i"] assms(1) by (simp add: used_get_def ring_slot_def)

lemma desc_upd_in [ring_defs]:
  "i < length (descs r) \<Longrightarrow> desc_upd i f r = Some (r\<lparr>descs := (descs r)[i := f (descs r ! i)]\<rparr>)"
  by (simp add: desc_upd_def)

lemma avail_put_ok: "avail_put n i h r = Some r' \<Longrightarrow> vring_ok m r \<Longrightarrow> vring_ok m r'"
  by (auto simp: avail_put_def vring_ok_def aset_eq_Some split: Option.bind_splits)

lemma avail_add_simps [simp]:
  "descs (avail_add k r) = descs r" "avail_flag (avail_add k r) = avail_flag r"
  "avail_index (avail_add k r) = avail_index r + k" "avail_ring (avail_add k r) = avail_ring r"
  "used_flag (avail_add k r) = used_flag r" "used_index (avail_add k r) = used_index r"
  "used_ring (avail_add k r) = used_ring r" "vring_ok m (avail_add k r) = vring_ok m r"
  by (simp_all add: avail_add_def vring_ok_def)

lemma desc_upd_ok: "desc_upd i f r = Some r' \<Longrightarrow> vring_ok m r \<Longrightarrow> vring_ok m r'"
  by (auto simp: desc_upd_def vring_ok_def aupd_eq_Some split: Option.bind_splits)

subsection \<open>What the device sees\<close>

text \<open>The buffers of a descriptor chain, as the virtio specification has the device follow it:
  address, length and whether the device may write. A chain longer than the table is malformed.\<close>

fun chain :: "nat \<Rightarrow> VirtqDesc list \<Rightarrow> u16 \<Rightarrow> (u64 \<times> u32 \<times> bool) list option" where
  "chain 0 ds i = None"
| "chain (Suc k) ds i = do {
     d \<leftarrow> aget ds (unat i);
     let b = (pAddr d, d_len d, d_flag d AND VIRTQ_DESC_F_WRITE \<noteq> 0);
     if d_flag d AND VIRTQ_DESC_F_NEXT = 0 then Some [b]
     else do { bs \<leftarrow> chain k ds (d_next d); Some (b # bs) }
   }"

lemmas chain_numeral [simp] = chain.simps(2) [of "pred_numeral n" for n, folded numeral_eq_Suc]

definition device_chain :: "vring \<Rightarrow> u16 \<Rightarrow> (u64 \<times> u32 \<times> bool) list option" where
  "device_chain r head = chain (length (descs r)) (descs r) head"

subsection \<open>Free-running indices\<close>

text \<open>The entries between two indices of a ring of \<open>n\<close> slots.\<close>

definition ring_view :: "'a list \<Rightarrow> nat \<Rightarrow> u16 \<Rightarrow> u16 \<Rightarrow> 'a list" where
  "ring_view ring n from to = map (\<lambda>k. ring ! ((unat from + k) mod n)) [0..<unat (to - from)]"

locale free_running =
  fixes n :: nat
  assumes divides: "n dvd 65536"
    and small: "n < 65536"
begin

lemma positive: "0 < n"
  using divides by (cases n) auto

text \<open>Because the size divides \<open>2 ^ 16\<close>, the slot of an index is not disturbed by the wrap.\<close>

lemma slot_wrap: "unat (i + of_nat k :: u16) mod n = (unat i + k) mod n"
proof -
  have "unat (i + of_nat k :: u16) = (unat i + k) mod 65536"
    by (simp add: unat_word_ariths unat_of_nat mod_add_right_eq)
  then show ?thesis
    using divides by (simp add: mod_mod_cancel)
qed

lemma slot_offset: "unat (to :: u16) mod n = (unat from + unat (to - from)) mod n"
  using slot_wrap [of "from" "unat (to - from)"] by simp

lemma unat_diff_Suc:
  fixes i j :: u16
  assumes "unat (j - i) < n"
  shows "unat (j + 1 - i) = Suc (unat (j - i))"
proof -
  have "unat (j - i + 1) = Suc (unat (j - i))"
    using assms small by (simp add: unat_word_ariths)
  then show ?thesis by (simp add: algebra_simps)
qed

lemma slots_distinct:
  assumes "a < n" and "b < n" and "(k + a) mod n = (k + b) mod n"
  shows "a = b"
proof -
  have "(int k + int a) mod int n = (int k + int b) mod int n"
    using assms(3) by (metis of_nat_add of_nat_mod)
  then have "int a mod int n = int b mod int n"
    by (metis add.commute add_diff_cancel_right' mod_diff_left_eq)
  with assms(1,2) show ?thesis by (simp flip: of_nat_mod)
qed

lemma view_put:
  assumes len: "length ring = n" and room: "unat (to - from) < n"
  shows "ring_view (ring[unat to mod n := x]) n from (to + 1) = ring_view ring n from to @ [x]"
proof -
  let ?d = "unat (to - from)"
  have "ring[unat to mod n := x] ! ((unat from + k) mod n) = ring ! ((unat from + k) mod n)" if "k < ?d" for k
  proof -
    have "unat to mod n \<noteq> (unat from + k) mod n"
      using slots_distinct [of ?d k "unat from"] that room slot_offset [of to "from"] by auto
    then show ?thesis by simp
  qed
  moreover have "ring[unat to mod n := x] ! ((unat from + ?d) mod n) = x"
    using len positive by (simp flip: slot_offset)
  ultimately show ?thesis
    unfolding ring_view_def unat_diff_Suc [OF room] by simp
qed

lemma view_get:
  assumes "from \<noteq> to" and "unat (to - from) \<le> n"
  shows "ring_view ring n from to = ring ! (unat from mod n) # ring_view ring n (from + 1) to"
proof -
  have "0 < unat (to - from)"
    using assms(1) by (simp add: unat_gt_0)
  then obtain d where d: "unat (to - from) = Suc d"
    by (cases "unat (to - from)") auto
  then have "to - from = of_nat (Suc d)"
    by (metis of_nat_unat ucast_id)
  then have "to - (from + 1) = of_nat d"
    by (simp add: algebra_simps)
  moreover have "d < 65536"
    using d unat_u16_bound [of "to - from"] by simp
  ultimately have d': "unat (to - (from + 1)) = d"
    by (simp add: unat_of_nat)
  have e: "(unat (from + 1) + k) mod n = (unat from + Suc k) mod n" for k
  proof -
    have "(unat (from + 1) mod n + k) mod n = ((unat from + 1) mod n + k) mod n"
      using slot_wrap [of "from" 1] by simp
    then show ?thesis by (simp only: mod_add_left_eq) simp
  qed
  then show ?thesis
    by (simp only: ring_view_def d d' e map_upt_Suc add_0_right)
qed

lemma view_length [simp]: "length (ring_view ring n from to) = unat (to - from)"
  by (simp add: ring_view_def)

lemma view_empty [simp]: "ring_view ring n i i = []"
  by (simp add: ring_view_def)

text \<open>Filling the available ring through the access functions of the drivers.\<close>

lemma avail_put_view:
  assumes "vring_ok n r" and "unat q = n" and "unat (avail_index r - done) < n"
    and "avail_put q (unat (avail_index r)) head r = Some r'"
  shows "ring_view (avail_ring (avail_add 1 r')) n done (avail_index (avail_add 1 r'))
    = ring_view (avail_ring r) n done (avail_index r) @ [head]"
proof -
  have "q \<noteq> 0" using assms(2) positive by auto
  then have "r' = r\<lparr>avail_ring := (avail_ring r)[unat (avail_index r) mod n := head]\<rparr>"
    using assms(2,4) vring_okD(2) [OF assms(1)] by (simp add: avail_put_in)
  then show ?thesis
    using view_put [of "avail_ring r" "avail_index r" "done" head] assms(1,3) vring_okD(2) [OF assms(1)] by simp
qed

end

text \<open>The queue sizes the drivers use: 1 (entropy), 2 and 4 (graphics), 4 (block), 8 (input), 16 and
  32 (network).\<close>

interpretation ring4: free_running 4 by unfold_locales simp_all
interpretation ring8: free_running 8 by unfold_locales simp_all
interpretation ring16: free_running 16 by unfold_locales simp_all
interpretation ring32: free_running 32 by unfold_locales simp_all

end
