(* ===== verification/Virtblock.thy ===== *)
theory Virtblock
  imports Virtq
begin

text \<open>
  The block device, \<open>drivers/virtio/virtblock.c\<close>: a virtio-blk driver behind an HDF MMC controller.
  \<open>Virtblk\<close> is the C struct together with the memory of its one request queue; \<open>blk_addr\<close> is the
  address of the DMA block it lives in. The sizes and offsets of the struct depend on a kernel type
  (\<open>DmacEvent\<close>) and are the parameter \<open>blk_abi\<close>; the numeric constants of the MMC framework are the
  parameter \<open>mmc_consts\<close>. Waiting for the completion event is a parameter as well: a function from
  the driver state and history at the time of the wait to those at its return.
\<close>

subsection \<open>Data\<close>

record VirtblkConfig =
  cf_capacity :: u64
  cf_segMax :: u32
  cf_blkSize :: u32

record VirtblkReq =
  req_type :: u32
  req_reserved :: u32
  startSector :: u64

record Virtblk =
  blk_addr :: u32
  blk_dev :: VirtmmioDev
  blk_ring :: vring
  capacity :: u64
  blkSize :: u32
  req :: VirtblkReq
  resp :: u8

record blk_abi =
  sizeof_Virtblk :: u32
  offsetof_req :: u32
  offsetof_resp :: u32

text \<open>Constants of the MMC framework and of the eMMC register layout that the framework's headers
  define.\<close>

record mmc_consts =
  MMC_SEC_SIZE :: u32
  MMC_SEC_SHIFT :: nat
  CID_LEN :: nat
  MMC_CARD_BUSY_STATUS :: u32
  MMC_CSD_STRUCTURE_VER_1_2 :: u32
  MMC_CSD_SPEC_VER_4 :: u32
  MMC_CSD_CCC_BASIC :: u32
  MMC_CSD_CCC_BLOCK_READ :: u32
  MMC_CSD_CCC_BLOCK_WRITE :: u32
  READY_FOR_DATA :: u32
  STATE_READY :: u32
  EMMC_EXT_CSD_REL_WR_SEC_C :: nat
  EMMC_EXT_CSD_SEC_CNT :: nat
  EMMC_EXT_CSD_CARD_TYPE :: nat
  EMMC_EXT_CSD_STRUCTURE :: nat
  EMMC_EXT_CSD_REV :: nat
  EMMC_EXT_CSD_BUS_WIDTH :: nat
  EMMC_EXT_CSD_CARD_TYPE_26 :: u8
  EMMC_EXT_CSD_CARD_TYPE_52 :: u8
  EMMC_EXT_CSD_STRUCTURE_VER_1_2 :: u8
  EMMC_EXT_CSD_REV_1_3 :: u8
  EMMC_EXT_CSD_BUS_WIDTH_1 :: u8
  DATA_READ :: u32

abbreviation (input) VIRTQ_REQUEST_QSZ :: u16 where "VIRTQ_REQUEST_QSZ \<equiv> 4"
abbreviation (input) VIRTIO_BLK_F_RO :: u32 where "VIRTIO_BLK_F_RO \<equiv> 0x20"
abbreviation (input) VIRTIO_BLK_F_BLK_SIZE :: u32 where "VIRTIO_BLK_F_BLK_SIZE \<equiv> 0x40"
abbreviation (input) VIRTBLK_DEF_BLK_SIZE :: u32 where "VIRTBLK_DEF_BLK_SIZE \<equiv> 8192"
abbreviation (input) VIRTIO_BLK_T_IN :: u32 where "VIRTIO_BLK_T_IN \<equiv> 0"
abbreviation (input) VIRTIO_BLK_T_OUT :: u32 where "VIRTIO_BLK_T_OUT \<equiv> 1"
abbreviation (input) VIRTIO_BLK_S_OK :: u8 where "VIRTIO_BLK_S_OK \<equiv> 0"
abbreviation (input) VIRTIO_BLK_S_IOERR :: u8 where "VIRTIO_BLK_S_IOERR \<equiv> 1"
abbreviation (input) FAT32_MAX_CLUSTER_SECS :: u32 where "FAT32_MAX_CLUSTER_SECS \<equiv> 128"
abbreviation (input) SIZEOF_VirtblkReq :: u32 where "SIZEOF_VirtblkReq \<equiv> 16"

subsection \<open>Feature callbacks\<close>

text \<open>\<open>conf\<close> is the device's configuration space at an address, as it reads after a history.\<close>

definition Blk_Feature0 ::
  "mmc_consts \<Rightarrow> (trace \<Rightarrow> u32 \<Rightarrow> VirtblkConfig) \<Rightarrow> u32 \<Rightarrow> u32 \<Rightarrow> Virtblk \<Rightarrow> trace \<Rightarrow> bool \<times> u32 \<times> Virtblk" where
  "Blk_Feature0 K config features supported blk t =
     (let conf = config t (base (blk_dev blk) + VIRTMMIO_REG_CONFIG) in
      if features AND VIRTIO_BLK_F_RO \<noteq> 0 then (False, supported, blk) else
      let blk = blk\<lparr>blkSize := VIRTBLK_DEF_BLK_SIZE\<rparr>;
          bs = cf_blkSize conf;
          (supported, blk) =
            (if features AND VIRTIO_BLK_F_BLK_SIZE \<noteq> 0 \<and>
                MMC_SEC_SIZE K \<le> bs \<and> bs \<le> FAT32_MAX_CLUSTER_SECS * MMC_SEC_SIZE K \<and>
                bs AND (bs - 1) = 0
             then (supported OR VIRTIO_BLK_F_BLK_SIZE, blk\<lparr>blkSize := bs\<rparr>)
             else (supported, blk))
      in (True, supported, blk\<lparr>capacity := cf_capacity conf\<rparr>))"

definition Blk_Feature1 :: "u32 \<Rightarrow> u32 \<Rightarrow> 's \<Rightarrow> trace \<Rightarrow> bool \<times> u32 \<times> 's" where
  "Blk_Feature1 features supported dev t =
     (if features AND VIRTIO_F_VERSION_1 \<noteq> 0 then (True, supported OR VIRTIO_F_VERSION_1, dev)
      else (False, supported, dev))"

subsection \<open>The request queue\<close>

definition PopulateRequestQ :: "env \<Rightarrow> blk_abi \<Rightarrow> Virtblk \<Rightarrow> Virtblk option" where
  "PopulateRequestQ E A blk = do {
     r \<leftarrow> desc_upd 0 (\<lambda>d. d\<lparr>pAddr := VMM_TO_DMA_ADDR E (ucast (blk_addr blk + offsetof_req A)),
            d_len := SIZEOF_VirtblkReq, d_flag := VIRTQ_DESC_F_NEXT, d_next := 1\<rparr>) (blk_ring blk);
     r \<leftarrow> desc_upd 1 (\<lambda>d. d\<lparr>d_next := 2\<rparr>) r;
     r \<leftarrow> desc_upd 2 (\<lambda>d. d\<lparr>pAddr := VMM_TO_DMA_ADDR E (ucast (blk_addr blk + offsetof_resp A)),
            d_len := 1, d_flag := VIRTQ_DESC_F_WRITE\<rparr>) r;
     Some (blk\<lparr>blk_ring := r\<rparr>)
   }"

text \<open>\<open>VirtblkIO\<close> up to the notification of the device, and the whole of it.\<close>

definition VirtblkIO_submit ::
  "env \<Rightarrow> mmc_consts \<Rightarrow> Virtblk \<Rightarrow> u32 \<Rightarrow> u64 \<Rightarrow> u32 \<Rightarrow> u32 \<Rightarrow> trace \<Rightarrow> (Virtblk \<times> trace) option" where
  "VirtblkIO_submit E K blk cmd sector buf sectors t = do {
     q \<leftarrow> aget (vq (blk_dev blk)) 0;
     let blk = blk\<lparr>req := (req blk)\<lparr>req_type := cmd, startSector := sector\<rparr>\<rparr>;
     r \<leftarrow> desc_upd 1 (\<lambda>d. d\<lparr>pAddr := VMM_TO_DMA_ADDR E (ucast buf), d_len := sectors * MMC_SEC_SIZE K,
            d_flag := (if cmd = VIRTIO_BLK_T_IN then VIRTQ_DESC_F_NEXT OR VIRTQ_DESC_F_WRITE
                       else VIRTQ_DESC_F_NEXT)\<rparr>) (blk_ring blk);
     r \<leftarrow> avail_put (qsz q) (unat (avail_index r)) 0 r;
     let blk = blk\<lparr>blk_ring := avail_add 1 r\<rparr>;
     Some (blk, WRITE_UINT32 0 (base (blk_dev blk) + VIRTMMIO_REG_QUEUENOTIFY) t)
   }"

type_synonym blk_wait = "Virtblk \<Rightarrow> trace \<Rightarrow> u32 \<times> Virtblk \<times> trace"

definition VirtblkIO ::
  "env \<Rightarrow> mmc_consts \<Rightarrow> blk_wait \<Rightarrow> Virtblk \<Rightarrow> u32 \<Rightarrow> u64 \<Rightarrow> u32 \<Rightarrow> u32 \<Rightarrow> trace
     \<Rightarrow> (u8 \<times> Virtblk \<times> trace) option" where
  "VirtblkIO E K waitEvent blk cmd sector buf sectors t = do {
     (blk, t) \<leftarrow> VirtblkIO_submit E K blk cmd sector buf sectors t;
     let (ret, blk, t) = waitEvent blk t;
     if ret \<noteq> 1 then Some (VIRTIO_BLK_S_IOERR, blk, t) else Some (resp blk, blk, t)
   }"

definition VirtblkIRQhandle :: "env \<Rightarrow> Virtblk \<Rightarrow> trace \<Rightarrow> (u32 \<times> Virtblk \<times> trace) option" where
  "VirtblkIRQhandle E blk t = do {
     q \<leftarrow> aget (vq (blk_dev blk)) 0;
     let (s, t) = GET_UINT32 E (base (blk_dev blk) + VIRTMMIO_REG_INTERRUPTSTATUS) t;
     if s AND VIRTMMIO_IRQ_NOTIFY_USED = 0 then Some (1, blk, t) else do {
       let t = kproc DmaEventSignal [blk_addr blk, 1] t;
       vqs \<leftarrow> aset (vq (blk_dev blk)) 0 (q\<lparr>q_last := q_last q + 1\<rparr>);
       let blk = blk\<lparr>blk_dev := (blk_dev blk)\<lparr>vq := vqs\<rparr>\<rparr>;
       Some (0, blk, WRITE_UINT32 VIRTMMIO_IRQ_NOTIFY_USED (base (blk_dev blk) + VIRTMMIO_REG_INTERRUPTACK) t)
     }
   }"

subsection \<open>Start and stop\<close>

definition VirtblkDeInit :: "Virtblk \<Rightarrow> trace \<Rightarrow> trace" where
  "VirtblkDeInit blk t =
     (let t = (if irq (blk_dev blk) AND NOT IRQ_MASK \<noteq> 0
               then kproc OsalUnregisterIrq [irq (blk_dev blk) AND IRQ_MASK, blk_addr blk] t else t)
      in kproc LOS_DmaMemFree [blk_addr blk] t)"

text \<open>The struct after \<open>memset_s\<close>.\<close>

definition zero_Virtblk :: "u32 \<Rightarrow> Virtblk" where
  "zero_Virtblk a = \<lparr>blk_addr = a,
     blk_dev = \<lparr>base = 0, irq = 0, vq = replicate VIRTQ_NUM \<lparr>qsz = 0, q_last = 0, q_desc = 0, q_avail = 0, q_used = 0\<rparr>\<rparr>,
     blk_ring = zero_vring (unat VIRTQ_REQUEST_QSZ), capacity = 0, blkSize = 0,
     req = \<lparr>req_type = 0, req_reserved = 0, startSector = 0\<rparr>, resp = 0\<rparr>"

text \<open>The failure exits: \<open>ERR_OUT1\<close> tells the device, \<open>ERR_OUT\<close> only frees.\<close>

definition blk_err_out :: "Virtblk \<Rightarrow> trace \<Rightarrow> Virtblk option \<times> trace" where
  "blk_err_out blk t = (None, VirtblkDeInit blk t)"

definition blk_err_out1 :: "env \<Rightarrow> Virtblk \<Rightarrow> trace \<Rightarrow> Virtblk option \<times> trace" where
  "blk_err_out1 E blk t = blk_err_out blk (VirtmmioInitFailed E (blk_dev blk) t)"

definition VirtblkInitDev ::
  "env \<Rightarrow> blk_abi \<Rightarrow> mmc_consts \<Rightarrow> (trace \<Rightarrow> u32 \<Rightarrow> VirtblkConfig) \<Rightarrow> trace \<Rightarrow> (Virtblk option \<times> trace) option" where
  "VirtblkInitDev E A K conf t = do {
     let len = sizeof_Virtblk A + VirtqSize E VIRTQ_REQUEST_QSZ;
     let (p, t) = kcall E LOS_DmaMemAlloc [len] t;
     if p = 0 then Some (None, t) else do {
       let blk = zero_Virtblk p;
       let (found, dev, t) = VirtmmioDiscover E VIRTMMIO_DEVICE_ID_BLK (blk_dev blk) t;
       let blk = blk\<lparr>blk_dev := dev\<rparr>;
       if \<not> found then Some (blk_err_out blk t) else do {
         t \<leftarrow> VirtmmioInitBegin E (blk_dev blk) t;
         (ok, blk, t) \<leftarrow> VirtmmioNegotiate E (blk_dev blk) (Blk_Feature0 K conf) Blk_Feature1 blk t;
         if \<not> ok then Some (blk_err_out1 E blk t) else do {
           let base = ALIGN E (blk_addr blk + sizeof_Virtblk A) VIRTQ_ALIGN_DESC;
           (va, dev, t) \<leftarrow> VirtmmioConfigQueue E (blk_dev blk) base [VIRTQ_REQUEST_QSZ] 1 t;
           let blk = blk\<lparr>blk_dev := dev\<rparr>;
           if va = 0 then Some (blk_err_out1 E blk t) else do {
             let (ret, t) = kstatus E DmaEventInit [blk_addr blk] t;
             if ret \<noteq> HDF_SUCCESS then Some (blk_err_out1 E blk t) else do {
               let (ret, t) = kstatus E OsalRegisterIrq [irq (blk_dev blk), blk_addr blk] t;
               if ret \<noteq> HDF_SUCCESS then Some (blk_err_out1 E blk t) else do {
                 let blk = blk\<lparr>blk_dev := (blk_dev blk)\<lparr>irq := irq (blk_dev blk) OR NOT IRQ_MASK\<rparr>\<rparr>;
                 blk \<leftarrow> PopulateRequestQ E A blk;
                 let t = VritmmioInitEnd E (blk_dev blk) t;
                 Some (Some blk, t)
               }
             }
           }
         }
       }
     }
   }"

subsection \<open>The MMC card registers\<close>

abbreviation (input) CAPACITY_2G :: u64 where "CAPACITY_2G \<equiv> 0x400000"
abbreviation (input) READ_BL_LEN :: u32 where "READ_BL_LEN \<equiv> 11"
abbreviation (input) C_SIZE_MULT :: u32 where "C_SIZE_MULT \<equiv> 7"

text \<open>\<open>resp[i] |= v\<close> on an array of words.\<close>

definition or_word :: "u32 list \<Rightarrow> nat \<Rightarrow> u32 \<Rightarrow> u32 list option" where
  "or_word rs i v = do { w \<leftarrow> aget rs i; aset rs i (w OR v) }"

definition FillCidCsdBits :: "mmc_consts \<Rightarrow> u32 list \<Rightarrow> nat \<Rightarrow> nat \<Rightarrow> u32 \<Rightarrow> u32 list option" where
  "FillCidCsdBits K rs start bits value =
     (let index = (of_nat (CID_LEN K) :: u32) - 1 - of_nat (start div 32);
          lsb = start mod 32
      in do {
        rs \<leftarrow> or_word rs (unat index) (push_bit lsb value);
        if lsb + bits > 32 then or_word rs (unat (index - 1)) (drop_bit (32 - lsb) value)
        else Some rs
      })"

text \<open>Byte \<open>i\<close> of an array of little-endian words, as \<open>((uint8_t *)resp)[i]\<close>.\<close>

definition set_byte :: "u32 list \<Rightarrow> nat \<Rightarrow> u8 \<Rightarrow> u32 list option" where
  "set_byte rs i b = do {
     w \<leftarrow> aget rs (i div 4);
     aset rs (i div 4) ((w AND NOT (push_bit (8 * (i mod 4)) 0xFF)) OR push_bit (8 * (i mod 4)) (ucast b))
   }"

fun set_bytes :: "u32 list \<Rightarrow> nat \<Rightarrow> u8 list \<Rightarrow> u32 list option" where
  "set_bytes rs i [] = Some rs"
| "set_bytes rs i (b # bs) = do { rs \<leftarrow> set_byte rs i b; set_bytes rs (i + 1) bs }"

definition le_bytes :: "u32 \<Rightarrow> u8 list" where
  "le_bytes w = map (\<lambda>k. ucast (drop_bit (8 * k) w)) [0, 1, 2, 3]"

definition VirtMmcFillRespCid :: "mmc_consts \<Rightarrow> u32 list \<Rightarrow> Virtblk \<Rightarrow> u32 list option" where
  "VirtMmcFillRespCid K rs blk = do {
     rs \<leftarrow> FillCidCsdBits K rs 112 2 1;
     rs \<leftarrow> set_bytes rs 3 (map of_char (take 6 ''virtblock''));
     set_bytes rs 10 (le_bytes (blk_addr blk))
   }"

text \<open>\<open>__builtin_clz\<close>: the number of leading zero bits, undefined for 0.\<close>

fun clz_from :: "nat \<Rightarrow> u32 \<Rightarrow> nat" where
  "clz_from 0 w = 0"
| "clz_from (Suc k) w = (if bit w k then 0 else Suc (clz_from k w))"

definition builtin_clz :: "u32 \<Rightarrow> nat option" where
  "builtin_clz w = (if w = 0 then None else Some (clz_from 32 w))"

definition csd_size_fields :: "mmc_consts \<Rightarrow> u32 list \<Rightarrow> Virtblk \<Rightarrow> u32 list option" where
  "csd_size_fields K rs blk =
     (if capacity blk > CAPACITY_2G then do {
        z \<leftarrow> builtin_clz (blkSize blk);
        let e = (of_nat (32 - z - 1) :: u32);
        rs \<leftarrow> FillCidCsdBits K rs 80 4 e;
        rs \<leftarrow> FillCidCsdBits K rs 22 4 e;
        FillCidCsdBits K rs 62 12 0xFFF
      } else do {
        rs \<leftarrow> FillCidCsdBits K rs 80 4 READ_BL_LEN;
        rs \<leftarrow> FillCidCsdBits K rs 22 4 READ_BL_LEN;
        let size = (ucast (capacity blk * ucast (MMC_SEC_SIZE K) div 2048 div 512 - 1) :: u32);
        FillCidCsdBits K rs 62 12 size
      })"

definition VirtMmcFillRespCsd :: "mmc_consts \<Rightarrow> u32 list \<Rightarrow> Virtblk \<Rightarrow> u32 list option" where
  "VirtMmcFillRespCsd K rs blk = do {
     rs \<leftarrow> FillCidCsdBits K rs 126 2 (MMC_CSD_STRUCTURE_VER_1_2 K);
     rs \<leftarrow> FillCidCsdBits K rs 122 4 (MMC_CSD_SPEC_VER_4 K);
     rs \<leftarrow> FillCidCsdBits K rs 84 12
             (MMC_CSD_CCC_BASIC K OR MMC_CSD_CCC_BLOCK_READ K OR MMC_CSD_CCC_BLOCK_WRITE K);
     rs \<leftarrow> FillCidCsdBits K rs 79 1 0;
     rs \<leftarrow> FillCidCsdBits K rs 78 1 0;
     rs \<leftarrow> FillCidCsdBits K rs 77 1 0;
     rs \<leftarrow> FillCidCsdBits K rs 76 1 0;
     rs \<leftarrow> csd_size_fields K rs blk;
     rs \<leftarrow> FillCidCsdBits K rs 47 3 C_SIZE_MULT;
     rs \<leftarrow> FillCidCsdBits K rs 42 5 31;
     rs \<leftarrow> FillCidCsdBits K rs 37 5 15;
     rs \<leftarrow> FillCidCsdBits K rs 21 1 0;
     rs \<leftarrow> FillCidCsdBits K rs 15 1 0;
     FillCidCsdBits K rs 10 2 0
   }"

fun store_bytes :: "u8 list \<Rightarrow> nat \<Rightarrow> u8 list \<Rightarrow> u8 list option" where
  "store_bytes b i [] = Some b"
| "store_bytes b i (v # vs) = do { b \<leftarrow> aset b i v; store_bytes b (i + 1) vs }"

definition VirtMmcFillDataExtCsd :: "mmc_consts \<Rightarrow> u8 list \<Rightarrow> Virtblk \<Rightarrow> u8 list option" where
  "VirtMmcFillDataExtCsd K b blk = do {
     b \<leftarrow> aset b 504 0;
     b \<leftarrow> aset b 225 (ucast (blkSize blk div MMC_SEC_SIZE K));
     b \<leftarrow> aset b (EMMC_EXT_CSD_REL_WR_SEC_C K) (ucast (blkSize blk div MMC_SEC_SIZE K));
     b \<leftarrow> store_bytes b (EMMC_EXT_CSD_SEC_CNT K) (le_bytes (ucast (capacity blk)));
     b \<leftarrow> aset b (EMMC_EXT_CSD_CARD_TYPE K) (EMMC_EXT_CSD_CARD_TYPE_26 K OR EMMC_EXT_CSD_CARD_TYPE_52 K);
     b \<leftarrow> aset b (EMMC_EXT_CSD_STRUCTURE K) (EMMC_EXT_CSD_STRUCTURE_VER_1_2 K);
     b \<leftarrow> aset b (EMMC_EXT_CSD_REV K) (EMMC_EXT_CSD_REV_1_3 K);
     b \<leftarrow> aset b 191 0;
     b \<leftarrow> aset b 189 0;
     aset b (EMMC_EXT_CSD_BUS_WIDTH K) (EMMC_EXT_CSD_BUS_WIDTH_1 K)
   }"

subsection \<open>MMC requests\<close>

record MmcData =
  dataFlags :: u32
  dataBuffer :: u32           \<comment> \<open>its address\<close>
  data_bytes :: "u8 list"     \<comment> \<open>its contents\<close>
  blockNum :: u32
  data_returnError :: HDF_STATUS

record MmcCmd =
  cmdCode :: u32
  argument :: u32
  cmd_resp :: "u32 list"
  cmd_returnError :: HDF_STATUS
  cmd_data :: "MmcData option"

record MmcCntlr =
  cn_addr :: u32
  cn_priv :: "Virtblk option"
  curDev :: "(u32 \<times> bool) option"   \<comment> \<open>address of the MMC device and its \<open>blockAddr\<close> bit\<close>

abbreviation (input) GO_IDLE_STATE :: u32 where "GO_IDLE_STATE \<equiv> 0"
abbreviation (input) SEND_OP_COND :: u32 where "SEND_OP_COND \<equiv> 1"
abbreviation (input) ALL_SEND_CID :: u32 where "ALL_SEND_CID \<equiv> 2"
abbreviation (input) SET_RELATIVE_ADDR :: u32 where "SET_RELATIVE_ADDR \<equiv> 3"
abbreviation (input) SWITCH :: u32 where "SWITCH \<equiv> 6"
abbreviation (input) SELECT_CARD :: u32 where "SELECT_CARD \<equiv> 7"
abbreviation (input) SEND_EXT_CSD :: u32 where "SEND_EXT_CSD \<equiv> 8"
abbreviation (input) SEND_CSD :: u32 where "SEND_CSD \<equiv> 9"
abbreviation (input) SEND_CID :: u32 where "SEND_CID \<equiv> 10"
abbreviation (input) SEND_STATUS :: u32 where "SEND_STATUS \<equiv> 13"
abbreviation (input) READ_SINGLE_BLOCK :: u32 where "READ_SINGLE_BLOCK \<equiv> 17"
abbreviation (input) READ_MULTIPLE_BLOCK :: u32 where "READ_MULTIPLE_BLOCK \<equiv> 18"
abbreviation (input) WRITE_BLOCK :: u32 where "WRITE_BLOCK \<equiv> 24"
abbreviation (input) WRITE_MULTIPLE_BLOCK :: u32 where "WRITE_MULTIPLE_BLOCK \<equiv> 25"

definition VirtMmcFillRespR1 :: "mmc_consts \<Rightarrow> MmcCmd \<Rightarrow> MmcCmd option" where
  "VirtMmcFillRespR1 K cmd = do {
     rs \<leftarrow> aset (cmd_resp cmd) 0 (READY_FOR_DATA K OR push_bit 9 (STATE_READY K));
     rs \<leftarrow> aset rs 1 (cmdCode cmd);
     Some (cmd\<lparr>cmd_resp := rs\<rparr>)
   }"

definition VirtMmcIO ::
  "env \<Rightarrow> mmc_consts \<Rightarrow> blk_wait \<Rightarrow> MmcCntlr \<Rightarrow> Virtblk \<Rightarrow> MmcCmd \<Rightarrow> trace
     \<Rightarrow> (HDF_STATUS \<times> MmcCmd \<times> Virtblk \<times> trace) option" where
  "VirtMmcIO E K waitEvent cntlr blk cmd t = do {
     (_, blockAddr) \<leftarrow> curDev cntlr;
     let sector = ((if \<not> blockAddr then drop_bit (MMC_SEC_SHIFT K) (ucast (argument cmd)) else ucast (argument cmd)) :: u64);
     dat \<leftarrow> cmd_data cmd;
     let io = (if dataFlags dat = DATA_READ K then VIRTIO_BLK_T_IN else VIRTIO_BLK_T_OUT);
     (ret, blk, t) \<leftarrow> VirtblkIO E K waitEvent blk io sector (dataBuffer dat) (blockNum dat) t;
     let dat = dat\<lparr>data_returnError := (if ret = VIRTIO_BLK_S_OK then HDF_SUCCESS else HDF_ERR_IO)\<rparr>;
     Some (HDF_SUCCESS, cmd\<lparr>cmd_data := Some dat\<rparr>, blk, t)
   }"

text \<open>\<open>switch (cmd->cmdCode)\<close>: the command after the case ran, its outcome in \<open>cmd->returnError\<close>.
  \<open>SEND_EXT_CSD\<close> falls through to the R1 response.\<close>

definition VirtMmcDoRequest ::
  "env \<Rightarrow> mmc_consts \<Rightarrow> blk_wait \<Rightarrow> MmcCntlr option \<Rightarrow> MmcCmd option \<Rightarrow> trace
     \<Rightarrow> (HDF_STATUS \<times> MmcCntlr option \<times> MmcCmd option \<times> trace) option" where
  "VirtMmcDoRequest E K waitEvent cntlrp cmdp t =
     (case (cntlrp, Option.bind cntlrp cn_priv, cmdp) of
        (Some cntlr, Some blk, Some cmd) \<Rightarrow>
          (let cmd = cmd\<lparr>cmd_returnError := HDF_SUCCESS\<rparr>;
               code = cmdCode cmd;
               ret = (\<lambda>cmd. (cmd_returnError cmd, cntlrp, Some cmd, t)) in
           if code = GO_IDLE_STATE then Some (ret cmd)
           else if code = SEND_OP_COND then do {
             rs \<leftarrow> aset (cmd_resp cmd) 0 ((if capacity blk > CAPACITY_2G then 0x40FF8080 else 0x00FF8080)
                                          OR MMC_CARD_BUSY_STATUS K);
             Some (ret (cmd\<lparr>cmd_resp := rs\<rparr>)) }
           else if code = ALL_SEND_CID \<or> code = SEND_CID then do {
             rs \<leftarrow> VirtMmcFillRespCid K (cmd_resp cmd) blk;
             Some (ret (cmd\<lparr>cmd_resp := rs\<rparr>)) }
           else if code = SEND_EXT_CSD then do {
             dat \<leftarrow> cmd_data cmd;
             b \<leftarrow> VirtMmcFillDataExtCsd K (data_bytes dat) blk;
             let cmd = cmd\<lparr>cmd_data := Some (dat\<lparr>data_bytes := b, data_returnError := HDF_SUCCESS\<rparr>)\<rparr>;
             cmd \<leftarrow> VirtMmcFillRespR1 K cmd;
             Some (ret cmd) }
           else if code = SET_RELATIVE_ADDR \<or> code = SWITCH \<or> code = SELECT_CARD \<or> code = SEND_STATUS then do {
             cmd \<leftarrow> VirtMmcFillRespR1 K cmd;
             Some (ret cmd) }
           else if code = SEND_CSD then do {
             rs \<leftarrow> VirtMmcFillRespCsd K (cmd_resp cmd) blk;
             Some (ret (cmd\<lparr>cmd_resp := rs\<rparr>)) }
           else if code = READ_SINGLE_BLOCK \<or> code = READ_MULTIPLE_BLOCK \<or>
                   code = WRITE_BLOCK \<or> code = WRITE_MULTIPLE_BLOCK then do {
             (st, cmd, blk, t) \<leftarrow> VirtMmcIO E K waitEvent cntlr blk cmd t;
             Some (st, Some (cntlr\<lparr>cn_priv := Some blk\<rparr>), Some cmd, t) }
           else Some (ret (cmd\<lparr>cmd_returnError := HDF_ERR_NOT_SUPPORT\<rparr>)))
      | _ \<Rightarrow> Some (HDF_ERR_INVALID_OBJECT, cntlrp, cmdp, t))"

definition VirtMmcPlugged :: "MmcCntlr \<Rightarrow> bool" where
  "VirtMmcPlugged cntlr = True"

definition VirtMmcBusy :: "MmcCntlr \<Rightarrow> bool" where
  "VirtMmcBusy cntlr = False"

subsection \<open>HDF entry points\<close>

text \<open>\<open>HdfVirtblkRelease\<close> gets the controller behind \<open>deviceObject->priv\<close>.\<close>

definition HdfVirtblkRelease :: "MmcCntlr \<Rightarrow> trace \<Rightarrow> trace" where
  "HdfVirtblkRelease cntlr t =
     (let t = (case cn_priv cntlr of None \<Rightarrow> t | Some blk \<Rightarrow> VirtblkDeInit blk t);
          t = (case curDev cntlr of None \<Rightarrow> t
               | Some (d, _) \<Rightarrow> kproc OsalMemFree [d] (kproc MmcDeviceRemove [d] t));
          t = kproc MmcCntlrRemove [cn_addr cntlr] t
      in kproc OsalMemFree [cn_addr cntlr] t)"

text \<open>\<open>attach\<close> is the current device the framework leaves in the controller after a call of its own
  functions. The result carries the controller the driver object now holds.\<close>

definition HdfVirtblkBind ::
  "env \<Rightarrow> blk_abi \<Rightarrow> mmc_consts \<Rightarrow> (trace \<Rightarrow> u32 \<Rightarrow> VirtblkConfig) \<Rightarrow> u32 \<Rightarrow> (trace \<Rightarrow> (u32 \<times> bool) option)
     \<Rightarrow> bool \<Rightarrow> trace \<Rightarrow> (HDF_STATUS \<times> MmcCntlr option \<times> trace) option" where
  "HdfVirtblkBind E A K conf sizeof_MmcCntlr attach obj_is_null t =
     (if obj_is_null then Some (HDF_ERR_INVALID_OBJECT, None, t) else do {
        let (c, t) = kcall E OsalMemCalloc [sizeof_MmcCntlr] t;
        if c = 0 then Some (HDF_ERR_MALLOC_FAIL, None, t) else do {
          (r, t) \<leftarrow> VirtblkInitDev E A K conf t;
          (case r of
             None \<Rightarrow> Some (HDF_FAILURE, None, kproc OsalMemFree [c] t)
           | Some blk \<Rightarrow>
               let (ret, t) = kstatus E MmcCntlrParse [c] t;
                   cntlr = \<lparr>cn_addr = c, cn_priv = Some blk, curDev = attach t\<rparr> in
               if ret \<noteq> HDF_SUCCESS then Some (ret, None, HdfVirtblkRelease cntlr t) else
               let (ret, t) = kstatus E MmcCntlrAdd [c, 1] t;
                   cntlr = cntlr\<lparr>curDev := attach t\<rparr> in
               if ret \<noteq> HDF_SUCCESS then Some (ret, None, HdfVirtblkRelease cntlr t) else
               Some (HDF_SUCCESS, Some cntlr, kproc MmcCntlrAddDetectMsgToQueue [c] t))
        }
      })"

definition HdfVirtblkInit :: "bool \<Rightarrow> HDF_STATUS" where
  "HdfVirtblkInit device_is_null = (if device_is_null then HDF_ERR_INVALID_PARAM else HDF_SUCCESS)"

subsection \<open>The card registers as 128-bit numbers\<close>

text \<open>The response words hold a 128-bit register, most significant word first.\<close>

fun resp_bits :: "u32 list \<Rightarrow> 128 word" where
  "resp_bits [] = 0"
| "resp_bits (r # rs) = push_bit (32 * length rs) (ucast r) OR resp_bits rs"

lemma bit_u32D: "bit (w :: u32) n \<Longrightarrow> n < 32"
  using bit_imp_le_length [of w n] by simp

lemma bit_resp_bits:
  "length rs \<le> 4 \<Longrightarrow>
   bit (resp_bits rs) n \<longleftrightarrow> n < 32 * length rs \<and> bit (rs ! (length rs - 1 - n div 32)) (n mod 32)"
proof (induction rs)
  case Nil
  then show ?case by simp
next
  case (Cons r rs)
  consider (low) "n < 32 * length rs" | (mid) "n div 32 = length rs" | (high) "32 * length (r # rs) \<le> n"
    by (simp add: div_nat_eqI) linarith
  then show ?case
  proof cases
    case low
    then have "n div 32 < length rs"
      by (simp add: less_mult_imp_div_less mult.commute)
    with low Cons show ?thesis
      by (simp add: bit_simps nth_Cons' Suc_diff_Suc)
  next
    case mid
    then have "n mod 32 = n - 32 * length rs" "32 * length rs \<le> n" "n < 32 * length (r # rs)"
      using div_mult_mod_eq [of n 32] mod_less_divisor [of 32 n] by simp_all
    with mid Cons show ?thesis
      by (auto simp: bit_simps)
  next
    case high
    with Cons show ?thesis
      by (auto simp: bit_simps dest: bit_u32D)
  qed
qed

lemma bit_field_value:
  fixes v :: u32
  assumes "unat v < 2 ^ w" and "bit v k"
  shows "k < w"
proof (rule ccontr)
  assume "\<not> k < w"
  then have "(2::nat) ^ w \<le> 2 ^ k" by simp
  moreover have "bit (unat v) k"
    using assms(2) by (simp add: bit_unsigned_iff)
  then have "2 ^ k \<le> unat v"
    by (metis bit_iff_odd div_less even_zero not_less)
  ultimately show False using assms(1) by linarith
qed

lemma or_word_in: "i < length rs \<Longrightarrow> or_word rs i v = Some (rs[i := rs ! i OR v])"
  by (simp add: or_word_def)

lemma FillCidCsdBits_value:
  assumes K: "CID_LEN K = 4" and len: "length rs = 4"
    and f: "unat v < 2 ^ w" "w \<le> 32" "start + w \<le> 128" "0 < w"
  shows "\<exists>rs'. FillCidCsdBits K rs start w v = Some rs' \<and> length rs' = 4 \<and>
    resp_bits rs' = resp_bits rs OR push_bit start (ucast v)"
proof -
  define q where "q = start div 32"
  define l where "l = start mod 32"
  have st: "start = 32 * q + l" and l: "l < 32"
    by (simp_all add: q_def l_def)
  then have q: "q < 4" using f by simp
  then have q4: "q = 0 \<or> q = 1 \<or> q = 2 \<or> q = 3" by linarith
  have i0: "unat (of_nat (CID_LEN K) - 1 - of_nat q :: u32) = 3 - q"
    using q4 by (elim disjE; simp add: K)
  define rs1 where "rs1 = rs[3 - q := rs ! (3 - q) OR push_bit l v]"
  define rs2 where "rs2 = (if l + w > 32 then rs1[2 - q := rs1 ! (2 - q) OR drop_bit (32 - l) v] else rs1)"
  have q3: "q < 3" if "l + w > 32" using that st f by linarith
  have i1: "unat (of_nat (CID_LEN K) - 1 - of_nat q - 1 :: u32) = 2 - q" if "l + w > 32"
    using q4 q3 [OF that] by (elim disjE; simp add: K)
  have r: "FillCidCsdBits K rs start w v = Some rs2"
    using len i0 i1 by (simp add: FillCidCsdBits_def Let_def or_word_in rs2_def rs1_def
        flip: q_def l_def)
  moreover have l2: "length rs2 = 4"
    by (simp add: rs2_def rs1_def len)
  moreover have "resp_bits rs2 = resp_bits rs OR push_bit start (ucast v)"
  proof (rule bit_word_eqI)
    fix n assume "n < LENGTH(128)"
    then have n: "n < 128" by simp
    define a where "a = n div 32"
    define b where "b = n mod 32"
    have nn: "n = 32 * a + b" "b < 32" and a: "a < 4"
      using n by (simp_all add: a_def b_def)
    have vb: "k < w" if "bit v k" for k using bit_field_value [OF f(1) that] .
    consider "a < q" | "a = q" | "a = Suc q" | "Suc q < a" by linarith
    then have "bit (rs2 ! (3 - a)) b \<longleftrightarrow> bit (rs ! (3 - a)) b \<or> start \<le> n \<and> bit v (n - start)"
    proof cases
      case 1
      then have "3 - a \<noteq> 3 - q" "3 - a \<noteq> 2 - q" using a q by linarith+
      with 1 show ?thesis using st nn by (simp add: rs2_def rs1_def)
    next
      case 2
      then show ?thesis using st nn l len q q3
        by (cases "q = 3") (auto simp: rs2_def rs1_def bit_simps)
    next
      case 3
      then have "n - start = 32 - l + b" "start \<le> n" using st nn l by linarith+
      then show ?thesis using st nn l len q q3 3 a
        by (auto simp: rs2_def rs1_def bit_simps dest!: vb)
    next
      case 4
      then have "3 - a \<noteq> 3 - q" "3 - a \<noteq> 2 - q" "n - start \<ge> 32" using a q st nn l by linarith+
      then show ?thesis using bit_u32D [of v "n - start"] by (auto simp: rs2_def rs1_def)
    qed
    then show "bit (resp_bits rs2) n = bit (resp_bits rs OR push_bit start (ucast v)) n"
      using n len l2 by (auto simp: bit_resp_bits bit_simps a_def b_def)
  qed
  ultimately show ?thesis by blast
qed


lemma FillCidCsdBits_widen:
  "(start mod 32 + w > 32) = (start mod 32 + w' > 32) \<Longrightarrow> FillCidCsdBits K rs start w v = FillCidCsdBits K rs start w' v"
  by (simp add: FillCidCsdBits_def Let_def)

fun fill_fields :: "mmc_consts \<Rightarrow> u32 list \<Rightarrow> (nat \<times> nat \<times> u32) list \<Rightarrow> u32 list option" where
  "fill_fields K rs [] = Some rs"
| "fill_fields K rs ((s, w, v) # fs) = do { rs \<leftarrow> FillCidCsdBits K rs s w v; fill_fields K rs fs }"

fun fields_value :: "(nat \<times> nat \<times> u32) list \<Rightarrow> 128 word" where
  "fields_value [] = 0"
| "fields_value ((s, w, v) # fs) = push_bit s (ucast v) OR fields_value fs"

fun fields_fit :: "(nat \<times> nat \<times> u32) list \<Rightarrow> bool" where
  "fields_fit [] \<longleftrightarrow> True"
| "fields_fit ((s, w, v) # fs) \<longleftrightarrow> unat v < 2 ^ w \<and> w \<le> 32 \<and> s + w \<le> 128 \<and> 0 < w \<and> fields_fit fs"

lemma fill_fields_value:
  assumes K: "CID_LEN K = 4"
  shows "fields_fit fs \<Longrightarrow> length rs = 4 \<Longrightarrow>
    \<exists>rs'. fill_fields K rs fs = Some rs' \<and> resp_bits rs' = resp_bits rs OR fields_value fs"
proof (induction fs arbitrary: rs rule: fields_value.induct)
  case 1
  then show ?case by simp
next
  case (2 s w v fs)
  from 2(2) have fit: "unat v < 2 ^ w" "w \<le> 32" "s + w \<le> 128" "0 < w" by simp_all
  obtain rs1 where "FillCidCsdBits K rs s w v = Some rs1" "length rs1 = 4"
    "resp_bits rs1 = resp_bits rs OR push_bit s (ucast v)"
    using FillCidCsdBits_value [OF K 2(3) fit] by blast
  moreover obtain rs2 where "fill_fields K rs1 fs = Some rs2"
    "resp_bits rs2 = resp_bits rs1 OR fields_value fs"
    using 2(1) [OF _ \<open>length rs1 = 4\<close>] 2(2) by auto
  ultimately show ?case by (simp add: or.assoc)
qed

text \<open>The fields of the CSD register with the values the code puts in them.\<close>

definition csd_fields :: "mmc_consts \<Rightarrow> (nat \<times> nat \<times> u32) list \<Rightarrow> (nat \<times> nat \<times> u32) list" where
  "csd_fields K size_fields =
     [(126, 2, MMC_CSD_STRUCTURE_VER_1_2 K), (122, 4, MMC_CSD_SPEC_VER_4 K),
      (84, 12, MMC_CSD_CCC_BASIC K OR MMC_CSD_CCC_BLOCK_READ K OR MMC_CSD_CCC_BLOCK_WRITE K),
      (79, 1, 0), (78, 1, 0), (77, 1, 0), (76, 1, 0)] @ size_fields @
     [(47, 3, 7), (42, 5, 31), (37, 5, 15), (21, 1, 0), (15, 1, 0), (10, 2, 0)]"

lemma fill_fields_append:
  "fill_fields K rs (as @ bs) = do { rs \<leftarrow> fill_fields K rs as; fill_fields K rs bs }"
  by (induction as arbitrary: rs) auto

lemma VirtMmcFillRespCsd_fields:
  assumes "\<And>rs. csd_size_fields K rs blk = fill_fields K rs sf"
  shows "VirtMmcFillRespCsd K rs blk = fill_fields K rs (csd_fields K sf)"
  by (simp add: VirtMmcFillRespCsd_def csd_fields_def fill_fields_append assms)

text \<open>A field of a register.\<close>

definition reg_field :: "u32 list \<Rightarrow> nat \<Rightarrow> nat \<Rightarrow> nat" where
  "reg_field rs start w = unat (take_bit w (drop_bit start (resp_bits rs)))"

text \<open>What the MMC headers promise of the constants the register is made of.\<close>

definition mmc_std :: "mmc_consts \<Rightarrow> bool" where
  "mmc_std K \<longleftrightarrow> MMC_SEC_SIZE K = 512 \<and> MMC_SEC_SHIFT K = 9 \<and> CID_LEN K = 4 \<and>
     MMC_CSD_STRUCTURE_VER_1_2 K < 4 \<and> MMC_CSD_SPEC_VER_4 K < 16 \<and>
     MMC_CSD_CCC_BASIC K = 1 \<and> MMC_CSD_CCC_BLOCK_READ K = 4 \<and> MMC_CSD_CCC_BLOCK_WRITE K = 16"

lemma fields_value_append: "fields_value (as @ bs) = fields_value as OR fields_value bs"
  by (induction as rule: fields_value.induct) (auto simp: or.assoc)

lemma fields_fit_append: "fields_fit (as @ bs) \<longleftrightarrow> fields_fit as \<and> fields_fit bs"
  by (induction as rule: fields_fit.induct) auto

lemma csd_reg:
  assumes K: "mmc_std K" and sf: "\<And>rs. csd_size_fields K rs blk = fill_fields K rs sf"
    and fit: "fields_fit sf" and rs: "rs = replicate 4 0"
  shows "\<exists>rs'. VirtMmcFillRespCsd K rs blk = Some rs' \<and> resp_bits rs' =
    fields_value (csd_fields K sf)"
proof -
  have "fields_fit (csd_fields K sf)"
    using K fit by (simp add: csd_fields_def fields_fit_append mmc_std_def word_less_nat_alt)
  moreover have "resp_bits rs = 0" by (simp add: rs numeral_eq_Suc)
  ultimately show ?thesis
    using fill_fields_value [of K "csd_fields K sf" rs] K rs
    by (simp add: VirtMmcFillRespCsd_fields [OF sf] mmc_std_def)
qed

lemma bit_fields_value:
  "n < 128 \<Longrightarrow> bit (fields_value fs) n \<longleftrightarrow> (\<exists>(s, w, v) \<in> set fs. s \<le> n \<and> bit v (n - s))"
  by (induction fs rule: fields_value.induct) (auto simp: bit_simps dest: bit_u32D)

lemma bit_ucast_field:
  "bit (take_bit r (drop_bit start (x :: 128 word))) n \<longleftrightarrow> n < r \<and> start + n < 128 \<and> bit x (start + n)"
  by (auto simp: bit_simps dest: bit_imp_le_length)

text \<open>A field that no other field touches reads back as it was written.\<close>

lemma reg_field_roundtrip:
  assumes r: "resp_bits rs = fields_value fs" and fit: "fields_fit fs"
    and mem: "(s, w, v) \<in> set fs" and k: "k \<le> w"
    and sep: "\<forall>(s', w', v') \<in> set fs. (s', w', v') = (s, w, v) \<or> s' + w' \<le> s \<or> s + k \<le> s'"
  shows "reg_field rs s k = unat (take_bit k v)"
proof -
  have fitD: "unat v' < 2 ^ w' \<and> s' + w' \<le> 128" if "(s', w', v') \<in> set fs" for s' w' v'
    using fit that by (induction fs rule: fields_fit.induct) auto
  have "take_bit k (drop_bit s (resp_bits rs)) = ucast (take_bit k v)"
  proof (rule bit_word_eqI)
    fix n assume "n < LENGTH(128)"
    have "bit (fields_value fs) (s + n) \<longleftrightarrow> bit v n" if n: "n < k"
    proof -
      have lt: "s + n < 128" using fitD [OF mem] n k by linarith
      have only: "s' = s \<and> v' = v" if "(s', w', v') \<in> set fs" "s' \<le> s + n" "bit v' (s + n - s')" for s' w' v'
      proof -
        have "s + n - s' < w'" using bit_field_value [OF _ that(3)] fitD [OF that(1)] by blast
        with sep that(1,2) n show ?thesis by fastforce
      qed
      show ?thesis
      proof
        assume "bit (fields_value fs) (s + n)"
        then obtain s' w' v' where "(s', w', v') \<in> set fs" "s' \<le> s + n" "bit v' (s + n - s')"
          unfolding bit_fields_value [OF lt] by blast
        with only [of s' w' v'] show "bit v n" by simp
      next
        assume "bit v n"
        then show "bit (fields_value fs) (s + n)"
          unfolding bit_fields_value [OF lt] by (intro bexI [OF _ mem]) simp
      qed
    qed
    moreover have "s + n < 128" if "n < k" using that fitD [OF mem] k by linarith
    ultimately show "bit (take_bit k (drop_bit s (resp_bits rs))) n = bit (ucast (take_bit k v) :: 128 word) n"
      using \<open>n < LENGTH(128)\<close> by (auto simp: bit_ucast_field r bit_simps dest: bit_u32D)
  qed
  then show ?thesis
    by (simp add: reg_field_def unsigned_ucast_eq) (simp add: take_bit_nat_eq_self unsigned_less [THEN order_less_le_trans])
qed

lemma csd_size_le_2G:
  assumes K: "mmc_std K" and cap: "capacity blk \<le> CAPACITY_2G"
  shows "csd_size_fields K rs blk = fill_fields K rs [(80, 4, 11), (22, 4, 11),
     (62, 12, ucast (capacity blk div 2048 - 1))]"
proof -
  have "capacity blk * 512 div 2048 div 512 = capacity blk div 2048"
    using cap by (simp add: word_unat_eq_iff unat_div word_le_nat_alt unat_word_ariths
        div_mult2_eq [symmetric] div_mult_mult2)
  moreover have "\<not> CAPACITY_2G < capacity blk" using cap by simp
  ultimately show ?thesis
    using K by (simp add: csd_size_fields_def mmc_std_def Let_def del: not_less)
qed


definition csd_card_bytes :: "u32 list \<Rightarrow> nat" where
  "csd_card_bytes rs = (reg_field rs 62 12 + 1) * 2 ^ (reg_field rs 47 3 + 2) * 2 ^ reg_field rs 80 4"

lemma csd_reads_back:
  assumes K: "mmc_std K" and sf: "\<And>rs. csd_size_fields K rs blk = fill_fields K rs sf"
    and fit: "fields_fit sf"
  shows "\<exists>rs. VirtMmcFillRespCsd K (replicate 4 0) blk = Some rs \<and> resp_bits rs = fields_value (csd_fields K sf)
    \<and> fields_fit (csd_fields K sf)"
  using csd_reg [OF K sf fit refl] K fit
  by (simp add: csd_fields_def fields_fit_append mmc_std_def word_less_nat_alt)


lemma bit_reg_field:
  "n < w \<Longrightarrow> start + w \<le> 128 \<Longrightarrow> bit (reg_field rs start w) n \<longleftrightarrow> bit (resp_bits rs) (start + n)"
  by (auto simp: reg_field_def bit_unsigned_iff bit_ucast_field)

lemma reg_field_ones:
  assumes "start + w \<le> 128" and "\<And>n. n < w \<Longrightarrow> bit (resp_bits rs) (start + n)"
  shows "reg_field rs start w = 2 ^ w - 1"
proof -
  have "take_bit w (drop_bit start (resp_bits rs)) = (mask w :: 128 word)"
    by (rule bit_word_eqI) (use assms in \<open>auto simp: bit_simps\<close>)
  moreover have "w \<le> 128" using assms(1) by simp
  moreover from this have "unat (mask w :: 128 word) = mask w"
    by (simp only: take_bit_minus_one_eq_mask [symmetric] unsigned_take_bit_eq unsigned_minus_1_eq_mask
        take_bit_of_mask) (simp add: min_absorb1)
  ultimately show ?thesis by (simp add: reg_field_def mask_eq_exp_minus_1)
qed

text \<open>For a card below 1 MiB the size computation wraps: the 32-bit field value runs over the
  neighbouring READ_BL_LEN, and the register describes a card of 64 GiB.\<close>

theorem VirtMmcFillRespCsd_tiny_card:
  assumes "mmc_std K" and "capacity blk < 2048"
  shows "\<exists>rs. VirtMmcFillRespCsd K (replicate 4 0) blk = Some rs \<and> csd_card_bytes rs = 2 ^ 36"
proof -
  have "capacity blk div 2048 = 0"
    using assms(2) by (simp add: word_unat_eq_iff unat_div word_less_nat_alt)
  moreover have "(ucast (-1 :: u64) :: u32) = 0xFFFFFFFF" by (simp add: word_unat_eq_iff unsigned_ucast_eq unsigned_minus_1_eq_mask take_bit_of_mask mask_eq_exp_minus_1)
  ultimately have v: "(ucast (capacity blk div 2048 - 1) :: u32) = 0xFFFFFFFF" by simp
  let ?sf = "[(80, 4, 11), (22, 4, 11), (62, 32, 0xFFFFFFFF)]"
  have "capacity blk \<le> CAPACITY_2G" using assms(2) by (simp add: word_less_nat_alt word_le_nat_alt)
  then have sf: "csd_size_fields K rs blk = fill_fields K rs ?sf" for rs
    using csd_size_le_2G [OF assms(1)] v FillCidCsdBits_widen [of 62 12 32] by simp
  then obtain rs where r: "VirtMmcFillRespCsd K (replicate 4 0) blk = Some rs"
    "resp_bits rs = fields_value (csd_fields K ?sf)" "fields_fit (csd_fields K ?sf)"
    using csd_reads_back [OF assms(1) sf] by auto
  have "bit (resp_bits rs) n" if "62 \<le> n" "n < 94" for n
  proof -
    have "(62, 32, 0xFFFFFFFF) \<in> set (csd_fields K ?sf)" by (simp add: csd_fields_def)
    moreover have "bit (0xFFFFFFFF :: u32) (n - 62)"
      using that mask_eq_exp_minus_1 [of 32, where 'a = u32] bit_mask_iff [of 32 "n - 62", where 'a = u32]
      by simp
    ultimately show ?thesis
      using that r(2) bit_fields_value [of n "csd_fields K ?sf"] by fastforce
  qed
  then have "reg_field rs 62 12 = 4095" "reg_field rs 80 4 = 15"
    using reg_field_ones [of 62 12 rs] reg_field_ones [of 80 4 rs] by simp_all
  moreover have "reg_field rs 47 3 = 7"
    using reg_field_roundtrip [OF r(2,3), of 47 3 7 3] by (simp add: csd_fields_def)
  ultimately show ?thesis
    using r(1) by (simp add: csd_card_bytes_def)
qed

lemma clz_from_power: "e < k \<Longrightarrow> k \<le> 32 \<Longrightarrow> clz_from k (2 ^ e) = k - 1 - e"
proof (induction k)
  case 0
  then show ?case by simp
next
  case (Suc k)
  then show ?case by (cases "e = k") (auto simp: bit_exp_iff)
qed

lemma clz_power:
  assumes "e < 32"
  shows "builtin_clz (2 ^ e) = Some (31 - e)"
proof -
  have "unat ((2::u32) ^ e) = 2 ^ e" using assms by (intro unat_two_power) simp
  then have "(2::u32) ^ e \<noteq> 0" by (metis power_not_zero unat_0 zero_neq_numeral)
  then show ?thesis using assms by (simp add: builtin_clz_def clz_from_power)
qed

text \<open>For a card above 2 GiB the CSD announces the maximal C_SIZE and the block size of the
  device, \<open>2 ^ e\<close>, as READ_BL_LEN modulo 16; so the largest block size the driver accepts, \<open>2 ^ 16\<close>,
  is announced as 0.\<close>

theorem VirtMmcFillRespCsd_large_card:
  assumes "mmc_std K" and "CAPACITY_2G < capacity blk" and "blkSize blk = 2 ^ e" and "e \<le> 16"
  shows "\<exists>rs. VirtMmcFillRespCsd K (replicate 4 0) blk = Some rs \<and>
    reg_field rs 62 12 = 0xFFF \<and> reg_field rs 80 4 = e mod 16"
proof -
  have e: "unat (of_nat e :: u32) = e" using assms(4) by (simp add: unat_of_nat)
  let ?sf = "[(80, 5, of_nat e), (22, 5, of_nat e), (62, 12, 0xFFF)]"
  have "32 - (31 - e) - 1 = e" using assms(4) by simp
  then have sf: "csd_size_fields K rs blk = fill_fields K rs ?sf" for rs
    using assms clz_power [of e] FillCidCsdBits_widen [of 80 4 5] FillCidCsdBits_widen [of 22 4 5]
    by (simp add: csd_size_fields_def Let_def del: diff_diff_left)
  have "fields_fit ?sf" using e assms(4) by simp
  then obtain rs where r: "VirtMmcFillRespCsd K (replicate 4 0) blk = Some rs"
    "resp_bits rs = fields_value (csd_fields K ?sf)" "fields_fit (csd_fields K ?sf)"
    using csd_reads_back [OF assms(1) sf] by blast
  note f = reg_field_roundtrip [OF r(2,3)]
  have "reg_field rs 62 12 = 0xFFF"
    using f [of 62 12 "0xFFF" 12] by (simp add: csd_fields_def)
  moreover have "reg_field rs 80 4 = e mod 16"
    using f [of 80 5 "of_nat e" 4] e by (simp add: csd_fields_def unsigned_take_bit_eq take_bit_nat_def)
  ultimately show ?thesis using r(1) by simp
qed

subsection \<open>Negotiation of the block device\<close>

interpretation blk_features: virtio_driver "Blk_Feature0 K config" "Blk_Feature1" for K config
proof (rule virtio_driverI)
  show "honest_callback (Blk_Feature0 K config)"
    by (rule honest_callbackI [of _ 6]) (auto simp: Blk_Feature0_def Let_def split: if_splits)
qed (simp add: Blk_Feature1_def)

subsection \<open>The request queue in order\<close>

definition blk_ready :: "env \<Rightarrow> blk_abi \<Rightarrow> Virtblk \<Rightarrow> bool" where
  "blk_ready E A blk \<longleftrightarrow>
     length (vq (blk_dev blk)) = 2 \<and> qsz (vq (blk_dev blk) ! 0) = VIRTQ_REQUEST_QSZ \<and>
     vring_ok 4 (blk_ring blk) \<and>
     descs (blk_ring blk) ! 0 = \<lparr>pAddr = VMM_TO_DMA_ADDR E (ucast (blk_addr blk + offsetof_req A)),
       d_len = 16, d_flag = VIRTQ_DESC_F_NEXT, d_next = 1\<rparr> \<and>
     d_next (descs (blk_ring blk) ! 1) = 2 \<and>
     pAddr (descs (blk_ring blk) ! 2) = VMM_TO_DMA_ADDR E (ucast (blk_addr blk + offsetof_resp A)) \<and>
     d_len (descs (blk_ring blk) ! 2) = 1 \<and> d_flag (descs (blk_ring blk) ! 2) = VIRTQ_DESC_F_WRITE"

lemma blk_featuresD:
  "Blk_Feature0 K config F p s t = (ok, sp, s') \<Longrightarrow>
     blk_addr s' = blk_addr s \<and> blk_dev s' = blk_dev s \<and> blk_ring s' = blk_ring s"
  "Blk_Feature1 F p s t = (ok, sp, s') \<Longrightarrow> s' = s"
  by (auto simp: Blk_Feature0_def Blk_Feature1_def Let_def split: if_splits)

lemma blk_negotiate_frame:
  assumes "VirtmmioNegotiate E dev (Blk_Feature0 K config) Blk_Feature1 s t = Some (ok, s', t')"
  shows "blk_addr s' = blk_addr s \<and> blk_dev s' = blk_dev s \<and> blk_ring s' = blk_ring s"
  by (rule VirtmmioNegotiate_keeps [OF assms, where Q = "\<lambda>x. blk_addr x = blk_addr s \<and> blk_dev x = blk_dev s \<and>
      blk_ring x = blk_ring s"]) (auto dest: blk_featuresD)

lemma PopulateRequestQ_ready:
  assumes "vring_ok 4 (blk_ring blk)" and "length (vq (blk_dev blk)) = 2"
    and "qsz (vq (blk_dev blk) ! 0) = VIRTQ_REQUEST_QSZ"
  shows "\<exists>blk'. PopulateRequestQ E A blk = Some blk' \<and> blk_ready E A blk' \<and> blk_addr blk' = blk_addr blk \<and>
    blk_dev blk' = blk_dev blk"
  using assms vring_okD(1) [OF assms(1)]
  by (simp add: PopulateRequestQ_def ring_defs blk_ready_def vring_ok_def)

text \<open>The calls of the failure exits.\<close>

lemma VirtblkDeInit_kcalls [simp]:
  "kcalls (VirtblkDeInit blk t) = Call LOS_DmaMemFree [blk_addr blk] #
     (if irq (blk_dev blk) AND NOT IRQ_MASK \<noteq> 0
      then [Call OsalUnregisterIrq [irq (blk_dev blk) AND IRQ_MASK, blk_addr blk]] else []) @ kcalls t"
  by (simp add: VirtblkDeInit_def io_defs Let_def)

lemma blk_negotiate_step:
  assumes "VirtmmioNegotiate E dev (Blk_Feature0 K config) Blk_Feature1 s t = Some (ok, s', t')"
  shows "blk_addr s' = blk_addr s \<and> blk_dev s' = blk_dev s \<and> blk_ring s' = blk_ring s \<and>
    kcalls t' = kcalls t"
  using blk_negotiate_frame [OF assms] VirtmmioNegotiate_calls [OF assms] by blast

lemma populate_step:
  assumes "PopulateRequestQ E A blk = Some blk'"
  shows "blk_addr blk' = blk_addr blk \<and> blk_dev blk' = blk_dev blk \<and>
    (vring_ok 4 (blk_ring blk) \<and> length (vq (blk_dev blk)) = 2 \<and> qsz (vq (blk_dev blk) ! 0) = VIRTQ_REQUEST_QSZ
      \<longrightarrow> blk_ready E A blk')"
  using PopulateRequestQ_ready [of blk E A] assms
  by (auto simp: PopulateRequestQ_def split: Option.bind_splits)

lemmas blk_init_steps = discover_step init_begin_step blk_negotiate_step config_queue_step [where n = 4] populate_step

lemma VirtblkInitDev_fails:
  assumes "VirtblkInitDev E A K config t = Some (None, t')"
    and "len = sizeof_Virtblk A + VirtqSize E VIRTQ_REQUEST_QSZ" and "p = sys_ret E t LOS_DmaMemAlloc [len]"
  shows "calls_of LOS_DmaMemAlloc t' = calls_of LOS_DmaMemAlloc t @ [[len]]"
    and "calls_of LOS_DmaMemFree t' = calls_of LOS_DmaMemFree t @ (if p = 0 then [] else [[p]])"
  using assms
  by (auto simp: VirtblkInitDev_def kcall_def kstatus_def Let_def zero_Virtblk_def blk_err_out_def blk_err_out1_def
       calls_of_def split: Option.bind_splits if_splits prod.splits dest!: blk_init_steps)

lemma VirtblkInitDev_succeeds:
  assumes "VirtblkInitDev E A K config t = Some (Some blk, t')"
    and "len = sizeof_Virtblk A + VirtqSize E VIRTQ_REQUEST_QSZ" and "p = sys_ret E t LOS_DmaMemAlloc [len]"
  shows "p \<noteq> 0 \<and> blk_addr blk = p \<and> calls_of LOS_DmaMemAlloc t' = calls_of LOS_DmaMemAlloc t @ [[len]] \<and>
    calls_of LOS_DmaMemFree t' = calls_of LOS_DmaMemFree t \<and>
    irq (blk_dev blk) AND NOT IRQ_MASK \<noteq> 0 \<and> blk_ready E A blk"
  using assms
  by (auto simp: VirtblkInitDev_def kcall_def kstatus_def Let_def zero_Virtblk_def blk_err_out_def blk_err_out1_def
       irq_flag [simplified] calls_of_def split: Option.bind_splits if_splits prod.splits dest!: blk_init_steps)



lemma VirtblkIO_submit_request:
  assumes "blk_ready E A blk"
  shows "\<exists>blk1. VirtblkIO_submit E K blk cmd sector buf sectors t =
      Some (blk1, Wr (base (blk_dev blk) + VIRTMMIO_REG_QUEUENOTIFY) 0 # t) \<and>
    blk_ready E A blk1 \<and> avail_index (blk_ring blk1) = avail_index (blk_ring blk) + 1 \<and>
    avail_ring (blk_ring blk1) ! (unat (avail_index (blk_ring blk)) mod 4) = 0 \<and>
    device_chain (blk_ring blk1) 0 = Some
      [(VMM_TO_DMA_ADDR E (ucast (blk_addr blk + offsetof_req A)), 16, False),
       (VMM_TO_DMA_ADDR E (ucast buf), sectors * MMC_SEC_SIZE K, cmd = VIRTIO_BLK_T_IN),
       (VMM_TO_DMA_ADDR E (ucast (blk_addr blk + offsetof_resp A)), 1, True)] \<and>
    req_type (req blk1) = cmd \<and> startSector (req blk1) = sector \<and>
    blk_addr blk1 = blk_addr blk \<and> capacity blk1 = capacity blk \<and> blkSize blk1 = blkSize blk"
proof -
  have l: "length (descs (blk_ring blk)) = 4" "length (avail_ring (blk_ring blk)) = 4"
    using assms vring_okD [of 4 "blk_ring blk"] by (simp_all add: blk_ready_def)
  have q: "aget (vq (blk_dev blk)) 0 = Some (vq (blk_dev blk) ! 0)" "qsz (vq (blk_dev blk) ! 0) = 4"
    using assms by (simp_all add: blk_ready_def)
  show ?thesis
    using assms l by (simp add: VirtblkIO_submit_def q ring_defs WRITE_UINT32_eq blk_ready_def vring_ok_def
        device_chain_def aget_def)
qed

lemma VirtblkInitDev_calls:
  assumes "VirtblkInitDev E A K config t = Some (r, t')"
  shows "calls_of OsalMemFree t' = calls_of OsalMemFree t"
  using assms
  by (cases r) (auto simp: VirtblkInitDev_def kcall_def kstatus_def Let_def zero_Virtblk_def blk_err_out_def
       blk_err_out1_def calls_of_def split: Option.bind_splits if_splits prod.splits dest!: blk_init_steps)

lemma VirtblkInitDev_irq:
  assumes "VirtblkInitDev E A K config t = Some (Some blk, t')"
  shows "calls_of OsalUnregisterIrq t' = calls_of OsalUnregisterIrq t"
  using assms
  by (auto simp: VirtblkInitDev_def kcall_def kstatus_def kproc_def Let_def zero_Virtblk_def
       blk_err_out_def blk_err_out1_def calls_of_def split: Option.bind_splits if_splits prod.splits dest!: blk_init_steps)

lemma HdfVirtblkRelease_calls:
  assumes "cn_priv cntlr = Some blk" and "irq (blk_dev blk) AND NOT IRQ_MASK \<noteq> 0"
  shows "calls_of LOS_DmaMemFree (HdfVirtblkRelease cntlr t) = calls_of LOS_DmaMemFree t @ [[blk_addr blk]]"
    and "calls_of OsalUnregisterIrq (HdfVirtblkRelease cntlr t) = calls_of OsalUnregisterIrq t @
      [[irq (blk_dev blk) AND IRQ_MASK, blk_addr blk]]"
    and "calls_of OsalMemFree (HdfVirtblkRelease cntlr t) = calls_of OsalMemFree t @
      (case curDev cntlr of None \<Rightarrow> [] | Some (d, _) \<Rightarrow> [[d]]) @ [[cn_addr cntlr]]"
  using assms by (simp_all add: HdfVirtblkRelease_def Let_def VirtblkDeInit_def io_defs split: option.splits)

text \<open>Binding the driver either succeeds and hands over the controller, or it fails and has
  released what it allocated: the DMA block of the device once, the framework's current device if there
  was one, and the controller last.\<close>

theorem HdfVirtblkBind_releases_on_failure:
  assumes "HdfVirtblkBind E A K config sz attach False t = Some (st, r, t')"
    and "c = sys_ret E t OsalMemCalloc [sz]" and "len = sizeof_Virtblk A + VirtqSize E VIRTQ_REQUEST_QSZ"
    and "p = sys_ret E (Call OsalMemCalloc [sz] # t) LOS_DmaMemAlloc [len]"
  shows "(st = HDF_SUCCESS \<longleftrightarrow> r \<noteq> None) \<and>
    calls_of LOS_DmaMemFree t' = calls_of LOS_DmaMemFree t @ (if c \<noteq> 0 \<and> p \<noteq> 0 \<and> r = None then [[p]] else []) \<and>
    (\<exists>D. calls_of OsalMemFree t' = calls_of OsalMemFree t @ D @ (if c \<noteq> 0 \<and> r = None then [[c]] else []) \<and>
       (D \<noteq> [] \<longrightarrow> r = None \<and> (\<exists>u d b. attach u = Some (d, b) \<and> D = [[d]])))"
proof (cases "c = 0")
  case True
  with assms show ?thesis by (auto simp: HdfVirtblkBind_def kcall_def)
next
  case False
  let ?t1 = "Call OsalMemCalloc [sz] # t"
  from assms False obtain r1 t1 where i: "VirtblkInitDev E A K config ?t1 = Some (r1, t1)"
    by (auto simp: HdfVirtblkBind_def kcall_def split: Option.bind_splits)
  note cm = VirtblkInitDev_calls [OF i]
  show ?thesis
  proof (cases r1)
    case None
    note n = VirtblkInitDev_fails [OF i [unfolded None] assms(3,4)]
    show ?thesis using assms(1,2) False i None n cm
      by (auto simp: HdfVirtblkBind_def kcall_def kproc_def)
  next
    case (Some blk)
    note s = VirtblkInitDev_succeeds [OF i [unfolded Some] assms(3,4)]
    show ?thesis using assms(1,2) False i Some s cm
      by (auto simp: HdfVirtblkBind_def kcall_def kproc_def kstatus_def Let_def HdfVirtblkRelease_calls
        split: if_splits option.splits) blast+
  qed
qed

subsection \<open>A concrete machine\<close>

definition example_mmc :: mmc_consts where
  "example_mmc = \<lparr>MMC_SEC_SIZE = 512, MMC_SEC_SHIFT = 9, CID_LEN = 4, MMC_CARD_BUSY_STATUS = 0x80000000,
     MMC_CSD_STRUCTURE_VER_1_2 = 2, MMC_CSD_SPEC_VER_4 = 4, MMC_CSD_CCC_BASIC = 1, MMC_CSD_CCC_BLOCK_READ = 4,
     MMC_CSD_CCC_BLOCK_WRITE = 16, READY_FOR_DATA = 0x100, STATE_READY = 1, EMMC_EXT_CSD_REL_WR_SEC_C = 222,
     EMMC_EXT_CSD_SEC_CNT = 212, EMMC_EXT_CSD_CARD_TYPE = 196, EMMC_EXT_CSD_STRUCTURE = 194, EMMC_EXT_CSD_REV = 192,
     EMMC_EXT_CSD_BUS_WIDTH = 183, EMMC_EXT_CSD_CARD_TYPE_26 = 1, EMMC_EXT_CSD_CARD_TYPE_52 = 2,
     EMMC_EXT_CSD_STRUCTURE_VER_1_2 = 2, EMMC_EXT_CSD_REV_1_3 = 3, EMMC_EXT_CSD_BUS_WIDTH_1 = 0, DATA_READ = 2\<rparr>"

lemma example_mmc_std: "mmc_std example_mmc"
  by (simp add: mmc_std_def example_mmc_def)

definition example_conf :: "trace \<Rightarrow> u32 \<Rightarrow> VirtblkConfig" where
  "example_conf t a = \<lparr>cf_capacity = 0x20000, cf_segMax = 0, cf_blkSize = 4096\<rparr>"

definition example_abi :: blk_abi where
  "example_abi = \<lparr>sizeof_Virtblk = 96, offsetof_req = 64, offsetof_resp = 80\<rparr>"

abbreviation (input) blk_env :: env where "blk_env \<equiv> example_env (example_preset VIRTMMIO_DEVICE_ID_BLK 0x41)"

lemmas example_run = VirtblkInitDev_def io_defs Let_def VirtmmioInitBegin_def VirtioResetStatus_def
  wait_driver_now driver_seen_def example_preset_def VirtmmioNegotiate_def Negotiate_def negotiate_loop.simps
  Blk_Feature0_def Blk_Feature1_def example_conf_def example_mmc_def VirtmmioConfigQueue_def CalculateQueueAddr_def
  CompleteConfigQueue_def WriteQueueAddr_def zero_Virtblk_def PopulateRequestQ_def ring_defs zero_vring_def
  align_example_def example_abi_def VritmmioInitEnd_def

lemma example_blk_init:
  "\<exists>blk t. VirtblkInitDev blk_env example_abi example_mmc example_conf [] = Some (Some blk, t) \<and>
     blkSize blk = 4096 \<and> capacity blk = 0x20000"
  by (simp add: example_run example_discover)

subsection \<open>Properties of the block driver\<close>

text \<open>C5. A read or write command of the MMC framework becomes exactly one virtio-blk request: at the
  notification the new entry of the available ring heads a chain of three buffers (request header,
  data, status byte) with the addresses, lengths and directions of the command, the header carries the
  operation and the sector (the argument scaled when the card is byte addressed), and the outcome of
  the request is reported in the data, I/O errors and a failed wait included.\<close>

theorem VirtMmcDoRequest_io:
  assumes "blk_ready E A blk" and "cn_priv cntlr = Some blk" and "curDev cntlr = Some (d, blockAddr)"
    and "cmd_data cmd = Some dat"
    and "cmdCode cmd \<in> {READ_SINGLE_BLOCK, READ_MULTIPLE_BLOCK, WRITE_BLOCK, WRITE_MULTIPLE_BLOCK}"
  shows "\<exists>blk1. blk_ready E A blk1 \<and>
    avail_index (blk_ring blk1) = avail_index (blk_ring blk) + 1 \<and>
    avail_ring (blk_ring blk1) ! (unat (avail_index (blk_ring blk)) mod 4) = 0 \<and>
    device_chain (blk_ring blk1) 0 = Some
      [(VMM_TO_DMA_ADDR E (ucast (blk_addr blk + offsetof_req A)), 16, False),
       (VMM_TO_DMA_ADDR E (ucast (dataBuffer dat)), blockNum dat * MMC_SEC_SIZE K, dataFlags dat = DATA_READ K),
       (VMM_TO_DMA_ADDR E (ucast (blk_addr blk + offsetof_resp A)), 1, True)] \<and>
    req_type (req blk1) = (if dataFlags dat = DATA_READ K then VIRTIO_BLK_T_IN else VIRTIO_BLK_T_OUT) \<and>
    startSector (req blk1) = (if \<not> blockAddr then drop_bit (MMC_SEC_SHIFT K) (ucast (argument cmd)) else ucast (argument cmd)) \<and>
    VirtMmcDoRequest E K w (Some cntlr) (Some cmd) t =
      (let (ret, blk2, t2) = w blk1 (Wr (base (blk_dev blk) + VIRTMMIO_REG_QUEUENOTIFY) 0 # t) in
       Some (HDF_SUCCESS, Some (cntlr\<lparr>cn_priv := Some blk2\<rparr>),
         Some (cmd\<lparr>cmd_returnError := HDF_SUCCESS, cmd_data := Some (dat\<lparr>data_returnError :=
           (if ret = 1 \<and> resp blk2 = VIRTIO_BLK_S_OK then HDF_SUCCESS else HDF_ERR_IO)\<rparr>)\<rparr>), t2))"
proof -
  let ?io = "if dataFlags dat = DATA_READ K then VIRTIO_BLK_T_IN else VIRTIO_BLK_T_OUT"
  let ?s = "(if \<not> blockAddr then drop_bit (MMC_SEC_SHIFT K) (ucast (argument cmd)) else ucast (argument cmd)) :: u64"
  obtain blk1 where s: "VirtblkIO_submit E K blk ?io ?s (dataBuffer dat) (blockNum dat) t =
      Some (blk1, Wr (base (blk_dev blk) + VIRTMMIO_REG_QUEUENOTIFY) 0 # t)"
    and b: "blk_ready E A blk1" "avail_index (blk_ring blk1) = avail_index (blk_ring blk) + 1"
      "avail_ring (blk_ring blk1) ! (unat (avail_index (blk_ring blk)) mod 4) = 0"
      "device_chain (blk_ring blk1) 0 = Some
      [(VMM_TO_DMA_ADDR E (ucast (blk_addr blk + offsetof_req A)), 16, False),
       (VMM_TO_DMA_ADDR E (ucast (dataBuffer dat)), blockNum dat * MMC_SEC_SIZE K, ?io = VIRTIO_BLK_T_IN),
       (VMM_TO_DMA_ADDR E (ucast (blk_addr blk + offsetof_resp A)), 1, True)]"
      "req_type (req blk1) = ?io" "startSector (req blk1) = ?s"
    using VirtblkIO_submit_request [OF assms(1), of K ?io ?s "dataBuffer dat" "blockNum dat" t] by blast
  have dir: "?io = VIRTIO_BLK_T_IN \<longleftrightarrow> dataFlags dat = DATA_READ K" by simp
  obtain ret blk2 t2 where w: "w blk1 (Wr (base (blk_dev blk) + VIRTMMIO_REG_QUEUENOTIFY) 0 # t) = (ret, blk2, t2)"
    by (rule prod_cases3)
  have io: "VirtblkIO E K w blk ?io ?s (dataBuffer dat) (blockNum dat) t =
      Some (if ret = 1 then resp blk2 else VIRTIO_BLK_S_IOERR, blk2, t2)"
    by (cases "ret = 1") (simp_all add: VirtblkIO_def s w split del: if_split)
  have "VirtMmcIO E K w cntlr blk (cmd\<lparr>cmd_returnError := HDF_SUCCESS\<rparr>) t =
      Some (HDF_SUCCESS, cmd\<lparr>cmd_returnError := HDF_SUCCESS, cmd_data := Some (dat\<lparr>data_returnError :=
        (if ret = 1 \<and> resp blk2 = VIRTIO_BLK_S_OK then HDF_SUCCESS else HDF_ERR_IO)\<rparr>)\<rparr>, blk2, t2)"
    using io assms(3,4) by (cases "ret = 1") (simp_all add: VirtMmcIO_def Let_def split del: if_split cong: if_cong)
  then have "VirtMmcDoRequest E K w (Some cntlr) (Some cmd) t =
      Some (HDF_SUCCESS, Some (cntlr\<lparr>cn_priv := Some blk2\<rparr>),
        Some (cmd\<lparr>cmd_returnError := HDF_SUCCESS, cmd_data := Some (dat\<lparr>data_returnError :=
        (if ret = 1 \<and> resp blk2 = VIRTIO_BLK_S_OK then HDF_SUCCESS else HDF_ERR_IO)\<rparr>)\<rparr>), t2)"
    using assms(2,5) by (elim insertE emptyE) (simp_all add: VirtMmcDoRequest_def Let_def)
  with b w show ?thesis
    unfolding dir by (intro exI [of _ blk1] conjI) simp_all
qed

text \<open>Every other command only looks at the card registers: it makes no device access and leaves
  the driver alone. It fails with INVALID_OBJECT exactly when an object is missing and with
  NOT_SUPPORT exactly for the commands outside the list.\<close>

theorem VirtMmcDoRequest_register_commands:
  assumes "VirtMmcDoRequest E K w cntlrp cmdp t = Some (st, cntlrp', cmdp', t')"
    and "\<And>cmd. cmdp = Some cmd \<Longrightarrow>
      cmdCode cmd \<notin> {READ_SINGLE_BLOCK, READ_MULTIPLE_BLOCK, WRITE_BLOCK, WRITE_MULTIPLE_BLOCK}"
  shows "t' = t \<and> cntlrp' = cntlrp \<and>
    st = (case (Option.bind cntlrp cn_priv, cmdp) of
            (Some blk, Some cmd) \<Rightarrow>
              if cmdCode cmd \<in> {0, 1, 2, 3, 6, 7, 8, 9, 10, 13} then HDF_SUCCESS else HDF_ERR_NOT_SUPPORT
          | _ \<Rightarrow> HDF_ERR_INVALID_OBJECT)"
  using assms
  by (auto simp: VirtMmcDoRequest_def VirtMmcFillRespR1_def Let_def split: option.splits if_splits Option.bind_splits)


lemma VirtMmcDoRequest_register_commands_witness:
  "\<exists>cmd' t'. VirtMmcDoRequest blk_env example_mmc (\<lambda>blk t. (1, blk, t)) (Some \<lparr>cn_addr = 1, cn_priv = Some (zero_Virtblk 0x1000), curDev = None\<rparr>)
     (Some \<lparr>cmdCode = 13, argument = 0, cmd_resp = [0, 0, 0, 0], cmd_returnError = HDF_FAILURE, cmd_data = None\<rparr>) []
     = Some (HDF_SUCCESS, Some \<lparr>cn_addr = 1, cn_priv = Some (zero_Virtblk 0x1000), curDev = None\<rparr>, cmd', t') \<and> t' = []"
proof -
  let ?c = "\<lparr>cn_addr = 1, cn_priv = Some (zero_Virtblk 0x1000), curDev = None\<rparr>"
  let ?k = "\<lparr>cmdCode = 13, argument = 0, cmd_resp = [0, 0, 0, 0], cmd_returnError = HDF_FAILURE, cmd_data = None\<rparr>"
  obtain st c' k' t' where r: "VirtMmcDoRequest blk_env example_mmc (\<lambda>blk t. (1, blk, t)) (Some ?c) (Some ?k) [] = Some (st, c', k', t')"
    by (simp add: VirtMmcDoRequest_def VirtMmcFillRespR1_def Let_def)
  show ?thesis
    using VirtMmcDoRequest_register_commands [OF r] r by simp
qed

lemma VirtMmcDoRequest_io_witness:
  "\<exists>blk t. VirtblkInitDev blk_env example_abi example_mmc example_conf [] = Some (Some blk, t) \<and>
     (\<exists>blk1 :: Virtblk. startSector (req blk1) = 5 \<and> device_chain (blk_ring blk1) 0 = Some
      [(VMM_TO_DMA_ADDR blk_env (ucast (blk_addr blk + 64)), 16, False), (VMM_TO_DMA_ADDR blk_env 0x8000, 1024, True),
       (VMM_TO_DMA_ADDR blk_env (ucast (blk_addr blk + 80)), 1, True)])"
proof -
  obtain blk t where i: "VirtblkInitDev blk_env example_abi example_mmc example_conf [] = Some (Some blk, t)"
    using example_blk_init by blast
  let ?d = "\<lparr>dataFlags = 2, dataBuffer = 0x8000, data_bytes = [], blockNum = 2, data_returnError = HDF_FAILURE\<rparr>"
  let ?c = "\<lparr>cn_addr = 1, cn_priv = Some blk, curDev = Some (7, True)\<rparr>"
  let ?k = "\<lparr>cmdCode = 18, argument = 5, cmd_resp = [0, 0, 0, 0], cmd_returnError = HDF_FAILURE, cmd_data = Some ?d\<rparr>"
  have "blk_ready blk_env example_abi blk"
    using VirtblkInitDev_succeeds [OF i refl refl] by simp
  moreover have "MMC_SEC_SIZE example_mmc = 512" "DATA_READ example_mmc = 2" "offsetof_req example_abi = 64"
    "offsetof_resp example_abi = 80"
    by (simp_all add: example_mmc_def example_abi_def)
  ultimately show ?thesis
    using i VirtMmcDoRequest_io [of blk_env example_abi blk ?c 7 True ?k ?d example_mmc "\<lambda>blk t. (1, blk, t)" "[]"]
    by (auto simp del: example_env_simps)
qed

text \<open>C8. The initialisation owns its memory: it allocates once; when it fails it has freed what it
  allocated, exactly once; when it succeeds it has freed nothing, the interrupt is marked as registered
  and the request queue is in order.\<close>

theorem VirtblkInitDev_ownership:
  assumes "VirtblkInitDev E A K config t = Some (r, t')"
    and "len = sizeof_Virtblk A + VirtqSize E VIRTQ_REQUEST_QSZ" and "p = sys_ret E t LOS_DmaMemAlloc [len]"
  shows "calls_of LOS_DmaMemAlloc t' = calls_of LOS_DmaMemAlloc t @ [[len]] \<and>
    (case r of
       None \<Rightarrow> calls_of LOS_DmaMemFree t' = calls_of LOS_DmaMemFree t @ (if p = 0 then [] else [[p]])
     | Some blk \<Rightarrow> p \<noteq> 0 \<and> blk_addr blk = p \<and> calls_of LOS_DmaMemFree t' = calls_of LOS_DmaMemFree t \<and>
         irq (blk_dev blk) AND NOT IRQ_MASK \<noteq> 0 \<and> blk_ready E A blk)"
  using VirtblkInitDev_fails [OF _ assms(2,3)] VirtblkInitDev_succeeds [OF _ assms(2,3)] assms(1)
  by (cases r) auto

lemma VirtblkInitDev_ownership_witness:
  "\<exists>blk t. VirtblkInitDev blk_env example_abi example_mmc example_conf [] = Some (Some blk, t) \<and>
     blk_addr blk = 0x1000 \<and> blk_ready blk_env example_abi blk \<and> calls_of LOS_DmaMemFree t = []"
proof -
  obtain blk t where i: "VirtblkInitDev blk_env example_abi example_mmc example_conf [] = Some (Some blk, t)"
    using example_blk_init by blast
  show ?thesis
    using VirtblkInitDev_ownership [OF i refl refl] i by auto
qed

text \<open>C7. Negotiation of the block device. On success the driver has acknowledged to the device only
  bits the device offered, VERSION_1 among them, wrote FEATURES_OK last and read it back set; the block
  size it keeps is a power of two from one sector to 128 sectors.\<close>

theorem Virtblk_negotiation:
  assumes "VirtmmioNegotiate E dev (Blk_Feature0 K config) Blk_Feature1 blk t = Some (True, blk', t')"
    and "mmc_std K"
  shows "(\<exists>S0 S1 st t1 t2 v.
    S0 AND NOT (rd_reg E (Wr (base dev + VIRTMMIO_REG_DEVFEATURESEL) 0 # t) (base dev + VIRTMMIO_REG_DEVFEATURE)) = 0 \<and>
    S1 AND NOT (rd_reg E (Wr (base dev + VIRTMMIO_REG_DEVFEATURESEL) 1 # t1) (base dev + VIRTMMIO_REG_DEVFEATURE)) = 0 \<and>
    S1 AND VIRTIO_F_VERSION_1 \<noteq> 0 \<and>
    writes_of t' = writes_of t @
      [(base dev + VIRTMMIO_REG_DEVFEATURESEL, 0), (base dev + VIRTMMIO_REG_DRVFEATURESEL, 0),
       (base dev + VIRTMMIO_REG_DRVFEATURE, S0),
       (base dev + VIRTMMIO_REG_DEVFEATURESEL, 1), (base dev + VIRTMMIO_REG_DRVFEATURESEL, 1),
       (base dev + VIRTMMIO_REG_DRVFEATURE, S1),
       (base dev + VIRTMMIO_REG_STATUS, st OR VIRTIO_STATUS_FEATURES_OK)] \<and>
    t' = Rd (base dev + VIRTMMIO_REG_STATUS) v # t2 \<and> v AND VIRTIO_STATUS_FEATURES_OK \<noteq> 0) \<and>
    blkSize blk' AND (blkSize blk' - 1) = 0 \<and> 512 \<le> blkSize blk' \<and> blkSize blk' \<le> 65536"
proof (intro conjI)
  from assms(1) obtain s1 t1 where
    n0: "Negotiate E dev 0 (Blk_Feature0 K config) blk t = Some (True, s1, t1)" and
    n1: "\<exists>t2. Negotiate E dev 1 Blk_Feature1 s1 t1 = Some (True, blk', t2)"
    by (auto simp: VirtmmioNegotiate_def VirtioGetStatus_eq Let_def split: Option.bind_splits if_splits)
  have "blk' = s1"
    using n1 Negotiate_keeps [of E dev 1 Blk_Feature1 s1 t1 True blk' _ "\<lambda>x. x = s1"] by (auto dest: blk_featuresD)
  moreover have "blkSize s1 AND (blkSize s1 - 1) = 0 \<and> 512 \<le> blkSize s1 \<and> blkSize s1 \<le> 65536"
    using Negotiate_True [OF n0] assms(2)
    by (auto simp: Blk_Feature0_def mmc_std_def Let_def split: if_splits)
  ultimately show "blkSize blk' AND (blkSize blk' - 1) = 0" "512 \<le> blkSize blk'" "blkSize blk' \<le> 65536" by simp_all
qed (rule blk_features.negotiated [OF assms(1)])

lemma Virtblk_negotiation_witness:
  "\<exists>blk t. VirtmmioNegotiate blk_env (example_dev\<lparr>base := 0x0A003E00\<rparr>) (Blk_Feature0 example_mmc example_conf) Blk_Feature1
     (zero_Virtblk 0x1000) [] = Some (True, blk, t) \<and> blkSize blk AND (blkSize blk - 1) = 0"
proof -
  obtain blk t where n: "VirtmmioNegotiate blk_env (example_dev\<lparr>base := 0x0A003E00\<rparr>) (Blk_Feature0 example_mmc example_conf)
      Blk_Feature1 (zero_Virtblk 0x1000) [] = Some (True, blk, t)"
    by (simp add: VirtmmioNegotiate_def Negotiate_def negotiate_loop.simps io_defs Let_def example_preset_def
        Blk_Feature0_def Blk_Feature1_def example_conf_def example_mmc_def)
  show ?thesis using Virtblk_negotiation [OF n example_mmc_std] n by blast
qed

lemma HdfVirtblkBind_releases_on_failure_witness:
  "\<exists>t. HdfVirtblkBind (blk_env\<lparr>sys_hdf := \<lambda>t f xs. if f = MmcCntlrAdd then HDF_FAILURE else HDF_SUCCESS\<rparr>)
      example_abi example_mmc example_conf 64 (\<lambda>t. None) False [] = Some (HDF_FAILURE, None, t) \<and>
     calls_of LOS_DmaMemFree t = [[0x1000]]"
proof -
  let ?E = "blk_env\<lparr>sys_hdf := \<lambda>t f xs. if f = MmcCntlrAdd then HDF_FAILURE else HDF_SUCCESS\<rparr>"
  obtain t where b: "HdfVirtblkBind ?E example_abi example_mmc example_conf 64 (\<lambda>t. None) False [] =
      Some (HDF_FAILURE, None, t)"
    by (simp add: HdfVirtblkBind_def HdfVirtblkRelease_def VirtblkDeInit_def example_run slot_matches_def VirtmmioDiscover_def
        discover_loop.simps(2) [of _ _ "pred_numeral n" for n, folded numeral_eq_Suc])
  show ?thesis
    using HdfVirtblkBind_releases_on_failure [OF b refl refl refl] b by simp
qed



lemma VirtMmcFillRespCsd_tiny_card_witness:
  "\<exists>rs. VirtMmcFillRespCsd example_mmc (replicate 4 0) (zero_Virtblk 0x1000\<lparr>capacity := 64\<rparr>) = Some rs \<and>
     csd_card_bytes rs = 0x1000000000"
  using VirtMmcFillRespCsd_tiny_card [of example_mmc "zero_Virtblk 0x1000\<lparr>capacity := 64\<rparr>"]
  by (simp add: example_mmc_std)

lemma VirtMmcFillRespCsd_large_card_witness:
  "\<exists>rs. VirtMmcFillRespCsd example_mmc (replicate 4 0) (zero_Virtblk 0x1000\<lparr>capacity := 0x1000000, blkSize := 65536\<rparr>) = Some rs \<and>
     reg_field rs 80 4 = 0"
  using VirtMmcFillRespCsd_large_card [of example_mmc "zero_Virtblk 0x1000\<lparr>capacity := 0x1000000, blkSize := 65536\<rparr>" 16]
  by (auto simp: example_mmc_std)

end
