(* ===== verification/Virtnet.thy ===== *)
theory Virtnet
  imports Virtq "HOL-Library.Multiset"
begin

text \<open>
  The network device, \<open>drivers/virtio/virtnet.c\<close>: a virtio-net driver behind the HDF WIFI framework.
  \<open>VirtNetif\<close> is the C struct with the memory of its two queues (\<open>rx\<close> and \<open>tx\<close>, queues 0 and 1) and
  its receive buffers; \<open>NetDevice\<close> is the part of the framework's device the driver reads and writes,
  with the driver's struct behind its private pointer. NetBufs are handles; the payload copied into one
  is the argument of a \<open>memcpy_s\<close> event. Spin locks have no effect on a sequential run and are left
  out. What other tasks and the interrupt do while \<open>GetTxFreeEntry\<close> yields is a parameter, and so is
  what the device wrote to the used ring before the second look of the receive loop. The theory ends
  with the transmit path as a transition system of driver, device and interrupt.
\<close>

subsection \<open>Data\<close>

record VirtnetConfig =
  cf_mac :: "u8 list"
  cf_mtu :: u16

record VirtNetif =
  nic_addr :: u32
  nic_dev :: VirtmmioDev
  rx :: vring
  tx :: vring
  tFreeHdr :: u16
  tFreeNum :: u16
  tbufRec :: "u32 list"
  rbuf :: "u8 list list"

record NetDevice =
  nd_addr :: u32
  nd_mtu :: u32
  macAddr :: "u8 list"
  addrLen :: nat
  nd_priv :: "VirtNetif option"
  nd_running :: bool   \<comment> \<open>the flags, head and tail room, type and interface set by \<open>VirtNetDeviceInit\<close>\<close>

record net_abi =
  sizeof_VirtNetif :: u32
  offsetof_rbuf :: u32
  offsetof_vnHdr :: u32
  ETH_FRAME_LEN :: nat
  WLAN_MAX_MTU :: u16
  WLAN_MIN_MTU :: u16
  DEFAULT_MTU :: u32
  MAC_ADDR_SIZE :: nat

abbreviation (input) VIRTIO_NET_F_MTU :: u32 where "VIRTIO_NET_F_MTU \<equiv> 8"
abbreviation (input) VIRTIO_NET_F_MAC :: u32 where "VIRTIO_NET_F_MAC \<equiv> 0x20"
abbreviation (input) VIRTQ_RX_QSZ :: u16 where "VIRTQ_RX_QSZ \<equiv> 16"
abbreviation (input) VIRTQ_TX_QSZ :: u16 where "VIRTQ_TX_QSZ \<equiv> 32"
abbreviation (input) PER_TX_ENTRIES :: u16 where "PER_TX_ENTRIES \<equiv> 2"
abbreviation (input) SIZEOF_VirtnetHdr :: nat where "SIZEOF_VirtnetHdr \<equiv> 12"

definition PER_RXBUF_SIZE :: "net_abi \<Rightarrow> nat" where
  "PER_RXBUF_SIZE A = SIZEOF_VirtnetHdr + ETH_FRAME_LEN A"

subsection \<open>Feature callbacks\<close>

fun copy_bytes :: "u8 list \<Rightarrow> u8 list \<Rightarrow> nat \<Rightarrow> u8 list option" where
  "copy_bytes dst src 0 = Some dst"
| "copy_bytes dst src (Suc n) = do {
     dst \<leftarrow> copy_bytes dst src n;
     b \<leftarrow> aget src n;
     aset dst n b
   }"

text \<open>The arrays have \<open>MAC_ADDR_SIZE\<close> bytes, so the copy cannot run out of bounds; where it would,
  the address stays.\<close>

definition Net_Feature0 ::
  "net_abi \<Rightarrow> (trace \<Rightarrow> u32 \<Rightarrow> VirtnetConfig) \<Rightarrow> u32 \<Rightarrow> u32 \<Rightarrow> NetDevice \<Rightarrow> trace \<Rightarrow> bool \<times> u32 \<times> NetDevice" where
  "Net_Feature0 A config features supported netDev t =
     (let conf = config t (case nd_priv netDev of Some nic \<Rightarrow> base (nic_dev nic) + VIRTMMIO_REG_CONFIG | None \<Rightarrow> 0) in
      if features AND VIRTIO_NET_F_MTU \<noteq> 0 \<and> (cf_mtu conf > WLAN_MAX_MTU A \<or> cf_mtu conf < WLAN_MIN_MTU A)
      then (False, supported, netDev) else
      let (netDev, supported) =
            (if features AND VIRTIO_NET_F_MTU \<noteq> 0
             then (netDev\<lparr>nd_mtu := ucast (cf_mtu conf)\<rparr>, supported OR VIRTIO_NET_F_MTU)
             else (netDev\<lparr>nd_mtu := DEFAULT_MTU A\<rparr>, supported)) in
      if features AND VIRTIO_NET_F_MAC = 0 then (False, supported, netDev) else
      let mac = (case copy_bytes (macAddr netDev) (cf_mac conf) (MAC_ADDR_SIZE A) of
                   Some m \<Rightarrow> m | None \<Rightarrow> macAddr netDev)
      in (True, supported OR VIRTIO_NET_F_MAC, netDev\<lparr>macAddr := mac, addrLen := MAC_ADDR_SIZE A\<rparr>))"

definition Net_Feature1 :: "u32 \<Rightarrow> u32 \<Rightarrow> 's \<Rightarrow> trace \<Rightarrow> bool \<times> u32 \<times> 's" where
  "Net_Feature1 features supported dev t =
     (if features AND VIRTIO_F_VERSION_1 \<noteq> 0 then (True, supported OR VIRTIO_F_VERSION_1, dev)
      else (False, supported, dev))"

subsection \<open>The transmit descriptors\<close>

text \<open>The queue structs \<open>nic->dev.vq[0]\<close> and \<open>[1]\<close>.\<close>

definition rxq :: "VirtNetif \<Rightarrow> Virtq" where "rxq nic = vq (nic_dev nic) ! 0"
definition txq :: "VirtNetif \<Rightarrow> Virtq" where "txq nic = vq (nic_dev nic) ! 1"

definition set_last :: "nat \<Rightarrow> u16 \<Rightarrow> VirtNetif \<Rightarrow> VirtNetif" where
  "set_last k l nic = nic\<lparr>nic_dev := (nic_dev nic)\<lparr>vq := (vq (nic_dev nic))[k := (vq (nic_dev nic) ! k)\<lparr>q_last := l\<rparr>]\<rparr>\<rparr>"

fun init_free_loop :: "nat \<Rightarrow> nat \<Rightarrow> vring \<Rightarrow> vring option" where
  "init_free_loop i 0 r = Some r"
| "init_free_loop i (Suc n) r = do {
     r \<leftarrow> desc_upd i (\<lambda>d. d\<lparr>d_flag := VIRTQ_DESC_F_NEXT, d_next := of_nat (i + 1)\<rparr>) r;
     init_free_loop (i + 1) n r
   }"

definition InitTxFreelist :: "env \<Rightarrow> VirtNetif \<Rightarrow> trace \<Rightarrow> (HDF_STATUS \<times> VirtNetif \<times> trace) option" where
  "InitTxFreelist E nic t = do {
     let qs = qsz (txq nic);
     r \<leftarrow> init_free_loop 0 (unat qs - 1) (tx nic);
     let nic = nic\<lparr>tx := r, tFreeHdr := 0, tFreeNum := qs\<rparr>;
     let (ret, t) = kstatus E OsalSpinInit [nic_addr nic] t;
     Some (ret, nic, t)
   }"

definition FreeTxEntry :: "VirtNetif \<Rightarrow> u16 \<Rightarrow> trace \<Rightarrow> (VirtNetif \<times> trace) option" where
  "FreeTxEntry nic head t = do {
     d \<leftarrow> aget (descs (tx nic)) (unat head);
     let idx = d_next d;
     r \<leftarrow> (if tFreeNum nic > 0
          then desc_upd (unat idx) (\<lambda>d. d\<lparr>d_next := tFreeHdr nic, d_flag := VIRTQ_DESC_F_NEXT\<rparr>) (tx nic)
          else Some (tx nic));
     let nic = nic\<lparr>tx := r, tFreeNum := tFreeNum nic + PER_TX_ENTRIES, tFreeHdr := head\<rparr>;
     nb \<leftarrow> aget (tbufRec nic) (unat idx);
     Some (nic, kproc NetBufFree [nb] t)
   }"

text \<open>\<open>others\<close> is what happens to the driver while the caller yields.\<close>

partial_function (option) GetTxFreeEntry ::
  "(VirtNetif \<Rightarrow> trace \<Rightarrow> VirtNetif \<times> trace) \<Rightarrow> VirtNetif \<Rightarrow> trace \<Rightarrow> (u16 \<times> VirtNetif \<times> trace) option" where
  "GetTxFreeEntry others nic t =
     (if PER_TX_ENTRIES > tFreeNum nic then
        (let (nic, t) = others nic (kproc LOS_TaskYield [] t) in GetTxFreeEntry others nic t)
      else do {
        let head = tFreeHdr nic;
        d \<leftarrow> aget (descs (tx nic)) (unat head);
        let idx = d_next d;
        d \<leftarrow> aget (descs (tx nic)) (unat idx);
        let nic = nic\<lparr>tFreeNum := tFreeNum nic - PER_TX_ENTRIES, tFreeHdr := d_next d\<rparr>;
        r \<leftarrow> desc_upd (unat idx) (\<lambda>d. d\<lparr>d_flag := d_flag d AND NOT VIRTQ_DESC_F_NEXT\<rparr>) (tx nic);
        Some (head, nic\<lparr>tx := r\<rparr>, t)
      })"

definition LowLevelOutput ::
  "env \<Rightarrow> net_abi \<Rightarrow> (VirtNetif \<Rightarrow> trace \<Rightarrow> VirtNetif \<times> trace) \<Rightarrow> VirtNetif \<Rightarrow> u32 \<Rightarrow> trace
     \<Rightarrow> (VirtNetif \<times> trace) option" where
  "LowLevelOutput E A others nic p t = do {
     (head, nic, t) \<leftarrow> GetTxFreeEntry others nic t;
     r \<leftarrow> desc_upd (unat head) (\<lambda>d. d\<lparr>pAddr := VMM_TO_DMA_ADDR E (ucast (nic_addr nic + offsetof_vnHdr A)),
            d_len := of_nat SIZEOF_VirtnetHdr\<rparr>) (tx nic);
     d \<leftarrow> aget (descs r) (unat head);
     let idx = d_next d;
     let (va, t) = kcall E NetBufGetAddress [p] t;
     let (pa, t) = kcall E LOS_PaddrQuery [va] t;
     let (len, t) = kcall E NetBufGetDataLen [p] t;
     r \<leftarrow> desc_upd (unat idx) (\<lambda>d. d\<lparr>pAddr := ucast pa, d_len := len\<rparr>) r;
     tb \<leftarrow> aset (tbufRec nic) (unat idx) p;
     r \<leftarrow> avail_put (qsz (txq nic)) (unat (avail_index r)) head r;
     let r = avail_add 1 r;
     let nic = nic\<lparr>tx := r, tbufRec := tb\<rparr>;
     let t = (if used_flag r \<noteq> VIRTQ_USED_F_NO_NOTIFY
              then WRITE_UINT32 1 (base (nic_dev nic) + VIRTMMIO_REG_QUEUENOTIFY) t else t);
     Some (nic, t)
   }"

text \<open>The loop of \<open>VirtnetTxHandle\<close> and the handler.\<close>

partial_function (option) tx_loop :: "VirtNetif \<Rightarrow> trace \<Rightarrow> (VirtNetif \<times> trace) option" where
  "tx_loop nic t =
     (if q_last (txq nic) = used_index (tx nic) then Some (nic, t)
      else do {
        e \<leftarrow> used_get (qsz (txq nic)) (q_last (txq nic)) (tx nic);
        (nic, t) \<leftarrow> FreeTxEntry nic (ucast (ue_id e)) t;
        tx_loop (set_last 1 (q_last (txq nic) + 1) nic) t
      })"

definition VirtnetTxHandle :: "VirtNetif \<Rightarrow> trace \<Rightarrow> (VirtNetif \<times> trace) option" where
  "VirtnetTxHandle nic t = do {
     let nic = nic\<lparr>tx := (tx nic)\<lparr>avail_flag := VIRTQ_AVAIL_F_NO_INTERRUPT\<rparr>\<rparr>;
     (nic, t) \<leftarrow> tx_loop nic t;
     Some (nic\<lparr>tx := (tx nic)\<lparr>avail_flag := 0\<rparr>\<rparr>, t)
   }"

subsection \<open>The receive path\<close>

fun populate_rx_loop :: "env \<Rightarrow> net_abi \<Rightarrow> u32 \<Rightarrow> nat \<Rightarrow> nat \<Rightarrow> vring \<Rightarrow> vring option" where
  "populate_rx_loop E A a i 0 r = Some r"
| "populate_rx_loop E A a i (Suc n) r = do {
     r \<leftarrow> desc_upd i (\<lambda>d. d\<lparr>
            pAddr := VMM_TO_DMA_ADDR E (ucast (a + offsetof_rbuf A + of_nat (i * PER_RXBUF_SIZE A))),
            d_len := of_nat (PER_RXBUF_SIZE A), d_flag := VIRTQ_DESC_F_WRITE\<rparr>) r;
     ring \<leftarrow> aset (avail_ring r) i (of_nat i);
     populate_rx_loop E A a (i + 1) n (r\<lparr>avail_ring := ring\<rparr>)
   }"

definition PopulateRxBuffer :: "env \<Rightarrow> net_abi \<Rightarrow> VirtNetif \<Rightarrow> VirtNetif option" where
  "PopulateRxBuffer E A nic = do {
     r \<leftarrow> populate_rx_loop E A (nic_addr nic) 0 (unat (qsz (rxq nic))) (rx nic);
     Some (nic\<lparr>rx := r\<rparr>)
   }"

definition Net_ConfigQueue ::
  "env \<Rightarrow> net_abi \<Rightarrow> VirtNetif \<Rightarrow> trace \<Rightarrow> (HDF_STATUS \<times> VirtNetif \<times> trace) option" where
  "Net_ConfigQueue E A nic t = do {
     let base = ALIGN E (nic_addr nic + sizeof_VirtNetif A) VIRTQ_ALIGN_DESC;
     (va, dev, t) \<leftarrow> VirtmmioConfigQueue E (nic_dev nic) base [VIRTQ_RX_QSZ, VIRTQ_TX_QSZ] VIRTQ_NUM t;
     let nic = nic\<lparr>nic_dev := dev\<rparr>;
     if va = 0 then Some (HDF_DEV_ERR_DEV_INIT_FAIL, nic, t) else do {
       nic \<leftarrow> PopulateRxBuffer E A nic;
       InitTxFreelist E nic t
     }
   }"

text \<open>\<open>LowLevelInput\<close>: \<open>None\<close> where it would read outside the receive buffer, \<open>0\<close> for a null NetBuf.\<close>

definition LowLevelInput :: "env \<Rightarrow> VirtNetif \<Rightarrow> u32 \<Rightarrow> VirtqUsedElem \<Rightarrow> trace \<Rightarrow> (u32 \<times> trace) option" where
  "LowLevelInput E nic nd e t = do {
     let len = (ucast (ue_len e - of_nat SIZEOF_VirtnetHdr) :: u16);
     let (nb, t) = kcall E NetBufDevAlloc [nd, ucast len] t;
     if nb = 0 then Some (0, t) else do {
       let (payload, t) = kcall E NetBufPush [nb, ucast len] t;
       row \<leftarrow> aget (rbuf nic) (unat (ue_id e));
       if SIZEOF_VirtnetHdr + unat len > length row then None
       else Some (nb, kproc memcpy_s (payload # map ucast (take (unat len) (drop SIZEOF_VirtnetHdr row))) t)
     }
   }"

text \<open>What the device wrote to the used ring, and the part of the loop body after the checks.\<close>

type_synonym used_update = "trace \<Rightarrow> vring \<Rightarrow> u16 \<times> u16 \<times> VirtqUsedElem list"

definition device_wrote :: "used_update \<Rightarrow> trace \<Rightarrow> vring \<Rightarrow> vring" where
  "device_wrote dma t r = (let (f, i, ring) = dma t r in r\<lparr>used_flag := f, used_index := i, used_ring := ring\<rparr>)"

definition rx_one :: "env \<Rightarrow> u32 \<Rightarrow> VirtNetif \<Rightarrow> u16 \<Rightarrow> trace \<Rightarrow> (VirtNetif \<times> u16 \<times> trace) option" where
  "rx_one E nd nic add t = do {
     let qs = qsz (rxq nic);
     e \<leftarrow> used_get qs (q_last (rxq nic)) (rx nic);
     (nb, t) \<leftarrow> LowLevelInput E nic nd e t;
     let t = (if nb \<noteq> 0 then
                (let (ret, t) = kcall E NetIfRx [nd, nb] t
                 in if ret \<noteq> 0 then kproc NetBufFree [nb] t else t)
              else t);
     r \<leftarrow> avail_put qs (unat (avail_index (rx nic)) + unat add) (ucast (ue_id e)) (rx nic);
     Some (set_last 0 (q_last (rxq nic) + 1) (nic\<lparr>rx := r\<rparr>), add + 1, t)
   }"

partial_function (option) rx_loop ::
  "env \<Rightarrow> used_update \<Rightarrow> u32 \<Rightarrow> VirtNetif \<Rightarrow> u16 \<Rightarrow> trace \<Rightarrow> (VirtNetif \<times> u16 \<times> trace) option" where
  "rx_loop E dma nd nic add t =
     (if q_last (rxq nic) = used_index (rx nic) then
        (let r = device_wrote dma t ((rx nic)\<lparr>avail_flag := 0\<rparr>); nic = nic\<lparr>rx := r\<rparr> in
         if q_last (rxq nic) = used_index r then Some (nic, add, t)
         else do {
           let nic = nic\<lparr>rx := r\<lparr>avail_flag := VIRTQ_AVAIL_F_NO_INTERRUPT\<rparr>\<rparr>;
           (nic, add, t) \<leftarrow> rx_one E nd nic add t;
           rx_loop E dma nd nic add t
         })
      else do {
        (nic, add, t) \<leftarrow> rx_one E nd nic add t;
        rx_loop E dma nd nic add t
      })"

definition VirtnetRxHandle ::
  "env \<Rightarrow> used_update \<Rightarrow> u32 \<Rightarrow> VirtNetif \<Rightarrow> trace \<Rightarrow> (VirtNetif \<times> trace) option" where
  "VirtnetRxHandle E dma nd nic t = do {
     let nic = nic\<lparr>rx := (rx nic)\<lparr>avail_flag := VIRTQ_AVAIL_F_NO_INTERRUPT\<rparr>\<rparr>;
     (nic, add, t) \<leftarrow> rx_loop E dma nd nic 0 t;
     let nic = nic\<lparr>rx := avail_add add (rx nic)\<rparr>;
     Some (nic, if used_flag (rx nic) \<noteq> VIRTQ_USED_F_NO_NOTIFY
                then WRITE_UINT32 0 (base (nic_dev nic) + VIRTMMIO_REG_QUEUENOTIFY) t else t)
   }"

definition VirtnetIRQhandle ::
  "env \<Rightarrow> used_update \<Rightarrow> u32 \<Rightarrow> VirtNetif \<Rightarrow> trace \<Rightarrow> (VirtNetif \<times> trace) option" where
  "VirtnetIRQhandle E dma nd nic t = do {
     let (s, t) = GET_UINT32 E (base (nic_dev nic) + VIRTMMIO_REG_INTERRUPTSTATUS) t;
     if s AND VIRTMMIO_IRQ_NOTIFY_USED = 0 then Some (nic, t) else do {
       (nic, t) \<leftarrow> VirtnetRxHandle E dma nd nic t;
       (nic, t) \<leftarrow> VirtnetTxHandle nic t;
       Some (nic, WRITE_UINT32 VIRTMMIO_IRQ_NOTIFY_USED (base (nic_dev nic) + VIRTMMIO_REG_INTERRUPTACK) t)
     }
   }"

subsection \<open>The free list of the transmit queue\<close>

text \<open>A packet takes a pair of descriptors: an even one for the header and the odd one after it.\<close>

definition tx_heads :: "u16 list" where
  "tx_heads = map (\<lambda>k. 2 * of_nat k) [0..<16]"

lemma tx_heads_eq: "tx_heads = [0, 2, 4, 6, 8, 10, 12, 14, 16, 18, 20, 22, 24, 26, 28, 30]"
  by (simp add: tx_heads_def upt_rec)

lemma tx_headsD:
  assumes "h \<in> set tx_heads"
  shows "unat h < 31" and "even (unat h)" and "unat (h + 1) = Suc (unat h)"
  using assms by (auto simp: tx_heads_eq)

lemma tx_heads_distinct: "distinct tx_heads"
  by (simp add: tx_heads_eq)

lemma tx_heads_neq:
  assumes "h \<in> set tx_heads" and "h' \<in> set tx_heads"
  shows "unat (h + 1) \<noteq> unat h'" and "h \<noteq> h' \<Longrightarrow> unat (h + 1) \<noteq> unat (h' + 1)"
  using tx_headsD [OF assms(1)] tx_headsD [OF assms(2)] by (metis even_Suc, metis nat.inject word_unat_eq_iff)

primrec free_heads :: "VirtqDesc list \<Rightarrow> nat \<Rightarrow> u16 \<Rightarrow> u16 list" where
  "free_heads ds 0 h = []"
| "free_heads ds (Suc n) h = h # free_heads ds n (d_next (ds ! unat (h + 1)))"

lemma free_heads_cong:
  "(\<And>h. h \<in> set (free_heads ds n f) \<Longrightarrow> d_next (ds' ! unat (h + 1)) = d_next (ds ! unat (h + 1))) \<Longrightarrow>
   free_heads ds' n f = free_heads ds n f"
  by (induction n arbitrary: f) auto

text \<open>The descriptor table between operations, \<open>B\<close> being the heads that are not free.\<close>

definition tx_table :: "VirtqDesc list \<Rightarrow> bool" where
  "tx_table ds \<longleftrightarrow> length ds = 32 \<and> (\<forall>i < 32. d_flag (ds ! i) \<in> {0, VIRTQ_DESC_F_NEXT}) \<and>
     (\<forall>h \<in> set tx_heads. d_next (ds ! unat h) = h + 1 \<and> d_flag (ds ! unat h) = VIRTQ_DESC_F_NEXT)"

definition tx_inv :: "VirtNetif \<Rightarrow> u16 multiset \<Rightarrow> bool" where
  "tx_inv nic B \<longleftrightarrow>
     length (vq (nic_dev nic)) = 2 \<and> qsz (txq nic) = VIRTQ_TX_QSZ \<and> vring_ok 32 (tx nic) \<and>
     length (tbufRec nic) = 32 \<and> tx_table (descs (tx nic)) \<and>
     (\<exists>m. unat (tFreeNum nic) = 2 * m \<and>
        mset (free_heads (descs (tx nic)) m (tFreeHdr nic)) + B = mset tx_heads) \<and>
     (\<forall>h \<in># B. d_flag (descs (tx nic) ! unat (h + 1)) = 0)"

lemma tx_inv_busy:
  assumes "tx_inv nic B"
  shows "set_mset B \<subseteq> set tx_heads" and "size B \<le> 16"
proof -
  obtain F where F: "mset F + B = mset tx_heads"
    using assms by (auto simp: tx_inv_def)
  from arg_cong [OF F, of set_mset] show "set_mset B \<subseteq> set tx_heads" by auto
  from arg_cong [OF F, of size] show "size B \<le> 16" by (simp add: tx_heads_eq)
qed

text \<open>What an operation leaves alone: everything but the free list, and the descriptors of the other
  busy heads.\<close>

definition tx_frame :: "VirtNetif \<Rightarrow> VirtNetif \<Rightarrow> u16 multiset \<Rightarrow> bool" where
  "tx_frame nic nic' B \<longleftrightarrow> nic_addr nic' = nic_addr nic \<and> rx nic' = rx nic \<and> rbuf nic' = rbuf nic \<and>
     base (nic_dev nic') = base (nic_dev nic) \<and> irq (nic_dev nic') = irq (nic_dev nic) \<and>
     used_flag (tx nic') = used_flag (tx nic) \<and> used_index (tx nic') = used_index (tx nic) \<and>
     used_ring (tx nic') = used_ring (tx nic) \<and>
     (\<forall>h \<in># B. descs (tx nic') ! unat h = descs (tx nic) ! unat h \<and>
        descs (tx nic') ! unat (h + 1) = descs (tx nic) ! unat (h + 1) \<and>
        tbufRec nic' ! unat (h + 1) = tbufRec nic ! unat (h + 1))"

lemma tx_frame_refl [simp]: "tx_frame nic nic B"
  by (simp add: tx_frame_def)

lemma tx_frame_trans: "tx_frame a b B \<Longrightarrow> tx_frame b c B \<Longrightarrow> tx_frame a c B"
  by (auto simp: tx_frame_def)

lemma tx_frame_mono: "tx_frame a b B \<Longrightarrow> B' \<subseteq># B \<Longrightarrow> tx_frame a b B'"
  by (auto simp: tx_frame_def dest: mset_subset_eqD)

lemma tx_partition:
  assumes "mset F + add_mset h B = mset tx_heads"
  shows "h \<notin> set F" and "h \<notin># B" and "set F \<subseteq> set tx_heads" and "h \<in> set tx_heads" and "length F < 16"
proof -
  obtain bs where bs: "B = mset bs" by (metis ex_mset)
  with assms have e: "mset (F @ h # bs) = mset tx_heads" by simp
  then have "distinct (F @ h # bs)" using tx_heads_distinct by (metis mset_eq_imp_distinct_iff)
  then show "h \<notin> set F" "h \<notin># B" by (auto simp: bs)
  show "set F \<subseteq> set tx_heads" "h \<in> set tx_heads" using mset_eq_setD [OF e] by auto
  show "length F < 16" using mset_eq_length [OF e] by (simp add: tx_heads_eq)
qed

lemma length_free_heads [simp]: "length (free_heads ds n f) = n"
  by (induction n arbitrary: f) auto

lemma free_heads_push:
  assumes tab: "tx_table ds" and F: "set (free_heads ds m f) \<subseteq> set tx_heads" and h: "h \<in> set tx_heads"
    and fresh: "h \<notin> set (free_heads ds m f)"
    and ds': "ds' = (if 0 < m then ds[unat (h + 1) := (ds ! unat (h + 1))\<lparr>d_next := f, d_flag := VIRTQ_DESC_F_NEXT\<rparr>] else ds)"
  shows "tx_table ds' \<and> free_heads ds' (Suc m) h = h # free_heads ds m f"
proof
  note hD = tx_headsD [OF h]
  show "tx_table ds'"
    using tab tx_heads_neq(1) [OF h] hD by (auto simp: tx_table_def ds' nth_list_update)
  have "free_heads ds' m f = free_heads ds m f"
  proof (rule free_heads_cong)
    fix g assume "g \<in> set (free_heads ds m f)"
    then have "unat (h + 1) \<noteq> unat (g + 1)" using F fresh tx_heads_neq(2) [OF h, of g] by auto
    then show "d_next (ds' ! unat (g + 1)) = d_next (ds ! unat (g + 1))" by (simp add: ds')
  qed
  moreover have "length ds = 32" using tab by (simp add: tx_table_def)
  ultimately show "free_heads ds' (Suc m) h = h # free_heads ds m f"
    using hD by (cases m) (simp_all add: ds')
qed

lemma FreeTxEntry_inv:
  assumes inv: "tx_inv nic (add_mset h B)"
  shows "\<exists>nic'. FreeTxEntry nic h t = Some (nic', Call NetBufFree [tbufRec nic ! unat (h + 1)] # t) \<and>
    tx_inv nic' B \<and> tx_frame nic nic' B \<and> nic_dev nic' = nic_dev nic \<and> tbufRec nic' = tbufRec nic \<and>
    avail_ring (tx nic') = avail_ring (tx nic) \<and> avail_index (tx nic') = avail_index (tx nic)"
proof -
  obtain m where m: "unat (tFreeNum nic) = 2 * m"
    and part: "mset (free_heads (descs (tx nic)) m (tFreeHdr nic)) + add_mset h B = mset tx_heads"
    using inv by (auto simp: tx_inv_def)
  let ?ds = "descs (tx nic)" and ?f = "tFreeHdr nic"
  have tab: "tx_table ?ds" and len: "length ?ds = 32" and tb: "length (tbufRec nic) = 32"
    using inv by (simp_all add: tx_inv_def tx_table_def)
  note p = tx_partition [OF part]
  note hD = tx_headsD [OF p(4)]
  define ds' where "ds' = (if 0 < m then ?ds[unat (h + 1) := (?ds ! unat (h + 1))\<lparr>d_next := ?f, d_flag := VIRTQ_DESC_F_NEXT\<rparr>] else ?ds)"
  note push = free_heads_push [OF tab p(3,4,1) ds'_def]
  have pos: "tFreeNum nic > 0 \<longleftrightarrow> 0 < m" using m by (simp add: word_less_nat_alt)
  let ?nic = "nic\<lparr>tx := (tx nic)\<lparr>descs := ds'\<rparr>, tFreeNum := tFreeNum nic + 2, tFreeHdr := h\<rparr>"
  have nx: "d_next (?ds ! unat h) = h + 1" using tab p(4) by (simp add: tx_table_def)
  have r: "FreeTxEntry nic h t = Some (?nic, Call NetBufFree [tbufRec nic ! unat (h + 1)] # t)"
    using hD len tb by (simp add: FreeTxEntry_def nx pos ds'_def ring_defs kproc_def)
  have B: "g \<in> set tx_heads" "unat (h + 1) \<noteq> unat (g + 1)" "unat (h + 1) \<noteq> unat g" if "g \<in># B" for g
    using that p(2) tx_inv_busy(1) [OF inv] tx_heads_neq [OF p(4), of g] by auto
  have num: "unat (tFreeNum nic + 2) = 2 * Suc m"
    using m p(5) by (simp add: unat_word_ariths)
  have "tx_inv ?nic B"
    unfolding tx_inv_def
  proof (intro conjI)
    show "\<exists>k. unat (tFreeNum ?nic) = 2 * k \<and> mset (free_heads (descs (tx ?nic)) k (tFreeHdr ?nic)) + B = mset tx_heads"
      using num push part by (intro exI [of _ "Suc m"]) simp
    show "\<forall>g \<in># B. d_flag (descs (tx ?nic) ! unat (g + 1)) = 0"
      using inv B(2) by (auto simp: tx_inv_def ds'_def)
  qed (use inv push in \<open>simp_all add: tx_inv_def txq_def vring_ok_def ds'_def\<close>)
  moreover have "tx_frame nic ?nic B"
    using B(2,3) by (auto simp: tx_frame_def ds'_def)
  ultimately show ?thesis using r by (intro exI [of _ ?nic]) simp
qed

text \<open>Taking a pair off the free list.\<close>

lemma GetTxFreeEntry_inv:
  assumes inv: "tx_inv nic B" and room: "PER_TX_ENTRIES \<le> tFreeNum nic"
  shows "\<exists>nic'. GetTxFreeEntry others nic t = Some (tFreeHdr nic, nic', t) \<and>
    tx_inv nic' (add_mset (tFreeHdr nic) B) \<and> tx_frame nic nic' B \<and> nic_dev nic' = nic_dev nic \<and>
    tbufRec nic' = tbufRec nic \<and> avail_ring (tx nic') = avail_ring (tx nic) \<and>
    avail_index (tx nic') = avail_index (tx nic) \<and> tFreeHdr nic \<notin># B"
proof -
  obtain k where k: "unat (tFreeNum nic) = 2 * k"
    and part0: "mset (free_heads (descs (tx nic)) k (tFreeHdr nic)) + B = mset tx_heads"
    using inv by (auto simp: tx_inv_def)
  obtain m where m: "k = Suc m" using k room by (cases k) (simp_all add: word_le_nat_alt)
  let ?ds = "descs (tx nic)" and ?h = "tFreeHdr nic"
  let ?F = "free_heads ?ds m (d_next (?ds ! unat (?h + 1)))"
  have part: "mset ?F + add_mset ?h B = mset tx_heads" using part0 m by simp
  have tab: "tx_table ?ds" and len: "length ?ds = 32"
    using inv by (simp_all add: tx_inv_def tx_table_def)
  note p = tx_partition [OF part]
  note hD = tx_headsD [OF p(4)]
  have nx: "d_next (?ds ! unat ?h) = ?h + 1" using tab p(4) by (simp add: tx_table_def)
  have fl: "d_flag (?ds ! unat (?h + 1)) AND NOT VIRTQ_DESC_F_NEXT = 0"
  proof -
    have "d_flag (?ds ! unat (?h + 1)) \<in> {0, 1}" using tab hD by (simp add: tx_table_def)
    then show ?thesis by auto
  qed
  define ds' where "ds' = ?ds[unat (?h + 1) := (?ds ! unat (?h + 1))\<lparr>d_flag := 0\<rparr>]"
  let ?nic = "nic\<lparr>tFreeNum := tFreeNum nic - 2, tFreeHdr := d_next (?ds ! unat (?h + 1)), tx := (tx nic)\<lparr>descs := ds'\<rparr>\<rparr>"
  have r: "GetTxFreeEntry others nic t = Some (?h, ?nic, t)"
    using hD len room fl by (subst GetTxFreeEntry.simps) (simp add: nx ring_defs ds'_def Let_def not_less [symmetric])
  have num: "unat (tFreeNum nic - 2) = 2 * m"
    using k m room by (simp add: unat_sub)
  have B: "g \<in> set tx_heads" "unat (?h + 1) \<noteq> unat (g + 1)" "unat (?h + 1) \<noteq> unat g" if "g \<in># B" for g
    using that p(2) tx_inv_busy(1) [OF inv] tx_heads_neq [OF p(4), of g] by auto
  have F: "free_heads ds' m (d_next (?ds ! unat (?h + 1))) = ?F"
    using len hD by (intro free_heads_cong) (auto simp: ds'_def nth_list_update)
  have tab': "tx_table ds'"
    using tab tx_heads_neq(1) [OF p(4)] hD by (auto simp: tx_table_def ds'_def nth_list_update)
  have "tx_inv ?nic (add_mset ?h B)"
    unfolding tx_inv_def
  proof (intro conjI)
    show "\<exists>k. unat (tFreeNum ?nic) = 2 * k \<and>
        mset (free_heads (descs (tx ?nic)) k (tFreeHdr ?nic)) + add_mset ?h B = mset tx_heads"
      using num F part by (intro exI [of _ m]) simp
    show "\<forall>g \<in># add_mset ?h B. d_flag (descs (tx ?nic) ! unat (g + 1)) = 0"
      using inv B(2) len hD by (auto simp: tx_inv_def ds'_def)
  qed (use inv tab' in \<open>simp_all add: tx_inv_def txq_def vring_ok_def ds'_def\<close>)
  moreover have "tx_frame nic ?nic B"
    using B(2,3) by (auto simp: tx_frame_def ds'_def)
  ultimately show ?thesis using r p(2) by (intro exI [of _ ?nic]) simp
qed

text \<open>The chain of a packet: the virtio header and the packet's data.\<close>

definition packet_chain :: "env \<Rightarrow> net_abi \<Rightarrow> VirtNetif \<Rightarrow> u32 \<Rightarrow> trace \<Rightarrow> (u64 \<times> u32 \<times> bool) list" where
  "packet_chain E A nic p t =
     (let (va, t) = kcall E NetBufGetAddress [p] t; (pa, t) = kcall E LOS_PaddrQuery [va] t;
          (len, t) = kcall E NetBufGetDataLen [p] t
      in [(VMM_TO_DMA_ADDR E (ucast (nic_addr nic + offsetof_vnHdr A)), 12, False), (ucast pa, len, False)])"

lemma tx_chain:
  assumes "tx_table (descs r)" and "h \<in> set tx_heads" and "d_flag (descs r ! unat (h + 1)) = 0"
  shows "device_chain r h = Some [(pAddr (descs r ! unat h), d_len (descs r ! unat h), False),
    (pAddr (descs r ! unat (h + 1)), d_len (descs r ! unat (h + 1)), False)]"
  using assms tx_headsD [OF assms(2)] by (simp add: device_chain_def tx_table_def)

lemma LowLevelOutput_inv:
  assumes inv: "tx_inv nic B" and room: "PER_TX_ENTRIES \<le> tFreeNum nic"
  shows "\<exists>nic' t'. LowLevelOutput E A others nic p t = Some (nic', t') \<and>
    tx_inv nic' (add_mset (tFreeHdr nic) B) \<and> tx_frame nic nic' B \<and> nic_dev nic' = nic_dev nic \<and>
    tbufRec nic' ! unat (tFreeHdr nic + 1) = p \<and>
    avail_ring (tx nic') = (avail_ring (tx nic))[unat (avail_index (tx nic)) mod 32 := tFreeHdr nic] \<and>
    avail_index (tx nic') = avail_index (tx nic) + 1 \<and>
    device_chain (tx nic') (tFreeHdr nic) = Some (packet_chain E A nic p t) \<and>
    calls_of NetBufFree t' = calls_of NetBufFree t \<and>
    writes_of t' = writes_of t @ (if used_flag (tx nic) \<noteq> VIRTQ_USED_F_NO_NOTIFY
      then [(base (nic_dev nic) + VIRTMMIO_REG_QUEUENOTIFY, 1)] else [])"
proof -
  let ?h = "tFreeHdr nic"
  obtain n1 where g: "GetTxFreeEntry others nic t = Some (?h, n1, t)" and i1: "tx_inv n1 (add_mset ?h B)"
    and f1: "tx_frame nic n1 B" "nic_dev n1 = nic_dev nic" "tbufRec n1 = tbufRec nic"
      "avail_ring (tx n1) = avail_ring (tx nic)" "avail_index (tx n1) = avail_index (tx nic)" and hB: "?h \<notin># B"
    using GetTxFreeEntry_inv [OF inv room] by blast
  let ?ds = "descs (tx n1)"
  have tab: "tx_table ?ds" and len: "length ?ds = 32" "length (tbufRec n1) = 32" "length (avail_ring (tx n1)) = 32"
    and q: "qsz (txq n1) = 32"
    using i1 vring_okD [of 32 "tx n1"] by (simp_all add: tx_inv_def tx_table_def)
  have hh: "?h \<in> set tx_heads" using tx_inv_busy(1) [OF i1] by simp
  note hD = tx_headsD [OF hh]
  have nx: "d_next (?ds ! unat ?h) = ?h + 1" using tab hh by (simp add: tx_table_def)
  define va where "va = sys_ret E t NetBufGetAddress [p]"
  define t1 where "t1 = Call NetBufGetAddress [p] # t"
  define pa where "pa = sys_ret E t1 LOS_PaddrQuery [va]"
  define t2 where "t2 = Call LOS_PaddrQuery [va] # t1"
  define ln where "ln = sys_ret E t2 NetBufGetDataLen [p]"
  define t3 where "t3 = Call NetBufGetDataLen [p] # t2"
  define ds' where "ds' = ?ds[unat ?h := (?ds ! unat ?h)\<lparr>pAddr := VMM_TO_DMA_ADDR E (ucast (nic_addr n1 + offsetof_vnHdr A)),
      d_len := 12\<rparr>, unat (?h + 1) := (?ds ! unat (?h + 1))\<lparr>pAddr := ucast pa, d_len := ln\<rparr>]"
  define r' where "r' = (tx n1)\<lparr>descs := ds', avail_ring := (avail_ring (tx n1))[unat (avail_index (tx n1)) mod 32 := ?h],
      avail_index := avail_index (tx n1) + 1\<rparr>"
  let ?n = "n1\<lparr>tx := r', tbufRec := (tbufRec n1)[unat (?h + 1) := p]\<rparr>"
  let ?t = "if used_flag (tx n1) \<noteq> 1 then Wr (base (nic_dev n1) + VIRTMMIO_REG_QUEUENOTIFY) 1 # t3 else t3"
  have r: "LowLevelOutput E A others nic p t = Some (?n, ?t)"
    using hD len q nx by (simp add: LowLevelOutput_def g kcall_def ring_defs Let_def r'_def ds'_def avail_add_def
        t1_def t2_def t3_def va_def pa_def ln_def WRITE_UINT32_eq txq_def)
  have B: "g \<in> set tx_heads" "unat (?h + 1) \<noteq> unat (g + 1)" "unat (?h + 1) \<noteq> unat g" "unat ?h \<noteq> unat (g + 1)" "unat ?h \<noteq> unat g"
    if "g \<in># B" for g
  proof -
    show g: "g \<in> set tx_heads" using that tx_inv_busy(1) [OF inv] by auto
    have "?h \<noteq> g" using that hB by auto
    then show "unat (?h + 1) \<noteq> unat (g + 1)" "unat ?h \<noteq> unat g"
      using tx_heads_neq(2) [OF hh g] by (simp_all add: word_unat_eq_iff)
    show "unat (?h + 1) \<noteq> unat g" "unat ?h \<noteq> unat (g + 1)"
      using tx_heads_neq(1) [OF hh g] tx_heads_neq(1) [OF g hh] by simp_all
  qed
  have same: "d_next (ds' ! i) = d_next (?ds ! i)" "d_flag (ds' ! i) = d_flag (?ds ! i)" for i
    using len hD by (simp_all add: ds'_def nth_list_update)
  have tab': "tx_table ds'" using tab by (simp add: tx_table_def same) (simp add: ds'_def)
  have fr: "free_heads ds' m f = free_heads ?ds m f" for m f
    by (rule free_heads_cong) (simp add: same)
  have inv': "tx_inv ?n (add_mset ?h B)"
    using i1 tab' by (simp add: tx_inv_def fr same r'_def vring_ok_def txq_def) (simp add: ds'_def)
  moreover have "tx_frame nic ?n B"
    using f1(1,3) B(2-5) by (simp add: tx_frame_def r'_def ds'_def)
  moreover have "device_chain (tx ?n) ?h = Some (packet_chain E A nic p t)"
  proof -
    have "device_chain r' ?h = Some [(pAddr (ds' ! unat ?h), d_len (ds' ! unat ?h), False),
       (pAddr (ds' ! unat (?h + 1)), d_len (ds' ! unat (?h + 1)), False)]"
      using tx_chain [of r' ?h] tab' hh inv' by (simp add: r'_def tx_inv_def)
    moreover have "nic_addr n1 = nic_addr nic" using f1(1) by (simp add: tx_frame_def)
    ultimately show ?thesis
      using len hD by (simp add: packet_chain_def kcall_def ds'_def t1_def t2_def t3_def va_def pa_def ln_def)
  qed
  moreover have "used_flag (tx n1) = used_flag (tx nic)" using f1(1) by (simp add: tx_frame_def)
  ultimately show ?thesis
    using r f1 hD len by (intro exI [of _ ?n] exI [of _ ?t]) (simp add: r'_def t1_def t2_def t3_def)
qed

text \<open>The heads the device has put back and the driver has not yet seen.\<close>

definition done_heads :: "VirtNetif \<Rightarrow> u16 list" where
  "done_heads nic = map (\<lambda>e. ucast (ue_id e)) (ring_view (used_ring (tx nic)) 32 (q_last (txq nic)) (used_index (tx nic)))"

lemma txq_set_last [simp]:
  "length (vq (nic_dev nic)) = 2 \<Longrightarrow> txq (set_last (Suc 0) l nic) = (txq nic)\<lparr>q_last := l\<rparr>"
  "tx (set_last k l nic) = tx nic" "tbufRec (set_last k l nic) = tbufRec nic"
  "tFreeNum (set_last k l nic) = tFreeNum nic" "tFreeHdr (set_last k l nic) = tFreeHdr nic"
  "length (vq (nic_dev (set_last k l nic))) = length (vq (nic_dev nic))"
  "base (nic_dev (set_last k l nic)) = base (nic_dev nic)" "irq (nic_dev (set_last k l nic)) = irq (nic_dev nic)"
  "rx (set_last k l nic) = rx nic" "rbuf (set_last k l nic) = rbuf nic" "nic_addr (set_last k l nic) = nic_addr nic"
  by (simp_all add: set_last_def txq_def)

lemma tx_inv_set_last: "tx_inv nic B \<Longrightarrow> tx_inv (set_last (Suc 0) l nic) B"
  by (simp add: tx_inv_def)

lemma tx_loop_inv:
  "done_heads nic = dn \<Longrightarrow> tx_inv nic (mset dn + B) \<Longrightarrow>
   \<exists>nic'. tx_loop nic t = Some (nic', rev (map (\<lambda>h. Call NetBufFree [tbufRec nic ! unat (h + 1)]) dn) @ t) \<and>
     tx_inv nic' B \<and> tx_frame nic nic' B \<and> tbufRec nic' = tbufRec nic \<and> q_last (txq nic') = used_index (tx nic) \<and>
     avail_ring (tx nic') = avail_ring (tx nic) \<and> avail_index (tx nic') = avail_index (tx nic)"
proof (induction dn arbitrary: nic t)
  case Nil
  then have "used_index (tx nic) = q_last (txq nic)"
    by (simp add: done_heads_def ring_view_def) (simp add: unat_eq_zero)
  then show ?case using Nil by (subst tx_loop.simps) (intro exI [of _ nic], simp)
next
  case (Cons h dn)
  let ?l = "q_last (txq nic)"
  have inv: "tx_inv nic (add_mset h (mset dn + B))" using Cons.prems(2) by simp
  have q: "qsz (txq nic) = 32" "length (used_ring (tx nic)) = 32" "length (vq (nic_dev nic)) = 2"
    using inv vring_okD(3) [of 32 "tx nic"] by (simp_all add: tx_inv_def)
  have ne: "?l \<noteq> used_index (tx nic)" using Cons.prems(1) by (auto simp: done_heads_def)
  have sz: "unat (used_index (tx nic) - ?l) \<le> 32"
    using arg_cong [OF Cons.prems(1), of length] tx_inv_busy(2) [OF inv] by (simp add: done_heads_def)
  note v = ring32.view_get [OF ne sz, of "used_ring (tx nic)"]
  have h: "h = ucast (ue_id (used_ring (tx nic) ! (unat ?l mod 32)))" and
    dn: "dn = map (\<lambda>e. ucast (ue_id e)) (ring_view (used_ring (tx nic)) 32 (?l + 1) (used_index (tx nic)))"
    using Cons.prems(1) v by (simp_all add: done_heads_def)
  obtain n1 where f: "FreeTxEntry nic h t = Some (n1, Call NetBufFree [tbufRec nic ! unat (h + 1)] # t)"
    and n1: "tx_inv n1 (mset dn + B)" "tx_frame nic n1 (mset dn + B)" "nic_dev n1 = nic_dev nic"
      "tbufRec n1 = tbufRec nic" "avail_ring (tx n1) = avail_ring (tx nic)" "avail_index (tx n1) = avail_index (tx nic)"
    using FreeTxEntry_inv [OF inv] by blast
  let ?n = "set_last (Suc 0) (?l + 1) n1"
  have tq: "txq n1 = txq nic" using n1(3) by (simp add: txq_def)
  have dh: "done_heads ?n = dn"
    using n1(2,3) q(3) by (simp add: done_heads_def tq tx_frame_def dn)
  obtain n2 where r: "tx_loop ?n (Call NetBufFree [tbufRec nic ! unat (h + 1)] # t) =
      Some (n2, rev (map (\<lambda>h. Call NetBufFree [tbufRec nic ! unat (h + 1)]) dn) @ Call NetBufFree [tbufRec nic ! unat (h + 1)] # t)"
    "tx_inv n2 B" "tx_frame ?n n2 B" "tbufRec n2 = tbufRec nic" "q_last (txq n2) = used_index (tx n1)"
    "avail_ring (tx n2) = avail_ring (tx n1)" "avail_index (tx n2) = avail_index (tx n1)"
    using Cons.IH [OF dh tx_inv_set_last [OF n1(1)], of "Call NetBufFree [tbufRec nic ! unat (h + 1)] # t"]
    unfolding n1(4) txq_set_last(2-) by (elim exE conjE) (rule that)
  have "tx_frame nic ?n B" using tx_frame_mono [OF n1(2), of B] by (simp add: tx_frame_def)
  then have "tx_frame nic n2 B" using r(3) by (rule tx_frame_trans)
  moreover have "tx_loop nic t = tx_loop ?n (Call NetBufFree [tbufRec nic ! unat (h + 1)] # t)"
  proof -
    have "used_get (qsz (txq nic)) ?l (tx nic) = Some (used_ring (tx nic) ! (unat ?l mod 32))"
      by (simp add: used_get_in q)
    then show ?thesis
      by (subst tx_loop.simps) (simp only: if_not_P [OF ne] Option.bind.simps h [symmetric] f prod.case tq One_nat_def)
  qed
  moreover have "used_index (tx n1) = used_index (tx nic)"
    using n1(2) by (simp add: tx_frame_def)
  ultimately show ?case
    using r n1(5,6) by (intro exI [of _ n2]) simp
qed

lemma VirtnetTxHandle_inv:
  assumes "tx_inv nic (mset (done_heads nic) + B)"
  shows "\<exists>nic'. VirtnetTxHandle nic t =
      Some (nic', rev (map (\<lambda>h. Call NetBufFree [tbufRec nic ! unat (h + 1)]) (done_heads nic)) @ t) \<and>
     tx_inv nic' B \<and> tx_frame nic nic' B \<and> tbufRec nic' = tbufRec nic \<and> done_heads nic' = [] \<and>
     avail_ring (tx nic') = avail_ring (tx nic) \<and> avail_index (tx nic') = avail_index (tx nic) \<and> avail_flag (tx nic') = 0"
proof -
  let ?n = "nic\<lparr>tx := (tx nic)\<lparr>avail_flag := VIRTQ_AVAIL_F_NO_INTERRUPT\<rparr>\<rparr>"
  have d: "done_heads ?n = done_heads nic" and i: "tx_inv ?n (mset (done_heads nic) + B)"
    using assms by (simp_all add: done_heads_def txq_def tx_inv_def vring_ok_def)
  obtain n2 where r: "tx_loop ?n t =
      Some (n2, rev (map (\<lambda>h. Call NetBufFree [tbufRec nic ! unat (h + 1)]) (done_heads nic)) @ t)"
    "tx_inv n2 B" "tx_frame ?n n2 B" "tbufRec n2 = tbufRec nic" "q_last (txq n2) = used_index (tx nic)"
    "avail_ring (tx n2) = avail_ring (tx nic)" "avail_index (tx n2) = avail_index (tx nic)"
    using tx_loop_inv [OF d i, of t] by auto
  let ?m = "n2\<lparr>tx := (tx n2)\<lparr>avail_flag := 0\<rparr>\<rparr>"
  have "VirtnetTxHandle nic t = Some (?m, rev (map (\<lambda>h. Call NetBufFree [tbufRec nic ! unat (h + 1)]) (done_heads nic)) @ t)"
    by (simp add: VirtnetTxHandle_def r(1))
  moreover have "tx_inv ?m B" "tx_frame nic ?m B" "done_heads ?m = []"
    using r(2,3,5) by (simp_all add: tx_inv_def vring_ok_def txq_def tx_frame_def done_heads_def)
  ultimately show ?thesis using r by (intro exI [of _ ?m]) simp
qed

subsection \<open>Driver, device and interrupt\<close>

text \<open>The transmit side as a transition system: the driver's struct, how far the device has read the
  available ring, the heads it took and has not completed, the packets in flight (head, NetBuf and the
  chain at the time of sending) and all NetBufs handed to the driver.\<close>

record tx_sys =
  snic :: VirtNetif
  seen :: u16
  taken :: "u16 list"
  strace :: trace
  flight :: "(u16 \<times> u32 \<times> (u64 \<times> u32 \<times> bool) list option) list"
  sent :: "u32 list"

definition pending_heads :: "tx_sys \<Rightarrow> u16 list" where
  "pending_heads s = ring_view (avail_ring (tx (snic s))) 32 (seen s) (avail_index (tx (snic s)))"

inductive tx_step :: "env \<Rightarrow> net_abi \<Rightarrow> tx_sys \<Rightarrow> tx_sys \<Rightarrow> bool" for E A where
  send: "\<lbrakk> PER_TX_ENTRIES \<le> tFreeNum (snic s);
      LowLevelOutput E A (\<lambda>n t. (n, t)) (snic s) p (strace s) = Some (nic, t) \<rbrakk> \<Longrightarrow>
    tx_step E A s (s\<lparr>snic := nic, strace := t, sent := p # sent s,
      flight := (tFreeHdr (snic s), p, device_chain (tx nic) (tFreeHdr (snic s))) # flight s\<rparr>)"
| take: "\<lbrakk> seen s \<noteq> avail_index (tx (snic s)) \<rbrakk> \<Longrightarrow>
    tx_step E A s (s\<lparr>taken := avail_ring (tx (snic s)) ! (unat (seen s) mod 32) # taken s, seen := seen s + 1\<rparr>)"
| complete: "\<lbrakk> taken s = xs @ h # ys; r = tx (snic s) \<rbrakk> \<Longrightarrow>
    tx_step E A s (s\<lparr>taken := xs @ ys, snic := (snic s)\<lparr>tx := r\<lparr>used_index := used_index r + 1,
      used_ring := (used_ring r)[unat (used_index r) mod 32 := \<lparr>ue_id = ucast h, ue_len = n\<rparr>]\<rparr>\<rparr>\<rparr>)"
| irq: "\<lbrakk> VirtnetTxHandle (snic s) (strace s) = Some (nic, t) \<rbrakk> \<Longrightarrow>
    tx_step E A s (s\<lparr>snic := nic, strace := t,
      flight := filter (\<lambda>(h, p, c). h \<notin> set (done_heads (snic s))) (flight s)\<rparr>)"

definition freed :: "tx_sys \<Rightarrow> u32 list" where
  "freed s = map hd (calls_of NetBufFree (strace s))"

definition tx_sys_inv :: "tx_sys \<Rightarrow> bool" where
  "tx_sys_inv s \<longleftrightarrow>
     tx_inv (snic s) (mset (pending_heads s) + mset (taken s) + mset (done_heads (snic s))) \<and>
     mset (map fst (flight s)) = mset (pending_heads s) + mset (taken s) + mset (done_heads (snic s)) \<and>
     (\<forall>(h, p, c) \<in> set (flight s). tbufRec (snic s) ! unat (h + 1) = p \<and> device_chain (tx (snic s)) h = c \<and> c \<noteq> None) \<and>
     mset (freed s) + mset (map (fst \<circ> snd) (flight s)) = mset (sent s)"

lemma tx_chain_frame:
  assumes "tx_inv nic B" and "tx_inv nic' B'" and "h \<in># B" and "h \<in># B'" and "tx_frame nic nic' C" and "h \<in># C"
  shows "device_chain (tx nic') h = device_chain (tx nic) h"
proof -
  have "h \<in> set tx_heads" using tx_inv_busy(1) [OF assms(1)] assms(3) by auto
  then show ?thesis
    using tx_chain [of "tx nic" h] tx_chain [of "tx nic'" h] assms by (simp add: tx_inv_def tx_frame_def)
qed

lemma flight_heads:
  assumes "tx_sys_inv s" and "(h, p, c) \<in> set (flight s)"
  shows "h \<in># mset (pending_heads s) + mset (taken s) + mset (done_heads (snic s))"
proof -
  have "h \<in># mset (map fst (flight s))" using assms(2) by force
  moreover have "mset (map fst (flight s)) = mset (pending_heads s) + mset (taken s) + mset (done_heads (snic s))"
    using assms(1) by (simp only: tx_sys_inv_def)
  ultimately show ?thesis by (simp only:)
qed

lemma tx_sys_counts:
  assumes "tx_sys_inv s"
  shows "length (pending_heads s) \<le> 16" and "length (done_heads (snic s)) \<le> 16"
  using assms tx_inv_busy(2) [of "snic s"] by (fastforce simp: tx_sys_inv_def)+

lemma length_pending: "length (pending_heads s) = unat (avail_index (tx (snic s)) - seen s)"
  by (simp add: pending_heads_def)

lemma length_done: "length (done_heads nic) = unat (used_index (tx nic) - q_last (txq nic))"
  by (simp add: done_heads_def)

lemma tx_send_inv:
  assumes inv: "tx_sys_inv s" and room: "PER_TX_ENTRIES \<le> tFreeNum (snic s)"
    and out: "LowLevelOutput E A others (snic s) p (strace s) = Some (nic, t)"
  shows "tx_sys_inv (s\<lparr>snic := nic, strace := t, sent := p # sent s,
      flight := (tFreeHdr (snic s), p, device_chain (tx nic) (tFreeHdr (snic s))) # flight s\<rparr>)"
    (is "tx_sys_inv ?s")
proof -
  let ?B = "mset (pending_heads s) + mset (taken s) + mset (done_heads (snic s))" and ?h = "tFreeHdr (snic s)"
  have i: "tx_inv (snic s) ?B" using inv by (simp add: tx_sys_inv_def)
  have o: "tx_inv nic (add_mset ?h ?B)" "tx_frame (snic s) nic ?B" "nic_dev nic = nic_dev (snic s)"
    "tbufRec nic ! unat (?h + 1) = p"
    "avail_ring (tx nic) = (avail_ring (tx (snic s)))[unat (avail_index (tx (snic s))) mod 32 := ?h]"
    "avail_index (tx nic) = avail_index (tx (snic s)) + 1"
    "device_chain (tx nic) ?h = Some (packet_chain E A (snic s) p (strace s))"
    "calls_of NetBufFree t = calls_of NetBufFree (strace s)"
    using LowLevelOutput_inv [OF i room, of E A others p "strace s"] out by auto
  have "length (avail_ring (tx (snic s))) = 32"
    using i vring_okD(2) [of 32 "tx (snic s)"] by (simp add: tx_inv_def)
  moreover have "unat (avail_index (tx (snic s)) - seen s) < 32"
    using tx_sys_counts(1) [OF inv] by (simp add: length_pending)
  ultimately have p: "pending_heads ?s = pending_heads s @ [?h]"
    using ring32.view_put [of "avail_ring (tx (snic s))"] by (simp add: pending_heads_def o(5,6))
  have d: "done_heads nic = done_heads (snic s)"
    using o(2,3) by (simp add: done_heads_def txq_def tx_frame_def)
  have "tbufRec nic ! unat (g + 1) = q \<and> device_chain (tx nic) g = c \<and> c \<noteq> None" if "(g, q, c) \<in> set (flight s)" for g q c
  proof -
    have g: "g \<in># ?B" using flight_heads [OF inv that] .
    have "device_chain (tx nic) g = device_chain (tx (snic s)) g"
      using tx_chain_frame [OF i o(1) g _ o(2) g] g by simp
    with inv that g o(2) show ?thesis by (auto simp: tx_sys_inv_def tx_frame_def)
  qed
  then show ?thesis
    using inv o p d by (auto simp: tx_sys_inv_def freed_def add_ac)
qed

lemma tx_take_inv:
  assumes inv: "tx_sys_inv s" and ne: "seen s \<noteq> avail_index (tx (snic s))"
  shows "tx_sys_inv (s\<lparr>taken := avail_ring (tx (snic s)) ! (unat (seen s) mod 32) # taken s, seen := seen s + 1\<rparr>)"
    (is "tx_sys_inv ?s")
proof -
  have "unat (avail_index (tx (snic s)) - seen s) \<le> 32"
    using tx_sys_counts(1) [OF inv] by (simp add: length_pending)
  then have "pending_heads s = avail_ring (tx (snic s)) ! (unat (seen s) mod 32) # pending_heads ?s"
    using ring32.view_get [OF ne] by (simp add: pending_heads_def)
  then show ?thesis using inv by (simp add: tx_sys_inv_def freed_def)
qed

lemma tx_complete_inv:
  assumes inv: "tx_sys_inv s" and tk: "taken s = xs @ h # ys"
  shows "tx_sys_inv (s\<lparr>taken := xs @ ys, snic := (snic s)\<lparr>tx := (tx (snic s))\<lparr>used_index := used_index (tx (snic s)) + 1,
      used_ring := (used_ring (tx (snic s)))[unat (used_index (tx (snic s))) mod 32 := \<lparr>ue_id = ucast h, ue_len = n\<rparr>]\<rparr>\<rparr>\<rparr>)"
    (is "tx_sys_inv ?s")
proof -
  let ?r = "tx (snic s)"
  have "length (used_ring ?r) = 32"
    using inv vring_okD(3) [of 32 ?r] by (simp add: tx_sys_inv_def tx_inv_def)
  moreover have "unat (used_index ?r - q_last (txq (snic s))) < 32"
    using tx_sys_counts(2) [OF inv] by (simp add: length_done)
  moreover have "(ucast (ucast h :: u32) :: u16) = h"
    by (rule bit_word_eqI) (simp add: bit_simps)
  ultimately have d: "done_heads (snic ?s) = done_heads (snic s) @ [h]"
    using ring32.view_put [of "used_ring ?r" "used_index ?r" "q_last (txq (snic s))"]
    by (simp add: done_heads_def txq_def)
  have p: "pending_heads ?s = pending_heads s" by (simp add: pending_heads_def)
  have "tx_inv (snic ?s) B = tx_inv (snic s) B" for B
    by (simp add: tx_inv_def txq_def vring_ok_def)
  moreover have "device_chain (tx (snic ?s)) g = device_chain ?r g" for g
    by (simp add: device_chain_def)
  ultimately show ?thesis
    using inv d p tk by (simp add: tx_sys_inv_def freed_def)
qed


lemma map_fst_filter:
  "map fst (filter (\<lambda>(h, p, c). P h) xs) = filter P (map fst xs)"
  by (simp add: filter_map o_def case_prod_unfold)

lemma calls_of_frees:
  "calls_of f (rev (map (\<lambda>x. Call f [g x]) xs) @ t) = calls_of f t @ map (\<lambda>x. [g x]) xs"
proof (induction xs arbitrary: t)
  case Nil
  then show ?case by simp
next
  case (Cons x xs)
  show ?case using Cons.IH [of "Call f [g x] # t"] by simp
qed

lemma tx_irq_inv:
  assumes inv: "tx_sys_inv s" and tx: "VirtnetTxHandle (snic s) (strace s) = Some (nic, t)"
  shows "tx_sys_inv (s\<lparr>snic := nic, strace := t,
      flight := filter (\<lambda>(h, p, c). h \<notin> set (done_heads (snic s))) (flight s)\<rparr>)" (is "tx_sys_inv ?s")
proof -
  let ?D = "done_heads (snic s)"
  let ?B = "mset (pending_heads s) + mset (taken s)"
  have i: "tx_inv (snic s) (mset ?D + ?B)" using inv by (simp add: tx_sys_inv_def add_ac)
  have o: "t = rev (map (\<lambda>h. Call NetBufFree [tbufRec (snic s) ! unat (h + 1)]) ?D) @ strace s"
    "tx_inv nic ?B" "tx_frame (snic s) nic ?B" "done_heads nic = []"
    "avail_ring (tx nic) = avail_ring (tx (snic s))" "avail_index (tx nic) = avail_index (tx (snic s))"
    using VirtnetTxHandle_inv [OF i, of "strace s"] tx by auto
  have p: "pending_heads ?s = pending_heads s" using o(5,6) by (simp add: pending_heads_def)
  obtain F where F: "mset F + (mset ?D + ?B) = mset tx_heads"
    using i by (auto simp: tx_inv_def)
  have disj: "g \<notin># ?B" if "g \<in> set ?D" for g
  proof -
    have "g \<in># mset ?D" using that by simp
    then obtain D' where D': "mset ?D = add_mset g D'" by (rule mset_add)
    have "mset F + add_mset g (D' + ?B) = mset tx_heads" using F D' by simp
    from tx_partition(2) [OF this] show ?thesis by simp
  qed
  have fl: "mset (map fst (flight s)) = ?B + mset ?D" using inv by (simp only: tx_sys_inv_def add_ac)
  have "mset (map fst (flight ?s)) = filter_mset (\<lambda>h. h \<notin> set ?D) (mset (map fst (flight s)))"
    by (simp add: map_fst_filter del: mset_map)
  also have "\<dots> = ?B"
  proof -
    have "filter_mset (\<lambda>h. h \<notin> set ?D) (mset ?D) = {#}" by simp
    moreover have "filter_mset (\<lambda>h. h \<notin> set ?D) ?B = filter_mset (\<lambda>h. True) ?B"
      by (rule filter_mset_cong) (use disj in auto)
    ultimately show ?thesis by (simp only: fl filter_union_mset filter_mset_True add_0_right)
  qed
  finally have fl': "mset (map fst (flight ?s)) = ?B" .
  have ok: "tbufRec nic ! unat (g + 1) = q \<and> device_chain (tx nic) g = c \<and> c \<noteq> None" if "(g, q, c) \<in> set (flight ?s)" for g q c
  proof -
    have g: "g \<in># ?B" 
    proof -
      have "g \<in># mset (map fst (flight ?s))" using that by force
      then show ?thesis by (simp only: fl')
    qed
    have "device_chain (tx nic) g = device_chain (tx (snic s)) g"
      using tx_chain_frame [OF i o(2) _ g o(3) g] g by simp
    with inv that g o(3) show ?thesis by (auto simp: tx_sys_inv_def tx_frame_def)
  qed
  let ?tb = "\<lambda>h. tbufRec (snic s) ! unat (h + 1)"
  let ?G = "filter (\<lambda>(h, p, c). h \<in> set ?D) (flight s)"
  have "freed ?s = freed s @ map ?tb ?D"
    by (simp add: freed_def o(1) calls_of_frees o_def)
  moreover have "mset (map (fst \<circ> snd) ?G) = mset (map ?tb ?D)"
  proof -
    have "map (fst \<circ> snd) ?G = map ?tb (map fst ?G)"
      using inv by (auto simp: tx_sys_inv_def)
    moreover have "mset (map fst ?G) = filter_mset (\<lambda>h. h \<in> set ?D) (?B + mset ?D)"
      by (simp only: map_fst_filter mset_filter fl)
    moreover have "filter_mset (\<lambda>h. h \<in> set ?D) ?B = {#}" using disj by auto
    moreover have "filter_mset (\<lambda>h. h \<in> set ?D) (mset ?D) = filter_mset (\<lambda>h. True) (mset ?D)"
      by (rule filter_mset_cong) auto
    ultimately show ?thesis
      by (simp only: mset_map filter_union_mset filter_mset_True add_0)
  qed
  moreover have "mset (map (fst \<circ> snd) (flight s)) =
      mset (map (fst \<circ> snd) ?G) + mset (map (fst \<circ> snd) (flight ?s))"
  proof -
    have "mset (flight s) = mset ?G + mset (flight ?s)"
      using multiset_partition [of "mset (flight s)" "\<lambda>(h, p, c). h \<in> set ?D"] by (simp add: case_prod_unfold)
    then show ?thesis by (simp only: mset_map image_mset_union)
  qed
  moreover have "mset (freed s) + mset (map (fst \<circ> snd) (flight s)) = mset (sent s)"
    using inv by (simp only: tx_sys_inv_def)
  ultimately have acc: "mset (freed ?s) + mset (map (fst \<circ> snd) (flight ?s)) = mset (sent ?s)"
    by (simp add: add_ac)
  show ?thesis
    unfolding tx_sys_inv_def p
    using o(2,4) fl' ok acc by auto
qed

subsection \<open>Start and stop\<close>

text \<open>The struct after \<open>memset_s\<close>.\<close>

definition zero_VirtNetif :: "net_abi \<Rightarrow> u32 \<Rightarrow> VirtNetif" where
  "zero_VirtNetif A a = \<lparr>nic_addr = a,
     nic_dev = \<lparr>base = 0, irq = 0, vq = replicate VIRTQ_NUM \<lparr>qsz = 0, q_last = 0, q_desc = 0, q_avail = 0, q_used = 0\<rparr>\<rparr>,
     rx = zero_vring (unat VIRTQ_RX_QSZ), tx = zero_vring (unat VIRTQ_TX_QSZ), tFreeHdr = 0, tFreeNum = 0,
     tbufRec = replicate (unat VIRTQ_TX_QSZ) 0,
     rbuf = replicate (unat VIRTQ_RX_QSZ) (replicate (PER_RXBUF_SIZE A) 0)\<rparr>"

text \<open>The exit \<open>ERR_OUT\<close> of \<open>VirtnetInit\<close>: the device is told, the memory stays with the net device.\<close>

definition net_err_out :: "env \<Rightarrow> HDF_STATUS \<Rightarrow> NetDevice \<Rightarrow> VirtNetif \<Rightarrow> trace \<Rightarrow> HDF_STATUS \<times> NetDevice \<times> trace" where
  "net_err_out E ret netDev nic t =
     (ret, netDev\<lparr>nd_priv := Some nic\<rparr>, VirtmmioInitFailed E (nic_dev nic) t)"

definition VirtnetInit ::
  "env \<Rightarrow> net_abi \<Rightarrow> (trace \<Rightarrow> u32 \<Rightarrow> VirtnetConfig) \<Rightarrow> NetDevice \<Rightarrow> trace \<Rightarrow> (HDF_STATUS \<times> NetDevice \<times> trace) option" where
  "VirtnetInit E A config netDev t = do {
     let len = sizeof_VirtNetif A + VirtqSize E VIRTQ_RX_QSZ + VirtqSize E VIRTQ_TX_QSZ;
     let (p, t) = kcall E LOS_DmaMemAlloc [len] t;
     if p = 0 then Some (HDF_ERR_MALLOC_FAIL, netDev, t) else do {
       let nic = zero_VirtNetif A p;
       let (found, dev, t) = VirtmmioDiscover E VIRTMMIO_DEVICE_ID_NET (nic_dev nic) t;
       let nic = nic\<lparr>nic_dev := dev\<rparr>;
       let netDev = netDev\<lparr>nd_priv := Some nic\<rparr>;
       if \<not> found then Some (HDF_DEV_ERR_NO_DEVICE, netDev, t) else do {
         t \<leftarrow> VirtmmioInitBegin E (nic_dev nic) t;
         (ok, netDev, t) \<leftarrow> VirtmmioNegotiate E (nic_dev nic) (Net_Feature0 A config) Net_Feature1 netDev t;
         if \<not> ok then Some (net_err_out E HDF_DEV_ERR_DEV_INIT_FAIL netDev nic t) else do {
           (ret, nic, t) \<leftarrow> Net_ConfigQueue E A nic t;
           if ret \<noteq> HDF_SUCCESS then Some (net_err_out E ret netDev nic t) else do {
             let (ret, t) = kstatus E OsalRegisterIrq [irq (nic_dev nic), nd_addr netDev] t;
             if ret \<noteq> HDF_SUCCESS then Some (net_err_out E ret netDev nic t) else do {
               let nic = nic\<lparr>nic_dev := (nic_dev nic)\<lparr>irq := irq (nic_dev nic) OR NOT IRQ_MASK\<rparr>\<rparr>;
               Some (HDF_SUCCESS, netDev\<lparr>nd_priv := Some nic\<rparr>, VritmmioInitEnd E (nic_dev nic) t)
             }
           }
         }
       }
     }
   }"

definition VirtnetDeInit :: "NetDevice \<Rightarrow> trace \<Rightarrow> NetDevice \<times> trace" where
  "VirtnetDeInit netDev t =
     (case nd_priv netDev of
        None \<Rightarrow> (netDev, t)
      | Some nic \<Rightarrow>
          let t = (if irq (nic_dev nic) AND NOT IRQ_MASK \<noteq> 0
                   then kproc OsalUnregisterIrq [irq (nic_dev nic) AND IRQ_MASK, nd_addr netDev] t else t);
              t = kproc LOS_DmaMemFree [nic_addr nic] t
          in (netDev\<lparr>nd_priv := None\<rparr>, t))"

definition VirtNetDeviceSetMacAddr :: "NetDevice \<Rightarrow> u8 list \<Rightarrow> NetDevice option" where
  "VirtNetDeviceSetMacAddr netDev p = do {
     m \<leftarrow> copy_bytes (macAddr netDev) p (addrLen netDev);
     Some (netDev\<lparr>macAddr := m\<rparr>)
   }"

text \<open>The guest's address: the network part of the default gateway and a host byte from the cycle
  counter. \<open>inet_addr\<close> is the C library's conversion.\<close>

definition guest_host_byte :: "u32 \<Rightarrow> u32" where
  "guest_host_byte l =
     (let l = l AND 0xFF in
      if l = 0 \<or> l = 2 then l + 1 else if l = 0xFF then l - 1 else l)"

definition VirtNetDeviceInitDone ::
  "env \<Rightarrow> (string \<Rightarrow> u32) \<Rightarrow> u32 \<Rightarrow> NetDevice \<Rightarrow> trace \<Rightarrow> HDF_STATUS \<times> trace" where
  "VirtNetDeviceInitDone E inet_addr NETIF_UP netDev t =
     (let (ret, t) = kstatus E NetIfSetStatus [nd_addr netDev, NETIF_UP] t in
      if ret \<noteq> HDF_SUCCESS then (ret, t) else
      let (l, t) = kcall E LOS_GetCpuCycle [] t;
          l = push_bit 24 (guest_host_byte l);
          ip = (inet_addr ''255.255.255.0'' AND inet_addr ''10.0.2.2'') OR l;
          mask = inet_addr ''255.255.255.0'';
          gw = inet_addr ''10.0.2.2''
      in kstatus E NetIfSetAddr [nd_addr netDev, ip, mask, gw] t)"

definition VirtNetDeviceInit ::
  "env \<Rightarrow> net_abi \<Rightarrow> (trace \<Rightarrow> u32 \<Rightarrow> VirtnetConfig) \<Rightarrow> (string \<Rightarrow> u32) \<Rightarrow> u32 \<Rightarrow> NetDevice \<Rightarrow> trace
     \<Rightarrow> (HDF_STATUS \<times> NetDevice \<times> trace) option" where
  "VirtNetDeviceInit E A config inet_addr NETIF_UP netDev t = do {
     (ret, netDev, t) \<leftarrow> VirtnetInit E A config netDev t;
     if ret \<noteq> HDF_SUCCESS then Some (ret, netDev, t) else do {
       let netDev = netDev\<lparr>nd_running := True\<rparr>;
       let (ret, t) = kstatus E NetDeviceAdd [nd_addr netDev] t;
       if ret \<noteq> HDF_SUCCESS then Some (ret, VirtnetDeInit netDev t) else do {
         let (ret, t) = kstatus E CreateEapolData [nd_addr netDev] t;
         if ret \<noteq> HDF_SUCCESS then Some (ret, VirtnetDeInit netDev t) else do {
           nic \<leftarrow> nd_priv netDev;
           let nic = nic\<lparr>rx := (rx nic)\<lparr>avail_index := qsz (rxq nic)\<rparr>\<rparr>;
           let netDev = netDev\<lparr>nd_priv := Some nic\<rparr>;
           let t = WRITE_UINT32 0 (base (nic_dev nic) + VIRTMMIO_REG_QUEUENOTIFY) t;
           let (ret, t) = VirtNetDeviceInitDone E inet_addr NETIF_UP netDev t;
           Some (ret, netDev, t)
         }
       }
     }
   }"

definition VirtNetDeviceDeInit :: "env \<Rightarrow> NetDevice \<Rightarrow> trace \<Rightarrow> HDF_STATUS \<times> NetDevice \<times> trace" where
  "VirtNetDeviceDeInit E netDev t =
     (let t = kproc DestroyEapolData [nd_addr netDev] t;
          (netDev, t) = (if nd_priv netDev \<noteq> None then VirtnetDeInit netDev t else (netDev, t));
          (ret, t) = kstatus E NetDeviceDelete [nd_addr netDev] t
      in (ret, netDev, t))"

subsection \<open>The fake wireless card\<close>

definition FakeWalSetMode :: "u32 \<Rightarrow> u32 \<Rightarrow> HDF_STATUS" where
  "FakeWalSetMode WLAN_WORKMODE_STA mode = (if mode \<noteq> WLAN_WORKMODE_STA then HDF_ERR_NOT_SUPPORT else HDF_SUCCESS)"

definition FakeWalAddKey :: "NetDevice \<Rightarrow> u8 \<Rightarrow> bool \<Rightarrow> u8 list \<Rightarrow> HDF_STATUS" where
  "FakeWalAddKey netDev keyIndex pw mac = HDF_SUCCESS"

definition FakeWalDelKey :: "NetDevice \<Rightarrow> u8 \<Rightarrow> bool \<Rightarrow> u8 list \<Rightarrow> HDF_STATUS" where
  "FakeWalDelKey netDev keyIndex pw mac = HDF_SUCCESS"

definition FakeWalSetDefaultKey :: "NetDevice \<Rightarrow> u8 \<Rightarrow> bool \<Rightarrow> bool \<Rightarrow> HDF_STATUS" where
  "FakeWalSetDefaultKey netDev keyIndex unicast multicas = HDF_SUCCESS"

definition FakeWalGetDeviceMacAddr :: "NetDevice \<Rightarrow> u8 list \<Rightarrow> u8 \<Rightarrow> (HDF_STATUS \<times> u8 list) option" where
  "FakeWalGetDeviceMacAddr netDev mac len = do {
     m \<leftarrow> copy_bytes mac (macAddr netDev) (min (unat len) (addrLen netDev));
     Some (HDF_SUCCESS, m)
   }"

definition FakeWalSetMacAddr :: "NetDevice \<Rightarrow> u8 list \<Rightarrow> u8 \<Rightarrow> (HDF_STATUS \<times> NetDevice) option" where
  "FakeWalSetMacAddr netDev mac len = do {
     m \<leftarrow> copy_bytes (macAddr netDev) mac (min (unat len) (addrLen netDev));
     Some (HDF_SUCCESS, netDev\<lparr>macAddr := m\<rparr>)
   }"

definition FakeWalSetTxPower :: "NetDevice \<Rightarrow> u32 \<Rightarrow> HDF_STATUS" where
  "FakeWalSetTxPower netDev pwr = HDF_SUCCESS"

text \<open>The frequencies and their number, when the band is supported.\<close>

definition FakeWalGetValidFreqsWithBand :: "u32 \<Rightarrow> HDF_STATUS \<times> (u32 \<times> u32) option" where
  "FakeWalGetValidFreqsWithBand band =
     (if band \<noteq> 20 then (HDF_ERR_NOT_SUPPORT, None) else (HDF_SUCCESS, Some (2412, 1)))"

record WlanHwCapability =
  wc_addr :: u32
  htCapability :: u32
  supportedRateCount :: u32
  channelCount :: u32
  channelId :: u32
  centerFreq :: u32
  ch_flags :: u32
  wc_rate :: u16

definition FakeWalHwCapabilityRelease :: "WlanHwCapability \<Rightarrow> trace \<Rightarrow> trace" where
  "FakeWalHwCapabilityRelease c t = kproc OsalMemFree [wc_addr c] t"

definition FakeWalGetHwCapability ::
  "env \<Rightarrow> u32 \<Rightarrow> u32 \<Rightarrow> u32 \<Rightarrow> trace \<Rightarrow> HDF_STATUS \<times> WlanHwCapability option \<times> trace" where
  "FakeWalGetHwCapability E sizeof_cap NO_IR DFS_UNAVAILABLE t =
     (let (p, t) = kcall E OsalMemCalloc [sizeof_cap] t in
      if p = 0 then (HDF_ERR_MALLOC_FAIL, None, t) else
      (HDF_SUCCESS, Some \<lparr>wc_addr = p, htCapability = 20, supportedRateCount = 1, channelCount = 1, channelId = 1,
         centerFreq = 2412, ch_flags = NO_IR OR DFS_UNAVAILABLE, wc_rate = 100\<rparr>, t))"

definition FakeStaConnect :: "NetDevice \<Rightarrow> HDF_STATUS" where "FakeStaConnect netDev = HDF_SUCCESS"
definition FakeStaDisonnect :: "NetDevice \<Rightarrow> u16 \<Rightarrow> HDF_STATUS" where "FakeStaDisonnect netDev reasonCode = HDF_SUCCESS"
definition FakeStaStartScan :: "NetDevice \<Rightarrow> HDF_STATUS" where "FakeStaStartScan netDev = HDF_SUCCESS"
definition FakeStaAbortScan :: "NetDevice \<Rightarrow> HDF_STATUS" where "FakeStaAbortScan netDev = HDF_SUCCESS"
definition FakeStaSetScanningMacAddress :: "NetDevice \<Rightarrow> u8 list \<Rightarrow> u32 \<Rightarrow> HDF_STATUS" where
  "FakeStaSetScanningMacAddress netDev mac len = HDF_SUCCESS"

text \<open>The chip driver: its address and name (the operation tables are fixed).\<close>

record HdfChipDriver =
  chip_addr :: u32
  chip_name :: string

definition FakeFactoryInitChip ::
  "env \<Rightarrow> u32 \<Rightarrow> nat \<Rightarrow> bool \<Rightarrow> u8 \<Rightarrow> trace \<Rightarrow> HdfChipDriver option \<times> trace" where
  "FakeFactoryInitChip E sizeof_chip MAX_WIFI_COMPONENT_NAME_LEN device_is_null ifIndex t =
     (if device_is_null \<or> ifIndex > 0 then (None, t) else
      let (p, t) = kcall E OsalMemCalloc [sizeof_chip] t in
      if p = 0 then (None, t) else
      if MAX_WIFI_COMPONENT_NAME_LEN \<le> length ''virtnet'' then (None, kproc OsalMemFree [p] t) else
      (Some \<lparr>chip_addr = p, chip_name = ''virtnet''\<rparr>, t))"

definition FakeFactoryReleaseChip :: "HdfChipDriver option \<Rightarrow> trace \<Rightarrow> trace" where
  "FakeFactoryReleaseChip chip t =
     (case chip of None \<Rightarrow> t
      | Some c \<Rightarrow> if chip_name c \<noteq> ''virtnet'' then t else kproc OsalMemFree [chip_addr c] t)"

definition FakeFactoryGetMaxIFCount :: "u32 \<Rightarrow> u8" where
  "FakeFactoryGetMaxIFCount factory = 1"

definition FakeFactoryRelease :: "u32 \<Rightarrow> trace \<Rightarrow> trace" where
  "FakeFactoryRelease factory t = kproc OsalMemFree [factory] t"

text \<open>\<open>has_reg\<close> tells whether the driver manager (address \<open>mgr\<close>) has a registration function.\<close>

definition FakeFactoryInit :: "env \<Rightarrow> u32 \<Rightarrow> (u32 \<Rightarrow> bool) \<Rightarrow> trace \<Rightarrow> HDF_STATUS \<times> trace" where
  "FakeFactoryInit E sizeof_factory has_reg t =
     (let (f, t) = kcall E OsalMemCalloc [sizeof_factory] t in
      if f = 0 then (HDF_ERR_MALLOC_FAIL, t) else
      let (mgr, t) = kcall E HdfWlanGetChipDriverMgr [] t in
      if mgr = 0 \<or> \<not> has_reg mgr then (HDF_FAILURE, kproc OsalMemFree [f] t) else
      let (ret, t) = kstatus E RegChipDriver [mgr, f] t in
      if ret \<noteq> HDF_SUCCESS then (ret, kproc OsalMemFree [f] t) else (HDF_SUCCESS, t))"

definition FakeWifiInit ::
  "env \<Rightarrow> u32 \<Rightarrow> (u32 \<Rightarrow> bool) \<Rightarrow> bool \<Rightarrow> VirtmmioDev \<Rightarrow> trace \<Rightarrow> HDF_STATUS \<times> trace" where
  "FakeWifiInit E sizeof_factory has_reg device_is_null dev t =
     (if device_is_null then (HDF_ERR_INVALID_PARAM, t) else
      let (found, dev, t) = VirtmmioDiscover E VIRTMMIO_DEVICE_ID_NET dev t in
      if \<not> found then (HDF_ERR_INVALID_OBJECT, t) else FakeFactoryInit E sizeof_factory has_reg t)"

definition FakeWifiRelease :: "bool \<Rightarrow> trace \<Rightarrow> trace" where
  "FakeWifiRelease device_is_null t = (if device_is_null then t else kproc ChipDriverMgrDeInit [] t)"

subsection \<open>Reachable states of the transmit side\<close>

lemma init_free_loop_spec:
  "i + n \<le> length (descs r) \<Longrightarrow> \<exists>ds. init_free_loop i n r = Some (r\<lparr>descs := ds\<rparr>) \<and> length ds = length (descs r) \<and>
     (\<forall>j < length ds. ds ! j = (if i \<le> j \<and> j < i + n then (descs r ! j)\<lparr>d_flag := VIRTQ_DESC_F_NEXT, d_next := of_nat (j + 1)\<rparr>
        else descs r ! j))"
proof (induction n arbitrary: i r)
  case 0
  then show ?case by (intro exI [of _ "descs r"]) auto
next
  case (Suc n)
  let ?r = "r\<lparr>descs := (descs r)[i := (descs r ! i)\<lparr>d_flag := VIRTQ_DESC_F_NEXT, d_next := of_nat (i + 1)\<rparr>]\<rparr>"
  obtain ds where "init_free_loop (i + 1) n ?r = Some (?r\<lparr>descs := ds\<rparr>)" "length ds = length (descs r)"
    "\<forall>j < length ds. ds ! j = (if i + 1 \<le> j \<and> j < i + 1 + n then (descs ?r ! j)\<lparr>d_flag := VIRTQ_DESC_F_NEXT, d_next := of_nat (j + 1)\<rparr>
        else descs ?r ! j)"
    using Suc.IH [of "i + 1" ?r] Suc.prems by auto
  then show ?case
    using Suc.prems by (intro exI [of _ ds]) (auto simp: desc_upd_in nth_list_update)
qed

lemma free_heads_chain:
  assumes "\<And>j. j < 31 \<Longrightarrow> d_next (ds ! j) = of_nat (j + 1)"
  shows "2 * k + 2 * n \<le> 32 \<Longrightarrow> free_heads ds n (2 * of_nat k) = map (\<lambda>k. 2 * of_nat k) [k..<k + n]"
proof (induction n arbitrary: k)
  case 0
  then show ?case by simp
next
  case (Suc n)
  have u: "unat (2 * of_nat k + 1 :: u16) = 2 * k + 1"
    using Suc.prems by (simp add: unat_word_ariths unat_of_nat)
  show ?case
  proof (cases n)
    case 0
    then show ?thesis by simp
  next
    case (Suc n')
    then have "d_next (ds ! (2 * k + 1)) = 2 * of_nat (Suc k)"
      using assms [of "2 * k + 1"] Suc.prems by simp
    moreover have "free_heads ds n (2 * of_nat (Suc k)) = map (\<lambda>k. 2 * of_nat k) [Suc k..<Suc k + n]"
      using Suc.IH [of "Suc k"] Suc.prems by simp
    moreover have "[k..<k + Suc n] = k # [Suc k..<Suc k + n]"
      by (simp add: upt_conv_Cons del: upt_Suc)
    ultimately show ?thesis by (simp add: u del: upt_Suc)
  qed
qed

definition tx_fresh :: "VirtNetif \<Rightarrow> bool" where
  "tx_fresh nic \<longleftrightarrow> tx nic = zero_vring 32 \<and> length (vq (nic_dev nic)) = 2 \<and> qsz (txq nic) = VIRTQ_TX_QSZ \<and>
     q_last (txq nic) = 0 \<and> length (tbufRec nic) = 32"

lemma InitTxFreelist_inv:
  assumes "tx_fresh nic"
  shows "\<exists>nic'. InitTxFreelist E nic t = Some (sys_hdf E t OsalSpinInit [nic_addr nic], nic', Call OsalSpinInit [nic_addr nic] # t) \<and>
    tx_inv nic' {#} \<and> done_heads nic' = [] \<and> avail_index (tx nic') = 0 \<and> nic_dev nic' = nic_dev nic \<and>
    nic_addr nic' = nic_addr nic \<and> rx nic' = rx nic \<and> rbuf nic' = rbuf nic \<and> tbufRec nic' = tbufRec nic"
proof -
  let ?r = "zero_vring 32"
  have "length (descs ?r) = 32" by (simp add: zero_vring_def)
  then obtain ds where ds: "init_free_loop 0 31 ?r = Some (?r\<lparr>descs := ds\<rparr>)" "length ds = 32"
    "\<forall>j < 32. ds ! j = (if j < 31 then (descs ?r ! j)\<lparr>d_flag := VIRTQ_DESC_F_NEXT, d_next := of_nat (j + 1)\<rparr> else descs ?r ! j)"
    using init_free_loop_spec [of 0 31 ?r] by auto
  let ?n = "nic\<lparr>tx := ?r\<lparr>descs := ds\<rparr>, tFreeHdr := 0, tFreeNum := 32\<rparr>"
  have r: "InitTxFreelist E nic t = Some (sys_hdf E t OsalSpinInit [nic_addr nic], ?n, Call OsalSpinInit [nic_addr nic] # t)"
    using assms ds(1) by (simp add: InitTxFreelist_def tx_fresh_def kstatus_def)
  have tab: "tx_table ds"
    unfolding tx_table_def
  proof (intro conjI ballI allI impI)
    fix i :: nat assume "i < 32"
    then show "d_flag (ds ! i) \<in> {0, VIRTQ_DESC_F_NEXT}" using ds(3) by (simp add: zero_vring_def)
  next
    fix h assume "h \<in> set tx_heads"
    note h = tx_headsD [OF this]
    then show "d_next (ds ! unat h) = h + 1" "d_flag (ds ! unat h) = VIRTQ_DESC_F_NEXT" using ds(3) by simp_all
  qed (rule ds(2))
  have "free_heads ds 16 0 = tx_heads"
    using free_heads_chain [of ds 0 16] ds(3) by (simp add: tx_heads_def)
  then have "tx_inv ?n {#}"
    using assms tab ds(2) by (simp add: tx_inv_def tx_fresh_def txq_def vring_ok_def zero_vring_def)
  moreover have "done_heads ?n = []"
    using assms by (simp add: done_heads_def tx_fresh_def txq_def zero_vring_def)
  ultimately show ?thesis
    using r by (intro exI [of _ ?n]) (simp add: zero_vring_def)
qed

inductive tx_reachable :: "env \<Rightarrow> net_abi \<Rightarrow> tx_sys \<Rightarrow> bool" for E A where
  start: "\<lbrakk> tx_fresh nic; InitTxFreelist E nic t = Some (HDF_SUCCESS, nic', t'); calls_of NetBufFree t = [] \<rbrakk> \<Longrightarrow>
    tx_reachable E A \<lparr>snic = nic', seen = 0, taken = [], strace = t', flight = [], sent = []\<rparr>"
| step: "\<lbrakk> tx_reachable E A s; tx_step E A s s' \<rbrakk> \<Longrightarrow> tx_reachable E A s'"

lemma tx_reachable_inv: "tx_reachable E A s \<Longrightarrow> tx_sys_inv s"
proof (induction rule: tx_reachable.induct)
  case (start nic t nic' t')
  then show ?case
    using InitTxFreelist_inv [of nic E t] by (auto simp: tx_sys_inv_def pending_heads_def freed_def)
next
  case (step s s')
  from step.hyps(2) step.IH show ?case
    by (cases rule: tx_step.cases) (simp_all add: tx_send_inv tx_take_inv tx_complete_inv tx_irq_inv)
qed

subsection \<open>Reception\<close>

definition rx_ok :: "net_abi \<Rightarrow> VirtNetif \<Rightarrow> bool" where
  "rx_ok A nic \<longleftrightarrow> length (vq (nic_dev nic)) = 2 \<and> qsz (rxq nic) = VIRTQ_RX_QSZ \<and> vring_ok 16 (rx nic) \<and>
     length (rbuf nic) = 16 \<and> (\<forall>row \<in> set (rbuf nic). length row = PER_RXBUF_SIZE A) \<and> ETH_FRAME_LEN A < 65536"

definition entry_ok :: "net_abi \<Rightarrow> VirtqUsedElem \<Rightarrow> bool" where
  "entry_ok A e \<longleftrightarrow> unat (ue_id e) < 16 \<and> 12 \<le> unat (ue_len e) \<and> unat (ue_len e) \<le> PER_RXBUF_SIZE A"

definition rx_entries :: "VirtNetif \<Rightarrow> VirtqUsedElem list" where
  "rx_entries nic = ring_view (used_ring (rx nic)) 16 (q_last (rxq nic)) (used_index (rx nic))"

definition quiet :: "used_update \<Rightarrow> bool" where
  "quiet dma \<longleftrightarrow> (\<forall>t r. dma t r = (used_flag r, used_index r, used_ring r))"

text \<open>What is to happen with one received entry: a NetBuf of exactly the payload's length, filled with
  the payload, handed upstream, and freed when upstream refuses it; the packet is dropped when there is
  no NetBuf.\<close>

definition payload :: "VirtNetif \<Rightarrow> VirtqUsedElem \<Rightarrow> u8 list" where
  "payload nic e = take (unat (ue_len e) - 12) (drop 12 (rbuf nic ! unat (ue_id e)))"

definition deliver :: "env \<Rightarrow> u32 \<Rightarrow> VirtNetif \<Rightarrow> VirtqUsedElem \<Rightarrow> trace \<Rightarrow> trace" where
  "deliver E nd nic e t =
     (let n = of_nat (length (payload nic e));
          nb = sys_ret E t NetBufDevAlloc [nd, n];
          t = Call NetBufDevAlloc [nd, n] # t in
      if nb = 0 then t else
      let p = sys_ret E t NetBufPush [nb, n];
          t = Call memcpy_s (p # map ucast (payload nic e)) # Call NetBufPush [nb, n] # t;
          ret = sys_ret E t NetIfRx [nd, nb];
          t = Call NetIfRx [nd, nb] # t
      in if ret \<noteq> 0 then Call NetBufFree [nb] # t else t)"

lemma ucast_len: "n < 65536 \<Longrightarrow> (ucast (of_nat n :: u16) :: u32) = of_nat n"
  by (simp add: word_unat_eq_iff unsigned_ucast_eq unat_of_nat take_bit_nat_eq_self)

lemma LowLevelInput_deliver:
  assumes ok: "rx_ok A nic" and e: "entry_ok A e"
  shows "(do { (nb, t) \<leftarrow> LowLevelInput E nic nd e t;
        Some (if nb \<noteq> 0 then
                (let (ret, t) = kcall E NetIfRx [nd, nb] t
                 in if ret \<noteq> 0 then kproc NetBufFree [nb] t else t)
              else t) }) = Some (deliver E nd nic e t)"
proof -
  let ?n = "unat (ue_len e) - 12"
  have i: "unat (ue_id e) < length (rbuf nic)" and row: "length (rbuf nic ! unat (ue_id e)) = PER_RXBUF_SIZE A"
    using ok e by (simp_all add: rx_ok_def entry_ok_def)
  have n: "?n < 65536" "12 + ?n \<le> length (rbuf nic ! unat (ue_id e))"
    using ok e row by (auto simp: rx_ok_def entry_ok_def PER_RXBUF_SIZE_def)
  have len: "(ucast (ue_len e - 12) :: u16) = of_nat ?n"
  proof -
    have "unat (ue_len e - 12) = ?n" using e by (simp add: entry_ok_def unat_sub word_le_nat_alt)
    then show ?thesis using n(1) by (simp add: word_unat_eq_iff unsigned_ucast_eq unat_of_nat take_bit_nat_def)
  qed
  have un: "unat (of_nat ?n :: u16) = ?n" using n(1) by (simp add: unat_of_nat)
  have pl: "length (payload nic e) = ?n" using n(2) by (simp add: payload_def)
  show ?thesis
    using i n(2) by (simp add: LowLevelInput_def deliver_def len un ucast_len [OF n(1)] pl kcall_def kproc_def Let_def
        payload_def [symmetric] not_less [symmetric] del: of_nat_diff)
qed


lemma rxq_set_last [simp]:
  "length (vq (nic_dev nic)) = 2 \<Longrightarrow> rxq (set_last 0 l nic) = (rxq nic)\<lparr>q_last := l\<rparr>"
  "rxq (nic\<lparr>rx := r\<rparr>) = rxq nic"
  by (auto simp: set_last_def rxq_def)

lemma rx_one_deliver:
  assumes ok: "rx_ok A nic" and es: "rx_entries nic = e # es" and e: "entry_ok A e" and sz: "length es < 16"
  shows "rx_one E nd nic add t = Some (set_last 0 (q_last (rxq nic) + 1) (nic\<lparr>rx := (rx nic)\<lparr>avail_ring :=
      (avail_ring (rx nic))[(unat (avail_index (rx nic)) + unat add) mod 16 := ucast (ue_id e)]\<rparr>\<rparr>), add + 1,
      deliver E nd nic e t)"
    and "q_last (rxq nic) \<noteq> used_index (rx nic)"
    and "ring_view (used_ring (rx nic)) 16 (q_last (rxq nic) + 1) (used_index (rx nic)) = es"
proof -
  show ne: "q_last (rxq nic) \<noteq> used_index (rx nic)" using es by (auto simp: rx_entries_def)
  have "unat (used_index (rx nic) - q_last (rxq nic)) \<le> 16"
    using arg_cong [OF es, of length] sz by (simp add: rx_entries_def)
  note v = ring16.view_get [OF ne this, of "used_ring (rx nic)"]
  then show "ring_view (used_ring (rx nic)) 16 (q_last (rxq nic) + 1) (used_index (rx nic)) = es"
    using es by (simp add: rx_entries_def)
  have len: "length (used_ring (rx nic)) = 16" "length (avail_ring (rx nic)) = 16" and q: "qsz (rxq nic) = 16"
    using ok vring_okD [of 16 "rx nic"] by (simp_all add: rx_ok_def)
  have "used_get (qsz (rxq nic)) (q_last (rxq nic)) (rx nic) = Some e"
    using es v by (simp add: used_get_in q len rx_entries_def)
  moreover obtain nb t1 where l: "LowLevelInput E nic nd e t = Some (nb, t1)"
    using LowLevelInput_deliver [OF ok e, of E nd t] by (auto split: Option.bind_splits)
  ultimately show "rx_one E nd nic add t = Some (set_last 0 (q_last (rxq nic) + 1) (nic\<lparr>rx := (rx nic)\<lparr>avail_ring :=
      (avail_ring (rx nic))[(unat (avail_index (rx nic)) + unat add) mod 16 := ucast (ue_id e)]\<rparr>\<rparr>), add + 1,
      deliver E nd nic e t)"
    using LowLevelInput_deliver [OF ok e, of E nd t] by (simp add: rx_one_def avail_put_in q len)
qed

lemma deliver_cong:
  assumes "rbuf nic' = rbuf nic"
  shows "deliver E nd nic' = deliver E nd nic"
proof (intro ext)
  fix e t
  have "payload nic' e = payload nic e" by (simp only: payload_def assms)
  then show "deliver E nd nic' e t = deliver E nd nic e t" by (simp only: deliver_def)
qed

lemma rx_loop_delivers:
  assumes dma: "quiet dma"
  shows "rx_entries nic = es \<Longrightarrow> rx_ok A nic \<Longrightarrow> \<forall>e \<in> set es. entry_ok A e \<Longrightarrow> unat add + length es \<le> 16 \<Longrightarrow>
    \<exists>nic'. rx_loop E dma nd nic add t = Some (nic', add + of_nat (length es), fold (deliver E nd nic) es t) \<and>
      rx_ok A nic' \<and> rx_entries nic' = [] \<and> rx nic' = (rx nic)\<lparr>avail_flag := 0, avail_ring := avail_ring (rx nic')\<rparr> \<and>
      tx nic' = tx nic \<and> txq nic' = txq nic \<and> rbuf nic' = rbuf nic \<and> base (nic_dev nic') = base (nic_dev nic) \<and>
      ring_view (avail_ring (rx nic')) 16 (avail_index (rx nic)) (avail_index (rx nic) + (add + of_nat (length es)))
        = ring_view (avail_ring (rx nic)) 16 (avail_index (rx nic)) (avail_index (rx nic) + add) @ map (\<lambda>e. ucast (ue_id e)) es"
proof (induction es arbitrary: nic add t)
  case Nil
  then have e: "q_last (rxq nic) = used_index (rx nic)"
    by (simp add: rx_entries_def ring_view_def) (simp add: unat_eq_zero)
  have d: "device_wrote dma t r = r" for r using dma by (simp add: device_wrote_def quiet_def)
  let ?n = "nic\<lparr>rx := (rx nic)\<lparr>avail_flag := 0\<rparr>\<rparr>"
  have "rx_loop E dma nd nic add t = Some (?n, add, t)"
    by (subst rx_loop.simps) (simp add: e d Let_def)
  then show ?case
    using Nil e by (intro exI [of _ ?n]) (simp add: rx_ok_def vring_ok_def rx_entries_def txq_def)
next
  case (Cons e es)
  have e: "entry_ok A e" and sz: "length es < 16" using Cons.prems by auto
  note one = rx_one_deliver [OF Cons.prems(2,1) e sz]
  let ?r = "(avail_ring (rx nic))[(unat (avail_index (rx nic)) + unat add) mod 16 := ucast (ue_id e)]"
  let ?n = "set_last 0 (q_last (rxq nic) + 1) (nic\<lparr>rx := (rx nic)\<lparr>avail_ring := ?r\<rparr>\<rparr>)"
  have len: "length (vq (nic_dev nic)) = 2" "length (avail_ring (rx nic)) = 16"
    using Cons.prems(2) vring_okD(2) [of 16 "rx nic"] by (simp_all add: rx_ok_def)
  have es: "rx_entries ?n = es" using one(3) len by (simp add: rx_entries_def)
  have ok: "rx_ok A ?n" using Cons.prems(2) by (simp add: rx_ok_def vring_ok_def)
  have a1: "unat (add + 1) = Suc (unat add)" using Cons.prems(4) by (simp add: unat_word_ariths)
  have bound: "unat (add + 1) + length es \<le> 16" using Cons.prems(4) a1 by simp
  have eok: "\<forall>e \<in> set es. entry_ok A e" using Cons.prems(3) by simp
  obtain nic' where n': "rx_loop E dma nd ?n (add + 1) (deliver E nd nic e t) =
        Some (nic', add + 1 + of_nat (length es), fold (deliver E nd ?n) es (deliver E nd nic e t))"
      "rx_ok A nic'" "rx_entries nic' = []" "rx nic' = (rx ?n)\<lparr>avail_flag := 0, avail_ring := avail_ring (rx nic')\<rparr>"
      "tx nic' = tx ?n" "txq nic' = txq ?n" "rbuf nic' = rbuf ?n" "base (nic_dev nic') = base (nic_dev ?n)"
      "ring_view (avail_ring (rx nic')) 16 (avail_index (rx ?n)) (avail_index (rx ?n) + (add + 1 + of_nat (length es)))
        = ring_view (avail_ring (rx ?n)) 16 (avail_index (rx ?n)) (avail_index (rx ?n) + (add + 1)) @ map (\<lambda>e. ucast (ue_id e)) es"
    using Cons.IH [OF es ok eok bound, of "deliver E nd nic e t"] by (elim exE conjE) (rule that)
  have f: "deliver E nd ?n = deliver E nd nic"
    by (rule deliver_cong) simp
  have "ring_view ?r 16 (avail_index (rx nic)) (avail_index (rx nic) + add + 1) =
      ring_view (avail_ring (rx nic)) 16 (avail_index (rx nic)) (avail_index (rx nic) + add) @ [ucast (ue_id e)]"
    using ring16.view_put [OF len(2), of "avail_index (rx nic) + add" "avail_index (rx nic)" "ucast (ue_id e)"]
      ring16.slot_wrap [of "avail_index (rx nic)" "unat add"] Cons.prems(4) by simp
  moreover have "rx_loop E dma nd nic add t = rx_loop E dma nd ?n (add + 1) (deliver E nd nic e t)"
    using one(2) by (subst rx_loop.simps) (simp add: one(1))
  moreover have "txq ?n = txq nic" using len(1) by (simp add: set_last_def txq_def)
  ultimately show ?case
    using n' f by (intro exI [of _ nic']) (simp add: add_ac)
qed

subsection \<open>Initialisation\<close>

interpretation net_features: virtio_driver "Net_Feature0 A config" "Net_Feature1" for A config
proof (rule virtio_driverI)
  show "honest_callback (Net_Feature0 A config)"
  proof
    fix F p s t ok sp s'
    assume "Net_Feature0 A config F p s t = (ok, sp, s')"
    then have c: "sp = p \<or> F AND 8 \<noteq> 0 \<and> sp = p OR 8 \<or> F AND 0x20 \<noteq> 0 \<and> sp = p OR 0x20 \<or>
        F AND 8 \<noteq> 0 \<and> F AND 0x20 \<noteq> 0 \<and> sp = p OR 8 OR 0x20"
      by (auto simp: Net_Feature0_def Let_def or.assoc split: if_splits)
    have mac: "F AND 0x20 \<noteq> 0 \<Longrightarrow> 0x20 AND NOT F = 0" by (rule offered_bit [of _ _ 5]) simp_all
    have mtu: "F AND 8 \<noteq> 0 \<Longrightarrow> 8 AND NOT F = 0" by (rule offered_bit [of _ _ 3]) simp_all
    have both: "(8 OR 0x20) AND NOT F = 0" if "F AND 8 \<noteq> 0" "F AND 0x20 \<noteq> 0"
    proof -
      have "(a OR b) AND NOT F = (a AND NOT F) OR (b AND NOT F)" for a b :: u32
        by (rule bit_word_eqI) (auto simp: bit_simps)
      with mac mtu that show ?thesis by (metis or.left_neutral)
    qed
    from c show "sp AND NOT (F OR p) = 0"
      by (elim disjE conjE) (simp_all only: none_offered or_offered [OF mac] or_offered [OF mtu] or_offered [OF both] not_False_eq_True or.assoc)
  qed
qed (simp add: Net_Feature1_def)

lemma net_featuresD:
  "Net_Feature0 A config F p s t = (ok, sp, s') \<Longrightarrow> nd_priv s' = nd_priv s \<and> nd_addr s' = nd_addr s"
  "Net_Feature1 F p s t = (ok, sp, s') \<Longrightarrow> s' = s"
  by (auto simp: Net_Feature0_def Net_Feature1_def Let_def split: if_splits)

lemma net_negotiate_step:
  assumes "VirtmmioNegotiate E dev (Net_Feature0 A config) Net_Feature1 s t = Some (ok, s', t')"
  shows "nd_priv s' = nd_priv s \<and> nd_addr s' = nd_addr s \<and> kcalls t' = kcalls t"
proof -
  have "nd_priv s' = nd_priv s \<and> nd_addr s' = nd_addr s"
    by (rule VirtmmioNegotiate_keeps [OF assms, where Q = "\<lambda>x. nd_priv x = nd_priv s \<and> nd_addr x = nd_addr s"])
      (auto dest: net_featuresD)
  then show ?thesis using VirtmmioNegotiate_calls [OF assms] by blast
qed

lemma populate_rx_loop_spec:
  "i + n \<le> length (descs r) \<Longrightarrow> length (avail_ring r) = length (descs r) \<Longrightarrow>
   \<exists>ds av. populate_rx_loop E A a i n r = Some (r\<lparr>descs := ds, avail_ring := av\<rparr>) \<and>
     length ds = length (descs r) \<and> length av = length (descs r) \<and>
     (\<forall>j < length ds. ds ! j = (if i \<le> j \<and> j < i + n then (descs r ! j)\<lparr>
           pAddr := VMM_TO_DMA_ADDR E (ucast (a + offsetof_rbuf A + of_nat (j * PER_RXBUF_SIZE A))),
           d_len := of_nat (PER_RXBUF_SIZE A), d_flag := VIRTQ_DESC_F_WRITE\<rparr> else descs r ! j)) \<and>
     (\<forall>j < length ds. av ! j = (if i \<le> j \<and> j < i + n then of_nat j else avail_ring r ! j))"
proof (induction n arbitrary: i r)
  case 0
  then show ?case by (intro exI [of _ "descs r"] exI [of _ "avail_ring r"]) auto
next
  case (Suc n)
  let ?r = "r\<lparr>descs := (descs r)[i := (descs r ! i)\<lparr>
      pAddr := VMM_TO_DMA_ADDR E (ucast (a + offsetof_rbuf A + of_nat (i * PER_RXBUF_SIZE A))),
      d_len := of_nat (PER_RXBUF_SIZE A), d_flag := VIRTQ_DESC_F_WRITE\<rparr>], avail_ring := (avail_ring r)[i := of_nat i]\<rparr>"
  have "i + 1 + n \<le> length (descs ?r)" "length (avail_ring ?r) = length (descs ?r)" using Suc.prems by simp_all
  from Suc.IH [OF this] obtain ds av where "populate_rx_loop E A a (i + 1) n ?r = Some (?r\<lparr>descs := ds, avail_ring := av\<rparr>)"
    "length ds = length (descs r)" "length av = length (descs r)"
    "\<forall>j < length ds. ds ! j = (if i + 1 \<le> j \<and> j < i + 1 + n then (descs ?r ! j)\<lparr>
           pAddr := VMM_TO_DMA_ADDR E (ucast (a + offsetof_rbuf A + of_nat (j * PER_RXBUF_SIZE A))),
           d_len := of_nat (PER_RXBUF_SIZE A), d_flag := VIRTQ_DESC_F_WRITE\<rparr> else descs ?r ! j)"
    "\<forall>j < length ds. av ! j = (if i + 1 \<le> j \<and> j < i + 1 + n then of_nat j else avail_ring ?r ! j)"
    by auto
  then show ?case
    using Suc.prems by (intro exI [of _ ds] exI [of _ av])
      (auto simp: desc_upd_in nth_list_update not_less_eq_eq dest: le_antisym)
qed

text \<open>Every receive descriptor points to its own buffer and is on the available ring.\<close>

definition rx_buffers_posted :: "env \<Rightarrow> net_abi \<Rightarrow> VirtNetif \<Rightarrow> bool" where
  "rx_buffers_posted E A nic \<longleftrightarrow> (\<forall>j < 16. avail_ring (rx nic) ! j = of_nat j \<and>
     device_chain (rx nic) (of_nat j) = Some [(VMM_TO_DMA_ADDR E (ucast (nic_addr nic + offsetof_rbuf A + of_nat (j * PER_RXBUF_SIZE A))),
        of_nat (PER_RXBUF_SIZE A), True)])"

lemma PopulateRxBuffer_posts:
  assumes "rx nic = zero_vring 16" and "qsz (rxq nic) = VIRTQ_RX_QSZ"
  shows "\<exists>nic'. PopulateRxBuffer E A nic = Some nic' \<and> rx_buffers_posted E A nic' \<and> vring_ok 16 (rx nic') \<and>
    nic' = nic\<lparr>rx := rx nic'\<rparr>"
proof -
  have l: "0 + 16 \<le> length (descs (rx nic))" "length (avail_ring (rx nic)) = length (descs (rx nic))"
    using assms(1) by (simp_all add: zero_vring_def)
  obtain ds av where p: "populate_rx_loop E A (nic_addr nic) 0 16 (rx nic) = Some ((rx nic)\<lparr>descs := ds, avail_ring := av\<rparr>)"
    and len: "length ds = 16" "length av = 16"
    and d: "\<forall>j < 16. ds ! j = (descs (rx nic) ! j)\<lparr>
           pAddr := VMM_TO_DMA_ADDR E (ucast (nic_addr nic + offsetof_rbuf A + of_nat (j * PER_RXBUF_SIZE A))),
           d_len := of_nat (PER_RXBUF_SIZE A), d_flag := VIRTQ_DESC_F_WRITE\<rparr>"
    and a: "\<forall>j < 16. av ! j = of_nat j"
    using populate_rx_loop_spec [OF l, of E A "nic_addr nic"] assms(1) by (auto simp: zero_vring_def)
  let ?n = "nic\<lparr>rx := (rx nic)\<lparr>descs := ds, avail_ring := av\<rparr>\<rparr>"
  have "rx_buffers_posted E A ?n"
    unfolding rx_buffers_posted_def
  proof (intro allI impI conjI)
    fix j :: nat assume j: "j < 16"
    have u: "unat (of_nat j :: u16) = j" using j by (simp add: unat_of_nat)
    show "avail_ring (rx ?n) ! j = of_nat j" using a j by simp
    show "device_chain (rx ?n) (of_nat j) = Some [(VMM_TO_DMA_ADDR E (ucast (nic_addr ?n + offsetof_rbuf A + of_nat (j * PER_RXBUF_SIZE A))),
        of_nat (PER_RXBUF_SIZE A), True)]"
      using d j len by (simp add: device_chain_def u)
  qed
  moreover have "PopulateRxBuffer E A nic = Some ?n" using p assms(2) by (simp add: PopulateRxBuffer_def)
  moreover have "vring_ok 16 (rx ?n)" using len assms(1) by (simp add: vring_ok_def zero_vring_def)
  ultimately show ?thesis by (intro exI [of _ ?n]) simp
qed

lemma config_two_queues:
  assumes "VirtmmioConfigQueue E dev va [n0, n1] 2 t = Some (va', dev', t')" and "va' \<noteq> 0" and "length (vq dev) = 2"
  shows "qsz (vq dev' ! 0) = n0" and "qsz (vq dev' ! 1) = n1"
    and "q_last (vq dev' ! 0) = q_last (vq dev ! 0)" and "q_last (vq dev' ! 1) = q_last (vq dev ! 1)"
  using assms
  by (auto simp: VirtmmioConfigQueue_def CalculateQueueAddr_def Let_def numeral_2_eq_2 nth_list_update
      split: Option.bind_splits if_splits)

lemma PopulateRxBuffer_step:
  "PopulateRxBuffer E A nic = Some nic' \<Longrightarrow> nic_addr nic' = nic_addr nic \<and> nic_dev nic' = nic_dev nic"
  by (auto simp: PopulateRxBuffer_def split: Option.bind_splits)

lemma InitTxFreelist_step:
  "InitTxFreelist E nic t = Some (ret, nic', t') \<Longrightarrow> nic_addr nic' = nic_addr nic \<and> nic_dev nic' = nic_dev nic \<and>
     rx nic' = rx nic \<and> t' = Call OsalSpinInit [nic_addr nic] # t"
  by (auto simp: InitTxFreelist_def kstatus_def Let_def split: Option.bind_splits)

text \<open>What \<open>ConfigQueue\<close> makes of a cleared struct.\<close>

lemma Net_ConfigQueue_step:
  assumes "Net_ConfigQueue E A nic t = Some (ret, nic', t')"
  shows "nic_addr nic' = nic_addr nic \<and> (length (vq (nic_dev nic)) = 2 \<longrightarrow>
    irq (nic_dev nic') = irq (nic_dev nic) \<and> (kcalls t' = kcalls t \<or> kcalls t' = Call OsalSpinInit [nic_addr nic] # kcalls t))"
  using assms
  by (auto simp: Net_ConfigQueue_def Let_def split: Option.bind_splits if_splits
      dest!: config_queue_step PopulateRxBuffer_step InitTxFreelist_step)

lemma Net_ConfigQueue_success:
  assumes c: "Net_ConfigQueue E A (zero_VirtNetif A a\<lparr>nic_dev := dev\<rparr>) t = Some (HDF_SUCCESS, nic', t')"
    and dev: "vq dev = vq (nic_dev (zero_VirtNetif A a))" and eth: "ETH_FRAME_LEN A < 65536"
  shows "tx_inv nic' {#} \<and> rx_ok A nic' \<and> rx_buffers_posted E A nic' \<and> done_heads nic' = [] \<and> avail_index (tx nic') = 0 \<and>
    rx_entries nic' = []"
proof -
  let ?n = "zero_VirtNetif A a\<lparr>nic_dev := dev\<rparr>"
  from c obtain va dev' t1 nic1 where q: "VirtmmioConfigQueue E dev (ALIGN E (a + sizeof_VirtNetif A) 16)
        [VIRTQ_RX_QSZ, VIRTQ_TX_QSZ] 2 t = Some (va, dev', t1)" "va \<noteq> 0"
    and p: "PopulateRxBuffer E A (?n\<lparr>nic_dev := dev'\<rparr>) = Some nic1"
    and f: "InitTxFreelist E nic1 t1 = Some (HDF_SUCCESS, nic', t')"
    by (auto simp: Net_ConfigQueue_def Let_def zero_VirtNetif_def split: Option.bind_splits if_splits)
  have l: "length (vq dev) = 2" using dev by (simp add: zero_VirtNetif_def)
  note cq = config_two_queues [OF q l] and fr = config_queue_step [OF q(1)]
  have l': "length (vq dev') = 2" using fr l by simp
  have last: "q_last (vq dev' ! 0) = 0" "q_last (vq dev' ! 1) = 0"
    using cq(3,4) dev by (simp_all add: zero_VirtNetif_def)
  have px: "rx_buffers_posted E A nic1" "vring_ok 16 (rx nic1)" "nic1 = ?n\<lparr>nic_dev := dev', rx := rx nic1\<rparr>"
    using PopulateRxBuffer_posts [of "?n\<lparr>nic_dev := dev'\<rparr>" E A] p cq(1) by (auto simp: zero_VirtNetif_def rxq_def)
  have nd: "nic_dev nic1 = dev'" "rbuf nic1 = rbuf (zero_VirtNetif A a)" "tx nic1 = tx (zero_VirtNetif A a)"
    "tbufRec nic1 = tbufRec (zero_VirtNetif A a)" by (subst px(3), simp)+
  have fresh: "tx_fresh nic1"
    using nd cq(2) l' last(2) by (simp add: tx_fresh_def txq_def zero_VirtNetif_def)
  have i: "tx_inv nic' {#}" "done_heads nic' = []" "avail_index (tx nic') = 0" "nic_dev nic' = nic_dev nic1"
    "nic_addr nic' = nic_addr nic1" "rx nic' = rx nic1" "rbuf nic' = rbuf nic1"
    using InitTxFreelist_inv [OF fresh, of E t1] f by auto
  have "rx_ok A nic'"
    using px(2) l' cq(1) i eth nd by (simp add: rx_ok_def rxq_def zero_VirtNetif_def)
  moreover have "rx_buffers_posted E A nic'" using px(1) i by (simp add: rx_buffers_posted_def)
  moreover have "rx_entries nic' = []"
  proof -
    have "populate_rx_loop E A a i n r = Some r' \<Longrightarrow> used_index r' = used_index r" for i n r r'
      by (induction n arbitrary: i r) (auto simp: desc_upd_def split: Option.bind_splits)
    then have "used_index (rx nic1) = 0"
      using p by (auto simp: PopulateRxBuffer_def zero_VirtNetif_def zero_vring_def split: Option.bind_splits)
    then show ?thesis using i nd last(1) by (simp add: rx_entries_def rxq_def)
  qed
  ultimately show ?thesis using i by simp
qed

lemmas net_init_steps = discover_step init_begin_step net_negotiate_step Net_ConfigQueue_step

lemma zero_VirtNetif_simps [simp]:
  "nic_addr (zero_VirtNetif A a) = a" "length (vq (nic_dev (zero_VirtNetif A a))) = 2"
  by (simp_all add: zero_VirtNetif_def)

text \<open>The memory after \<open>VirtnetInit\<close>, whatever its outcome: never freed, and attached to the net device
  when it was allocated.\<close>

lemma VirtnetInit_memory:
  assumes "VirtnetInit E A config netDev t = Some (ret, nd', t')"
    and "len = sizeof_VirtNetif A + VirtqSize E VIRTQ_RX_QSZ + VirtqSize E VIRTQ_TX_QSZ"
    and "p = sys_ret E t LOS_DmaMemAlloc [len]"
  shows "calls_of LOS_DmaMemFree t' = calls_of LOS_DmaMemFree t \<and> nd_addr nd' = nd_addr netDev \<and>
    (if p = 0 then ret = HDF_ERR_MALLOC_FAIL \<and> nd' = netDev
     else \<exists>nic. nd_priv nd' = Some nic \<and> nic_addr nic = p)"
  using assms
  by (auto simp: VirtnetInit_def kcall_def kstatus_def Let_def net_err_out_def calls_of_def
      split: Option.bind_splits if_splits prod.splits dest!: net_init_steps)

lemma VirtnetInit_success:
  assumes "VirtnetInit E A config netDev t = Some (HDF_SUCCESS, nd', t')" and "ETH_FRAME_LEN A < 65536"
  shows "\<exists>nic. nd_priv nd' = Some nic \<and> tx_inv nic {#} \<and> rx_ok A nic \<and> rx_buffers_posted E A nic \<and>
    done_heads nic = [] \<and> avail_index (tx nic) = 0 \<and> irq (nic_dev nic) AND NOT IRQ_MASK \<noteq> 0"
proof -
  let ?p = "sys_ret E t LOS_DmaMemAlloc [sizeof_VirtNetif A + VirtqSize E VIRTQ_RX_QSZ + VirtqSize E VIRTQ_TX_QSZ]"
  from assms(1) obtain dev t1 nic t2 nic0 where
    d: "VirtmmioDiscover E VIRTMMIO_DEVICE_ID_NET (nic_dev (zero_VirtNetif A ?p))
        (Call LOS_DmaMemAlloc [sizeof_VirtNetif A + VirtqSize E VIRTQ_RX_QSZ + VirtqSize E VIRTQ_TX_QSZ] # t) = (True, dev, t1)"
    and c: "Net_ConfigQueue E A (zero_VirtNetif A ?p\<lparr>nic_dev := dev\<rparr>) t2 = Some (HDF_SUCCESS, nic0, nic)"
    and n: "nd_priv nd' = Some (nic0\<lparr>nic_dev := (nic_dev nic0)\<lparr>irq := irq (nic_dev nic0) OR NOT IRQ_MASK\<rparr>\<rparr>)"
    by (auto simp: VirtnetInit_def kcall_def kstatus_def Let_def net_err_out_def
        split: Option.bind_splits if_splits prod.splits)
  have "vq dev = vq (nic_dev (zero_VirtNetif A ?p))" using discover_step [OF d] by simp
  note s = Net_ConfigQueue_success [OF c this assms(2)]
  then show ?thesis
    by (intro exI [of _ "nic0\<lparr>nic_dev := (nic_dev nic0)\<lparr>irq := irq (nic_dev nic0) OR NOT IRQ_MASK\<rparr>\<rparr>"])
      (simp add: n irq_flag [simplified] tx_inv_def txq_def rx_ok_def rxq_def rx_buffers_posted_def done_heads_def)
qed

subsection \<open>Properties of the network driver\<close>

definition example_net :: net_abi where
  "example_net = \<lparr>sizeof_VirtNetif = 26000, offsetof_rbuf = 200, offsetof_vnHdr = 25000, ETH_FRAME_LEN = 1514,
     WLAN_MAX_MTU = 2304, WLAN_MIN_MTU = 68, DEFAULT_MTU = 1500, MAC_ADDR_SIZE = 6\<rparr>"

definition example_nic :: VirtNetif where
  "example_nic = (zero_VirtNetif example_net 0x10000)\<lparr>nic_dev := \<lparr>base = 0x0A003E00, irq = 79,
     vq = [\<lparr>qsz = 16, q_last = 0, q_desc = 0, q_avail = 0, q_used = 0\<rparr>, \<lparr>qsz = 32, q_last = 0, q_desc = 0, q_avail = 0, q_used = 0\<rparr>]\<rparr>\<rparr>"

lemma example_nic_fresh: "tx_fresh example_nic"
  by (simp add: tx_fresh_def example_nic_def zero_VirtNetif_def txq_def)

lemma example_nic_started:
  "\<exists>nic. InitTxFreelist (example_env p) example_nic [] = Some (HDF_SUCCESS, nic, [Call OsalSpinInit [nic_addr example_nic]]) \<and>
     tx_inv nic {#}"
  using InitTxFreelist_inv [OF example_nic_fresh, of "example_env p" "[]"] by auto

text \<open>C2. Sending a packet. With two free descriptors, \<open>LowLevelOutput\<close> returns, having put on the
  available ring the head of a chain that is exactly the virtio header followed by the packet's data,
  remembered the NetBuf, freed nothing, and notified the device unless the device asked not to be; the
  packets already in flight keep their descriptors.\<close>

theorem LowLevelOutput_sends_packet:
  assumes "tx_inv nic B" and "PER_TX_ENTRIES \<le> tFreeNum nic"
  shows "\<exists>nic' t'. LowLevelOutput E A others nic p t = Some (nic', t') \<and>
    tx_inv nic' (add_mset (tFreeHdr nic) B) \<and> tx_frame nic nic' B \<and>
    tbufRec nic' ! unat (tFreeHdr nic + 1) = p \<and>
    avail_ring (tx nic') = (avail_ring (tx nic))[unat (avail_index (tx nic)) mod 32 := tFreeHdr nic] \<and>
    avail_index (tx nic') = avail_index (tx nic) + 1 \<and>
    device_chain (tx nic') (tFreeHdr nic) = Some (packet_chain E A nic p t) \<and>
    calls_of NetBufFree t' = calls_of NetBufFree t \<and>
    writes_of t' = writes_of t @ (if used_flag (tx nic) \<noteq> VIRTQ_USED_F_NO_NOTIFY
      then [(base (nic_dev nic) + VIRTMMIO_REG_QUEUENOTIFY, 1)] else [])"
  using LowLevelOutput_inv [OF assms, of E A others p t] by blast

lemma LowLevelOutput_sends_packet_witness:
  "\<exists>nic nic' t'. tx_inv nic {#} \<and>
     LowLevelOutput (example_env (\<lambda>_. 0)) example_net (\<lambda>n t. (n, t)) nic 7 [] = Some (nic', t') \<and>
     tx_inv nic' {#tFreeHdr nic#}"
proof -
  obtain nic where n: "tx_inv nic {#}" using example_nic_started by blast
  obtain m where "unat (tFreeNum nic) = 2 * m" "mset (free_heads (descs (tx nic)) m (tFreeHdr nic)) = mset tx_heads"
    using n by (auto simp: tx_inv_def)
  moreover from arg_cong [OF this(2), of size] have "m = 16" by (simp add: tx_heads_eq)
  ultimately have "PER_TX_ENTRIES \<le> tFreeNum nic" by (simp add: word_le_nat_alt)
  from LowLevelOutput_sends_packet [OF n this, of "example_env (\<lambda>_. 0)" example_net "\<lambda>n t. (n, t)" 7 "[]"] n
  show ?thesis by blast
qed

text \<open>C1. Ownership of the outgoing packets. In every state that driver, device and interrupt can
  reach, in any order of sending, taking, completing and handling: each NetBuf handed to the driver has
  been freed exactly once or is in flight; the packets in flight occupy distinct descriptor pairs, each
  of which is waiting, taken by the device or completed; and the chain of each is still the one that was
  sent.\<close>

theorem virtnet_tx_frees_once:
  assumes "tx_reachable E A s"
  shows "mset (freed s) + mset (map (fst \<circ> snd) (flight s)) = mset (sent s) \<and>
    mset (map fst (flight s)) = mset (pending_heads s) + mset (taken s) + mset (done_heads (snic s)) \<and>
    distinct (map fst (flight s)) \<and> length (flight s) \<le> 16 \<and>
    (\<forall>(h, p, c) \<in> set (flight s). tbufRec (snic s) ! unat (h + 1) = p \<and> device_chain (tx (snic s)) h = c \<and> c \<noteq> None)"
proof -
  have inv: "tx_sys_inv s" using assms by (rule tx_reachable_inv)
  let ?B = "mset (pending_heads s) + mset (taken s) + mset (done_heads (snic s))"
  have i: "tx_inv (snic s) ?B" and fl: "mset (map fst (flight s)) = ?B"
    using inv by (simp_all only: tx_sys_inv_def)
  obtain F where "mset F + ?B = mset tx_heads" using i by (auto simp: tx_inv_def)
  then have "mset (F @ map fst (flight s)) = mset tx_heads" by (simp only: mset_append fl)
  then have "distinct (F @ map fst (flight s))" using tx_heads_distinct by (metis mset_eq_imp_distinct_iff)
  moreover have "length (flight s) \<le> 16"
    using tx_inv_busy(2) [OF i] fl by (metis length_map size_mset)
  ultimately show ?thesis using inv by (simp only: tx_sys_inv_def) simp
qed

lemma example_tx_start:
  "\<exists>s. tx_reachable (example_env (\<lambda>_. 0)) example_net s \<and> sent s = [] \<and> PER_TX_ENTRIES \<le> tFreeNum (snic s)"
proof -
  obtain nic where n: "InitTxFreelist (example_env (\<lambda>_. 0)) example_nic [] =
      Some (HDF_SUCCESS, nic, [Call OsalSpinInit [nic_addr example_nic]])"
    using example_nic_started by blast
  have "tFreeNum nic = 32"
    using n by (auto simp: InitTxFreelist_def Let_def example_nic_def txq_def kstatus_def split: Option.bind_splits)
  then show ?thesis
    using tx_reachable.start [OF example_nic_fresh n] by (intro exI conjI) auto
qed

lemma example_tx_sent:
  "\<exists>s. tx_reachable (example_env (\<lambda>_. 0)) example_net s \<and> sent s = [7]"
proof -
  let ?E = "example_env (\<lambda>_. 0)"
  obtain s where s: "tx_reachable ?E example_net s" "sent s = []" "PER_TX_ENTRIES \<le> tFreeNum (snic s)"
    using example_tx_start by blast
  have "tx_inv (snic s) (mset (pending_heads s) + mset (taken s) + mset (done_heads (snic s)))"
    using tx_reachable_inv [OF s(1)] by (simp add: tx_sys_inv_def)
  then obtain nic t where "LowLevelOutput ?E example_net (\<lambda>n t. (n, t)) (snic s) 7 (strace s) = Some (nic, t)"
    using LowLevelOutput_inv [OF _ s(3)] by blast
  from tx_reachable.step [OF s(1) tx_step.send [OF s(3) this]] s(2) show ?thesis by (intro exI conjI) auto
qed

lemma virtnet_tx_frees_once_witness:
  "\<exists>s. sent s = [7] \<and> mset (freed s) + mset (map (fst \<circ> snd) (flight s)) = {#7#} \<and>
     tx_reachable (example_env (\<lambda>_. 0)) example_net s"
  using example_tx_sent virtnet_tx_frees_once by fastforce

text \<open>C3. The transmit interrupt makes progress. In every reachable state \<open>VirtnetTxHandle\<close> ends,
  leaves no completed entry unhandled, frees the NetBufs of the completed packets in the order of their
  completion, and the driver then has two free descriptors for every pair the device does not hold.\<close>

theorem VirtnetTxHandle_reclaims:
  assumes "tx_reachable E A s"
  shows "\<exists>nic' t'. VirtnetTxHandle (snic s) (strace s) = Some (nic', t') \<and> done_heads nic' = [] \<and>
    t' = rev (map (\<lambda>h. Call NetBufFree [tbufRec (snic s) ! unat (h + 1)]) (done_heads (snic s))) @ strace s \<and>
    unat (tFreeNum nic') = 32 - 2 * (length (pending_heads s) + length (taken s))"
proof -
  let ?B = "mset (pending_heads s) + mset (taken s)"
  have "tx_inv (snic s) (mset (done_heads (snic s)) + ?B)"
    using tx_reachable_inv [OF assms] by (simp add: tx_sys_inv_def add_ac)
  from VirtnetTxHandle_inv [OF this, of "strace s"] obtain nic' where r:
    "VirtnetTxHandle (snic s) (strace s) =
      Some (nic', rev (map (\<lambda>h. Call NetBufFree [tbufRec (snic s) ! unat (h + 1)]) (done_heads (snic s))) @ strace s)"
    "tx_inv nic' ?B" "done_heads nic' = []"
    by blast
  from r(2) obtain m where "unat (tFreeNum nic') = 2 * m"
    "mset (free_heads (descs (tx nic')) m (tFreeHdr nic')) + ?B = mset tx_heads"
    by (auto simp: tx_inv_def)
  moreover from arg_cong [OF this(2), of size] have "m + (length (pending_heads s) + length (taken s)) = 16"
    by (simp add: tx_heads_eq)
  ultimately show ?thesis using r by (intro exI conjI) (assumption | simp)+
qed

lemma VirtnetTxHandle_reclaims_witness:
  "\<exists>s nic' t'. tx_reachable (example_env (\<lambda>_. 0)) example_net s \<and> sent s = [7] \<and>
     VirtnetTxHandle (snic s) (strace s) = Some (nic', t') \<and> done_heads nic' = []"
proof -
  obtain s where s: "tx_reachable (example_env (\<lambda>_. 0)) example_net s" "sent s = [7]" using example_tx_sent by blast
  from VirtnetTxHandle_reclaims [OF s(1)] s show ?thesis by blast
qed




text \<open>C10. The memory of the network device. Whatever happens in \<open>VirtNetDeviceInit\<close>, after the
  framework's \<open>VirtNetDeviceDeInit\<close> the DMA block has been freed exactly once if it was allocated, and
  the net device no longer refers to it.\<close>

theorem VirtNetDevice_memory_balanced:
  assumes "VirtNetDeviceInit E A config ia up netDev t = Some (ret, nd1, t1)"
    and "VirtNetDeviceDeInit E nd1 t1 = (ret', nd2, t2)" and "nd_priv netDev = None"
    and "len = sizeof_VirtNetif A + VirtqSize E VIRTQ_RX_QSZ + VirtqSize E VIRTQ_TX_QSZ"
    and "p = sys_ret E t LOS_DmaMemAlloc [len]"
  shows "calls_of LOS_DmaMemFree t2 = calls_of LOS_DmaMemFree t @ (if p = 0 then [] else [[p]]) \<and> nd_priv nd2 = None"
proof -
  obtain ret0 nd0 t0 where i: "VirtnetInit E A config netDev t = Some (ret0, nd0, t0)"
    using assms(1) by (auto simp: VirtNetDeviceInit_def split: Option.bind_splits)
  note m = VirtnetInit_memory [OF i assms(4,5)]
  show ?thesis
  proof (cases "p = 0")
    case True
    with m i assms(1,2,3) show ?thesis
      by (auto simp: VirtNetDeviceInit_def VirtNetDeviceDeInit_def kproc_def kstatus_def Let_def)
  next
    case False
    with m obtain nic where n: "nd_priv nd0 = Some nic" "nic_addr nic = p" by auto
    with m i assms(1,2) False show ?thesis
      by (auto simp: VirtNetDeviceInit_def VirtNetDeviceDeInit_def VirtNetDeviceInitDone_def VirtnetDeInit_def
          kproc_def kstatus_def kcall_def WRITE_UINT32_eq Let_def split: if_splits)
  qed
qed

definition example_netdev :: NetDevice where
  "example_netdev = \<lparr>nd_addr = 9, nd_mtu = 0, macAddr = replicate 6 0, addrLen = 0, nd_priv = None, nd_running = False\<rparr>"

lemma VirtNetDevice_memory_balanced_witness:
  "\<exists>nd1 t1. VirtNetDeviceInit (example_env (\<lambda>_. 0)) example_net (\<lambda>t a. \<lparr>cf_mac = replicate 6 1, cf_mtu = 1500\<rparr>) (\<lambda>s. 0) 1
      example_netdev [] = Some (HDF_DEV_ERR_NO_DEVICE, nd1, t1) \<and>
     calls_of LOS_DmaMemFree (snd (snd (VirtNetDeviceDeInit (example_env (\<lambda>_. 0)) nd1 t1))) = [[0x1000]]"
proof -
  let ?E = "example_env (\<lambda>_. 0)" and ?c = "\<lambda>t a :: u32. \<lparr>cf_mac = replicate 6 1, cf_mtu = 1500\<rparr>"
  obtain nd1 t1 where i: "VirtNetDeviceInit ?E example_net ?c (\<lambda>s. 0) 1 example_netdev [] = Some (HDF_DEV_ERR_NO_DEVICE, nd1, t1)"
    by (simp add: VirtNetDeviceInit_def VirtnetInit_def io_defs Let_def VirtmmioDiscover_def slot_matches_def
        discover_loop.simps(2) [of _ _ "pred_numeral n" for n, folded numeral_eq_Suc])
  obtain r nd2 t2 where d: "VirtNetDeviceDeInit ?E nd1 t1 = (r, nd2, t2)" by (rule prod_cases3)
  show ?thesis
    using VirtNetDevice_memory_balanced [OF i d _ refl refl] i d by (simp add: example_netdev_def)
qed

text \<open>The queues after a successful initialisation: every receive descriptor points to a buffer of
  its own that the device may write and is on the available ring, all 32 transmit descriptors are on the
  free list, nothing is in flight, and the interrupt is marked as registered.\<close>

theorem VirtnetInit_establishes_queues:
  assumes "VirtnetInit E A config netDev t = Some (HDF_SUCCESS, nd', t')" and "ETH_FRAME_LEN A < 65536"
  shows "\<exists>nic. nd_priv nd' = Some nic \<and> tx_inv nic {#} \<and> rx_ok A nic \<and> rx_buffers_posted E A nic \<and>
    done_heads nic = [] \<and> avail_index (tx nic) = 0 \<and> irq (nic_dev nic) AND NOT IRQ_MASK \<noteq> 0"
  using assms by (rule VirtnetInit_success)

definition inet_ok :: "(string \<Rightarrow> u32) \<Rightarrow> bool" where
  "inet_ok ia \<longleftrightarrow> ia ''255.255.255.0'' = 0x00FFFFFF \<and> ia ''10.0.2.2'' = 0x0202000A"

lemma guest_host_byte_ok: "guest_host_byte l < 256 \<and> guest_host_byte l \<notin> {0, 2, 255}"
proof -
  have m: "l AND 0xFF \<le> 0xFF" by (rule word_and_le1)
  then show ?thesis
    by (auto simp: guest_host_byte_def Let_def word_le_nat_alt word_less_nat_alt word_unat_eq_iff unat_sub unat_word_ariths)
qed

lemma guest_ip_parts:
  fixes b :: u32
  assumes "b < 256"
  shows "(0x0002000A OR push_bit 24 b) AND 0x00FFFFFF = (0x0002000A :: u32)"
    and "drop_bit 24 (0x0002000A OR push_bit 24 b) = b"
proof -
  have m: "(0x00FFFFFF :: u32) = mask 24" by (simp add: mask_eq_exp_minus_1)
  have "push_bit 24 b AND mask 24 = 0" by (rule bit_word_eqI) (simp add: bit_simps)
  moreover have "(x OR y) AND z = (x AND z) OR (y AND z)" for x y z :: u32
    by (rule bit_word_eqI) (auto simp: bit_simps)
  ultimately show "(0x0002000A OR push_bit 24 b) AND 0x00FFFFFF = (0x0002000A :: u32)"
    using m by simp
  have b8: "take_bit 8 b = b"
    using assms by (simp add: word_unat_eq_iff unsigned_take_bit_eq take_bit_nat_eq_self word_less_nat_alt)
  have "drop_bit 24 (push_bit 24 b) = take_bit 8 b"
    by (rule bit_word_eqI) (auto simp: bit_simps)
  then show "drop_bit 24 (0x0002000A OR push_bit 24 b) = b"
    using b8 by (simp add: drop_bit_or)
qed

text \<open>The guest address. With the C library's \<open>inet_addr\<close> (network byte order), the address that
  \<open>VirtNetDeviceInitDone\<close> gives the interface lies in the subnet of the gateway and is neither the
  network, the gateway nor the broadcast address, for every value of the cycle counter.\<close>

theorem VirtNetDeviceInitDone_address:
  assumes "inet_ok ia" and "sys_hdf E t NetIfSetStatus [nd_addr netDev, up] = HDF_SUCCESS"
  shows "\<exists>ip u. snd (VirtNetDeviceInitDone E ia up netDev t) = Call NetIfSetAddr [nd_addr netDev, ip, 0x00FFFFFF, 0x0202000A] # u \<and>
    ip AND 0x00FFFFFF = 0x0202000A AND 0x00FFFFFF \<and> drop_bit 24 ip \<notin> {0, 2, 255}"
proof -
  let ?l = "sys_ret E (Call NetIfSetStatus [nd_addr netDev, up] # t) LOS_GetCpuCycle []"
  let ?ip = "0x0002000A OR push_bit 24 (guest_host_byte ?l) :: u32"
  note b = guest_host_byte_ok [of ?l]
  then have p: "?ip AND 0x00FFFFFF = 0x0002000A" "drop_bit 24 ?ip = guest_host_byte ?l"
    using guest_ip_parts [of "guest_host_byte ?l"] by simp_all
  have "drop_bit 24 ?ip \<notin> {0, 2, 255}" unfolding p(2) using b by simp
  moreover have "snd (VirtNetDeviceInitDone E ia up netDev t) = Call NetIfSetAddr [nd_addr netDev, ?ip, 0x00FFFFFF, 0x0202000A] #
      Call LOS_GetCpuCycle [] # Call NetIfSetStatus [nd_addr netDev, up] # t"
    using assms by (simp add: VirtNetDeviceInitDone_def inet_ok_def kstatus_def kcall_def Let_def)
  ultimately show ?thesis
    using p(1) by (intro exI conjI) (assumption | simp)+
qed

lemma VirtNetDeviceInitDone_address_witness:
  "\<exists>ip u. snd (VirtNetDeviceInitDone (example_env (\<lambda>_. 0)) (\<lambda>s. if s = ''10.0.2.2'' then 0x0202000A else 0x00FFFFFF) 1 example_netdev [])
      = Call NetIfSetAddr [9, ip, 0x00FFFFFF, 0x0202000A] # u \<and> drop_bit 24 ip \<notin> {0, 2, 255}"
  using VirtNetDeviceInitDone_address [of "\<lambda>s. if s = ''10.0.2.2'' then 0x0202000A else 0x00FFFFFF" "example_env (\<lambda>_. 0)" "[]" example_netdev 1]
  by (auto simp: inet_ok_def example_netdev_def)

lemmas loop_numerals = populate_rx_loop.simps(2) [of _ _ _ _ "pred_numeral n" for n, folded numeral_eq_Suc]
  init_free_loop.simps(2) [of _ "pred_numeral n" for n, folded numeral_eq_Suc]
  copy_bytes.simps(2) [of _ _ "pred_numeral n" for n, folded numeral_eq_Suc]

lemma example_netdev_init:
  "\<exists>nd' t'. VirtnetInit (example_env2 VIRTMMIO_DEVICE_ID_NET 0x21) example_net
      (\<lambda>t a. \<lparr>cf_mac = replicate 6 1, cf_mtu = 1500\<rparr>) example_netdev [] = Some (HDF_SUCCESS, nd', t')"
  by (simp add: VirtnetInit_def io_defs Let_def example_discover2_now VirtmmioInitBegin_def VirtioResetStatus_def
      wait_driver_now driver_seen_def example_preset_def VirtmmioNegotiate_def Negotiate_def negotiate_loop.simps
      Net_Feature0_def Net_Feature1_def example_net_def VirtmmioConfigQueue_def CalculateQueueAddr_def
      CompleteConfigQueue_def WriteQueueAddr_def zero_VirtNetif_def PopulateRxBuffer_def ring_defs zero_vring_def
      align_example_def VritmmioInitEnd_def example_netdev_def Net_ConfigQueue_def InitTxFreelist_def rxq_def txq_def
      loop_numerals desc_upd_def aupd_def)

lemma VirtnetInit_establishes_queues_witness:
  "\<exists>nd' t' nic. VirtnetInit (example_env2 VIRTMMIO_DEVICE_ID_NET 0x21) example_net
      (\<lambda>t a. \<lparr>cf_mac = replicate 6 1, cf_mtu = 1500\<rparr>) example_netdev [] = Some (HDF_SUCCESS, nd', t') \<and>
     nd_priv nd' = Some nic \<and> tx_inv nic {#}"
proof -
  obtain nd' t' where i: "VirtnetInit (example_env2 VIRTMMIO_DEVICE_ID_NET 0x21) example_net
      (\<lambda>t a. \<lparr>cf_mac = replicate 6 1, cf_mtu = 1500\<rparr>) example_netdev [] = Some (HDF_SUCCESS, nd', t')"
    using example_netdev_init by blast
  show ?thesis using VirtnetInit_establishes_queues [OF i] i by (auto simp: example_net_def)
qed

lemma copy_bytes_eq:
  "n \<le> length src \<Longrightarrow> n \<le> length dst \<Longrightarrow> copy_bytes dst src n = Some (take n src @ drop n dst)"
  by (induction n) (auto simp: take_Suc_conv_app_nth list_update_append Cons_nth_drop_Suc [symmetric])

text \<open>The fake card's address operations round-trip: after \<open>FakeWalSetMacAddr\<close> with at least
  \<open>addrLen\<close> bytes, \<open>FakeWalGetDeviceMacAddr\<close> returns these bytes and leaves the rest of the caller's
  buffer.\<close>

theorem FakeWal_mac_roundtrip:
  assumes "addrLen netDev \<le> length (macAddr netDev)" and "unat len \<le> length mac" and "unat len \<le> length buf"
    and "addrLen netDev \<le> unat len"
  shows "\<exists>nd'. FakeWalSetMacAddr netDev mac len = Some (HDF_SUCCESS, nd') \<and>
    FakeWalGetDeviceMacAddr nd' buf len = Some (HDF_SUCCESS, take (addrLen netDev) mac @ drop (addrLen netDev) buf)"
  using assms by (simp add: FakeWalSetMacAddr_def FakeWalGetDeviceMacAddr_def copy_bytes_eq min_absorb2)

lemma FakeWal_mac_roundtrip_witness:
  "\<exists>nd'. FakeWalSetMacAddr (example_netdev\<lparr>addrLen := 6\<rparr>) [1, 2, 3, 4, 5, 6] 6 = Some (HDF_SUCCESS, nd') \<and>
     FakeWalGetDeviceMacAddr nd' [0, 0, 0, 0, 0, 0] 6 = Some (HDF_SUCCESS, [1, 2, 3, 4, 5, 6])"
  using FakeWal_mac_roundtrip [of "example_netdev\<lparr>addrLen := 6\<rparr>" 6 "[1, 2, 3, 4, 5, 6]" "[0, 0, 0, 0, 0, 0]"]
  by (simp add: example_netdev_def)

end
