(* ===== verification/Virtgpu.thy ===== *)
theory Virtgpu
  imports Virtq
begin

text \<open>
  The graphics device, \<open>drivers/virtio/virtgpu.c\<close>: synchronous commands during initialisation, then a
  timer that keeps pushing the frame buffer to the host.

  \<open>Virtgpu\<close> is the C struct together with the memory of its two queues. It lives in a DMA block that
  \<open>VirtgpuInitDev\<close> does not clear, so the block's first contents are a parameter (\<open>gw_block\<close>), and it
  is reached through the global pointer and through HDF's \<open>priv\<close>: \<open>heap\<close> maps the addresses of live
  blocks to their contents, and a dereference of anything else is \<open>None\<close>. The list \<open>sent\<close> records, for
  every request the driver makes available to the device, the queue, the request in memory and the
  descriptor chain the device finds at that moment. The device's answers are parameters: the used
  index and the response buffer it shows at each poll.
\<close>

subsection \<open>Data\<close>

record VirtgpuCtrlHdr =
  h_type :: u32
  h_flags :: u32
  fenceId :: u64
  ctxId :: u32
  h_padding :: u32

record VirtgpuRect =
  r_x :: u32
  r_y :: u32
  r_width :: u32
  r_height :: u32

record VirtgpuResourceFlush =
  fl_hdr :: VirtgpuCtrlHdr
  fl_r :: VirtgpuRect
  fl_resourceId :: u32
  fl_padding :: u32

record VirtgpuTransferToHost2D =
  tr_hdr :: VirtgpuCtrlHdr
  tr_r :: VirtgpuRect
  tr_offset :: u64
  tr_resourceId :: u32
  tr_padding :: u32

record VirtgpuGetEdid =
  ge_hdr :: VirtgpuCtrlHdr
  ge_scanout :: u32
  ge_padding :: u32

record VirtgpuResourceCreate2D =
  cr_hdr :: VirtgpuCtrlHdr
  cr_resourceId :: u32
  cr_format :: u32
  cr_width :: u32
  cr_height :: u32

record VirtgpuSetScanout =
  so_hdr :: VirtgpuCtrlHdr
  so_r :: VirtgpuRect
  so_scanoutId :: u32
  so_resourceId :: u32

record VirtgpuResourceAttachBacking =
  ab_hdr :: VirtgpuCtrlHdr
  ab_resourceId :: u32
  nrEntries :: u32

record VirtgpuMemEntry =
  me_addr :: u64
  me_length :: u32
  me_padding :: u32

record VirtgpuMode =
  pm_r :: VirtgpuRect
  pm_enabled :: u32
  pm_flags :: u32

text \<open>The response buffer; only \<open>VIRTIO_GPU_CMD_GET_DISPLAY_INFO\<close> has more than a header the driver
  looks at.\<close>

record VirtgpuRespDisplayInfo =
  di_hdr :: VirtgpuCtrlHdr
  pmodes :: "VirtgpuMode list"

datatype gpu_req =
    ReqHdr VirtgpuCtrlHdr
  | ReqEdid VirtgpuGetEdid
  | ReqCreate2D VirtgpuResourceCreate2D
  | ReqScanout VirtgpuSetScanout
  | ReqTransfer VirtgpuTransferToHost2D
  | ReqFlush VirtgpuResourceFlush
  | ReqAttach VirtgpuResourceAttachBacking VirtgpuMemEntry

fun req_hdr :: "gpu_req \<Rightarrow> VirtgpuCtrlHdr" where
  "req_hdr (ReqHdr h) = h"
| "req_hdr (ReqEdid r) = ge_hdr r"
| "req_hdr (ReqCreate2D r) = cr_hdr r"
| "req_hdr (ReqScanout r) = so_hdr r"
| "req_hdr (ReqTransfer r) = tr_hdr r"
| "req_hdr (ReqFlush r) = fl_hdr r"
| "req_hdr (ReqAttach r _) = ab_hdr r"

text \<open>\<open>sizeof\<close> of the request structs.\<close>

fun req_size :: "gpu_req \<Rightarrow> u32" where
  "req_size (ReqHdr _) = 24"
| "req_size (ReqEdid _) = 32"
| "req_size (ReqCreate2D _) = 40"
| "req_size (ReqScanout _) = 48"
| "req_size (ReqTransfer _) = 56"
| "req_size (ReqFlush _) = 48"
| "req_size (ReqAttach _ _) = 32"

record Virtgpu =
  gpu_dev :: VirtmmioDev
  gpu_rings :: "vring list"
  realTimer :: u32
  screen :: VirtgpuRect
  gpu_fb :: u32
  edid :: bool
  flushReq :: VirtgpuResourceFlush
  transReq :: VirtgpuTransferToHost2D

record gpu_state =
  heap :: "u32 \<Rightarrow> Virtgpu option"
  g_virtGpu :: u32
  sent :: "(u32 \<times> gpu_req \<times> (u64 \<times> u32 \<times> bool) list option) list"
  hist :: trace

text \<open>What lies outside the file: the contents of a fresh DMA block, where the requests, their data
  and their responses lie on the kernel stack, what the device shows at the \<open>k\<close>-th poll, the handle a
  created timer gets, the layout of the struct, which contains a kernel timer, and constants of the
  framework's headers.\<close>

record gpu_world =
  gw_block :: "u32 \<Rightarrow> Virtgpu"
  gw_stack :: "gpu_req \<Rightarrow> u32 \<times> u32 \<times> u32"
  gw_used :: "u32 \<Rightarrow> gpu_req \<Rightarrow> trace \<Rightarrow> nat \<Rightarrow> u16"
  gw_resp :: "gpu_req \<Rightarrow> trace \<Rightarrow> nat \<Rightarrow> VirtgpuRespDisplayInfo"
  gw_timer :: "trace \<Rightarrow> u32"
  SIZEOF_Virtgpu :: u32
  OFF_timer :: u32
  OFF_flushReq :: u32
  OFF_transReq :: u32
  OFF_resp :: u32
  FB_FMT_RGB32 :: u32
  fb_coord_t :: "u32 \<Rightarrow> u32"
  VM_MAP_REGION_FLAG_PERM_EXECUTE :: u32
  VM_MAP_REGION_FLAG_UNCACHED :: u32

abbreviation (input) VIRTIO_GPU_F_EDID :: u32 where "VIRTIO_GPU_F_EDID \<equiv> 2"
abbreviation (input) VIRTQ_CONTROL_QSZ :: u16 where "VIRTQ_CONTROL_QSZ \<equiv> 4"
abbreviation (input) VIRTQ_CURSOR_QSZ :: u16 where "VIRTQ_CURSOR_QSZ \<equiv> 2"
abbreviation (input) NORMAL_CMD_ENTRIES :: u16 where "NORMAL_CMD_ENTRIES \<equiv> 2"
abbreviation (input) FB_WIDTH_DFT :: u32 where "FB_WIDTH_DFT \<equiv> 800"
abbreviation (input) FB_HEIGHT_DFT :: u32 where "FB_HEIGHT_DFT \<equiv> 480"
abbreviation (input) GPU_DFT_RATE :: u32 where "GPU_DFT_RATE \<equiv> 33"
abbreviation (input) PIXEL_BYTES :: u32 where "PIXEL_BYTES \<equiv> 4"
abbreviation (input) BYTE_BITS :: u32 where "BYTE_BITS \<equiv> 8"
abbreviation (input) PAGE_SIZE :: u32 where "PAGE_SIZE \<equiv> 0x1000"
abbreviation (input) PAGE_SHIFT :: nat where "PAGE_SHIFT \<equiv> 12"
abbreviation (input) RESOURCEID_FB :: u32 where "RESOURCEID_FB \<equiv> 1"
abbreviation (input) VIRTIO_GPU_CMD_GET_DISPLAY_INFO :: u32 where "VIRTIO_GPU_CMD_GET_DISPLAY_INFO \<equiv> 0x100"
abbreviation (input) VIRTIO_GPU_CMD_RESOURCE_CREATE_2D :: u32 where "VIRTIO_GPU_CMD_RESOURCE_CREATE_2D \<equiv> 0x101"
abbreviation (input) VIRTIO_GPU_CMD_SET_SCANOUT :: u32 where "VIRTIO_GPU_CMD_SET_SCANOUT \<equiv> 0x103"
abbreviation (input) VIRTIO_GPU_CMD_RESOURCE_FLUSH :: u32 where "VIRTIO_GPU_CMD_RESOURCE_FLUSH \<equiv> 0x104"
abbreviation (input) VIRTIO_GPU_CMD_TRANSFER_TO_HOST_2D :: u32 where "VIRTIO_GPU_CMD_TRANSFER_TO_HOST_2D \<equiv> 0x105"
abbreviation (input) VIRTIO_GPU_CMD_RESOURCE_ATTACH_BACKING :: u32 where "VIRTIO_GPU_CMD_RESOURCE_ATTACH_BACKING \<equiv> 0x106"
abbreviation (input) VIRTIO_GPU_CMD_GET_EDID :: u32 where "VIRTIO_GPU_CMD_GET_EDID \<equiv> 0x10A"
abbreviation (input) VIRTIO_GPU_RESP_OK_NODATA :: u32 where "VIRTIO_GPU_RESP_OK_NODATA \<equiv> 0x1100"
abbreviation (input) VIRTIO_GPU_RESP_OK_EDID :: u32 where "VIRTIO_GPU_RESP_OK_EDID \<equiv> 0x1104"
abbreviation (input) VIRTIO_GPU_FORMAT_R8G8B8A8_UNORM :: u32 where "VIRTIO_GPU_FORMAT_R8G8B8A8_UNORM \<equiv> 67"
abbreviation (input) VIRTIO_GPU_FLAG_FENCE :: u32 where "VIRTIO_GPU_FLAG_FENCE \<equiv> 1"
abbreviation (input) SIZEOF_VirtgpuCtrlHdr :: u32 where "SIZEOF_VirtgpuCtrlHdr \<equiv> 24"
abbreviation (input) SIZEOF_VirtgpuRespDisplayInfo :: u32 where "SIZEOF_VirtgpuRespDisplayInfo \<equiv> 408"
abbreviation (input) SIZEOF_VirtgpuRespEdid :: u32 where "SIZEOF_VirtgpuRespEdid \<equiv> 1056"

definition ErrString :: "u32 \<Rightarrow> string" where
  "ErrString err =
     (if err = 0x1200 then ''unspec''
      else if err = 0x1201 then ''out of memory''
      else if err = 0x1202 then ''invalid scanout ID''
      else if err = 0x1203 then ''invalid resource ID''
      else if err = 0x1204 then ''invalid context ID''
      else if err = 0x1205 then ''invalid parameter''
      else ''unknown error'')"

text \<open>The structure behind the global pointer.\<close>

definition the_gpu :: "gpu_state \<Rightarrow> Virtgpu option" where
  "the_gpu s = heap s (g_virtGpu s)"

definition set_gpu :: "Virtgpu \<Rightarrow> gpu_state \<Rightarrow> gpu_state" where
  "set_gpu gpu s = s\<lparr>heap := (heap s)(g_virtGpu s \<mapsto> gpu)\<rparr>"

subsection \<open>Feature callbacks\<close>

definition Gpu_Feature0 :: "u32 \<Rightarrow> u32 \<Rightarrow> Virtgpu \<Rightarrow> trace \<Rightarrow> bool \<times> u32 \<times> Virtgpu" where
  "Gpu_Feature0 features supported gpu t =
     (if features AND VIRTIO_GPU_F_EDID \<noteq> 0
      then (True, supported OR VIRTIO_GPU_F_EDID, gpu\<lparr>edid := True\<rparr>)
      else (True, supported, gpu))"

definition Gpu_Feature1 :: "u32 \<Rightarrow> u32 \<Rightarrow> Virtgpu \<Rightarrow> trace \<Rightarrow> bool \<times> u32 \<times> Virtgpu" where
  "Gpu_Feature1 features supported gpu t =
     (if features AND VIRTIO_F_VERSION_1 \<noteq> 0 then (True, supported OR VIRTIO_F_VERSION_1, gpu)
      else (False, supported, gpu))"

subsection \<open>Requests\<close>

text \<open>The wait for the response; the result is the number of the poll that ended it.\<close>

partial_function (option) spin_response ::
  "gpu_world \<Rightarrow> u32 \<Rightarrow> gpu_req \<Rightarrow> u16 \<Rightarrow> trace \<Rightarrow> nat \<Rightarrow> nat option" where
  "spin_response W queue req lst t k =
     (let a = req_hdr req; b = di_hdr (gw_resp W req t k)
      in if lst = gw_used W queue req t k \<or>
            (h_flags a = VIRTIO_GPU_FLAG_FENCE \<and> fenceId a \<noteq> fenceId b)
         then spin_response W queue req lst t (k + 1) else Some k)"

text \<open>The queue's struct and memory, and their update.\<close>

definition get_queue :: "Virtgpu \<Rightarrow> nat \<Rightarrow> (Virtq \<times> vring) option" where
  "get_queue gpu n = do { q \<leftarrow> aget (vq (gpu_dev gpu)) n; r \<leftarrow> aget (gpu_rings gpu) n; Some (q, r) }"

definition set_queue :: "nat \<Rightarrow> Virtq \<Rightarrow> vring \<Rightarrow> Virtgpu \<Rightarrow> Virtgpu" where
  "set_queue n q r gpu = gpu\<lparr>gpu_dev := (gpu_dev gpu)\<lparr>vq := (vq (gpu_dev gpu))[n := q]\<rparr>,
     gpu_rings := (gpu_rings gpu)[n := r]\<rparr>"

definition NotifyAndWaitResponse ::
  "gpu_world \<Rightarrow> u32 \<Rightarrow> gpu_req \<Rightarrow> gpu_state \<Rightarrow> (bool \<times> VirtgpuRespDisplayInfo \<times> gpu_state) option" where
  "NotifyAndWaitResponse W queue req s = do {
     gpu \<leftarrow> the_gpu s;
     (q, r) \<leftarrow> get_queue gpu (unat queue);
     r \<leftarrow> avail_put (qsz q) (unat (avail_index r)) 0 r;
     let r = avail_add 1 r;
     let t = WRITE_UINT32 queue (base (gpu_dev gpu) + VIRTMMIO_REG_QUEUENOTIFY) (hist s);
     k \<leftarrow> spin_response W queue req (q_last q) t 0;
     let q = q\<lparr>q_last := q_last q + 1\<rparr>;
     let s = (set_gpu (set_queue (unat queue) q (r\<lparr>used_index := gw_used W queue req t k\<rparr>) gpu) s)
               \<lparr>sent := sent s @ [(queue, req, device_chain r 0)], hist := t\<rparr>;
     let b = gw_resp W req t k;
     if h_type (di_hdr b) < VIRTIO_GPU_RESP_OK_NODATA \<or> h_type (di_hdr b) > VIRTIO_GPU_RESP_OK_EDID
     then Some (False, b, s) else Some (True, b, s)
   }"

definition RequestResponse ::
  "env \<Rightarrow> gpu_world \<Rightarrow> u32 \<Rightarrow> gpu_req \<Rightarrow> u32 \<Rightarrow> gpu_state
     \<Rightarrow> (bool \<times> VirtgpuRespDisplayInfo \<times> gpu_state) option" where
  "RequestResponse E W queue req respSize s = do {
     gpu \<leftarrow> the_gpu s;
     (q, r) \<leftarrow> get_queue gpu (unat queue);
     let (reqp, respp, _) = gw_stack W req;
     r \<leftarrow> desc_upd 0 (\<lambda>d. d\<lparr>pAddr := VMM_TO_DMA_ADDR E (ucast reqp), d_len := req_size req,
            d_flag := VIRTQ_DESC_F_NEXT, d_next := 1\<rparr>) r;
     r \<leftarrow> desc_upd 1 (\<lambda>d. d\<lparr>pAddr := VMM_TO_DMA_ADDR E (ucast respp), d_len := respSize,
            d_flag := VIRTQ_DESC_F_WRITE\<rparr>) r;
     NotifyAndWaitResponse W queue req (set_gpu (set_queue (unat queue) q r gpu) s)
   }"

definition RequestDataResponse ::
  "env \<Rightarrow> gpu_world \<Rightarrow> gpu_req \<Rightarrow> u32 \<Rightarrow> u32 \<Rightarrow> gpu_state
     \<Rightarrow> (bool \<times> VirtgpuRespDisplayInfo \<times> gpu_state) option" where
  "RequestDataResponse E W req dataSize respSize s = do {
     gpu \<leftarrow> the_gpu s;
     (q, r) \<leftarrow> get_queue gpu 0;
     let (reqp, respp, datap) = gw_stack W req;
     r \<leftarrow> desc_upd 0 (\<lambda>d. d\<lparr>pAddr := VMM_TO_DMA_ADDR E (ucast reqp), d_len := req_size req,
            d_flag := VIRTQ_DESC_F_NEXT, d_next := 1\<rparr>) r;
     r \<leftarrow> desc_upd 1 (\<lambda>d. d\<lparr>pAddr := VMM_TO_DMA_ADDR E (ucast datap), d_len := dataSize,
            d_flag := VIRTQ_DESC_F_NEXT, d_next := 2\<rparr>) r;
     r \<leftarrow> desc_upd 2 (\<lambda>d. d\<lparr>pAddr := VMM_TO_DMA_ADDR E (ucast respp), d_len := respSize,
            d_flag := VIRTQ_DESC_F_WRITE\<rparr>) r;
     NotifyAndWaitResponse W 0 req (set_gpu (set_queue 0 q r gpu) s)
   }"

text \<open>\<open>abs(avail->index - used->index)\<close>, on the promoted integers.\<close>

definition index_distance :: "u16 \<Rightarrow> u16 \<Rightarrow> int" where
  "index_distance a u = \<bar>uint a - uint u\<bar>"

text \<open>A request of the refresh timer lies in the struct at offset \<open>off\<close>.\<close>

definition RequestNoResponse ::
  "env \<Rightarrow> u32 \<Rightarrow> gpu_req \<Rightarrow> u32 \<Rightarrow> bool \<Rightarrow> gpu_state \<Rightarrow> gpu_state option" where
  "RequestNoResponse E queue req off notify s = do {
     gpu \<leftarrow> the_gpu s;
     (q, r) \<leftarrow> get_queue gpu (unat queue);
     head \<leftarrow> ring_slot (unat (q_last q)) (qsz q);
     if index_distance (avail_index r) (used_index r) \<ge> uint VIRTQ_CONTROL_QSZ then Some s else do {
       r \<leftarrow> desc_upd head (\<lambda>d. d\<lparr>pAddr := VMM_TO_DMA_ADDR E (ucast (g_virtGpu s + off)),
              d_len := req_size req\<rparr>) r;
       let q = q\<lparr>q_last := q_last q + NORMAL_CMD_ENTRIES\<rparr>;
       r \<leftarrow> avail_put (qsz q) (unat (avail_index r)) (of_nat head) r;
       let r = avail_add 1 r;
       let t = (if notify then WRITE_UINT32 queue (base (gpu_dev gpu) + VIRTMMIO_REG_QUEUENOTIFY) (hist s)
                else hist s);
       Some ((set_gpu (set_queue (unat queue) q r gpu) s)
               \<lparr>sent := sent s @ [(queue, req, device_chain r (of_nat head))], hist := t\<rparr>)
     }
   }"

subsection \<open>Commands\<close>

definition cmd_hdr :: "u32 \<Rightarrow> VirtgpuCtrlHdr" where
  "cmd_hdr ty = \<lparr>h_type = ty, h_flags = 0, fenceId = 0, ctxId = 0, h_padding = 0\<rparr>"

definition set_screen :: "VirtgpuRect \<Rightarrow> gpu_state \<Rightarrow> gpu_state option" where
  "set_screen r s = do { gpu \<leftarrow> the_gpu s; Some (set_gpu (gpu\<lparr>screen := r\<rparr>) s) }"

definition CMDGetDisplayInfo :: "env \<Rightarrow> gpu_world \<Rightarrow> gpu_state \<Rightarrow> gpu_state option" where
  "CMDGetDisplayInfo E W s = do {
     let req = ReqHdr (cmd_hdr VIRTIO_GPU_CMD_GET_DISPLAY_INFO);
     let dflt = \<lparr>r_x = 0, r_y = 0, r_width = FB_WIDTH_DFT, r_height = FB_HEIGHT_DFT\<rparr>;
     (ok, resp, s) \<leftarrow> RequestResponse E W 0 req SIZEOF_VirtgpuRespDisplayInfo s;
     if \<not> ok then set_screen dflt s else do {
       m \<leftarrow> aget (pmodes resp) 0;
       if pm_enabled m \<noteq> 0 then set_screen (pm_r m) s else set_screen dflt s
     }
   }"

definition CMDGetEdid :: "env \<Rightarrow> gpu_world \<Rightarrow> gpu_state \<Rightarrow> gpu_state option" where
  "CMDGetEdid E W s = do {
     let req = ReqEdid \<lparr>ge_hdr = cmd_hdr VIRTIO_GPU_CMD_GET_EDID, ge_scanout = 0, ge_padding = 0\<rparr>;
     (_, _, s) \<leftarrow> RequestResponse E W 0 req SIZEOF_VirtgpuRespEdid s;
     Some s
   }"

definition CMDResourceCreate2D :: "env \<Rightarrow> gpu_world \<Rightarrow> u32 \<Rightarrow> gpu_state \<Rightarrow> (bool \<times> gpu_state) option" where
  "CMDResourceCreate2D E W resourceId s = do {
     gpu \<leftarrow> the_gpu s;
     let req = ReqCreate2D \<lparr>cr_hdr = cmd_hdr VIRTIO_GPU_CMD_RESOURCE_CREATE_2D, cr_resourceId = resourceId,
       cr_format = VIRTIO_GPU_FORMAT_R8G8B8A8_UNORM,
       cr_width = (if resourceId = RESOURCEID_FB then r_width (screen gpu) else 0),
       cr_height = (if resourceId = RESOURCEID_FB then r_height (screen gpu) else 0)\<rparr>;
     (ok, _, s) \<leftarrow> RequestResponse E W 0 req SIZEOF_VirtgpuCtrlHdr s;
     Some (ok, s)
   }"

definition CMDSetScanout :: "env \<Rightarrow> gpu_world \<Rightarrow> VirtgpuRect \<Rightarrow> gpu_state \<Rightarrow> (bool \<times> gpu_state) option" where
  "CMDSetScanout E W r s = do {
     let req = ReqScanout \<lparr>so_hdr = cmd_hdr VIRTIO_GPU_CMD_SET_SCANOUT, so_r = r, so_scanoutId = 0,
       so_resourceId = RESOURCEID_FB\<rparr>;
     (ok, _, s) \<leftarrow> RequestResponse E W 0 req SIZEOF_VirtgpuCtrlHdr s;
     Some (ok, s)
   }"

definition CMDTransferToHost ::
  "env \<Rightarrow> gpu_world \<Rightarrow> u32 \<Rightarrow> VirtgpuRect \<Rightarrow> gpu_state \<Rightarrow> (bool \<times> gpu_state) option" where
  "CMDTransferToHost E W resourceId r s = do {
     let req = ReqTransfer \<lparr>tr_hdr = (cmd_hdr VIRTIO_GPU_CMD_TRANSFER_TO_HOST_2D)
         \<lparr>h_flags := VIRTIO_GPU_FLAG_FENCE, fenceId := ucast (r_x r + r_y r + r_width r + r_height r)\<rparr>,
       tr_r = r, tr_offset = 0, tr_resourceId = resourceId, tr_padding = 0\<rparr>;
     (ok, _, s) \<leftarrow> RequestResponse E W 0 req SIZEOF_VirtgpuCtrlHdr s;
     Some (ok, s)
   }"

definition CMDResourceFlush :: "env \<Rightarrow> gpu_world \<Rightarrow> gpu_state \<Rightarrow> (bool \<times> gpu_state) option" where
  "CMDResourceFlush E W s = do {
     gpu \<leftarrow> the_gpu s;
     let req = ReqFlush \<lparr>fl_hdr = cmd_hdr VIRTIO_GPU_CMD_RESOURCE_FLUSH, fl_r = screen gpu,
       fl_resourceId = RESOURCEID_FB, fl_padding = 0\<rparr>;
     (ok, _, s) \<leftarrow> RequestResponse E W 0 req SIZEOF_VirtgpuCtrlHdr s;
     Some (ok, s)
   }"

abbreviation (input) SIZEOF_VirtgpuMemEntry :: u32 where "SIZEOF_VirtgpuMemEntry \<equiv> 16"

definition CMDResourceAttachBacking ::
  "env \<Rightarrow> gpu_world \<Rightarrow> u32 \<Rightarrow> u64 \<Rightarrow> u32 \<Rightarrow> gpu_state \<Rightarrow> (bool \<times> gpu_state) option" where
  "CMDResourceAttachBacking E W resourceId vaddr len s = do {
     let req = ReqAttach
       \<lparr>ab_hdr = cmd_hdr VIRTIO_GPU_CMD_RESOURCE_ATTACH_BACKING, ab_resourceId = resourceId, nrEntries = 1\<rparr>
       \<lparr>me_addr = VMM_TO_DMA_ADDR E vaddr, me_length = len, me_padding = 0\<rparr>;
     (ok, _, s) \<leftarrow> RequestDataResponse E W req SIZEOF_VirtgpuMemEntry SIZEOF_VirtgpuCtrlHdr s;
     Some (ok, s)
   }"

subsection \<open>The refresh timer\<close>

definition NormOpsRefresh :: "env \<Rightarrow> gpu_world \<Rightarrow> gpu_state \<Rightarrow> gpu_state option" where
  "NormOpsRefresh E W s = do {
     gpu \<leftarrow> the_gpu s;
     s \<leftarrow> RequestNoResponse E 0 (ReqTransfer (transReq gpu)) (OFF_transReq W) False s;
     gpu \<leftarrow> the_gpu s;
     RequestNoResponse E 0 (ReqFlush (flushReq gpu)) (OFF_flushReq W) True s
   }"

definition VirtgpuFbPageSize :: "env \<Rightarrow> gpu_state \<Rightarrow> u32 option" where
  "VirtgpuFbPageSize E s = do {
     gpu \<leftarrow> the_gpu s;
     Some (ALIGN E (r_width (screen gpu) * r_height (screen gpu) * PIXEL_BYTES) PAGE_SIZE)
   }"

text \<open>The loop over the descriptors of a queue, two at a time.\<close>

function populate_pairs :: "env \<Rightarrow> u32 \<Rightarrow> nat \<Rightarrow> nat \<Rightarrow> vring \<Rightarrow> vring option" where
  "populate_pairs E respp i n r =
     (if i < n then do {
        r \<leftarrow> desc_upd i (\<lambda>d. d\<lparr>d_flag := VIRTQ_DESC_F_NEXT, d_next := of_nat (i + 1)\<rparr>) r;
        r \<leftarrow> desc_upd (i + 1) (\<lambda>d. d\<lparr>pAddr := VMM_TO_DMA_ADDR E (ucast respp),
               d_len := SIZEOF_VirtgpuCtrlHdr, d_flag := VIRTQ_DESC_F_WRITE\<rparr>) r;
        populate_pairs E respp (i + 2) n r
      } else Some r)"
  by pat_completeness auto

termination by (relation "measure (\<lambda>(E, respp, i, n, r). n - i)") auto

declare populate_pairs.simps [simp del]

fun populate_queues :: "env \<Rightarrow> u32 \<Rightarrow> nat \<Rightarrow> u16 list \<Rightarrow> Virtgpu \<Rightarrow> Virtgpu option" where
  "populate_queues E respp n [] gpu = Some gpu"
| "populate_queues E respp n (sz # szs) gpu = do {
     (q, r) \<leftarrow> get_queue gpu n;
     r \<leftarrow> populate_pairs E respp 0 (unat sz) r;
     populate_queues E respp (n + 1) szs (set_queue n (q\<lparr>q_last := 0\<rparr>) r gpu)
   }"

definition PopulateVirtQ :: "env \<Rightarrow> gpu_world \<Rightarrow> gpu_state \<Rightarrow> gpu_state option" where
  "PopulateVirtQ E W s = do {
     gpu \<leftarrow> the_gpu s;
     gpu \<leftarrow> populate_queues E (g_virtGpu s + OFF_resp W) 0 [VIRTQ_CONTROL_QSZ, VIRTQ_CURSOR_QSZ] gpu;
     let tr = transReq gpu;
     let fl = flushReq gpu;
     let gpu = gpu\<lparr>
       transReq := tr\<lparr>tr_hdr := (tr_hdr tr)\<lparr>h_type := VIRTIO_GPU_CMD_TRANSFER_TO_HOST_2D\<rparr>,
         tr_r := screen gpu, tr_resourceId := RESOURCEID_FB\<rparr>,
       flushReq := fl\<lparr>fl_hdr := (fl_hdr fl)\<lparr>h_type := VIRTIO_GPU_CMD_RESOURCE_FLUSH\<rparr>,
         fl_r := screen gpu, fl_resourceId := RESOURCEID_FB\<rparr>\<rparr>;
     Some (set_gpu gpu s)
   }"

definition VirtgpuBeginNormDisplay :: "env \<Rightarrow> gpu_world \<Rightarrow> gpu_state \<Rightarrow> (bool \<times> gpu_state) option" where
  "VirtgpuBeginNormDisplay E W s = do {
     gpu \<leftarrow> the_gpu s;
     (ok, s) \<leftarrow> CMDTransferToHost E W RESOURCEID_FB (screen gpu) s;
     if \<not> ok then Some (False, s) else do {
       (ok, s) \<leftarrow> CMDResourceFlush E W s;
       if \<not> ok then Some (False, s) else do {
         s \<leftarrow> PopulateVirtQ E W s;
         let (ret, t) = kstatus E OsalTimerStartLoop [g_virtGpu s + OFF_timer W] (hist s);
         Some (ret = HDF_SUCCESS, s\<lparr>hist := t\<rparr>)
       }
     }
   }"

subsection \<open>Initialisation and release\<close>

definition VirtgpuDeInit :: "env \<Rightarrow> gpu_world \<Rightarrow> u32 \<Rightarrow> gpu_state \<Rightarrow> gpu_state option" where
  "VirtgpuDeInit E W p s = do {
     gpu \<leftarrow> heap s p;
     let s = (if realTimer gpu \<noteq> 0 then s\<lparr>hist := kproc OsalTimerDelete [p + OFF_timer W] (hist s)\<rparr> else s);
     s \<leftarrow> (if gpu_fb gpu \<noteq> 0 then do {
             n \<leftarrow> VirtgpuFbPageSize E s;
             Some (s\<lparr>hist := kproc LOS_PhysPagesFree [gpu_fb gpu, n div PAGE_SIZE] (hist s)\<rparr>)
           } else Some s);
     Some (s\<lparr>heap := (heap s)(p := None), g_virtGpu := 0, hist := kproc LOS_DmaMemFree [p] (hist s)\<rparr>)
   }"

text \<open>\<open>vq[i].avail->flag = VIRTQ_AVAIL_F_NO_INTERRUPT\<close> on every queue.\<close>

definition no_interrupts :: "Virtgpu \<Rightarrow> Virtgpu" where
  "no_interrupts gpu = gpu\<lparr>gpu_rings := map (\<lambda>r. r\<lparr>avail_flag := VIRTQ_AVAIL_F_NO_INTERRUPT\<rparr>) (gpu_rings gpu)\<rparr>"

text \<open>The exits \<open>ERR_OUT\<close> and \<open>ERR_OUT1\<close>: the block is freed and NULL returned.\<close>

definition gpu_err_out :: "env \<Rightarrow> gpu_world \<Rightarrow> u32 \<Rightarrow> Virtgpu \<Rightarrow> trace \<Rightarrow> gpu_state \<Rightarrow> (u32 \<times> gpu_state) option" where
  "gpu_err_out E W p gpu t s = do {
     s \<leftarrow> VirtgpuDeInit E W p (s\<lparr>heap := (heap s)(p \<mapsto> gpu), hist := t\<rparr>);
     Some (0, s)
   }"

definition gpu_err_out1 :: "env \<Rightarrow> gpu_world \<Rightarrow> u32 \<Rightarrow> Virtgpu \<Rightarrow> trace \<Rightarrow> gpu_state \<Rightarrow> (u32 \<times> gpu_state) option" where
  "gpu_err_out1 E W p gpu t s = gpu_err_out E W p gpu (VirtmmioInitFailed E (gpu_dev gpu) t) s"

definition VirtgpuInitDev :: "env \<Rightarrow> gpu_world \<Rightarrow> gpu_state \<Rightarrow> (u32 \<times> gpu_state) option" where
  "VirtgpuInitDev E W s =
     (let len = SIZEOF_Virtgpu W + VirtqSize E VIRTQ_CONTROL_QSZ + VirtqSize E VIRTQ_CURSOR_QSZ;
          (p, t) = kcall E LOS_DmaMemAlloc [len] (hist s)
      in if p = 0 then Some (0, s\<lparr>hist := t\<rparr>) else
      let gpu = gw_block W p;
          (found, dev, t) = VirtmmioDiscover E VIRTMMIO_DEVICE_ID_GPU (gpu_dev gpu) t;
          gpu = gpu\<lparr>gpu_dev := dev\<rparr>
      in if \<not> found then gpu_err_out E W p gpu t s else do {
        t \<leftarrow> VirtmmioInitBegin E dev t;
        (ok, gpu, t) \<leftarrow> VirtmmioNegotiate E dev Gpu_Feature0 Gpu_Feature1 gpu t;
        if \<not> ok then gpu_err_out1 E W p gpu t s else do {
          let va = ALIGN E (p + SIZEOF_Virtgpu W) VIRTQ_ALIGN_DESC;
          (r, dev, t) \<leftarrow> VirtmmioConfigQueue E dev va [VIRTQ_CONTROL_QSZ, VIRTQ_CURSOR_QSZ] VIRTQ_NUM t;
          let gpu = gpu\<lparr>gpu_dev := dev\<rparr>;
          if r = 0 then gpu_err_out1 E W p gpu t s else
          let (ret, t) = kstatus E OsalTimerCreate [p + OFF_timer W, GPU_DFT_RATE] t
          in if ret \<noteq> HDF_SUCCESS then gpu_err_out1 E W p gpu t s else
          let gpu = no_interrupts (gpu\<lparr>realTimer := gw_timer W t\<rparr>);
              t = VritmmioInitEnd E dev t
          in Some (p, s\<lparr>heap := (heap s)(p \<mapsto> gpu), hist := t\<rparr>)
        }
      })"

text \<open>HDF's entry points. \<open>priv\<close> is the device object's private pointer; \<open>fb_register\<close> is the
  framework's function, which calls back into the interface below and may change the driver's state.\<close>

definition HdfVirtgpuInit ::
  "env \<Rightarrow> gpu_world \<Rightarrow> (gpu_state \<Rightarrow> (int \<times> gpu_state) option) \<Rightarrow> bool \<Rightarrow> u32 \<Rightarrow> gpu_state
     \<Rightarrow> (HDF_STATUS \<times> u32 \<times> gpu_state) option" where
  "HdfVirtgpuInit E W fb_register isnull priv s =
     (if isnull then Some (HDF_ERR_INVALID_PARAM, priv, s) else do {
        (p, s) \<leftarrow> VirtgpuInitDev E W s;
        let s = s\<lparr>g_virtGpu := p\<rparr>;
        if p = 0 then Some (HDF_FAILURE, priv, s) else do {
          let priv = p;
          (ret, s) \<leftarrow> fb_register s;
          if ret \<noteq> 0 then Some (HDF_FAILURE, priv, s) else do {
            (ok, s) \<leftarrow> VirtgpuBeginNormDisplay E W s;
            if \<not> ok then Some (HDF_FAILURE, priv, s) else Some (HDF_SUCCESS, priv, s)
          }
        }
      })"

definition HdfVirtgpuRelease :: "env \<Rightarrow> gpu_world \<Rightarrow> bool \<Rightarrow> u32 \<Rightarrow> gpu_state \<Rightarrow> gpu_state option" where
  "HdfVirtgpuRelease E W isnull priv s =
     (if isnull then Some s else if priv \<noteq> 0 then VirtgpuDeInit E W priv s else Some s)"

subsection \<open>The frame-buffer interface\<close>

definition VirtgpuInitResourceHelper :: "env \<Rightarrow> gpu_world \<Rightarrow> u32 \<Rightarrow> gpu_state \<Rightarrow> (bool \<times> gpu_state) option" where
  "VirtgpuInitResourceHelper E W resourceId s = do {
     (ok, s) \<leftarrow> CMDResourceCreate2D E W resourceId s;
     if \<not> ok then Some (False, s) else
     if resourceId \<noteq> RESOURCEID_FB then Some (False, s) else do {
       gpu \<leftarrow> the_gpu s;
       let va = (ucast (gpu_fb gpu) :: u64);
       let w = r_width (screen gpu);
       let h = r_height (screen gpu);
       let len = w * h * PIXEL_BYTES;
       (ok, s) \<leftarrow> CMDResourceAttachBacking E W resourceId va len s;
       if \<not> ok then Some (False, s) else
       if resourceId = RESOURCEID_FB then CMDSetScanout E W \<lparr>r_x = 0, r_y = 0, r_width = w, r_height = h\<rparr> s
       else Some (True, s)
     }
   }"

definition VirtgpuInitResource :: "env \<Rightarrow> gpu_world \<Rightarrow> gpu_state \<Rightarrow> (bool \<times> gpu_state) option" where
  "VirtgpuInitResource E W s = do {
     n \<leftarrow> VirtgpuFbPageSize E s;
     gpu \<leftarrow> the_gpu s;
     let (p, t) = kcall E LOS_PhysPagesAlloc [n div PAGE_SIZE] (hist s);
     let s = set_gpu (gpu\<lparr>gpu_fb := p\<rparr>) (s\<lparr>hist := t\<rparr>);
     if p = 0 then Some (False, s) else do {
       (ok, s) \<leftarrow> VirtgpuInitResourceHelper E W RESOURCEID_FB s;
       if \<not> ok then Some (False, s) else Some (True, s)
     }
   }"

definition up_fbinitialize :: "env \<Rightarrow> gpu_world \<Rightarrow> int \<Rightarrow> gpu_state \<Rightarrow> (int \<times> gpu_state) option" where
  "up_fbinitialize E W display s =
     (if display \<noteq> 0 then Some (-1, s) else do {
        s \<leftarrow> CMDGetDisplayInfo E W s;
        gpu \<leftarrow> the_gpu s;
        s \<leftarrow> (if edid gpu then CMDGetEdid E W s else Some s);
        (ok, s) \<leftarrow> VirtgpuInitResource E W s;
        if \<not> ok then Some (-1, s) else Some (0, s)
      })"

record fb_videoinfo_s =
  vi_fmt :: u32
  vi_xres :: u32
  vi_yres :: u32
  vi_nplanes :: u32

record fb_planeinfo_s =
  pi_fbmem :: u32
  pi_stride :: u32
  pi_fblen :: u32
  pi_display :: u32
  pi_bpp :: u32

record fb_overlayinfo_s =
  oi_fbmem :: u32
  oi_memphys :: u64
  oi_stride :: u32
  oi_fblen :: u32
  oi_overlay :: u32
  oi_bpp :: u32
  oi_accl :: u32

definition FbGetVideoInfo :: "gpu_world \<Rightarrow> fb_videoinfo_s \<Rightarrow> gpu_state \<Rightarrow> (int \<times> fb_videoinfo_s) option" where
  "FbGetVideoInfo W vinfo s = do {
     gpu \<leftarrow> the_gpu s;
     Some (0, vinfo\<lparr>vi_fmt := FB_FMT_RGB32 W, vi_xres := fb_coord_t W (r_width (screen gpu)),
       vi_yres := fb_coord_t W (r_height (screen gpu)), vi_nplanes := 1\<rparr>)
   }"

definition FbGetPlaneInfo :: "int \<Rightarrow> fb_planeinfo_s \<Rightarrow> gpu_state \<Rightarrow> (int \<times> fb_planeinfo_s) option" where
  "FbGetPlaneInfo planeno pinfo s =
     (if planeno \<noteq> 0 then Some (-1, pinfo) else do {
        gpu \<leftarrow> the_gpu s;
        let stride = r_width (screen gpu) * PIXEL_BYTES;
        Some (0, pinfo\<lparr>pi_fbmem := gpu_fb gpu, pi_stride := stride,
          pi_fblen := stride * r_height (screen gpu), pi_display := 0, pi_bpp := PIXEL_BYTES * BYTE_BITS\<rparr>)
      })"

definition FbGetOverlayInfo ::
  "env \<Rightarrow> int \<Rightarrow> fb_overlayinfo_s \<Rightarrow> gpu_state \<Rightarrow> (int \<times> fb_overlayinfo_s) option" where
  "FbGetOverlayInfo E overlayno info s =
     (if overlayno \<noteq> 0 then Some (-1, info) else do {
        gpu \<leftarrow> the_gpu s;
        let stride = r_width (screen gpu) * PIXEL_BYTES;
        Some (0, info\<lparr>oi_fbmem := gpu_fb gpu, oi_memphys := VMM_TO_DMA_ADDR E (ucast (gpu_fb gpu)),
          oi_stride := stride, oi_fblen := stride * r_height (screen gpu), oi_overlay := 0,
          oi_bpp := PIXEL_BYTES * BYTE_BITS, oi_accl := 0\<rparr>)
      })"

definition FbOpen :: int where "FbOpen = 0"

definition FbRelease :: int where "FbRelease = 0"

definition FbDummy :: int where "FbDummy = -1"

record LosVmMapRegion =
  rg_archMmu :: u32
  rg_base :: u32
  rg_size :: u32
  rg_pgOff :: u32
  rg_flags :: u32

definition FbMmap ::
  "env \<Rightarrow> gpu_world \<Rightarrow> LosVmMapRegion \<Rightarrow> gpu_state \<Rightarrow> (int \<times> LosVmMapRegion \<times> gpu_state) option" where
  "FbMmap E W region s = do {
     n \<leftarrow> VirtgpuFbPageSize E s;
     gpu \<leftarrow> the_gpu s;
     if rg_size region + push_bit PAGE_SHIFT (rg_pgOff region) > n then Some (-1, region, s) else
     if rg_flags region AND VM_MAP_REGION_FLAG_PERM_EXECUTE W \<noteq> 0 then Some (-1, region, s) else
     let region = region\<lparr>rg_flags := rg_flags region OR VM_MAP_REGION_FLAG_UNCACHED W\<rparr>;
         pages = drop_bit PAGE_SHIFT (rg_size region);
         (m, t) = kcall E LOS_ArchMmuMap [rg_archMmu region, rg_base region,
            ucast (VMM_TO_DMA_ADDR E (ucast (gpu_fb gpu + push_bit PAGE_SHIFT (rg_pgOff region)))),
            pages, rg_flags region] (hist s);
         s = s\<lparr>hist := t\<rparr>
     in if m \<noteq> pages then Some (-1, region, s) else Some (0, region, s)
   }"

definition up_fbgetvplane :: "int \<Rightarrow> int \<Rightarrow> bool" where
  "up_fbgetvplane display vplane = (\<not> (display \<noteq> 0 \<or> vplane \<noteq> 0))"

definition up_fbuninitialize :: "env \<Rightarrow> gpu_world \<Rightarrow> int \<Rightarrow> gpu_state \<Rightarrow> gpu_state option" where
  "up_fbuninitialize E W display s =
     (if display \<noteq> 0 then Some s
      else if g_virtGpu s \<noteq> 0 then VirtgpuDeInit E W (g_virtGpu s) s else Some s)"

definition VirtgpuGetXres :: "gpu_state \<Rightarrow> u32 option" where
  "VirtgpuGetXres s = do { gpu \<leftarrow> the_gpu s; Some (r_width (screen gpu)) }"

definition VirtgpuGetYres :: "gpu_state \<Rightarrow> u32 option" where
  "VirtgpuGetYres s = do { gpu \<leftarrow> the_gpu s; Some (r_height (screen gpu)) }"

subsection \<open>The state behind the global pointer\<close>

lemma set_gpu_simps [simp]:
  "the_gpu (set_gpu gpu s) = Some gpu" "g_virtGpu (set_gpu gpu s) = g_virtGpu s"
  "sent (set_gpu gpu s) = sent s" "hist (set_gpu gpu s) = hist s"
  "set_gpu gpu (set_gpu gpu' s) = set_gpu gpu s"
  by (simp_all add: the_gpu_def set_gpu_def)

lemma the_gpu_update [simp]:
  "the_gpu (s\<lparr>sent := x\<rparr>) = the_gpu s" "the_gpu (s\<lparr>hist := t\<rparr>) = the_gpu s"
  by (simp_all add: the_gpu_def)

lemma set_queue_simps [simp]:
  "realTimer (set_queue n q r gpu) = realTimer gpu" "screen (set_queue n q r gpu) = screen gpu"
  "gpu_fb (set_queue n q r gpu) = gpu_fb gpu" "edid (set_queue n q r gpu) = edid gpu"
  "flushReq (set_queue n q r gpu) = flushReq gpu" "transReq (set_queue n q r gpu) = transReq gpu"
  "base (gpu_dev (set_queue n q r gpu)) = base (gpu_dev gpu)"
  "vq (gpu_dev (set_queue n q r gpu)) = (vq (gpu_dev gpu))[n := q]"
  "gpu_rings (set_queue n q r gpu) = (gpu_rings gpu)[n := r]"
  by (simp_all add: set_queue_def)

lemma set_queue_twice [simp]: "set_queue n q r (set_queue n q' r' gpu) = set_queue n q r gpu"
  by (simp add: set_queue_def)

text \<open>The control queue is configured and its memory has the size the device was told.\<close>

definition gpu_ready :: "Virtgpu \<Rightarrow> bool" where
  "gpu_ready gpu \<longleftrightarrow> length (vq (gpu_dev gpu)) = 2 \<and> length (gpu_rings gpu) = 2 \<and>
     qsz (vq (gpu_dev gpu) ! 0) = 4 \<and> vring_ok 4 (gpu_rings gpu ! 0) \<and> vring_ok 2 (gpu_rings gpu ! 1)"

lemma get_queue_in:
  "gpu_ready gpu \<Longrightarrow> get_queue gpu 0 = Some (vq (gpu_dev gpu) ! 0, gpu_rings gpu ! 0)"
  by (simp add: gpu_ready_def get_queue_def)

lemma gpu_ready_set_queue:
  "gpu_ready gpu \<Longrightarrow> qsz q = 4 \<Longrightarrow> vring_ok 4 r \<Longrightarrow> gpu_ready (set_queue 0 q r gpu)"
  by (simp add: gpu_ready_def)

subsection \<open>Waiting for the response\<close>

definition answered :: "gpu_world \<Rightarrow> u32 \<Rightarrow> gpu_req \<Rightarrow> u16 \<Rightarrow> trace \<Rightarrow> nat \<Rightarrow> bool" where
  "answered W queue req lst t k \<longleftrightarrow> lst \<noteq> gw_used W queue req t k \<and>
     \<not> (h_flags (req_hdr req) = VIRTIO_GPU_FLAG_FENCE \<and>
        fenceId (req_hdr req) \<noteq> fenceId (di_hdr (gw_resp W req t k)))"

lemma spin_response_unfold:
  "spin_response W queue req lst t k =
     (if answered W queue req lst t k then Some k else spin_response W queue req lst t (k + 1))"
  by (subst spin_response.simps) (simp add: answered_def Let_def)

lemma spin_response_returns:
  "answered W queue req lst t (k + n) \<Longrightarrow> \<exists>j. spin_response W queue req lst t k = Some j"
proof (induction n arbitrary: k)
  case 0
  then show ?case by (subst spin_response_unfold) simp
next
  case (Suc n)
  then show ?case using Suc.IH [of "k + 1"] by (subst spin_response_unfold) simp
qed

text \<open>A device that answers every request, sooner or later and with its fence.\<close>

definition answers :: "gpu_world \<Rightarrow> bool" where
  "answers W \<longleftrightarrow> (\<forall>queue req lst t. \<exists>k. answered W queue req lst t k)"

lemma spin_response_ends: "answers W \<Longrightarrow> \<exists>k. spin_response W queue req lst t 0 = Some k"
  using spin_response_returns [of W queue req lst t 0] unfolding answers_def by (simp, blast)

subsection \<open>What a synchronous request does\<close>

text \<open>The buffers the device must find behind a request.\<close>

definition req_chain :: "env \<Rightarrow> gpu_world \<Rightarrow> gpu_req \<Rightarrow> u32 \<Rightarrow> (u64 \<times> u32 \<times> bool) list" where
  "req_chain E W req n = (let (reqp, respp, _) = gw_stack W req
     in [(VMM_TO_DMA_ADDR E (ucast reqp), req_size req, False),
         (VMM_TO_DMA_ADDR E (ucast respp), n, True)])"

definition data_chain :: "env \<Rightarrow> gpu_world \<Rightarrow> gpu_req \<Rightarrow> u32 \<Rightarrow> u32 \<Rightarrow> (u64 \<times> u32 \<times> bool) list" where
  "data_chain E W req m n = (let (reqp, respp, datap) = gw_stack W req
     in [(VMM_TO_DMA_ADDR E (ucast reqp), req_size req, False),
         (VMM_TO_DMA_ADDR E (ucast datap), m, False),
         (VMM_TO_DMA_ADDR E (ucast respp), n, True)])"

text \<open>A request was made available with the given chain, and only the control queue changed.\<close>

definition requested ::
  "gpu_req \<Rightarrow> (u64 \<times> u32 \<times> bool) list \<Rightarrow> gpu_state \<Rightarrow> gpu_state \<Rightarrow> bool" where
  "requested req bs s s' \<longleftrightarrow> sent s' = sent s @ [(0, req, Some bs)] \<and> g_virtGpu s' = g_virtGpu s \<and>
     (\<exists>gpu q r. the_gpu s = Some gpu \<and> the_gpu s' = Some (set_queue 0 q r gpu) \<and>
        gpu_ready (set_queue 0 q r gpu))"

text \<open>A device that reports success for every request.\<close>

definition accepts :: "gpu_world \<Rightarrow> bool" where
  "accepts W \<longleftrightarrow> (\<forall>req t k. VIRTIO_GPU_RESP_OK_NODATA \<le> h_type (di_hdr (gw_resp W req t k)) \<and>
     h_type (di_hdr (gw_resp W req t k)) \<le> VIRTIO_GPU_RESP_OK_EDID)"

lemma NotifyAndWaitResponse_requested:
  assumes gpu: "the_gpu s = Some gpu" and ready: "gpu_ready gpu" and ans: "answers W"
    and ch: "device_chain (gpu_rings gpu ! 0) 0 = Some bs"
  shows "\<exists>ok t k s'. NotifyAndWaitResponse W 0 req s = Some (ok, gw_resp W req t k, s') \<and> requested req bs s s' \<and>
    (accepts W \<longrightarrow> ok)"
proof -
  let ?t = "WRITE_UINT32 0 (base (gpu_dev gpu) + VIRTMMIO_REG_QUEUENOTIFY) (hist s)"
  let ?q = "vq (gpu_dev gpu) ! 0" and ?r = "gpu_rings gpu ! 0"
  obtain k where k: "spin_response W 0 req (q_last ?q) ?t 0 = Some k"
    using spin_response_ends [OF ans] by blast
  have sz: "qsz ?q = 4" and ok: "vring_ok 4 ?r" using ready by (simp_all add: gpu_ready_def)
  have put: "avail_put (qsz ?q) (unat (avail_index ?r)) 0 ?r
      = Some (?r\<lparr>avail_ring := (avail_ring ?r)[unat (avail_index ?r) mod 4 := 0]\<rparr>)"
    using sz vring_okD(2) [OF ok] by (simp add: avail_put_in)
  let ?r1 = "(?r\<lparr>avail_ring := (avail_ring ?r)[unat (avail_index ?r) mod 4 := 0]\<rparr>)"
  let ?g = "set_queue 0 (?q\<lparr>q_last := q_last ?q + 1\<rparr>) ((avail_add 1 ?r1)\<lparr>used_index := gw_used W 0 req ?t k\<rparr>) gpu"
  let ?s = "(set_gpu ?g s)\<lparr>sent := sent s @ [(0, req, Some bs)], hist := ?t\<rparr>"
  let ?ty = "h_type (di_hdr (gw_resp W req ?t k))"
  have run: "NotifyAndWaitResponse W 0 req s = Some (\<not> (?ty < 0x1100 \<or> ?ty > 0x1104), gw_resp W req ?t k, ?s)"
    using gpu ready k put ch by (simp add: NotifyAndWaitResponse_def get_queue_in Let_def device_chain_def)
  have "gpu_ready ?g"
    using ready sz ok by (intro gpu_ready_set_queue) (simp_all add: vring_ok_def)
  then have "requested req bs s ?s"
    using gpu by (auto simp: requested_def)
  moreover have "accepts W \<longrightarrow> \<not> (?ty < 0x1100 \<or> ?ty > 0x1104)"
    by (auto simp: accepts_def not_less)
  ultimately show ?thesis using run by blast
qed


lemma RequestResponse_requested:
  assumes gpu: "the_gpu s = Some gpu" and ready: "gpu_ready gpu" and ans: "answers W"
  shows "\<exists>ok t k s'. RequestResponse E W 0 req n s = Some (ok, gw_resp W req t k, s') \<and>
    requested req (req_chain E W req n) s s' \<and> (accepts W \<longrightarrow> ok)"
proof -
  let ?q = "vq (gpu_dev gpu) ! 0" and ?r = "gpu_rings gpu ! 0"
  obtain a b c where st: "gw_stack W req = (a, b, c)" by (cases "gw_stack W req")
  have sz: "qsz ?q = 4" and ok: "vring_ok 4 ?r" using ready by (simp_all add: gpu_ready_def)
  define r where "r = ?r\<lparr>descs := (descs ?r)[
      0 := (descs ?r ! 0)\<lparr>pAddr := VMM_TO_DMA_ADDR E (ucast a), d_len := req_size req, d_flag := 1, d_next := 1\<rparr>,
      1 := (descs ?r ! 1)\<lparr>pAddr := VMM_TO_DMA_ADDR E (ucast b), d_len := n, d_flag := 2\<rparr>]\<rparr>"
  let ?g = "set_queue 0 ?q r gpu"
  have okr: "vring_ok 4 r" using ok by (simp add: r_def vring_ok_def)
  have g: "the_gpu (set_gpu ?g s) = Some ?g" "gpu_ready ?g"
    using okr sz ready by (auto intro!: gpu_ready_set_queue)
  have ring: "gpu_rings ?g ! 0 = r"
    using ready by (simp add: gpu_ready_def)
  have ch: "device_chain (gpu_rings ?g ! 0) 0 = Some (req_chain E W req n)"
    using vring_okD(1) [OF ok] st unfolding ring by (simp add: r_def device_chain_def req_chain_def Let_def)
  have u: "RequestResponse E W 0 req n s = NotifyAndWaitResponse W 0 req (set_gpu ?g s)"
    using gpu ready st vring_okD(1) [OF ok]
    by (simp add: RequestResponse_def get_queue_in desc_upd_def r_def)
  obtain ok' t k s' where n: "NotifyAndWaitResponse W 0 req (set_gpu ?g s) = Some (ok', gw_resp W req t k, s')"
    and q: "requested req (req_chain E W req n) (set_gpu ?g s) s'" and a: "accepts W \<longrightarrow> ok'"
    using NotifyAndWaitResponse_requested [OF g ans ch] by blast
  have "requested req (req_chain E W req n) s s'"
    using q gpu by (auto simp: requested_def)
  then show ?thesis using u n a by auto
qed

lemma RequestDataResponse_requested:
  assumes gpu: "the_gpu s = Some gpu" and ready: "gpu_ready gpu" and ans: "answers W"
  shows "\<exists>ok t k s'. RequestDataResponse E W req m n s = Some (ok, gw_resp W req t k, s') \<and>
    requested req (data_chain E W req m n) s s' \<and> (accepts W \<longrightarrow> ok)"
proof -
  let ?q = "vq (gpu_dev gpu) ! 0" and ?r = "gpu_rings gpu ! 0"
  obtain a b c where st: "gw_stack W req = (a, b, c)" by (cases "gw_stack W req")
  have sz: "qsz ?q = 4" and ok: "vring_ok 4 ?r" using ready by (simp_all add: gpu_ready_def)
  define r where "r = ?r\<lparr>descs := (descs ?r)[
      0 := (descs ?r ! 0)\<lparr>pAddr := VMM_TO_DMA_ADDR E (ucast a), d_len := req_size req, d_flag := 1, d_next := 1\<rparr>,
      1 := (descs ?r ! 1)\<lparr>pAddr := VMM_TO_DMA_ADDR E (ucast c), d_len := m, d_flag := 1, d_next := 2\<rparr>,
      2 := (descs ?r ! 2)\<lparr>pAddr := VMM_TO_DMA_ADDR E (ucast b), d_len := n, d_flag := 2\<rparr>]\<rparr>"
  let ?g = "set_queue 0 ?q r gpu"
  have okr: "vring_ok 4 r" using ok by (simp add: r_def vring_ok_def)
  have g: "the_gpu (set_gpu ?g s) = Some ?g" "gpu_ready ?g"
    using okr sz ready by (auto intro!: gpu_ready_set_queue)
  have ring: "gpu_rings ?g ! 0 = r"
    using ready by (simp add: gpu_ready_def)
  have ch: "device_chain (gpu_rings ?g ! 0) 0 = Some (data_chain E W req m n)"
    using vring_okD(1) [OF ok] st unfolding ring by (simp add: r_def device_chain_def data_chain_def Let_def)
  have u: "RequestDataResponse E W req m n s = NotifyAndWaitResponse W 0 req (set_gpu ?g s)"
    using gpu ready st vring_okD(1) [OF ok]
    by (simp add: RequestDataResponse_def get_queue_in desc_upd_def r_def)
  obtain ok' t k s' where n: "NotifyAndWaitResponse W 0 req (set_gpu ?g s) = Some (ok', gw_resp W req t k, s')"
    and q: "requested req (data_chain E W req m n) (set_gpu ?g s) s'" and a: "accepts W \<longrightarrow> ok'"
    using NotifyAndWaitResponse_requested [OF g ans ch] by blast
  have "requested req (data_chain E W req m n) s s'"
    using q gpu by (auto simp: requested_def)
  then show ?thesis using u n a by auto
qed

lemma requestedD:
  assumes "requested req bs s s'" and "the_gpu s = Some gpu"
  shows "sent s' = sent s @ [(0, req, Some bs)]" and "g_virtGpu s' = g_virtGpu s"
    and "\<exists>gpu'. the_gpu s' = Some gpu' \<and> gpu_ready gpu' \<and> screen gpu' = screen gpu \<and>
      gpu_fb gpu' = gpu_fb gpu \<and> edid gpu' = edid gpu \<and> realTimer gpu' = realTimer gpu"
  using assms by (auto simp: requested_def)

text \<open>The request structs the commands build, with their chains.\<close>

definition display_cmd :: "env \<Rightarrow> gpu_world \<Rightarrow> gpu_req \<times> (u64 \<times> u32 \<times> bool) list" where
  "display_cmd E W = (let req = ReqHdr (cmd_hdr 0x100) in (req, req_chain E W req 408))"

definition edid_cmd :: "env \<Rightarrow> gpu_world \<Rightarrow> gpu_req \<times> (u64 \<times> u32 \<times> bool) list" where
  "edid_cmd E W = (let req = ReqEdid \<lparr>ge_hdr = cmd_hdr 0x10A, ge_scanout = 0, ge_padding = 0\<rparr>
     in (req, req_chain E W req 1056))"

definition create_cmd :: "env \<Rightarrow> gpu_world \<Rightarrow> u32 \<Rightarrow> u32 \<Rightarrow> gpu_req \<times> (u64 \<times> u32 \<times> bool) list" where
  "create_cmd E W w h = (let req = ReqCreate2D \<lparr>cr_hdr = cmd_hdr 0x101, cr_resourceId = 1, cr_format = 67,
       cr_width = w, cr_height = h\<rparr> in (req, req_chain E W req 24))"

definition attach_cmd :: "env \<Rightarrow> gpu_world \<Rightarrow> u32 \<Rightarrow> u32 \<Rightarrow> gpu_req \<times> (u64 \<times> u32 \<times> bool) list" where
  "attach_cmd E W fb len = (let req = ReqAttach \<lparr>ab_hdr = cmd_hdr 0x106, ab_resourceId = 1, nrEntries = 1\<rparr>
       \<lparr>me_addr = VMM_TO_DMA_ADDR E (ucast fb), me_length = len, me_padding = 0\<rparr>
     in (req, data_chain E W req 16 24))"

definition scanout_cmd :: "env \<Rightarrow> gpu_world \<Rightarrow> u32 \<Rightarrow> u32 \<Rightarrow> gpu_req \<times> (u64 \<times> u32 \<times> bool) list" where
  "scanout_cmd E W w h = (let req = ReqScanout \<lparr>so_hdr = cmd_hdr 0x103,
       so_r = \<lparr>r_x = 0, r_y = 0, r_width = w, r_height = h\<rparr>, so_scanoutId = 0, so_resourceId = 1\<rparr>
     in (req, req_chain E W req 24))"

definition published :: "gpu_req \<times> (u64 \<times> u32 \<times> bool) list \<Rightarrow> u32 \<times> gpu_req \<times> (u64 \<times> u32 \<times> bool) list option" where
  "published c = (0, fst c, Some (snd c))"

lemmas cmd_defs = display_cmd_def edid_cmd_def create_cmd_def attach_cmd_def scanout_cmd_def published_def Let_def

text \<open>What a step of the initialisation may change: the requests it made available and, if it says
  so, the screen and the frame buffer.\<close>

definition fb_step ::
  "(gpu_req \<times> (u64 \<times> u32 \<times> bool) list) list \<Rightarrow> Virtgpu \<Rightarrow> gpu_state \<Rightarrow> Virtgpu \<Rightarrow> gpu_state \<Rightarrow> bool" where
  "fb_step cs gpu s gpu' s' \<longleftrightarrow> the_gpu s' = Some gpu' \<and> gpu_ready gpu' \<and> g_virtGpu s' = g_virtGpu s \<and>
     sent s' = sent s @ map published cs \<and> edid gpu' = edid gpu"

lemma CMDGetDisplayInfo_step:
  assumes "the_gpu s = Some gpu" and "gpu_ready gpu" and "answers W"
    and "\<forall>req t k. pmodes (gw_resp W req t k) \<noteq> []"
  shows "\<exists>gpu' s'. CMDGetDisplayInfo E W s = Some s' \<and> fb_step [display_cmd E W] gpu s gpu' s' \<and> gpu_fb gpu' = gpu_fb gpu"
proof -
  let ?req = "ReqHdr (cmd_hdr 0x100)"
  obtain ok t k s' where r: "RequestResponse E W 0 ?req 408 s = Some (ok, gw_resp W ?req t k, s')"
    and q: "requested ?req (req_chain E W ?req 408) s s'"
    using RequestResponse_requested [OF assms(1-3)] by blast
  obtain gpu' where g: "the_gpu s' = Some gpu'" "gpu_ready gpu'" "edid gpu' = edid gpu" "gpu_fb gpu' = gpu_fb gpu"
    using requestedD(3) [OF q assms(1)] by blast
  have set: "\<exists>g2 s2. set_screen x s' = Some s2 \<and> fb_step [display_cmd E W] gpu s g2 s2 \<and> gpu_fb g2 = gpu_fb gpu" for x
    using g requestedD(1,2) [OF q assms(1)]
    by (auto simp: set_screen_def fb_step_def cmd_defs gpu_ready_def)
  have "\<exists>x. CMDGetDisplayInfo E W s = set_screen x s'"
    using r assms(4) by (cases ok; cases "pm_enabled (pmodes (gw_resp W ?req t k) ! 0) = 0")
      (auto simp: CMDGetDisplayInfo_def Let_def)
  with set show ?thesis by metis
qed

lemma request_step:
  assumes "the_gpu s = Some gpu" and "gpu_ready gpu" and "answers W"
  shows "\<exists>ok resp gpu' s'. RequestResponse E W 0 req n s = Some (ok, resp, s') \<and>
    (accepts W \<longrightarrow> ok) \<and> fb_step [(req, req_chain E W req n)] gpu s gpu' s' \<and> screen gpu' = screen gpu \<and> gpu_fb gpu' = gpu_fb gpu"
proof -
  obtain ok t k s' where r: "RequestResponse E W 0 req n s = Some (ok, gw_resp W req t k, s')"
    and q: "requested req (req_chain E W req n) s s'" and "accepts W \<longrightarrow> ok"
    using RequestResponse_requested [OF assms] by blast
  then show ?thesis using requestedD [OF q assms(1)] by (fastforce simp: fb_step_def published_def)
qed

lemma data_request_step:
  assumes "the_gpu s = Some gpu" and "gpu_ready gpu" and "answers W"
  shows "\<exists>ok resp gpu' s'. RequestDataResponse E W req m n s = Some (ok, resp, s') \<and>
    (accepts W \<longrightarrow> ok) \<and> fb_step [(req, data_chain E W req m n)] gpu s gpu' s' \<and> screen gpu' = screen gpu \<and> gpu_fb gpu' = gpu_fb gpu"
proof -
  obtain ok t k s' where r: "RequestDataResponse E W req m n s = Some (ok, gw_resp W req t k, s')"
    and q: "requested req (data_chain E W req m n) s s'" and "accepts W \<longrightarrow> ok"
    using RequestDataResponse_requested [OF assms] by blast
  then show ?thesis using requestedD [OF q assms(1)] by (fastforce simp: fb_step_def published_def)
qed

lemma fb_stepD: "fb_step cs gpu s gpu' s' \<Longrightarrow> the_gpu s' = Some gpu' \<and> gpu_ready gpu'"
  by (simp add: fb_step_def)

lemma fb_step_trans:
  "fb_step cs gpu s gpu' s' \<Longrightarrow> fb_step ds gpu' s' gpu2 s2 \<Longrightarrow> fb_step (cs @ ds) gpu s gpu2 s2"
  by (simp add: fb_step_def)

lemma CMDGetEdid_step:
  assumes "the_gpu s = Some gpu" and "gpu_ready gpu" and "answers W"
  shows "\<exists>gpu' s'. CMDGetEdid E W s = Some s' \<and> fb_step [edid_cmd E W] gpu s gpu' s'"
  using request_step [OF assms, of E "fst (edid_cmd E W)" 1056] by (auto simp: CMDGetEdid_def cmd_defs)

lemma VirtgpuInitResourceHelper_step:
  assumes "the_gpu s = Some gpu" and "gpu_ready gpu" and "answers W"
  shows "\<exists>ok gpu' s'. VirtgpuInitResourceHelper E W 1 s = Some (ok, s') \<and> screen gpu' = screen gpu \<and>
    (accepts W \<longrightarrow> ok) \<and> gpu_fb gpu' = gpu_fb gpu \<and> the_gpu s' = Some gpu' \<and>
    (ok \<longrightarrow> fb_step (let w = r_width (screen gpu); h = r_height (screen gpu)
              in [create_cmd E W w h, attach_cmd E W (gpu_fb gpu) (w * h * 4), scanout_cmd E W w h]) gpu s gpu' s')"
proof -
  let ?w = "r_width (screen gpu)" and ?h = "r_height (screen gpu)"
  obtain ok1 gpu1 s1 where c1: "CMDResourceCreate2D E W 1 s = Some (ok1, s1)" "accepts W \<longrightarrow> ok1"
    and f1: "fb_step [create_cmd E W ?w ?h] gpu s gpu1 s1" and k1: "screen gpu1 = screen gpu" "gpu_fb gpu1 = gpu_fb gpu"
    using request_step [OF assms, of E "fst (create_cmd E W ?w ?h)" 24] assms(1)
    by (auto simp: CMDResourceCreate2D_def cmd_defs)
  obtain ok2 gpu2 s2 where c2: "CMDResourceAttachBacking E W 1 (ucast (gpu_fb gpu)) (?w * ?h * 4) s1 = Some (ok2, s2)" "accepts W \<longrightarrow> ok2"
    and f2: "fb_step [attach_cmd E W (gpu_fb gpu) (?w * ?h * 4)] gpu1 s1 gpu2 s2"
    and k2: "screen gpu2 = screen gpu1" "gpu_fb gpu2 = gpu_fb gpu1"
    using data_request_step [of s1 gpu1 W E "fst (attach_cmd E W (gpu_fb gpu) (?w * ?h * 4))" 16 24] fb_stepD [OF f1] assms(3)
    by (auto simp: CMDResourceAttachBacking_def cmd_defs)
  obtain ok3 gpu3 s3 where c3: "CMDSetScanout E W \<lparr>r_x = 0, r_y = 0, r_width = ?w, r_height = ?h\<rparr> s2 = Some (ok3, s3)" "accepts W \<longrightarrow> ok3"
    and f3: "fb_step [scanout_cmd E W ?w ?h] gpu2 s2 gpu3 s3"
    and k3: "screen gpu3 = screen gpu2" "gpu_fb gpu3 = gpu_fb gpu2"
    using request_step [of s2 gpu2 W E "fst (scanout_cmd E W ?w ?h)" 24] fb_stepD [OF f2] assms(3)
    by (auto simp: CMDSetScanout_def cmd_defs)
  note f = fb_stepD [OF f1] fb_stepD [OF f2] fb_stepD [OF f3]
  show ?thesis
  proof (cases "ok1 \<and> ok2")
    case True
    then show ?thesis
      using c1 c2 c3 f k1 k2 k3 fb_step_trans [OF fb_step_trans [OF f1 f2] f3]
      by (auto simp: VirtgpuInitResourceHelper_def Let_def)
  next
    case False
    then show ?thesis
      using c1 c2 f k1 k2 by (auto simp: VirtgpuInitResourceHelper_def Let_def)
  qed
qed

definition fb_commands :: "env \<Rightarrow> gpu_world \<Rightarrow> Virtgpu \<Rightarrow> (gpu_req \<times> (u64 \<times> u32 \<times> bool) list) list" where
  "fb_commands E W gpu = (let w = r_width (screen gpu); h = r_height (screen gpu) in
     display_cmd E W # (if edid gpu then [edid_cmd E W] else []) @
     [create_cmd E W w h, attach_cmd E W (gpu_fb gpu) (w * h * 4), scanout_cmd E W w h])"

lemma VirtgpuInitResource_step:
  assumes "the_gpu s = Some gpu" and "gpu_ready gpu" and "answers W"
  shows "\<exists>ok gpu' s'. VirtgpuInitResource E W s = Some (ok, s') \<and> the_gpu s' = Some gpu' \<and>
    screen gpu' = screen gpu \<and>
    (accepts W \<and> (\<forall>t xs. sys_ret E t LOS_PhysPagesAlloc xs \<noteq> 0) \<longrightarrow> ok) \<and>
    (ok \<longrightarrow> gpu_fb gpu' \<noteq> 0 \<and> fb_step (let w = r_width (screen gpu); h = r_height (screen gpu)
              in [create_cmd E W w h, attach_cmd E W (gpu_fb gpu') (w * h * 4), scanout_cmd E W w h]) gpu s gpu' s')"
proof -
  let ?n = "ALIGN E (r_width (screen gpu) * r_height (screen gpu) * 4) 0x1000 div 0x1000"
  let ?p = "sys_ret E (hist s) LOS_PhysPagesAlloc [?n]" and ?t = "Call LOS_PhysPagesAlloc [?n] # hist s"
  let ?g = "gpu\<lparr>gpu_fb := ?p\<rparr>"
  let ?s = "set_gpu ?g (s\<lparr>hist := ?t\<rparr>)"
  have "the_gpu ?s = Some ?g" "gpu_ready ?g"
    using assms(2) by (simp_all add: gpu_ready_def)
  from VirtgpuInitResourceHelper_step [OF this assms(3), of E]
  show ?thesis
    using assms(1) by (auto simp: VirtgpuInitResource_def VirtgpuFbPageSize_def io_defs Let_def fb_step_def)
qed

text \<open>C13. Setting up the frame buffer ends on every device that answers its requests, succeeds when
  the device accepts them and the frame buffer can be allocated, and when it reports success the device was given exactly these commands in this order: query the display, query
  the EDID if it was negotiated, create the resource with the screen's size, attach the allocated
  frame buffer with four bytes per pixel as its backing, and show the whole screen from it. Each
  command reached the device as a chain of the request (and its data), which the device only reads,
  and the response buffer, which it may write.\<close>

theorem up_fbinitialize_commands:
  assumes "the_gpu s = Some gpu" and "gpu_ready gpu" and "answers W"
    and "\<forall>req t k. pmodes (gw_resp W req t k) \<noteq> []"
  shows "\<exists>ret s' gpu'. up_fbinitialize E W 0 s = Some (ret, s') \<and> the_gpu s' = Some gpu' \<and>
    (ret = 0 \<and> gpu_fb gpu' \<noteq> 0 \<and> sent s' = sent s @ map published (fb_commands E W gpu') \<or>
     ret = -1 \<and> \<not> (accepts W \<and> (\<forall>t xs. sys_ret E t LOS_PhysPagesAlloc xs \<noteq> 0)))"
proof -
  obtain g1 s1 where c1: "CMDGetDisplayInfo E W s = Some s1" and f1: "fb_step [display_cmd E W] gpu s g1 s1"
    using CMDGetDisplayInfo_step [OF assms, of E] by blast
  obtain s2 g2 where c2: "(if edid g1 then CMDGetEdid E W s1 else Some s1) = Some s2"
    and f2: "fb_step (if edid g1 then [edid_cmd E W] else []) g1 s1 g2 s2"
    using CMDGetEdid_step [of s1 g1 W E] fb_stepD [OF f1] assms(3) by (cases "edid g1") (auto simp: fb_step_def)
  obtain ok g3 s3 where c3: "VirtgpuInitResource E W s2 = Some (ok, s3)" and g3: "the_gpu s3 = Some g3"
    "screen g3 = screen g2" and ok: "accepts W \<and> (\<forall>t xs. sys_ret E t LOS_PhysPagesAlloc xs \<noteq> 0) \<longrightarrow> ok"
    and f3: "ok \<longrightarrow> gpu_fb g3 \<noteq> 0 \<and> fb_step
      (let w = r_width (screen g2); h = r_height (screen g2)
       in [create_cmd E W w h, attach_cmd E W (gpu_fb g3) (w * h * 4), scanout_cmd E W w h]) g2 s2 g3 s3"
    using VirtgpuInitResource_step [of s2 g2 W E] fb_stepD [OF f2] assms(3) by blast
  have run: "up_fbinitialize E W 0 s = Some (if ok then (0, s3) else (-1, s3))"
    using c1 c2 c3 fb_stepD [OF f1] by (simp add: up_fbinitialize_def)
  show ?thesis
  proof (cases ok)
    case True
    with f3 have "sent s3 = sent s @ map published (fb_commands E W g3)"
      using f1 f2 g3 by (auto simp: fb_step_def fb_commands_def Let_def)
    with True f3 g3 run show ?thesis by simp
  qed (use run g3 ok in auto)
qed

subsection \<open>A concrete machine\<close>

text \<open>A graphics device that answers every request at the second poll at the latest, with its fence and
  a 640 by 480 display.\<close>

definition example_gpu :: Virtgpu where
  "example_gpu = \<lparr>gpu_dev = \<lparr>base = 0x0A003E00, irq = 79,
       vq = [\<lparr>qsz = 4, q_last = 0, q_desc = 0x2000, q_avail = 0x2100, q_used = 0x2200\<rparr>,
             \<lparr>qsz = 2, q_last = 0, q_desc = 0x2300, q_avail = 0x2400, q_used = 0x2500\<rparr>]\<rparr>,
     gpu_rings = [zero_vring 4, zero_vring 2], realTimer = 0,
     screen = \<lparr>r_x = 0, r_y = 0, r_width = 0, r_height = 0\<rparr>, gpu_fb = 0, edid = False,
     flushReq = \<lparr>fl_hdr = cmd_hdr 0, fl_r = \<lparr>r_x = 0, r_y = 0, r_width = 0, r_height = 0\<rparr>,
       fl_resourceId = 0, fl_padding = 0\<rparr>,
     transReq = \<lparr>tr_hdr = cmd_hdr 0, tr_r = \<lparr>r_x = 0, r_y = 0, r_width = 0, r_height = 0\<rparr>, tr_offset = 0,
       tr_resourceId = 0, tr_padding = 0\<rparr>\<rparr>"

definition example_world :: gpu_world where
  "example_world = \<lparr>gw_block = (\<lambda>p. example_gpu), gw_stack = (\<lambda>req. (0x8000, 0x8100, 0x8800)),
     gw_used = (\<lambda>queue req t k. of_nat k),
     gw_resp = (\<lambda>req t k. \<lparr>di_hdr = (cmd_hdr 0x1100)\<lparr>fenceId := fenceId (req_hdr req)\<rparr>,
       pmodes = [\<lparr>pm_r = \<lparr>r_x = 0, r_y = 0, r_width = 640, r_height = 480\<rparr>, pm_enabled = 1, pm_flags = 0\<rparr>]\<rparr>),
     gw_timer = (\<lambda>t. 1), SIZEOF_Virtgpu = 0x200, OFF_timer = 0x80, OFF_flushReq = 0xC0, OFF_transReq = 0x100,
     OFF_resp = 0x140, FB_FMT_RGB32 = 1, fb_coord_t = (\<lambda>x. x), VM_MAP_REGION_FLAG_PERM_EXECUTE = 16,
     VM_MAP_REGION_FLAG_UNCACHED = 1\<rparr>"

lemma example_world_answers: "answers example_world"
proof -
  have "\<exists>k. lst \<noteq> (of_nat k :: u16)" for lst
    by (rule exI [of _ "if lst = 0 then 1 else 0"]) simp
  then show ?thesis
    by (simp add: answers_def answered_def example_world_def)
qed

lemma example_gpu_ready: "gpu_ready example_gpu"
  by (simp add: gpu_ready_def example_gpu_def)

definition example_gpu_state :: gpu_state where
  "example_gpu_state = \<lparr>heap = [0x1000 \<mapsto> example_gpu], g_virtGpu = 0x1000, sent = [], hist = []\<rparr>"

lemma example_gpu_state_simps [simp]: "the_gpu example_gpu_state = Some example_gpu" "sent example_gpu_state = []"
  by (simp_all add: example_gpu_state_def the_gpu_def)

lemma up_fbinitialize_commands_witness:
  "\<exists>s' gpu'. up_fbinitialize (example_env (\<lambda>_. 0)) example_world 0 example_gpu_state = Some (0, s') \<and>
     the_gpu s' = Some gpu' \<and> gpu_fb gpu' \<noteq> 0 \<and>
     sent s' = map published (fb_commands (example_env (\<lambda>_. 0)) example_world gpu')"
  using up_fbinitialize_commands [of example_gpu_state example_gpu example_world "example_env (\<lambda>_. 0)"]
    example_world_answers example_gpu_ready by (auto simp: example_world_def accepts_def cmd_hdr_def)

subsection \<open>The refresh timer\<close>

text \<open>A pair of descriptors prepared for the refresh: a request followed by the shared response.\<close>

definition pair_ok :: "env \<Rightarrow> u32 \<Rightarrow> VirtqDesc list \<Rightarrow> nat \<Rightarrow> bool" where
  "pair_ok E respp ds h \<longleftrightarrow> d_flag (ds ! h) = 1 \<and> d_next (ds ! h) = of_nat (h + 1) \<and>
     pAddr (ds ! (h + 1)) = VMM_TO_DMA_ADDR E (ucast respp) \<and> d_len (ds ! (h + 1)) = 24 \<and> d_flag (ds ! (h + 1)) = 2"

text \<open>The two requests of a refresh, as the buffers the device reads.\<close>

definition refresh_bufs :: "env \<Rightarrow> gpu_world \<Rightarrow> u32 \<Rightarrow> (u64 \<times> u32) set" where
  "refresh_bufs E W p = {(VMM_TO_DMA_ADDR E (ucast (p + OFF_transReq W)), 56),
     (VMM_TO_DMA_ADDR E (ucast (p + OFF_flushReq W)), 48)}"

definition outstanding :: "vring \<Rightarrow> u16 list" where
  "outstanding r = ring_view (avail_ring r) 4 (used_index r) (avail_index r)"

definition queue_inv :: "env \<Rightarrow> gpu_world \<Rightarrow> u32 \<Rightarrow> Virtq \<Rightarrow> vring \<Rightarrow> bool" where
  "queue_inv E W p q r \<longleftrightarrow> qsz q = 4 \<and> vring_ok 4 r \<and> even (unat (q_last q)) \<and>
     pair_ok E (p + OFF_resp W) (descs r) 0 \<and> pair_ok E (p + OFF_resp W) (descs r) 2 \<and>
     unat (avail_index r - used_index r) \<le> 4 \<and>
     (\<forall>h\<in>set (outstanding r). (h = 0 \<or> h = 2) \<and>
        (pAddr (descs r ! unat h), d_len (descs r ! unat h)) \<in> refresh_bufs E W p)"

definition refresh_inv :: "env \<Rightarrow> gpu_world \<Rightarrow> gpu_state \<Rightarrow> bool" where
  "refresh_inv E W s \<longleftrightarrow> (\<exists>gpu. the_gpu s = Some gpu \<and> gpu_ready gpu \<and>
     queue_inv E W (g_virtGpu s) (vq (gpu_dev gpu) ! 0) (gpu_rings gpu ! 0))"

lemma pair_chain:
  assumes "pair_ok E respp (descs r) (unat h)" and "h = 0 \<or> h = 2" and "vring_ok 4 r"
  shows "device_chain r h = Some [(pAddr (descs r ! unat h), d_len (descs r ! unat h), False),
    (VMM_TO_DMA_ADDR E (ucast respp), 24, True)]"
  using assms by (auto simp: pair_ok_def device_chain_def vring_ok_def)

lemma distance_room:
  fixes a u :: u16
  assumes "unat (a - u) \<le> 4" and "index_distance a u < 4"
  shows "unat (a - u) < 4"
proof -
  have "int (unat a) - int (unat u) < 4 \<and> int (unat u) - int (unat a) < 4"
    using assms(2) by (simp add: index_distance_def abs_less_iff)
  moreover have "unat (a - u) = (if unat u \<le> unat a then unat a - unat u else unat a + 65536 - unat u)"
    by (simp add: unat_sub_if_size word_size)
  ultimately show ?thesis
    using assms(1) unat_u16_bound [of u] by (auto simp only: split: if_splits)
qed

lemma even_slot:
  assumes "even (unat (l :: u16))"
  shows "unat l mod 4 = 0 \<or> unat l mod 4 = 2" and "even (unat (l + 2))"
proof -
  show "unat l mod 4 = 0 \<or> unat l mod 4 = 2" using assms by presburger
  have "unat (l + 2) = (unat l + 2) mod 65536"
    by (simp add: unat_word_ariths)
  then show "even (unat (l + 2))" using assms by (simp add: dvd_mod)
qed

lemma queue_inv_push:
  fixes E W p q r head
  defines "head \<equiv> unat (q_last q) mod 4"
  assumes inv: "queue_inv E W p q r" and room: "index_distance (avail_index r) (used_index r) < 4"
    and buf: "(a, n) \<in> refresh_bufs E W p"
    and r1: "r1 = r\<lparr>descs := (descs r)[head := (descs r ! head)\<lparr>pAddr := a, d_len := n\<rparr>]\<rparr>"
    and r2: "avail_put (qsz q) (unat (avail_index r1)) (of_nat head) r1 = Some r2"
  shows "queue_inv E W p (q\<lparr>q_last := q_last q + 2\<rparr>) (avail_add 1 r2)"
proof -
  have i: "qsz q = 4" "vring_ok 4 r" "even (unat (q_last q))" "unat (avail_index r - used_index r) \<le> 4"
    using inv by (simp_all add: queue_inv_def)
  have h: "head = 0 \<or> head = 2" using even_slot(1) [OF i(3)] by (simp add: head_def)
  have len: "length (descs r) = 4" "length (avail_ring r) = 4" using i(2) by (simp_all add: vring_ok_def)
  have ok1: "vring_ok 4 r1" using i(2) by (simp add: r1 vring_ok_def)
  have same: "avail_index r1 = avail_index r" "used_index r1 = used_index r" "avail_ring r1 = avail_ring r"
    by (simp_all add: r1)
  have r2': "r2 = r1\<lparr>avail_ring := (avail_ring r1)[unat (avail_index r1) mod 4 := of_nat head]\<rparr>"
    using r2 i(1) vring_okD(2) [OF ok1] by (simp add: avail_put_in)
  have lt: "unat (avail_index r - used_index r) < 4"
    by (rule distance_room [OF i(4) room])
  have view: "outstanding (avail_add 1 r2) = outstanding r @ [of_nat head]"
    using ring4.avail_put_view [OF ok1, of "qsz q" "used_index r1" "of_nat head" r2] i(1) lt r2 r2'
    by (simp add: outstanding_def same)
  have cnt: "unat (avail_index r + 1 - used_index r) \<le> 4"
    using ring4.unat_diff_Suc [OF lt] lt by simp
  have old: "h' = 0 \<or> h' = 2" "(pAddr (descs r ! unat h'), d_len (descs r ! unat h')) \<in> refresh_bufs E W p"
    if "h' \<in> set (outstanding r)" for h'
    using inv that by (auto simp: queue_inv_def)
  have new: "(h' = 0 \<or> h' = 2) \<and> (pAddr (descs r1 ! unat h'), d_len (descs r1 ! unat h')) \<in> refresh_bufs E W p"
    if "h' \<in> set (outstanding (avail_add 1 r2))" for h'
    using that h old [of h'] buf len unfolding view by (auto simp: r1 nth_list_update)
  have pairs: "pair_ok E (p + OFF_resp W) (descs r1) 0" "pair_ok E (p + OFF_resp W) (descs r1) 2"
    using inv h len by (auto simp: queue_inv_def pair_ok_def r1 nth_list_update)
  show ?thesis
    unfolding queue_inv_def using i ok1 pairs new cnt even_slot(2) [OF i(3)] r2'
    by (simp add: same vring_ok_def)
qed


lemma refresh_defs_simps:
  "ring_slot (unat l) 4 = Some (unat l mod 4)"
  by (simp add: ring_slot_def)

lemma RequestNoResponse_inv:
  assumes inv: "refresh_inv E W s"
    and buf: "(VMM_TO_DMA_ADDR E (ucast (g_virtGpu s + off)), req_size req) \<in> refresh_bufs E W (g_virtGpu s)"
  shows "\<exists>s'. RequestNoResponse E 0 req off notify s = Some s' \<and> refresh_inv E W s' \<and> g_virtGpu s' = g_virtGpu s"
proof -
  obtain gpu where g: "the_gpu s = Some gpu" "gpu_ready gpu"
    and q: "queue_inv E W (g_virtGpu s) (vq (gpu_dev gpu) ! 0) (gpu_rings gpu ! 0)"
    using inv by (auto simp: refresh_inv_def)
  let ?q = "vq (gpu_dev gpu) ! 0" and ?r = "gpu_rings gpu ! 0"
  let ?h = "unat (q_last ?q) mod 4"
  have i: "qsz ?q = 4" "vring_ok 4 ?r" using q by (simp_all add: queue_inv_def)
  show ?thesis
  proof (cases "index_distance (avail_index ?r) (used_index ?r) < 4")
    case True
    define r1 where "r1 = ?r\<lparr>descs := (descs ?r)[?h := (descs ?r ! ?h)
      \<lparr>pAddr := VMM_TO_DMA_ADDR E (ucast (g_virtGpu s + off)), d_len := req_size req\<rparr>]\<rparr>"
    have d: "desc_upd ?h (\<lambda>d. d\<lparr>pAddr := VMM_TO_DMA_ADDR E (ucast (g_virtGpu s + off)), d_len := req_size req\<rparr>) ?r = Some r1"
      using vring_okD(1) [OF i(2)] by (simp add: desc_upd_in r1_def)
    have "vring_ok 4 r1" using i(2) by (simp add: r1_def vring_ok_def)
    then obtain r2 where r2: "avail_put (qsz ?q) (unat (avail_index r1)) (of_nat ?h) r1 = Some r2"
      using i(1) by (simp add: avail_put_in vring_okD(2))
    let ?q2 = "?q\<lparr>q_last := q_last ?q + 2\<rparr>"
    have inv2: "queue_inv E W (g_virtGpu s) ?q2 (avail_add 1 r2)"
      by (rule queue_inv_push [OF q True buf r1_def r2])
    let ?g = "set_queue 0 ?q2 (avail_add 1 r2) gpu"
    have ready2: "gpu_ready ?g"
      using g(2) inv2 by (intro gpu_ready_set_queue) (simp_all add: queue_inv_def)
    let ?t = "if notify then WRITE_UINT32 0 (base (gpu_dev gpu) + 0x50) (hist s) else hist s"
    have run: "RequestNoResponse E 0 req off notify s =
        Some ((set_gpu ?g s)\<lparr>sent := sent s @ [(0, req, device_chain (avail_add 1 r2) (of_nat ?h))], hist := ?t\<rparr>)"
      using g d r2 True i(1) by (simp add: RequestNoResponse_def get_queue_in refresh_defs_simps Let_def)
    show ?thesis
      unfolding run using ready2 inv2 g(2) by (auto simp: refresh_inv_def gpu_ready_def)
  next
    case False
    then show ?thesis
      using g i(1) inv by (simp add: RequestNoResponse_def get_queue_in refresh_defs_simps)
  qed
qed

lemma NormOpsRefresh_inv:
  assumes "refresh_inv E W s"
  shows "\<exists>s'. NormOpsRefresh E W s = Some s' \<and> refresh_inv E W s' \<and> g_virtGpu s' = g_virtGpu s"
proof -
  obtain gpu where g: "the_gpu s = Some gpu"
    using assms by (auto simp: refresh_inv_def)
  obtain s1 where s1: "RequestNoResponse E 0 (ReqTransfer (transReq gpu)) (OFF_transReq W) False s = Some s1"
    "refresh_inv E W s1" "g_virtGpu s1 = g_virtGpu s"
    using RequestNoResponse_inv [OF assms, of "OFF_transReq W" "ReqTransfer (transReq gpu)" False]
    by (auto simp: refresh_bufs_def)
  obtain gpu1 where g1: "the_gpu s1 = Some gpu1"
    using s1(2) by (auto simp: refresh_inv_def)
  obtain s2 where "RequestNoResponse E 0 (ReqFlush (flushReq gpu1)) (OFF_flushReq W) True s1 = Some s2"
    "refresh_inv E W s2" "g_virtGpu s2 = g_virtGpu s1"
    using RequestNoResponse_inv [OF s1(2), of "OFF_flushReq W" "ReqFlush (flushReq gpu1)" True]
    by (auto simp: refresh_bufs_def)
  then show ?thesis using g g1 s1 by (simp add: NormOpsRefresh_def)
qed

text \<open>The timer ticks and the device completes the requests in order.\<close>

inductive refresh_step :: "env \<Rightarrow> gpu_world \<Rightarrow> gpu_state \<Rightarrow> gpu_state \<Rightarrow> bool" for E W where
  tick: "NormOpsRefresh E W s = Some s' \<Longrightarrow> refresh_step E W s s'"
| complete: "the_gpu s = Some gpu \<Longrightarrow> get_queue gpu 0 = Some (q, r) \<Longrightarrow> used_index r \<noteq> avail_index r \<Longrightarrow>
    refresh_step E W s (set_gpu (set_queue 0 q (r\<lparr>used_index := used_index r + 1\<rparr>) gpu) s)"

lemma queue_inv_complete:
  assumes "queue_inv E W p q r" and "used_index r \<noteq> avail_index r"
  shows "queue_inv E W p q (r\<lparr>used_index := used_index r + 1\<rparr>)"
proof -
  have len: "unat (avail_index r - used_index r) \<le> 4"
    using assms(1) by (simp add: queue_inv_def)
  have view: "outstanding r = (avail_ring r ! (unat (used_index r) mod 4)) # outstanding (r\<lparr>used_index := used_index r + 1\<rparr>)"
    unfolding outstanding_def using ring4.view_get [OF assms(2) len, of "avail_ring r"] by simp
  have "length (outstanding r) = unat (avail_index r - used_index r)"
    "length (outstanding (r\<lparr>used_index := used_index r + 1\<rparr>)) = unat (avail_index r - (used_index r + 1))"
    by (simp_all add: outstanding_def)
  with view len have "unat (avail_index r - (used_index r + 1)) \<le> 4" by simp
  with assms(1) view show ?thesis by (auto simp: queue_inv_def vring_ok_def)
qed

lemma refresh_step_inv:
  assumes "refresh_step E W s s'" and "refresh_inv E W s"
  shows "refresh_inv E W s'"
  using assms
proof cases
  case tick
  then show ?thesis using NormOpsRefresh_inv [OF assms(2)] by auto
next
  case (complete gpu q r)
  then have g: "gpu_ready gpu" and i: "queue_inv E W (g_virtGpu s) q r"
    using assms(2) by (auto simp: refresh_inv_def get_queue_in)
  have "gpu_ready (set_queue 0 q (r\<lparr>used_index := used_index r + 1\<rparr>) gpu)"
    using g i by (intro gpu_ready_set_queue) (simp_all add: queue_inv_def vring_ok_def)
  then show ?thesis
    using complete queue_inv_complete [OF i complete(4) [symmetric, THEN not_sym]] g by (auto simp: refresh_inv_def gpu_ready_def)
qed

lemma populate_pair_step:
  "i < n \<Longrightarrow> i + 1 < length (descs r) \<Longrightarrow> populate_pairs E respp i n r = populate_pairs E respp (i + 2) n
     (r\<lparr>descs := (descs r)[i := (descs r ! i)\<lparr>d_flag := 1, d_next := of_nat (i + 1)\<rparr>,
        i + 1 := (descs r ! (i + 1))\<lparr>pAddr := VMM_TO_DMA_ADDR E (ucast respp), d_len := 24, d_flag := 2\<rparr>]\<rparr>)"
  by (subst populate_pairs.simps) (simp add: desc_upd_in)

lemma populate_end: "\<not> i < n \<Longrightarrow> populate_pairs E respp i n r = Some r"
  by (subst populate_pairs.simps) simp

lemma populate_pairs_4:
  assumes "vring_ok 4 r"
  shows "\<exists>r'. populate_pairs E respp 0 4 r = Some r' \<and> vring_ok 4 r' \<and> pair_ok E respp (descs r') 0 \<and>
    pair_ok E respp (descs r') 2 \<and> avail_index r' = avail_index r \<and> used_index r' = used_index r \<and>
    avail_ring r' = avail_ring r"
  using assms by (simp add: populate_pair_step populate_end vring_ok_def pair_ok_def nth_list_update)

lemma populate_pairs_2:
  assumes "vring_ok 2 r"
  shows "\<exists>r'. populate_pairs E respp 0 2 r = Some r' \<and> vring_ok 2 r'"
  using assms by (simp add: populate_pair_step populate_end vring_ok_def)

lemma PopulateVirtQ_inv:
  assumes g: "the_gpu s = Some gpu" and ready: "gpu_ready gpu"
    and idle: "avail_index (gpu_rings gpu ! 0) = used_index (gpu_rings gpu ! 0)"
  shows "\<exists>gpu' s'. PopulateVirtQ E W s = Some s' \<and> refresh_inv E W s' \<and> the_gpu s' = Some gpu' \<and>
    outstanding (gpu_rings gpu' ! 0) = []"
proof -
  let ?p = "g_virtGpu s + OFF_resp W"
  let ?q0 = "(vq (gpu_dev gpu) ! 0)\<lparr>q_last := 0\<rparr>" and ?q1 = "(vq (gpu_dev gpu) ! 1)\<lparr>q_last := 0\<rparr>"
  obtain r0 where r0: "populate_pairs E ?p 0 4 (gpu_rings gpu ! 0) = Some r0" "vring_ok 4 r0"
    "pair_ok E ?p (descs r0) 0" "pair_ok E ?p (descs r0) 2" "avail_index r0 = used_index r0"
    using populate_pairs_4 [of "gpu_rings gpu ! 0" E ?p] ready idle by (auto simp: gpu_ready_def)
  obtain r1 where r1: "populate_pairs E ?p 0 2 (gpu_rings gpu ! 1) = Some r1" "vring_ok 2 r1"
    using populate_pairs_2 [of "gpu_rings gpu ! 1" E ?p] ready by (auto simp: gpu_ready_def)
  let ?g = "set_queue 1 ?q1 r1 (set_queue 0 ?q0 r0 gpu)"
  have pop: "populate_queues E ?p 0 [4, 2] gpu = Some ?g"
    using ready r0 r1 by (simp add: gpu_ready_def get_queue_def)
  define tr where "tr = (transReq gpu)\<lparr>tr_hdr := (tr_hdr (transReq gpu))\<lparr>h_type := 0x105\<rparr>,
    tr_r := screen gpu, tr_resourceId := 1\<rparr>"
  define fl where "fl = (flushReq gpu)\<lparr>fl_hdr := (fl_hdr (flushReq gpu))\<lparr>h_type := 0x104\<rparr>,
    fl_r := screen gpu, fl_resourceId := 1\<rparr>"
  have run: "PopulateVirtQ E W s = Some (set_gpu (?g\<lparr>transReq := tr, flushReq := fl\<rparr>) s)"
    using g pop by (simp add: PopulateVirtQ_def Let_def tr_def fl_def del: populate_queues.simps)
  have "outstanding r0 = []" "length (vq (gpu_dev gpu)) = 2" "length (gpu_rings gpu) = 2" "qsz (vq (gpu_dev gpu) ! 0) = 4"
    using r0(5) ready by (simp_all add: outstanding_def gpu_ready_def)
  moreover from this have "gpu_ready (?g\<lparr>transReq := tr, flushReq := fl\<rparr>)"
    using r0(2) r1(2) by (simp add: gpu_ready_def set_queue_def)
  ultimately show ?thesis
    unfolding run using r0 by (simp add: refresh_inv_def queue_inv_def set_queue_def)
qed

text \<open>C12. The refresh timer and the device, from the moment \<open>PopulateVirtQ\<close> has prepared the
  descriptors: after any sequence of timer ticks and completions, across the wrap-around of the
  indices, at most four requests are outstanding, so the available ring is never overrun, each of them
  heads one of the two prepared descriptor pairs, and the device finds there a chain of one of the
  two refresh requests, which it reads, and the shared response. The next tick always ends.\<close>

theorem refresh_never_overruns:
  assumes "the_gpu s = Some gpu" and "gpu_ready gpu"
    and "avail_index (gpu_rings gpu ! 0) = used_index (gpu_rings gpu ! 0)"
    and "PopulateVirtQ E W s = Some s0" and "(refresh_step E W)\<^sup>*\<^sup>* s0 s'"
  shows "\<exists>gpu' r. the_gpu s' = Some gpu' \<and> r = gpu_rings gpu' ! 0 \<and> length (outstanding r) \<le> 4 \<and>
    (\<forall>h\<in>set (outstanding r). h \<in> {0, 2} \<and> (\<exists>(a, n)\<in>refresh_bufs E W (g_virtGpu s').
       device_chain r h = Some [(a, n, False), (VMM_TO_DMA_ADDR E (ucast (g_virtGpu s' + OFF_resp W)), 24, True)])) \<and>
    (\<exists>s''. NormOpsRefresh E W s' = Some s'')"
proof -
  have "refresh_inv E W s0"
    using PopulateVirtQ_inv [OF assms(1-3), of E W] assms(4) by auto
  with assms(5) have inv: "refresh_inv E W s'"
    by (induction rule: rtranclp_induct) (auto intro: refresh_step_inv)
  then obtain gpu' where g: "the_gpu s' = Some gpu'"
    and q: "queue_inv E W (g_virtGpu s') (vq (gpu_dev gpu') ! 0) (gpu_rings gpu' ! 0)"
    by (auto simp: refresh_inv_def)
  let ?r = "gpu_rings gpu' ! 0"
  have "device_chain ?r h = Some [(pAddr (descs ?r ! unat h), d_len (descs ?r ! unat h), False),
      (VMM_TO_DMA_ADDR E (ucast (g_virtGpu s' + OFF_resp W)), 24, True)]" if "h \<in> set (outstanding ?r)" for h
    using that q by (intro pair_chain) (auto simp: queue_inv_def)
  then show ?thesis
    using g q NormOpsRefresh_inv [OF inv] by (force simp: queue_inv_def outstanding_def)
qed

lemma refresh_never_overruns_witness:
  "\<exists>s0 s1 s2. PopulateVirtQ (example_env (\<lambda>_. 0)) example_world example_gpu_state = Some s0 \<and>
     NormOpsRefresh (example_env (\<lambda>_. 0)) example_world s0 = Some s1 \<and>
     NormOpsRefresh (example_env (\<lambda>_. 0)) example_world s1 = Some s2"
proof -
  have idle: "avail_index (gpu_rings example_gpu ! 0) = used_index (gpu_rings example_gpu ! 0)"
    by (simp add: example_gpu_def zero_vring_def)
  obtain s0 where s0: "PopulateVirtQ (example_env (\<lambda>_. 0)) example_world example_gpu_state = Some s0"
    using PopulateVirtQ_inv [OF _ example_gpu_ready idle, of example_gpu_state "example_env (\<lambda>_. 0)" example_world] by auto
  note r = refresh_never_overruns [OF _ example_gpu_ready idle s0]
  obtain s1 where s1: "NormOpsRefresh (example_env (\<lambda>_. 0)) example_world s0 = Some s1"
    using r [of s0] by auto
  show ?thesis
    using s0 s1 r [of s1] refresh_step.tick [OF s1] by auto
qed

subsection \<open>Negotiation\<close>

interpretation gpu_features: virtio_driver Gpu_Feature0 Gpu_Feature1
proof (rule virtio_driverI)
  show "honest_callback Gpu_Feature0"
    by (rule honest_callbackI [of _ 1]) (auto simp: Gpu_Feature0_def split: if_splits)
qed (simp add: Gpu_Feature1_def)

subsection \<open>Release\<close>

lemma VirtgpuDeInit_run:
  assumes "heap s p = Some gpu" and "gpu_fb gpu \<noteq> 0 \<longrightarrow> g_virtGpu s = p"
  shows "VirtgpuDeInit E W p s = Some (s\<lparr>heap := (heap s)(p := None), g_virtGpu := 0, hist :=
     Call LOS_DmaMemFree [p] #
     (if gpu_fb gpu = 0 then [] else [Call LOS_PhysPagesFree [gpu_fb gpu,
        ALIGN E (r_width (screen gpu) * r_height (screen gpu) * 4) 0x1000 div 0x1000]]) @
     (if realTimer gpu = 0 then [] else [Call OsalTimerDelete [p + OFF_timer W]]) @ hist s\<rparr>)"
  using assms by (simp add: VirtgpuDeInit_def VirtgpuFbPageSize_def the_gpu_def io_defs)

lemma VirtgpuDeInit_dead: "heap s p = None \<Longrightarrow> VirtgpuDeInit E W p s = None"
  by (simp add: VirtgpuDeInit_def)

text \<open>C14. The two ways to release the driver. HDF's release of a live device deletes the timer, returns
  the frame buffer's pages and frees the DMA block exactly once, and the frame-buffer interface's
  release after it finds nothing to do. In the other order it is a use after free: the frame-buffer
  interface's release frees the block but HDF's private pointer still refers to it.\<close>

theorem HdfVirtgpuRelease_frees_once:
  assumes "the_gpu s = Some gpu" and "g_virtGpu s = p" and "p \<noteq> 0"
  shows "(\<exists>s'. HdfVirtgpuRelease E W False p s = Some s' \<and> heap s' p = None \<and>
      calls_of LOS_DmaMemFree (hist s') = calls_of LOS_DmaMemFree (hist s) @ [[p]] \<and>
      calls_of LOS_PhysPagesFree (hist s') = calls_of LOS_PhysPagesFree (hist s) @
        (if gpu_fb gpu = 0 then [] else [[gpu_fb gpu, the (VirtgpuFbPageSize E s) div PAGE_SIZE]]) \<and>
      calls_of OsalTimerDelete (hist s') = calls_of OsalTimerDelete (hist s) @
        (if realTimer gpu = 0 then [] else [[p + OFF_timer W]]) \<and>
      up_fbuninitialize E W 0 s' = Some s') \<and>
    (\<exists>s'. up_fbuninitialize E W 0 s = Some s' \<and> HdfVirtgpuRelease E W False p s' = None)"
proof -
  have h: "heap s p = Some gpu" using assms(1,2) by (simp add: the_gpu_def)
  obtain s' where s': "VirtgpuDeInit E W p s = Some s'" "heap s' p = None" "g_virtGpu s' = 0"
    "calls_of LOS_DmaMemFree (hist s') = calls_of LOS_DmaMemFree (hist s) @ [[p]]"
    "calls_of LOS_PhysPagesFree (hist s') = calls_of LOS_PhysPagesFree (hist s) @
        (if gpu_fb gpu = 0 then [] else [[gpu_fb gpu, the (VirtgpuFbPageSize E s) div PAGE_SIZE]])"
    "calls_of OsalTimerDelete (hist s') = calls_of OsalTimerDelete (hist s) @
        (if realTimer gpu = 0 then [] else [[p + OFF_timer W]])"
    using VirtgpuDeInit_run [OF h, where E = E and W = W] assms by (auto simp: VirtgpuFbPageSize_def)
  then show ?thesis
    using assms VirtgpuDeInit_dead [OF s'(2)] by (simp add: HdfVirtgpuRelease_def up_fbuninitialize_def)
qed

lemma HdfVirtgpuRelease_frees_once_witness:
  "\<exists>s'. up_fbuninitialize (example_env (\<lambda>_. 0)) example_world 0 example_gpu_state = Some s' \<and>
     HdfVirtgpuRelease (example_env (\<lambda>_. 0)) example_world False 0x1000 s' = None"
proof -
  have "the_gpu example_gpu_state = Some example_gpu" "g_virtGpu example_gpu_state = 0x1000" "(0x1000 :: u32) \<noteq> 0"
    by (simp_all add: example_gpu_state_def the_gpu_def)
  from HdfVirtgpuRelease_frees_once [OF this, where E = "example_env (\<lambda>_. 0)" and W = example_world]
  show ?thesis by blast
qed

text \<open>\<open>VirtgpuInitDev\<close> does not clear the DMA block. When no device is found, its error path reads
  the block's timer and frame-buffer fields as the allocator left them: a non-zero frame-buffer field
  sends it through the null global pointer, and a non-zero timer field deletes a timer that was never
  created. Only on a block with a zero frame-buffer field does it free the block once and return NULL.\<close>

theorem VirtgpuInitDev_uncleared_block:
  assumes "p = sys_ret E (hist s) LOS_DmaMemAlloc [SIZEOF_Virtgpu W + VirtqSize E 4 + VirtqSize E 2]" and "p \<noteq> 0"
    and "VirtmmioDiscover E VIRTMMIO_DEVICE_ID_GPU (gpu_dev (gw_block W p))
      (Call LOS_DmaMemAlloc [SIZEOF_Virtgpu W + VirtqSize E 4 + VirtqSize E 2] # hist s) = (False, dev, t)"
    and "g_virtGpu s = 0" and "heap s 0 = None"
  shows "(VirtgpuInitDev E W s = None \<longleftrightarrow> gpu_fb (gw_block W p) \<noteq> 0) \<and>
    (\<forall>r s'. VirtgpuInitDev E W s = Some (r, s') \<longrightarrow> r = 0 \<and> heap s' p = None \<and>
       calls_of LOS_DmaMemFree (hist s') = calls_of LOS_DmaMemFree (hist s) @ [[p]] \<and>
       calls_of OsalTimerDelete (hist s') = calls_of OsalTimerDelete (hist s) @
         (if realTimer (gw_block W p) = 0 then [] else [[p + OFF_timer W]]))"
proof -
  let ?g = "(gw_block W p)\<lparr>gpu_dev := dev\<rparr>"
  let ?s = "s\<lparr>heap := (heap s)(p \<mapsto> ?g), hist := t\<rparr>"
  have k: "kcalls t = Call LOS_DmaMemAlloc [SIZEOF_Virtgpu W + VirtqSize E 4 + VirtqSize E 2] # kcalls (hist s)"
    using discover_step [OF assms(3)] by simp
  have run: "VirtgpuInitDev E W s = do { s' \<leftarrow> VirtgpuDeInit E W p ?s; Some (0, s') }"
    using assms by (simp add: VirtgpuInitDev_def kcall_def gpu_err_out_def Let_def)
  show ?thesis
  proof (cases "gpu_fb (gw_block W p) = 0")
    case True
    then have "VirtgpuDeInit E W p ?s = Some (?s\<lparr>heap := (heap ?s)(p := None), g_virtGpu := 0, hist :=
        Call LOS_DmaMemFree [p] # (if realTimer (gw_block W p) = 0 then [] else [Call OsalTimerDelete [p + OFF_timer W]]) @ t\<rparr>)"
      using VirtgpuDeInit_run [of ?s p ?g, where E = E and W = W] by simp
    then show ?thesis
      using True run k by (auto simp: calls_of_def)
  next
    case False
    then have "VirtgpuDeInit E W p ?s = None"
      using assms(2,4,5) by (simp add: VirtgpuDeInit_def VirtgpuFbPageSize_def the_gpu_def)
    then show ?thesis using False run by simp
  qed
qed

lemma VirtgpuInitDev_uncleared_block_witness:
  "VirtgpuInitDev (example_env (\<lambda>_. 0)) (example_world\<lparr>gw_block := \<lambda>p. example_gpu\<lparr>gpu_fb := 0xDEAD\<rparr>\<rparr>)
     (example_gpu_state\<lparr>heap := \<lambda>p. None, g_virtGpu := 0\<rparr>) = None"
proof -
  let ?W = "example_world\<lparr>gw_block := \<lambda>p. example_gpu\<lparr>gpu_fb := 0xDEAD\<rparr>\<rparr>"
  let ?s = "example_gpu_state\<lparr>heap := \<lambda>p. None, g_virtGpu := 0\<rparr>"
  obtain dev t where "VirtmmioDiscover (example_env (\<lambda>_. 0)) 16 (gpu_dev (gw_block ?W 0x1000))
      (Call LOS_DmaMemAlloc [SIZEOF_Virtgpu ?W + VirtqSize (example_env (\<lambda>_. 0)) 4 + VirtqSize (example_env (\<lambda>_. 0)) 2] # hist ?s)
      = (False, dev, t)"
    by (simp add: VirtmmioDiscover_def discover_loop.simps(2) [of _ _ "pred_numeral n" for n, folded numeral_eq_Suc]
      discover_loop.simps slot_matches_def io_defs Let_def example_gpu_state_def)
  from VirtgpuInitDev_uncleared_block [OF _ _ this] show ?thesis by simp
qed

subsection \<open>Mapping the frame buffer\<close>

text \<open>Mapping the frame buffer into a process. A request that succeeds mapped exactly the whole
  pages of the region, uncached and not executable, at the frame buffer plus the page offset, and
  unless the 32-bit sum of size and offset wraps, these pages lie inside the frame buffer.\<close>

theorem FbMmap_inside_framebuffer:
  assumes "FbMmap E W region s = Some (0, region', s')" and "the_gpu s = Some gpu"
    and "VirtgpuFbPageSize E s = Some n" and "off = push_bit PAGE_SHIFT (rg_pgOff region)"
  shows "calls_of LOS_ArchMmuMap (hist s') = calls_of LOS_ArchMmuMap (hist s) @
      [[rg_archMmu region, rg_base region, ucast (VMM_TO_DMA_ADDR E (ucast (gpu_fb gpu + off))),
        rg_size region div PAGE_SIZE, rg_flags region OR VM_MAP_REGION_FLAG_UNCACHED W]] \<and>
    rg_flags region AND VM_MAP_REGION_FLAG_PERM_EXECUTE W = 0 \<and>
    (unat (rg_size region) + unat off < 2 ^ 32 \<longrightarrow> unat off + unat (rg_size region) \<le> unat n)"
proof -
  have d: "drop_bit 12 (x :: u32) = x div 0x1000" for x
    by (simp add: drop_bit_eq_div)
  have "\<not> rg_size region + off > n"
    using assms by (auto simp: FbMmap_def split: if_splits)
  moreover have "unat (rg_size region + off) = unat (rg_size region) + unat off"
    if "unat (rg_size region) + unat off < 2 ^ 32"
    using that by (simp add: unat_word_ariths)
  ultimately show ?thesis
    using assms by (auto simp: FbMmap_def io_defs Let_def d word_le_nat_alt not_less split: if_splits)
qed

lemma FbMmap_inside_framebuffer_witness:
  "\<exists>region' s'. FbMmap (example_env (\<lambda>_. 0)) example_world
       \<lparr>rg_archMmu = 1, rg_base = 0x4000, rg_size = 0x1000000, rg_pgOff = 1, rg_flags = 2\<rparr>
       (set_gpu (example_gpu\<lparr>screen := \<lparr>r_x = 0, r_y = 0, r_width = 0x1000, r_height = 0x500\<rparr>, gpu_fb := 0x100000\<rparr>) example_gpu_state)
     = Some (0, region', s') \<and>
     calls_of LOS_ArchMmuMap (hist s') = [[1, 0x4000, 0x101000, 0x1000, 3]]"
proof -
  let ?g = "example_gpu\<lparr>screen := \<lparr>r_x = 0, r_y = 0, r_width = 0x1000, r_height = 0x500\<rparr>, gpu_fb := 0x100000\<rparr>"
  let ?r = "\<lparr>rg_archMmu = 1, rg_base = 0x4000, rg_size = 0x1000000, rg_pgOff = 1, rg_flags = 2\<rparr>"
  obtain region' s' where r: "FbMmap (example_env (\<lambda>_. 0)) example_world ?r (set_gpu ?g example_gpu_state) = Some (0, region', s')"
    by (simp add: FbMmap_def VirtgpuFbPageSize_def align_example_def example_world_def io_defs Let_def)
  have n: "VirtgpuFbPageSize (example_env (\<lambda>_. 0)) (set_gpu ?g example_gpu_state) = Some 0x1400000"
    by (simp add: VirtgpuFbPageSize_def align_example_def)
  from FbMmap_inside_framebuffer [OF r _ n refl] r show ?thesis
    by (simp add: example_gpu_state_def example_world_def)
qed

end
