(* ===== verification/Virtinput.thy ===== *)
theory Virtinput
  imports Virtgpu
begin

text \<open>
  The input device, \<open>drivers/virtio/virtinput.c\<close>: QEMU's tablet behind the HDF input framework. The
  interrupt handler hands every event buffer to a work queue and gives it back to the device; the work
  scales the coordinates to the screen of the graphics driver (theory \<open>Virtgpu\<close>) and reports the event.

  \<open>Virtin\<close> is the C struct with the memory of its two queues; \<open>pending\<close> lists the indices of the event
  buffers handed to the work queue, oldest first. As in the graphics driver the DMA block is not
  cleared, so its first contents are a parameter. The device's configuration space is a function of
  the history, which holds the selectors written last. The numbers of the input framework's headers are
  the parameter \<open>input_consts\<close>.
\<close>

subsection \<open>Data\<close>

record VirtinAbsinfo =
  ab_min :: u32
  ab_max :: u32
  ab_fuzz :: u32
  ab_flat :: u32
  ab_res :: u32

record VirtinDevids =
  id_bus :: u16
  id_vendor :: u16
  id_product :: u16
  id_version :: u16

text \<open>The configuration space as the driver reads it; the last three are the views of the union.\<close>

record VirtinConfig =
  cfg_size :: u8
  u_bitmap :: "u8 list"
  u_abs :: VirtinAbsinfo
  u_ids :: VirtinDevids

record VirtinEvent =
  ev_type :: u16
  ev_code :: u16
  ev_value :: u32

record Virtin =
  in_addr :: u32
  in_dev :: VirtmmioDev
  in_ring :: vring
  ev :: "VirtinEvent list"
  realWorkQueue :: u32
  pending :: "nat list"

record HidAxisInfo =
  ax_axis :: u32
  ax_min :: u32
  ax_max :: u32
  ax_fuzz :: u32
  ax_flat :: u32
  ax_range :: u32

record HidInfo =
  devType :: u32
  devName :: string
  eventType0 :: u32
  keyCode :: "u8 list"
  relCode :: "u8 list"
  absCode :: "u8 list"
  axisInfo :: "HidAxisInfo list"
  bustype :: u16
  vendor :: u16
  product :: u16
  version :: u16

text \<open>What the headers and the framework supply: event types and codes, the sizes of the code tables,
  the size and the zeroed contents of \<open>HidInfo\<close>, the layout of \<open>struct Virtin\<close>, the contents of a fresh
  DMA block and the handle of a created work queue.\<close>

record input_consts =
  EV_KEY :: nat
  EV_REL :: nat
  EV_ABS :: nat
  ABS_X :: u16
  ABS_Y :: u16
  ABS_MT_POSITION_X :: u16
  ABS_MT_POSITION_Y :: u16
  HDF_EV_CNT :: nat
  HDF_KEY_CNT :: nat
  HDF_REL_CNT :: nat
  HDF_ABS_CNT :: nat
  INDEV_TYPE_MOUSE :: u32
  zero_HidInfo :: HidInfo
  SIZEOF_HidInfo :: u32
  SIZEOF_Virtin :: u32
  OFF_ev :: u32
  OFF_wq :: u32
  in_block :: "u32 \<Rightarrow> Virtin"
  in_workqueue :: "trace \<Rightarrow> u32"

type_synonym virtin_conf = "trace \<Rightarrow> VirtinConfig"

abbreviation (input) VIRTQ_EVENT_QSZ :: u16 where "VIRTQ_EVENT_QSZ \<equiv> 8"
abbreviation (input) VIRTQ_STATUS_QSZ :: u16 where "VIRTQ_STATUS_QSZ \<equiv> 1"
abbreviation (input) QEMU_TABLET_LEN :: u32 where "QEMU_TABLET_LEN \<equiv> 0x8000"
abbreviation (input) VIRTIO_INPUT_CFG_ID_DEVIDS :: u32 where "VIRTIO_INPUT_CFG_ID_DEVIDS \<equiv> 3"
abbreviation (input) VIRTIO_INPUT_CFG_EV_BITS :: u32 where "VIRTIO_INPUT_CFG_EV_BITS \<equiv> 0x11"
abbreviation (input) VIRTIO_INPUT_CFG_ABS_INFO :: u32 where "VIRTIO_INPUT_CFG_ABS_INFO \<equiv> 0x12"
abbreviation (input) VIRTIN_PROP_LEN :: nat where "VIRTIN_PROP_LEN \<equiv> 128"
abbreviation (input) SIZEOF_VirtinEvent :: u32 where "SIZEOF_VirtinEvent \<equiv> 8"

definition In_Feature0 :: "u32 \<Rightarrow> u32 \<Rightarrow> 's \<Rightarrow> trace \<Rightarrow> bool \<times> u32 \<times> 's" where
  "In_Feature0 features supported s t = (True, supported, s)"

definition In_Feature1 :: "u32 \<Rightarrow> u32 \<Rightarrow> 's \<Rightarrow> trace \<Rightarrow> bool \<times> u32 \<times> 's" where
  "In_Feature1 features supported s t =
     (if features AND VIRTIO_F_VERSION_1 \<noteq> 0 then (True, supported OR VIRTIO_F_VERSION_1, s)
      else (False, supported, s))"

subsection \<open>Events\<close>

text \<open>The loop over the event buffers, from \<open>i\<close> on, with the number of iterations left.\<close>

fun populate_events :: "env \<Rightarrow> u32 \<Rightarrow> nat \<Rightarrow> nat \<Rightarrow> vring \<Rightarrow> vring option" where
  "populate_events E evp i 0 r = Some r"
| "populate_events E evp i (Suc n) r = do {
     r \<leftarrow> desc_upd i (\<lambda>d. d\<lparr>pAddr := VMM_TO_DMA_ADDR E (ucast (evp + SIZEOF_VirtinEvent * of_nat i)),
            d_len := SIZEOF_VirtinEvent, d_flag := VIRTQ_DESC_F_WRITE\<rparr>) r;
     ring \<leftarrow> aset (avail_ring r) i (of_nat i);
     populate_events E evp (i + 1) n (r\<lparr>avail_ring := ring\<rparr>)
   }"

definition PopulateEventQ :: "env \<Rightarrow> input_consts \<Rightarrow> Virtin \<Rightarrow> trace \<Rightarrow> (Virtin \<times> trace) option" where
  "PopulateEventQ E C inp t = do {
     q \<leftarrow> aget (vq (in_dev inp)) 0;
     r \<leftarrow> populate_events E (in_addr inp + OFF_ev C) 0 (unat VIRTQ_EVENT_QSZ) (in_ring inp);
     let r = avail_add (qsz q) r;
     let t = WRITE_UINT32 0 (base (in_dev inp) + VIRTMMIO_REG_QUEUENOTIFY) t;
     Some (inp\<lparr>in_ring := r\<rparr>, t)
   }"

definition VirtinWorkCallback ::
  "input_consts \<Rightarrow> gpu_state \<Rightarrow> u32 \<Rightarrow> nat \<Rightarrow> Virtin \<Rightarrow> trace \<Rightarrow> (Virtin \<times> trace) option" where
  "VirtinWorkCallback C gs g_virtInputDev idx inp t = do {
     e \<leftarrow> aget (ev inp) idx;
     e \<leftarrow> (if unat (ev_type e) = EV_ABS C then
             if ev_code e = ABS_X C then do {
               x \<leftarrow> VirtgpuGetXres gs;
               Some (e\<lparr>ev_value := ev_value e * x div QEMU_TABLET_LEN, ev_code := ABS_MT_POSITION_X C\<rparr>)
             } else if ev_code e = ABS_Y C then do {
               y \<leftarrow> VirtgpuGetYres gs;
               Some (e\<lparr>ev_value := ev_value e * y div QEMU_TABLET_LEN, ev_code := ABS_MT_POSITION_Y C\<rparr>)
             } else Some e
           else Some e);
     let t = kproc HidReportEvent [g_virtInputDev, ucast (ev_type e), ucast (ev_code e), ev_value e] t;
     Some (inp\<lparr>ev := (ev inp)[idx := e]\<rparr>, t)
   }"

text \<open>One iteration of the event loop, and the loop; \<open>add\<close> counts the buffers given back.\<close>

definition event_one ::
  "env \<Rightarrow> input_consts \<Rightarrow> Virtq \<Rightarrow> u16 \<Rightarrow> Virtin \<Rightarrow> trace \<Rightarrow> (Virtq \<times> u16 \<times> Virtin \<times> trace) option" where
  "event_one E C q add inp t = do {
     e \<leftarrow> used_get (qsz q) (q_last q) (in_ring inp);
     let idx = (ucast (ue_id e) :: u16);
     let (ret, t) = kstatus E HdfWorkInit [in_addr inp + OFF_ev C + SIZEOF_VirtinEvent * ucast idx] t;
     let (inp, t) = (if ret = HDF_SUCCESS
       then (inp\<lparr>pending := pending inp @ [unat idx]\<rparr>, kproc HdfAddWork [in_addr inp + OFF_wq C] t)
       else (inp, t));
     r \<leftarrow> avail_put (qsz q) (unat (avail_index (in_ring inp)) + unat add) idx (in_ring inp);
     Some (q\<lparr>q_last := q_last q + 1\<rparr>, add + 1, inp\<lparr>in_ring := r\<rparr>, t)
   }"

partial_function (option) event_loop ::
  "env \<Rightarrow> input_consts \<Rightarrow> Virtq \<Rightarrow> u16 \<Rightarrow> Virtin \<Rightarrow> trace \<Rightarrow> (Virtq \<times> u16 \<times> Virtin \<times> trace) option" where
  "event_loop E C q add inp t =
     (if q_last q = used_index (in_ring inp) then Some (q, add, inp, t)
      else Option.bind (event_one E C q add inp t) (\<lambda>(q, add, inp, t). event_loop E C q add inp t))"

definition VirtinHandleEv :: "env \<Rightarrow> input_consts \<Rightarrow> Virtin \<Rightarrow> trace \<Rightarrow> (Virtin \<times> trace) option" where
  "VirtinHandleEv E C inp t = do {
     q \<leftarrow> aget (vq (in_dev inp)) 0;
     let inp = inp\<lparr>in_ring := (in_ring inp)\<lparr>avail_flag := VIRTQ_AVAIL_F_NO_INTERRUPT\<rparr>\<rparr>;
     (q, add, inp, t) \<leftarrow> event_loop E C q 0 inp t;
     vqs \<leftarrow> aset (vq (in_dev inp)) 0 q;
     let r = (avail_add add (in_ring inp))\<lparr>avail_flag := 0\<rparr>;
     let inp = inp\<lparr>in_dev := (in_dev inp)\<lparr>vq := vqs\<rparr>, in_ring := r\<rparr>;
     let t = (if used_flag r \<noteq> VIRTQ_USED_F_NO_NOTIFY
              then WRITE_UINT32 0 (base (in_dev inp) + VIRTMMIO_REG_QUEUENOTIFY) t else t);
     Some (inp, t)
   }"

definition VirtinIRQhandle :: "env \<Rightarrow> input_consts \<Rightarrow> Virtin \<Rightarrow> trace \<Rightarrow> (u32 \<times> Virtin \<times> trace) option" where
  "VirtinIRQhandle E C inp t =
     (let (st, t) = GET_UINT32 E (base (in_dev inp) + VIRTMMIO_REG_INTERRUPTSTATUS) t
      in if st AND VIRTMMIO_IRQ_NOTIFY_USED = 0 then Some (1, inp, t) else do {
        (inp, t) \<leftarrow> VirtinHandleEv E C inp t;
        let t = WRITE_UINT32 VIRTMMIO_IRQ_NOTIFY_USED (base (in_dev inp) + VIRTMMIO_REG_INTERRUPTACK) t;
        Some (0, inp, t)
      })"

subsection \<open>The device's description\<close>

text \<open>\<open>conf->select = sel; conf->subsel = i\<close>, two byte writes.\<close>

definition conf_select :: "u32 \<Rightarrow> u32 \<Rightarrow> nat \<Rightarrow> trace \<Rightarrow> trace" where
  "conf_select conf sel i t = Wr (conf + 1) (ucast (of_nat i :: u8)) # Wr conf sel # t"

definition fill_axis :: "VirtinAbsinfo \<Rightarrow> nat \<Rightarrow> HidAxisInfo" where
  "fill_axis a i = \<lparr>ax_axis = of_nat i, ax_min = ab_min a, ax_max = ab_max a, ax_fuzz = ab_fuzz a,
     ax_flat = ab_flat a, ax_range = ab_res a\<rparr>"

fun VirtinFillHidAbsInfo :: "virtin_conf \<Rightarrow> u32 \<Rightarrow> nat list \<Rightarrow> HidInfo \<Rightarrow> trace \<Rightarrow> (HidInfo \<times> trace) option" where
  "VirtinFillHidAbsInfo cf conf [] info t = Some (info, t)"
| "VirtinFillHidAbsInfo cf conf (i # is) info t = do {
     let t = conf_select conf VIRTIO_INPUT_CFG_ABS_INFO i t;
     if cfg_size (cf t) = 0 then VirtinFillHidAbsInfo cf conf is info t else do {
       ax \<leftarrow> aset (axisInfo info) i (fill_axis (u_abs (cf t)) i);
       VirtinFillHidAbsInfo cf conf is (info\<lparr>axisInfo := ax\<rparr>) t
     }
   }"

text \<open>\<open>DIV_ROUND_UP(n, BYTE_HAS_BITS)\<close>, and the copy of a code bitmap.\<close>

definition bitmap_bytes :: "nat \<Rightarrow> nat" where
  "bitmap_bytes n = (n + 7) div 8"

fun copy_bitmap :: "u8 list \<Rightarrow> nat list \<Rightarrow> u8 list \<Rightarrow> u8 list option" where
  "copy_bitmap src [] dst = Some dst"
| "copy_bitmap src (i # is) dst = do { b \<leftarrow> aget src i; dst \<leftarrow> aset dst i b; copy_bitmap src is dst }"

definition fill_codes :: "input_consts \<Rightarrow> nat \<Rightarrow> u8 list \<Rightarrow> HidInfo \<Rightarrow> HidInfo option" where
  "fill_codes C evType bits info =
     (let info' = info\<lparr>eventType0 := eventType0 info OR push_bit evType 1\<rparr> in
      if evType = EV_KEY C then do {
        b \<leftarrow> copy_bitmap bits [0..<min (bitmap_bytes (HDF_KEY_CNT C)) VIRTIN_PROP_LEN] (keyCode info);
        Some (info'\<lparr>keyCode := b\<rparr>)
      } else if evType = EV_REL C then do {
        b \<leftarrow> copy_bitmap bits [0..<min (bitmap_bytes (HDF_REL_CNT C)) VIRTIN_PROP_LEN] (relCode info);
        Some (info'\<lparr>relCode := b\<rparr>)
      } else if evType = EV_ABS C then do {
        b \<leftarrow> copy_bitmap bits [0..<min (bitmap_bytes (HDF_ABS_CNT C)) VIRTIN_PROP_LEN] (absCode info);
        Some (info'\<lparr>absCode := b\<rparr>)
      } else Some info)"

fun code_bitmap_loop ::
  "input_consts \<Rightarrow> virtin_conf \<Rightarrow> u32 \<Rightarrow> nat list \<Rightarrow> HidInfo \<Rightarrow> trace \<Rightarrow> (HidInfo \<times> trace) option" where
  "code_bitmap_loop C cf conf [] info t = Some (info, t)"
| "code_bitmap_loop C cf conf (e # es) info t = do {
     let t = conf_select conf VIRTIO_INPUT_CFG_EV_BITS e t;
     if cfg_size (cf t) = 0 then code_bitmap_loop C cf conf es info t else do {
       info \<leftarrow> fill_codes C e (u_bitmap (cf t)) info;
       code_bitmap_loop C cf conf es info t
     }
   }"

definition VirtinFillHidCodeBitmap ::
  "input_consts \<Rightarrow> virtin_conf \<Rightarrow> u32 \<Rightarrow> HidInfo \<Rightarrow> trace \<Rightarrow> (HidInfo \<times> trace) option" where
  "VirtinFillHidCodeBitmap C cf conf info t =
     code_bitmap_loop C cf conf [0..<HDF_EV_CNT C] (info\<lparr>eventType0 := 0\<rparr>) t"

definition VirtinFillHidDevIds :: "virtin_conf \<Rightarrow> u32 \<Rightarrow> HidInfo \<Rightarrow> trace \<Rightarrow> HidInfo \<times> trace" where
  "VirtinFillHidDevIds cf conf info t =
     (let t = conf_select conf VIRTIO_INPUT_CFG_ID_DEVIDS 0 t; ids = u_ids (cf t)
      in if cfg_size (cf t) \<noteq> 0
         then (info\<lparr>bustype := id_bus ids, vendor := id_vendor ids, product := id_product ids,
                 version := id_version ids\<rparr>, t)
         else (info, t))"

text \<open>The loop \<open>do ... while (before != after)\<close> around the three readers.\<close>

partial_function (option) fill_hid_loop ::
  "env \<Rightarrow> input_consts \<Rightarrow> virtin_conf \<Rightarrow> u32 \<Rightarrow> HidInfo \<Rightarrow> trace \<Rightarrow> (HidInfo \<times> trace) option" where
  "fill_hid_loop E C cf b info t =
     (let (before, t) = GET_UINT32 E (b + VIRTMMIO_REG_CONFIGGENERATION) t;
          (info, t) = VirtinFillHidDevIds cf (b + VIRTMMIO_REG_CONFIG) info t
      in Option.bind (VirtinFillHidCodeBitmap C cf (b + VIRTMMIO_REG_CONFIG) info t) (\<lambda>(info, t).
         Option.bind (VirtinFillHidAbsInfo cf (b + VIRTMMIO_REG_CONFIG) [0..<HDF_ABS_CNT C] info t) (\<lambda>(info, t).
           let (after, t) = GET_UINT32 E (b + VIRTMMIO_REG_CONFIGGENERATION) t
           in if before \<noteq> after then fill_hid_loop E C cf b info t else Some (info, t))))"

definition VirtinFillHidInfo ::
  "env \<Rightarrow> input_consts \<Rightarrow> virtin_conf \<Rightarrow> Virtin \<Rightarrow> HidInfo \<Rightarrow> trace \<Rightarrow> (HidInfo \<times> trace) option" where
  "VirtinFillHidInfo E C cf inp info t =
     fill_hid_loop E C cf (base (in_dev inp))
       (info\<lparr>devType := INDEV_TYPE_MOUSE C, devName := ''virtinput''\<rparr>) t"

subsection \<open>Initialisation and release\<close>

text \<open>The second result is the new value of the global \<open>g_virtInputDev\<close>.\<close>

definition HdfVirtinInitHid ::
  "env \<Rightarrow> input_consts \<Rightarrow> virtin_conf \<Rightarrow> Virtin \<Rightarrow> u32 \<Rightarrow> trace \<Rightarrow> (HDF_STATUS \<times> u32 \<times> trace) option" where
  "HdfVirtinInitHid E C cf inp g t =
     (let (p, t) = kcall E OsalMemCalloc [SIZEOF_HidInfo C] t
      in if p = 0 then Some (HDF_ERR_MALLOC_FAIL, g, t) else do {
        (info, t) \<leftarrow> VirtinFillHidInfo E C cf inp (zero_HidInfo C) t;
        let t = kproc SendInfoToHdf [p] t;
        let (g, t) = kcall E HidRegisterHdfInputDev [p] t;
        let ret = (if g = 0 then HDF_FAILURE else HDF_SUCCESS);
        Some (ret, g, kproc OsalMemFree [p] t)
      })"

definition VirtinDeInit :: "Virtin \<Rightarrow> trace \<Rightarrow> trace" where
  "VirtinDeInit inp t =
     (let t = (if irq (in_dev inp) AND NOT IRQ_MASK \<noteq> 0
               then kproc OsalUnregisterIrq [irq (in_dev inp) AND IRQ_MASK, in_addr inp] t else t)
      in kproc LOS_DmaMemFree [in_addr inp] t)"

definition in_err_out :: "Virtin \<Rightarrow> trace \<Rightarrow> Virtin option \<times> trace" where
  "in_err_out inp t = (None, VirtinDeInit inp t)"

definition in_err_out1 :: "env \<Rightarrow> Virtin \<Rightarrow> trace \<Rightarrow> Virtin option \<times> trace" where
  "in_err_out1 E inp t = in_err_out inp (VirtmmioInitFailed E (in_dev inp) t)"

definition VirtinInitDev :: "env \<Rightarrow> input_consts \<Rightarrow> trace \<Rightarrow> (Virtin option \<times> trace) option" where
  "VirtinInitDev E C t =
     (let len = SIZEOF_Virtin C + VirtqSize E VIRTQ_EVENT_QSZ + VirtqSize E VIRTQ_STATUS_QSZ;
          (p, t) = kcall E LOS_DmaMemAlloc [len] t
      in if p = 0 then Some (None, t) else
      let inp = (in_block C p)\<lparr>in_addr := p\<rparr>;
          (found, dev, t) = VirtmmioDiscover E VIRTMMIO_DEVICE_ID_INPUT (in_dev inp) t;
          inp = inp\<lparr>in_dev := dev\<rparr>
      in if \<not> found then Some (in_err_out inp t) else do {
        t \<leftarrow> VirtmmioInitBegin E dev t;
        (ok, inp, t) \<leftarrow> VirtmmioNegotiate E dev In_Feature0 In_Feature1 inp t;
        if \<not> ok then Some (in_err_out1 E inp t) else do {
          let va = ALIGN E (p + SIZEOF_Virtin C) VIRTQ_ALIGN_DESC;
          (r, dev, t) \<leftarrow> VirtmmioConfigQueue E (in_dev inp) va [VIRTQ_EVENT_QSZ, VIRTQ_STATUS_QSZ] VIRTQ_NUM t;
          let inp = inp\<lparr>in_dev := dev\<rparr>;
          if r = 0 then Some (in_err_out1 E inp t) else
          let (ret, t) = kstatus E OsalRegisterIrq [irq dev, p] t
          in if ret \<noteq> HDF_SUCCESS then Some (in_err_out1 E inp t) else
          let inp = inp\<lparr>in_dev := dev\<lparr>irq := irq dev OR NOT IRQ_MASK\<rparr>\<rparr>
          in Some (Some inp, t)
        }
      })"

text \<open>\<open>priv\<close> is the device object's private pointer.\<close>

definition HdfVirtinInit ::
  "env \<Rightarrow> input_consts \<Rightarrow> virtin_conf \<Rightarrow> bool \<Rightarrow> Virtin option \<Rightarrow> u32 \<Rightarrow> trace
     \<Rightarrow> (HDF_STATUS \<times> Virtin option \<times> u32 \<times> trace) option" where
  "HdfVirtinInit E C cf isnull priv g t =
     (if isnull then Some (HDF_ERR_INVALID_PARAM, priv, g, t) else do {
        (inp, t) \<leftarrow> VirtinInitDev E C t;
        (case inp of
          None \<Rightarrow> Some (HDF_FAILURE, priv, g, t)
        | Some inp \<Rightarrow> do {
            (ret, g, t) \<leftarrow> HdfVirtinInitHid E C cf inp g t;
            if ret \<noteq> HDF_SUCCESS then Some (ret, Some inp, g, t) else
            let (ret, t) = kstatus E HdfWorkQueueInit [in_addr inp + OFF_wq C] t
            in if ret \<noteq> HDF_SUCCESS then Some (ret, Some inp, g, t) else do {
              let inp = inp\<lparr>realWorkQueue := in_workqueue C t\<rparr>;
              (inp, t) \<leftarrow> PopulateEventQ E C inp t;
              let t = VritmmioInitEnd E (in_dev inp) t;
              Some (HDF_SUCCESS, Some inp, g, t)
            }
          })
      })"

definition HdfVirtinRelease :: "input_consts \<Rightarrow> bool \<Rightarrow> Virtin option \<Rightarrow> u32 \<Rightarrow> trace \<Rightarrow> trace" where
  "HdfVirtinRelease C isnull priv g t =
     (if isnull then t else
      case priv of
        None \<Rightarrow> t
      | Some inp \<Rightarrow>
          let t = (if realWorkQueue inp \<noteq> 0 then kproc HdfWorkQueueDestroy [in_addr inp + OFF_wq C] t else t);
              t = (if g \<noteq> 0 then kproc HidUnregisterHdfInputDev [g] t else t)
          in VirtinDeInit inp t)"

interpretation in_features: virtio_driver In_Feature0 In_Feature1
proof (rule virtio_driverI)
  show "honest_callback In_Feature0"
    by (rule honest_callbackI [of _ 0]) (simp add: In_Feature0_def)
qed (simp add: In_Feature1_def)

subsection \<open>The event loop\<close>

text \<open>The buffers the device has completed and the driver has not handled, oldest first.\<close>

definition done_ids :: "Virtq \<Rightarrow> vring \<Rightarrow> u16 list" where
  "done_ids q r = map (\<lambda>e. ucast (ue_id e)) (ring_view (used_ring r) 8 (q_last q) (used_index r))"

lemma event_loop_unfold:
  "event_loop E C q add inp t =
     (if q_last q = used_index (in_ring inp) then Some (q, add, inp, t)
      else Option.bind (event_one E C q add inp t) (\<lambda>(q, add, inp, t). event_loop E C q add inp t))"
  by (rule event_loop.simps)

lemma event_one_run:
  assumes "qsz q = 8" and "vring_ok 8 (in_ring inp)" and "\<forall>t xs. sys_hdf E t HdfWorkInit xs = HDF_SUCCESS"
  shows "\<exists>t'. event_one E C q add inp t = Some (q\<lparr>q_last := q_last q + 1\<rparr>, add + 1, inp\<lparr>
      pending := pending inp @ [unat (ucast (ue_id (used_ring (in_ring inp) ! (unat (q_last q) mod 8))) :: u16)],
      in_ring := (in_ring inp)\<lparr>avail_ring := (avail_ring (in_ring inp))
        [unat (avail_index (in_ring inp) + add) mod 8 := ucast (ue_id (used_ring (in_ring inp) ! (unat (q_last q) mod 8)))]\<rparr>\<rparr>, t')
    \<and> writes_of t' = writes_of t"
proof -
  let ?r = "in_ring inp"
  have s: "unat (avail_index ?r + add) mod 8 = (unat (avail_index ?r) + unat add) mod 8"
    using ring8.slot_wrap [of "avail_index ?r" "unat add"] by simp
  show ?thesis
    unfolding s using assms vring_okD(2,3) [OF assms(2)]
    by (simp add: event_one_def used_get_in avail_put_in io_defs Let_def)
qed

lemma event_loop_run:
  assumes "qsz q = 8" and "vring_ok 8 (in_ring inp)" and "\<forall>t xs. sys_hdf E t HdfWorkInit xs = HDF_SUCCESS"
    and "unat (used_index (in_ring inp) - q_last q) = n" and "n + unat add \<le> 8"
  shows "\<exists>R t'. event_loop E C q add inp t = Some (q\<lparr>q_last := used_index (in_ring inp)\<rparr>, add + of_nat n, inp\<lparr>
      pending := pending inp @ map unat (done_ids q (in_ring inp)), in_ring := (in_ring inp)\<lparr>avail_ring := R\<rparr>\<rparr>, t') \<and>
    writes_of t' = writes_of t \<and> length R = 8 \<and>
    ring_view R 8 (avail_index (in_ring inp)) (avail_index (in_ring inp) + add + of_nat n) =
      ring_view (avail_ring (in_ring inp)) 8 (avail_index (in_ring inp)) (avail_index (in_ring inp) + add)
        @ done_ids q (in_ring inp)"
  using assms
proof (induction n arbitrary: q add inp t)
  case 0
  then have "q_last q = used_index (in_ring inp)"
    by (metis right_minus_eq unat_eq_zero)
  moreover from this have "event_loop E C q add inp t = Some (q, add, inp, t)"
    by (subst event_loop_unfold) simp
  moreover have "inp = inp\<lparr>in_ring := (in_ring inp)\<lparr>avail_ring := avail_ring (in_ring inp)\<rparr>\<rparr>" "q\<lparr>q_last := q_last q\<rparr> = q"
    by simp_all
  ultimately show ?case
    using 0(2) by (intro exI [of _ "avail_ring (in_ring inp)"] exI [of _ t]) (simp add: done_ids_def vring_ok_def)
next
  case (Suc n)
  let ?r = "in_ring inp"
  let ?id = "ucast (ue_id (used_ring ?r ! (unat (q_last q) mod 8))) :: u16"
  let ?to = "avail_index ?r + add"
  have ne: "q_last q \<noteq> used_index ?r"
    using Suc.prems(4) by auto
  have le: "unat (used_index ?r - q_last q) \<le> 8"
    using Suc.prems(4,5) by simp
  let ?q = "q\<lparr>q_last := q_last q + 1\<rparr>"
  let ?i = "inp\<lparr>pending := pending inp @ [unat ?id], in_ring := ?r\<lparr>avail_ring := (avail_ring ?r)[unat ?to mod 8 := ?id]\<rparr>\<rparr>"
  obtain t1 where one: "event_one E C q add inp t = Some (?q, add + 1, ?i, t1)" and w1: "writes_of t1 = writes_of t"
    using event_one_run [OF Suc.prems(1-3), of C add t] by blast
  have ids: "done_ids q ?r = ?id # done_ids ?q (in_ring ?i)"
    using ring8.view_get [OF ne le, of "used_ring ?r"] by (simp add: done_ids_def)
  have "length (done_ids q ?r) = Suc n" "length (done_ids ?q (in_ring ?i)) = unat (used_index ?r - (q_last q + 1))"
    using Suc.prems(4) by (simp_all add: done_ids_def)
  with ids have n: "unat (used_index (in_ring ?i) - q_last ?q) = n" by simp
  have add1: "unat (add + 1) = Suc (unat add)"
    using Suc.prems(5) by (simp add: unat_word_ariths)
  have room: "unat (?to - avail_index ?r) < 8"
    using Suc.prems(5) by simp
  have view: "ring_view ((avail_ring ?r)[unat ?to mod 8 := ?id]) 8 (avail_index ?r) (?to + 1)
      = ring_view (avail_ring ?r) 8 (avail_index ?r) ?to @ [?id]"
    using ring8.view_put [OF _ room, of "avail_ring ?r" ?id] Suc.prems(2) by (simp add: vring_ok_def)
  have "event_loop E C q add inp t = event_loop E C ?q (add + 1) ?i t1"
    using ne one by (subst event_loop_unfold) simp
  moreover have "add + 1 + of_nat n = add + of_nat (Suc n)" by simp
  moreover note Suc.IH [of ?q ?i "add + 1" t1] Suc.prems n add1 view w1 ids
  ultimately show ?case
    by (simp add: vring_ok_def add.assoc)
qed



subsection \<open>The scaling of coordinates\<close>

text \<open>A tablet coordinate is reported as its position on the screen: for every coordinate of the
  device's square and every screen up to 131072 pixels wide the product does not wrap, and the
  reported value is the scaled coordinate rounded down, a column of the screen, under the multi-touch
  code.\<close>

theorem VirtinWorkCallback_scales:
  assumes "aget (ev inp) idx = Some e" and "unat (ev_type e) = EV_ABS C" and "ev_code e = ABS_X C"
    and "VirtgpuGetXres gs = Some x" and "0 < x" and "unat x \<le> 0x20000" and "ev_value e < QEMU_TABLET_LEN"
  shows "\<exists>inp' t' v. VirtinWorkCallback C gs g idx inp t = Some (inp', t') \<and>
    calls_of HidReportEvent t' = calls_of HidReportEvent t
      @ [[g, ucast (ev_type e), ucast (ABS_MT_POSITION_X C), v]] \<and>
    unat v = unat (ev_value e) * unat x div 0x8000 \<and> v < x"
proof -
  let ?v = "ev_value e * x div 0x8000"
  have e: "unat (ev_value e) < 0x8000"
    using assms(7) by (simp add: word_less_nat_alt)
  have p: "unat (ev_value e) * unat x \<le> 0x7FFF * 0x20000"
    using e assms(6) by (intro mult_le_mono) simp_all
  then have v: "unat ?v = unat (ev_value e) * unat x div 0x8000"
    by (simp add: unat_div unat_word_ariths)
  have "unat (ev_value e) * unat x < 0x8000 * unat x"
    using e assms(5) by (simp add: word_less_nat_alt)
  then have "?v < x"
    unfolding word_less_nat_alt v by (simp add: less_mult_imp_div_less mult.commute)
  then show ?thesis
    using assms(1-4) v by (intro exI conjI) (auto simp: VirtinWorkCallback_def io_defs)
qed

subsection \<open>The event types\<close>

text \<open>The documented behaviour of the configuration space: it shows what was selected last.\<close>

definition selects :: "virtin_conf \<Rightarrow> (u32 \<Rightarrow> nat \<Rightarrow> VirtinConfig) \<Rightarrow> u32 \<Rightarrow> bool" where
  "selects cf K conf \<longleftrightarrow> (\<forall>sel i t. cf (conf_select conf sel i t) = K sel i)"

definition tables_fit :: "input_consts \<Rightarrow> HidInfo \<Rightarrow> bool" where
  "tables_fit C info \<longleftrightarrow> bitmap_bytes (HDF_KEY_CNT C) \<le> length (keyCode info) \<and>
     bitmap_bytes (HDF_REL_CNT C) \<le> length (relCode info) \<and> bitmap_bytes (HDF_ABS_CNT C) \<le> length (absCode info)"

text \<open>A table after the driver copied a bitmap over its beginning.\<close>

definition overlay :: "nat \<Rightarrow> u8 list \<Rightarrow> u8 list \<Rightarrow> u8 list" where
  "overlay n src dst = (let k = min (bitmap_bytes n) 128 in take k src @ drop k dst)"

lemma copy_bitmap_upt:
  assumes "k \<le> length src" and "k \<le> length dst" and "i \<le> k"
  shows "copy_bitmap src [i..<k] dst = Some (take i dst @ drop i (take k src) @ drop k dst)"
  using assms
proof (induction "k - i" arbitrary: i dst)
  case 0
  then show ?case by simp
next
  case (Suc d)
  then have lt: "i < k" by simp
  have "copy_bitmap src [i..<k] dst = copy_bitmap src [Suc i..<k] (dst[i := src ! i])"
    using lt Suc.prems by (simp add: upt_conv_Cons)
  also have "\<dots> = Some (take (Suc i) (dst[i := src ! i]) @ drop (Suc i) (take k src) @ drop k (dst[i := src ! i]))"
    using Suc by simp
  finally have "copy_bitmap src [i..<k] dst
      = Some (take (Suc i) (dst[i := src ! i]) @ drop (Suc i) (take k src) @ drop k (dst[i := src ! i]))" .
  moreover have "take (Suc i) (dst[i := src ! i]) = take i dst @ [src ! i]"
    using lt Suc.prems by (simp add: take_Suc_conv_app_nth)
  moreover have "src ! i # drop (Suc i) (take k src) = drop i (take k src)"
    using Cons_nth_drop_Suc [of i "take k src"] lt Suc.prems by simp
  ultimately show ?case using lt by simp
qed

lemma copy_bitmap_overlay:
  assumes "length src = 128" and "bitmap_bytes n \<le> length dst"
  shows "copy_bitmap src [0..<min (bitmap_bytes n) VIRTIN_PROP_LEN] dst = Some (overlay n src dst)"
  using copy_bitmap_upt [of "min (bitmap_bytes n) 128" src dst 0] assms by (simp add: overlay_def Let_def min_def)

lemma overlay_length: "length src = 128 \<Longrightarrow> bitmap_bytes n \<le> length dst \<Longrightarrow> length (overlay n src dst) = length dst"
  by (simp add: overlay_def Let_def min_def)

definition known_types :: "input_consts \<Rightarrow> nat set" where
  "known_types C = {EV_KEY C, EV_REL C, EV_ABS C}"

text \<open>What the loop over the event types makes of the description.\<close>

definition present :: "(u32 \<Rightarrow> nat \<Rightarrow> VirtinConfig) \<Rightarrow> nat list \<Rightarrow> nat \<Rightarrow> bool" where
  "present K es e \<longleftrightarrow> e \<in> set es \<and> cfg_size (K VIRTIO_INPUT_CFG_EV_BITS e) \<noteq> 0"

definition table_result ::
  "(u32 \<Rightarrow> nat \<Rightarrow> VirtinConfig) \<Rightarrow> nat list \<Rightarrow> nat \<Rightarrow> nat \<Rightarrow> u8 list \<Rightarrow> u8 list \<Rightarrow> bool" where
  "table_result K es e n tab tab' \<longleftrightarrow>
     tab' = (if present K es e then overlay n (u_bitmap (K VIRTIO_INPUT_CFG_EV_BITS e)) tab else tab)"

definition code_result :: "input_consts \<Rightarrow> (u32 \<Rightarrow> nat \<Rightarrow> VirtinConfig) \<Rightarrow> nat list \<Rightarrow> HidInfo \<Rightarrow> HidInfo \<Rightarrow> bool" where
  "code_result C K es info info' \<longleftrightarrow>
     (\<forall>k < 32. bit (eventType0 info') k \<longleftrightarrow> bit (eventType0 info) k \<or> present K es k \<and> k \<in> known_types C) \<and>
     table_result K es (EV_KEY C) (HDF_KEY_CNT C) (keyCode info) (keyCode info') \<and>
     table_result K es (EV_REL C) (HDF_REL_CNT C) (relCode info) (relCode info') \<and>
     table_result K es (EV_ABS C) (HDF_ABS_CNT C) (absCode info) (absCode info')"

lemma present_Cons: "present K (e # es) x \<longleftrightarrow> x = e \<and> cfg_size (K 0x11 e) \<noteq> 0 \<or> present K es x"
  by (auto simp: present_def)

lemma table_result_Cons:
  assumes "cfg_size (K 0x11 e) \<noteq> 0" and "e \<notin> set es"
    and "table_result K es x n (if e = x then overlay n (u_bitmap (K 0x11 e)) tab else tab) tab'"
  shows "table_result K (e # es) x n tab tab'"
  using assms by (cases "e = x") (auto simp: table_result_def present_def)

lemma fill_codes_result:
  assumes "tables_fit C info" and "length bits = 128" and "distinct [EV_KEY C, EV_REL C, EV_ABS C]"
  shows "fill_codes C e bits info = Some (if e \<in> known_types C then info\<lparr>eventType0 := eventType0 info OR push_bit e 1,
      keyCode := (if e = EV_KEY C then overlay (HDF_KEY_CNT C) bits (keyCode info) else keyCode info),
      relCode := (if e = EV_REL C then overlay (HDF_REL_CNT C) bits (relCode info) else relCode info),
      absCode := (if e = EV_ABS C then overlay (HDF_ABS_CNT C) bits (absCode info) else absCode info)\<rparr> else info)"
  using assms copy_bitmap_overlay [OF assms(2)]
  by (auto simp: fill_codes_def tables_fit_def known_types_def Let_def)

lemma code_bitmap_loop_result:
  assumes "selects cf K conf" and "\<forall>e. length (u_bitmap (K 0x11 e)) = 128" and "tables_fit C info"
    and "distinct [EV_KEY C, EV_REL C, EV_ABS C]" and "distinct es"
  shows "\<exists>info' t'. code_bitmap_loop C cf conf es info t = Some (info', t') \<and> code_result C K es info info'"
  using assms(3,5)
proof (induction es arbitrary: info t)
  case Nil
  then show ?case by (simp add: code_result_def table_result_def present_def)
next
  case (Cons e es)
  let ?t = "conf_select conf 0x11 e t"
  have cf: "cf ?t = K 0x11 e" using assms(1) by (simp add: selects_def)
  show ?case
  proof (cases "cfg_size (K 0x11 e) = 0")
    case True
    then have "code_result C K es info info' \<Longrightarrow> code_result C K (e # es) info info'" for info'
      by (auto simp: code_result_def present_Cons table_result_def)
    then show ?thesis
      using True cf Cons.IH [of info ?t] Cons.prems by auto
  next
    case False
    let ?i = "if e \<in> known_types C then info\<lparr>eventType0 := eventType0 info OR push_bit e 1,
      keyCode := (if e = EV_KEY C then overlay (HDF_KEY_CNT C) (u_bitmap (K 0x11 e)) (keyCode info) else keyCode info),
      relCode := (if e = EV_REL C then overlay (HDF_REL_CNT C) (u_bitmap (K 0x11 e)) (relCode info) else relCode info),
      absCode := (if e = EV_ABS C then overlay (HDF_ABS_CNT C) (u_bitmap (K 0x11 e)) (absCode info) else absCode info)\<rparr> else info"
    have f: "fill_codes C e (u_bitmap (cf ?t)) info = Some ?i"
      using fill_codes_result [OF Cons.prems(1) _ assms(4)] assms(2) cf by metis
    have fit: "tables_fit C ?i"
      using Cons.prems(1) assms(2) by (simp add: tables_fit_def overlay_length)
    have run: "code_bitmap_loop C cf conf (e # es) info t = code_bitmap_loop C cf conf es ?i ?t"
      using False cf f by simp
    have b: "k < 32 \<Longrightarrow> bit (w OR 2 ^ e) k \<longleftrightarrow> bit w k \<or> k = e" for w :: u32 and k
      by (auto simp: bit_simps)
    have "code_result C K (e # es) info info'" if r: "code_result C K es ?i info'" for info'
    proof -
      have "e \<notin> set es" using Cons.prems(2) by simp
      note tab = table_result_Cons [where K = K and e = e, OF False this]
      have "table_result K (e # es) (EV_KEY C) (HDF_KEY_CNT C) (keyCode info) (keyCode info')"
        "table_result K (e # es) (EV_REL C) (HDF_REL_CNT C) (relCode info) (relCode info')"
        "table_result K (e # es) (EV_ABS C) (HDF_ABS_CNT C) (absCode info) (absCode info')"
        by (rule tab, use r in \<open>simp add: code_result_def known_types_def split: if_split_asm\<close>)+
      moreover have "\<forall>k < 32. bit (eventType0 info') k \<longleftrightarrow>
          bit (eventType0 info) k \<or> present K (e # es) k \<and> k \<in> known_types C"
        using r False by (cases "e \<in> known_types C") (auto simp: code_result_def present_Cons b)
      ultimately show ?thesis by (simp add: code_result_def)
    qed
    then show ?thesis
      unfolding run using Cons.IH [OF fit, of ?t] Cons.prems(2) by auto
  qed
qed

text \<open>The event types reported to the input framework. For every device whose configuration space
  shows what was selected, the driver announces exactly the key, relative and absolute event types the
  device has, copies the device's code bitmap of each of them over the beginning of its own table
  and leaves the rest of the tables as it was.\<close>

theorem VirtinFillHidCodeBitmap_types:
  assumes "selects cf K conf" and "\<forall>e. length (u_bitmap (K VIRTIO_INPUT_CFG_EV_BITS e)) = 128" and "tables_fit C info"
    and "distinct [EV_KEY C, EV_REL C, EV_ABS C]"
  shows "\<exists>info' t'. VirtinFillHidCodeBitmap C cf conf info t = Some (info', t') \<and>
    (\<forall>k < 32. bit (eventType0 info') k \<longleftrightarrow>
       k \<in> known_types C \<and> k < HDF_EV_CNT C \<and> cfg_size (K VIRTIO_INPUT_CFG_EV_BITS k) \<noteq> 0) \<and>
    code_result C K [0..<HDF_EV_CNT C] (info\<lparr>eventType0 := 0\<rparr>) info'"
proof -
  have "tables_fit C (info\<lparr>eventType0 := 0\<rparr>)" using assms(3) by (simp add: tables_fit_def)
  then obtain info' t' where r: "code_bitmap_loop C cf conf [0..<HDF_EV_CNT C] (info\<lparr>eventType0 := 0\<rparr>) t = Some (info', t')"
    and c: "code_result C K [0..<HDF_EV_CNT C] (info\<lparr>eventType0 := 0\<rparr>) info'"
    using code_bitmap_loop_result [OF assms(1,2) _ assms(4) distinct_upt] by blast
  from c have "\<forall>k < 32. bit (eventType0 info') k \<longleftrightarrow>
       k \<in> known_types C \<and> k < HDF_EV_CNT C \<and> cfg_size (K VIRTIO_INPUT_CFG_EV_BITS k) \<noteq> 0"
    by (auto simp: code_result_def present_def)
  then show ?thesis
    using r c by (auto simp: VirtinFillHidCodeBitmap_def)
qed

subsection \<open>A concrete machine\<close>

definition example_input :: input_consts where
  "example_input = \<lparr>EV_KEY = 1, EV_REL = 2, EV_ABS = 3, ABS_X = 0, ABS_Y = 1, ABS_MT_POSITION_X = 53,
     ABS_MT_POSITION_Y = 54, HDF_EV_CNT = 32, HDF_KEY_CNT = 16, HDF_REL_CNT = 16, HDF_ABS_CNT = 64,
     INDEV_TYPE_MOUSE = 0,
     zero_HidInfo = \<lparr>devType = 0, devName = '''', eventType0 = 0, keyCode = [0, 0], relCode = [0, 0],
       absCode = [0, 0, 0, 0, 0, 0, 0, 0], axisInfo = [], bustype = 0, vendor = 0, product = 0, version = 0\<rparr>,
     SIZEOF_HidInfo = 0x400, SIZEOF_Virtin = 0x100, OFF_ev = 0x40, OFF_wq = 0x80, in_block = undefined,
     in_workqueue = (\<lambda>t. 1)\<rparr>"

definition example_tablet :: Virtin where
  "example_tablet = \<lparr>in_addr = 0x1000,
     in_dev = \<lparr>base = 0x0A003E00, irq = 79, vq = [\<lparr>qsz = 8, q_last = 0, q_desc = 0x2000, q_avail = 0x2100, q_used = 0x2200\<rparr>]\<rparr>,
     in_ring = (zero_vring 8)\<lparr>used_index := 2, used_ring := \<lparr>ue_id = 3, ue_len = 8\<rparr> # \<lparr>ue_id = 5, ue_len = 8\<rparr> #
       replicate 6 \<lparr>ue_id = 0, ue_len = 0\<rparr>\<rparr>,
     ev = replicate 8 \<lparr>ev_type = 3, ev_code = 0, ev_value = 0x4000\<rparr>, realWorkQueue = 1, pending = []\<rparr>"


lemma VirtinWorkCallback_scales_witness:
  "\<exists>inp' t' v. VirtinWorkCallback example_input (set_gpu (example_gpu\<lparr>screen := \<lparr>r_x = 0, r_y = 0, r_width = 640, r_height = 480\<rparr>\<rparr>)
       example_gpu_state) 9 3 example_tablet [] = Some (inp', t') \<and> calls_of HidReportEvent t' = [[9, 3, 53, v]] \<and> unat v = 320"
proof -
  let ?e = "\<lparr>ev_type = 3, ev_code = 0, ev_value = 0x4000\<rparr>"
  let ?g = "set_gpu (example_gpu\<lparr>screen := \<lparr>r_x = 0, r_y = 0, r_width = 640, r_height = 480\<rparr>\<rparr>) example_gpu_state"
  have "aget (ev example_tablet) 3 = Some ?e" "unat (ev_type ?e) = EV_ABS example_input" "ev_code ?e = ABS_X example_input"
    "VirtgpuGetXres ?g = Some 640" "(0 :: u32) < 640" "unat (640 :: u32) \<le> 0x20000" "ev_value ?e < 0x8000"
    by (simp_all add: example_tablet_def example_input_def VirtgpuGetXres_def)
  from VirtinWorkCallback_scales [OF this, of 9 "[]"] show ?thesis
    by (auto simp: example_input_def)
qed

lemma VirtinFillHidCodeBitmap_types_witness:
  "\<exists>info' t'. VirtinFillHidCodeBitmap example_input
       (\<lambda>t. \<lparr>cfg_size = 1, u_bitmap = replicate 128 7, u_abs = \<lparr>ab_min = 0, ab_max = 0x7FFF, ab_fuzz = 0, ab_flat = 0, ab_res = 0\<rparr>,
         u_ids = \<lparr>id_bus = 6, id_vendor = 0, id_product = 0, id_version = 0\<rparr>\<rparr>) 0x0A003F00 (zero_HidInfo example_input) [] = Some (info', t') \<and>
     bit (eventType0 info') 3 \<and> \<not> bit (eventType0 info') 4"
proof -
  let ?k = "\<lparr>cfg_size = 1, u_bitmap = replicate 128 7, u_abs = \<lparr>ab_min = 0, ab_max = 0x7FFF, ab_fuzz = 0, ab_flat = 0, ab_res = 0\<rparr>,
         u_ids = \<lparr>id_bus = 6, id_vendor = 0, id_product = 0, id_version = 0\<rparr>\<rparr>"
  have "selects (\<lambda>t. ?k) (\<lambda>sel i. ?k) 0x0A003F00" by (simp add: selects_def)
  moreover have "tables_fit example_input (zero_HidInfo example_input)"
    by (simp add: tables_fit_def example_input_def bitmap_bytes_def)
  ultimately show ?thesis
    using VirtinFillHidCodeBitmap_types [of "\<lambda>t. ?k" "\<lambda>sel i. ?k" "0x0A003F00" example_input "zero_HidInfo example_input" "[]"]
    by (fastforce simp: example_input_def known_types_def)
qed

end
