(* ===== verification/Rvmmio.thy ===== *)
theory Rvmmio
  imports Virtmmio
begin

text \<open>
  The virtio-mmio transport of the riscv32 board, \<open>riscv32_virt/liteos_m/board/driver/virtmmio.c\<close>. It is
  the transport of theory \<open>Virtmmio\<close> on other slots, without the translation of addresses for the device
  and with another registration of the interrupt; its definitions carry the suffix \<open>_rv\<close> and use the
  register numbers and structs of \<open>Virtmmio\<close>, which the two headers share. A register write is
  preceded by a memory barrier, which has no sequential effect. The number of the processor's own
  interrupts, the size of \<open>HwiIrqParam\<close> and the kernel's memory pool come from the kernel's headers.
\<close>

record rv_consts =
  RISCV_SYS_MAX_IRQ :: u32
  SIZEOF_HwiIrqParam :: u32
  OS_SYS_MEM_ADDR :: u32

abbreviation (input) VIRTMMIO_BASE_ADDR_rv :: u32 where "VIRTMMIO_BASE_ADDR_rv \<equiv> 0x10001000"
abbreviation (input) VIRTMMIO_BASE_SIZE_rv :: u32 where "VIRTMMIO_BASE_SIZE_rv \<equiv> 0x1000"
abbreviation (input) VIRTMMIO_BASE_IRQ_rv :: u32 where "VIRTMMIO_BASE_IRQ_rv \<equiv> 1"
abbreviation (input) NUM_VIRTIO_TRANSPORTS_rv :: nat where "NUM_VIRTIO_TRANSPORTS_rv \<equiv> 8"

definition FENCE_WRITE_UINT32 :: "u32 \<Rightarrow> u32 \<Rightarrow> trace \<Rightarrow> trace" where
  "FENCE_WRITE_UINT32 v a t = Wr a v # t"

subsection \<open>Status\<close>

definition VirtioGetStatus_rv :: "env \<Rightarrow> VirtmmioDev \<Rightarrow> trace \<Rightarrow> u32 \<times> trace" where
  "VirtioGetStatus_rv E dev t = GET_UINT32 E (base dev + VIRTMMIO_REG_STATUS) t"

definition VirtioAddStatus_rv :: "env \<Rightarrow> VirtmmioDev \<Rightarrow> u32 \<Rightarrow> trace \<Rightarrow> trace" where
  "VirtioAddStatus_rv E dev val t =
     (let (s, t) = VirtioGetStatus_rv E dev t
      in FENCE_WRITE_UINT32 (s OR val) (base dev + VIRTMMIO_REG_STATUS) t)"

definition VirtioResetStatus_rv :: "VirtmmioDev \<Rightarrow> trace \<Rightarrow> trace" where
  "VirtioResetStatus_rv dev t = FENCE_WRITE_UINT32 VIRTIO_STATUS_RESET (base dev + VIRTMMIO_REG_STATUS) t"

partial_function (option) wait_driver_rv :: "env \<Rightarrow> VirtmmioDev \<Rightarrow> trace \<Rightarrow> trace option" where
  "wait_driver_rv E dev t =
     (let (s, t') = VirtioGetStatus_rv E dev t
      in if s AND VIRTIO_STATUS_DRIVER = 0 then wait_driver_rv E dev t' else Some t')"

definition VirtmmioInitBegin_rv :: "env \<Rightarrow> VirtmmioDev \<Rightarrow> trace \<Rightarrow> trace option" where
  "VirtmmioInitBegin_rv E dev t =
     (let t = VirtioResetStatus_rv dev t;
          t = VirtioAddStatus_rv E dev VIRTIO_STATUS_ACK t;
          t = VirtioAddStatus_rv E dev VIRTIO_STATUS_DRIVER t
      in wait_driver_rv E dev t)"

definition VritmmioInitEnd_rv :: "env \<Rightarrow> VirtmmioDev \<Rightarrow> trace \<Rightarrow> trace" where
  "VritmmioInitEnd_rv E dev t = VirtioAddStatus_rv E dev VIRTIO_STATUS_DRIVER_OK t"

definition VirtmmioInitFailed_rv :: "env \<Rightarrow> VirtmmioDev \<Rightarrow> trace \<Rightarrow> trace" where
  "VirtmmioInitFailed_rv E dev t = VirtioAddStatus_rv E dev VIRTIO_STATUS_FAILED t"

subsection \<open>Discovery\<close>

text \<open>The condition of the loop is that of \<open>slot_matches\<close>; \<open>IO_DEVICE_ADDR\<close> is the identity.\<close>

fun discover_loop_rv ::
  "env \<Rightarrow> rv_consts \<Rightarrow> u32 \<Rightarrow> nat \<Rightarrow> u32 \<Rightarrow> VirtmmioDev \<Rightarrow> trace \<Rightarrow> bool \<times> VirtmmioDev \<times> trace" where
  "discover_loop_rv E R devId 0 va dev t = (False, dev, t)"
| "discover_loop_rv E R devId (Suc i) va dev t =
     (let (ok, t) = slot_matches E devId va t in
      if ok then (True, dev\<lparr>base := va, irq := RISCV_SYS_MAX_IRQ R + VIRTMMIO_BASE_IRQ_rv + of_nat i\<rparr>, t)
      else discover_loop_rv E R devId i (va - VIRTMMIO_BASE_SIZE_rv) dev t)"

definition VirtmmioDiscover_rv ::
  "env \<Rightarrow> rv_consts \<Rightarrow> u32 \<Rightarrow> VirtmmioDev \<Rightarrow> trace \<Rightarrow> bool \<times> VirtmmioDev \<times> trace" where
  "VirtmmioDiscover_rv E R devId dev t =
     (let va = VIRTMMIO_BASE_ADDR_rv + VIRTMMIO_BASE_SIZE_rv * of_nat (NUM_VIRTIO_TRANSPORTS_rv - 1)
      in discover_loop_rv E R devId NUM_VIRTIO_TRANSPORTS_rv va dev t)"

subsection \<open>Feature negotiation\<close>

partial_function (option) negotiate_loop_rv ::
  "env \<Rightarrow> VirtmmioDev \<Rightarrow> 's VirtioFeatureFn \<Rightarrow> u32 \<Rightarrow> 's \<Rightarrow> trace \<Rightarrow> (u32 option \<times> 's \<times> trace) option" where
  "negotiate_loop_rv E dev fn features s t =
     (let (before, t) = GET_UINT32 E (base dev + VIRTMMIO_REG_CONFIGGENERATION) t;
          (ok, supported, s) = fn features 0 s t
      in if \<not> ok then Some (None, s, t)
         else let (after, t) = GET_UINT32 E (base dev + VIRTMMIO_REG_CONFIGGENERATION) t
              in if before \<noteq> after then negotiate_loop_rv E dev fn features s t
                 else Some (Some supported, s, t))"

definition Negotiate_rv ::
  "env \<Rightarrow> VirtmmioDev \<Rightarrow> u32 \<Rightarrow> 's VirtioFeatureFn \<Rightarrow> 's \<Rightarrow> trace \<Rightarrow> (bool \<times> 's \<times> trace) option" where
  "Negotiate_rv E dev nth_word fn s t = do {
     let t = FENCE_WRITE_UINT32 nth_word (base dev + VIRTMMIO_REG_DEVFEATURESEL) t;
     let (features, t) = GET_UINT32 E (base dev + VIRTMMIO_REG_DEVFEATURE) t;
     (r, s, t) \<leftarrow> negotiate_loop_rv E dev fn features s t;
     (case r of
        None \<Rightarrow> Some (False, s, t)
      | Some supported \<Rightarrow>
          let t = FENCE_WRITE_UINT32 nth_word (base dev + VIRTMMIO_REG_DRVFEATURESEL) t;
              t = FENCE_WRITE_UINT32 supported (base dev + VIRTMMIO_REG_DRVFEATURE) t
          in Some (True, s, t))
   }"

definition VirtmmioNegotiate_rv ::
  "env \<Rightarrow> VirtmmioDev \<Rightarrow> 's VirtioFeatureFn \<Rightarrow> 's VirtioFeatureFn \<Rightarrow> 's \<Rightarrow> trace
     \<Rightarrow> (bool \<times> 's \<times> trace) option" where
  "VirtmmioNegotiate_rv E dev f0 f1 s t = do {
     (ok, s, t) \<leftarrow> Negotiate_rv E dev VIRTIO_FEATURE_WORD0 f0 s t;
     if \<not> ok then Some (False, s, t) else do {
       (ok, s, t) \<leftarrow> Negotiate_rv E dev VIRTIO_FEATURE_WORD1 f1 s t;
       if \<not> ok then Some (False, s, t) else
         let t = VirtioAddStatus_rv E dev VIRTIO_STATUS_FEATURES_OK t;
             (st, t) = VirtioGetStatus_rv E dev t
         in if st AND VIRTIO_STATUS_FEATURES_OK = 0 then Some (False, s, t)
            else Some (True, s, t)
     }
   }"

subsection \<open>Queue layout and registration\<close>

definition VirtqSize_rv :: "env \<Rightarrow> u16 \<Rightarrow> u32" where
  "VirtqSize_rv E n =
     VIRTQ_ALIGN_DESC - 1 +
     ALIGN E (SIZEOF_VirtqDesc * ucast n) VIRTQ_ALIGN_AVAIL +
     ALIGN E (SIZEOF_VirtqAvail + SIZEOF_uint16 * ucast n) VIRTQ_ALIGN_USED +
     SIZEOF_VirtqUsed + SIZEOF_VirtqUsedElem * ucast n"

definition u32_to_u64 :: "u32 \<Rightarrow> u64" where
  "u32_to_u64 addr = ucast addr AND 0xFFFFFFFF"

definition WriteQueueAddr_rv :: "u64 \<Rightarrow> VirtmmioDev \<Rightarrow> u32 \<Rightarrow> trace \<Rightarrow> trace" where
  "WriteQueueAddr_rv addr dev regLow t =
     (let t = FENCE_WRITE_UINT32 (ucast (addr AND 0xFFFFFFFF)) (base dev + regLow) t
      in FENCE_WRITE_UINT32 (ucast (drop_bit 32 addr)) (base dev + regLow + 4) t)"

definition CompleteConfigQueue_rv :: "env \<Rightarrow> u32 \<Rightarrow> VirtmmioDev \<Rightarrow> trace \<Rightarrow> (bool \<times> trace) option" where
  "CompleteConfigQueue_rv E queue dev t = do {
     q \<leftarrow> aget (vq dev) (unat queue);
     let t = FENCE_WRITE_UINT32 queue (base dev + VIRTMMIO_REG_QUEUESEL) t;
     let (num, t) = GET_UINT32 E (base dev + VIRTMMIO_REG_QUEUEREADY) t;
     if \<not> LOS_ASSERT E (num = 0) then None else
     let (num, t) = GET_UINT32 E (base dev + VIRTMMIO_REG_QUEUENUMMAX) t in
     if num < ucast (qsz q) then Some (False, t) else
     let t = FENCE_WRITE_UINT32 (ucast (qsz q)) (base dev + VIRTMMIO_REG_QUEUENUM) t;
         t = WriteQueueAddr_rv (u32_to_u64 (q_desc q)) dev VIRTMMIO_REG_QUEUEDESCLOW t;
         t = WriteQueueAddr_rv (u32_to_u64 (q_avail q)) dev VIRTMMIO_REG_QUEUEDRIVERLOW t;
         t = WriteQueueAddr_rv (u32_to_u64 (q_used q)) dev VIRTMMIO_REG_QUEUEDEVICELOW t;
         t = FENCE_WRITE_UINT32 1 (base dev + VIRTMMIO_REG_QUEUEREADY) t
     in Some (True, t)
   }"

definition CalculateQueueAddr_rv :: "env \<Rightarrow> u32 \<Rightarrow> u16 \<Rightarrow> Virtq \<Rightarrow> u32 \<times> Virtq" where
  "CalculateQueueAddr_rv E va n q =
     (let va = ALIGN E va VIRTQ_ALIGN_DESC;
          q = q\<lparr>q_desc := va, qsz := n\<rparr>;
          va = ALIGN E (va + SIZEOF_VirtqDesc * ucast n) VIRTQ_ALIGN_AVAIL;
          q = q\<lparr>q_avail := va\<rparr>;
          va = ALIGN E (va + SIZEOF_VirtqAvail + SIZEOF_uint16 * ucast n) VIRTQ_ALIGN_USED;
          q = q\<lparr>q_used := va\<rparr>
      in (va + SIZEOF_VirtqUsed + SIZEOF_VirtqUsedElem * ucast n, q))"

fun config_queue_loop_rv ::
  "env \<Rightarrow> u32 \<Rightarrow> u16 list \<Rightarrow> VirtmmioDev \<Rightarrow> u32 \<Rightarrow> trace \<Rightarrow> (u32 \<times> VirtmmioDev \<times> trace) option" where
  "config_queue_loop_rv E i [] dev va t = Some (va, dev, t)"
| "config_queue_loop_rv E i (n # ns) dev va t = do {
     q \<leftarrow> aget (vq dev) (unat i);
     let (va, q) = CalculateQueueAddr_rv E va n q;
     vqs \<leftarrow> aset (vq dev) (unat i) q;
     let dev = dev\<lparr>vq := vqs\<rparr>;
     (ok, t) \<leftarrow> CompleteConfigQueue_rv E i dev t;
     if \<not> ok then Some (0, dev, t)
     else config_queue_loop_rv E (i + 1) ns dev va t
   }"

definition VirtmmioConfigQueue_rv ::
  "env \<Rightarrow> VirtmmioDev \<Rightarrow> u32 \<Rightarrow> u16 list \<Rightarrow> nat \<Rightarrow> trace \<Rightarrow> (u32 \<times> VirtmmioDev \<times> trace) option" where
  "VirtmmioConfigQueue_rv E dev va szs num t =
     (if length szs < num then None else config_queue_loop_rv E 0 (take num szs) dev va t)"

subsection \<open>Interrupt registration\<close>

text \<open>The parameter block is allocated and filled without a test for the null pointer.\<close>

definition VirtmmioRegisterIRQ_rv :: "env \<Rightarrow> rv_consts \<Rightarrow> VirtmmioDev \<Rightarrow> trace \<Rightarrow> (bool \<times> trace) option" where
  "VirtmmioRegisterIRQ_rv E R dev t =
     (let (param, t) = kcall E mem_calloc [1, SIZEOF_HwiIrqParam R] t
      in if param = 0 then None else
      let (ret, t) = kcall E LOS_HwiCreate [irq dev, param] t
      in Some (if ret \<noteq> 0 then (False, t) else (True, kproc HalIrqEnable [irq dev] t)))"

subsection \<open>The two transports\<close>

lemmas write_rv = FENCE_WRITE_UINT32_def WRITE_UINT32_def

lemma status_rv:
  "VirtioGetStatus_rv E dev t = VirtioGetStatus E dev t" "VirtioAddStatus_rv E dev v t = VirtioAddStatus E dev v t"
  "VirtioResetStatus_rv dev t = VirtioResetStatus dev t"
  by (simp_all add: VirtioGetStatus_rv_def VirtioGetStatus_def VirtioAddStatus_rv_def VirtioAddStatus_def VirtioResetStatus_rv_def
      VirtioResetStatus_def write_rv)

lemma option_eqI: "(\<And>y. f = Some y \<Longrightarrow> g = Some y) \<Longrightarrow> (\<And>y. g = Some y \<Longrightarrow> f = Some y) \<Longrightarrow> f = g"
  by (metis option.exhaust)

text \<open>Loops with the same body end together.\<close>

lemma wait_driver_rv: "wait_driver_rv E dev t = wait_driver E dev t"
proof (rule option_eqI)
  show "wait_driver E dev t = Some y" if "wait_driver_rv E dev t = Some y" for y
  proof (rule wait_driver_rv.raw_induct [where P = "\<lambda>E dev t y. wait_driver E dev t = Some y", OF _ that], goal_cases)
    case (1 f E dev t y)
    then show ?case by (subst wait_driver.simps) (auto simp: status_rv Let_def split: prod.splits if_splits)
  qed
  show "wait_driver_rv E dev t = Some y" if "wait_driver E dev t = Some y" for y
  proof (rule wait_driver.raw_induct [where P = "\<lambda>E dev t y. wait_driver_rv E dev t = Some y", OF _ that], goal_cases)
    case (1 f E dev t y)
    then show ?case by (subst wait_driver_rv.simps) (auto simp: status_rv Let_def split: prod.splits if_splits)
  qed
qed

lemma negotiate_loop_rv: "negotiate_loop_rv E dev fn ft s t = negotiate_loop E dev fn ft s t"
proof (rule option_eqI)
  show "negotiate_loop E dev fn ft s t = Some y" if "negotiate_loop_rv E dev fn ft s t = Some y" for y
  proof (rule negotiate_loop_rv.raw_induct [where P = "\<lambda>E dev fn ft s t y. negotiate_loop E dev fn ft s t = Some y", OF _ that], goal_cases)
    case (1 f E dev fn ft s t y)
    then show ?case by (cases y rule: prod_cases3, subst negotiate_loop.simps) (auto simp: Let_def split: prod.splits if_splits)
  qed
  show "negotiate_loop_rv E dev fn ft s t = Some y" if "negotiate_loop E dev fn ft s t = Some y" for y
  proof (rule negotiate_loop.raw_induct [where P = "\<lambda>E dev fn ft s t y. negotiate_loop_rv E dev fn ft s t = Some y", OF _ that], goal_cases)
    case (1 f E dev fn ft s t y)
    then show ?case by (cases y rule: prod_cases3, subst negotiate_loop_rv.simps) (auto simp: Let_def split: prod.splits if_splits)
  qed
qed

lemma Negotiate_rv: "Negotiate_rv E dev n fn s t = Negotiate E dev n fn s t"
  unfolding Negotiate_rv_def Negotiate_def write_rv negotiate_loop_rv ..

lemma VirtmmioNegotiate_rv: "VirtmmioNegotiate_rv E dev f0 f1 s t = VirtmmioNegotiate E dev f0 f1 s t"
  unfolding VirtmmioNegotiate_rv_def VirtmmioNegotiate_def Negotiate_rv status_rv ..

lemma VirtmmioInitBegin_rv: "VirtmmioInitBegin_rv E dev t = VirtmmioInitBegin E dev t"
  by (simp add: VirtmmioInitBegin_rv_def VirtmmioInitBegin_def status_rv wait_driver_rv)

text \<open>The environment whose addresses for the device are those of the processor.\<close>

definition same_addresses :: "env \<Rightarrow> env" where
  "same_addresses E = E\<lparr>VMM_TO_DMA_ADDR := \<lambda>a. a\<rparr>"

lemma same_addresses_simps [simp]:
  "rd_reg (same_addresses E) = rd_reg E" "ALIGN (same_addresses E) = ALIGN E" "LOS_ASSERT (same_addresses E) = LOS_ASSERT E"
  "VMM_TO_DMA_ADDR (same_addresses E) a = a"
  by (simp_all add: same_addresses_def)

lemma GET_UINT32_same [simp]: "GET_UINT32 (same_addresses E) a t = GET_UINT32 E a t"
  by (simp add: GET_UINT32_def)

lemma u32_to_u64_eq: "u32_to_u64 a = ucast a"
proof -
  have m: "(0xFFFFFFFF :: u64) = mask 32" by (simp add: mask_eq_exp_minus_1)
  show ?thesis unfolding u32_to_u64_def m
    by (rule bit_word_eqI, auto simp: bit_and_iff bit_unsigned_iff bit_mask_iff dest: bit_imp_le_length)
qed

lemma WriteQueueAddr_rv: "WriteQueueAddr_rv (u32_to_u64 a) dev r t = WriteQueueAddr (same_addresses E) (ucast a) dev r t"
  by (simp only: WriteQueueAddr_rv_def WriteQueueAddr_def u32_to_u64_eq write_rv same_addresses_simps Let_def)

lemma CompleteConfigQueue_rv: "CompleteConfigQueue_rv E queue dev t = CompleteConfigQueue (same_addresses E) queue dev t"
  unfolding CompleteConfigQueue_rv_def CompleteConfigQueue_def WriteQueueAddr_rv [of _ _ _ _ E] write_rv GET_UINT32_same same_addresses_simps ..

lemma CalculateQueueAddr_rv: "CalculateQueueAddr_rv E va n q = CalculateQueueAddr (same_addresses E) va n q"
  unfolding CalculateQueueAddr_rv_def CalculateQueueAddr_def same_addresses_simps ..

lemma config_queue_loop_rv: "config_queue_loop_rv E i ns dev va t = config_queue_loop (same_addresses E) i ns dev va t"
  by (induction ns arbitrary: i dev va t) (simp_all add: CompleteConfigQueue_rv CalculateQueueAddr_rv Let_def cong: if_cong)

text \<open>C22. On one and the same device the two transports do the same: the handshake, the negotiation of
  features, the end of the initialisation and its failure make the same accesses and give the same results, for
  every device and whether they end or not. The queues are laid out in the same places and registered with
  the same accesses as the LiteOS-A transport makes when the device sees memory at the processor's addresses.\<close>

theorem transport_equiv:
  "VirtmmioInitBegin_rv E dev t = VirtmmioInitBegin E dev t \<and>
   VirtmmioNegotiate_rv E dev f0 f1 s t = VirtmmioNegotiate E dev f0 f1 s t \<and>
   VirtqSize_rv E n = VirtqSize E n \<and>
   VirtmmioConfigQueue_rv E dev va szs num t = VirtmmioConfigQueue (E\<lparr>VMM_TO_DMA_ADDR := \<lambda>a. a\<rparr>) dev va szs num t \<and>
   VritmmioInitEnd_rv E dev t = VritmmioInitEnd E dev t \<and>
   VirtmmioInitFailed_rv E dev t = VirtmmioInitFailed E dev t"
  by (simp add: VirtmmioInitBegin_rv VirtmmioNegotiate_rv VirtqSize_rv_def VirtqSize_def VirtmmioConfigQueue_rv_def
      VirtmmioConfigQueue_def config_queue_loop_rv same_addresses_def VritmmioInitEnd_rv_def VritmmioInitEnd_def
      VirtmmioInitFailed_rv_def VirtmmioInitFailed_def status_rv)

subsection \<open>Discovery on the riscv32 slots\<close>

definition slot_addr_rv :: "nat \<Rightarrow> u32" where
  "slot_addr_rv i = VIRTMMIO_BASE_ADDR_rv + VIRTMMIO_BASE_SIZE_rv * of_nat i"

text \<open>The identification registers of the eight slots do not change; the last argument is what they hold.\<close>

definition stable_ids_rv :: "env \<Rightarrow> (u32 \<Rightarrow> u32) \<Rightarrow> bool" where
  "stable_ids_rv E ids \<longleftrightarrow> (\<forall>t. \<forall>i < NUM_VIRTIO_TRANSPORTS_rv. \<forall>r \<in> {0, 4, 8}. rd_reg E t (slot_addr_rv i + r) = ids (slot_addr_rv i + r))"

definition has_device_rv :: "(u32 \<Rightarrow> u32) \<Rightarrow> u32 \<Rightarrow> nat \<Rightarrow> bool" where
  "has_device_rv ids devId i \<longleftrightarrow> ids (slot_addr_rv i) = VIRTMMIO_MAGIC \<and>
     ids (slot_addr_rv i + VIRTMMIO_REG_VERSION) = VIRTMMIO_VERSION \<and>
     ids (slot_addr_rv i + VIRTMMIO_REG_DEVICEID) = devId"

lemma slot_matches_rv:
  assumes "stable_ids_rv E ids" and "i < NUM_VIRTIO_TRANSPORTS_rv"
  shows "fst (slot_matches E devId (slot_addr_rv i) t) \<longleftrightarrow> has_device_rv ids devId i"
    and "writes_of (snd (slot_matches E devId (slot_addr_rv i) t)) = writes_of t"
proof -
  have r: "rd_reg E t (slot_addr_rv i) = ids (slot_addr_rv i)"
    "rd_reg E t (slot_addr_rv i + 4) = ids (slot_addr_rv i + 4)"
    "rd_reg E t (slot_addr_rv i + 8) = ids (slot_addr_rv i + 8)" for t
    using assms unfolding stable_ids_rv_def by force+
  show "fst (slot_matches E devId (slot_addr_rv i) t) \<longleftrightarrow> has_device_rv ids devId i"
    and "writes_of (snd (slot_matches E devId (slot_addr_rv i) t)) = writes_of t"
    by (simp_all add: slot_matches_def has_device_rv_def io_defs r)
qed

lemma discover_loop_rv_picks:
  assumes st: "stable_ids_rv E ids"
  shows "n \<le> NUM_VIRTIO_TRANSPORTS_rv \<Longrightarrow>
    discover_loop_rv E R devId n (slot_addr_rv n - VIRTMMIO_BASE_SIZE_rv) dev t = (ok, dev', t') \<Longrightarrow>
    writes_of t' = writes_of t \<and>
    (case rev (filter (has_device_rv ids devId) [0..<n]) of
       [] \<Rightarrow> \<not> ok \<and> dev' = dev
     | i # _ \<Rightarrow> ok \<and> dev' = dev\<lparr>base := slot_addr_rv i, irq := RISCV_SYS_MAX_IRQ R + 1 + of_nat i\<rparr>)"
proof (induction n arbitrary: t)
  case 0
  then show ?case by simp
next
  case (Suc n)
  have a: "slot_addr_rv (Suc n) - VIRTMMIO_BASE_SIZE_rv = slot_addr_rv n"
    by (simp add: slot_addr_rv_def algebra_simps)
  obtain m u where mu: "slot_matches E devId (slot_addr_rv n) t = (m, u)"
    by (cases "slot_matches E devId (slot_addr_rv n) t")
  then have m: "m \<longleftrightarrow> has_device_rv ids devId n" and u: "writes_of u = writes_of t"
    using slot_matches_rv [OF st, of n devId t] Suc.prems(1) by simp_all
  show ?case
    using Suc.prems Suc.IH [of u] u by (auto simp: a mu m split: if_splits)
qed

lemma VirtmmioDiscover_rv_picks_highest:
  assumes "stable_ids_rv E ids" and "VirtmmioDiscover_rv E R devId dev t = (ok, dev', t')"
  shows "writes_of t' = writes_of t \<and>
    (case rev (filter (has_device_rv ids devId) [0..<NUM_VIRTIO_TRANSPORTS_rv]) of
       [] \<Rightarrow> \<not> ok \<and> dev' = dev
     | i # _ \<Rightarrow> ok \<and> dev' = dev\<lparr>base := slot_addr_rv i, irq := RISCV_SYS_MAX_IRQ R + 1 + of_nat i\<rparr>)"
proof (rule discover_loop_rv_picks [OF assms(1)])
  show "discover_loop_rv E R devId NUM_VIRTIO_TRANSPORTS_rv (slot_addr_rv NUM_VIRTIO_TRANSPORTS_rv - VIRTMMIO_BASE_SIZE_rv) dev t
      = (ok, dev', t')"
    using assms(2) by (simp add: VirtmmioDiscover_rv_def slot_addr_rv_def add_diff_eq [symmetric])
qed simp

text \<open>The steps of an initialisation, as in \<open>Virtmmio\<close>.\<close>

lemma discover_loop_rv_calls:
  "discover_loop_rv E R devId n va dev t = (ok, dev', t') \<Longrightarrow> kcalls t' = kcalls t \<and> vq dev' = vq dev"
proof (induction n arbitrary: va t)
  case (Suc n)
  obtain m u where mu: "slot_matches E devId va t = (m, u)"
    by (cases "slot_matches E devId va t")
  then have "kcalls u = kcalls t"
    using kcalls_slot_matches [of E devId va t] by simp
  with Suc.prems Suc.IH [of "va - 0x1000" u] mu show ?case by (auto split: if_splits)
qed simp

lemma VirtmmioDiscover_rv_step:
  "VirtmmioDiscover_rv E R devId dev t = (ok, dev', t') \<Longrightarrow> kcalls t' = kcalls t \<and> vq dev' = vq dev"
  using discover_loop_rv_calls [of E R devId _ _ dev t ok dev' t'] by (simp add: VirtmmioDiscover_rv_def Let_def)

lemma VirtmmioInitFailed_rv_calls [simp]: "kcalls (VirtmmioInitFailed_rv E dev t) = kcalls t"
  by (simp add: VirtmmioInitFailed_rv_def status_rv io_defs Let_def)

lemma VirtmmioConfigQueue_rv_eq: "VirtmmioConfigQueue_rv E dev va szs num t = VirtmmioConfigQueue (same_addresses E) dev va szs num t"
  unfolding VirtmmioConfigQueue_rv_def VirtmmioConfigQueue_def config_queue_loop_rv ..

lemma VirtmmioConfigQueue_rv_step:
  assumes "VirtmmioConfigQueue_rv E dev va szs num t = Some (va', dev', t')" and "length (vq dev) = 2"
  shows "kcalls t' = kcalls t \<and> length (vq dev') = 2"
  using VirtmmioConfigQueue_calls [OF assms(1) [unfolded VirtmmioConfigQueue_rv_eq]] assms(2) by simp

end
