(* ===== verification/Rvinput.thy ===== *)
theory Rvinput
  imports Virtinput Rvmmio
begin

text \<open>
  The input device of the riscv32 board, \<open>riscv32_virt/liteos_m/board/driver/virtinput.c\<close>: a mouse behind
  the HDF input framework. Against \<open>drivers/virtio/virtinput.c\<close> (theory \<open>Virtinput\<close>, whose structs,
  feature callbacks and reader of the device's identity are the same) the interrupt only releases a semaphore, a
  task handles the events, and a filter drops the left-button releases of a captured mouse.

  \<open>Virtin_rv\<close> is the C struct with the memory of its queues. The globals and the private pointer of
  the device object are the record \<open>rvin_sys\<close>; its block is \<open>None\<close> while no block is allocated, so that a
  pointer to a freed block dangles.
\<close>

subsection \<open>State\<close>

record Virtin_rv =
  ri_addr :: u32
  ri_dev :: VirtmmioDev
  ri_tid :: u32
  ri_sem :: u32
  ri_ring :: vring
  ri_ev :: "VirtinEvent list"

record rvin_sys =
  rs_in :: "Virtin_rv option"
  rs_priv :: u32
  g_virtInputDev :: u32
  precedeDown :: int

abbreviation (input) VIRTIN_PRECEDE_DOWN_YES :: int where "VIRTIN_PRECEDE_DOWN_YES \<equiv> 0"
abbreviation (input) VIRTIN_PRECEDE_DOWN_NO :: int where "VIRTIN_PRECEDE_DOWN_NO \<equiv> 1"
abbreviation (input) VIRTIN_PRECEDE_DOWN_SYN :: int where "VIRTIN_PRECEDE_DOWN_SYN \<equiv> 2"

text \<open>The code of the left button is a number of the input framework.\<close>

record rvin_consts = input_consts +
  BTN_LEFT :: u16

subsection \<open>Events\<close>

fun populate_events_rv :: "u32 \<Rightarrow> nat \<Rightarrow> nat \<Rightarrow> vring \<Rightarrow> vring option" where
  "populate_events_rv evp i 0 r = Some r"
| "populate_events_rv evp i (Suc n) r = do {
     r \<leftarrow> desc_upd i (\<lambda>d. d\<lparr>pAddr := u32_to_u64 (evp + SIZEOF_VirtinEvent * of_nat i),
            d_len := SIZEOF_VirtinEvent, d_flag := VIRTQ_DESC_F_WRITE\<rparr>) r;
     ring \<leftarrow> aset (avail_ring r) i (of_nat i);
     populate_events_rv evp (i + 1) n (r\<lparr>avail_ring := ring\<rparr>)
   }"

definition PopulateEventQ_rv :: "rvin_consts \<Rightarrow> Virtin_rv \<Rightarrow> trace \<Rightarrow> (Virtin_rv \<times> trace) option" where
  "PopulateEventQ_rv C inp t = do {
     q \<leftarrow> aget (vq (ri_dev inp)) 0;
     r \<leftarrow> populate_events_rv (ri_addr inp + OFF_ev C) 0 (unat VIRTQ_EVENT_QSZ) (ri_ring inp);
     let r = avail_add (qsz q) r;
     let t = WRITE_UINT32 0 (base (ri_dev inp) + VIRTMMIO_REG_QUEUENOTIFY) t;
     Some (inp\<lparr>ri_ring := r\<rparr>, t)
   }"

text \<open>Whether the event passes the filter, and the new state of the filter.\<close>

definition VirtinGrabbed :: "rvin_consts \<Rightarrow> VirtinEvent \<Rightarrow> int \<Rightarrow> bool \<times> int" where
  "VirtinGrabbed C e pd =
     (let button = unat (ev_type e) = EV_KEY C \<and> ev_code e = BTN_LEFT C
      in if button \<and> ev_value e \<noteq> 1 \<and> pd \<noteq> VIRTIN_PRECEDE_DOWN_YES then (False, VIRTIN_PRECEDE_DOWN_SYN) else
      let pd = (if button then if ev_value e = 1 then VIRTIN_PRECEDE_DOWN_YES else VIRTIN_PRECEDE_DOWN_NO else pd)
      in if pd = VIRTIN_PRECEDE_DOWN_SYN then (False, VIRTIN_PRECEDE_DOWN_NO) else (True, pd))"

definition event_one_rv ::
  "rvin_consts \<Rightarrow> u32 \<Rightarrow> Virtq \<Rightarrow> u16 \<Rightarrow> Virtin_rv \<Rightarrow> int \<Rightarrow> trace \<Rightarrow> (Virtq \<times> u16 \<times> Virtin_rv \<times> int \<times> trace) option" where
  "event_one_rv C g q add inp pd t = do {
     e \<leftarrow> used_get (qsz q) (q_last q) (ri_ring inp);
     let idx = (ucast (ue_id e) :: u16);
     v \<leftarrow> aget (ri_ev inp) (unat idx);
     let (ok, pd) = VirtinGrabbed C v pd;
     let t = (if ok then kproc HidReportEvent [g, ucast (ev_type v), ucast (ev_code v), ev_value v] t else t);
     r \<leftarrow> avail_put (qsz q) (unat (avail_index (ri_ring inp)) + unat add) idx (ri_ring inp);
     Some (q\<lparr>q_last := q_last q + 1\<rparr>, add + 1, inp\<lparr>ri_ring := r\<rparr>, pd, t)
   }"

partial_function (option) event_loop_rv ::
  "rvin_consts \<Rightarrow> u32 \<Rightarrow> Virtq \<Rightarrow> u16 \<Rightarrow> Virtin_rv \<Rightarrow> int \<Rightarrow> trace \<Rightarrow> (Virtq \<times> u16 \<times> Virtin_rv \<times> int \<times> trace) option" where
  "event_loop_rv C g q add inp pd t =
     (if q_last q = used_index (ri_ring inp) then Some (q, add, inp, pd, t)
      else Option.bind (event_one_rv C g q add inp pd t) (\<lambda>(q, add, inp, pd, t). event_loop_rv C g q add inp pd t))"

definition VirtinHandleEv_rv ::
  "rvin_consts \<Rightarrow> u32 \<Rightarrow> Virtin_rv \<Rightarrow> int \<Rightarrow> trace \<Rightarrow> (Virtin_rv \<times> int \<times> trace) option" where
  "VirtinHandleEv_rv C g inp pd t = do {
     q \<leftarrow> aget (vq (ri_dev inp)) 0;
     let inp = inp\<lparr>ri_ring := (ri_ring inp)\<lparr>avail_flag := VIRTQ_AVAIL_F_NO_INTERRUPT\<rparr>\<rparr>;
     (q, add, inp, pd, t) \<leftarrow> event_loop_rv C g q 0 inp pd t;
     vqs \<leftarrow> aset (vq (ri_dev inp)) 0 q;
     let r = (avail_add add (ri_ring inp))\<lparr>avail_flag := 0\<rparr>;
     let inp = inp\<lparr>ri_dev := (ri_dev inp)\<lparr>vq := vqs\<rparr>, ri_ring := r\<rparr>;
     let t = (if used_flag r \<noteq> VIRTQ_USED_F_NO_NOTIFY
              then WRITE_UINT32 0 (base (ri_dev inp) + VIRTMMIO_REG_QUEUENOTIFY) t else t);
     let t = WRITE_UINT32 VIRTMMIO_IRQ_NOTIFY_USED (base (ri_dev inp) + VIRTMMIO_REG_INTERRUPTACK) t;
     Some (inp, pd, t)
   }"

definition VirtinIRQhandle_rv :: "env \<Rightarrow> Virtin_rv \<Rightarrow> trace \<Rightarrow> HDF_STATUS \<times> trace" where
  "VirtinIRQhandle_rv E inp t =
     (let (st, t) = GET_UINT32 E (base (ri_dev inp) + VIRTMMIO_REG_INTERRUPTSTATUS) t
      in if st AND VIRTMMIO_IRQ_NOTIFY_USED = 0 then (HDF_FAILURE, t)
         else (HDF_SUCCESS, kproc osSemaphoreRelease [ri_sem inp] t))"

text \<open>One iteration of the endless loop of \<open>InputWorkTask\<close>; the second argument of
  \<open>osSemaphoreAcquire\<close> waits forever.\<close>

definition InputWorkTask ::
  "env \<Rightarrow> rvin_consts \<Rightarrow> u32 \<Rightarrow> Virtin_rv \<Rightarrow> int \<Rightarrow> trace \<Rightarrow> (Virtin_rv \<times> int \<times> trace) option" where
  "InputWorkTask E C g inp pd t =
     (let (r, t) = kcall E osSemaphoreAcquire [ri_sem inp, 0xFFFFFFFF] t
      in if r \<noteq> 0 then Some (inp, pd, t) else VirtinHandleEv_rv C g inp pd t)"

subsection \<open>The device's description\<close>

text \<open>The table of an event type; \<open>None\<close> is a write outside the table, \<open>Some None\<close> an unsupported type.\<close>

definition fill_codes_rv :: "rvin_consts \<Rightarrow> nat \<Rightarrow> u8 list \<Rightarrow> HidInfo \<Rightarrow> HidInfo option option" where
  "fill_codes_rv C evType bits info =
     (let info' = info\<lparr>eventType0 := eventType0 info OR push_bit evType 1\<rparr> in
      if evType = EV_KEY C then do {
        b \<leftarrow> copy_bitmap bits [0..<min (bitmap_bytes (HDF_KEY_CNT C)) VIRTIN_PROP_LEN] (keyCode info);
        Some (Some (info'\<lparr>keyCode := b\<rparr>))
      } else if evType = EV_REL C then do {
        b \<leftarrow> copy_bitmap bits [0..<min (bitmap_bytes (HDF_REL_CNT C)) VIRTIN_PROP_LEN] (relCode info);
        Some (Some (info'\<lparr>relCode := b\<rparr>))
      } else if evType = EV_ABS C then do {
        b \<leftarrow> copy_bitmap bits [0..<min (bitmap_bytes (HDF_ABS_CNT C)) VIRTIN_PROP_LEN] (absCode info);
        Some (Some (info'\<lparr>absCode := b\<rparr>))
      } else Some None)"

fun code_bitmap_loop_rv ::
  "rvin_consts \<Rightarrow> virtin_conf \<Rightarrow> u32 \<Rightarrow> nat list \<Rightarrow> HidInfo \<Rightarrow> trace \<Rightarrow> (bool \<times> HidInfo \<times> trace) option" where
  "code_bitmap_loop_rv C cf conf [] info t = Some (True, info, t)"
| "code_bitmap_loop_rv C cf conf (e # es) info t = do {
     let t = conf_select conf VIRTIO_INPUT_CFG_EV_BITS e t;
     if cfg_size (cf t) = 0 then code_bitmap_loop_rv C cf conf es info t else do {
       r \<leftarrow> fill_codes_rv C e (u_bitmap (cf t)) info;
       (case r of
          None \<Rightarrow> Some (False, info, t)
        | Some info \<Rightarrow> code_bitmap_loop_rv C cf conf es info t)
     }
   }"

definition VirtinFillHidCodeBitmap_rv ::
  "rvin_consts \<Rightarrow> virtin_conf \<Rightarrow> u32 \<Rightarrow> HidInfo \<Rightarrow> trace \<Rightarrow> (bool \<times> HidInfo \<times> trace) option" where
  "VirtinFillHidCodeBitmap_rv C cf conf info t =
     code_bitmap_loop_rv C cf conf [0..<HDF_EV_CNT C] (info\<lparr>eventType0 := 0\<rparr>) t"

partial_function (option) fill_hid_loop_rv ::
  "env \<Rightarrow> rvin_consts \<Rightarrow> virtin_conf \<Rightarrow> u32 \<Rightarrow> HidInfo \<Rightarrow> trace \<Rightarrow> (bool \<times> HidInfo \<times> trace) option" where
  "fill_hid_loop_rv E C cf b info t =
     (let (before, t) = GET_UINT32 E (b + VIRTMMIO_REG_CONFIGGENERATION) t;
          (info, t) = VirtinFillHidDevIds cf (b + VIRTMMIO_REG_CONFIG) info t
      in Option.bind (VirtinFillHidCodeBitmap_rv C cf (b + VIRTMMIO_REG_CONFIG) info t) (\<lambda>(ok, info, t).
           if \<not> ok then Some (False, info, t) else
           let (after, t) = GET_UINT32 E (b + VIRTMMIO_REG_CONFIGGENERATION) t
           in if before \<noteq> after then fill_hid_loop_rv E C cf b info t else Some (True, info, t)))"

definition VirtinFillHidInfo_rv ::
  "env \<Rightarrow> rvin_consts \<Rightarrow> virtin_conf \<Rightarrow> Virtin_rv \<Rightarrow> HidInfo \<Rightarrow> trace \<Rightarrow> (bool \<times> HidInfo \<times> trace) option" where
  "VirtinFillHidInfo_rv E C cf inp info t =
     fill_hid_loop_rv E C cf (base (ri_dev inp))
       (info\<lparr>devType := INDEV_TYPE_MOUSE C, devName := ''virtinput''\<rparr>) t"

subsection \<open>Initialisation and release\<close>

text \<open>The status and the new value of \<open>g_virtInputDev\<close>.\<close>

definition HdfVirtinInitHid_rv ::
  "env \<Rightarrow> rvin_consts \<Rightarrow> virtin_conf \<Rightarrow> Virtin_rv \<Rightarrow> u32 \<Rightarrow> trace \<Rightarrow> (HDF_STATUS \<times> u32 \<times> trace) option" where
  "HdfVirtinInitHid_rv E C cf inp g t =
     (let (p, t) = kcall E OsalMemCalloc [SIZEOF_HidInfo C] t
      in if p = 0 then Some (HDF_ERR_MALLOC_FAIL, g, t) else do {
        (ok, info, t) \<leftarrow> VirtinFillHidInfo_rv E C cf inp (zero_HidInfo C) t;
        if \<not> ok then Some (HDF_ERR_NOT_SUPPORT, g, kproc OsalMemFree [p] t) else
        let t = kproc SendInfoToHdf [p] t;
            (g, t) = kcall E HidRegisterHdfInputDev [p] t;
            ret = (if g = 0 then HDF_FAILURE else HDF_SUCCESS)
        in Some (ret, g, kproc OsalMemFree [p] t)
      })"

definition VirtinDeInit_rv :: "rv_consts \<Rightarrow> Virtin_rv \<Rightarrow> trace \<Rightarrow> trace" where
  "VirtinDeInit_rv R inp t =
     (let t = (if ri_sem inp \<noteq> 0 then kproc osSemaphoreDelete [ri_sem inp] t else t);
          t = (if ri_tid inp \<noteq> 0 then kproc osThreadTerminate [ri_tid inp] t else t);
          t = (if irq (ri_dev inp) \<noteq> 0 then kproc LOS_HwiDelete [irq (ri_dev inp), 0] t else t)
      in kproc LOS_MemFree [OS_SYS_MEM_ADDR R, ri_addr inp] t)"

text \<open>The block after \<open>memset_s\<close>.\<close>

definition zero_Virtin_rv :: "u32 \<Rightarrow> Virtin_rv" where
  "zero_Virtin_rv p = \<lparr>ri_addr = p, ri_dev = \<lparr>base = 0, irq = 0,
       vq = replicate VIRTQ_NUM \<lparr>qsz = 0, q_last = 0, q_desc = 0, q_avail = 0, q_used = 0\<rparr>\<rparr>,
     ri_tid = 0, ri_sem = 0, ri_ring = zero_vring (unat VIRTQ_EVENT_QSZ),
     ri_ev = replicate (unat VIRTQ_EVENT_QSZ) \<lparr>ev_type = 0, ev_code = 0, ev_value = 0\<rparr>\<rparr>"

definition in_err_out_rv :: "rv_consts \<Rightarrow> Virtin_rv \<Rightarrow> trace \<Rightarrow> Virtin_rv option \<times> trace" where
  "in_err_out_rv R inp t = (None, VirtinDeInit_rv R inp t)"

definition in_err_out1_rv :: "env \<Rightarrow> rv_consts \<Rightarrow> Virtin_rv \<Rightarrow> trace \<Rightarrow> Virtin_rv option \<times> trace" where
  "in_err_out1_rv E R inp t = in_err_out_rv R inp (VirtmmioInitFailed_rv E (ri_dev inp) t)"

definition VirtinInitDev_rv :: "env \<Rightarrow> rv_consts \<Rightarrow> rvin_consts \<Rightarrow> trace \<Rightarrow> (Virtin_rv option \<times> trace) option" where
  "VirtinInitDev_rv E R C t =
     (let len = SIZEOF_Virtin C + VirtqSize_rv E VIRTQ_EVENT_QSZ + VirtqSize_rv E VIRTQ_STATUS_QSZ;
          (p, t) = kcall E LOS_MemAlloc [OS_SYS_MEM_ADDR R, len * 4] t
      in if p = 0 then Some (None, t) else
      let inp = zero_Virtin_rv p;
          (found, dev, t) = VirtmmioDiscover_rv E R VIRTMMIO_DEVICE_ID_INPUT (ri_dev inp) t;
          inp = inp\<lparr>ri_dev := dev\<rparr>
      in if \<not> found then Some (in_err_out_rv R inp t) else do {
        t \<leftarrow> VirtmmioInitBegin_rv E dev t;
        (ok, inp, t) \<leftarrow> VirtmmioNegotiate_rv E dev In_Feature0 In_Feature1 inp t;
        if \<not> ok then Some (in_err_out1_rv E R inp t) else do {
          let va = ALIGN E (p + SIZEOF_Virtin C) VIRTQ_ALIGN_DESC;
          (r, dev, t) \<leftarrow> VirtmmioConfigQueue_rv E (ri_dev inp) va [VIRTQ_EVENT_QSZ, VIRTQ_STATUS_QSZ] VIRTQ_NUM t;
          let inp = inp\<lparr>ri_dev := dev\<rparr>;
          if r = 0 then Some (in_err_out1_rv E R inp t) else do {
            (ok, t) \<leftarrow> VirtmmioRegisterIRQ_rv E R dev t;
            if \<not> ok then Some (in_err_out1_rv E R inp t) else Some (Some inp, t)
          }
        }
      })"

text \<open>\<open>osThreadNew\<close> is called with the task's function and attributes, which are constants, and with the
  block.\<close>

definition HdfVirtinInit_rv ::
  "env \<Rightarrow> rv_consts \<Rightarrow> rvin_consts \<Rightarrow> virtin_conf \<Rightarrow> bool \<Rightarrow> rvin_sys \<Rightarrow> trace \<Rightarrow> (HDF_STATUS \<times> rvin_sys \<times> trace) option" where
  "HdfVirtinInit_rv E R C cf isnull s t =
     (if isnull then Some (HDF_ERR_INVALID_PARAM, s, t) else do {
        (inp, t) \<leftarrow> VirtinInitDev_rv E R C t;
        (case inp of
          None \<Rightarrow> Some (HDF_FAILURE, s, t)
        | Some inp \<Rightarrow> do {
            let s = s\<lparr>rs_in := Some inp, rs_priv := ri_addr inp\<rparr>;
            (ret, g, t) \<leftarrow> HdfVirtinInitHid_rv E C cf inp (g_virtInputDev s) t;
            let s = s\<lparr>g_virtInputDev := g\<rparr>;
            if ret \<noteq> HDF_SUCCESS then Some (ret, s\<lparr>rs_in := None\<rparr>, VirtinDeInit_rv R inp t) else
            let (sem, t) = kcall E osSemaphoreNew [1, 0, 0] t; inp = inp\<lparr>ri_sem := sem\<rparr>
            in if sem = 0 then Some (HDF_FAILURE, s\<lparr>rs_in := None\<rparr>, VirtinDeInit_rv R inp t) else
            let (tid, t) = kcall E osThreadNew [ri_addr inp] t; inp = inp\<lparr>ri_tid := tid\<rparr>
            in if tid = 0 then Some (HDF_FAILURE, s\<lparr>rs_in := None\<rparr>, VirtinDeInit_rv R inp t) else do {
              (inp, t) \<leftarrow> PopulateEventQ_rv C inp t;
              let t = VritmmioInitEnd_rv E (ri_dev inp) t;
              Some (HDF_SUCCESS, s\<lparr>rs_in := Some inp\<rparr>, t)
            }
          })
      })"

definition HdfVirtinRelease_rv :: "rv_consts \<Rightarrow> bool \<Rightarrow> rvin_sys \<Rightarrow> trace \<Rightarrow> (rvin_sys \<times> trace) option" where
  "HdfVirtinRelease_rv R isnull s t =
     (if isnull \<or> rs_priv s = 0 then Some (s, t) else
      let t = (if g_virtInputDev s \<noteq> 0 then kproc HidUnregisterHdfInputDev [g_virtInputDev s] t else t)
      in case rs_in s of
           None \<Rightarrow> None
         | Some inp \<Rightarrow> Some (s\<lparr>rs_in := None\<rparr>, VirtinDeInit_rv R inp t))"

subsection \<open>What the filter lets through\<close>

text \<open>The reference: an event is judged by the events before it. A release of the left button is unpaired
  when the last event of the button before it, if any, is not a press. Dropped are the unpaired releases
  and the event right after one, unless it is again an event of the button.\<close>

definition left_button :: "rvin_consts \<Rightarrow> VirtinEvent \<Rightarrow> bool" where
  "left_button C e \<longleftrightarrow> unat (ev_type e) = EV_KEY C \<and> ev_code e = BTN_LEFT C"

definition pressed :: "rvin_consts \<Rightarrow> VirtinEvent list \<Rightarrow> bool" where
  "pressed C es = (case rev (filter (left_button C) es) of [] \<Rightarrow> False | e # _ \<Rightarrow> ev_value e = 1)"

definition unpaired :: "rvin_consts \<Rightarrow> VirtinEvent list \<Rightarrow> VirtinEvent \<Rightarrow> bool" where
  "unpaired C es e \<longleftrightarrow> left_button C e \<and> ev_value e \<noteq> 1 \<and> \<not> pressed C es"

definition after_unpaired :: "rvin_consts \<Rightarrow> VirtinEvent list \<Rightarrow> bool" where
  "after_unpaired C es \<longleftrightarrow> es \<noteq> [] \<and> unpaired C (butlast es) (last es)"

definition dropped :: "rvin_consts \<Rightarrow> VirtinEvent list \<Rightarrow> VirtinEvent \<Rightarrow> bool" where
  "dropped C es e \<longleftrightarrow> unpaired C es e \<or> after_unpaired C es \<and> \<not> left_button C e"

text \<open>The events that pass of \<open>es\<close>, when the events \<open>before\<close> came before them.\<close>

definition passing :: "rvin_consts \<Rightarrow> VirtinEvent list \<Rightarrow> VirtinEvent list \<Rightarrow> VirtinEvent list" where
  "passing C before es = map ((!) es) (filter (\<lambda>i. \<not> dropped C (before @ take i es) (es ! i)) [0..<length es])"

definition filter_state :: "rvin_consts \<Rightarrow> VirtinEvent list \<Rightarrow> int" where
  "filter_state C es = (if pressed C es then VIRTIN_PRECEDE_DOWN_YES
     else if after_unpaired C es then VIRTIN_PRECEDE_DOWN_SYN else VIRTIN_PRECEDE_DOWN_NO)"

lemma pressed_snoc: "pressed C (es @ [e]) \<longleftrightarrow> (if left_button C e then ev_value e = 1 else pressed C es)"
  by (simp add: pressed_def)

lemma after_unpaired_snoc: "after_unpaired C (es @ [e]) \<longleftrightarrow> unpaired C es e"
  by (simp add: after_unpaired_def)

lemma after_unpaired_not_pressed: "after_unpaired C es \<Longrightarrow> \<not> pressed C es"
  by (cases es rule: rev_cases) (auto simp: after_unpaired_snoc pressed_snoc unpaired_def after_unpaired_def)

lemma VirtinGrabbed_step: "VirtinGrabbed C e (filter_state C es) = (\<not> dropped C es e, filter_state C (es @ [e]))"
  using after_unpaired_not_pressed [of C es]
  by (auto simp: VirtinGrabbed_def filter_state_def pressed_snoc after_unpaired_snoc dropped_def unpaired_def left_button_def Let_def)

lemma passing_Nil [simp]: "passing C before [] = []"
  by (simp add: passing_def)

lemma passing_Cons: "passing C before (e # es) = (if dropped C before e then [] else [e]) @ passing C (before @ [e]) es"
proof -
  have "[0..<Suc (length es)] = 0 # map Suc [0..<length es]" by (simp only: upt_conv_Cons [OF zero_less_Suc] map_Suc_upt)
  then show ?thesis by (simp add: passing_def filter_map comp_def)
qed

subsection \<open>The event loop\<close>

definition report :: "u32 \<Rightarrow> VirtinEvent \<Rightarrow> u32 list" where
  "report g e = [g, ucast (ev_type e), ucast (ev_code e), ev_value e]"

definition events_of :: "Virtin_rv \<Rightarrow> u16 list \<Rightarrow> VirtinEvent list" where
  "events_of inp ids = map (\<lambda>i. ri_ev inp ! unat i) ids"

lemma event_one_rv_run:
  assumes "qsz q = 8" and "vring_ok 8 (ri_ring inp)"
    and "idx = ucast (ue_id (used_ring (ri_ring inp) ! (unat (q_last q) mod 8)))" and "unat idx < length (ri_ev inp)"
  shows "\<exists>t'. event_one_rv C g q add inp (filter_state C before) t = Some (q\<lparr>q_last := q_last q + 1\<rparr>, add + 1,
      inp\<lparr>ri_ring := (ri_ring inp)\<lparr>avail_ring := (avail_ring (ri_ring inp))[unat (avail_index (ri_ring inp) + add) mod 8 := idx]\<rparr>\<rparr>,
      filter_state C (before @ [ri_ev inp ! unat idx]), t') \<and>
    writes_of t' = writes_of t \<and>
    calls_of HidReportEvent t' = calls_of HidReportEvent t @ map (report g) (passing C before [ri_ev inp ! unat idx])"
proof -
  let ?r = "ri_ring inp"
  have s: "unat (avail_index ?r + add) mod 8 = (unat (avail_index ?r) + unat add) mod 8"
    using ring8.slot_wrap [of "avail_index ?r" "unat add"] by simp
  show ?thesis
    unfolding s using assms vring_okD(2,3) [OF assms(2)]
    by (simp add: event_one_rv_def used_get_in avail_put_in io_defs Let_def VirtinGrabbed_step passing_Cons report_def)
qed

lemma event_loop_rv_run:
  assumes "qsz q = 8" and "vring_ok 8 (ri_ring inp)" and "\<forall>i \<in> set (done_ids q (ri_ring inp)). unat i < length (ri_ev inp)"
    and "unat (used_index (ri_ring inp) - q_last q) = n" and "n + unat add \<le> 8"
  shows "\<exists>R t'. event_loop_rv C g q add inp (filter_state C before) t = Some (q\<lparr>q_last := used_index (ri_ring inp)\<rparr>, add + of_nat n,
      inp\<lparr>ri_ring := (ri_ring inp)\<lparr>avail_ring := R\<rparr>\<rparr>, filter_state C (before @ events_of inp (done_ids q (ri_ring inp))), t') \<and>
    writes_of t' = writes_of t \<and> length R = 8 \<and>
    calls_of HidReportEvent t' = calls_of HidReportEvent t @ map (report g) (passing C before (events_of inp (done_ids q (ri_ring inp)))) \<and>
    ring_view R 8 (avail_index (ri_ring inp)) (avail_index (ri_ring inp) + add + of_nat n) =
      ring_view (avail_ring (ri_ring inp)) 8 (avail_index (ri_ring inp)) (avail_index (ri_ring inp) + add)
        @ done_ids q (ri_ring inp)"
  using assms
proof (induction n arbitrary: q add inp t before)
  case 0
  then have "q_last q = used_index (ri_ring inp)"
    by (metis right_minus_eq unat_eq_zero)
  moreover from this have "event_loop_rv C g q add inp (filter_state C before) t = Some (q, add, inp, filter_state C before, t)"
    by (subst event_loop_rv.simps) simp
  moreover have "inp = inp\<lparr>ri_ring := (ri_ring inp)\<lparr>avail_ring := avail_ring (ri_ring inp)\<rparr>\<rparr>" "q\<lparr>q_last := q_last q\<rparr> = q"
    by simp_all
  ultimately show ?case
    using 0(2) by (intro exI [of _ "avail_ring (ri_ring inp)"] exI [of _ t]) (simp add: done_ids_def vring_ok_def events_of_def)
next
  case (Suc n)
  let ?r = "ri_ring inp"
  let ?id = "ucast (ue_id (used_ring ?r ! (unat (q_last q) mod 8))) :: u16"
  let ?to = "avail_index ?r + add"
  have ne: "q_last q \<noteq> used_index ?r"
    using Suc.prems(4) by auto
  have le: "unat (used_index ?r - q_last q) \<le> 8"
    using Suc.prems(4,5) by simp
  let ?q = "q\<lparr>q_last := q_last q + 1\<rparr>"
  let ?i = "inp\<lparr>ri_ring := ?r\<lparr>avail_ring := (avail_ring ?r)[unat ?to mod 8 := ?id]\<rparr>\<rparr>"
  have ids: "done_ids q ?r = ?id # done_ids ?q (ri_ring ?i)"
    using ring8.view_get [OF ne le, of "used_ring ?r"] by (simp add: done_ids_def)
  have b: "unat ?id < length (ri_ev inp)" "\<forall>i \<in> set (done_ids ?q (ri_ring ?i)). unat i < length (ri_ev ?i)"
    using Suc.prems(3) unfolding ids by simp_all
  let ?e = "ri_ev inp ! unat ?id"
  obtain t1 where one: "event_one_rv C g q add inp (filter_state C before) t = Some (?q, add + 1, ?i, filter_state C (before @ [?e]), t1)"
    and w1: "writes_of t1 = writes_of t" "calls_of HidReportEvent t1 = calls_of HidReportEvent t @ map (report g) (passing C before [?e])"
    using event_one_rv_run [OF Suc.prems(1,2) refl b(1), of C g add before t] by blast
  have evs: "events_of inp (done_ids q ?r) = ?e # events_of ?i (done_ids ?q (ri_ring ?i))"
    unfolding ids by (simp add: events_of_def)
  have "length (done_ids q ?r) = Suc n" "length (done_ids ?q (ri_ring ?i)) = unat (used_index ?r - (q_last q + 1))"
    using Suc.prems(4) by (simp_all add: done_ids_def)
  with ids have n: "unat (used_index (ri_ring ?i) - q_last ?q) = n" by simp
  have add1: "unat (add + 1) = Suc (unat add)"
    using Suc.prems(5) by (simp add: unat_word_ariths)
  have room: "unat (?to - avail_index ?r) < 8"
    using Suc.prems(5) by simp
  have view: "ring_view ((avail_ring ?r)[unat ?to mod 8 := ?id]) 8 (avail_index ?r) (?to + 1)
      = ring_view (avail_ring ?r) 8 (avail_index ?r) ?to @ [?id]"
    using ring8.view_put [OF _ room, of "avail_ring ?r" ?id] Suc.prems(2) by (simp add: vring_ok_def)
  obtain R t' where IH: "event_loop_rv C g ?q (add + 1) ?i (filter_state C (before @ [?e])) t1 = Some (?q\<lparr>q_last := used_index (ri_ring ?i)\<rparr>,
        add + 1 + of_nat n, ?i\<lparr>ri_ring := (ri_ring ?i)\<lparr>avail_ring := R\<rparr>\<rparr>,
        filter_state C ((before @ [?e]) @ events_of ?i (done_ids ?q (ri_ring ?i))), t')"
    and w: "writes_of t' = writes_of t1" "length R = 8"
    and c: "calls_of HidReportEvent t' = calls_of HidReportEvent t1 @ map (report g) (passing C (before @ [?e]) (events_of ?i (done_ids ?q (ri_ring ?i))))"
    and v: "ring_view R 8 (avail_index (ri_ring ?i)) (avail_index (ri_ring ?i) + (add + 1) + of_nat n) =
      ring_view (avail_ring (ri_ring ?i)) 8 (avail_index (ri_ring ?i)) (avail_index (ri_ring ?i) + (add + 1)) @ done_ids ?q (ri_ring ?i)"
    using Suc.IH [of ?q ?i "add + 1" "before @ [?e]" t1] Suc.prems(1,2,5) b(2) n add1 by (auto simp: vring_ok_def)
  have p: "passing C before (?e # es) = passing C before [?e] @ passing C (before @ [?e]) es" for es
    by (simp add: passing_Cons)
  have run: "event_loop_rv C g q add inp (filter_state C before) t = Some (q\<lparr>q_last := used_index ?r\<rparr>, add + of_nat (Suc n),
      inp\<lparr>ri_ring := ?r\<lparr>avail_ring := R\<rparr>\<rparr>, filter_state C (before @ events_of inp (done_ids q ?r)), t')"
    using ne one IH evs by (subst event_loop_rv.simps) (simp add: algebra_simps)
  show ?case
  proof (intro exI conjI)
    show "event_loop_rv C g q add inp (filter_state C before) t = Some (q\<lparr>q_last := used_index ?r\<rparr>, add + of_nat (Suc n),
      inp\<lparr>ri_ring := ?r\<lparr>avail_ring := R\<rparr>\<rparr>, filter_state C (before @ events_of inp (done_ids q ?r)), t')" by (rule run)
    show "writes_of t' = writes_of t" "length R = 8" using w w1 by simp_all
    show "calls_of HidReportEvent t' = calls_of HidReportEvent t @ map (report g) (passing C before (events_of inp (done_ids q ?r)))"
      using c w1(2) unfolding evs by (simp only: p [of "events_of ?i (done_ids ?q (ri_ring ?i))"] map_append append_assoc)
    show "ring_view R 8 (avail_index ?r) (avail_index ?r + add + of_nat (Suc n)) =
        ring_view (avail_ring ?r) 8 (avail_index ?r) (avail_index ?r + add) @ done_ids q ?r"
      using v view ids by (simp add: algebra_simps)
  qed
qed

text \<open>C23. Handling the events of the captured mouse. The handler ends; to the input framework it reports, in
  their order and unchanged, exactly the events that the reference lets through: of all events since the driver was
  loaded, all but the left-button releases without a press and the event after each. It puts every buffer back,
  reported or not, and its last access acknowledges the interrupt.\<close>

theorem VirtinHandleEv_filters:
  assumes "vq (ri_dev inp) = q # qs" and "qsz q = 8" and "vring_ok 8 (ri_ring inp)"
    and "unat (used_index (ri_ring inp) - q_last q) \<le> 8" and "\<forall>i \<in> set (done_ids q (ri_ring inp)). unat i < length (ri_ev inp)"
    and "es = events_of inp (done_ids q (ri_ring inp))"
  shows "\<exists>inp' t'. VirtinHandleEv_rv C g inp (filter_state C before) t = Some (inp', filter_state C (before @ es), t') \<and>
    calls_of HidReportEvent t' = calls_of HidReportEvent t @ map (report g) (passing C before es) \<and>
    vq (ri_dev inp') = q\<lparr>q_last := used_index (ri_ring inp)\<rparr> # qs \<and> ri_ev inp' = ri_ev inp \<and>
    ring_view (avail_ring (ri_ring inp')) 8 (avail_index (ri_ring inp)) (avail_index (ri_ring inp')) = done_ids q (ri_ring inp) \<and>
    avail_flag (ri_ring inp') = 0 \<and> vring_ok 8 (ri_ring inp') \<and>
    writes_of t' = writes_of t
      @ (if used_flag (ri_ring inp) \<noteq> 1 then [(base (ri_dev inp) + VIRTMMIO_REG_QUEUENOTIFY, 0)] else [])
      @ [(base (ri_dev inp) + VIRTMMIO_REG_INTERRUPTACK, 1)]"
proof -
  let ?r = "(ri_ring inp)\<lparr>avail_flag := 1\<rparr>"
  let ?i = "inp\<lparr>ri_ring := ?r\<rparr>"
  have d: "done_ids q ?r = done_ids q (ri_ring inp)" by (simp add: done_ids_def)
  have ok: "vring_ok 8 (ri_ring ?i)" using assms(3) by (simp add: vring_ok_def)
  have ids: "\<forall>i \<in> set (done_ids q (ri_ring ?i)). unat i < length (ri_ev ?i)" using assms(5) d by simp
  have le: "unat (used_index (ri_ring ?i) - q_last q) + unat (0 :: u16) \<le> 8" using assms(4) by simp
  have e: "events_of ?i (done_ids q ?r) = es" using assms(6) d by (simp add: events_of_def)
  obtain R t' where l: "event_loop_rv C g q 0 ?i (filter_state C before) t = Some (q\<lparr>q_last := used_index ?r\<rparr>,
        used_index ?r - q_last q, ?i\<lparr>ri_ring := ?r\<lparr>avail_ring := R\<rparr>\<rparr>, filter_state C (before @ es), t')"
    and w: "writes_of t' = writes_of t" "length R = 8"
    and c: "calls_of HidReportEvent t' = calls_of HidReportEvent t @ map (report g) (passing C before es)"
    and v: "ring_view R 8 (avail_index ?r) (avail_index ?r + (used_index ?r - q_last q)) = done_ids q ?r"
    using event_loop_rv_run [OF assms(2) ok ids refl le, of C g before t] e by auto
  then show ?thesis
    using assms(1,3) d
    by (simp add: VirtinHandleEv_rv_def io_defs Let_def vring_ok_def)
qed

definition example_rvin :: rvin_consts where
  "example_rvin = input_consts.extend example_input \<lparr>BTN_LEFT = 272\<rparr>"

definition example_mouse :: Virtin_rv where
  "example_mouse = \<lparr>ri_addr = 0x1000,
     ri_dev = \<lparr>base = 0x10008000, irq = 20, vq = [\<lparr>qsz = 8, q_last = 0, q_desc = 0x2000, q_avail = 0x2100, q_used = 0x2200\<rparr>]\<rparr>,
     ri_tid = 1, ri_sem = 1,
     ri_ring = (zero_vring 8)\<lparr>used_index := 3, used_ring := \<lparr>ue_id = 3, ue_len = 8\<rparr> # \<lparr>ue_id = 5, ue_len = 8\<rparr> # \<lparr>ue_id = 2, ue_len = 8\<rparr> #
       replicate 5 \<lparr>ue_id = 0, ue_len = 0\<rparr>\<rparr>,
     ri_ev = [\<lparr>ev_type = 0, ev_code = 0, ev_value = 0\<rparr>, \<lparr>ev_type = 0, ev_code = 0, ev_value = 0\<rparr>, \<lparr>ev_type = 1, ev_code = 272, ev_value = 1\<rparr>,
       \<lparr>ev_type = 1, ev_code = 272, ev_value = 0\<rparr>, \<lparr>ev_type = 0, ev_code = 0, ev_value = 0\<rparr>, \<lparr>ev_type = 0, ev_code = 0, ev_value = 0\<rparr>,
       \<lparr>ev_type = 0, ev_code = 0, ev_value = 0\<rparr>, \<lparr>ev_type = 0, ev_code = 0, ev_value = 0\<rparr>]\<rparr>"

text \<open>A release without a press, its \<open>EV_SYN\<close>, and a press.\<close>

lemma VirtinHandleEv_filters_witness:
  "\<exists>inp' t'. VirtinHandleEv_rv example_rvin 7 example_mouse VIRTIN_PRECEDE_DOWN_NO [] = Some (inp', VIRTIN_PRECEDE_DOWN_YES, t') \<and>
     calls_of HidReportEvent t' = [[7, 1, 272, 1]] \<and>
     ring_view (avail_ring (ri_ring inp')) 8 0 (avail_index (ri_ring inp')) = [3, 5, 2]"
proof -
  let ?q = "\<lparr>qsz = 8, q_last = 0, q_desc = 0x2000, q_avail = 0x2100, q_used = 0x2200\<rparr>"
  have u: "[0..<3] = [0, 1, 2 :: nat]" by code_simp
  have d: "done_ids ?q (ri_ring example_mouse) = [3, 5, 2]"
    by (simp add: done_ids_def ring_view_def example_mouse_def zero_vring_def u)
  have e: "events_of example_mouse [3, 5, 2] = [\<lparr>ev_type = 1, ev_code = 272, ev_value = 0\<rparr>,
      \<lparr>ev_type = 0, ev_code = 0, ev_value = 0\<rparr>, \<lparr>ev_type = 1, ev_code = 272, ev_value = 1\<rparr>]"
    by (simp add: events_of_def example_mouse_def)
  have k: "EV_KEY example_rvin = 1" "BTN_LEFT example_rvin = 272"
    by (simp_all add: example_rvin_def input_consts.defs example_input_def)
  note f = passing_Cons dropped_def unpaired_def after_unpaired_def left_button_def pressed_def filter_state_def report_def k
  have x: "vq (ri_dev example_mouse) = [?q]" "vring_ok 8 (ri_ring example_mouse)" "used_index (ri_ring example_mouse) = 3"
    "avail_index (ri_ring example_mouse) = 0" "length (ri_ev example_mouse) = 8"
    by (simp_all add: example_mouse_def zero_vring_def vring_ok_def)
  obtain inp' t' where r: "VirtinHandleEv_rv example_rvin 7 example_mouse (filter_state example_rvin []) [] =
        Some (inp', filter_state example_rvin (events_of example_mouse [3, 5, 2]), t')"
      "calls_of HidReportEvent t' = map (report 7) (passing example_rvin [] (events_of example_mouse [3, 5, 2]))"
      "ring_view (avail_ring (ri_ring inp')) 8 0 (avail_index (ri_ring inp')) = [3, 5, 2]"
    using VirtinHandleEv_filters [OF x(1) _ x(2) _ _ refl, of example_rvin 7 "[]" "[]"] d x by auto
  have "filter_state example_rvin [] = 1" "filter_state example_rvin (events_of example_mouse [3, 5, 2]) = 0"
      "map (report 7) (passing example_rvin [] (events_of example_mouse [3, 5, 2])) = [[7, 1, 272, 1]]"
    unfolding e by (simp_all add: f)
  then show ?thesis using r by auto
qed

subsection \<open>The memory of the device\<close>

lemma VirtinDeInit_rv_free: "calls_of LOS_MemFree (VirtinDeInit_rv R inp t) = calls_of LOS_MemFree t @ [[OS_SYS_MEM_ADDR R, ri_addr inp]]"
  by (simp add: VirtinDeInit_rv_def io_defs Let_def)

lemma VirtmmioRegisterIRQ_rv_free:
  "VirtmmioRegisterIRQ_rv E R dev t = Some (ok, t') \<Longrightarrow> calls_of LOS_MemFree t' = calls_of LOS_MemFree t"
  by (auto simp: VirtmmioRegisterIRQ_rv_def io_defs Let_def split: if_splits)

lemma VirtinInitDev_rv_memory:
  assumes "VirtinInitDev_rv E R C t = Some (r, t')"
    and "p = sys_ret E t LOS_MemAlloc [OS_SYS_MEM_ADDR R, (SIZEOF_Virtin C + VirtqSize_rv E VIRTQ_EVENT_QSZ + VirtqSize_rv E VIRTQ_STATUS_QSZ) * 4]"
  shows "case r of
      None \<Rightarrow> calls_of LOS_MemFree t' = calls_of LOS_MemFree t @ (if p = 0 then [] else [[OS_SYS_MEM_ADDR R, p]])
    | Some inp \<Rightarrow> calls_of LOS_MemFree t' = calls_of LOS_MemFree t \<and> p \<noteq> 0 \<and> ri_addr inp = p \<and> length (vq (ri_dev inp)) = 2 \<and>
        ri_sem inp = 0 \<and> ri_tid inp = 0 \<and> ri_ring inp = zero_vring 8"
proof (cases "p = 0")
  case True
  then show ?thesis using assms by (auto simp: VirtinInitDev_rv_def io_defs Let_def)
next
  case False
  let ?len = "SIZEOF_Virtin C + VirtqSize_rv E VIRTQ_EVENT_QSZ + VirtqSize_rv E VIRTQ_STATUS_QSZ"
  let ?z = "zero_Virtin_rv p" and ?t = "Call LOS_MemAlloc [OS_SYS_MEM_ADDR R, ?len * 4] # t"
  obtain found dev t1 where d: "VirtmmioDiscover_rv E R VIRTMMIO_DEVICE_ID_INPUT (ri_dev ?z) ?t = (found, dev, t1)"
    by (metis prod_cases3)
  have d': "kcalls t1 = kcalls ?t" "vq dev = vq (ri_dev ?z)" using VirtmmioDiscover_rv_step [OF d] by blast+
  have z: "ri_addr ?z = p" "length (vq (ri_dev ?z)) = 2" "ri_sem ?z = 0" "ri_tid ?z = 0" "ri_ring ?z = zero_vring 8"
    by (simp_all add: zero_Virtin_rv_def)
  have c1: "calls_of LOS_MemFree t1 = calls_of LOS_MemFree t" using kcalls_calls_of [OF d'(1)] by simp
  show ?thesis
  proof (cases found)
    case nf: False
    then show ?thesis
      using assms False d c1 z by (auto simp: VirtinInitDev_rv_def io_defs Let_def in_err_out_rv_def VirtinDeInit_rv_free)
  next
    case True
    let ?i = "?z\<lparr>ri_dev := dev\<rparr>"
    obtain t2 where b: "VirtmmioInitBegin_rv E dev t1 = Some t2"
      using assms False d True by (auto simp: VirtinInitDev_rv_def io_defs Let_def split: Option.bind_splits)
    have c2: "calls_of LOS_MemFree t2 = calls_of LOS_MemFree t"
      using kcalls_calls_of [OF VirtmmioInitBegin_calls [OF b [unfolded VirtmmioInitBegin_rv]]] c1 by simp
    obtain ok i t3 where n: "VirtmmioNegotiate_rv E dev In_Feature0 In_Feature1 ?i t2 = Some (ok, i, t3)"
      using assms False d True b by (auto simp: VirtinInitDev_rv_def io_defs Let_def split: Option.bind_splits)
    have c3: "calls_of LOS_MemFree t3 = calls_of LOS_MemFree t"
      using kcalls_calls_of [OF VirtmmioNegotiate_calls [OF n [unfolded VirtmmioNegotiate_rv]]] c2 by simp
    have i: "i = ?i"
      by (rule VirtmmioNegotiate_keeps [OF n [unfolded VirtmmioNegotiate_rv]]) (auto simp: In_Feature0_def In_Feature1_def split: if_splits)
    note run = assms False d True b n [unfolded i] z i c3
    show ?thesis
    proof (cases ok)
      case False
      then show ?thesis
        using run by (auto simp: VirtinInitDev_rv_def io_defs Let_def in_err_out1_rv_def in_err_out_rv_def VirtinDeInit_rv_free
            kcalls_calls_of [OF VirtmmioInitFailed_rv_calls])
    next
      case ok: True
      let ?va = "ALIGN E (p + SIZEOF_Virtin C) VIRTQ_ALIGN_DESC"
      obtain rv dev' t4 where q: "VirtmmioConfigQueue_rv E dev ?va [VIRTQ_EVENT_QSZ, VIRTQ_STATUS_QSZ] VIRTQ_NUM t3 = Some (rv, dev', t4)"
        using run ok by (auto simp: VirtinInitDev_rv_def io_defs Let_def split: Option.bind_splits)
      have l2: "length (vq dev) = 2" using d'(2) z(2) by simp
      have c4: "calls_of LOS_MemFree t4 = calls_of LOS_MemFree t" "length (vq dev') = 2"
        using VirtmmioConfigQueue_rv_step [OF q l2] kcalls_calls_of [of t4 t3] c3 by auto
      show ?thesis
      proof (cases "rv = 0")
        case True
        then show ?thesis
          using run ok q c4 by (auto simp: VirtinInitDev_rv_def io_defs Let_def in_err_out1_rv_def in_err_out_rv_def VirtinDeInit_rv_free
              kcalls_calls_of [OF VirtmmioInitFailed_rv_calls])
      next
        case rv: False
        obtain ok2 t5 where h: "VirtmmioRegisterIRQ_rv E R dev' t4 = Some (ok2, t5)"
          using run ok q rv by (auto simp: VirtinInitDev_rv_def io_defs Let_def split: Option.bind_splits)
        show ?thesis
          using run ok q rv h c4 VirtmmioRegisterIRQ_rv_free [OF h]
          by (cases ok2) (auto simp: VirtinInitDev_rv_def io_defs Let_def in_err_out1_rv_def in_err_out_rv_def VirtinDeInit_rv_free
              kcalls_calls_of [OF VirtmmioInitFailed_rv_calls])
      qed
    qed
  qed
qed

lemma code_bitmap_loop_rv_calls: "code_bitmap_loop_rv C cf conf es info t = Some (ok, info', t') \<Longrightarrow> kcalls t' = kcalls t"
  by (induction es arbitrary: info t) (auto simp: Let_def conf_select_def split: if_splits Option.bind_splits option.splits)

lemma fill_hid_loop_rv_calls:
  assumes "fill_hid_loop_rv E C cf b info t = Some y"
  shows "kcalls (snd (snd y)) = kcalls t"
proof (rule fill_hid_loop_rv.raw_induct [where P = "\<lambda>E C cf b info t y. kcalls (snd (snd y)) = kcalls t", OF _ assms], goal_cases)
  case (1 f E C cf b info t y)
  obtain bef t1 where g: "GET_UINT32 E (b + VIRTMMIO_REG_CONFIGGENERATION) t = (bef, t1)" "kcalls t1 = kcalls t"
    by (simp add: io_defs)
  obtain i2 t2 where d: "VirtinFillHidDevIds cf (b + VIRTMMIO_REG_CONFIG) info t1 = (i2, t2)" "kcalls t2 = kcalls t1"
    by (cases "VirtinFillHidDevIds cf (b + VIRTMMIO_REG_CONFIG) info t1")
      (auto simp: VirtinFillHidDevIds_def Let_def conf_select_def split: if_splits)
  obtain ok i3 t3 where c: "VirtinFillHidCodeBitmap_rv C cf (b + VIRTMMIO_REG_CONFIG) i2 t2 = Some (ok, i3, t3)" "kcalls t3 = kcalls t2"
    using 1(2) g(1) d(1) by (auto simp: VirtinFillHidCodeBitmap_rv_def split: Option.bind_splits dest: code_bitmap_loop_rv_calls)
  show ?case
  proof (cases ok)
    case False
    then have "y = (False, i3, t3)" using 1(2) g(1) d(1) c(1) by simp
    then show ?thesis using g(2) d(2) c(2) by simp
  next
    case True
    obtain aft t4 where a: "GET_UINT32 E (b + VIRTMMIO_REG_CONFIGGENERATION) t3 = (aft, t4)" "kcalls t4 = kcalls t3"
      by (simp add: io_defs)
    have "y = (True, i3, t4) \<or> f E C cf b i3 t4 = Some y"
      using 1(2) g(1) d(1) c(1) True a(1) by (auto split: if_splits)
    then show ?thesis using 1(1) g(2) d(2) c(2) a(2) by (cases y rule: prod_cases3) auto
  qed
qed

lemma HdfVirtinInitHid_rv_free:
  assumes "HdfVirtinInitHid_rv E C cf inp g t = Some (ret, g', t')"
  shows "calls_of LOS_MemFree t' = calls_of LOS_MemFree t"
proof -
  have "calls_of LOS_MemFree t2 = calls_of LOS_MemFree t1"
    if "VirtinFillHidInfo_rv E C cf inp i t1 = Some (ok, info, t2)" for i t1 ok info t2
    using fill_hid_loop_rv_calls [OF that [unfolded VirtinFillHidInfo_rv_def]] by (intro kcalls_calls_of) simp
  then show ?thesis
    using assms by (auto simp: HdfVirtinInitHid_rv_def io_defs Let_def split: if_splits Option.bind_splits)
qed

text \<open>The block of the input device through initialisation and release. A successful initialisation keeps
  the block it allocated, with its semaphore and its task, and the release frees it once. A failed one has freed
  it once if it was allocated; when it fails after the device was set up it leaves the freed block in the
  device object's private pointer, and a release after it is undefined.\<close>

theorem HdfVirtinInit_rv_block:
  assumes "HdfVirtinInit_rv E R C cf False s t = Some (ret, s', t')"
    and "p = sys_ret E t LOS_MemAlloc [OS_SYS_MEM_ADDR R, (SIZEOF_Virtin C + VirtqSize_rv E VIRTQ_EVENT_QSZ + VirtqSize_rv E VIRTQ_STATUS_QSZ) * 4]"
  shows "if ret = HDF_SUCCESS
    then (\<exists>inp. rs_in s' = Some inp \<and> ri_sem inp \<noteq> 0 \<and> ri_tid inp \<noteq> 0) \<and> rs_priv s' = p \<and> p \<noteq> 0 \<and>
      calls_of LOS_MemFree t' = calls_of LOS_MemFree t \<and>
      (\<forall>u. \<exists>s'' u'. HdfVirtinRelease_rv R False s' u = Some (s'', u') \<and> rs_in s'' = None \<and>
        calls_of LOS_MemFree u' = calls_of LOS_MemFree u @ [[OS_SYS_MEM_ADDR R, p]])
    else calls_of LOS_MemFree t' = calls_of LOS_MemFree t @ (if p = 0 then [] else [[OS_SYS_MEM_ADDR R, p]]) \<and>
      (s' = s \<or> p \<noteq> 0 \<and> rs_priv s' = p \<and> (\<forall>u. HdfVirtinRelease_rv R False s' u = None))"
proof -
  obtain r t1 where i: "VirtinInitDev_rv E R C t = Some (r, t1)"
    using assms(1) by (auto simp: HdfVirtinInit_rv_def split: Option.bind_splits)
  note mem = VirtinInitDev_rv_memory [OF i assms(2)]
  show ?thesis
  proof (cases r)
    case None
    then show ?thesis using assms(1) i mem by (auto simp: HdfVirtinInit_rv_def)
  next
    case (Some inp)
    have m: "calls_of LOS_MemFree t1 = calls_of LOS_MemFree t" "p \<noteq> 0" "ri_addr inp = p" "ri_sem inp = 0" "ri_tid inp = 0"
      using mem Some by simp_all
    obtain ret1 g t2 where h: "HdfVirtinInitHid_rv E C cf inp (g_virtInputDev s) t1 = Some (ret1, g, t2)"
      using assms(1) i Some by (auto simp: HdfVirtinInit_rv_def Let_def split: Option.bind_splits)
    have c2: "calls_of LOS_MemFree t2 = calls_of LOS_MemFree t" using HdfVirtinInitHid_rv_free [OF h] m(1) by simp
    have p: "\<And>i t i' t'. PopulateEventQ_rv C i t = Some (i', t') \<Longrightarrow>
        ri_addr i' = ri_addr i \<and> ri_sem i' = ri_sem i \<and> ri_tid i' = ri_tid i \<and> calls_of LOS_MemFree t' = calls_of LOS_MemFree t"
      by (auto simp: PopulateEventQ_rv_def io_defs Let_def split: Option.bind_splits)
    have e: "calls_of LOS_MemFree (VritmmioInitEnd_rv E d u) = calls_of LOS_MemFree u" for d u
      by (simp add: VritmmioInitEnd_rv_def status_rv io_defs Let_def)
    show ?thesis
      using assms(1) i Some h m c2
      by (auto simp: HdfVirtinInit_rv_def HdfVirtinRelease_rv_def io_defs Let_def VirtinDeInit_rv_free e
          split: if_splits Option.bind_splits dest!: p)
  qed
qed

text \<open>A mouse in the last slot whose registers do not change, in a machine without memory for another task.\<close>

definition rv_preset :: "u32 \<Rightarrow> u32" where
  "rv_preset a =
     (if a = 0x10008000 then VIRTMMIO_MAGIC
      else if a = 0x10008004 then VIRTMMIO_VERSION
      else if a = 0x10008008 then VIRTMMIO_DEVICE_ID_INPUT
      else if a = 0x10008010 then 1
      else if a = 0x10008034 then 1024
      else if a = 0x10008070 then 15
      else 0)"

definition rv_env :: env where
  "rv_env = (example_env rv_preset)\<lparr>
     rd_reg := \<lambda>t. rv_preset,
     sys_ret := \<lambda>t f xs. if f = LOS_HwiCreate \<or> f = osThreadNew then 0 else 0x1000\<rparr>"

lemma rv_env_simps [simp]:
  "rd_reg rv_env t a = rv_preset a"
  "ALIGN rv_env = align_example" "LOS_ASSERT rv_env b = b"
  "sys_ret rv_env t f xs = (if f = LOS_HwiCreate \<or> f = osThreadNew then 0 else 0x1000)"
  by (simp_all add: rv_env_def example_env_def)

definition example_rv :: rv_consts where
  "example_rv = \<lparr>RISCV_SYS_MAX_IRQ = 12, SIZEOF_HwiIrqParam = 12, OS_SYS_MEM_ADDR = 0x80000\<rparr>"

definition example_rvin0 :: rvin_consts where
  "example_rvin0 = example_rvin\<lparr>HDF_EV_CNT := 0\<rparr>"

lemmas rv_run = VirtinInitDev_rv_def io_defs Let_def VirtmmioInitBegin_rv_def VirtioResetStatus_def status_rv wait_driver_rv
  wait_driver_now driver_seen_def rv_preset_def VirtmmioNegotiate_rv_def Negotiate_rv Negotiate_def negotiate_loop.simps
  In_Feature0_def In_Feature1_def VirtmmioConfigQueue_rv_def CalculateQueueAddr_rv_def CompleteConfigQueue_rv_def
  WriteQueueAddr_rv_def u32_to_u64_eq FENCE_WRITE_UINT32_def zero_Virtin_rv_def align_example_def VirtmmioRegisterIRQ_rv_def

lemma example_rv_simps [simp]:
  "SIZEOF_Virtin example_rvin0 = 0x100" "HDF_EV_CNT example_rvin0 = 0" "SIZEOF_HidInfo example_rvin0 = 0x400"
  "OS_SYS_MEM_ADDR example_rv = 0x80000" "SIZEOF_HwiIrqParam example_rv = 12"
  by (simp_all add: example_rvin0_def example_rvin_def input_consts.defs example_input_def example_rv_def)

lemma rv_discover:
  "VirtmmioDiscover_rv rv_env example_rv VIRTMMIO_DEVICE_ID_INPUT dev [Call LOS_MemAlloc xs] =
     (True, dev\<lparr>base := 0x10008000, irq := 20\<rparr>,
      [Rd 0x10008008 18, Rd 0x10008004 2, Rd 0x10008000 0x74726976, Call LOS_MemAlloc xs])"
  by (simp add: VirtmmioDiscover_rv_def discover_loop_rv.simps(2) [of _ _ _ "pred_numeral n" for n, folded numeral_eq_Suc]
      slot_matches_def io_defs Let_def rv_preset_def example_rv_def)

lemma rv_begin: "base dev = 0x10008000 \<Longrightarrow> \<exists>t'. VirtmmioInitBegin_rv rv_env dev t = Some t'"
  unfolding VirtmmioInitBegin_rv VirtmmioInitBegin_def Let_def
  by (subst wait_driver_now) (simp_all add: driver_seen_def io_defs rv_preset_def)

lemma rv_negotiate: "base dev = 0x10008000 \<Longrightarrow> \<exists>t'. VirtmmioNegotiate_rv rv_env dev In_Feature0 In_Feature1 s t = Some (True, s, t')"
  unfolding VirtmmioNegotiate_rv VirtmmioNegotiate_def Negotiate_def
  by (simp add: io_defs Let_def rv_preset_def In_Feature0_def In_Feature1_def negotiate_loop.simps [of rv_env dev])

lemma rv_complete:
  assumes "base dev = 0x10008000" "vq dev ! unat i = q" "unat i < length (vq dev)" "(ucast (qsz q) :: u32) \<le> 1024"
  shows "\<exists>t'. CompleteConfigQueue_rv rv_env i dev t = Some (True, t')"
  using assms by (simp add: CompleteConfigQueue_rv_def io_defs Let_def rv_preset_def not_less)

lemma rv_queues:
  assumes "base dev = 0x10008000" and v: "vq dev = [a, b]"
  shows "\<exists>dev' t'. VirtmmioConfigQueue_rv rv_env dev 0x1100 [8, 1] 2 t = Some (0x1204, dev', t') \<and> base dev' = 0x10008000"
proof -
  obtain a' where c: "CalculateQueueAddr_rv rv_env 0x1100 8 a = (0x11D8, a')" "qsz a' = 8"
    by (simp add: CalculateQueueAddr_rv_def align_example_def)
  obtain b' where d: "CalculateQueueAddr_rv rv_env 0x11D8 1 b = (0x1204, b')" "qsz b' = 1"
    by (simp add: CalculateQueueAddr_rv_def align_example_def)
  let ?d1 = "dev\<lparr>vq := [a', b]\<rparr>" and ?d2 = "dev\<lparr>vq := [a', b']\<rparr>"
  obtain t1 where t1: "CompleteConfigQueue_rv rv_env 0 ?d1 t = Some (True, t1)"
    using rv_complete [of ?d1 0 a' t] assms(1) c(2) by auto
  obtain t2 where t2: "CompleteConfigQueue_rv rv_env 1 ?d2 t1 = Some (True, t2)"
    using rv_complete [of ?d2 1 b' t1] assms(1) d(2) by auto
  show ?thesis using v c(1) d(1) t1 t2 assms(1)
    by (simp add: VirtmmioConfigQueue_rv_def Let_def aget_def aset_def)
qed

lemma rv_init: "\<exists>inp t. VirtinInitDev_rv rv_env example_rv example_rvin0 [] = Some (Some inp, t) \<and> base (ri_dev inp) = 0x10008000"
proof -
  let ?d = "(ri_dev (zero_Virtin_rv 0x1000))\<lparr>base := 0x10008000, irq := 20\<rparr>" and ?i = "zero_Virtin_rv 0x1000"
  obtain t1 where b: "VirtmmioInitBegin_rv rv_env ?d [Rd 0x10008008 18, Rd 0x10008004 2, Rd 0x10008000 0x74726976, Call LOS_MemAlloc
      [0x80000, (0x100 + VirtqSize_rv rv_env 8 + VirtqSize_rv rv_env 1) * 4]] = Some t1"
    using rv_begin [of ?d] by auto
  obtain t2 where n: "VirtmmioNegotiate_rv rv_env ?d In_Feature0 In_Feature1 (?i\<lparr>ri_dev := ?d\<rparr>) t1 = Some (True, ?i\<lparr>ri_dev := ?d\<rparr>, t2)"
    using rv_negotiate [of ?d "?i\<lparr>ri_dev := ?d\<rparr>" t1] by auto
  let ?z = "\<lparr>qsz = 0, q_last = 0, q_desc = 0, q_avail = 0, q_used = 0\<rparr>"
  have z: "vq ?d = [?z, ?z]" "base ?d = 0x10008000" by (simp_all add: zero_Virtin_rv_def numeral_2_eq_2)
  obtain dev' t3 where q: "VirtmmioConfigQueue_rv rv_env ?d 0x1100 [8, 1] 2 t2 = Some (0x1204, dev', t3)" "base dev' = 0x10008000"
    using rv_queues [OF z(2,1), of t2] by auto
  have a: "ALIGN rv_env (0x1000 + 0x100) 16 = 0x1100" by (simp add: align_example_def)
  show ?thesis
    unfolding VirtinInitDev_rv_def Let_def io_defs
    using b n q a
    by (simp add: rv_discover VirtmmioRegisterIRQ_rv_def io_defs)
qed

definition blank_conf :: virtin_conf where
  "blank_conf t = \<lparr>cfg_size = 0, u_bitmap = [], u_abs = undefined, u_ids = undefined\<rparr>"

lemma rv_hid: "base (ri_dev inp) = 0x10008000 \<Longrightarrow> \<exists>t'. HdfVirtinInitHid_rv rv_env example_rvin0 blank_conf inp g t = Some (HDF_SUCCESS, 0x1000, t')"
  by (simp add: HdfVirtinInitHid_rv_def VirtinFillHidInfo_rv_def fill_hid_loop_rv.simps [of rv_env] VirtinFillHidDevIds_def
      VirtinFillHidCodeBitmap_rv_def blank_conf_def io_defs Let_def rv_preset_def)

lemma HdfVirtinInit_rv_block_witness:
  "\<exists>s' t'. HdfVirtinInit_rv rv_env example_rv example_rvin0 blank_conf False
       \<lparr>rs_in = None, rs_priv = 0, g_virtInputDev = 0, precedeDown = 1\<rparr> [] = Some (HDF_FAILURE, s', t') \<and>
     calls_of LOS_MemFree t' = [[0x80000, 0x1000]] \<and> (\<forall>u. HdfVirtinRelease_rv example_rv False s' u = None)"
proof -
  let ?s = "\<lparr>rs_in = None, rs_priv = 0, g_virtInputDev = 0, precedeDown = 1\<rparr>"
  obtain inp t1 where i: "VirtinInitDev_rv rv_env example_rv example_rvin0 [] = Some (Some inp, t1)" "base (ri_dev inp) = 0x10008000"
    using rv_init by blast
  obtain t2 where h: "HdfVirtinInitHid_rv rv_env example_rvin0 blank_conf inp 0 t1 = Some (HDF_SUCCESS, 0x1000, t2)"
    using rv_hid [OF i(2)] by blast
  obtain s' t' where r: "HdfVirtinInit_rv rv_env example_rv example_rvin0 blank_conf False ?s [] = Some (HDF_FAILURE, s', t')"
      "g_virtInputDev s' = 0x1000"
    using i(1) h by (simp add: HdfVirtinInit_rv_def io_defs Let_def)
  then have "s' \<noteq> ?s" by auto
  then show ?thesis using HdfVirtinInit_rv_block [OF r(1) refl] r(1) by auto
qed

end
