(* ===== verification/Rvnet.thy ===== *)
theory Rvnet
  imports Virtnet Rvmmio
begin

text \<open>
  The network device of the riscv32 board, \<open>riscv32_virt/liteos_m/board/driver/virtnet.c\<close>: a virtio-net
  driver below lwip. Unlike the driver of theory \<open>Virtnet\<close> it sends a packet as a chain of the header and
  all fragments of the packet's buffer, so that the free list of descriptors holds entries of chains of any length;
  a record per chain remembers the buffer, the length and the last descriptor. Received buffers are lent to
  lwip and come back through \<open>ReleaseRxEntry\<close>.

  \<open>VirtNetif_rv\<close> is the C struct with the memory behind its pointers: the two queues, the receive records and
  the chain records. A pointer to allocated records is kept beside them, 0 for the null pointer. The fragments of an
  lwip buffer (after the padding word is dropped, in configurations that have one), the layout of the
  structs, lwip's constants and the contents of uncleared memory are the parameter \<open>rvnet_abi\<close>. The scheduler lock,
  which stands for the spin locks, has no effect on a sequential run; what other tasks and the interrupt
  do while \<open>GetTxFreeEntry_rv\<close> yields is a parameter.
\<close>

subsection \<open>Data\<close>

datatype err_t = ERR_OK | ERR_MEM | ERR_IF

record RbufRecord =
  rb_payload :: u32
  rb_len :: u16
  rb_nic :: u32
  rb_id :: u16

record TbufRecord =
  tb_head :: u32
  tb_count :: u16
  tb_tail :: u16

record VirtNetif_rv =
  rn_addr :: u32
  rn_dev :: VirtmmioDev
  rn_rx :: vring
  rn_tx :: vring
  rbuf_ptr :: u32
  rbufs :: "RbufRecord list"
  rn_tFreeHdr :: u16
  rn_tFreeNum :: u16
  tbuf_ptr :: u32
  tbufs :: "TbufRecord list"

record netif =
  nf_addr :: u32
  nf_mtu :: u16
  hwaddr :: "u8 list"
  hwaddr_len :: nat
  nf_state :: "VirtNetif_rv option"
  nf_ready :: bool    \<comment> \<open>the names, output functions and flags set by \<open>EthernetIfInit\<close>\<close>
  nf_halted :: bool   \<comment> \<open>an assertion stopped the machine in a callback\<close>

record rvnet_abi =
  SIZEOF_netif :: u32
  SIZEOF_VirtNetif_rv :: u32
  OFF_vnHdr :: u32
  SIZEOF_TbufRecord :: u32
  SIZEOF_RbufRecord :: u32
  ETH_FRAME_LEN_rv :: u16
  ETH_DATA_LEN :: u16
  ETH_PAD_SIZE :: u16
  ETHARP_HWADDR_LEN :: nat
  malloc_tbuf :: "u32 \<Rightarrow> nat \<Rightarrow> TbufRecord"
  pbuf_chain :: "u32 \<Rightarrow> (u32 \<times> u16) list"

abbreviation (input) VIRTMMIO_NETIF_DFT_RXQSZ :: u16 where "VIRTMMIO_NETIF_DFT_RXQSZ \<equiv> 16"
abbreviation (input) VIRTMMIO_NETIF_DFT_TXQSZ :: u16 where "VIRTMMIO_NETIF_DFT_TXQSZ \<equiv> 32"
abbreviation (input) VIRTQ_RXBUF_ALIGN :: u32 where "VIRTQ_RXBUF_ALIGN \<equiv> 4"
abbreviation (input) SIZEOF_VirtnetHdr_rv :: u32 where "SIZEOF_VirtnetHdr_rv \<equiv> 12"

definition VIRTQ_RXBUF_SIZE :: "env \<Rightarrow> rvnet_abi \<Rightarrow> u32" where
  "VIRTQ_RXBUF_SIZE E A = ALIGN E (SIZEOF_VirtnetHdr_rv + ucast (ETH_FRAME_LEN_rv A)) VIRTQ_RXBUF_ALIGN"

definition rxq_rv :: "VirtNetif_rv \<Rightarrow> Virtq" where "rxq_rv nic = vq (rn_dev nic) ! 0"
definition txq_rv :: "VirtNetif_rv \<Rightarrow> Virtq" where "txq_rv nic = vq (rn_dev nic) ! 1"

definition set_last_rv :: "nat \<Rightarrow> u16 \<Rightarrow> VirtNetif_rv \<Rightarrow> VirtNetif_rv" where
  "set_last_rv k l nic = nic\<lparr>rn_dev := (rn_dev nic)\<lparr>vq := (vq (rn_dev nic))[k := (vq (rn_dev nic) ! k)\<lparr>q_last := l\<rparr>]\<rparr>\<rparr>"

subsection \<open>The scheduler lock\<close>

text \<open>The lock count is a counter of the kernel; the saved interrupt state is what \<open>LOS_IntLock\<close> returned.\<close>

definition LOS_TaskLockSave :: "env \<Rightarrow> u16 \<Rightarrow> trace \<Rightarrow> u32 \<times> u16 \<times> trace" where
  "LOS_TaskLockSave E g_losTaskLock t = (let (intSave, t) = kcall E LOS_IntLock [] t in (intSave, g_losTaskLock + 1, t))"

definition LOS_TaskUnlockRestore :: "u32 \<Rightarrow> u16 \<Rightarrow> trace \<Rightarrow> u16 \<times> trace" where
  "LOS_TaskUnlockRestore intSave g_losTaskLock t =
     (if g_losTaskLock > 0 then
        let g = g_losTaskLock - 1
        in if g = 0 then (g, kproc LOS_Schedule [] (kproc LOS_IntRestore [intSave] t)) else (g, kproc LOS_IntRestore [intSave] t)
      else (g_losTaskLock, kproc LOS_IntRestore [intSave] t))"

subsection \<open>Feature callbacks\<close>

text \<open>The device's configuration space is a function of the history and its address.\<close>

definition Feature0_rv ::
  "env \<Rightarrow> rvnet_abi \<Rightarrow> (trace \<Rightarrow> u32 \<Rightarrow> VirtnetConfig) \<Rightarrow> u32 \<Rightarrow> u32 \<Rightarrow> netif \<Rightarrow> trace \<Rightarrow> bool \<times> u32 \<times> netif" where
  "Feature0_rv E A config features supported nf t =
     (let conf = config t (case nf_state nf of Some nic \<Rightarrow> base (rn_dev nic) + VIRTMMIO_REG_CONFIG | None \<Rightarrow> 0) in
      if features AND VIRTIO_NET_F_MTU \<noteq> 0 \<and> cf_mtu conf > ETH_DATA_LEN A then (False, supported, nf) else
      let (nf, supported) =
            (if features AND VIRTIO_NET_F_MTU \<noteq> 0 then (nf\<lparr>nf_mtu := cf_mtu conf\<rparr>, supported OR VIRTIO_NET_F_MTU)
             else (nf\<lparr>nf_mtu := ETH_DATA_LEN A\<rparr>, supported)) in
      if \<not> LOS_ASSERT E (features AND VIRTIO_NET_F_MAC \<noteq> 0) then (False, supported, nf\<lparr>nf_halted := True\<rparr>) else
      let mac = (case copy_bytes (hwaddr nf) (cf_mac conf) (ETHARP_HWADDR_LEN A) of Some m \<Rightarrow> m | None \<Rightarrow> hwaddr nf)
      in (True, supported OR VIRTIO_NET_F_MAC, nf\<lparr>hwaddr := mac, hwaddr_len := ETHARP_HWADDR_LEN A\<rparr>))"

definition Feature1_rv :: "u32 \<Rightarrow> u32 \<Rightarrow> 's \<Rightarrow> trace \<Rightarrow> bool \<times> u32 \<times> 's" where
  "Feature1_rv features supported dev t =
     (if features AND VIRTIO_F_VERSION_1 \<noteq> 0 then (True, supported OR VIRTIO_F_VERSION_1, dev)
      else (False, supported, dev))"

subsection \<open>Transmission\<close>

definition InitTxFreelist_rv :: "env \<Rightarrow> rvnet_abi \<Rightarrow> VirtNetif_rv \<Rightarrow> trace \<Rightarrow> (err_t \<times> VirtNetif_rv \<times> trace) option" where
  "InitTxFreelist_rv E A nic t =
     (let qs = qsz (txq_rv nic);
          (p, t) = kcall E c_malloc [SIZEOF_TbufRecord A * ucast qs] t;
          nic = nic\<lparr>tbuf_ptr := p\<rparr>
      in if p = 0 then Some (ERR_MEM, nic, t) else do {
        let nic = nic\<lparr>tbufs := map (malloc_tbuf A p) [0..<unat qs]\<rparr>;
        r \<leftarrow> init_free_loop 0 (unat qs - 1) (rn_tx nic);
        Some (ERR_OK, nic\<lparr>rn_tx := r, rn_tFreeHdr := 0, rn_tFreeNum := qs\<rparr>, t)
      })"

definition FreeTxEntry_rv :: "VirtNetif_rv \<Rightarrow> u16 \<Rightarrow> trace \<Rightarrow> (VirtNetif_rv \<times> trace) option" where
  "FreeTxEntry_rv nic head t = do {
     d \<leftarrow> aget (descs (rn_tx nic)) (unat head);
     tb \<leftarrow> aget (tbufs nic) (unat (d_next d));
     r \<leftarrow> (if rn_tFreeNum nic > 0
          then desc_upd (unat (tb_tail tb)) (\<lambda>d. d\<lparr>d_next := rn_tFreeHdr nic, d_flag := VIRTQ_DESC_F_NEXT\<rparr>) (rn_tx nic)
          else Some (rn_tx nic));
     let nic = nic\<lparr>rn_tx := r, rn_tFreeNum := rn_tFreeNum nic + tb_count tb, rn_tFreeHdr := head\<rparr>;
     Some (nic, kproc pbuf_free_callback [tb_head tb] t)
   }"

text \<open>The loop \<open>while (count--)\<close>: the last descriptor taken, if any, and the one after it.\<close>

fun take_entries :: "VirtqDesc list \<Rightarrow> nat \<Rightarrow> u16 option \<Rightarrow> u16 \<Rightarrow> (u16 option \<times> u16) option" where
  "take_entries ds 0 tail idx = Some (tail, idx)"
| "take_entries ds (Suc cnt) tail idx = do {
     d \<leftarrow> aget ds (unat idx);
     take_entries ds cnt (Some idx) (d_next d)
   }"

partial_function (option) GetTxFreeEntry_rv ::
  "(VirtNetif_rv \<Rightarrow> trace \<Rightarrow> VirtNetif_rv \<times> trace) \<Rightarrow> u16 \<Rightarrow> VirtNetif_rv \<Rightarrow> trace \<Rightarrow> (u16 \<times> VirtNetif_rv \<times> trace) option" where
  "GetTxFreeEntry_rv others cnt nic t =
     (if cnt > rn_tFreeNum nic then
        (let (nic, t) = others nic (kproc LOS_TaskYield [] t) in GetTxFreeEntry_rv others cnt nic t)
      else do {
        let head = rn_tFreeHdr nic;
        (tailp, idx) \<leftarrow> take_entries (descs (rn_tx nic)) (unat cnt) None head;
        tail \<leftarrow> tailp;
        let nic = nic\<lparr>rn_tFreeNum := rn_tFreeNum nic - cnt, rn_tFreeHdr := idx\<rparr>;
        r \<leftarrow> desc_upd (unat tail) (\<lambda>d. d\<lparr>d_flag := d_flag d AND NOT VIRTQ_DESC_F_NEXT\<rparr>) (rn_tx nic);
        Some (head, nic\<lparr>rn_tx := r\<rparr>, t)
      })"

text \<open>The loop over the fragments; \<open>tmp\<close> is the descriptor used last.\<close>

fun fill_fragments :: "(u32 \<times> u16) list \<Rightarrow> u16 \<Rightarrow> vring \<Rightarrow> (u16 \<times> vring) option" where
  "fill_fragments [] tmp r = Some (tmp, r)"
| "fill_fragments ((pa, len) # q) tmp r = do {
     d \<leftarrow> aget (descs r) (unat tmp);
     let tmp = d_next d;
     r \<leftarrow> desc_upd (unat tmp) (\<lambda>d. d\<lparr>pAddr := u32_to_u64 pa, d_len := ucast len\<rparr>) r;
     fill_fragments q tmp r
   }"

definition pad_header :: "rvnet_abi \<Rightarrow> u32 \<Rightarrow> u16 \<Rightarrow> trace \<Rightarrow> trace" where
  "pad_header A p n t = (if ETH_PAD_SIZE A \<noteq> 0 then kproc pbuf_header [p, ucast n] t else t)"

definition LowLevelOutput_rv ::
  "rvnet_abi \<Rightarrow> (VirtNetif_rv \<Rightarrow> trace \<Rightarrow> VirtNetif_rv \<times> trace) \<Rightarrow> VirtNetif_rv \<Rightarrow> u32 \<Rightarrow> trace
     \<Rightarrow> (err_t \<times> VirtNetif_rv \<times> trace) option" where
  "LowLevelOutput_rv A others nic p t = do {
     let t = pad_header A p (- ETH_PAD_SIZE A) t;
     let add = of_nat (length (pbuf_chain A p)) + 1;
     if add > qsz (txq_rv nic) then Some (ERR_IF, nic, t) else do {
       (head, nic, t) \<leftarrow> GetTxFreeEntry_rv others add nic t;
       r \<leftarrow> desc_upd (unat head) (\<lambda>d. d\<lparr>pAddr := u32_to_u64 (rn_addr nic + OFF_vnHdr A), d_len := SIZEOF_VirtnetHdr_rv\<rparr>) (rn_tx nic);
       d \<leftarrow> aget (descs r) (unat head);
       let idx = d_next d;
       (tmp, r) \<leftarrow> fill_fragments (pbuf_chain A p) head r;
       tb \<leftarrow> aset (tbufs nic) (unat idx) \<lparr>tb_head = p, tb_count = add, tb_tail = tmp\<rparr>;
       let t = kproc pbuf_ref [p] t;
       r \<leftarrow> avail_put (qsz (txq_rv nic)) (unat (avail_index r)) head r;
       let r = avail_add 1 r;
       let nic = nic\<lparr>rn_tx := r, tbufs := tb\<rparr>;
       let t = FENCE_WRITE_UINT32 1 (base (rn_dev nic) + VIRTMMIO_REG_QUEUENOTIFY) t;
       Some (ERR_OK, nic, pad_header A p (ETH_PAD_SIZE A) t)
     }
   }"

partial_function (option) tx_loop_rv :: "VirtNetif_rv \<Rightarrow> trace \<Rightarrow> (VirtNetif_rv \<times> trace) option" where
  "tx_loop_rv nic t =
     (if q_last (txq_rv nic) = used_index (rn_tx nic) then Some (nic, t)
      else do {
        e \<leftarrow> used_get (qsz (txq_rv nic)) (q_last (txq_rv nic)) (rn_tx nic);
        (nic, t) \<leftarrow> FreeTxEntry_rv nic (ucast (ue_id e)) t;
        tx_loop_rv (set_last_rv 1 (q_last (txq_rv nic) + 1) nic) t
      })"

definition VirtnetTxHandle_rv :: "VirtNetif_rv \<Rightarrow> trace \<Rightarrow> (VirtNetif_rv \<times> trace) option" where
  "VirtnetTxHandle_rv nic t = do {
     let nic = nic\<lparr>rn_tx := (rn_tx nic)\<lparr>avail_flag := VIRTQ_AVAIL_F_NO_INTERRUPT\<rparr>\<rparr>;
     (nic, t) \<leftarrow> tx_loop_rv nic t;
     Some (nic\<lparr>rn_tx := (rn_tx nic)\<lparr>avail_flag := 0\<rparr>\<rparr>, t)
   }"

subsection \<open>Chains of descriptors\<close>

text \<open>The descriptors follow one another by their \<open>next\<close> fields, and all but the last carry the flag.\<close>

fun linked :: "VirtqDesc list \<Rightarrow> u16 list \<Rightarrow> bool" where
  "linked ds [] = True"
| "linked ds [i] = True"
| "linked ds (i # j # is) = (d_next (ds ! unat i) = j \<and> d_flag (ds ! unat i) = VIRTQ_DESC_F_NEXT \<and> linked ds (j # is))"

lemma linked_Cons: "linked ds (i # is) \<longleftrightarrow>
    linked ds is \<and> (is \<noteq> [] \<longrightarrow> d_next (ds ! unat i) = hd is \<and> d_flag (ds ! unat i) = VIRTQ_DESC_F_NEXT)"
  by (cases "is") auto

lemma linked_append: "linked ds (xs @ ys) \<longleftrightarrow> linked ds xs \<and> linked ds ys \<and>
    (xs \<noteq> [] \<and> ys \<noteq> [] \<longrightarrow> d_next (ds ! unat (last xs)) = hd ys \<and> d_flag (ds ! unat (last xs)) = VIRTQ_DESC_F_NEXT)"
  by (induction xs) (auto simp: linked_Cons)

lemma linked_cong:
  "(\<And>i. i \<in> set (butlast xs) \<Longrightarrow> d_next (ds' ! unat i) = d_next (ds ! unat i) \<and> d_flag (ds' ! unat i) = d_flag (ds ! unat i)) \<Longrightarrow>
   linked ds' xs = linked ds xs"
proof (induction xs)
  case (Cons i xs)
  then show ?case by (cases "xs = []") (auto simp: linked_Cons)
qed simp

lemma take_entries_linked:
  assumes "linked ds c" and "c \<noteq> []" and "\<forall>i \<in> set c. unat i < length ds"
  shows "take_entries ds (length c) prev (hd c) = Some (Some (last c), d_next (ds ! unat (last c)))"
  using assms
proof (induction c arbitrary: prev)
  case (Cons i c)
  then show ?case by (cases "c = []") (auto simp: linked_Cons)
qed simp

lemma chain_linked:
  assumes "linked ds c" and "c \<noteq> []" and "length c \<le> n" and "\<forall>i \<in> set c. unat i < length ds"
    and "\<forall>i \<in> set c. d_flag (ds ! unat i) \<in> {0, VIRTQ_DESC_F_NEXT}" and "d_flag (ds ! unat (last c)) = 0"
  shows "chain n ds (hd c) = Some (map (\<lambda>i. (pAddr (ds ! unat i), d_len (ds ! unat i), False)) c)"
  using assms
proof (induction c arbitrary: n)
  case (Cons i c)
  obtain m where m: "n = Suc m" using Cons.prems(3) by (cases n) auto
  show ?case
  proof (cases "c = []")
    case True
    then show ?thesis using Cons.prems m by simp
  next
    case False
    have "chain m ds (hd c) = Some (map (\<lambda>i. (pAddr (ds ! unat i), d_len (ds ! unat i), False)) c)"
      using Cons False m by (simp add: linked_Cons)
    then show ?thesis using Cons.prems False m by (simp add: linked_Cons)
  qed
qed simp

text \<open>Filling the fragments of a packet into the chain.\<close>

lemma fill_fragments_linked:
  assumes "linked (descs r) (h # c)" and "length c = length segs" and "distinct (h # c)" and "\<forall>i \<in> set (h # c). unat i < length (descs r)"
  shows "\<exists>ds. fill_fragments segs h r = Some (last (h # c), r\<lparr>descs := ds\<rparr>) \<and> length ds = length (descs r) \<and>
    (\<forall>i. d_next (ds ! i) = d_next (descs r ! i) \<and> d_flag (ds ! i) = d_flag (descs r ! i)) \<and>
    (\<forall>i. i \<notin> set c \<longrightarrow> ds ! unat i = descs r ! unat i) \<and>
    map (\<lambda>i. (pAddr (ds ! unat i), d_len (ds ! unat i))) c = map (\<lambda>(pa, len). (u32_to_u64 pa, ucast len)) segs"
  using assms
proof (induction segs arbitrary: h c r)
  case Nil
  then show ?case by (intro exI [of _ "descs r"]) simp
next
  case (Cons s segs)
  obtain pa len where s: "s = (pa, len)" by (cases s)
  obtain j c' where c: "c = j # c'" using Cons.prems(2) by (cases c) auto
  let ?d = "(descs r ! unat j)\<lparr>pAddr := u32_to_u64 pa, d_len := ucast len\<rparr>"
  let ?r = "r\<lparr>descs := (descs r)[unat j := ?d]\<rparr>"
  have b: "unat h < length (descs r)" "unat j < length (descs r)" using Cons.prems(4) c by auto
  have same: "d_next (descs ?r ! i) = d_next (descs r ! i) \<and> d_flag (descs ?r ! i) = d_flag (descs r ! i)" for i
    using b by (simp add: nth_list_update)
  have "linked (descs ?r) (j # c')"
    using Cons.prems(1) c linked_cong [of "j # c'" "descs ?r" "descs r"] same by simp
  then obtain ds where ds: "fill_fragments segs j ?r = Some (last (j # c'), ?r\<lparr>descs := ds\<rparr>)" "length ds = length (descs r)"
    "\<forall>i. d_next (ds ! i) = d_next (descs ?r ! i) \<and> d_flag (ds ! i) = d_flag (descs ?r ! i)"
    "\<forall>i. i \<notin> set c' \<longrightarrow> ds ! unat i = descs ?r ! unat i"
    "map (\<lambda>i. (pAddr (ds ! unat i), d_len (ds ! unat i))) c' = map (\<lambda>(pa, len). (u32_to_u64 pa, ucast len)) segs"
    using Cons.IH [of ?r j c'] Cons.prems c by auto
  have j: "j \<notin> set c'" using Cons.prems(3) c by simp
  have n: "d_next (descs r ! unat h) = j" using Cons.prems(1) c by simp
  have "fill_fragments (s # segs) h r = Some (last (h # c), r\<lparr>descs := ds\<rparr>)"
    using ds(1) b n c s by (simp add: desc_upd_in)
  moreover have "ds ! unat i = descs r ! unat i" if "i \<notin> set c" for i
    using ds(4) that c by (auto simp: nth_list_update word_unat_eq_iff)
  moreover have "ds ! unat j = ?d" using ds(4) j b by simp
  ultimately show ?case
    using ds(2,3,5) same c s by (intro exI [of _ ds]) auto
qed

subsection \<open>The invariant of the transmit queue\<close>

definition all_ids :: "u16 list" where
  "all_ids = map of_nat [0..<32]"

lemma all_ids_distinct: "distinct all_ids"
  by code_simp

lemma all_ids_bound: "i \<in> set all_ids \<Longrightarrow> unat i < 32"
  by (auto simp: all_ids_def unat_of_nat)

text \<open>The record of a chain in use, kept at its second descriptor.\<close>

definition recorded :: "VirtNetif_rv \<Rightarrow> u16 list \<Rightarrow> bool" where
  "recorded nic c \<longleftrightarrow> tb_count (tbufs nic ! unat (c ! 1)) = of_nat (length c) \<and> tb_tail (tbufs nic ! unat (c ! 1)) = last c"

definition closed_chain :: "VirtqDesc list \<Rightarrow> u16 list \<Rightarrow> bool" where
  "closed_chain ds c \<longleftrightarrow> 2 \<le> length c \<and> linked ds c \<and> d_flag (ds ! unat (last c)) = 0"

text \<open>\<open>F\<close> is the free list and \<open>B\<close> the chains in use: together they are all descriptors, each once.\<close>

definition tx_ok_rv :: "VirtNetif_rv \<Rightarrow> u16 list \<Rightarrow> u16 list multiset \<Rightarrow> bool" where
  "tx_ok_rv nic F B \<longleftrightarrow>
     length (vq (rn_dev nic)) = 2 \<and> qsz (txq_rv nic) = VIRTMMIO_NETIF_DFT_TXQSZ \<and> vring_ok 32 (rn_tx nic) \<and> length (tbufs nic) = 32 \<and>
     (\<forall>i < 32. d_flag (descs (rn_tx nic) ! i) \<in> {0, VIRTQ_DESC_F_NEXT}) \<and>
     mset F + (\<Sum>c \<in># B. mset c) = mset all_ids \<and>
     linked (descs (rn_tx nic)) F \<and> length F = unat (rn_tFreeNum nic) \<and> (F \<noteq> [] \<longrightarrow> hd F = rn_tFreeHdr nic) \<and>
     (\<forall>c \<in># B. closed_chain (descs (rn_tx nic)) c)"

lemma tx_parts:
  assumes "mset F + (\<Sum>c \<in># B. mset c) = mset all_ids"
  shows "distinct F" and "\<forall>i \<in> set F. unat i < 32"
    and "c \<in># B \<Longrightarrow> distinct c \<and> (\<forall>i \<in> set c. unat i < 32) \<and> set c \<inter> set F = {}"
    and "B = add_mset c B' \<Longrightarrow> c' \<in># B' \<Longrightarrow> set c \<inter> set c' = {}"
proof -
  have part: "distinct (xs @ ys)" "set xs \<subseteq> set all_ids" if "mset xs + mset ys + M = mset all_ids" for xs ys M
  proof -
    obtain zs where "M = mset zs" by (metis ex_mset)
    with that have e: "mset (xs @ ys @ zs) = mset all_ids" by (simp only: mset_append add.assoc)
    then have "distinct (xs @ ys @ zs)" using all_ids_distinct by (metis mset_eq_imp_distinct_iff)
    then show "distinct (xs @ ys)" unfolding append_assoc [symmetric] by (rule distinct_append [THEN iffD1, THEN conjunct1])
    show "set xs \<subseteq> set all_ids" using mset_eq_setD [OF e] by auto
  qed
  have b: "\<forall>i \<in> set xs. unat i < 32" if "set xs \<subseteq> set all_ids" for xs using that all_ids_bound by blast
  show "distinct F" "\<forall>i \<in> set F. unat i < 32" using part [of F "[]" "\<Sum>c \<in># B. mset c"] assms b by simp_all
  show "distinct c \<and> (\<forall>i \<in> set c. unat i < 32) \<and> set c \<inter> set F = {}" if "c \<in># B"
  proof -
    obtain B' where "B = add_mset c B'" using \<open>c \<in># B\<close> by (rule mset_add)
    then have "mset c + mset F + (\<Sum>c \<in># B'. mset c) = mset all_ids" using assms by (simp add: ac_simps)
    from part [OF this] b show ?thesis by auto
  qed
  show "set c \<inter> set c' = {}" if "B = add_mset c B'" "c' \<in># B'"
  proof -
    obtain B'' where "B' = add_mset c' B''" using \<open>c' \<in># B'\<close> by (rule mset_add)
    then have "mset c + mset c' + (mset F + (\<Sum>c \<in># B''. mset c)) = mset all_ids" using assms \<open>B = add_mset c B'\<close> by (simp add: ac_simps)
    from part(1) [OF this] show ?thesis by auto
  qed
qed

text \<open>The buffers of a chain, as the device reads them.\<close>

definition chain_view :: "VirtNetif_rv \<Rightarrow> u16 list \<Rightarrow> (u64 \<times> u32 \<times> bool) list" where
  "chain_view nic c = map (\<lambda>i. (pAddr (descs (rn_tx nic) ! unat i), d_len (descs (rn_tx nic) ! unat i), False)) c"

lemma device_chain_rv:
  assumes ok: "tx_ok_rv nic F B" and c: "c \<in># B"
  shows "device_chain (rn_tx nic) (hd c) = Some (chain_view nic c)"
proof -
  have p: "mset F + (\<Sum>c \<in># B. mset c) = mset all_ids" using ok by (simp add: tx_ok_rv_def)
  have len: "length (descs (rn_tx nic)) = 32" using ok by (simp add: tx_ok_rv_def vring_okD)
  have cc: "closed_chain (descs (rn_tx nic)) c" using ok c by (simp add: tx_ok_rv_def)
  have d: "distinct c" "\<forall>i \<in> set c. unat i < 32" using tx_parts(3) [OF p c] by simp_all
  have "length c = card (unat ` set c)" using d(1) by (metis card_image distinct_card inj_on_def word_unat_eq_iff)
  also have "\<dots> \<le> card {..<32 :: nat}" using d(2) by (intro card_mono) auto
  finally have "length c \<le> 32" by simp
  moreover have "\<forall>i \<in> set c. unat i < length (descs (rn_tx nic))" unfolding len by (rule d(2))
  moreover have "\<forall>i \<in> set c. d_flag (descs (rn_tx nic) ! unat i) \<in> {0, VIRTQ_DESC_F_NEXT}" using d(2) ok by (simp add: tx_ok_rv_def)
  moreover have "linked (descs (rn_tx nic)) c" "c \<noteq> []" "d_flag (descs (rn_tx nic) ! unat (last c)) = 0"
    using cc by (auto simp: closed_chain_def)
  ultimately show ?thesis unfolding device_chain_def len chain_view_def by (intro chain_linked; simp add: len)
qed

text \<open>What an operation leaves alone for the other chains in use.\<close>

definition tx_keeps :: "VirtNetif_rv \<Rightarrow> VirtNetif_rv \<Rightarrow> u16 list multiset \<Rightarrow> bool" where
  "tx_keeps nic nic' B \<longleftrightarrow> rn_addr nic' = rn_addr nic \<and> rn_rx nic' = rn_rx nic \<and> base (rn_dev nic') = base (rn_dev nic) \<and>
     used_flag (rn_tx nic') = used_flag (rn_tx nic) \<and> used_index (rn_tx nic') = used_index (rn_tx nic) \<and>
     used_ring (rn_tx nic') = used_ring (rn_tx nic) \<and>
     (\<forall>c \<in># B. \<forall>i \<in> set c. descs (rn_tx nic') ! unat i = descs (rn_tx nic) ! unat i \<and> tbufs nic' ! unat i = tbufs nic ! unat i)"

lemma tx_keeps_refl [simp]: "tx_keeps nic nic B"
  by (simp add: tx_keeps_def)

lemma tx_keeps_trans: "tx_keeps a b B \<Longrightarrow> tx_keeps b c B \<Longrightarrow> tx_keeps a c B"
  by (auto simp: tx_keeps_def)

lemma tx_keeps_mono: "tx_keeps a b B \<Longrightarrow> B' \<subseteq># B \<Longrightarrow> tx_keeps a b B'"
  by (auto simp: tx_keeps_def dest: mset_subset_eqD)

lemma closed_chain_cong:
  assumes "\<And>i. i \<in> set c \<Longrightarrow> d_next (ds' ! unat i) = d_next (ds ! unat i) \<and> d_flag (ds' ! unat i) = d_flag (ds ! unat i)"
  shows "closed_chain ds' c = closed_chain ds c"
proof (cases "c = []")
  case False
  have "linked ds' c = linked ds c" using assms by (intro linked_cong) (blast dest: in_set_butlastD)
  then show ?thesis using assms False by (simp add: closed_chain_def)
qed (simp add: closed_chain_def)

lemma linked_update: "i \<notin> set (butlast xs) \<Longrightarrow> linked (ds[unat i := d]) xs = linked ds xs"
  by (rule linked_cong) (metis nth_list_update_neq word_unat_eq_iff)

lemma closed_chain_update: "i \<notin> set c \<Longrightarrow> closed_chain (ds[unat i := d]) c = closed_chain ds c"
  by (rule closed_chain_cong) (metis nth_list_update_neq word_unat_eq_iff)

lemma distinct_last_butlast: "distinct xs \<Longrightarrow> xs \<noteq> [] \<Longrightarrow> last xs \<notin> set (butlast xs)"
  by (induction xs) auto

text \<open>Taking a chain of \<open>n\<close> descriptors from the free list.\<close>

lemma GetTxFreeEntry_rv_inv:
  assumes ok: "tx_ok_rv nic F B" and n: "2 \<le> cnt" "cnt \<le> rn_tFreeNum nic"
  shows "\<exists>c F' nic'. GetTxFreeEntry_rv others cnt nic t = Some (hd c, nic', t) \<and> F = c @ F' \<and> length c = unat cnt \<and>
     hd c = rn_tFreeHdr nic \<and> tx_ok_rv nic' F' (add_mset c B) \<and> tx_keeps nic nic' B \<and> rn_dev nic' = rn_dev nic \<and> tbufs nic' = tbufs nic \<and>
     avail_ring (rn_tx nic') = avail_ring (rn_tx nic) \<and> avail_index (rn_tx nic') = avail_index (rn_tx nic)"
proof -
  let ?c = "take (unat cnt) F" and ?F' = "drop (unat cnt) F" and ?ds = "descs (rn_tx nic)"
  have p: "mset F + (\<Sum>c \<in># B. mset c) = mset all_ids" and lf: "linked ?ds F" and fn: "length F = unat (rn_tFreeNum nic)"
    and len: "length ?ds = 32" and fl: "\<forall>i < 32. d_flag (?ds ! i) \<in> {0, VIRTQ_DESC_F_NEXT}"
    using ok by (simp_all add: tx_ok_rv_def vring_okD)
  have cnt: "unat cnt \<le> length F" "2 \<le> unat cnt" using n fn by (simp_all add: word_le_nat_alt)
  then have lc: "length ?c = unat cnt" and ne: "?c \<noteq> []" by auto
  have split: "F = ?c @ ?F'" by simp
  have lnk: "linked ?ds ?c" "linked ?ds ?F'"
    "?F' \<noteq> [] \<Longrightarrow> d_next (?ds ! unat (last ?c)) = hd ?F'"
    using lf ne linked_append [of ?ds ?c ?F'] by simp_all
  have dF: "distinct F" "\<forall>i \<in> set F. unat i < 32" using tx_parts(1,2) [OF p] by simp_all
  have hd: "hd ?c = rn_tFreeHdr nic" using ok ne cnt by (cases F) (auto simp: tx_ok_rv_def)
  have lin: "last ?c \<in> set F" using ne last_in_set in_set_takeD by metis
  then have lb: "unat (last ?c) < 32" using dF by blast
  have e: "take_entries ?ds (unat cnt) None (hd ?c) = Some (Some (last ?c), d_next (?ds ! unat (last ?c)))"
    using take_entries_linked [OF lnk(1) ne, of None] dF(2) len lc by (auto dest: in_set_takeD)
  let ?l = "last ?c"
  let ?d = "(?ds ! unat ?l)\<lparr>d_flag := d_flag (?ds ! unat ?l) AND NOT VIRTQ_DESC_F_NEXT\<rparr>"
  let ?r = "(rn_tx nic)\<lparr>descs := ?ds[unat ?l := ?d]\<rparr>"
  let ?n = "nic\<lparr>rn_tFreeNum := rn_tFreeNum nic - cnt, rn_tFreeHdr := d_next (?ds ! unat ?l), rn_tx := ?r\<rparr>"
  have g: "GetTxFreeEntry_rv others cnt nic t = Some (hd ?c, ?n, t)"
  proof -
    have "\<not> rn_tFreeNum nic < cnt" using n(2) by simp
    then show ?thesis using e lb len by (subst GetTxFreeEntry_rv.simps) (simp add: hd [symmetric] desc_upd_in)
  qed
  have z: "d_flag (?ds ! unat ?l) AND NOT VIRTQ_DESC_F_NEXT = 0" 
  proof -
    have "d_flag (?ds ! unat ?l) = 0 \<or> d_flag (?ds ! unat ?l) = 1" using fl lb by auto
    then show ?thesis by (rule disjE) simp_all
  qed
  have other: "?ds[unat ?l := ?d] ! unat i = ?ds ! unat i" if "i \<noteq> ?l" for i
    using that by (simp add: nth_list_update word_unat_eq_iff)
  have dc: "distinct ?c" "?l \<notin> set ?F'" "set ?c \<inter> set ?F' = {}"
    using dF(1) split ne by (metis distinct_append, metis disjoint_iff distinct_append last_in_set, metis distinct_append)
  have nb: "?l \<notin> set (butlast ?c)" using dc(1) ne by (rule distinct_last_butlast)
  have nB: "?l \<notin> set c'" if "c' \<in># B" for c' using tx_parts(3) [OF p that] lin by blast
  have cc: "closed_chain (descs ?r) ?c"
  proof -
    have "linked (descs ?r) ?c = linked ?ds ?c" by (simp add: linked_update [OF nb])
    then show ?thesis using lnk(1) lc cnt z lb len by (simp add: closed_chain_def)
  qed
  have cB: "closed_chain (descs ?r) c'" if "c' \<in># B" for c'
    using ok that closed_chain_update [OF nB [OF that]] by (simp add: tx_ok_rv_def)
  have lF: "linked (descs ?r) ?F'"
    using lnk(2) linked_update [of ?l ?F' ?ds] dc(2) by (auto dest: in_set_butlastD)
  have fl': "\<forall>i < 32. d_flag (descs ?r ! i) \<in> {0, VIRTQ_DESC_F_NEXT}"
  proof (intro allI impI)
    show "d_flag (descs ?r ! i) \<in> {0, VIRTQ_DESC_F_NEXT}" if "i < 32" for i
      using fl z that by (cases "i = unat ?l") (simp_all add: len nth_list_update)
  qed
  have parts: "mset ?F' + (\<Sum>c \<in># add_mset ?c B. mset c) = mset all_ids"
  proof -
    have "mset F = mset ?c + mset ?F'" by (metis split mset_append)
    then show ?thesis using p by (simp add: ac_simps)
  qed
  have num: "length ?F' = unat (rn_tFreeNum nic - cnt)" using n(2) fn by (simp add: unat_sub)
  have "vring_ok 32 ?r" using ok by (simp add: tx_ok_rv_def vring_ok_def)
  then have "tx_ok_rv ?n ?F' (add_mset ?c B)"
    using ok fl' parts lF num lnk(3) cc cB by (simp add: tx_ok_rv_def txq_rv_def)
  moreover have "tx_keeps nic ?n B"
  proof -
    have "descs ?r ! unat i = ?ds ! unat i" if "c' \<in># B" "i \<in> set c'" for c' i
    proof -
      have "i \<noteq> ?l" using nB [OF that(1)] that(2) by blast
      then show ?thesis by (simp add: nth_list_update word_unat_eq_iff)
    qed
    then show ?thesis by (simp add: tx_keeps_def)
  qed
  ultimately show ?thesis
    using g lc hd split by (intro exI [of _ ?c] exI [of _ ?F'] exI [of _ ?n]) simp
qed


text \<open>Giving a chain back: it goes to the front of the free list.\<close>

lemma FreeTxEntry_rv_inv:
  assumes ok: "tx_ok_rv nic F (add_mset c B)" and rec: "recorded nic c"
  shows "\<exists>nic'. FreeTxEntry_rv nic (hd c) t = Some (nic', kproc pbuf_free_callback [tb_head (tbufs nic ! unat (c ! 1))] t) \<and>
     tx_ok_rv nic' (c @ F) B \<and> tx_keeps nic nic' B \<and> rn_dev nic' = rn_dev nic \<and> tbufs nic' = tbufs nic \<and>
     avail_ring (rn_tx nic') = avail_ring (rn_tx nic) \<and> avail_index (rn_tx nic') = avail_index (rn_tx nic) \<and> rn_tFreeHdr nic' = hd c"
proof -
  let ?ds = "descs (rn_tx nic)" and ?tb = "tbufs nic ! unat (c ! 1)" and ?l = "last c"
  have p: "mset F + (\<Sum>c \<in># add_mset c B. mset c) = mset all_ids" and lf: "linked ?ds F" and fn: "length F = unat (rn_tFreeNum nic)"
    and fh: "F \<noteq> [] \<longrightarrow> hd F = rn_tFreeHdr nic"
    and len: "length ?ds = 32" "length (tbufs nic) = 32" and fl: "\<forall>i < 32. d_flag (?ds ! i) \<in> {0, VIRTQ_DESC_F_NEXT}"
    and cc: "2 \<le> length c" "linked ?ds c"
    using ok by (simp_all add: tx_ok_rv_def vring_okD closed_chain_def)
  have dc: "distinct c" "\<forall>i \<in> set c. unat i < 32" "set c \<inter> set F = {}" using tx_parts(3) [OF p, of c] by simp_all
  obtain h j q where c: "c = h # j # q" using cc(1) by (cases c; cases "tl c") auto
  have jb: "unat h < 32" "unat j < 32" "unat ?l < 32" using dc(2) c by auto
  have nx: "d_next (?ds ! unat h) = j" using cc(2) c by simp
  have rc: "tb_count ?tb = of_nat (length c)" "tb_tail ?tb = ?l" using rec by (simp_all add: recorded_def)
  let ?r = "if rn_tFreeNum nic > 0
    then (rn_tx nic)\<lparr>descs := ?ds[unat ?l := (?ds ! unat ?l)\<lparr>d_next := rn_tFreeHdr nic, d_flag := VIRTQ_DESC_F_NEXT\<rparr>]\<rparr> else rn_tx nic"
  let ?n = "nic\<lparr>rn_tx := ?r, rn_tFreeNum := rn_tFreeNum nic + tb_count ?tb, rn_tFreeHdr := hd c\<rparr>"
  have f: "FreeTxEntry_rv nic (hd c) t = Some (?n, kproc pbuf_free_callback [tb_head ?tb] t)"
    using jb len nx rc(2) c by (simp add: FreeTxEntry_rv_def desc_upd_in)
  obtain d where d: "descs ?r = ?ds[unat ?l := d]"
    by (cases "rn_tFreeNum nic > 0") (simp_all add: list_update_same_conv [THEN iffD2] that [of "?ds ! unat ?l"])
  have nF: "?l \<notin> set F" using dc(3) c by (metis disjoint_iff last_in_set list.distinct(1))
  have nb: "?l \<notin> set (butlast c)" using dc(1) c by (intro distinct_last_butlast) simp_all
  have nB: "?l \<notin> set c'" if "c' \<in># B" for c' 
    using tx_parts(4) [OF p refl that] c by (metis disjoint_iff last_in_set list.distinct(1))
  have "linked (descs ?r) c = linked ?ds c" unfolding d by (rule linked_update [OF nb])
  moreover have "linked (descs ?r) F = linked ?ds F" unfolding d by (rule linked_update) (use nF in \<open>blast dest: in_set_butlastD\<close>)
  moreover have "F \<noteq> [] \<longrightarrow> d_next (descs ?r ! unat ?l) = hd F \<and> d_flag (descs ?r ! unat ?l) = VIRTQ_DESC_F_NEXT"
    using fh fn jb len by (auto simp: word_less_nat_alt)
  ultimately have lk: "linked (descs ?r) (c @ F)" using cc(2) lf by (simp add: linked_append)
  have cB: "closed_chain (descs ?r) c'" if "c' \<in># B" for c'
    using ok that closed_chain_update [OF nB [OF that]] unfolding d by (simp add: tx_ok_rv_def)
  have fl': "\<forall>i < 32. d_flag (descs ?r ! i) \<in> {0, VIRTQ_DESC_F_NEXT}"
  proof (intro allI impI)
    show "d_flag (descs ?r ! i) \<in> {0, VIRTQ_DESC_F_NEXT}" if "i < 32" for i
      using fl that by (cases "i = unat ?l") (simp_all add: len nth_list_update)
  qed
  have parts: "mset (c @ F) + (\<Sum>c \<in># B. mset c) = mset all_ids" using p by (simp add: ac_simps)
  have tot: "length (c @ F) \<le> 32"
  proof -
    have "size (mset (c @ F)) \<le> size (mset all_ids)" by (rule size_mset_mono) (use parts in \<open>metis mset_subset_eq_add_left\<close>)
    then show ?thesis by (simp add: all_ids_def)
  qed
  have num: "length (c @ F) = unat (rn_tFreeNum nic + tb_count ?tb)"
  proof -
    have "unat (of_nat (length c) :: u16) = length c" using tot by (simp add: unat_of_nat)
    then show ?thesis using tot fn rc(1) by (simp add: unat_word_ariths)
  qed
  have "vring_ok 32 ?r" using ok by (simp add: tx_ok_rv_def vring_ok_def)
  then have "tx_ok_rv ?n (c @ F) B"
    using ok fl' parts lk num cB c by (simp add: tx_ok_rv_def txq_rv_def)
  moreover have "tx_keeps nic ?n B"
  proof -
    have "descs ?r ! unat i = ?ds ! unat i" if "c' \<in># B" "i \<in> set c'" for c' i
      using nB [OF that(1)] that(2) unfolding d by (metis nth_list_update_neq word_unat_eq_iff)
    then show ?thesis by (simp add: tx_keeps_def)
  qed
  ultimately show ?thesis using f by (intro exI [of _ ?n]) simp
qed


text \<open>The buffers of a packet: the header of the struct and the fragments.\<close>

definition packet_view :: "rvnet_abi \<Rightarrow> VirtNetif_rv \<Rightarrow> u32 \<Rightarrow> (u64 \<times> u32 \<times> bool) list" where
  "packet_view A nic p = (u32_to_u64 (rn_addr nic + OFF_vnHdr A), SIZEOF_VirtnetHdr_rv, False) #
     map (\<lambda>(pa, len). (u32_to_u64 pa, ucast len, False)) (pbuf_chain A p)"

lemma LowLevelOutput_rv_inv:
  assumes ok: "tx_ok_rv nic F B" and segs: "pbuf_chain A p \<noteq> []" "Suc (length (pbuf_chain A p)) \<le> unat (rn_tFreeNum nic)"
  shows "\<exists>c F' nic' t'. LowLevelOutput_rv A others nic p t = Some (ERR_OK, nic', t') \<and> F = c @ F' \<and> hd c = rn_tFreeHdr nic \<and>
     tx_ok_rv nic' F' (add_mset c B) \<and> tx_keeps nic nic' B \<and> rn_dev nic' = rn_dev nic \<and>
     recorded nic' c \<and> tb_head (tbufs nic' ! unat (c ! 1)) = p \<and> chain_view nic' c = packet_view A nic p \<and>
     avail_ring (rn_tx nic') = (avail_ring (rn_tx nic))[unat (avail_index (rn_tx nic)) mod 32 := hd c] \<and>
     avail_index (rn_tx nic') = avail_index (rn_tx nic) + 1 \<and>
     calls_of pbuf_free_callback t' = calls_of pbuf_free_callback t \<and>
     writes_of t' = writes_of t @ [(base (rn_dev nic) + VIRTMMIO_REG_QUEUENOTIFY, 1)]"
proof -
  let ?segs = "pbuf_chain A p" and ?add = "of_nat (length (pbuf_chain A p)) + 1 :: u16"
  let ?t = "pad_header A p (- ETH_PAD_SIZE A) t"
  have fn: "length F = unat (rn_tFreeNum nic)" and qs: "qsz (txq_rv nic) = 32" using ok by (simp_all add: tx_ok_rv_def)
  have "size (mset F) \<le> size (mset all_ids)" by (rule size_mset_mono) (use ok in \<open>metis mset_subset_eq_add_left tx_ok_rv_def\<close>)
  then have small: "Suc (length ?segs) \<le> 32" using segs(2) fn by (simp add: all_ids_def)
  then have add: "unat ?add = Suc (length ?segs)" by (simp add: unat_word_ariths unat_of_nat)
  have "2 \<le> ?add" "?add \<le> rn_tFreeNum nic" "\<not> ?add > 32"
    using add segs small by (simp_all add: word_le_nat_alt word_less_nat_alt Suc_le_eq)
  note room = this
  obtain c F' n1 where g: "GetTxFreeEntry_rv others ?add nic ?t = Some (hd c, n1, ?t)" and F: "F = c @ F'"
    and lc: "length c = Suc (length ?segs)" and hd: "hd c = rn_tFreeHdr nic" and ok1: "tx_ok_rv n1 F' (add_mset c B)"
    and k1: "tx_keeps nic n1 B" and n1: "rn_dev n1 = rn_dev nic" "tbufs n1 = tbufs nic"
      "avail_ring (rn_tx n1) = avail_ring (rn_tx nic)" "avail_index (rn_tx n1) = avail_index (rn_tx nic)"
    using GetTxFreeEntry_rv_inv [OF ok room(1,2), of others ?t] unfolding add by blast
  obtain h j q where c: "c = h # j # q" using lc segs(1) by (cases c; cases "tl c") auto
  let ?ds = "descs (rn_tx n1)"
  have len: "length ?ds = 32" "length (tbufs n1) = 32" "length (avail_ring (rn_tx n1)) = 32"
    using ok1 by (simp_all add: tx_ok_rv_def vring_okD)
  have p1: "mset F' + (\<Sum>c \<in># add_mset c B. mset c) = mset all_ids" using ok1 by (simp add: tx_ok_rv_def)
  have dc: "distinct c" "\<forall>i \<in> set c. unat i < 32" "set c \<inter> set F' = {}" using tx_parts(3) [OF p1, of c] by simp_all
  have b: "unat h < 32" "unat j < 32" using dc(2) c by auto
  have lk: "linked ?ds c" using ok1 by (simp add: tx_ok_rv_def closed_chain_def)
  let ?hd = "(?ds ! unat h)\<lparr>pAddr := u32_to_u64 (rn_addr n1 + OFF_vnHdr A), d_len := SIZEOF_VirtnetHdr_rv\<rparr>"
  let ?r = "(rn_tx n1)\<lparr>descs := ?ds[unat h := ?hd]\<rparr>"
  have same: "d_next (descs ?r ! i) = d_next (?ds ! i) \<and> d_flag (descs ?r ! i) = d_flag (?ds ! i)" for i
    using b len by (simp add: nth_list_update)
  have "linked (descs ?r) (h # j # q)" using lk linked_cong [of c "descs ?r" ?ds] same c by simp
  then obtain ds where ds: "fill_fragments ?segs h ?r = Some (last (h # j # q), ?r\<lparr>descs := ds\<rparr>)" "length ds = length (descs ?r)"
    "\<forall>i. d_next (ds ! i) = d_next (descs ?r ! i) \<and> d_flag (ds ! i) = d_flag (descs ?r ! i)"
    "\<forall>i. i \<notin> set (j # q) \<longrightarrow> ds ! unat i = descs ?r ! unat i"
    "map (\<lambda>i. (pAddr (ds ! unat i), d_len (ds ! unat i))) (j # q) = map (\<lambda>(pa, len). (u32_to_u64 pa, ucast len)) ?segs"
    using fill_fragments_linked [of ?r h "j # q" ?segs] lc dc len c by auto
  have nd: "\<forall>i. d_next (ds ! i) = d_next (?ds ! i) \<and> d_flag (ds ! i) = d_flag (?ds ! i)" using ds(3) same by simp
  let ?rec = "\<lparr>tb_head = p, tb_count = ?add, tb_tail = last c\<rparr>"
  let ?n = "n1\<lparr>rn_tx := (rn_tx n1)\<lparr>descs := ds, avail_ring := (avail_ring (rn_tx n1))[unat (avail_index (rn_tx n1)) mod 32 := h],
      avail_index := avail_index (rn_tx n1) + 1\<rparr>, tbufs := (tbufs n1)[unat j := ?rec]\<rparr>"
  let ?t' = "pad_header A p (ETH_PAD_SIZE A) (FENCE_WRITE_UINT32 1 (base (rn_dev n1) + VIRTMMIO_REG_QUEUENOTIFY) (kproc pbuf_ref [p] ?t))"
  have jn: "d_next (?ds ! unat h) = j" using lk c by simp
  have q1: "qsz (txq_rv n1) = 32" using n1(1) qs by (simp add: txq_rv_def)
  have out: "LowLevelOutput_rv A others nic p t = Some (ERR_OK, ?n, ?t')"
  proof -
    have "avail_put 32 (unat (avail_index (rn_tx n1))) h (?r\<lparr>descs := ds\<rparr>) =
        Some (?r\<lparr>descs := ds, avail_ring := (avail_ring (rn_tx n1))[unat (avail_index (rn_tx n1)) mod 32 := h]\<rparr>)"
      by (simp add: avail_put_in len)
    moreover have "last (h # j # q) = last c" by (simp add: c)
    ultimately show ?thesis
      using room(3) g ds(1) b len jn c
      by (simp add: LowLevelOutput_rv_def qs q1 desc_upd_in avail_add_def aset_eq_Some)
  qed
  have hj: "h \<noteq> j" "h \<notin> set (j # q)" using dc(1) c by auto
  have cng: "closed_chain ds c' = closed_chain ?ds c'" and lng: "linked ds xs = linked ?ds xs" for c' xs
    using nd by (auto intro!: closed_chain_cong linked_cong)
  have ok2: "tx_ok_rv ?n F' (add_mset c B)"
    using ok1 nd by (simp add: tx_ok_rv_def vring_ok_def txq_rv_def lng cng ds(2))
  have away: "ds ! unat i = ?ds ! unat i \<and> i \<noteq> j" if "i \<notin> set c" for i
    using that ds(4) c by (auto simp: nth_list_update word_unat_eq_iff)
  have k2: "tx_keeps nic ?n B"
  proof -
    have "ds ! unat i = ?ds ! unat i \<and> (tbufs n1)[unat j := ?rec] ! unat i = tbufs n1 ! unat i" if "c' \<in># B" "i \<in> set c'" for c' i
    proof -
      have "i \<notin> set c" using tx_parts(4) [OF p1 refl that(1)] that(2) by blast
      with away show ?thesis by (metis nth_list_update_neq word_unat_eq_iff)
    qed
    then show ?thesis using k1 by (simp add: tx_keeps_def)
  qed
  have "chain_view ?n c = packet_view A nic p"
  proof -
    have "ds ! unat h = ?hd" using ds(4) hj(2) b len by simp
    moreover have "rn_addr n1 = rn_addr nic" using k1 by (simp add: tx_keeps_def)
    moreover have "map (\<lambda>i. (pAddr (ds ! unat i), d_len (ds ! unat i), False)) (j # q) =
        map (\<lambda>(pa, len). (u32_to_u64 pa, ucast len, False)) ?segs"
      using arg_cong [OF ds(5), of "map (\<lambda>(x, y). (x, y, False))"] by (simp add: comp_def case_prod_unfold)
    ultimately show ?thesis unfolding chain_view_def packet_view_def c by simp
  qed
  moreover have "recorded ?n c" using lc b len c by (simp add: recorded_def)
  moreover have "tb_head (tbufs ?n ! unat (c ! 1)) = p" using b len c by simp
  moreover have "calls_of pbuf_free_callback ?t' = calls_of pbuf_free_callback t"
    "writes_of ?t' = writes_of t @ [(base (rn_dev nic) + VIRTMMIO_REG_QUEUENOTIFY, 1)]"
    using n1(1) by (simp_all add: pad_header_def io_defs FENCE_WRITE_UINT32_def)
  ultimately show ?thesis
    using out F hd ok2 k2 n1 c by (intro exI [of _ c] exI [of _ F'] exI [of _ ?n] exI [of _ ?t']) simp
qed

lemma tx_ok_rv_count:
  assumes "tx_ok_rv nic F B"
  shows "2 * size B + length F \<le> 32"
proof -
  have "size (mset F + (\<Sum>c \<in># B. mset c)) = size (mset all_ids)" using assms by (simp only: tx_ok_rv_def)
  then have s: "length F + size (\<Sum>c \<in># B. mset c) = 32" by (simp add: all_ids_def)
  have "2 * size B \<le> size (\<Sum>c \<in># B. mset c)" if "\<forall>c \<in># B. 2 \<le> length c"
    using that by (induction B) auto
  then show ?thesis using s assms by (simp add: tx_ok_rv_def closed_chain_def)
qed

subsection \<open>Completion\<close>

definition done_heads_rv :: "VirtNetif_rv \<Rightarrow> u16 list" where
  "done_heads_rv nic = map (\<lambda>e. ucast (ue_id e)) (ring_view (used_ring (rn_tx nic)) 32 (q_last (txq_rv nic)) (used_index (rn_tx nic)))"

definition free_call :: "VirtNetif_rv \<Rightarrow> u16 list \<Rightarrow> event" where
  "free_call nic c = Call pbuf_free_callback [tb_head (tbufs nic ! unat (c ! 1))]"

lemma set_last_rv_simps [simp]:
  "rn_tx (set_last_rv k l nic) = rn_tx nic" "rn_rx (set_last_rv k l nic) = rn_rx nic" "tbufs (set_last_rv k l nic) = tbufs nic"
  "rn_addr (set_last_rv k l nic) = rn_addr nic" "base (rn_dev (set_last_rv k l nic)) = base (rn_dev nic)"
  "rn_tFreeNum (set_last_rv k l nic) = rn_tFreeNum nic" "rn_tFreeHdr (set_last_rv k l nic) = rn_tFreeHdr nic"
  "length (vq (rn_dev (set_last_rv k l nic))) = length (vq (rn_dev nic))"
  by (simp_all add: set_last_rv_def)

lemma txq_set_last_rv:
  "length (vq (rn_dev nic)) = 2 \<Longrightarrow> txq_rv (set_last_rv (Suc 0) l nic) = (txq_rv nic)\<lparr>q_last := l\<rparr>"
  by (simp add: set_last_rv_def txq_rv_def)

lemma tx_ok_rv_set_last: "tx_ok_rv nic F B \<Longrightarrow> tx_ok_rv (set_last_rv 1 l nic) F B"
  by (simp add: tx_ok_rv_def txq_set_last_rv)

lemma tx_keeps_set_last: "tx_keeps nic (set_last_rv k l nic) B"
  by (simp add: tx_keeps_def)

lemma recorded_keeps: "tx_keeps nic nic' B \<Longrightarrow> c \<in># B \<Longrightarrow> 2 \<le> length c \<Longrightarrow> recorded nic' c = recorded nic c"
  by (simp add: tx_keeps_def recorded_def)

lemma tx_loop_rv_inv:
  "done_heads_rv nic = map hd C \<Longrightarrow> tx_ok_rv nic F (mset C + B) \<Longrightarrow> \<forall>c \<in> set C. recorded nic c \<Longrightarrow>
   \<exists>nic'. tx_loop_rv nic t = Some (nic', rev (map (free_call nic) C) @ t) \<and> tx_ok_rv nic' (concat (rev C) @ F) B \<and>
     tx_keeps nic nic' B \<and> tbufs nic' = tbufs nic \<and> q_last (txq_rv nic') = used_index (rn_tx nic) \<and>
     avail_ring (rn_tx nic') = avail_ring (rn_tx nic) \<and> avail_index (rn_tx nic') = avail_index (rn_tx nic)"
proof (induction C arbitrary: nic F t)
  case Nil
  then have "used_index (rn_tx nic) = q_last (txq_rv nic)"
    by (simp add: done_heads_rv_def ring_view_def) (simp add: unat_eq_zero)
  then show ?case using Nil by (subst tx_loop_rv.simps) (intro exI [of _ nic], simp)
next
  case (Cons c C)
  let ?l = "q_last (txq_rv nic)"
  have ok: "tx_ok_rv nic F (add_mset c (mset C + B))" using Cons.prems(2) by simp
  have q: "qsz (txq_rv nic) = 32" "length (used_ring (rn_tx nic)) = 32" "length (vq (rn_dev nic)) = 2"
    using ok by (simp_all add: tx_ok_rv_def vring_okD)
  have ne: "?l \<noteq> used_index (rn_tx nic)" using Cons.prems(1) by (auto simp: done_heads_rv_def)
  have sz: "unat (used_index (rn_tx nic) - ?l) \<le> 32"
    using arg_cong [OF Cons.prems(1), of length] tx_ok_rv_count [OF ok] by (simp add: done_heads_rv_def)
  note v = ring32.view_get [OF ne sz, of "used_ring (rn_tx nic)"]
  have h: "hd c = ucast (ue_id (used_ring (rn_tx nic) ! (unat ?l mod 32)))" and
    dn: "map hd C = map (\<lambda>e. ucast (ue_id e)) (ring_view (used_ring (rn_tx nic)) 32 (?l + 1) (used_index (rn_tx nic)))"
    using Cons.prems(1) v by (simp_all add: done_heads_rv_def)
  have rec: "recorded nic c" using Cons.prems(3) by simp
  obtain n1 where f: "FreeTxEntry_rv nic (hd c) t = Some (n1, free_call nic c # t)"
    and n1: "tx_ok_rv n1 (c @ F) (mset C + B)" "tx_keeps nic n1 (mset C + B)" "rn_dev n1 = rn_dev nic"
      "tbufs n1 = tbufs nic" "avail_ring (rn_tx n1) = avail_ring (rn_tx nic)" "avail_index (rn_tx n1) = avail_index (rn_tx nic)"
    using FreeTxEntry_rv_inv [OF ok rec, of t] by (auto simp: free_call_def kproc_def)
  let ?n = "set_last_rv 1 (?l + 1) n1"
  have tq: "txq_rv n1 = txq_rv nic" using n1(3) by (simp add: txq_rv_def)
  have vl: "length (vq (rn_dev n1)) = 2" using n1(3) q(3) by simp
  have dh: "done_heads_rv ?n = map hd C"
    using n1(2) by (simp add: done_heads_rv_def txq_set_last_rv [OF vl] tx_keeps_def dn)
  have rec': "\<forall>c \<in> set C. recorded ?n c" using Cons.prems(3) n1(4) by (simp add: recorded_def)
  obtain n2 where r: "tx_loop_rv ?n (free_call nic c # t) =
      Some (n2, rev (map (free_call ?n) C) @ free_call nic c # t)"
    "tx_ok_rv n2 (concat (rev C) @ c @ F) B" "tx_keeps ?n n2 B" "tbufs n2 = tbufs n1" "q_last (txq_rv n2) = used_index (rn_tx n1)"
    "avail_ring (rn_tx n2) = avail_ring (rn_tx n1)" "avail_index (rn_tx n2) = avail_index (rn_tx n1)"
    using Cons.IH [OF dh tx_ok_rv_set_last [OF n1(1)] rec', of "free_call nic c # t"] by auto
  have "free_call ?n = free_call nic" by (rule ext) (simp add: free_call_def n1(4))
  moreover have "tx_keeps nic n2 B"
    using tx_keeps_trans [OF tx_keeps_mono [OF n1(2)] tx_keeps_trans [OF tx_keeps_set_last r(3)]] by simp
  moreover have "tx_loop_rv nic t = tx_loop_rv ?n (free_call nic c # t)"
  proof -
    have "used_get (qsz (txq_rv nic)) ?l (rn_tx nic) = Some (used_ring (rn_tx nic) ! (unat ?l mod 32))"
      by (simp add: used_get_in q)
    then show ?thesis
      by (subst tx_loop_rv.simps) (simp only: if_not_P [OF ne] Option.bind.simps h [symmetric] f prod.case tq)
  qed
  moreover have "used_index (rn_tx n1) = used_index (rn_tx nic)"
    using n1(2) by (simp add: tx_keeps_def)
  ultimately show ?case
    using r n1(4-6) by (intro exI [of _ n2]) simp
qed

lemma VirtnetTxHandle_rv_inv:
  assumes dn: "done_heads_rv nic = map hd C" and ok: "tx_ok_rv nic F (mset C + B)" and rec: "\<forall>c \<in> set C. recorded nic c"
  shows "\<exists>nic'. VirtnetTxHandle_rv nic t = Some (nic', rev (map (free_call nic) C) @ t) \<and>
     tx_ok_rv nic' (concat (rev C) @ F) B \<and> tx_keeps nic nic' B \<and> tbufs nic' = tbufs nic \<and> done_heads_rv nic' = [] \<and>
     avail_ring (rn_tx nic') = avail_ring (rn_tx nic) \<and> avail_index (rn_tx nic') = avail_index (rn_tx nic) \<and>
     avail_flag (rn_tx nic') = 0"
proof -
  let ?n = "nic\<lparr>rn_tx := (rn_tx nic)\<lparr>avail_flag := VIRTQ_AVAIL_F_NO_INTERRUPT\<rparr>\<rparr>"
  have d: "done_heads_rv ?n = map hd C" "tx_ok_rv ?n F (mset C + B)" "\<forall>c \<in> set C. recorded ?n c"
    using dn ok rec by (simp_all add: done_heads_rv_def txq_rv_def tx_ok_rv_def vring_ok_def recorded_def)
  have fc: "free_call ?n = free_call nic" by (rule ext) (simp add: free_call_def)
  obtain n2 where r: "tx_loop_rv ?n t = Some (n2, rev (map (free_call nic) C) @ t)"
    "tx_ok_rv n2 (concat (rev C) @ F) B" "tx_keeps ?n n2 B" "tbufs n2 = tbufs nic" "q_last (txq_rv n2) = used_index (rn_tx nic)"
    "avail_ring (rn_tx n2) = avail_ring (rn_tx nic)" "avail_index (rn_tx n2) = avail_index (rn_tx nic)"
    using tx_loop_rv_inv [OF d, of t] unfolding fc by auto
  let ?m = "n2\<lparr>rn_tx := (rn_tx n2)\<lparr>avail_flag := 0\<rparr>\<rparr>"
  have "VirtnetTxHandle_rv nic t = Some (?m, rev (map (free_call nic) C) @ t)"
    by (simp add: VirtnetTxHandle_rv_def r(1))
  moreover have "tx_ok_rv ?m (concat (rev C) @ F) B" "tx_keeps nic ?m B" "done_heads_rv ?m = []"
    using r(2,3,5) by (simp_all add: tx_ok_rv_def vring_ok_def txq_rv_def tx_keeps_def done_heads_rv_def)
  ultimately show ?thesis using r by (intro exI [of _ ?m]) simp
qed

subsection \<open>Driver, device and interrupt\<close>

text \<open>The transmit side as a transition system: the driver's struct, how far the device has read the
  available ring, the heads it took and has not completed, the packets in flight (head, lwip buffer and the chain the
  device saw at the time of sending) and all buffers handed to the driver.\<close>

record rtx_sys =
  rs_nic :: VirtNetif_rv
  rs_seen :: u16
  rs_taken :: "u16 list"
  rs_trace :: trace
  rs_flight :: "(u16 \<times> u32 \<times> (u64 \<times> u32 \<times> bool) list option) list"
  rs_sent :: "u32 list"

definition pending_heads_rv :: "rtx_sys \<Rightarrow> u16 list" where
  "pending_heads_rv s = ring_view (avail_ring (rn_tx (rs_nic s))) 32 (rs_seen s) (avail_index (rn_tx (rs_nic s)))"

definition sendable :: "rvnet_abi \<Rightarrow> VirtNetif_rv \<Rightarrow> u32 \<Rightarrow> bool" where
  "sendable A nic p \<longleftrightarrow> pbuf_chain A p \<noteq> [] \<and> Suc (length (pbuf_chain A p)) \<le> unat (rn_tFreeNum nic)"

inductive rtx_step :: "rvnet_abi \<Rightarrow> rtx_sys \<Rightarrow> rtx_sys \<Rightarrow> bool" for A where
  rv_send: "\<lbrakk> sendable A (rs_nic s) p;
      LowLevelOutput_rv A (\<lambda>n t. (n, t)) (rs_nic s) p (rs_trace s) = Some (ret, nic, t) \<rbrakk> \<Longrightarrow>
    rtx_step A s (s\<lparr>rs_nic := nic, rs_trace := t, rs_sent := p # rs_sent s,
      rs_flight := (rn_tFreeHdr (rs_nic s), p, device_chain (rn_tx nic) (rn_tFreeHdr (rs_nic s))) # rs_flight s\<rparr>)"
| rv_take: "\<lbrakk> rs_seen s \<noteq> avail_index (rn_tx (rs_nic s)) \<rbrakk> \<Longrightarrow>
    rtx_step A s (s\<lparr>rs_taken := avail_ring (rn_tx (rs_nic s)) ! (unat (rs_seen s) mod 32) # rs_taken s, rs_seen := rs_seen s + 1\<rparr>)"
| rv_complete: "\<lbrakk> rs_taken s = xs @ h # ys; r = rn_tx (rs_nic s) \<rbrakk> \<Longrightarrow>
    rtx_step A s (s\<lparr>rs_taken := xs @ ys, rs_nic := (rs_nic s)\<lparr>rn_tx := r\<lparr>used_index := used_index r + 1,
      used_ring := (used_ring r)[unat (used_index r) mod 32 := \<lparr>ue_id = ucast h, ue_len = n\<rparr>]\<rparr>\<rparr>\<rparr>)"
| rv_irq: "\<lbrakk> VirtnetTxHandle_rv (rs_nic s) (rs_trace s) = Some (nic, t) \<rbrakk> \<Longrightarrow>
    rtx_step A s (s\<lparr>rs_nic := nic, rs_trace := t,
      rs_flight := filter (\<lambda>(h, p, v). h \<notin> set (done_heads_rv (rs_nic s))) (rs_flight s)\<rparr>)"

inductive_cases rtx_stepE: "rtx_step A s s'"

definition rs_freed :: "rtx_sys \<Rightarrow> u32 list" where
  "rs_freed s = map hd (calls_of pbuf_free_callback (rs_trace s))"

text \<open>\<open>ch\<close> gives the chain of a head, \<open>F\<close> is the free list.\<close>

definition heads_rv :: "rtx_sys \<Rightarrow> u16 multiset" where
  "heads_rv s = mset (pending_heads_rv s) + mset (rs_taken s) + mset (done_heads_rv (rs_nic s))"

definition in_flight :: "(u16 \<Rightarrow> u16 list) \<Rightarrow> VirtNetif_rv \<Rightarrow> u16 \<times> u32 \<times> (u64 \<times> u32 \<times> bool) list option \<Rightarrow> bool" where
  "in_flight ch nic f = (case f of (h, p, v) \<Rightarrow>
     hd (ch h) = h \<and> recorded nic (ch h) \<and> tb_head (tbufs nic ! unat (ch h ! 1)) = p \<and> v = Some (chain_view nic (ch h)))"

definition rtx_inv :: "(u16 \<Rightarrow> u16 list) \<Rightarrow> u16 list \<Rightarrow> rtx_sys \<Rightarrow> bool" where
  "rtx_inv ch F s \<longleftrightarrow> tx_ok_rv (rs_nic s) F (image_mset ch (heads_rv s)) \<and>
     mset (map fst (rs_flight s)) = heads_rv s \<and> (\<forall>f \<in> set (rs_flight s). in_flight ch (rs_nic s) f) \<and>
     mset (rs_freed s) + mset (map (fst \<circ> snd) (rs_flight s)) = mset (rs_sent s)"

lemma in_flight_keeps:
  assumes "in_flight ch nic (h, p, v)" and "tx_ok_rv nic F B'" and "ch h \<in># B'" and "tx_keeps nic nic' B" and "ch h \<in># B"
  shows "in_flight ch nic' (h, p, v)"
proof -
  have "closed_chain (descs (rn_tx nic)) (ch h)" using assms(2,3) by (simp add: tx_ok_rv_def)
  then have len: "2 \<le> length (ch h)" by (simp add: closed_chain_def)
  then have "ch h ! 1 \<in> set (ch h)" by simp
  then have "tbufs nic' ! unat (ch h ! 1) = tbufs nic ! unat (ch h ! 1)" using assms(4,5) by (simp add: tx_keeps_def)
  moreover have "chain_view nic' (ch h) = chain_view nic (ch h)"
    using assms(4,5) by (simp add: chain_view_def tx_keeps_def)
  ultimately show ?thesis using assms(1) by (simp add: in_flight_def recorded_def)
qed

lemma flight_head:
  assumes "rtx_inv ch F s" and "(h, p, v) \<in> set (rs_flight s)"
  shows "h \<in># heads_rv s" and "ch h \<in># image_mset ch (heads_rv s)"
proof -
  have "h \<in># mset (map fst (rs_flight s))" using assms(2) by force
  moreover have "mset (map fst (rs_flight s)) = heads_rv s" using assms(1) by (simp only: rtx_inv_def)
  ultimately show "h \<in># heads_rv s" by (simp only:)
  then show "ch h \<in># image_mset ch (heads_rv s)" by simp
qed

lemma rtx_counts:
  assumes "rtx_inv ch F s"
  shows "length (pending_heads_rv s) \<le> 16" and "length (done_heads_rv (rs_nic s)) \<le> 16"
  using assms tx_ok_rv_count [of "rs_nic s"] by (fastforce simp: rtx_inv_def heads_rv_def)+

lemma rtx_chain:
  assumes "rtx_inv ch F s" and "(h, p, v) \<in> set (rs_flight s)"
  shows "device_chain (rn_tx (rs_nic s)) h = v"
proof -
  have "tx_ok_rv (rs_nic s) F (image_mset ch (heads_rv s))" and f: "in_flight ch (rs_nic s) (h, p, v)"
    using assms by (auto simp: rtx_inv_def)
  from device_chain_rv [OF this(1) flight_head(2) [OF assms]] f show ?thesis by (simp add: in_flight_def)
qed

lemma rtx_send_inv:
  assumes inv: "rtx_inv ch F s" and room: "sendable A (rs_nic s) p"
  shows "\<exists>nic t ch' F'. LowLevelOutput_rv A others (rs_nic s) p (rs_trace s) = Some (ERR_OK, nic, t) \<and>
     device_chain (rn_tx nic) (rn_tFreeHdr (rs_nic s)) = Some (packet_view A (rs_nic s) p) \<and>
     rtx_inv ch' F' (s\<lparr>rs_nic := nic, rs_trace := t, rs_sent := p # rs_sent s,
      rs_flight := (rn_tFreeHdr (rs_nic s), p, device_chain (rn_tx nic) (rn_tFreeHdr (rs_nic s))) # rs_flight s\<rparr>)"
proof -
  let ?B = "image_mset ch (heads_rv s)" and ?h = "rn_tFreeHdr (rs_nic s)"
  have ok: "tx_ok_rv (rs_nic s) F ?B" using inv by (simp add: rtx_inv_def)
  obtain c F' nic t where o: "LowLevelOutput_rv A others (rs_nic s) p (rs_trace s) = Some (ERR_OK, nic, t)" "hd c = ?h"
    "tx_ok_rv nic F' (add_mset c ?B)" "tx_keeps (rs_nic s) nic ?B" "rn_dev nic = rn_dev (rs_nic s)" "recorded nic c"
    "tb_head (tbufs nic ! unat (c ! 1)) = p" "chain_view nic c = packet_view A (rs_nic s) p"
    "avail_ring (rn_tx nic) = (avail_ring (rn_tx (rs_nic s)))[unat (avail_index (rn_tx (rs_nic s))) mod 32 := ?h]"
    "avail_index (rn_tx nic) = avail_index (rn_tx (rs_nic s)) + 1"
    "calls_of pbuf_free_callback t = calls_of pbuf_free_callback (rs_trace s)"
    using LowLevelOutput_rv_inv [OF ok, of A p others "rs_trace s"] room unfolding sendable_def by auto
  let ?s = "s\<lparr>rs_nic := nic, rs_trace := t, rs_sent := p # rs_sent s,
      rs_flight := (?h, p, device_chain (rn_tx nic) ?h) # rs_flight s\<rparr>"
  let ?ch = "ch(?h := c)"
  have dc: "device_chain (rn_tx nic) ?h = Some (chain_view nic c)" using device_chain_rv [OF o(3), of c] o(2) by simp
  have ne: "c \<noteq> []" using o(3) by (auto simp: tx_ok_rv_def closed_chain_def)
  have p1: "mset F' + (\<Sum>c \<in># add_mset c ?B. mset c) = mset all_ids" using o(3) by (simp add: tx_ok_rv_def)
  have old: "in_flight ch nic f" if f: "f \<in> set (rs_flight s)" for f
  proof -
    obtain h q v where [simp]: "f = (h, q, v)" by (cases f)
    have "in_flight ch (rs_nic s) (h, q, v)" using inv f by (simp add: rtx_inv_def)
    from in_flight_keeps [OF this ok _ o(4)] flight_head(2) [OF inv] f show ?thesis by simp
  qed
  have fresh: "h \<noteq> ?h" if f: "(h, q, v) \<in> set (rs_flight s)" for h q v
  proof -
    have "ch h \<in># ?B" "hd (ch h) = h" using flight_head(2) [OF inv f] old [OF f] by (simp_all add: in_flight_def)
    moreover have "ch h \<noteq> []" using ok calculation(1) by (auto simp: tx_ok_rv_def closed_chain_def)
    ultimately show ?thesis using tx_parts(4) [OF p1 refl \<open>ch h \<in># ?B\<close>] o(2) ne by (metis disjoint_iff hd_in_set)
  qed
  have "h \<noteq> ?h" if "h \<in># heads_rv s" for h
  proof -
    have "h \<in># mset (map fst (rs_flight s))" using that inv by (simp only: rtx_inv_def)
    then show ?thesis using fresh by auto
  qed
  then have ch: "image_mset ?ch (heads_rv s) = ?B" by (intro image_mset_cong) simp
  have "length (avail_ring (rn_tx (rs_nic s))) = 32" using ok by (simp add: tx_ok_rv_def vring_okD)
  moreover have "unat (avail_index (rn_tx (rs_nic s)) - rs_seen s) < 32"
    using rtx_counts(1) [OF inv] by (simp add: pending_heads_rv_def)
  ultimately have "pending_heads_rv ?s = pending_heads_rv s @ [?h]"
    using ring32.view_put [of "avail_ring (rn_tx (rs_nic s))"] by (simp add: pending_heads_rv_def o(9,10))
  moreover have "done_heads_rv nic = done_heads_rv (rs_nic s)"
    using o(4,5) by (simp add: done_heads_rv_def txq_rv_def tx_keeps_def)
  ultimately have hs: "heads_rv ?s = add_mset ?h (heads_rv s)" by (simp add: heads_rv_def)
  have "in_flight ?ch nic f" if f: "f \<in> set (rs_flight ?s)" for f
  proof (cases "f \<in> set (rs_flight s)")
    case True
    obtain h q v where [simp]: "f = (h, q, v)" by (cases f)
    show ?thesis using old [OF True] fresh True by (simp add: in_flight_def)
  next
    case False
    then show ?thesis using f o(2,6,7) dc by (simp add: in_flight_def)
  qed
  moreover have "mset (map fst (rs_flight ?s)) = heads_rv ?s" "mset (rs_freed ?s) + mset (map (fst \<circ> snd) (rs_flight ?s)) = mset (rs_sent ?s)"
    using inv o(11) by (simp_all add: hs rtx_inv_def rs_freed_def)
  moreover have "tx_ok_rv nic F' (image_mset ?ch (heads_rv ?s))" using o(3) by (simp add: hs ch)
  ultimately have "rtx_inv ?ch F' ?s" by (simp add: rtx_inv_def)
  then show ?thesis using o(1) dc o(8) by (intro exI [of _ nic] exI [of _ t] exI [of _ ?ch] exI [of _ F']) simp
qed


lemma rtx_take_inv:
  assumes inv: "rtx_inv ch F s" and ne: "rs_seen s \<noteq> avail_index (rn_tx (rs_nic s))"
  shows "rtx_inv ch F (s\<lparr>rs_taken := avail_ring (rn_tx (rs_nic s)) ! (unat (rs_seen s) mod 32) # rs_taken s, rs_seen := rs_seen s + 1\<rparr>)"
    (is "rtx_inv ch F ?s")
proof -
  have "unat (avail_index (rn_tx (rs_nic s)) - rs_seen s) \<le> 32"
    using rtx_counts(1) [OF inv] by (simp add: pending_heads_rv_def)
  then have "pending_heads_rv s = avail_ring (rn_tx (rs_nic s)) ! (unat (rs_seen s) mod 32) # pending_heads_rv ?s"
    using ring32.view_get [OF ne] by (simp add: pending_heads_rv_def)
  then have "heads_rv ?s = heads_rv s" by (simp add: heads_rv_def)
  then show ?thesis using inv by (simp add: rtx_inv_def rs_freed_def)
qed

lemma rtx_complete_inv:
  assumes inv: "rtx_inv ch F s" and tk: "rs_taken s = xs @ h # ys"
  shows "rtx_inv ch F (s\<lparr>rs_taken := xs @ ys, rs_nic := (rs_nic s)\<lparr>rn_tx := (rn_tx (rs_nic s))\<lparr>used_index := used_index (rn_tx (rs_nic s)) + 1,
      used_ring := (used_ring (rn_tx (rs_nic s)))[unat (used_index (rn_tx (rs_nic s))) mod 32 := \<lparr>ue_id = ucast h, ue_len = n\<rparr>]\<rparr>\<rparr>\<rparr>)"
    (is "rtx_inv ch F ?s")
proof -
  let ?r = "rn_tx (rs_nic s)"
  have "length (used_ring ?r) = 32" using inv by (simp add: rtx_inv_def tx_ok_rv_def vring_okD)
  moreover have "unat (used_index ?r - q_last (txq_rv (rs_nic s))) < 32"
    using rtx_counts(2) [OF inv] by (simp add: done_heads_rv_def)
  moreover have "(ucast (ucast h :: u32) :: u16) = h"
    by (rule bit_word_eqI) (simp add: bit_simps)
  ultimately have d: "done_heads_rv (rs_nic ?s) = done_heads_rv (rs_nic s) @ [h]"
    using ring32.view_put [of "used_ring ?r" "used_index ?r" "q_last (txq_rv (rs_nic s))"]
    by (simp add: done_heads_rv_def txq_rv_def)
  have "pending_heads_rv ?s = pending_heads_rv s" by (simp add: pending_heads_rv_def)
  with d tk have "heads_rv ?s = heads_rv s" by (simp add: heads_rv_def)
  moreover have "tx_ok_rv (rs_nic ?s) F B = tx_ok_rv (rs_nic s) F B" for B
    by (simp add: tx_ok_rv_def txq_rv_def vring_ok_def)
  moreover have "in_flight ch (rs_nic ?s) f = in_flight ch (rs_nic s) f" for f
    by (simp add: in_flight_def recorded_def chain_view_def)
  ultimately show ?thesis using inv by (simp add: rtx_inv_def rs_freed_def)
qed

lemma rtx_irq_inv:
  assumes inv: "rtx_inv ch F s"
  shows "\<exists>nic t F'. VirtnetTxHandle_rv (rs_nic s) (rs_trace s) = Some (nic, t) \<and>
     rtx_inv ch F' (s\<lparr>rs_nic := nic, rs_trace := t,
      rs_flight := filter (\<lambda>(h, p, v). h \<notin> set (done_heads_rv (rs_nic s))) (rs_flight s)\<rparr>)"
proof -
  let ?D = "done_heads_rv (rs_nic s)" and ?P = "mset (pending_heads_rv s) + mset (rs_taken s)"
  have hs: "heads_rv s = mset ?D + ?P" by (simp add: heads_rv_def)
  have ok: "tx_ok_rv (rs_nic s) F (mset (map ch ?D) + image_mset ch ?P)" using inv by (simp add: rtx_inv_def hs)
  have fl: "mset (map fst (rs_flight s)) = mset ?D + ?P" using inv by (simp only: rtx_inv_def hs)
  have hd: "hd (ch h) = h \<and> recorded (rs_nic s) (ch h)" if "h \<in># heads_rv s" for h
  proof -
    have "h \<in># mset (map fst (rs_flight s))" using that inv by (simp only: rtx_inv_def)
    then show ?thesis using inv by (auto simp: rtx_inv_def in_flight_def)
  qed
  have C: "?D = map hd (map ch ?D)" "\<forall>c \<in> set (map ch ?D). recorded (rs_nic s) c"
    using hd by (simp_all add: hs map_idI)
  obtain nic where o: "VirtnetTxHandle_rv (rs_nic s) (rs_trace s) = Some (nic, rev (map (free_call (rs_nic s)) (map ch ?D)) @ rs_trace s)"
    "tx_ok_rv nic (concat (rev (map ch ?D)) @ F) (image_mset ch ?P)" "tx_keeps (rs_nic s) nic (image_mset ch ?P)" "done_heads_rv nic = []"
    "avail_ring (rn_tx nic) = avail_ring (rn_tx (rs_nic s))" "avail_index (rn_tx nic) = avail_index (rn_tx (rs_nic s))"
    using VirtnetTxHandle_rv_inv [OF C(1) ok C(2), of "rs_trace s"] by blast
  let ?t = "rev (map (free_call (rs_nic s)) (map ch ?D)) @ rs_trace s"
  let ?s = "s\<lparr>rs_nic := nic, rs_trace := ?t, rs_flight := filter (\<lambda>(h, p, v). h \<notin> set ?D) (rs_flight s)\<rparr>"
  have disj: "g \<notin># ?P" if "g \<in> set ?D" for g
  proof
    assume "g \<in># ?P"
    then obtain P' where P': "?P = add_mset g P'" by (rule mset_add)
    have "g \<in># mset ?D" using that by simp
    then obtain D' where "mset ?D = add_mset g D'" by (rule mset_add)
    with ok P' have 1: "tx_ok_rv (rs_nic s) F (add_mset (ch g) (add_mset (ch g) (image_mset ch (D' + P'))))" by simp
    then have 2: "mset F + (\<Sum>c \<in># add_mset (ch g) (add_mset (ch g) (image_mset ch (D' + P'))). mset c) = mset all_ids"
      by (simp only: tx_ok_rv_def)
    have "set (ch g) \<inter> set (ch g) = {}" by (rule tx_parts(4) [OF 2 refl]) simp
    moreover have "ch g \<noteq> []" using 1 by (auto simp: tx_ok_rv_def closed_chain_def)
    ultimately show False by simp
  qed
  have "pending_heads_rv ?s = pending_heads_rv s" using o(5,6) by (simp add: pending_heads_rv_def)
  then have hs': "heads_rv ?s = ?P" using o(4) by (simp add: heads_rv_def)
  have fD: "filter_mset (\<lambda>h. h \<notin> set ?D) ?P = ?P" "filter_mset (\<lambda>h. h \<in> set ?D) ?P = {#}"
  proof -
    show "filter_mset (\<lambda>h. h \<notin> set ?D) ?P = ?P" using disj by (intro filter_mset_eq_conv [THEN iffD2] conjI) auto
    show "filter_mset (\<lambda>h. h \<in> set ?D) ?P = {#}" using disj by auto
  qed
  have gD: "filter_mset (\<lambda>h. h \<notin> set ?D) (mset ?D) = {#}" "filter_mset (\<lambda>h. h \<in> set ?D) (mset ?D) = mset ?D"
    by (simp_all add: filter_mset_eq_conv)
  have fl': "mset (map fst (rs_flight ?s)) = heads_rv ?s"
  proof -
    have "mset (map fst (rs_flight ?s)) = filter_mset (\<lambda>h. h \<notin> set ?D) (mset (map fst (rs_flight s)))"
      by (simp add: map_fst_filter del: mset_map)
    also have "\<dots> = filter_mset (\<lambda>h. h \<notin> set ?D) (mset ?D) + filter_mset (\<lambda>h. h \<notin> set ?D) ?P"
      unfolding fl by (rule filter_union_mset)
    also have "\<dots> = ?P" by (simp only: fD(1) gD(1) add_0)
    finally show ?thesis by (simp only: hs')
  qed
  have okf: "in_flight ch nic f" if f: "f \<in> set (rs_flight ?s)" for f
  proof -
    obtain h q v where [simp]: "f = (h, q, v)" by (cases f)
    have f': "(h, q, v) \<in> set (rs_flight s)" using f by simp
    have "h \<in># mset (map fst (rs_flight ?s))" using f by force
    then have "h \<in># ?P" by (simp only: fl' hs')
    moreover have "in_flight ch (rs_nic s) (h, q, v)" using inv f' by (simp add: rtx_inv_def)
    ultimately show ?thesis using in_flight_keeps [OF _ ok _ o(3), of ch h q v] by auto
  qed
  let ?G = "filter (\<lambda>(h, p, v). h \<in> set ?D) (rs_flight s)" and ?tb = "\<lambda>h. tb_head (tbufs (rs_nic s) ! unat (ch h ! 1))"
  have "rs_freed ?s = rs_freed s @ map ?tb ?D"
    using calls_of_frees [of pbuf_free_callback ?tb ?D "rs_trace s"]
    by (simp add: rs_freed_def free_call_def o_def)
  moreover have "mset (map (fst \<circ> snd) ?G) = mset (map ?tb ?D)"
  proof -
    have "map (fst \<circ> snd) ?G = map ?tb (map fst ?G)" using inv by (auto simp: rtx_inv_def in_flight_def)
    moreover have "mset (map fst ?G) = mset ?D"
    proof -
      have "mset (map fst ?G) = filter_mset (\<lambda>h. h \<in> set ?D) (mset ?D + ?P)"
        by (simp only: map_fst_filter mset_filter fl)
      also have "\<dots> = filter_mset (\<lambda>h. h \<in> set ?D) (mset ?D) + filter_mset (\<lambda>h. h \<in> set ?D) ?P" by (rule filter_union_mset)
      also have "\<dots> = mset ?D" by (simp only: fD(2) gD(2) add_0_right)
      finally show ?thesis .
    qed
    ultimately show ?thesis by (simp only: mset_map)
  qed
  moreover have "mset (map (fst \<circ> snd) (rs_flight s)) = mset (map (fst \<circ> snd) ?G) + mset (map (fst \<circ> snd) (rs_flight ?s))"
  proof -
    have "mset (rs_flight s) = mset ?G + mset (rs_flight ?s)"
      using multiset_partition [of "mset (rs_flight s)" "\<lambda>(h, p, v). h \<in> set ?D"] by (simp add: case_prod_unfold)
    then show ?thesis by (simp only: mset_map image_mset_union)
  qed
  moreover have "mset (rs_freed s) + mset (map (fst \<circ> snd) (rs_flight s)) = mset (rs_sent s)"
    using inv by (simp only: rtx_inv_def)
  ultimately have acc: "mset (rs_freed ?s) + mset (map (fst \<circ> snd) (rs_flight ?s)) = mset (rs_sent ?s)"
    by (simp add: add_ac)
  have "rtx_inv ch (concat (rev (map ch ?D)) @ F) ?s"
  proof -
    have n: "rs_nic ?s = nic" by simp
    show ?thesis unfolding rtx_inv_def n using o(2) fl' okf acc unfolding hs' by blast
  qed
  then show ?thesis using o(1) by blast
qed

text \<open>The state in which \<open>InitTxFreelist\<close> finds the transmit queue, and what it makes of it.\<close>

definition tx_fresh_rv :: "VirtNetif_rv \<Rightarrow> bool" where
  "tx_fresh_rv nic \<longleftrightarrow> length (vq (rn_dev nic)) = 2 \<and> qsz (txq_rv nic) = VIRTMMIO_NETIF_DFT_TXQSZ \<and> q_last (txq_rv nic) = 0 \<and>
     rn_tx nic = zero_vring 32"

lemma linked_upt:
  assumes "\<And>j. j < m \<Longrightarrow> d_next (ds ! j) = of_nat (j + 1) \<and> d_flag (ds ! j) = VIRTQ_DESC_F_NEXT" and "m < 32"
  shows "k \<le> m \<Longrightarrow> linked ds (map of_nat [m - k..<Suc m])"
proof (induction k)
  case (Suc k)
  have u: "unat (of_nat (m - Suc k) :: u16) = m - Suc k" using assms(2) by (simp add: unat_of_nat)
  have e: "[m - Suc k..<Suc m] = (m - Suc k) # (m - k) # [Suc (m - k)..<Suc m]"
    using Suc.prems upt_conv_Cons [of "m - Suc k" "Suc m"] upt_conv_Cons [of "m - k" "Suc m"] by (simp add: Suc_diff_Suc)
  have "d_next (ds ! (m - Suc k)) = of_nat (m - k) \<and> d_flag (ds ! (m - Suc k)) = VIRTQ_DESC_F_NEXT"
    using assms(1) [of "m - Suc k"] Suc.prems by (simp add: Suc_diff_Suc del: of_nat_Suc)
  moreover have "linked ds (map of_nat ((m - k) # [Suc (m - k)..<Suc m]))"
  proof -
    have "(m - k) # [Suc (m - k)..<Suc m] = [m - k..<Suc m]" by (rule upt_conv_Cons [symmetric]) simp
    then show ?thesis using Suc by (simp only: Suc_leD)
  qed
  ultimately show ?case unfolding e list.map linked.simps u by simp
qed simp

lemma InitTxFreelist_rv_inv:
  assumes fresh: "tx_fresh_rv nic" and p: "sys_ret E t c_malloc [SIZEOF_TbufRecord A * ucast (qsz (txq_rv nic))] \<noteq> 0"
  shows "\<exists>nic'. InitTxFreelist_rv E A nic t =
      Some (ERR_OK, nic', Call c_malloc [SIZEOF_TbufRecord A * ucast (qsz (txq_rv nic))] # t) \<and>
     tx_ok_rv nic' all_ids {#} \<and> rn_dev nic' = rn_dev nic \<and> rn_addr nic' = rn_addr nic \<and> rn_tFreeNum nic' = 32 \<and>
     avail_index (rn_tx nic') = 0 \<and> used_index (rn_tx nic') = 0"
proof -
  let ?r = "zero_vring 32"
  have "length (descs ?r) = 32" by (simp add: zero_vring_def)
  then obtain ds where ds: "init_free_loop 0 31 ?r = Some (?r\<lparr>descs := ds\<rparr>)" "length ds = 32"
    "\<forall>j < 32. ds ! j = (if j < 31 then (descs ?r ! j)\<lparr>d_flag := VIRTQ_DESC_F_NEXT, d_next := of_nat (j + 1)\<rparr> else descs ?r ! j)"
    using init_free_loop_spec [of 0 31 ?r] by auto
  let ?p = "sys_ret E t c_malloc [SIZEOF_TbufRecord A * ucast (qsz (txq_rv nic))]"
  let ?n = "nic\<lparr>tbuf_ptr := ?p, tbufs := map (malloc_tbuf A ?p) [0..<32], rn_tx := ?r\<lparr>descs := ds\<rparr>, rn_tFreeHdr := 0, rn_tFreeNum := 32\<rparr>"
  have q: "qsz (txq_rv (nic\<lparr>tbuf_ptr := x, tbufs := y\<rparr>)) = 32" for x y using fresh by (simp add: tx_fresh_rv_def txq_rv_def)
  have r: "InitTxFreelist_rv E A nic t = Some (ERR_OK, ?n, Call c_malloc [SIZEOF_TbufRecord A * ucast (qsz (txq_rv nic))] # t)"
    using fresh p ds(1) by (simp add: InitTxFreelist_rv_def tx_fresh_rv_def kcall_def)
  have "linked ds (map of_nat [31 - 31..<Suc 31])" by (rule linked_upt) (use ds(3) in auto)
  then have l: "linked ds all_ids" by (simp only: all_ids_def) simp
  have "hd all_ids = 0" by (simp add: all_ids_def upt_rec)
  then have "tx_ok_rv ?n all_ids {#}"
    using fresh l ds by (simp add: tx_ok_rv_def tx_fresh_rv_def txq_rv_def vring_ok_def zero_vring_def) (simp add: all_ids_def)
  then show ?thesis using r by (intro exI [of _ ?n]) (simp add: zero_vring_def)
qed

inductive rtx_reachable :: "env \<Rightarrow> rvnet_abi \<Rightarrow> rtx_sys \<Rightarrow> bool" for E A where
  rv_start: "\<lbrakk> tx_fresh_rv nic; InitTxFreelist_rv E A nic t = Some (ERR_OK, nic', t'); calls_of pbuf_free_callback t = [] \<rbrakk> \<Longrightarrow>
    rtx_reachable E A \<lparr>rs_nic = nic', rs_seen = 0, rs_taken = [], rs_trace = t', rs_flight = [], rs_sent = []\<rparr>"
| rv_next: "\<lbrakk> rtx_reachable E A s; rtx_step A s s' \<rbrakk> \<Longrightarrow> rtx_reachable E A s'"

lemma rtx_reachable_inv: "rtx_reachable E A s \<Longrightarrow> \<exists>ch F. rtx_inv ch F s"
proof (induction rule: rtx_reachable.induct)
  case (rv_start nic t nic' t')
  have "sys_ret E t c_malloc [SIZEOF_TbufRecord A * ucast (qsz (txq_rv nic))] \<noteq> 0"
    using rv_start(2) by (auto simp: InitTxFreelist_rv_def kcall_def Let_def split: if_splits)
  from InitTxFreelist_rv_inv [OF rv_start(1) this] rv_start(2)
  have i: "tx_ok_rv nic' all_ids {#}" "rn_dev nic' = rn_dev nic" "avail_index (rn_tx nic') = 0" "used_index (rn_tx nic') = 0"
    "t' = Call c_malloc [SIZEOF_TbufRecord A * ucast (qsz (txq_rv nic))] # t" by auto
  have "q_last (txq_rv nic') = 0" using rv_start(1) i(2) by (simp add: tx_fresh_rv_def txq_rv_def)
  then have "rtx_inv undefined all_ids \<lparr>rs_nic = nic', rs_seen = 0, rs_taken = [], rs_trace = t', rs_flight = [], rs_sent = []\<rparr>"
    using i rv_start(3) by (simp add: rtx_inv_def heads_rv_def pending_heads_rv_def done_heads_rv_def rs_freed_def ring_view_def)
  then show ?case by blast
next
  case (rv_next s s')
  then obtain ch F where inv: "rtx_inv ch F s" by blast
  from rv_next.hyps(2) show ?case
  proof cases
    case (rv_send p ret nic t)
    obtain nic' t' ch' F' where "LowLevelOutput_rv A (\<lambda>n t. (n, t)) (rs_nic s) p (rs_trace s) = Some (ERR_OK, nic', t')"
      "rtx_inv ch' F' (s\<lparr>rs_nic := nic', rs_trace := t', rs_sent := p # rs_sent s,
        rs_flight := (rn_tFreeHdr (rs_nic s), p, device_chain (rn_tx nic') (rn_tFreeHdr (rs_nic s))) # rs_flight s\<rparr>)"
      using rtx_send_inv [OF inv rv_send(2), of "\<lambda>n t. (n, t)"] by blast
    then have "rtx_inv ch' F' s'" using rv_send(1,3) by simp
    then show ?thesis by blast
  next
    case rv_take
    then show ?thesis using rtx_take_inv [OF inv] by blast
  next
    case (rv_complete xs h ys r n)
    then show ?thesis using rtx_complete_inv [OF inv] by blast
  next
    case (rv_irq nic t)
    with rtx_irq_inv [OF inv] obtain F' where "rtx_inv ch F' s'" by auto
    then show ?thesis by blast
  qed
qed

subsection \<open>Examples\<close>

definition example_rvnet :: rvnet_abi where
  "example_rvnet = \<lparr>SIZEOF_netif = 128, SIZEOF_VirtNetif_rv = 272, OFF_vnHdr = 0x100, SIZEOF_TbufRecord = 8, SIZEOF_RbufRecord = 40,
     ETH_FRAME_LEN_rv = 1514, ETH_DATA_LEN = 1500, ETH_PAD_SIZE = 2, ETHARP_HWADDR_LEN = 6,
     malloc_tbuf = (\<lambda>p k. \<lparr>tb_head = p, tb_count = of_nat k, tb_tail = 0\<rparr>),
     pbuf_chain = (\<lambda>p. [(0x2000, 60), (0x3000, 40)])\<rparr>"

definition example_rnic :: VirtNetif_rv where
  "example_rnic = \<lparr>rn_addr = 0x10000, rn_dev = \<lparr>base = 0x10001000, irq = 1,
     vq = [\<lparr>qsz = 16, q_last = 0, q_desc = 0, q_avail = 0, q_used = 0\<rparr>, \<lparr>qsz = 32, q_last = 0, q_desc = 0, q_avail = 0, q_used = 0\<rparr>]\<rparr>,
     rn_rx = zero_vring 16, rn_tx = zero_vring 32, rbuf_ptr = 0, rbufs = [], rn_tFreeHdr = 0, rn_tFreeNum = 0, tbuf_ptr = 0, tbufs = []\<rparr>"

lemma example_rnic_init:
  "\<exists>nic t. InitTxFreelist_rv (example_env (\<lambda>_. 0)) example_rvnet example_rnic [] = Some (ERR_OK, nic, t) \<and>
     tx_ok_rv nic all_ids {#} \<and> rn_tFreeNum nic = 32 \<and> rn_addr nic = 0x10000 \<and> base (rn_dev nic) = 0x10001000 \<and> avail_index (rn_tx nic) = 0"
  using InitTxFreelist_rv_inv [of example_rnic "example_env (\<lambda>_. 0)" "[]" example_rvnet]
  by (auto simp: tx_fresh_rv_def example_rnic_def txq_rv_def example_env_def)

lemma example_sendable: "rn_tFreeNum nic = 32 \<Longrightarrow> sendable example_rvnet nic p"
  by (simp add: sendable_def example_rvnet_def)

lemma example_rnic_started:
  "\<exists>nic. tx_ok_rv nic all_ids {#} \<and> sendable example_rvnet nic 7 \<and> rn_addr nic = 0x10000 \<and>
     base (rn_dev nic) = 0x10001000 \<and> avail_index (rn_tx nic) = 0"
  using example_rnic_init example_sendable by blast

lemma example_rtx_sent:
  "\<exists>s. rtx_reachable (example_env (\<lambda>_. 0)) example_rvnet s \<and> rs_sent s = [7]"
proof -
  let ?E = "example_env (\<lambda>_. 0)"
  obtain nic t where i: "InitTxFreelist_rv ?E example_rvnet example_rnic [] = Some (ERR_OK, nic, t)" "rn_tFreeNum nic = 32"
    using example_rnic_init by blast
  let ?s = "\<lparr>rs_nic = nic, rs_seen = 0, rs_taken = [], rs_trace = t, rs_flight = [], rs_sent = []\<rparr>"
  have "tx_fresh_rv example_rnic" by (simp add: tx_fresh_rv_def example_rnic_def txq_rv_def)
  then have r: "rtx_reachable ?E example_rvnet ?s" using i(1) by (rule rtx_reachable.rv_start) simp
  obtain ch F where inv: "rtx_inv ch F ?s" using rtx_reachable_inv [OF r] by blast
  have room: "sendable example_rvnet (rs_nic ?s) 7" using i(2) by (simp add: example_sendable)
  obtain nic' t' where "LowLevelOutput_rv example_rvnet (\<lambda>n t. (n, t)) (rs_nic ?s) 7 (rs_trace ?s) = Some (ERR_OK, nic', t')"
    using rtx_send_inv [OF inv room, of "\<lambda>n t. (n, t)"] by blast
  from rtx_reachable.rv_next [OF r rtx_step.rv_send [OF room this]] show ?thesis by (intro exI conjI) auto
qed

text \<open>C24. Sending a packet on the riscv32 board. When the free list has room for the header and the packet's
  fragments, \<open>LowLevelOutput\<close> succeeds without waiting: it takes exactly so many descriptors from the front of the
  free list, links them into a chain that the device reads as the header followed by every fragment of the
  lwip buffer, remembers the buffer, puts the chain's head on the available ring, frees nothing and notifies
  the device; the chains in use keep their descriptors and records.\<close>

theorem LowLevelOutput_rv_sends:
  assumes "tx_ok_rv nic F B" and "sendable A nic p"
  shows "\<exists>c F' nic' t'. LowLevelOutput_rv A others nic p t = Some (ERR_OK, nic', t') \<and> F = c @ F' \<and>
     length c = Suc (length (pbuf_chain A p)) \<and> tx_ok_rv nic' F' (add_mset c B) \<and> tx_keeps nic nic' B \<and>
     recorded nic' c \<and> tb_head (tbufs nic' ! unat (c ! 1)) = p \<and>
     device_chain (rn_tx nic') (hd c) = Some (packet_view A nic p) \<and>
     avail_ring (rn_tx nic') = (avail_ring (rn_tx nic))[unat (avail_index (rn_tx nic)) mod 32 := hd c] \<and>
     avail_index (rn_tx nic') = avail_index (rn_tx nic) + 1 \<and>
     calls_of pbuf_free_callback t' = calls_of pbuf_free_callback t \<and>
     writes_of t' = writes_of t @ [(base (rn_dev nic) + VIRTMMIO_REG_QUEUENOTIFY, 1)]"
proof -
  obtain c F' nic' t' where o: "LowLevelOutput_rv A others nic p t = Some (ERR_OK, nic', t')" "F = c @ F'"
     "tx_ok_rv nic' F' (add_mset c B)" "tx_keeps nic nic' B" "recorded nic' c" "tb_head (tbufs nic' ! unat (c ! 1)) = p"
     "chain_view nic' c = packet_view A nic p"
     "avail_ring (rn_tx nic') = (avail_ring (rn_tx nic))[unat (avail_index (rn_tx nic)) mod 32 := hd c]"
     "avail_index (rn_tx nic') = avail_index (rn_tx nic) + 1" "calls_of pbuf_free_callback t' = calls_of pbuf_free_callback t"
     "writes_of t' = writes_of t @ [(base (rn_dev nic) + VIRTMMIO_REG_QUEUENOTIFY, 1)]"
    using LowLevelOutput_rv_inv [OF assms(1), of A p others t] assms(2) unfolding sendable_def by blast
  have "length (chain_view nic' c) = length (packet_view A nic p)" by (simp only: o(7))
  then have "length c = Suc (length (pbuf_chain A p))" by (simp add: chain_view_def packet_view_def)
  moreover have "device_chain (rn_tx nic') (hd c) = Some (packet_view A nic p)"
    using device_chain_rv [OF o(3), of c] o(7) by simp
  ultimately show ?thesis using o(1-6,8-11) by blast
qed

lemma LowLevelOutput_rv_sends_witness:
  "\<exists>nic h nic' t'. LowLevelOutput_rv example_rvnet (\<lambda>n t. (n, t)) nic 7 [] = Some (ERR_OK, nic', t') \<and>
     device_chain (rn_tx nic') h = Some [(0x10100, 12, False), (0x2000, 60, False), (0x3000, 40, False)] \<and>
     avail_ring (rn_tx nic') ! 0 = h \<and> writes_of t' = [(0x10001050, 1)]"
proof -
  obtain nic where n: "tx_ok_rv nic all_ids {#}" "sendable example_rvnet nic 7" "rn_addr nic = 0x10000"
    "base (rn_dev nic) = 0x10001000" "avail_index (rn_tx nic) = 0"
    using example_rnic_started by blast
  have len: "length (avail_ring (rn_tx nic)) = 32" using n(1) by (simp add: tx_ok_rv_def vring_okD)
  obtain c nic' t' where o: "LowLevelOutput_rv example_rvnet (\<lambda>n t. (n, t)) nic 7 [] = Some (ERR_OK, nic', t')"
    "device_chain (rn_tx nic') (hd c) = Some (packet_view example_rvnet nic 7)"
    "avail_ring (rn_tx nic') = (avail_ring (rn_tx nic))[unat (avail_index (rn_tx nic)) mod 32 := hd c]"
    "writes_of t' = writes_of [] @ [(base (rn_dev nic) + VIRTMMIO_REG_QUEUENOTIFY, 1)]"
    using LowLevelOutput_rv_sends [OF n(1,2), of "\<lambda>n t. (n, t)" "[]"] by blast
  have "packet_view example_rvnet nic 7 = [(0x10100, 12, False), (0x2000, 60, False), (0x3000, 40, False)]"
    using n(3) by (simp add: packet_view_def example_rvnet_def u32_to_u64_eq)
  moreover have "avail_ring (rn_tx nic') ! 0 = hd c" using len n(5) o(3) by simp
  moreover have "writes_of t' = [(0x10001050, 1)]" using o(4) n(4) by simp
  ultimately show ?thesis using o(1,2) by metis
qed

text \<open>C25. Ownership of the outgoing packets on the riscv32 board. In every state that driver, device and interrupt
  reach: each lwip buffer handed to the driver has been given back exactly once or is in flight; the packets
  in flight have distinct heads, each waiting, taken by the device or completed; the device still reads for each the
  chain that was sent; a packet that fits the free list can be sent, and the transmit interrupt ends.\<close>

theorem rvnet_tx_frees_once:
  assumes "rtx_reachable E A s"
  shows "mset (rs_freed s) + mset (map (fst \<circ> snd) (rs_flight s)) = mset (rs_sent s) \<and>
    mset (map fst (rs_flight s)) = mset (pending_heads_rv s) + mset (rs_taken s) + mset (done_heads_rv (rs_nic s)) \<and>
    distinct (map fst (rs_flight s)) \<and>
    (\<forall>(h, p, v) \<in> set (rs_flight s). v \<noteq> None \<and> device_chain (rn_tx (rs_nic s)) h = v) \<and>
    (\<forall>p. sendable A (rs_nic s) p \<longrightarrow>
       (\<exists>nic t. LowLevelOutput_rv A (\<lambda>n t. (n, t)) (rs_nic s) p (rs_trace s) = Some (ERR_OK, nic, t))) \<and>
    (\<exists>nic. VirtnetTxHandle_rv (rs_nic s) (rs_trace s) = Some nic)"
proof -
  obtain ch F where inv: "rtx_inv ch F s" using rtx_reachable_inv [OF assms] by blast
  have ok: "tx_ok_rv (rs_nic s) F (image_mset ch (heads_rv s))" and hs: "mset (map fst (rs_flight s)) = heads_rv s"
    using inv by (simp_all only: rtx_inv_def)
  have "distinct (map fst (rs_flight s))"
  proof (rule ccontr)
    assume "\<not> ?thesis"
    then obtain as bs cs h where d: "map fst (rs_flight s) = as @ [h] @ bs @ [h] @ cs" using not_distinct_decomp by blast
    have "heads_rv s = add_mset h (add_mset h (mset (as @ bs @ cs)))" unfolding hs [symmetric] d by simp
    then have 1: "tx_ok_rv (rs_nic s) F (add_mset (ch h) (add_mset (ch h) (image_mset ch (mset (as @ bs @ cs)))))" using ok by simp
    then have 2: "mset F + (\<Sum>c \<in># add_mset (ch h) (add_mset (ch h) (image_mset ch (mset (as @ bs @ cs)))). mset c) = mset all_ids"
      by (simp only: tx_ok_rv_def)
    have "set (ch h) \<inter> set (ch h) = {}" by (rule tx_parts(4) [OF 2 refl]) simp
    moreover have "ch h \<noteq> []" using 1 by (auto simp: tx_ok_rv_def closed_chain_def)
    ultimately show False by simp
  qed
  moreover have "v \<noteq> None \<and> device_chain (rn_tx (rs_nic s)) h = v" if "(h, p, v) \<in> set (rs_flight s)" for h p v
    using rtx_chain [OF inv that] inv that by (auto simp: rtx_inv_def in_flight_def)
  moreover have "\<exists>nic t. LowLevelOutput_rv A (\<lambda>n t. (n, t)) (rs_nic s) p (rs_trace s) = Some (ERR_OK, nic, t)"
    if "sendable A (rs_nic s) p" for p
    using rtx_send_inv [OF inv that] by blast
  moreover have "\<exists>nic. VirtnetTxHandle_rv (rs_nic s) (rs_trace s) = Some nic" using rtx_irq_inv [OF inv] by blast
  moreover have "mset (rs_freed s) + mset (map (fst \<circ> snd) (rs_flight s)) = mset (rs_sent s)"
    using inv by (simp only: rtx_inv_def)
  ultimately show ?thesis using hs unfolding heads_rv_def by blast
qed

lemma rvnet_tx_frees_once_witness:
  "\<exists>s. rs_sent s = [7] \<and> mset (rs_freed s) + mset (map (fst \<circ> snd) (rs_flight s)) = {#7#} \<and>
     rtx_reachable (example_env (\<lambda>_. 0)) example_rvnet s"
  using example_rtx_sent rvnet_tx_frees_once by fastforce

end
