(* ===== verification/Rvnetrx.thy ===== *)
theory Rvnetrx
  imports Rvnet
begin

text \<open>
  The second half of the riscv32 network driver, \<open>riscv32_virt/liteos_m/board/driver/virtnet.c\<close>: reception, the lending
  of the receive buffers to lwip, the interrupt, initialisation and release. The receive side is a transition system of
  driver, device, interrupt and lwip in which each buffer is in one place; the initialisation establishes the
  invariants of both sides; the blocks alive after a failed initialisation are counted by \<open>heap\<close>.
\<close>

subsection \<open>Reception\<close>

text \<open>A pointer to the lwip buffer at index \<open>k\<close> of \<open>rbufRec\<close> is the index; its \<open>custom_free_function\<close>, set to
  \<open>ReleaseRxEntry\<close> in every record, is not a field of the model, and \<open>tot_len\<close> always equals \<open>len\<close>.\<close>

definition ReleaseRxEntry :: "VirtNetif_rv \<Rightarrow> nat \<Rightarrow> trace \<Rightarrow> (VirtNetif_rv \<times> trace) option" where
  "ReleaseRxEntry nic p t = do {
     pc \<leftarrow> aget (rbufs nic) p;
     if rb_nic pc \<noteq> rn_addr nic then None else do {
       r \<leftarrow> avail_put (qsz (rxq_rv nic)) (unat (avail_index (rn_rx nic))) (rb_id pc) (rn_rx nic);
       let nic = nic\<lparr>rn_rx := avail_add 1 r\<rparr>;
       Some (nic, if used_flag (rn_rx nic) \<noteq> VIRTQ_USED_F_NO_NOTIFY
                  then FENCE_WRITE_UINT32 0 (base (rn_dev nic) + VIRTMMIO_REG_QUEUENOTIFY) t else t)
     }
   }"

fun config_rx_loop :: "env \<Rightarrow> rvnet_abi \<Rightarrow> nat \<Rightarrow> nat \<Rightarrow> u32 \<Rightarrow> VirtNetif_rv \<Rightarrow> VirtNetif_rv option" where
  "config_rx_loop E A i 0 paddr nic = Some nic"
| "config_rx_loop E A i (Suc n) paddr nic = do {
     r \<leftarrow> desc_upd i (\<lambda>d. d\<lparr>pAddr := u32_to_u64 paddr, d_len := SIZEOF_VirtnetHdr_rv + ucast (ETH_FRAME_LEN_rv A),
       d_flag := VIRTQ_DESC_F_WRITE\<rparr>) (rn_rx nic);
     let paddr = paddr + VIRTQ_RXBUF_SIZE E A;
     ring \<leftarrow> aset (avail_ring r) i (of_nat i);
     rb \<leftarrow> aget (rbufs nic) i;
     config_rx_loop E A (i + 1) n paddr
       (nic\<lparr>rn_rx := r\<lparr>avail_ring := ring\<rparr>, rbufs := (rbufs nic)[i := rb\<lparr>rb_nic := rn_addr nic, rb_id := of_nat i\<rparr>]\<rparr>)
   }"

definition ConfigRxBuffer :: "env \<Rightarrow> rvnet_abi \<Rightarrow> VirtNetif_rv \<Rightarrow> u32 \<Rightarrow> trace \<Rightarrow> (err_t \<times> VirtNetif_rv \<times> trace) option" where
  "ConfigRxBuffer E A nic buf t =
     (let qs = qsz (rxq_rv nic);
          (p, t) = kcall E c_calloc [ucast qs, SIZEOF_RbufRecord A] t;
          nic = nic\<lparr>rbuf_ptr := p\<rparr>
      in if p = 0 then Some (ERR_MEM, nic, t) else do {
        let nic = nic\<lparr>rbufs := replicate (unat qs) \<lparr>rb_payload = 0, rb_len = 0, rb_nic = 0, rb_id = 0\<rparr>\<rparr>;
        nic \<leftarrow> config_rx_loop E A 0 (unat qs) buf nic;
        Some (ERR_OK, nic, t)
      })"

definition ConfigQueue_rv :: "env \<Rightarrow> rvnet_abi \<Rightarrow> VirtNetif_rv \<Rightarrow> trace \<Rightarrow> (err_t \<times> VirtNetif_rv \<times> trace) option" where
  "ConfigQueue_rv E A nic t =
     (let qsz = [VIRTMMIO_NETIF_DFT_RXQSZ, VIRTMMIO_NETIF_DFT_TXQSZ];
          size = VirtqSize_rv E (qsz ! 0) + VirtqSize_rv E (qsz ! 1) + VIRTQ_RXBUF_ALIGN - 1 + ucast (qsz ! 0) * VIRTQ_RXBUF_SIZE E A;
          (b, t) = kcall E c_calloc [1, size] t
      in if b = 0 then Some (ERR_MEM, nic, t) else do {
        let nic = nic\<lparr>rn_rx := zero_vring (unat (qsz ! 0)), rn_tx := zero_vring (unat (qsz ! 1))\<rparr>;
        (buf, dev, t) \<leftarrow> VirtmmioConfigQueue_rv E (rn_dev nic) b qsz 2 t;
        let nic = nic\<lparr>rn_dev := dev\<rparr>;
        if buf = 0 then Some (ERR_IF, nic, t) else do {
          let pad = (buf + SIZEOF_VirtnetHdr_rv - ucast (ETH_PAD_SIZE A)) mod VIRTQ_RXBUF_ALIGN;
          let pad = (if pad \<noteq> 0 then VIRTQ_RXBUF_ALIGN - pad else pad);
          (ret, nic, t) \<leftarrow> ConfigRxBuffer E A nic (buf + pad) t;
          if ret \<noteq> ERR_OK then Some (ret, nic, t) else InitTxFreelist_rv E A nic t
        }
      })"

text \<open>\<open>LWIP_ASSERT\<close>s and \<open>LOS_ASSERT\<close>s that fail stop the machine. With \<open>PBUF_RAW\<close> there is no header
  space, so \<open>pbuf_alloced_custom\<close> takes the payload address it is given.\<close>

definition LowLevelInput_rv ::
  "env \<Rightarrow> rvnet_abi \<Rightarrow> VirtNetif_rv \<Rightarrow> VirtqUsedElem \<Rightarrow> trace \<Rightarrow> (nat \<times> VirtNetif_rv \<times> trace) option" where
  "LowLevelInput_rv E A nic e t = do {
     d \<leftarrow> aget (descs (rn_rx nic)) (unat (ue_id e));
     let pl = ucast (pAddr d) + SIZEOF_VirtnetHdr_rv;
     let pl = pl - ucast (ETH_PAD_SIZE A);
     rb \<leftarrow> aget (rbufs nic) (unat (ue_id e));
     let t = kproc pbuf_alloced_custom [ue_id e, pl, ucast (ETH_FRAME_LEN_rv A)] t;
     let len = ucast (ue_len e - SIZEOF_VirtnetHdr_rv);
     if \<not> LOS_ASSERT E (len \<le> ETH_FRAME_LEN_rv A) then None else do {
       let len = len + ETH_PAD_SIZE A;
       Some (unat (ue_id e), nic\<lparr>rbufs := (rbufs nic)[unat (ue_id e) := rb\<lparr>rb_payload := pl, rb_len := len\<rparr>]\<rparr>, t)
     }
   }"

definition rx_one_rv :: "env \<Rightarrow> rvnet_abi \<Rightarrow> VirtNetif_rv \<Rightarrow> trace \<Rightarrow> (VirtNetif_rv \<times> trace) option" where
  "rx_one_rv E A nic t = do {
     e \<leftarrow> used_get (qsz (rxq_rv nic)) (q_last (rxq_rv nic)) (rn_rx nic);
     (buf, nic, t) \<leftarrow> LowLevelInput_rv E A nic e t;
     let (ret, t) = kcall E netif_input [of_nat buf] t;
     (nic, t) \<leftarrow> (if ret \<noteq> 0 then ReleaseRxEntry nic buf t else Some (nic, t));
     Some (set_last_rv 0 (q_last (rxq_rv nic) + 1) nic, t)
   }"

partial_function (option) rx_loop_rv ::
  "env \<Rightarrow> rvnet_abi \<Rightarrow> used_update \<Rightarrow> VirtNetif_rv \<Rightarrow> trace \<Rightarrow> (VirtNetif_rv \<times> trace) option" where
  "rx_loop_rv E A dma nic t =
     (if q_last (rxq_rv nic) = used_index (rn_rx nic) then
        (let r = device_wrote dma t ((rn_rx nic)\<lparr>avail_flag := 0\<rparr>); nic = nic\<lparr>rn_rx := r\<rparr> in
         if q_last (rxq_rv nic) = used_index r then Some (nic, t)
         else do {
           let nic = nic\<lparr>rn_rx := r\<lparr>avail_flag := VIRTQ_AVAIL_F_NO_INTERRUPT\<rparr>\<rparr>;
           (nic, t) \<leftarrow> rx_one_rv E A nic t;
           rx_loop_rv E A dma nic t
         })
      else do {
        (nic, t) \<leftarrow> rx_one_rv E A nic t;
        rx_loop_rv E A dma nic t
      })"

definition VirtnetRxHandle_rv ::
  "env \<Rightarrow> rvnet_abi \<Rightarrow> used_update \<Rightarrow> VirtNetif_rv \<Rightarrow> trace \<Rightarrow> (VirtNetif_rv \<times> trace) option" where
  "VirtnetRxHandle_rv E A dma nic t =
     rx_loop_rv E A dma (nic\<lparr>rn_rx := (rn_rx nic)\<lparr>avail_flag := VIRTQ_AVAIL_F_NO_INTERRUPT\<rparr>\<rparr>) t"

definition VirtnetIRQhandle_rv ::
  "env \<Rightarrow> rvnet_abi \<Rightarrow> used_update \<Rightarrow> VirtNetif_rv \<Rightarrow> trace \<Rightarrow> (VirtNetif_rv \<times> trace) option" where
  "VirtnetIRQhandle_rv E A dma nic t = do {
     let (s, t) = GET_UINT32 E (base (rn_dev nic) + VIRTMMIO_REG_INTERRUPTSTATUS) t;
     if s AND VIRTMMIO_IRQ_NOTIFY_USED = 0 then Some (nic, t) else do {
       (nic, t) \<leftarrow> VirtnetRxHandle_rv E A dma nic t;
       (nic, t) \<leftarrow> VirtnetTxHandle_rv nic t;
       Some (nic, FENCE_WRITE_UINT32 VIRTMMIO_IRQ_NOTIFY_USED (base (rn_dev nic) + VIRTMMIO_REG_INTERRUPTACK) t)
     }
   }"

subsection \<open>Start and stop\<close>

text \<open>A failed assertion in a callback stops the machine before the negotiation goes on.\<close>

definition LowLevelInit_rv ::
  "env \<Rightarrow> rv_consts \<Rightarrow> rvnet_abi \<Rightarrow> (trace \<Rightarrow> u32 \<Rightarrow> VirtnetConfig) \<Rightarrow> netif \<Rightarrow> VirtNetif_rv \<Rightarrow> trace
     \<Rightarrow> (err_t \<times> netif \<times> trace) option" where
  "LowLevelInit_rv E R A config nf nic t = do {
     let (found, dev, t) = VirtmmioDiscover_rv E R VIRTMMIO_DEVICE_ID_NET (rn_dev nic) t;
     let nic = nic\<lparr>rn_dev := dev\<rparr>;
     let nf = nf\<lparr>nf_state := Some nic\<rparr>;
     if \<not> found then Some (ERR_IF, nf, t) else do {
       t \<leftarrow> VirtmmioInitBegin_rv E (rn_dev nic) t;
       (ok, nf, t) \<leftarrow> VirtmmioNegotiate_rv E (rn_dev nic) (Feature0_rv E A config) Feature1_rv nf t;
       if nf_halted nf then None else
       if \<not> ok then Some (ERR_IF, nf, VirtmmioInitFailed_rv E (rn_dev nic) t) else do {
         (ret, nic, t) \<leftarrow> ConfigQueue_rv E A nic t;
         let nf = nf\<lparr>nf_state := Some nic\<rparr>;
         if ret \<noteq> ERR_OK then Some (ret, nf, VirtmmioInitFailed_rv E (rn_dev nic) t) else do {
           (ok, t) \<leftarrow> VirtmmioRegisterIRQ_rv E R (rn_dev nic) t;
           if \<not> ok then Some (ERR_IF, nf, VirtmmioInitFailed_rv E (rn_dev nic) t) else do {
             let t = VritmmioInitEnd_rv E (rn_dev nic) t;
             let nic = nic\<lparr>rn_rx := avail_add (qsz (rxq_rv nic)) (rn_rx nic)\<rparr>;
             let t = FENCE_WRITE_UINT32 0 (base (rn_dev nic) + VIRTMMIO_REG_QUEUENOTIFY) t;
             Some (ERR_OK, nf\<lparr>nf_state := Some nic\<rparr>, t)
           }
         }
       }
     }
   }"

definition zero_VirtNetif_rv :: "u32 \<Rightarrow> VirtNetif_rv" where
  "zero_VirtNetif_rv a = \<lparr>rn_addr = a,
     rn_dev = \<lparr>base = 0, irq = 0, vq = replicate 2 \<lparr>qsz = 0, q_last = 0, q_desc = 0, q_avail = 0, q_used = 0\<rparr>\<rparr>,
     rn_rx = zero_vring 0, rn_tx = zero_vring 0, rbuf_ptr = 0, rbufs = [], rn_tFreeHdr = 0, rn_tFreeNum = 0, tbuf_ptr = 0, tbufs = []\<rparr>"

definition EthernetIfInit ::
  "env \<Rightarrow> rv_consts \<Rightarrow> rvnet_abi \<Rightarrow> (trace \<Rightarrow> u32 \<Rightarrow> VirtnetConfig) \<Rightarrow> netif \<Rightarrow> trace \<Rightarrow> (err_t \<times> netif \<times> trace) option" where
  "EthernetIfInit E R A config nf t =
     (let (p, t) = kcall E mem_calloc [1, SIZEOF_VirtNetif_rv A] t
      in if p = 0 then Some (ERR_MEM, nf, t)
         else let nic = zero_VirtNetif_rv p
              in LowLevelInit_rv E R A config (nf\<lparr>nf_state := Some nic, nf_ready := True\<rparr>) nic t)"

definition VirtnetDeInit_rv :: "netif \<Rightarrow> trace \<Rightarrow> trace" where
  "VirtnetDeInit_rv nf t =
     (case nf_state nf of None \<Rightarrow> kproc mem_free [nf_addr nf] t
      | Some nic \<Rightarrow>
          let t = (if irq (rn_dev nic) AND NOT 0xFF \<noteq> 0 then kproc LOS_HwiDelete [irq (rn_dev nic), 0] t else t);
              t = (if rbuf_ptr nic \<noteq> 0 then kproc c_free [rbuf_ptr nic] t else t);
              t = (if tbuf_ptr nic \<noteq> 0 then kproc c_free [tbuf_ptr nic] t else t);
              t = (if q_desc (rxq_rv nic) \<noteq> 0 then kproc c_free [q_desc (rxq_rv nic)] t else t);
              t = kproc mem_free [rn_addr nic] t
          in kproc mem_free [nf_addr nf] t)"

text \<open>lwip's \<open>netif_add\<close> is a parameter: a function of the callback, the struct and the history that says whether
  the interface was added.\<close>

type_synonym netif_adder =
  "(netif \<Rightarrow> trace \<Rightarrow> (err_t \<times> netif \<times> trace) option) \<Rightarrow> netif \<Rightarrow> trace \<Rightarrow> (bool \<times> netif \<times> trace) option"

definition zero_netif :: "rvnet_abi \<Rightarrow> u32 \<Rightarrow> netif" where
  "zero_netif A a = \<lparr>nf_addr = a, nf_mtu = 0, hwaddr = replicate (ETHARP_HWADDR_LEN A) 0, hwaddr_len = 0, nf_state = None,
     nf_ready = False, nf_halted = False\<rparr>"

definition VirtnetInit_rv ::
  "env \<Rightarrow> rv_consts \<Rightarrow> rvnet_abi \<Rightarrow> (trace \<Rightarrow> u32 \<Rightarrow> VirtnetConfig) \<Rightarrow> netif_adder \<Rightarrow> trace \<Rightarrow> (netif option \<times> trace) option" where
  "VirtnetInit_rv E R A config adder t =
     (let (p, t) = kcall E mem_calloc [1, SIZEOF_netif A] t
      in if p = 0 then Some (None, t) else do {
        (added, nf, t) \<leftarrow> adder (EthernetIfInit E R A config) (zero_netif A p) t;
        Some (if \<not> added then (None, VirtnetDeInit_rv nf t) else (Some nf, t))
      })"

subsection \<open>The receive buffers\<close>

text \<open>The receive queue after \<open>ConfigRxBuffer\<close>, with the first buffer at \<open>b\<close>.\<close>

definition rx_ok_rv :: "env \<Rightarrow> rvnet_abi \<Rightarrow> u32 \<Rightarrow> VirtNetif_rv \<Rightarrow> bool" where
  "rx_ok_rv E A b nic \<longleftrightarrow>
     length (vq (rn_dev nic)) = 2 \<and> qsz (rxq_rv nic) = VIRTMMIO_NETIF_DFT_RXQSZ \<and> vring_ok 16 (rn_rx nic) \<and> length (rbufs nic) = 16 \<and>
     (\<forall>k < 16. pAddr (descs (rn_rx nic) ! k) = u32_to_u64 (b + of_nat k * VIRTQ_RXBUF_SIZE E A) \<and>
        d_len (descs (rn_rx nic) ! k) = SIZEOF_VirtnetHdr_rv + ucast (ETH_FRAME_LEN_rv A) \<and>
        d_flag (descs (rn_rx nic) ! k) = VIRTQ_DESC_F_WRITE \<and>
        rb_nic (rbufs nic ! k) = rn_addr nic \<and> rb_id (rbufs nic ! k) = of_nat k)"

text \<open>The lwip buffer at index \<open>k\<close> lies in its receive buffer: it starts behind the header, \<open>ETH_PAD_SIZE\<close> early.\<close>

definition frame_in :: "env \<Rightarrow> rvnet_abi \<Rightarrow> u32 \<Rightarrow> VirtNetif_rv \<Rightarrow> nat \<Rightarrow> bool" where
  "frame_in E A b nic k \<longleftrightarrow>
     rb_payload (rbufs nic ! k) = b + of_nat k * VIRTQ_RXBUF_SIZE E A + SIZEOF_VirtnetHdr_rv - ucast (ETH_PAD_SIZE A) \<and>
     unat (rb_len (rbufs nic ! k)) \<le> unat (ETH_FRAME_LEN_rv A) + unat (ETH_PAD_SIZE A)"

definition rx_entries_rv :: "VirtNetif_rv \<Rightarrow> VirtqUsedElem list" where
  "rx_entries_rv nic = ring_view (used_ring (rn_rx nic)) 16 (q_last (rxq_rv nic)) (used_index (rn_rx nic))"

definition rx_posted_rv :: "u16 \<Rightarrow> VirtNetif_rv \<Rightarrow> u16 list" where
  "rx_posted_rv from nic = ring_view (avail_ring (rn_rx nic)) 16 from (avail_index (rn_rx nic))"

definition entry_ok_rv :: "rvnet_abi \<Rightarrow> VirtqUsedElem \<Rightarrow> bool" where
  "entry_ok_rv A e \<longleftrightarrow> unat (ue_id e) < 16 \<and> 12 \<le> unat (ue_len e) \<and> unat (ue_len e) \<le> 12 + unat (ETH_FRAME_LEN_rv A)"

text \<open>The buffers that lwip accepted in a history, in order.\<close>

primrec accepted :: "env \<Rightarrow> trace \<Rightarrow> u32 list" where
  "accepted E [] = []"
| "accepted E (ev # t) = accepted E t @ (case ev of Call f xs \<Rightarrow> if f = netif_input \<and> sys_ret E t f xs = 0 then xs else [] | _ \<Rightarrow> [])"

definition tx_part :: "VirtNetif_rv \<Rightarrow> vring \<times> TbufRecord list \<times> u16 \<times> u16 \<times> u32" where
  "tx_part nic = (rn_tx nic, tbufs nic, rn_tFreeNum nic, rn_tFreeHdr nic, base (rn_dev nic))"

lemma tx_part_set_last [simp]: "tx_part (set_last_rv k l nic) = tx_part nic"
  by (simp add: tx_part_def)

lemma rxq_set_last_rv:
  "length (vq (rn_dev nic)) = 2 \<Longrightarrow> rxq_rv (set_last_rv 0 l nic) = (rxq_rv nic)\<lparr>q_last := l\<rparr>"
  "length (vq (rn_dev nic)) = 2 \<Longrightarrow> txq_rv (set_last_rv 0 l nic) = txq_rv nic"
  by (simp_all add: set_last_rv_def rxq_rv_def txq_rv_def)

lemma rbufs_set_last [simp]: "rbufs (set_last_rv k l nic) = rbufs nic"
  by (simp add: set_last_rv_def)

lemma rx_ok_rv_set_last [simp]: "rx_ok_rv E A b nic \<Longrightarrow> rx_ok_rv E A b (set_last_rv 0 l nic)"
  by (simp add: rx_ok_rv_def rxq_set_last_rv)

lemma ReleaseRxEntry_spec:
  assumes ok: "rx_ok_rv E A b nic" and k: "k < 16" and room: "unat (avail_index (rn_rx nic) - from) < 16"
  shows "\<exists>nic' t'. ReleaseRxEntry nic k t = Some (nic', t') \<and> rx_ok_rv E A b nic' \<and>
     rx_posted_rv from nic' = rx_posted_rv from nic @ [of_nat k] \<and> avail_index (rn_rx nic') = avail_index (rn_rx nic) + 1 \<and>
     rx_entries_rv nic' = rx_entries_rv nic \<and> rbufs nic' = rbufs nic \<and> rn_dev nic' = rn_dev nic \<and> rn_tx nic' = rn_tx nic \<and>
     rn_addr nic' = rn_addr nic \<and> used_index (rn_rx nic') = used_index (rn_rx nic) \<and> used_ring (rn_rx nic') = used_ring (rn_rx nic) \<and>
     used_flag (rn_rx nic') = used_flag (rn_rx nic) \<and> tx_part nic' = tx_part nic \<and> accepted E t' = accepted E t \<and>
     writes_of t' = writes_of t @ (if used_flag (rn_rx nic) \<noteq> VIRTQ_USED_F_NO_NOTIFY
       then [(base (rn_dev nic) + VIRTMMIO_REG_QUEUENOTIFY, 0)] else [])"
proof -
  let ?r = "rn_rx nic"
  have len: "length (avail_ring ?r) = 16" "length (rbufs nic) = 16" and q: "qsz (rxq_rv nic) = 16"
    and pc: "rb_nic (rbufs nic ! k) = rn_addr nic" "rb_id (rbufs nic ! k) = of_nat k"
    using ok k by (simp_all add: rx_ok_rv_def vring_okD)
  let ?r' = "?r\<lparr>avail_ring := (avail_ring ?r)[unat (avail_index ?r) mod 16 := of_nat k], avail_index := avail_index ?r + 1\<rparr>"
  let ?n = "nic\<lparr>rn_rx := ?r'\<rparr>"
  let ?t = "if used_flag ?r \<noteq> VIRTQ_USED_F_NO_NOTIFY then Wr (base (rn_dev nic) + VIRTMMIO_REG_QUEUENOTIFY) 0 # t else t"
  have "ReleaseRxEntry nic k t = Some (?n, ?t)"
    using k len pc by (simp add: ReleaseRxEntry_def q avail_put_in avail_add_def FENCE_WRITE_UINT32_def)
  moreover have "rx_posted_rv from ?n = rx_posted_rv from nic @ [of_nat k]"
    using ring16.view_put [OF len(1) room] by (simp add: rx_posted_rv_def)
  moreover have "rx_ok_rv E A b ?n" using ok by (simp add: rx_ok_rv_def rxq_rv_def vring_ok_def)
  moreover have "rx_entries_rv ?n = rx_entries_rv nic" by (simp add: rx_entries_rv_def rxq_rv_def)
  ultimately show ?thesis by (intro exI [of _ ?n] exI [of _ ?t]) (simp add: tx_part_def)
qed

lemma LowLevelInput_rv_spec:
  assumes ok: "rx_ok_rv E A b nic" and e: "entry_ok_rv A e" and as: "LOS_ASSERT E True"
  shows "\<exists>nic' pl. LowLevelInput_rv E A nic e t = Some (unat (ue_id e), nic', Call pbuf_alloced_custom [ue_id e, pl, ucast (ETH_FRAME_LEN_rv A)] # t) \<and>
     rx_ok_rv E A b nic' \<and> frame_in E A b nic' (unat (ue_id e)) \<and> pl = rb_payload (rbufs nic' ! unat (ue_id e)) \<and>
     (\<forall>k. k \<noteq> unat (ue_id e) \<longrightarrow> rbufs nic' ! k = rbufs nic ! k) \<and>
     nic' = nic\<lparr>rbufs := rbufs nic'\<rparr>"
proof -
  let ?k = "unat (ue_id e)" and ?P = "ETH_PAD_SIZE A" and ?F = "ETH_FRAME_LEN_rv A"
  have k: "?k < 16" and len: "length (descs (rn_rx nic)) = 16" "length (rbufs nic) = 16"
    and d: "pAddr (descs (rn_rx nic) ! ?k) = u32_to_u64 (b + of_nat ?k * VIRTQ_RXBUF_SIZE E A)"
    using ok e by (simp_all add: rx_ok_rv_def vring_okD entry_ok_rv_def)
  let ?len = "ucast (ue_len e - 12) :: u16"
  have ul: "unat ?len = unat (ue_len e) - 12"
  proof -
    have "unat (ue_len e - 12) = unat (ue_len e) - 12" using e by (simp add: entry_ok_rv_def unat_sub word_le_nat_alt)
    moreover have "unat (ue_len e) - 12 < 65536" using e unat_u16_bound [of ?F] unfolding entry_ok_rv_def by arith
    ultimately show ?thesis by (simp add: unsigned_ucast_eq take_bit_nat_def)
  qed
  have "?len \<le> ?F" using e unfolding word_le_nat_alt ul entry_ok_rv_def by arith
  moreover have "unat (?len + ?P) \<le> unat ?F + unat ?P"
  proof -
    have "unat (?len + ?P) \<le> unat ?len + unat ?P" by (simp add: unat_word_ariths)
    then show ?thesis using e unfolding ul entry_ok_rv_def by arith
  qed
  note len_ok = calculation this
  have cast: "ucast (u32_to_u64 x) = x" for x by (simp add: u32_to_u64_eq) (rule bit_word_eqI, simp add: bit_simps)
  let ?pl = "b + of_nat ?k * VIRTQ_RXBUF_SIZE E A + SIZEOF_VirtnetHdr_rv - ucast ?P"
  let ?rb = "(rbufs nic ! ?k)\<lparr>rb_payload := ?pl, rb_len := ?len + ?P\<rparr>"
  let ?n = "nic\<lparr>rbufs := (rbufs nic)[?k := ?rb]\<rparr>"
  have "LowLevelInput_rv E A nic e t = Some (?k, ?n, Call pbuf_alloced_custom [ue_id e, ?pl, ucast ?F] # t)"
    using k len d len_ok(1) as by (simp add: LowLevelInput_rv_def kproc_def Let_def cast)
  moreover have "rx_ok_rv E A b ?n"
  proof -
    have "rb_nic (rbufs ?n ! j) = rb_nic (rbufs nic ! j) \<and> rb_id (rbufs ?n ! j) = rb_id (rbufs nic ! j)" for j
      using k len by (cases "j = ?k") simp_all
    then show ?thesis using ok by (simp add: rx_ok_rv_def rxq_rv_def)
  qed
  moreover have "frame_in E A b ?n ?k" using len_ok(2) k len by (simp add: frame_in_def)
  ultimately show ?thesis using k len by (intro exI [of _ ?n] exI [of _ ?pl]) simp
qed


lemma rx_one_rv_spec:
  assumes ok: "rx_ok_rv E A b nic" and es: "rx_entries_rv nic = e # es" and e: "entry_ok_rv A e" and as: "LOS_ASSERT E True"
    and room: "unat (avail_index (rn_rx nic) - from) + length es < 16"
  shows "\<exists>nic' t' L R. rx_one_rv E A nic t = Some (nic', t') \<and> rx_ok_rv E A b nic' \<and> rx_entries_rv nic' = es \<and>
     q_last (rxq_rv nic) \<noteq> used_index (rn_rx nic) \<and>
     frame_in E A b nic' (unat (ue_id e)) \<and> (\<forall>k. k \<noteq> unat (ue_id e) \<longrightarrow> rbufs nic' ! k = rbufs nic ! k) \<and>
     L @ R = [e] \<and> accepted E t' = accepted E t @ map ue_id L \<and>
     rx_posted_rv from nic' = rx_posted_rv from nic @ map (\<lambda>e. ucast (ue_id e)) R \<and>
     avail_index (rn_rx nic') = avail_index (rn_rx nic) + of_nat (length R) \<and>
     rn_tx nic' = rn_tx nic \<and> txq_rv nic' = txq_rv nic \<and> rn_addr nic' = rn_addr nic \<and> tx_part nic' = tx_part nic"
proof -
  let ?k = "unat (ue_id e)"
  have ne: "q_last (rxq_rv nic) \<noteq> used_index (rn_rx nic)" using es by (auto simp: rx_entries_rv_def)
  have "unat (used_index (rn_rx nic) - q_last (rxq_rv nic)) \<le> 16"
    using arg_cong [OF es, of length] room by (simp add: rx_entries_rv_def)
  note v = ring16.view_get [OF ne this, of "used_ring (rn_rx nic)"]
  have len: "length (used_ring (rn_rx nic)) = 16" "length (vq (rn_dev nic)) = 2" and q: "qsz (rxq_rv nic) = 16"
    using ok by (simp_all add: rx_ok_rv_def vring_okD)
  have u: "used_get (qsz (rxq_rv nic)) (q_last (rxq_rv nic)) (rn_rx nic) = Some e"
    using es v by (simp add: used_get_in q len rx_entries_rv_def)
  obtain n1 pl where i: "LowLevelInput_rv E A nic e t = Some (?k, n1, Call pbuf_alloced_custom [ue_id e, pl, ucast (ETH_FRAME_LEN_rv A)] # t)"
    "rx_ok_rv E A b n1" "frame_in E A b n1 ?k" "\<forall>k. k \<noteq> ?k \<longrightarrow> rbufs n1 ! k = rbufs nic ! k"
    and n1: "n1 = nic\<lparr>rbufs := rbufs n1\<rparr>"
    using LowLevelInput_rv_spec [OF ok e as] by blast
  have tx1: "tx_part n1 = tx_part nic" by (subst n1) (simp add: tx_part_def)
  have n1s: "rn_rx n1 = rn_rx nic" "rn_tx n1 = rn_tx nic" "rn_dev n1 = rn_dev nic" "rn_addr n1 = rn_addr nic"
    by (subst n1, simp)+
  let ?t1 = "Call pbuf_alloced_custom [ue_id e, pl, ucast (ETH_FRAME_LEN_rv A)] # t"
  let ?t2 = "Call netif_input [ue_id e] # ?t1"
  have posted: "rx_posted_rv from n1 = rx_posted_rv from nic" by (simp add: rx_posted_rv_def n1s)
  have rxq1: "rxq_rv n1 = rxq_rv nic" "txq_rv n1 = txq_rv nic" by (simp_all add: rxq_rv_def txq_rv_def n1s)
  have k: "?k < 16" using e by (simp add: entry_ok_rv_def)
  have entries: "rx_entries_rv (set_last_rv 0 (q_last (rxq_rv nic) + 1) n) = es"
    if "rn_dev n = rn_dev nic" "used_ring (rn_rx n) = used_ring (rn_rx nic)" "used_index (rn_rx n) = used_index (rn_rx nic)" for n
    using es v that len(2) by (simp add: rx_entries_rv_def rxq_set_last_rv)
  have fr: "frame_in E A b (set_last_rv 0 l n) ?k" if "rbufs n = rbufs n1" for n l
    using i(3) that by (simp add: frame_in_def)
  show ?thesis
  proof (cases "sys_ret E ?t1 netif_input [ue_id e] = 0")
    case True
    let ?n = "set_last_rv 0 (q_last (rxq_rv nic) + 1) n1"
    have "rx_one_rv E A nic t = Some (?n, ?t2)" using True by (simp add: rx_one_rv_def u i(1) kcall_def rxq1)
    moreover have "accepted E ?t2 = accepted E t @ map ue_id [e]" using True by simp
    ultimately show ?thesis
      using ne i(2,4) entries [of n1] fr [of n1] n1s tx1 posted rxq1 rxq_set_last_rv(2) [of n1] len(2)
      by (intro exI [of _ ?n] exI [of _ ?t2] exI [of _ "[e]"] exI [of _ "[]"]) (simp add: rx_posted_rv_def)
  next
    case False
    have "unat (avail_index (rn_rx n1) - from) < 16" using room by (simp add: n1s)
    from ReleaseRxEntry_spec [OF i(2) k this, of ?t2] obtain n2 t2 where r: "ReleaseRxEntry n1 ?k ?t2 = Some (n2, t2)"
      "rx_ok_rv E A b n2" "rx_posted_rv from n2 = rx_posted_rv from n1 @ [of_nat ?k]" "avail_index (rn_rx n2) = avail_index (rn_rx n1) + 1"
      "rbufs n2 = rbufs n1" "rn_dev n2 = rn_dev n1" "rn_tx n2 = rn_tx n1" "rn_addr n2 = rn_addr n1"
      "used_index (rn_rx n2) = used_index (rn_rx n1)" "used_ring (rn_rx n2) = used_ring (rn_rx n1)" "accepted E t2 = accepted E ?t2"
      "tx_part n2 = tx_part n1"
      by blast
    let ?n = "set_last_rv 0 (q_last (rxq_rv nic) + 1) n2"
    have "rxq_rv n2 = rxq_rv nic" "txq_rv n2 = txq_rv nic" using r(6) n1s by (simp_all add: rxq_rv_def txq_rv_def)
    moreover have "(of_nat ?k :: u16) = ucast (ue_id e)" by (metis of_nat_unat)
    moreover have "accepted E t2 = accepted E t @ map ue_id []" using False r(11) by simp
    moreover from calculation have "rx_one_rv E A nic t = Some (?n, t2)" using False r(1) by (simp add: rx_one_rv_def u i(1) kcall_def)
    ultimately show ?thesis
      using ne i(4) entries [of n2] fr [of n2] n1s tx1 posted r(2-10,12) rxq_set_last_rv(2) [of n2] len(2)
      by (intro exI [of _ ?n] exI [of _ t2] exI [of _ "[]"] exI [of _ "[e]"]) (simp add: rx_posted_rv_def)
  qed
qed

lemma rx_loop_rv_spec:
  assumes dma: "quiet dma" and as: "LOS_ASSERT E True"
  shows "rx_entries_rv nic = es \<Longrightarrow> rx_ok_rv E A b nic \<Longrightarrow> \<forall>e \<in> set es. entry_ok_rv A e \<Longrightarrow>
    unat (avail_index (rn_rx nic) - from) + length es \<le> 16 \<Longrightarrow>
    \<exists>nic' t' L R. rx_loop_rv E A dma nic t = Some (nic', t') \<and> rx_ok_rv E A b nic' \<and> rx_entries_rv nic' = [] \<and> avail_flag (rn_rx nic') = 0 \<and>
      (\<forall>k \<in> (\<lambda>e. unat (ue_id e)) ` set es. frame_in E A b nic' k) \<and> (\<forall>k. frame_in E A b nic k \<longrightarrow> frame_in E A b nic' k) \<and>
      mset L + mset R = mset es \<and> accepted E t' = accepted E t @ map ue_id L \<and>
      rx_posted_rv from nic' = rx_posted_rv from nic @ map (\<lambda>e. ucast (ue_id e)) R \<and>
      rn_tx nic' = rn_tx nic \<and> txq_rv nic' = txq_rv nic \<and> rn_addr nic' = rn_addr nic \<and> tx_part nic' = tx_part nic"
proof (induction es arbitrary: nic t)
  case Nil
  then have e: "q_last (rxq_rv nic) = used_index (rn_rx nic)"
    by (simp add: rx_entries_rv_def ring_view_def) (simp add: unat_eq_zero)
  have d: "device_wrote dma t r = r" for r using dma by (simp add: device_wrote_def quiet_def)
  let ?n = "nic\<lparr>rn_rx := (rn_rx nic)\<lparr>avail_flag := 0\<rparr>\<rparr>"
  have q: "rxq_rv ?n = rxq_rv nic" "txq_rv ?n = txq_rv nic" by (simp_all add: rxq_rv_def txq_rv_def)
  have "rx_loop_rv E A dma nic t = Some (?n, t)"
    by (subst rx_loop_rv.simps) (simp add: e d Let_def q)
  then show ?case
    using Nil e q by (intro exI [of _ ?n] exI [of _ t] exI [of _ "[]"]) 
      (simp add: rx_ok_rv_def vring_ok_def rx_entries_rv_def rx_posted_rv_def frame_in_def tx_part_def)
next
  case (Cons e es)
  have e: "entry_ok_rv A e" and eok: "\<forall>e \<in> set es. entry_ok_rv A e" using Cons.prems(3) by auto
  have room: "unat (avail_index (rn_rx nic) - from) + length es < 16" using Cons.prems(4) by simp
  obtain n1 t1 L R where one: "rx_one_rv E A nic t = Some (n1, t1)" "rx_ok_rv E A b n1" "rx_entries_rv n1 = es"
    "q_last (rxq_rv nic) \<noteq> used_index (rn_rx nic)"
    "frame_in E A b n1 (unat (ue_id e))" "\<forall>k. k \<noteq> unat (ue_id e) \<longrightarrow> rbufs n1 ! k = rbufs nic ! k"
    "L @ R = [e]" "accepted E t1 = accepted E t @ map ue_id L"
    "rx_posted_rv from n1 = rx_posted_rv from nic @ map (\<lambda>e. ucast (ue_id e)) R"
    "avail_index (rn_rx n1) = avail_index (rn_rx nic) + of_nat (length R)"
    "rn_tx n1 = rn_tx nic" "txq_rv n1 = txq_rv nic" "rn_addr n1 = rn_addr nic" "tx_part n1 = tx_part nic"
    using rx_one_rv_spec [OF Cons.prems(2,1) e as room, of t] by blast
  have "length L + length R = 1" using arg_cong [OF one(7), of length] by simp
  then have "length R \<le> 1" by simp
  moreover have "length (rx_posted_rv from n1) = length (rx_posted_rv from nic) + length R" using one(9) by simp
  ultimately have room': "unat (avail_index (rn_rx n1) - from) + length es \<le> 16"
    using Cons.prems(4) by (simp add: rx_posted_rv_def)
  obtain n2 t2 L2 R2 where r: "rx_loop_rv E A dma n1 t1 = Some (n2, t2)" "rx_ok_rv E A b n2" "rx_entries_rv n2 = []" "avail_flag (rn_rx n2) = 0"
      "\<forall>k \<in> (\<lambda>e. unat (ue_id e)) ` set es. frame_in E A b n2 k" "\<forall>k. frame_in E A b n1 k \<longrightarrow> frame_in E A b n2 k"
      "mset L2 + mset R2 = mset es" "accepted E t2 = accepted E t1 @ map ue_id L2"
      "rx_posted_rv from n2 = rx_posted_rv from n1 @ map (\<lambda>e. ucast (ue_id e)) R2"
      "rn_tx n2 = rn_tx n1" "txq_rv n2 = txq_rv n1" "rn_addr n2 = rn_addr n1" "tx_part n2 = tx_part n1"
    using Cons.IH [OF one(3,2) eok room', of t1] by blast
  have "rx_loop_rv E A dma nic t = Some (n2, t2)"
    using one(1,4) r(1) by (subst rx_loop_rv.simps) simp
  moreover have "frame_in E A b n2 k" if "frame_in E A b nic k" for k
    using that one(5,6) r(6) by (metis frame_in_def)
  moreover have "mset (L @ L2) + mset (R @ R2) = mset (e # es)"
    using arg_cong [OF one(7), of mset] r(7) by (simp add: ac_simps)
  ultimately show ?case
    using r(2-5,8-) one(5,8,9,11-) r(6)
    by (intro exI [of _ n2] exI [of _ t2] exI [of _ "L @ L2"] exI [of _ "R @ R2"]) simp
qed

subsection \<open>Driver, device, interrupt and lwip\<close>

text \<open>The receive side as a transition system: how far the device has read the available ring, the buffers it took
  and has not completed, and the buffers lent to lwip.\<close>

record rrx_sys =
  rr_nic :: VirtNetif_rv
  rr_seen :: u16
  rr_taken :: "u16 list"
  rr_lent :: "u16 list"
  rr_trace :: trace

definition rx_ids :: "u16 list" where
  "rx_ids = map of_nat [0..<16]"

definition rx_done_rv :: "VirtNetif_rv \<Rightarrow> u16 list" where
  "rx_done_rv nic = map (\<lambda>e. ucast (ue_id e)) (rx_entries_rv nic)"

inductive rrx_step :: "env \<Rightarrow> rvnet_abi \<Rightarrow> rrx_sys \<Rightarrow> rrx_sys \<Rightarrow> bool" for E A where
  rr_take: "\<lbrakk> rr_seen s \<noteq> avail_index (rn_rx (rr_nic s)) \<rbrakk> \<Longrightarrow>
    rrx_step E A s (s\<lparr>rr_taken := avail_ring (rn_rx (rr_nic s)) ! (unat (rr_seen s) mod 16) # rr_taken s, rr_seen := rr_seen s + 1\<rparr>)"
| rr_complete: "\<lbrakk> rr_taken s = xs @ h # ys; r = rn_rx (rr_nic s); 12 \<le> unat n; unat n \<le> 12 + unat (ETH_FRAME_LEN_rv A) \<rbrakk> \<Longrightarrow>
    rrx_step E A s (s\<lparr>rr_taken := xs @ ys, rr_nic := (rr_nic s)\<lparr>rn_rx := r\<lparr>used_index := used_index r + 1,
      used_ring := (used_ring r)[unat (used_index r) mod 16 := \<lparr>ue_id = ucast h, ue_len = n\<rparr>]\<rparr>\<rparr>\<rparr>)"
| rr_irq: "\<lbrakk> quiet dma; VirtnetRxHandle_rv E A dma (rr_nic s) (rr_trace s) = Some (nic, t) \<rbrakk> \<Longrightarrow>
    rrx_step E A s (s\<lparr>rr_nic := nic, rr_trace := t,
      rr_lent := rr_lent s @ map ucast (drop (length (accepted E (rr_trace s))) (accepted E t))\<rparr>)"
| rr_free: "\<lbrakk> rr_lent s = xs @ k # ys; ReleaseRxEntry (rr_nic s) (unat k) (rr_trace s) = Some (nic, t) \<rbrakk> \<Longrightarrow>
    rrx_step E A s (s\<lparr>rr_nic := nic, rr_trace := t, rr_lent := xs @ ys\<rparr>)"

definition rrx_inv :: "env \<Rightarrow> rvnet_abi \<Rightarrow> u32 \<Rightarrow> rrx_sys \<Rightarrow> bool" where
  "rrx_inv E A b s \<longleftrightarrow> rx_ok_rv E A b (rr_nic s) \<and>
     mset (rx_posted_rv (rr_seen s) (rr_nic s)) + mset (rr_taken s) + mset (rx_done_rv (rr_nic s)) + mset (rr_lent s) = mset rx_ids \<and>
     (\<forall>e \<in> set (rx_entries_rv (rr_nic s)). entry_ok_rv A e) \<and> (\<forall>k \<in> set (rr_lent s). frame_in E A b (rr_nic s) (unat k))"

lemma rx_ids_distinct: "distinct rx_ids"
  by code_simp

lemma rx_ids_bound: "k \<in> set rx_ids \<Longrightarrow> unat k < 16"
  by (auto simp: rx_ids_def unat_of_nat)

lemma rrx_counts:
  assumes "rrx_inv E A b s"
  shows "length (rx_posted_rv (rr_seen s) (rr_nic s)) + length (rr_taken s) + length (rx_entries_rv (rr_nic s)) + length (rr_lent s) = 16"
proof -
  have "size (mset (rx_posted_rv (rr_seen s) (rr_nic s)) + mset (rr_taken s) + mset (rx_done_rv (rr_nic s)) + mset (rr_lent s)) = size (mset rx_ids)"
    using assms by (simp only: rrx_inv_def)
  then show ?thesis by (simp add: rx_ids_def rx_done_rv_def)
qed

lemma rrx_members:
  assumes "rrx_inv E A b s" and "k \<in> set (rr_taken s) \<or> k \<in> set (rr_lent s)"
  shows "unat k < 16"
proof -
  have "set_mset (mset (rx_posted_rv (rr_seen s) (rr_nic s)) + mset (rr_taken s) + mset (rx_done_rv (rr_nic s)) + mset (rr_lent s)) = set rx_ids"
    using assms(1) by (simp only: rrx_inv_def set_mset_mset)
  then have "k \<in> set rx_ids" using assms(2) by auto
  then show ?thesis by (rule rx_ids_bound)
qed

lemma rrx_take_inv:
  assumes inv: "rrx_inv E A b s" and ne: "rr_seen s \<noteq> avail_index (rn_rx (rr_nic s))"
  shows "rrx_inv E A b (s\<lparr>rr_taken := avail_ring (rn_rx (rr_nic s)) ! (unat (rr_seen s) mod 16) # rr_taken s, rr_seen := rr_seen s + 1\<rparr>)"
proof -
  have "unat (avail_index (rn_rx (rr_nic s)) - rr_seen s) \<le> 16"
    using rrx_counts [OF inv] by (simp add: rx_posted_rv_def)
  then have "rx_posted_rv (rr_seen s) (rr_nic s) =
      avail_ring (rn_rx (rr_nic s)) ! (unat (rr_seen s) mod 16) # rx_posted_rv (rr_seen s + 1) (rr_nic s)"
    using ring16.view_get [OF ne] by (simp add: rx_posted_rv_def)
  then show ?thesis using inv by (simp add: rrx_inv_def)
qed

lemma rrx_complete_inv:
  assumes inv: "rrx_inv E A b s" and tk: "rr_taken s = xs @ h # ys" and n: "12 \<le> unat n" "unat n \<le> 12 + unat (ETH_FRAME_LEN_rv A)"
  shows "rrx_inv E A b (s\<lparr>rr_taken := xs @ ys, rr_nic := (rr_nic s)\<lparr>rn_rx := (rn_rx (rr_nic s))\<lparr>used_index := used_index (rn_rx (rr_nic s)) + 1,
      used_ring := (used_ring (rn_rx (rr_nic s)))[unat (used_index (rn_rx (rr_nic s))) mod 16 := \<lparr>ue_id = ucast h, ue_len = n\<rparr>]\<rparr>\<rparr>\<rparr>)"
    (is "rrx_inv E A b ?s")
proof -
  let ?r = "rn_rx (rr_nic s)" and ?e = "\<lparr>ue_id = ucast h, ue_len = n\<rparr>"
  have ok: "rx_ok_rv E A b (rr_nic s)" using inv by (simp add: rrx_inv_def)
  have "length (used_ring ?r) = 16" using ok by (simp add: rx_ok_rv_def vring_okD)
  moreover have "unat (used_index ?r - q_last (rxq_rv (rr_nic s))) < 16"
    using rrx_counts [OF inv] tk by (simp add: rx_entries_rv_def)
  ultimately have d: "rx_entries_rv (rr_nic ?s) = rx_entries_rv (rr_nic s) @ [?e]"
    using ring16.view_put [of "used_ring ?r" "used_index ?r" "q_last (rxq_rv (rr_nic s))" ?e]
    by (simp add: rx_entries_rv_def rxq_rv_def)
  have h: "unat h < 16" using rrx_members [OF inv, of h] tk by simp
  have c: "(ucast (ucast h :: u32) :: u16) = h" by (rule bit_word_eqI) (simp add: bit_simps)
  have "unat (ucast h :: u32) = unat h" by (simp add: unsigned_ucast_eq take_bit_nat_eq_self unat_u16_bound less_trans [OF unat_u16_bound])
  then have "entry_ok_rv A ?e" using h n by (simp add: entry_ok_rv_def)
  moreover have "rx_ok_rv E A b (rr_nic ?s)" using ok by (simp add: rx_ok_rv_def rxq_rv_def vring_ok_def)
  moreover have "rx_posted_rv f (rr_nic ?s) = rx_posted_rv f (rr_nic s)" for f by (simp add: rx_posted_rv_def)
  moreover have "frame_in E A b (rr_nic ?s) k = frame_in E A b (rr_nic s) k" for k by (simp add: frame_in_def)
  ultimately show ?thesis using inv d tk c unfolding rrx_inv_def rx_done_rv_def d by (simp add: ac_simps)
qed

lemma rrx_irq_inv:
  assumes inv: "rrx_inv E A b s" and dma: "quiet dma" and as: "LOS_ASSERT E True"
  shows "\<exists>nic t. VirtnetRxHandle_rv E A dma (rr_nic s) (rr_trace s) = Some (nic, t) \<and> rx_entries_rv nic = [] \<and> avail_flag (rn_rx nic) = 0 \<and>
    rrx_inv E A b (s\<lparr>rr_nic := nic, rr_trace := t,
      rr_lent := rr_lent s @ map ucast (drop (length (accepted E (rr_trace s))) (accepted E t))\<rparr>)"
proof -
  let ?n = "(rr_nic s)\<lparr>rn_rx := (rn_rx (rr_nic s))\<lparr>avail_flag := VIRTQ_AVAIL_F_NO_INTERRUPT\<rparr>\<rparr>" and ?es = "rx_entries_rv (rr_nic s)"
  have e: "rx_entries_rv ?n = ?es" "rx_posted_rv f ?n = rx_posted_rv f (rr_nic s)" and ok: "rx_ok_rv E A b ?n" for f
    using inv by (simp_all add: rrx_inv_def rx_entries_rv_def rx_posted_rv_def rx_ok_rv_def rxq_rv_def vring_ok_def)
  have eok: "\<forall>e \<in> set ?es. entry_ok_rv A e" using inv by (simp add: rrx_inv_def)
  have room: "unat (avail_index (rn_rx ?n) - rr_seen s) + length ?es \<le> 16"
    using rrx_counts [OF inv] by (simp add: rx_posted_rv_def)
  obtain nic t L R where r: "rx_loop_rv E A dma ?n (rr_trace s) = Some (nic, t)" "rx_ok_rv E A b nic" "rx_entries_rv nic = []"
      "avail_flag (rn_rx nic) = 0" "\<forall>k \<in> (\<lambda>e. unat (ue_id e)) ` set ?es. frame_in E A b nic k"
      "\<forall>k. frame_in E A b ?n k \<longrightarrow> frame_in E A b nic k" "mset L + mset R = mset ?es"
      "accepted E t = accepted E (rr_trace s) @ map ue_id L"
      "rx_posted_rv (rr_seen s) nic = rx_posted_rv (rr_seen s) ?n @ map (\<lambda>e. ucast (ue_id e)) R"
    using rx_loop_rv_spec [OF dma as e(1) ok eok room, of "rr_trace s"] by blast
  let ?s = "s\<lparr>rr_nic := nic, rr_trace := t, rr_lent := rr_lent s @ map ucast (drop (length (accepted E (rr_trace s))) (accepted E t))\<rparr>"
  have new: "rr_lent ?s = rr_lent s @ map (\<lambda>e. ucast (ue_id e)) L" using r(8) by simp
  have split: "mset (map (\<lambda>e. ucast (ue_id e)) L) + mset (map (\<lambda>e. ucast (ue_id e)) R) = mset (rx_done_rv (rr_nic s))"
    unfolding rx_done_rv_def mset_map r(7) [symmetric] image_mset_union ..
  have "frame_in E A b nic (unat k)" if "k \<in> set (rr_lent ?s)" for k
  proof (cases "k \<in> set (rr_lent s)")
    case True
    then have "frame_in E A b (rr_nic s) (unat k)" using inv by (simp add: rrx_inv_def)
    then have "frame_in E A b ?n (unat k)" by (simp add: frame_in_def)
    with r(6) show ?thesis by blast
  next
    case False
    then have "k \<in> set (map (\<lambda>e. ucast (ue_id e)) L)" using that unfolding new by simp
    then obtain x where x: "x \<in> set L" "k = ucast (ue_id x)" by auto
    have "x \<in># mset ?es" using r(7) x(1) by (metis set_mset_mset union_iff)
    then have x2: "x \<in> set ?es" by simp
    then have "unat (ue_id x) < 16" using eok by (simp add: entry_ok_rv_def)
    then have "unat k = unat (ue_id x)" by (simp add: x(2) unsigned_ucast_eq take_bit_nat_eq_self)
    then show ?thesis using r(5) x2 by auto
  qed
  moreover have "mset (rx_posted_rv (rr_seen ?s) nic) + mset (rr_taken ?s) + mset (rx_done_rv nic) + mset (rr_lent ?s) = mset rx_ids"
  proof -
    have "mset (rx_posted_rv (rr_seen s) nic) = mset (rx_posted_rv (rr_seen s) (rr_nic s)) + mset (map (\<lambda>e. ucast (ue_id e)) R)"
      unfolding r(9) e(2) mset_append ..
    moreover have "mset (rr_lent ?s) = mset (rr_lent s) + mset (map (\<lambda>e. ucast (ue_id e)) L)" unfolding new mset_append ..
    moreover have "rx_done_rv nic = []" by (simp add: rx_done_rv_def r(3))
    moreover have "mset (rx_posted_rv (rr_seen s) (rr_nic s)) + mset (rr_taken s) + mset (rx_done_rv (rr_nic s)) + mset (rr_lent s) = mset rx_ids"
      using inv by (simp only: rrx_inv_def)
    ultimately show ?thesis unfolding split [symmetric] by (simp add: ac_simps del: mset_map)
  qed
  ultimately have "rrx_inv E A b ?s" using r(2,3) unfolding rrx_inv_def by simp
  then show ?thesis using r(1,3,4) unfolding VirtnetRxHandle_rv_def by blast
qed

lemma rrx_free_inv:
  assumes inv: "rrx_inv E A b s" and k: "rr_lent s = xs @ k # ys"
  shows "\<exists>nic t. ReleaseRxEntry (rr_nic s) (unat k) (rr_trace s) = Some (nic, t) \<and>
    rrx_inv E A b (s\<lparr>rr_nic := nic, rr_trace := t, rr_lent := xs @ ys\<rparr>)"
proof -
  have ok: "rx_ok_rv E A b (rr_nic s)" using inv by (simp add: rrx_inv_def)
  have b: "unat k < 16" using rrx_members [OF inv, of k] k by simp
  have room: "unat (avail_index (rn_rx (rr_nic s)) - rr_seen s) < 16"
    using rrx_counts [OF inv] k by (simp add: rx_posted_rv_def)
  obtain nic t where r: "ReleaseRxEntry (rr_nic s) (unat k) (rr_trace s) = Some (nic, t)" "rx_ok_rv E A b nic"
    "rx_posted_rv (rr_seen s) nic = rx_posted_rv (rr_seen s) (rr_nic s) @ [of_nat (unat k)]"
    "rx_entries_rv nic = rx_entries_rv (rr_nic s)" "rbufs nic = rbufs (rr_nic s)"
    using ReleaseRxEntry_spec [OF ok b room, of "rr_trace s"] by blast
  have "frame_in E A b nic j = frame_in E A b (rr_nic s) j" for j by (simp add: frame_in_def r(5))
  then have "rrx_inv E A b (s\<lparr>rr_nic := nic, rr_trace := t, rr_lent := xs @ ys\<rparr>)"
    using inv k r(2-4) by (simp add: rrx_inv_def rx_done_rv_def ac_simps)
  then show ?thesis using r(1) by blast
qed

definition rx_ready :: "env \<Rightarrow> rvnet_abi \<Rightarrow> u32 \<Rightarrow> VirtNetif_rv \<Rightarrow> bool" where
  "rx_ready E A b nic \<longleftrightarrow> rx_ok_rv E A b nic \<and> avail_ring (rn_rx nic) = rx_ids \<and> avail_index (rn_rx nic) = 16 \<and>
     used_index (rn_rx nic) = 0 \<and> q_last (rxq_rv nic) = 0"

inductive rrx_reachable :: "env \<Rightarrow> rvnet_abi \<Rightarrow> u32 \<Rightarrow> rrx_sys \<Rightarrow> bool" for E A b where
  rr_start: "rx_ready E A b nic \<Longrightarrow> rrx_reachable E A b \<lparr>rr_nic = nic, rr_seen = 0, rr_taken = [], rr_lent = [], rr_trace = t\<rparr>"
| rr_next: "\<lbrakk> rrx_reachable E A b s; rrx_step E A s s' \<rbrakk> \<Longrightarrow> rrx_reachable E A b s'"

lemma rrx_reachable_inv:
  assumes "LOS_ASSERT E True"
  shows "rrx_reachable E A b s \<Longrightarrow> rrx_inv E A b s"
proof (induction rule: rrx_reachable.induct)
  case (rr_start nic t)
  have "ring_view rx_ids 16 0 16 = rx_ids" by code_simp
  then show ?case using rr_start by (simp add: rx_ready_def rrx_inv_def rx_posted_rv_def rx_done_rv_def rx_entries_rv_def)
next
  case (rr_next s s')
  note inv = rr_next.IH
  from rr_next.hyps(2) show ?case
  proof cases
    case rr_take
    then show ?thesis using rrx_take_inv [OF inv] by blast
  next
    case (rr_complete xs h ys r n)
    then show ?thesis using rrx_complete_inv [OF inv] by blast
  next
    case (rr_irq dma nic t)
    then show ?thesis using rrx_irq_inv [OF inv rr_irq(2) assms] by auto
  next
    case (rr_free xs k ys nic t)
    then show ?thesis using rrx_free_inv [OF inv rr_free(2)] by auto
  qed
qed


subsection \<open>Initialisation\<close>

definition rx_slot :: "env \<Rightarrow> rvnet_abi \<Rightarrow> u32 \<Rightarrow> u32 \<Rightarrow> VirtqDesc \<Rightarrow> u16 \<Rightarrow> RbufRecord \<Rightarrow> nat \<Rightarrow> bool" where
  "rx_slot E A b a d h rb k \<longleftrightarrow> pAddr d = u32_to_u64 (b + of_nat k * VIRTQ_RXBUF_SIZE E A) \<and>
     d_len d = SIZEOF_VirtnetHdr_rv + ucast (ETH_FRAME_LEN_rv A) \<and> d_flag d = VIRTQ_DESC_F_WRITE \<and> h = of_nat k \<and>
     rb_nic rb = a \<and> rb_id rb = of_nat k"

lemma config_rx_loop_spec:
  "i + n \<le> length (descs (rn_rx nic)) \<Longrightarrow> i + n \<le> length (avail_ring (rn_rx nic)) \<Longrightarrow> i + n \<le> length (rbufs nic) \<Longrightarrow>
   p = b + of_nat i * VIRTQ_RXBUF_SIZE E A \<Longrightarrow>
   (\<forall>k < i. rx_slot E A b (rn_addr nic) (descs (rn_rx nic) ! k) (avail_ring (rn_rx nic) ! k) (rbufs nic ! k) k) \<Longrightarrow>
   \<exists>ds ring rb. config_rx_loop E A i n p nic = Some (nic\<lparr>rn_rx := (rn_rx nic)\<lparr>descs := ds, avail_ring := ring\<rparr>, rbufs := rb\<rparr>) \<and>
     length ds = length (descs (rn_rx nic)) \<and> length ring = length (avail_ring (rn_rx nic)) \<and> length rb = length (rbufs nic) \<and>
     (\<forall>k < i + n. rx_slot E A b (rn_addr nic) (ds ! k) (ring ! k) (rb ! k) k)"
proof (induction n arbitrary: i p nic)
  case 0
  then show ?case
    by (intro exI [of _ "descs (rn_rx nic)"] exI [of _ "avail_ring (rn_rx nic)"] exI [of _ "rbufs nic"]) simp
next
  case (Suc n)
  let ?r = "rn_rx nic"
  let ?ds = "(descs ?r)[i := (descs ?r ! i)\<lparr>pAddr := u32_to_u64 p, d_len := SIZEOF_VirtnetHdr_rv + ucast (ETH_FRAME_LEN_rv A),
      d_flag := VIRTQ_DESC_F_WRITE\<rparr>]"
  let ?ring = "(avail_ring ?r)[i := of_nat i]" and ?rb = "(rbufs nic)[i := (rbufs nic ! i)\<lparr>rb_nic := rn_addr nic, rb_id := of_nat i\<rparr>]"
  let ?n = "nic\<lparr>rn_rx := ?r\<lparr>descs := ?ds, avail_ring := ?ring\<rparr>, rbufs := ?rb\<rparr>"
  have b: "i < length (descs ?r)" "i < length (avail_ring ?r)" "i < length (rbufs nic)" using Suc.prems by simp_all
  have step: "config_rx_loop E A i (Suc n) p nic = config_rx_loop E A (i + 1) n (p + VIRTQ_RXBUF_SIZE E A) ?n"
    using b by (simp add: desc_upd_in)
  have old: "\<forall>k < i. rx_slot E A b (rn_addr ?n) (descs (rn_rx ?n) ! k) (avail_ring (rn_rx ?n) ! k) (rbufs ?n ! k) k"
    using Suc.prems(5) by simp
  have new: "rx_slot E A b (rn_addr ?n) (descs (rn_rx ?n) ! i) (avail_ring (rn_rx ?n) ! i) (rbufs ?n ! i) i"
    using b Suc.prems(4) by (simp add: rx_slot_def)
  have "\<forall>k < i + 1. rx_slot E A b (rn_addr ?n) (descs (rn_rx ?n) ! k) (avail_ring (rn_rx ?n) ! k) (rbufs ?n ! k) k"
    using old new less_Suc_eq by auto
  moreover have "p + VIRTQ_RXBUF_SIZE E A = b + of_nat (i + 1) * VIRTQ_RXBUF_SIZE E A"
    using Suc.prems(4) by (simp add: algebra_simps)
  ultimately obtain ds ring rb where "config_rx_loop E A (i + 1) n (p + VIRTQ_RXBUF_SIZE E A) ?n =
      Some (?n\<lparr>rn_rx := (rn_rx ?n)\<lparr>descs := ds, avail_ring := ring\<rparr>, rbufs := rb\<rparr>)"
     "length ds = length (descs (rn_rx ?n))" "length ring = length (avail_ring (rn_rx ?n))" "length rb = length (rbufs ?n)"
     "\<forall>k < i + 1 + n. rx_slot E A b (rn_addr ?n) (ds ! k) (ring ! k) (rb ! k) k"
    using Suc.IH [of "i + 1" ?n "p + VIRTQ_RXBUF_SIZE E A"] Suc.prems(1-3) by auto
  then show ?case
    unfolding step by (intro exI [of _ ds] exI [of _ ring] exI [of _ rb]) simp
qed

lemma ConfigRxBuffer_inv:
  assumes c: "ConfigRxBuffer E A nic b t = Some (ERR_OK, nic', t')"
    and n: "qsz (rxq_rv nic) = 16" "length (vq (rn_dev nic)) = 2" "rn_rx nic = zero_vring 16"
  shows "rx_ok_rv E A b nic' \<and> avail_ring (rn_rx nic') = rx_ids \<and> avail_index (rn_rx nic') = 0 \<and> used_index (rn_rx nic') = 0 \<and>
    rn_dev nic' = rn_dev nic \<and> rn_tx nic' = rn_tx nic \<and> rn_addr nic' = rn_addr nic \<and> rbuf_ptr nic' \<noteq> 0 \<and> kcalls t' = Call c_calloc [16, SIZEOF_RbufRecord A] # kcalls t"
proof -
  let ?p = "sys_ret E t c_calloc [16, SIZEOF_RbufRecord A]"
  let ?n = "nic\<lparr>rbuf_ptr := ?p, rbufs := replicate 16 \<lparr>rb_payload = 0, rb_len = 0, rb_nic = 0, rb_id = 0\<rparr>\<rparr>"
  have p: "?p \<noteq> 0" using c n(1) by (auto simp: ConfigRxBuffer_def kcall_def Let_def split: if_splits)
  have lens: "length (descs (rn_rx ?n)) = 16" "length (avail_ring (rn_rx ?n)) = 16" "length (rbufs ?n) = 16"
    using n(3) by (simp_all add: zero_vring_def)
  obtain ds ring rb where l: "config_rx_loop E A 0 16 b ?n = Some (?n\<lparr>rn_rx := (rn_rx ?n)\<lparr>descs := ds, avail_ring := ring\<rparr>, rbufs := rb\<rparr>)"
     "length ds = 16" "length ring = 16" "length rb = 16"
     "\<forall>k < 16. rx_slot E A b (rn_addr ?n) (ds ! k) (ring ! k) (rb ! k) k"
    using config_rx_loop_spec [of 0 16 ?n b b E A] lens by auto
  have q: "rxq_rv (nic\<lparr>rbuf_ptr := x, rbufs := y\<rparr>) = rxq_rv nic" for x y by (simp add: rxq_rv_def)
  have r: "nic' = ?n\<lparr>rn_rx := (rn_rx ?n)\<lparr>descs := ds, avail_ring := ring\<rparr>, rbufs := rb\<rparr>" "t' = Call c_calloc [16, SIZEOF_RbufRecord A] # t"
    using c l(1) p n(1) by (simp_all add: ConfigRxBuffer_def kcall_def Let_def)
  have "ring = rx_ids" using l(3,5) by (intro nth_equalityI) (simp_all add: rx_ids_def rx_slot_def)
  moreover have "rx_ok_rv E A b nic'"
    using l(2,3,4,5) n unfolding r(1) by (simp add: rx_ok_rv_def rxq_rv_def vring_ok_def rx_slot_def zero_vring_def)
  ultimately show ?thesis using n p unfolding r by (simp add: zero_vring_def)
qed

text \<open>The first queue's descriptor table lies at the aligned base, whether or not the device accepts the queues.\<close>

lemma config_desc:
  assumes "VirtmmioConfigQueue_rv E dev va [n0, n1] 2 t = Some (va', dev', t')" and "length (vq dev) = 2"
  shows "q_desc (vq dev' ! 0) = ALIGN E va 16"
  using assms unfolding VirtmmioConfigQueue_rv_eq
  by (auto simp: VirtmmioConfigQueue_def CalculateQueueAddr_def Let_def numeral_2_eq_2 nth_list_update
      split: Option.bind_splits if_splits)

definition rx_aligned :: "rvnet_abi \<Rightarrow> u32 \<Rightarrow> bool" where
  "rx_aligned A b \<longleftrightarrow> (b + SIZEOF_VirtnetHdr_rv - ucast (ETH_PAD_SIZE A)) mod VIRTQ_RXBUF_ALIGN = 0"

lemma pad_aligned:
  fixes x :: u32
  assumes "m = (if x mod 4 \<noteq> 0 then 4 - x mod 4 else x mod 4)"
  shows "(x + m) mod 4 = 0"
proof -
  have e: "(x + (4 - x mod 4)) = 4 * (x div 4) + 4"
    using word_mod_div_equality [of x 4] by (simp add: algebra_simps)
  have "(4 * (x div 4) + 4) mod (4 :: u32) = 0"
  proof -
    have "(4 :: u32) dvd 4 * (x div 4) + 4" by simp
    then have "take_bit 2 (4 * (x div 4) + 4) = 0" by (simp add: take_bit_eq_0_iff)
    then show ?thesis by (simp add: take_bit_eq_mod)
  qed
  then show ?thesis
  proof (cases "x mod 4 = 0")
    case False
    then have "x + m = 4 * (x div 4) + 4" using assms unfolding e [symmetric] by simp
    then show ?thesis using \<open>(4 * (x div 4) + 4) mod 4 = 0\<close> by (simp only:)
  qed (use assms in simp)
qed

lemma ConfigQueue_rv_success:
  assumes c: "ConfigQueue_rv E A nic t = Some (ERR_OK, nic', t')"
    and dev: "length (vq (rn_dev nic)) = 2" "q_last (vq (rn_dev nic) ! 0) = 0" "q_last (vq (rn_dev nic) ! 1) = 0"
  shows "\<exists>b. rx_ok_rv E A b nic' \<and> rx_aligned A b \<and> avail_ring (rn_rx nic') = rx_ids \<and> avail_index (rn_rx nic') = 0 \<and> used_index (rn_rx nic') = 0 \<and>
    q_last (rxq_rv nic') = 0 \<and> tx_ok_rv nic' all_ids {#} \<and> avail_index (rn_tx nic') = 0 \<and> used_index (rn_tx nic') = 0 \<and>
    q_last (txq_rv nic') = 0 \<and> rn_tFreeNum nic' = 32"
proof -
  let ?n = "nic\<lparr>rn_rx := zero_vring 16, rn_tx := zero_vring 32\<rparr>"
  from c obtain base0 t0 buf dev' t1 pad n1 t2 where q: "VirtmmioConfigQueue_rv E (rn_dev nic) base0 [16, 32] 2 t0 = Some (buf, dev', t1)" "buf \<noteq> 0"
    and pad: "pad = (if (buf + 12 - ucast (ETH_PAD_SIZE A)) mod 4 \<noteq> 0 then 4 - (buf + 12 - ucast (ETH_PAD_SIZE A)) mod 4
      else (buf + 12 - ucast (ETH_PAD_SIZE A)) mod 4)"
    and rx: "ConfigRxBuffer E A (?n\<lparr>rn_dev := dev'\<rparr>) (buf + pad) t1 = Some (ERR_OK, n1, t2)"
    and tx: "InitTxFreelist_rv E A n1 t2 = Some (ERR_OK, nic', t')"
    by (simp add: ConfigQueue_rv_def Let_def kcall_def split: Option.bind_splits if_splits prod.splits)
  note cq = config_two_queues [OF q(1) [unfolded VirtmmioConfigQueue_rv_eq] q(2) dev(1)]
  have l: "length (vq dev') = 2" using VirtmmioConfigQueue_rv_step [OF q(1) dev(1)] by simp
  have r: "rx_ok_rv E A (buf + pad) n1" "avail_ring (rn_rx n1) = rx_ids" "avail_index (rn_rx n1) = 0" "used_index (rn_rx n1) = 0"
    "rn_dev n1 = dev'" "rn_tx n1 = zero_vring 32" "rn_addr n1 = rn_addr nic"
    using ConfigRxBuffer_inv [OF rx] cq l by (simp_all add: rxq_rv_def)
  have fresh: "tx_fresh_rv n1" using r l cq dev(3) by (simp add: tx_fresh_rv_def txq_rv_def)
  have p: "sys_ret E t2 c_malloc [SIZEOF_TbufRecord A * ucast (qsz (txq_rv n1))] \<noteq> 0"
    using tx by (auto simp: InitTxFreelist_rv_def kcall_def Let_def split: if_splits)
  have x: "tx_ok_rv nic' all_ids {#}" "rn_dev nic' = rn_dev n1" "rn_tFreeNum nic' = 32" "avail_index (rn_tx nic') = 0" "used_index (rn_tx nic') = 0"
    using InitTxFreelist_rv_inv [OF fresh p] tx by auto
  have keep: "rn_rx nic' = rn_rx n1" "rbufs nic' = rbufs n1" "rn_addr nic' = rn_addr n1"
    using tx by (auto simp: InitTxFreelist_rv_def kcall_def Let_def split: if_splits Option.bind_splits)
  have "rx_ok_rv E A (buf + pad) nic'" using r(1) keep x(2) by (simp add: rx_ok_rv_def rxq_rv_def)
  moreover have "rx_aligned A (buf + pad)"
    using pad_aligned [OF pad] by (simp add: rx_aligned_def algebra_simps)
  moreover have "q_last (rxq_rv nic') = 0" "q_last (txq_rv nic') = 0"
    using x(2) r(5) cq(3,4) dev(2,3) by (simp_all add: rxq_rv_def txq_rv_def)
  ultimately show ?thesis using r keep x by (intro exI [of _ "buf + pad"]) simp
qed

text \<open>Discovery leaves the queues of the struct alone, and the callbacks the pointer to it.\<close>

lemma Feature0_rv_keeps: "Feature0_rv E A config F p nf t = (ok, sp, nf') \<Longrightarrow> nf_state nf' = nf_state nf \<and> nf_addr nf' = nf_addr nf"
  by (auto simp: Feature0_rv_def Let_def split: if_splits prod.splits)

lemma rvnet_negotiate_step:
  assumes "VirtmmioNegotiate_rv E dev (Feature0_rv E A config) Feature1_rv nf t = Some (ok, nf', t')"
  shows "nf_state nf' = nf_state nf \<and> nf_addr nf' = nf_addr nf \<and> kcalls t' = kcalls t"
proof -
  note n = assms [unfolded VirtmmioNegotiate_rv]
  have "nf_state nf' = nf_state nf \<and> nf_addr nf' = nf_addr nf"
    by (rule VirtmmioNegotiate_keeps [OF n, where Q = "\<lambda>x. nf_state x = nf_state nf \<and> nf_addr x = nf_addr nf"])
      (auto dest: Feature0_rv_keeps simp: Feature1_rv_def split: if_splits)
  then show ?thesis using VirtmmioNegotiate_calls [OF n] by blast
qed

lemma zero_VirtNetif_rv_simps [simp]:
  "rn_addr (zero_VirtNetif_rv a) = a" "length (vq (rn_dev (zero_VirtNetif_rv a))) = 2" "rbuf_ptr (zero_VirtNetif_rv a) = 0"
  "tbuf_ptr (zero_VirtNetif_rv a) = 0" "q_desc (vq (rn_dev (zero_VirtNetif_rv a)) ! 0) = 0"
  "q_last (vq (rn_dev (zero_VirtNetif_rv a)) ! 0) = 0" "q_last (vq (rn_dev (zero_VirtNetif_rv a)) ! Suc 0) = 0"
  by (simp_all add: zero_VirtNetif_rv_def)

lemma EthernetIfInit_success:
  assumes "EthernetIfInit E R A config nf t = Some (ERR_OK, nf', t')"
  shows "\<exists>nic b. nf_state nf' = Some nic \<and> rx_ready E A b nic \<and> rx_aligned A b \<and>
    tx_ok_rv nic all_ids {#} \<and> rn_tFreeNum nic = 32 \<and> avail_index (rn_tx nic) = 0 \<and> done_heads_rv nic = []"
proof -
  define p where "p = sys_ret E t mem_calloc [1, SIZEOF_VirtNetif_rv A]"
  let ?z = "zero_VirtNetif_rv p" and ?t = "Call mem_calloc [1, SIZEOF_VirtNetif_rv A] # t"
  have l: "LowLevelInit_rv E R A config (nf\<lparr>nf_state := Some ?z, nf_ready := True\<rparr>) ?z ?t = Some (ERR_OK, nf', t')"
    using assms by (simp add: EthernetIfInit_def kcall_def Let_def p_def split: if_splits)
  obtain found dev t1 where d: "VirtmmioDiscover_rv E R VIRTMMIO_DEVICE_ID_NET (rn_dev ?z) ?t = (found, dev, t1)"
    by (cases "VirtmmioDiscover_rv E R VIRTMMIO_DEVICE_ID_NET (rn_dev ?z) ?t")
  have vq: "vq dev = vq (rn_dev ?z)" using VirtmmioDiscover_rv_step [OF d] by simp
  obtain t2 nic1 t3 where c: "ConfigQueue_rv E A (?z\<lparr>rn_dev := dev\<rparr>) t2 = Some (ERR_OK, nic1, t3)"
    and n: "nf_state nf' = Some (nic1\<lparr>rn_rx := avail_add (qsz (rxq_rv nic1)) (rn_rx nic1)\<rparr>)"
    using l d by (auto simp: LowLevelInit_rv_def Let_def split: Option.bind_splits if_splits)
  obtain b where b: "rx_ok_rv E A b nic1" "rx_aligned A b" "avail_ring (rn_rx nic1) = rx_ids" "avail_index (rn_rx nic1) = 0"
    "used_index (rn_rx nic1) = 0" "q_last (rxq_rv nic1) = 0" "tx_ok_rv nic1 all_ids {#}" "avail_index (rn_tx nic1) = 0"
    "used_index (rn_tx nic1) = 0" "q_last (txq_rv nic1) = 0" "rn_tFreeNum nic1 = 32"
    using ConfigQueue_rv_success [OF c] vq by auto
  let ?n = "nic1\<lparr>rn_rx := avail_add (qsz (rxq_rv nic1)) (rn_rx nic1)\<rparr>"
  have q: "qsz (rxq_rv nic1) = 16" using b(1) by (simp add: rx_ok_rv_def)
  have "rx_ready E A b ?n" using b q by (simp add: rx_ready_def rx_ok_rv_def rxq_rv_def avail_add_def vring_ok_def)
  moreover have "tx_ok_rv ?n all_ids {#}" using b(7) by (simp add: tx_ok_rv_def txq_rv_def)
  moreover have "done_heads_rv ?n = []" using b(9,10) by (simp add: done_heads_rv_def txq_rv_def)
  ultimately show ?thesis using b(2,8,11) n by (intro exI [of _ ?n] exI [of _ b]) simp
qed

subsection \<open>The memory of the driver\<close>

text \<open>The blocks alive after a history, with the allocator each came from (true for lwip's).\<close>

primrec heap :: "env \<Rightarrow> trace \<Rightarrow> (bool \<times> u32) multiset" where
  "heap E [] = {#}"
| "heap E (ev # t) = (case ev of Call f xs \<Rightarrow>
     if f = c_malloc \<or> f = c_calloc \<or> f = mem_calloc then
       (if sys_ret E t f xs = 0 then heap E t else add_mset (f = mem_calloc, sys_ret E t f xs) (heap E t))
     else if f = c_free \<or> f = mem_free then heap E t - {#(f = mem_free, hd xs)#} else heap E t
   | _ \<Rightarrow> heap E t)"

text \<open>The kernel and the libraries answer by the calls made so far.\<close>

definition call_driven :: "env \<Rightarrow> bool" where
  "call_driven E \<longleftrightarrow> (\<forall>t f xs. sys_ret E t f xs = sys_ret E (kcalls t) f xs)"

lemma kcalls_kcalls [simp]: "kcalls (kcalls t) = kcalls t"
  by (induction t rule: kcalls.induct) simp_all

lemma heap_kcalls:
  assumes "call_driven E" and "kcalls t' = kcalls t"
  shows "heap E t' = heap E t"
proof -
  have s: "sys_ret E u f xs = sys_ret E (kcalls u) f xs" for u f xs using assms(1) by (simp add: call_driven_def)
  have "heap E u = heap E (kcalls u)" for u
  proof (induction u rule: kcalls.induct)
    case (2 f xs t)
    have "sys_ret E t f xs = sys_ret E (kcalls t) f xs" by (rule s)
    with 2 show ?case by (simp only: kcalls.simps heap.simps event.case)
  qed simp_all
  from this [of t'] this [of t] assms(2) show ?thesis by simp
qed

definition blk :: "u32 \<Rightarrow> (bool \<times> u32) multiset" where
  "blk p = (if p = 0 then {#} else {#(False, p)#})"

definition blks :: "VirtNetif_rv \<Rightarrow> (bool \<times> u32) multiset" where
  "blks nic = blk (rbuf_ptr nic) + blk (tbuf_ptr nic) + blk (q_desc (rxq_rv nic))"

lemma ConfigQueue_rv_heap:
  assumes c: "ConfigQueue_rv E A nic t = Some (ret, nic', t')" and E: "call_driven E"
    and al: "\<And>u xs. ALIGN E (sys_ret E u c_calloc xs) 16 = sys_ret E u c_calloc xs"
    and z: "length (vq (rn_dev nic)) = 2" "rbuf_ptr nic = 0" "tbuf_ptr nic = 0" "q_desc (rxq_rv nic) = 0"
  shows "heap E t' = heap E t + blks nic' \<and> rn_addr nic' = rn_addr nic"
proof -
  define size0 where "size0 = VirtqSize_rv E 16 + VirtqSize_rv E 32 + VIRTQ_RXBUF_ALIGN - 1 + 16 * VIRTQ_RXBUF_SIZE E A"
  define b where "b = sys_ret E t c_calloc [1, size0]"
  let ?t = "Call c_calloc [1, size0] # t" and ?n = "nic\<lparr>rn_rx := zero_vring 16, rn_tx := zero_vring 32\<rparr>"
  show ?thesis
  proof (cases "b = 0")
    case True
    then show ?thesis using c z by (auto simp: ConfigQueue_rv_def kcall_def Let_def b_def size0_def blks_def blk_def)
  next
    case False
    then obtain buf dev t1 where q: "VirtmmioConfigQueue_rv E (rn_dev nic) b [16, 32] 2 ?t = Some (buf, dev, t1)"
      using c by (auto simp: ConfigQueue_rv_def kcall_def Let_def b_def size0_def split: Option.bind_splits)
    have dsc: "q_desc (vq dev ! 0) = b" using config_desc [OF q z(1)] al by (simp add: b_def)
    have st: "kcalls t1 = kcalls ?t" "length (vq dev) = 2" using VirtmmioConfigQueue_rv_step [OF q z(1)] by simp_all
    have h1: "heap E t1 = add_mset (False, b) (heap E t)"
      using heap_kcalls [OF E st(1)] False by (simp add: b_def [symmetric])
    have d: "q_desc (rxq_rv n) = b" if "rn_dev n = dev" for n using that dsc by (simp add: rxq_rv_def)
    show ?thesis
    proof (cases "buf = 0")
      case True
      then have "nic' = ?n\<lparr>rn_dev := dev\<rparr>" "t' = t1"
        using c q False by (simp_all add: ConfigQueue_rv_def kcall_def Let_def b_def size0_def)
      then show ?thesis using h1 z False d [of nic'] by (simp add: blks_def blk_def)
    next
      case buf: False
      define pad where "pad = (if (buf + 12 - ucast (ETH_PAD_SIZE A)) mod 4 \<noteq> 0 then 4 - (buf + 12 - ucast (ETH_PAD_SIZE A)) mod 4
        else (buf + 12 - ucast (ETH_PAD_SIZE A)) mod 4)"
      have c2: "Option.bind (ConfigRxBuffer E A (?n\<lparr>rn_dev := dev\<rparr>) (buf + pad) t1) (\<lambda>(ret, nic, t).
          if ret \<noteq> ERR_OK then Some (ret, nic, t) else InitTxFreelist_rv E A nic t) = Some (ret, nic', t')"
        using c q False buf by (simp add: ConfigQueue_rv_def kcall_def Let_def b_def size0_def pad_def)
      obtain ret1 n1 t2 where r: "ConfigRxBuffer E A (?n\<lparr>rn_dev := dev\<rparr>) (buf + pad) t1 = Some (ret1, n1, t2)"
        using c2 by (auto split: Option.bind_splits)
      have lp: "config_rx_loop E A i k pd n = Some n' \<Longrightarrow> rn_dev n' = rn_dev n \<and> rn_addr n' = rn_addr n \<and> rbuf_ptr n' = rbuf_ptr n \<and> tbuf_ptr n' = tbuf_ptr n"
        for i k pd n n' by (induction k arbitrary: i pd n) (auto simp: Let_def split: Option.bind_splits)
      have h2: "heap E t2 = heap E t1 + blk (rbuf_ptr n1)" "rn_dev n1 = dev" "rn_addr n1 = rn_addr nic" "tbuf_ptr n1 = 0" "ret1 = ERR_OK \<or> rbuf_ptr n1 = 0"
        using r z(3) by (auto simp: ConfigRxBuffer_def kcall_def Let_def blk_def split: if_splits Option.bind_splits dest!: lp)
      show ?thesis
      proof (cases "ret1 = ERR_OK")
        case True
        then have "InitTxFreelist_rv E A n1 t2 = Some (ret, nic', t')" using c2 r by simp
        then have "heap E t' = heap E t2 + blk (tbuf_ptr nic')" "rn_dev nic' = dev" "rn_addr nic' = rn_addr nic" "rbuf_ptr nic' = rbuf_ptr n1"
          using h2 by (auto simp: InitTxFreelist_rv_def kcall_def Let_def blk_def split: if_splits Option.bind_splits)
        then show ?thesis using h1 h2 False d [of nic'] by (simp add: blks_def blk_def)
      next
        case fail: False
        then have "nic' = n1" "t' = t2" using c2 r by simp_all
        then show ?thesis using h1 h2 False fail d [of nic'] by (simp add: blks_def blk_def)
      qed
    qed
  qed
qed


text \<open>After a failed \<open>EthernetIfInit\<close>: the struct, its blocks, and possibly the parameter block of an interrupt.\<close>

definition irq_refused :: "env \<Rightarrow> (bool \<times> u32) multiset \<Rightarrow> bool" where
  "irq_refused E M \<longleftrightarrow> M = {#} \<or> (\<exists>p u i. M = {#(True, p)#} \<and> p \<noteq> 0 \<and> sys_ret E u LOS_HwiCreate [i, p] \<noteq> 0)"

lemma EthernetIfInit_heap:
  assumes i: "EthernetIfInit E R A config nf t = Some (ret, nf', t')" and fail: "ret \<noteq> ERR_OK" and E: "call_driven E"
    and al: "\<And>u xs. ALIGN E (sys_ret E u c_calloc xs) 16 = sys_ret E u c_calloc xs" and z: "nf_state nf = None"
  shows "nf_addr nf' = nf_addr nf \<and> (\<exists>M. irq_refused E M \<and> (case nf_state nf' of None \<Rightarrow> heap E t' = heap E t + M
      | Some nic \<Rightarrow> rn_addr nic \<noteq> 0 \<and> heap E t' = heap E t + M + {#(True, rn_addr nic)#} + blks nic))"
proof -
  define p where "p = sys_ret E t mem_calloc [1, SIZEOF_VirtNetif_rv A]"
  let ?z = "zero_VirtNetif_rv p" and ?t = "Call mem_calloc [1, SIZEOF_VirtNetif_rv A] # t" and ?nf = "nf\<lparr>nf_state := Some (zero_VirtNetif_rv p), nf_ready := True\<rparr>"
  have zero: "blks (?z\<lparr>rn_dev := d\<rparr>) = {#}" if "vq d = vq (rn_dev ?z)" for d
    using that by (simp add: blks_def blk_def rxq_rv_def)
  have none: "irq_refused E {#}" by (simp add: irq_refused_def)
  show ?thesis
  proof (cases "p = 0")
    case True
    then have "ret = ERR_MEM" "nf' = nf" "t' = ?t" using i by (simp_all add: EthernetIfInit_def kcall_def Let_def p_def)
    then show ?thesis using z True none by (intro conjI exI [of _ "{#}"]) (simp_all add: p_def)
  next
    case p: False
    then have l: "LowLevelInit_rv E R A config ?nf ?z ?t = Some (ret, nf', t')"
      using i by (simp add: EthernetIfInit_def kcall_def Let_def p_def)
    have ht: "heap E ?t = add_mset (True, p) (heap E t)" using p by (simp add: p_def [symmetric])
    obtain found dev t1 where d: "VirtmmioDiscover_rv E R VIRTMMIO_DEVICE_ID_NET (rn_dev ?z) ?t = (found, dev, t1)"
      by (cases "VirtmmioDiscover_rv E R VIRTMMIO_DEVICE_ID_NET (rn_dev ?z) ?t")
    note ds = VirtmmioDiscover_rv_step [OF d]
    have h1: "heap E t1 = add_mset (True, p) (heap E t)" using heap_kcalls [OF E] ds ht by metis
    let ?n = "?z\<lparr>rn_dev := dev\<rparr>"
    show ?thesis
    proof (cases found)
      case False
      then have "nf' = ?nf\<lparr>nf_state := Some ?n\<rparr>" "t' = t1" using l d by (simp_all add: LowLevelInit_rv_def)
      then show ?thesis using h1 p none zero [of dev] ds by (intro conjI exI [of _ "{#}"]) simp_all
    next
      case True
      obtain t2 where b: "VirtmmioInitBegin_rv E dev t1 = Some t2"
        using l d True by (auto simp: LowLevelInit_rv_def Let_def split: Option.bind_splits)
      have k2: "kcalls t2 = kcalls t1" using init_begin_step b unfolding VirtmmioInitBegin_rv .
      obtain ok nf1 t3 where n: "VirtmmioNegotiate_rv E dev (Feature0_rv E A config) Feature1_rv (?nf\<lparr>nf_state := Some ?n\<rparr>) t2 = Some (ok, nf1, t3)"
        using l d True b by (auto simp: LowLevelInit_rv_def Let_def split: Option.bind_splits)
      note ns = rvnet_negotiate_step [OF n]
      have h3: "heap E t3 = add_mset (True, p) (heap E t)" using heap_kcalls [OF E, of t3 t1] k2 ns h1 by simp
      have hf: "heap E (VirtmmioInitFailed_rv E dv u) = heap E u" for dv u by (rule heap_kcalls [OF E]) simp
      show ?thesis
      proof (cases ok)
        case False
        then have "nf' = nf1" "t' = VirtmmioInitFailed_rv E dev t3" using l d True b n by (auto simp: LowLevelInit_rv_def Let_def split: if_splits)
        then show ?thesis using h3 hf p none zero [of dev] ds ns by (intro conjI exI [of _ "{#}"]) simp_all
      next
        case ok: True
        obtain ret1 n1 t4 where c: "ConfigQueue_rv E A ?n t3 = Some (ret1, n1, t4)"
          using l d True b n ok by (auto simp: LowLevelInit_rv_def Let_def split: Option.bind_splits if_splits)
        have h4: "heap E t4 = add_mset (True, p) (heap E t) + blks n1" "rn_addr n1 = p"
          using ConfigQueue_rv_heap [OF c E al] ds h3 by (simp_all add: rxq_rv_def)
        show ?thesis
        proof (cases "ret1 = ERR_OK")
          case False
          then have "nf' = nf1\<lparr>nf_state := Some n1\<rparr>" "t' = VirtmmioInitFailed_rv E (rn_dev n1) t4"
            using l d True b n ok c by (auto simp: LowLevelInit_rv_def Let_def split: if_splits)
          then show ?thesis using h4 hf p none ns by (intro conjI exI [of _ "{#}"]) simp_all
        next
          case ok1: True
          define q where "q = sys_ret E t4 mem_calloc [1, SIZEOF_HwiIrqParam R]"
          let ?t5 = "Call LOS_HwiCreate [irq (rn_dev n1), q] # Call mem_calloc [1, SIZEOF_HwiIrqParam R] # t4"
          let ?r = "sys_ret E (Call mem_calloc [1, SIZEOF_HwiIrqParam R] # t4) LOS_HwiCreate [irq (rn_dev n1), q]"
          have g: "VirtmmioRegisterIRQ_rv E R (rn_dev n1) t4 = (if q = 0 then None else Some (if ?r \<noteq> 0 then (False, ?t5) else (True, kproc HalIrqEnable [irq (rn_dev n1)] ?t5)))"
            by (simp add: VirtmmioRegisterIRQ_rv_def kcall_def Let_def q_def)
          have q: "q \<noteq> 0" "?r \<noteq> 0"
            using l d True b n ok c ok1 g fail by (auto simp: LowLevelInit_rv_def Let_def split: if_splits)
          then have "nf' = nf1\<lparr>nf_state := Some n1\<rparr>" "t' = VirtmmioInitFailed_rv E (rn_dev n1) ?t5"
            using l d True b n ok c ok1 g by (auto simp: LowLevelInit_rv_def Let_def split: if_splits)
          moreover have "heap E ?t5 = add_mset (True, q) (heap E t4)" using q(1) by (simp add: q_def [symmetric])
          moreover have "irq_refused E {#(True, q)#}" using q unfolding irq_refused_def by blast
          ultimately show ?thesis using h4 hf p ns by (intro conjI exI [of _ "{#(True, q)#}"]) simp_all
        qed
      qed
    qed
  qed
qed

text \<open>\<open>netif_add\<close> calls the initialisation and adds the interface when it succeeds.\<close>

definition calls_init :: "netif_adder \<Rightarrow> bool" where
  "calls_init adder \<longleftrightarrow> (\<forall>f nf t. adder f nf t = (case f nf t of None \<Rightarrow> None | Some (r, nf, t) \<Rightarrow> Some (r = ERR_OK, nf, t)))"

lemma heap_blk: "heap E (if p \<noteq> 0 then kproc c_free [p] t else t) = heap E t - blk p"
  by (simp add: blk_def kproc_def)

lemma VirtnetDeInit_rv_heap:
  "heap E (VirtnetDeInit_rv nf t) = (case nf_state nf of None \<Rightarrow> heap E t - {#(True, nf_addr nf)#}
     | Some nic \<Rightarrow> heap E t - blk (rbuf_ptr nic) - blk (tbuf_ptr nic) - blk (q_desc (rxq_rv nic)) - {#(True, rn_addr nic)#} - {#(True, nf_addr nf)#})"
proof (cases "nf_state nf")
  case None
  then show ?thesis by (simp add: VirtnetDeInit_rv_def kproc_def)
next
  case (Some nic)
  have f: "heap E (kproc mem_free [a] u) = heap E u - {#(True, a)#}" for a u by (simp add: kproc_def)
  have d: "heap E (if b then kproc LOS_HwiDelete xs u else u) = heap E u" for b xs u by (simp add: kproc_def)
  show ?thesis unfolding VirtnetDeInit_rv_def Some option.case Let_def f heap_blk d ..
qed


subsection \<open>Properties of the initialisation\<close>

text \<open>A network device in the last slot whose registers do not change; the last argument says what creating the interrupt returns.\<close>

definition rvnet_preset :: "u32 \<Rightarrow> u32" where
  "rvnet_preset a =
     (if a = 0x10008000 then VIRTMMIO_MAGIC
      else if a = 0x10008004 then VIRTMMIO_VERSION
      else if a = 0x10008008 then VIRTMMIO_DEVICE_ID_NET
      else if a = 0x10008010 then 0x21
      else if a = 0x10008034 then 1024
      else if a = 0x10008070 then 15
      else 0)"

definition rvnet_env :: "u32 \<Rightarrow> env" where
  "rvnet_env irq_ret = (example_env rvnet_preset)\<lparr>
     rd_reg := \<lambda>t. rvnet_preset, sys_ret := \<lambda>t f xs. if f = LOS_HwiCreate then irq_ret else 0x1000\<rparr>"

lemma rvnet_env_simps [simp]:
  "rd_reg (rvnet_env r) t a = rvnet_preset a" "ALIGN (rvnet_env r) = align_example" "LOS_ASSERT (rvnet_env r) b = b"
  "sys_ret (rvnet_env r) t f xs = (if f = LOS_HwiCreate then r else 0x1000)"
  by (simp_all add: rvnet_env_def example_env_def)

definition rvnet_consts :: rv_consts where
  "rvnet_consts = \<lparr>RISCV_SYS_MAX_IRQ = 12, SIZEOF_HwiIrqParam = 12, OS_SYS_MEM_ADDR = 0x80000\<rparr>"

definition rvnet_config :: "trace \<Rightarrow> u32 \<Rightarrow> VirtnetConfig" where
  "rvnet_config t a = \<lparr>cf_mac = [2, 0, 0, 0, 0, 1], cf_mtu = 1500\<rparr>"

lemma rvnet_discover:
  "VirtmmioDiscover_rv (rvnet_env r) rvnet_consts VIRTMMIO_DEVICE_ID_NET dev t =
     (True, dev\<lparr>base := 0x10008000, irq := 20\<rparr>, Rd 0x10008008 1 # Rd 0x10008004 2 # Rd 0x10008000 0x74726976 # t)"
  by (simp add: VirtmmioDiscover_rv_def discover_loop_rv.simps(2) [of _ _ _ "pred_numeral n" for n, folded numeral_eq_Suc]
      slot_matches_def io_defs Let_def rvnet_preset_def rvnet_consts_def)

lemma rvnet_begin: "base dev = 0x10008000 \<Longrightarrow> \<exists>t'. VirtmmioInitBegin_rv (rvnet_env r) dev t = Some t'"
  unfolding VirtmmioInitBegin_rv VirtmmioInitBegin_def Let_def
  by (subst wait_driver_now) (simp_all add: driver_seen_def io_defs rvnet_preset_def)

lemma rvnet_negotiate:
  assumes "base dev = 0x10008000" and "nf_halted nf = False"
  shows "\<exists>nf' t'. VirtmmioNegotiate_rv (rvnet_env r) dev (Feature0_rv (rvnet_env r) example_rvnet rvnet_config) Feature1_rv nf t =
    Some (True, nf', t') \<and> nf_halted nf' = False"
  unfolding VirtmmioNegotiate_rv VirtmmioNegotiate_def Negotiate_def using assms
  by (simp add: io_defs Let_def rvnet_preset_def Feature0_rv_def Feature1_rv_def negotiate_loop.simps [of "rvnet_env r" dev])

lemma rvnet_complete:
  assumes "base dev = 0x10008000" "vq dev ! unat i = q" "unat i < length (vq dev)" "(ucast (qsz q) :: u32) \<le> 1024"
  shows "\<exists>t'. CompleteConfigQueue_rv (rvnet_env r) i dev t = Some (True, t')"
  using assms by (simp add: CompleteConfigQueue_rv_def io_defs Let_def rvnet_preset_def not_less)

lemma rvnet_queues:
  assumes "base dev = 0x10008000" and v: "vq dev = [a, b]"
  shows "\<exists>dev' t' va. VirtmmioConfigQueue_rv (rvnet_env r) dev 0x1000 [16, 32] 2 t = Some (va, dev', t') \<and> va \<noteq> 0"
proof -
  obtain a' where c: "CalculateQueueAddr_rv (rvnet_env r) 0x1000 16 a = (0x11A8, a')" "qsz a' = 16"
    by (simp add: CalculateQueueAddr_rv_def align_example_def)
  obtain b' where d: "CalculateQueueAddr_rv (rvnet_env r) 0x11A8 32 b = (0x14F8, b')" "qsz b' = 32"
    by (simp add: CalculateQueueAddr_rv_def align_example_def)
  let ?d1 = "dev\<lparr>vq := [a', b]\<rparr>" and ?d2 = "dev\<lparr>vq := [a', b']\<rparr>"
  obtain t1 where t1: "CompleteConfigQueue_rv (rvnet_env r) 0 ?d1 t = Some (True, t1)"
    using rvnet_complete [of ?d1 0 a' r t] assms(1) c(2) by auto
  obtain t2 where t2: "CompleteConfigQueue_rv (rvnet_env r) 1 ?d2 t1 = Some (True, t2)"
    using rvnet_complete [of ?d2 1 b' r t1] assms(1) d(2) by auto
  show ?thesis using v c(1) d(1) t1 t2 assms(1)
    by (simp add: VirtmmioConfigQueue_rv_def Let_def aget_def aset_def)
qed

lemma ConfigRxBuffer_runs:
  assumes n: "qsz (rxq_rv nic) = 16" "rn_rx nic = zero_vring 16" and p: "sys_ret E t c_calloc [16, SIZEOF_RbufRecord A] \<noteq> 0"
  shows "\<exists>nic' t'. ConfigRxBuffer E A nic b t = Some (ERR_OK, nic', t')"
proof -
  let ?n = "nic\<lparr>rbuf_ptr := sys_ret E t c_calloc [16, SIZEOF_RbufRecord A], rbufs := replicate 16 \<lparr>rb_payload = 0, rb_len = 0, rb_nic = 0, rb_id = 0\<rparr>\<rparr>"
  have "length (descs (rn_rx ?n)) = 16" "length (avail_ring (rn_rx ?n)) = 16" "length (rbufs ?n) = 16"
    using n(2) by (simp_all add: zero_vring_def)
  then obtain n' where "config_rx_loop E A 0 16 b ?n = Some n'"
    using config_rx_loop_spec [of 0 16 ?n b b E A] by auto
  then show ?thesis using n(1) p by (simp add: ConfigRxBuffer_def kcall_def Let_def)
qed

lemma rvnet_config_queue:
  assumes "base (rn_dev nic) = 0x10008000" and "length (vq (rn_dev nic)) = 2" and "q_last (vq (rn_dev nic) ! 1) = 0"
  shows "\<exists>nic' t'. ConfigQueue_rv (rvnet_env r) A nic t = Some (ERR_OK, nic', t')"
proof -
  define size0 where "size0 = VirtqSize_rv (rvnet_env r) 16 + VirtqSize_rv (rvnet_env r) 32 + VIRTQ_RXBUF_ALIGN - 1 + 16 * VIRTQ_RXBUF_SIZE (rvnet_env r) A"
  let ?t = "Call c_calloc [1, size0] # t" and ?n = "nic\<lparr>rn_rx := zero_vring 16, rn_tx := zero_vring 32\<rparr>"
  obtain x y where v: "vq (rn_dev nic) = [x, y]" using assms(2) by (auto simp: length_Suc_conv numeral_2_eq_2)
  obtain dev' t1 va where q: "VirtmmioConfigQueue_rv (rvnet_env r) (rn_dev nic) 0x1000 [16, 32] 2 ?t = Some (va, dev', t1)" "va \<noteq> 0"
    using rvnet_queues [OF assms(1) v] by blast
  note cq = config_two_queues [OF q(1) [unfolded VirtmmioConfigQueue_rv_eq] q(2) assms(2)]
  have l: "length (vq dev') = 2" using VirtmmioConfigQueue_rv_step [OF q(1) assms(2)] by simp
  define pad where "pad = (if (va + 12 - ucast (ETH_PAD_SIZE A)) mod 4 \<noteq> 0 then 4 - (va + 12 - ucast (ETH_PAD_SIZE A)) mod 4
        else (va + 12 - ucast (ETH_PAD_SIZE A)) mod 4)"
  obtain n1 t2 where rx: "ConfigRxBuffer (rvnet_env r) A (?n\<lparr>rn_dev := dev'\<rparr>) (va + pad) t1 = Some (ERR_OK, n1, t2)"
    using ConfigRxBuffer_runs [of "?n\<lparr>rn_dev := dev'\<rparr>" "rvnet_env r" t1 A "va + pad"] cq by (auto simp: rxq_rv_def)
  have "rn_dev n1 = dev'" "rn_tx n1 = zero_vring 32" using ConfigRxBuffer_inv [OF rx] cq l by (simp_all add: rxq_rv_def)
  then have "tx_fresh_rv n1" using l cq assms(3) by (simp add: tx_fresh_rv_def txq_rv_def)
  then obtain nic' t' where "InitTxFreelist_rv (rvnet_env r) A n1 t2 = Some (ERR_OK, nic', t')"
    using InitTxFreelist_rv_inv [of n1 "rvnet_env r" t2 A] by auto
  then show ?thesis using q rx by (simp add: ConfigQueue_rv_def kcall_def Let_def size0_def pad_def)
qed

lemma rvnet_ethif:
  assumes "nf_halted nf = False"
  shows "\<exists>nf' t'. EthernetIfInit (rvnet_env r) rvnet_consts example_rvnet rvnet_config nf t = Some (if r = 0 then ERR_OK else ERR_IF, nf', t')"
proof -
  let ?z = "zero_VirtNetif_rv 0x1000" and ?A = example_rvnet
  let ?n = "?z\<lparr>rn_dev := (rn_dev ?z)\<lparr>base := 0x10008000, irq := 20\<rparr>\<rparr>"
  let ?nf = "nf\<lparr>nf_ready := True, nf_state := Some ?n\<rparr>"
  obtain t1 where b: "VirtmmioInitBegin_rv (rvnet_env r) (rn_dev ?n) (Rd 0x10008008 1 # Rd 0x10008004 2 # Rd 0x10008000 0x74726976 #
      Call mem_calloc [1, SIZEOF_VirtNetif_rv ?A] # t) = Some t1"
    using rvnet_begin [of "rn_dev ?n"] by auto
  obtain nf1 t2 where n: "VirtmmioNegotiate_rv (rvnet_env r) (rn_dev ?n) (Feature0_rv (rvnet_env r) ?A rvnet_config) Feature1_rv ?nf t1 =
      Some (True, nf1, t2)" "nf_halted nf1 = False"
    using rvnet_negotiate [of "rn_dev ?n" ?nf r t1] assms by auto
  obtain n1 t3 where c: "ConfigQueue_rv (rvnet_env r) ?A ?n t2 = Some (ERR_OK, n1, t3)"
    using rvnet_config_queue [of ?n r ?A t2] by auto
  show ?thesis
    unfolding EthernetIfInit_def LowLevelInit_rv_def Let_def io_defs
    using b n c by (simp add: rvnet_discover VirtmmioRegisterIRQ_rv_def io_defs)
qed

text \<open>C28. The state the initialisation of the riscv32 network device establishes. When \<open>EthernetIfInit\<close> succeeds, the sixteen receive
  buffers lie one after the other behind the queues, so aligned that lwip's packets are, all offered to the device;
  every transmit descriptor is free and nothing is completed: the states the two systems above start in.\<close>

theorem EthernetIfInit_establishes:
  assumes "EthernetIfInit E R A config nf t = Some (ERR_OK, nf', t')"
  shows "\<exists>nic b. nf_state nf' = Some nic \<and> rx_ready E A b nic \<and> rx_aligned A b \<and>
    tx_ok_rv nic all_ids {#} \<and> rn_tFreeNum nic = 32 \<and> avail_index (rn_tx nic) = 0 \<and> done_heads_rv nic = []"
  using assms by (rule EthernetIfInit_success)

lemma EthernetIfInit_establishes_witness:
  "\<exists>nf t nic b. EthernetIfInit (rvnet_env 0) rvnet_consts example_rvnet rvnet_config (zero_netif example_rvnet 0x1000) [] = Some (ERR_OK, nf, t) \<and>
    nf_state nf = Some nic \<and> rx_ready (rvnet_env 0) example_rvnet b nic"
proof -
  obtain nf t where i: "EthernetIfInit (rvnet_env 0) rvnet_consts example_rvnet rvnet_config (zero_netif example_rvnet 0x1000) [] = Some (ERR_OK, nf, t)"
    using rvnet_ethif [of "zero_netif example_rvnet 0x1000" 0 "[]"] by (auto simp: zero_netif_def)
  from EthernetIfInit_establishes [OF i] i show ?thesis by blast
qed


text \<open>C29. The memory of a failed initialisation. When the board's allocator gives blocks aligned for descriptors and lwip's \<open>netif_add\<close>
  fails exactly when the initialisation does, a \<open>VirtnetInit\<close> that returns the null pointer has freed everything it
  allocated, each block once and by the allocator it came from; only the parameter block of an
  interrupt that \<open>LOS_HwiCreate\<close> refused stays behind.\<close>

theorem VirtnetInit_rv_failed_memory:
  assumes "VirtnetInit_rv E R A config adder t = Some (None, t')" and "calls_init adder" and "call_driven E"
    and "\<And>u xs. ALIGN E (sys_ret E u c_calloc xs) 16 = sys_ret E u c_calloc xs"
  shows "\<exists>M. heap E t' = heap E t + M \<and> irq_refused E M"
proof -
  define p where "p = sys_ret E t mem_calloc [1, SIZEOF_netif A]"
  let ?t = "Call mem_calloc [1, SIZEOF_netif A] # t"
  show ?thesis
  proof (cases "p = 0")
    case True
    then have "t' = ?t" using assms(1) by (simp add: VirtnetInit_rv_def kcall_def Let_def p_def)
    then show ?thesis using True by (intro exI [of _ "{#}"]) (simp add: irq_refused_def p_def)
  next
    case False
    obtain ret nf t1 where i: "EthernetIfInit E R A config (zero_netif A p) ?t = Some (ret, nf, t1)" "ret \<noteq> ERR_OK" "t' = VirtnetDeInit_rv nf t1"
      using assms(1,2) False
      by (auto simp: VirtnetInit_rv_def kcall_def Let_def p_def calls_init_def split: option.splits Option.bind_splits if_splits)
    have "nf_state (zero_netif A p) = None" by (simp add: zero_netif_def)
    from EthernetIfInit_heap [OF i(1,2) assms(3,4) this]
    obtain M where M: "irq_refused E M" "nf_addr nf = nf_addr (zero_netif A p)"
      "case nf_state nf of None \<Rightarrow> heap E t1 = heap E ?t + M
      | Some nic \<Rightarrow> rn_addr nic \<noteq> 0 \<and> heap E t1 = heap E ?t + M + {#(True, rn_addr nic)#} + blks nic" by blast
    have h: "heap E ?t = add_mset (True, p) (heap E t)" using False by (simp add: p_def [symmetric])
    have a: "nf_addr nf = p" using M(2) by (simp add: zero_netif_def)
    have "heap E t' = heap E t + M"
      unfolding i(3) VirtnetDeInit_rv_heap using M(3) a h by (cases "nf_state nf") (simp_all add: blks_def)
    then show ?thesis using M(1) by blast
  qed
qed

lemma VirtnetInit_rv_failed_memory_witness:
  "\<exists>t' M. VirtnetInit_rv (rvnet_env 1) rvnet_consts example_rvnet rvnet_config
       (\<lambda>f nf t. case f nf t of None \<Rightarrow> None | Some (r, nf, t) \<Rightarrow> Some (r = ERR_OK, nf, t)) [] = Some (None, t') \<and>
     heap (rvnet_env 1) t' = M \<and> irq_refused (rvnet_env 1) M"
proof -
  let ?E = "rvnet_env 1" and ?a = "\<lambda>f nf t. case f nf t of None \<Rightarrow> None | Some (r, nf, t) \<Rightarrow> Some (r = ERR_OK, nf, t)"
  obtain nf t1 where i: "EthernetIfInit ?E rvnet_consts example_rvnet rvnet_config (zero_netif example_rvnet 0x1000)
      [Call mem_calloc [1, SIZEOF_netif example_rvnet]] = Some (ERR_IF, nf, t1)"
    using rvnet_ethif [of "zero_netif example_rvnet 0x1000" 1 "[Call mem_calloc [1, SIZEOF_netif example_rvnet]]"]
    by (auto simp: zero_netif_def)
  then have r: "VirtnetInit_rv ?E rvnet_consts example_rvnet rvnet_config ?a [] = Some (None, VirtnetDeInit_rv nf t1)"
    by (simp add: VirtnetInit_rv_def kcall_def)
  have "calls_init ?a" "call_driven ?E" by (simp_all add: calls_init_def call_driven_def)
  from VirtnetInit_rv_failed_memory [OF r this] r show ?thesis by (auto simp: align_example_def)
qed

subsection \<open>The interrupt\<close>

lemma tx_ok_rv_tx_part:
  assumes "tx_part nic' = tx_part nic" and "length (vq (rn_dev nic')) = length (vq (rn_dev nic))" and "txq_rv nic' = txq_rv nic"
  shows "tx_ok_rv nic' F B = tx_ok_rv nic F B" and "done_heads_rv nic' = done_heads_rv nic" and "recorded nic' c = recorded nic c"
    and "free_call nic' = free_call nic"
  using assms by (simp_all add: tx_part_def tx_ok_rv_def done_heads_rv_def recorded_def free_call_def fun_eq_iff)

text \<open>What \<open>VirtnetTxHandle\<close> keeps of the receive side.\<close>

definition rx_part :: "VirtNetif_rv \<Rightarrow> vring \<times> RbufRecord list \<times> u32 \<times> Virtq" where
  "rx_part nic = (rn_rx nic, rbufs nic, rn_addr nic, rxq_rv nic)"

lemma FreeTxEntry_rv_rx_part: "FreeTxEntry_rv nic h t = Some (nic', t') \<Longrightarrow> rx_part nic' = rx_part nic"
  by (auto simp: FreeTxEntry_rv_def rx_part_def rxq_rv_def Let_def split: Option.bind_splits)

lemma tx_loop_rv_rx_part: "tx_loop_rv nic t = Some (nic', t') \<Longrightarrow> rx_part nic' = rx_part nic"
proof -
  let ?P = "\<lambda>nic t (nic', t' :: trace). rx_part nic' = rx_part nic"
  assume "tx_loop_rv nic t = Some (nic', t')"
  then have "?P nic t (nic', t')"
  proof (rule tx_loop_rv.raw_induct [where P = ?P, rotated], goal_cases)
    case (1 f nic t y)
    have s: "rx_part (set_last_rv 1 l n) = rx_part n" for l n by (simp add: rx_part_def set_last_rv_def rxq_rv_def)
    show ?case
      using 1(2) 1(1)
      by (cases y) (auto split: if_splits Option.bind_splits dest!: FreeTxEntry_rv_rx_part simp: s [unfolded One_nat_def])
  qed
  then show ?thesis by simp
qed

lemma VirtnetTxHandle_rv_rx_part:
  "VirtnetTxHandle_rv nic t = Some (nic', t') \<Longrightarrow> rx_part nic' = rx_part nic"
  by (auto simp: VirtnetTxHandle_rv_def split: Option.bind_splits dest!: tx_loop_rv_rx_part) (simp_all add: rx_part_def rxq_rv_def)



end
