(* ===== verification/Virtrng.thy ===== *)
theory Virtrng
  imports Virtq
begin

text \<open>
  The entropy device, \<open>drivers/virtio/virtrng.c\<close>, behind the kernel's random interface. \<open>Virtrng\<close> is the
  C struct with the memory of its one queue; the global pointer \<open>g_virtRng\<close>, the only reference to it,
  is an option. Waiting for the completion event is a parameter: a function from the driver state and
  history at the time of the wait to those at its return. An \<open>int\<close> result is an \<open>int\<close>.
\<close>

subsection \<open>Data\<close>

record Virtrng =
  rng_addr :: u32
  rng_dev :: VirtmmioDev
  rng_ring :: vring
  realMutex :: u32

text \<open>The layout of the struct, which contains kernel objects, and the handle of a created mutex.\<close>

record rng_abi =
  SIZEOF_Virtrng :: u32
  OFF_mutex :: u32
  OFF_event :: u32
  rng_mutex :: "trace \<Rightarrow> u32"

type_synonym rng_wait = "Virtrng \<Rightarrow> trace \<Rightarrow> u32 \<times> Virtrng \<times> trace"

abbreviation (input) VIRTQ_REQUEST_QSZ :: u16 where "VIRTQ_REQUEST_QSZ \<equiv> 1"

definition Rng_Feature0 :: "u32 \<Rightarrow> u32 \<Rightarrow> 's \<Rightarrow> trace \<Rightarrow> bool \<times> u32 \<times> 's" where
  "Rng_Feature0 features supported s t = (True, supported, s)"

definition Rng_Feature1 :: "u32 \<Rightarrow> u32 \<Rightarrow> 's \<Rightarrow> trace \<Rightarrow> bool \<times> u32 \<times> 's" where
  "Rng_Feature1 features supported s t =
     (if features AND VIRTIO_F_VERSION_1 \<noteq> 0 then (True, supported OR VIRTIO_F_VERSION_1, s)
      else (False, supported, s))"

subsection \<open>Requests\<close>

text \<open>The request made available to the device, up to the notification.\<close>

definition VirtrngIO_submit :: "env \<Rightarrow> u32 \<Rightarrow> u32 \<Rightarrow> Virtrng \<Rightarrow> trace \<Rightarrow> (Virtrng \<times> trace) option" where
  "VirtrngIO_submit E buffer buflen rng t = do {
     q \<leftarrow> aget (vq (rng_dev rng)) 0;
     r \<leftarrow> desc_upd 0 (\<lambda>d. d\<lparr>pAddr := VMM_TO_DMA_ADDR E (ucast buffer), d_len := buflen,
            d_flag := VIRTQ_DESC_F_WRITE\<rparr>) (rng_ring rng);
     r \<leftarrow> avail_put (qsz q) (unat (avail_index r)) 0 r;
     let r = avail_add 1 r;
     let t = WRITE_UINT32 0 (base (rng_dev rng) + VIRTMMIO_REG_QUEUENOTIFY) t;
     Some (rng\<lparr>rng_ring := r\<rparr>, t)
   }"

definition VirtrngIO ::
  "env \<Rightarrow> rng_abi \<Rightarrow> rng_wait \<Rightarrow> u32 \<Rightarrow> u32 \<Rightarrow> Virtrng option \<Rightarrow> trace \<Rightarrow> (int \<times> Virtrng option \<times> trace) option" where
  "VirtrngIO E A wait buffer buflen g_virtRng t = do {
     rng \<leftarrow> g_virtRng;
     let (ret, t) = kstatus E OsalMutexLock [rng_addr rng + OFF_mutex A] t;
     if ret \<noteq> HDF_SUCCESS then Some (-1, Some rng, t) else do {
       (rng, t) \<leftarrow> VirtrngIO_submit E buffer buflen rng t;
       let (ev, rng, t) = wait rng t;
       ret \<leftarrow> (if ev \<noteq> 1 then Some (-1) else do {
                 e \<leftarrow> aget (used_ring (rng_ring rng)) 0;
                 Some (sint (ue_len e))
               });
       let t = kproc OsalMutexUnlock [rng_addr rng + OFF_mutex A] t;
       Some (ret, Some rng, t)
     }
   }"

definition VirtrngIRQhandle :: "env \<Rightarrow> rng_abi \<Rightarrow> Virtrng option \<Rightarrow> trace \<Rightarrow> (u32 \<times> Virtrng option \<times> trace) option" where
  "VirtrngIRQhandle E A g_virtRng t = do {
     rng \<leftarrow> g_virtRng;
     let b = base (rng_dev rng);
     let (st, t) = GET_UINT32 E (b + VIRTMMIO_REG_INTERRUPTSTATUS) t;
     if st AND VIRTMMIO_IRQ_NOTIFY_USED = 0 then Some (1, Some rng, t) else do {
       let t = kproc DmaEventSignal [rng_addr rng + OFF_event A, 1] t;
       vqs \<leftarrow> aupd (vq (rng_dev rng)) 0 (\<lambda>q. q\<lparr>q_last := q_last q + 1\<rparr>);
       let t = WRITE_UINT32 VIRTMMIO_IRQ_NOTIFY_USED (b + VIRTMMIO_REG_INTERRUPTACK) t;
       Some (0, Some (rng\<lparr>rng_dev := (rng_dev rng)\<lparr>vq := vqs\<rparr>\<rparr>), t)
     }
   }"

subsection \<open>Initialisation and release\<close>

definition VirtrngDeInit :: "rng_abi \<Rightarrow> Virtrng \<Rightarrow> trace \<Rightarrow> Virtrng option \<times> trace" where
  "VirtrngDeInit A rng t =
     (let t = (if irq (rng_dev rng) AND NOT IRQ_MASK \<noteq> 0
               then kproc OsalUnregisterIrq [irq (rng_dev rng) AND IRQ_MASK, rng_addr rng] t else t);
          t = (if realMutex rng \<noteq> 0 then kproc OsalMutexDestroy [rng_addr rng + OFF_mutex A] t else t)
      in (None, kproc LOS_DmaMemFree [rng_addr rng] t))"

definition VirtrngInitDevAux :: "env \<Rightarrow> rng_abi \<Rightarrow> Virtrng \<Rightarrow> trace \<Rightarrow> HDF_STATUS \<times> Virtrng \<times> trace" where
  "VirtrngInitDevAux E A rng t =
     (let (ret, t) = kstatus E OsalMutexInit [rng_addr rng + OFF_mutex A] t
      in if ret \<noteq> HDF_SUCCESS then (ret, rng, t) else
      let rng = rng\<lparr>realMutex := rng_mutex A t\<rparr>;
          (ret, t) = kstatus E DmaEventInit [rng_addr rng + OFF_event A] t
      in if ret \<noteq> HDF_SUCCESS then (ret, rng, t) else
      let (ret, t) = kstatus E OsalRegisterIrq [irq (rng_dev rng), rng_addr rng] t
      in if ret \<noteq> HDF_SUCCESS then (ret, rng, t) else
      (HDF_SUCCESS, rng\<lparr>rng_dev := (rng_dev rng)\<lparr>irq := irq (rng_dev rng) OR NOT IRQ_MASK\<rparr>\<rparr>, t))"

text \<open>The block after \<open>memset_s\<close>.\<close>

definition zero_Virtrng :: "u32 \<Rightarrow> Virtrng" where
  "zero_Virtrng p = \<lparr>rng_addr = p, rng_dev = \<lparr>base = 0, irq = 0,
       vq = replicate VIRTQ_NUM \<lparr>qsz = 0, q_last = 0, q_desc = 0, q_avail = 0, q_used = 0\<rparr>\<rparr>,
     rng_ring = zero_vring (unat VIRTQ_REQUEST_QSZ), realMutex = 0\<rparr>"

definition rng_err_out :: "rng_abi \<Rightarrow> Virtrng \<Rightarrow> trace \<Rightarrow> Virtrng option \<times> trace" where
  "rng_err_out A rng t = VirtrngDeInit A rng t"

definition rng_err_out1 :: "env \<Rightarrow> rng_abi \<Rightarrow> Virtrng \<Rightarrow> trace \<Rightarrow> Virtrng option \<times> trace" where
  "rng_err_out1 E A rng t = rng_err_out A rng (VirtmmioInitFailed E (rng_dev rng) t)"

definition VirtrngInitDev :: "env \<Rightarrow> rng_abi \<Rightarrow> trace \<Rightarrow> (Virtrng option \<times> trace) option" where
  "VirtrngInitDev E A t =
     (let len = SIZEOF_Virtrng A + VirtqSize E VIRTQ_REQUEST_QSZ;
          (p, t) = kcall E LOS_DmaMemAlloc [len] t
      in if p = 0 then Some (None, t) else
      let rng = zero_Virtrng p;
          (found, dev, t) = VirtmmioDiscover E VIRTMMIO_DEVICE_ID_RNG (rng_dev rng) t;
          rng = rng\<lparr>rng_dev := dev\<rparr>
      in if \<not> found then Some (rng_err_out A rng t) else do {
        t \<leftarrow> VirtmmioInitBegin E dev t;
        (ok, rng, t) \<leftarrow> VirtmmioNegotiate E dev Rng_Feature0 Rng_Feature1 rng t;
        if \<not> ok then Some (rng_err_out1 E A rng t) else do {
          let va = ALIGN E (p + SIZEOF_Virtrng A) VIRTQ_ALIGN_DESC;
          (r, dev, t) \<leftarrow> VirtmmioConfigQueue E (rng_dev rng) va [VIRTQ_REQUEST_QSZ] 1 t;
          let rng = rng\<lparr>rng_dev := dev\<rparr>;
          if r = 0 then Some (rng_err_out1 E A rng t) else
          let (ret, rng, t) = VirtrngInitDevAux E A rng t
          in if ret \<noteq> HDF_SUCCESS then Some (rng_err_out1 E A rng t) else
          Some (Some rng, VritmmioInitEnd E (rng_dev rng) t)
        }
      })"

subsection \<open>The random interface\<close>

definition VirtrngSupport :: int where "VirtrngSupport = 1"

definition VirtrngRead ::
  "env \<Rightarrow> rng_abi \<Rightarrow> rng_wait \<Rightarrow> u32 \<Rightarrow> u32 \<Rightarrow> Virtrng option \<Rightarrow> trace \<Rightarrow> (int \<times> Virtrng option \<times> trace) option" where
  "VirtrngRead E A wait buffer bytes g t =
     (let (user, t) = kcall E LOS_IsUserAddressRange [buffer, bytes] t
      in if user \<noteq> 0 then
           (let (newbuf, t) = kcall E OsalMemAlloc [bytes] t
            in if newbuf = 0 then Some (-1, g, t) else do {
                 (len, g, t) \<leftarrow> VirtrngIO E A wait newbuf bytes g t;
                 if newbuf \<noteq> buffer then
                   (let (len, t) = (if len > 0 then
                          let (e, t) = kcall E LOS_ArchCopyToUser [buffer, newbuf, of_int len] t
                          in (if e \<noteq> 0 then -1 else len, t)
                        else (len, t))
                    in Some (len, g, kproc OsalMemFree [newbuf] t))
                 else Some (len, g, t)
               })
         else if buffer + bytes < buffer then Some (-1, g, t)
         else VirtrngIO E A wait buffer bytes g t)"

text \<open>\<open>VirtrngInit\<close> returns the new global pointer. The operations are registered before
  \<open>/dev/urandom\<close> and stay registered when that fails.\<close>

definition VirtrngInit :: "env \<Rightarrow> rng_abi \<Rightarrow> trace \<Rightarrow> (Virtrng option \<times> trace) option" where
  "VirtrngInit E A t = do {
     (g, t) \<leftarrow> VirtrngInitDev E A t;
     (case g of
       None \<Rightarrow> Some (None, t)
     | Some rng \<Rightarrow>
         let t = kproc RandomOperationsInit [] t;
             (ret, t) = kcall E DevUrandomRegister [] t
         in if ret \<noteq> 0 then Some (VirtrngDeInit A rng t) else Some (Some rng, t))
   }"

text \<open>\<open>HiRandomHwGetInteger\<close>: the integer is written by the device, or is 1 without a device; that the
  result is 1 is the second component.\<close>

definition HiRandomHwGetInteger ::
  "env \<Rightarrow> rng_abi \<Rightarrow> rng_wait \<Rightarrow> u32 \<Rightarrow> Virtrng option \<Rightarrow> trace \<Rightarrow> (int \<times> bool \<times> Virtrng option \<times> trace) option" where
  "HiRandomHwGetInteger E A wait result g t =
     (case g of
       None \<Rightarrow> Some (4, True, g, t)
     | Some _ \<Rightarrow> do { (n, g, t) \<leftarrow> VirtrngRead E A wait result 4 g t; Some (n, False, g, t) })"

definition HiRandomHwGetNumber ::
  "env \<Rightarrow> rng_abi \<Rightarrow> rng_wait \<Rightarrow> u32 \<Rightarrow> u32 \<Rightarrow> Virtrng option \<Rightarrow> trace \<Rightarrow> (int \<times> Virtrng option \<times> trace) option" where
  "HiRandomHwGetNumber E A wait buffer buflen g t = VirtrngRead E A wait buffer buflen g t"

subsection \<open>The request queue\<close>

interpretation rng_features: virtio_driver Rng_Feature0 Rng_Feature1
proof (rule virtio_driverI)
  show "honest_callback Rng_Feature0"
    by (rule honest_callbackI [of _ 0]) (simp add: Rng_Feature0_def)
qed (simp add: Rng_Feature1_def)

definition rng_ready :: "Virtrng \<Rightarrow> bool" where
  "rng_ready rng \<longleftrightarrow> (\<exists>q qs. vq (rng_dev rng) = q # qs \<and> qsz q = 1) \<and> vring_ok 1 (rng_ring rng)"

lemma VirtrngIO_submit_request:
  assumes "rng_ready rng"
  shows "\<exists>r. VirtrngIO_submit E buffer n rng t
      = Some (rng\<lparr>rng_ring := r\<rparr>, Wr (base (rng_dev rng) + VIRTMMIO_REG_QUEUENOTIFY) 0 # t) \<and>
    avail_index r = avail_index (rng_ring rng) + 1 \<and> avail_ring r = [0] \<and>
    device_chain r 0 = Some [(VMM_TO_DMA_ADDR E (ucast buffer), n, True)] \<and> vring_ok 1 r"
proof -
  obtain q qs where q: "vq (rng_dev rng) = q # qs" "qsz q = 1" and ok: "vring_ok 1 (rng_ring rng)"
    using assms by (auto simp: rng_ready_def)
  obtain a where a: "avail_ring (rng_ring rng) = [a]"
    using vring_okD(2) [OF ok] by (cases "avail_ring (rng_ring rng)") auto
  let ?r = "avail_add 1 ((rng_ring rng)\<lparr>descs := (descs (rng_ring rng))[0 := (descs (rng_ring rng) ! 0)
      \<lparr>pAddr := VMM_TO_DMA_ADDR E (ucast buffer), d_len := n, d_flag := 2\<rparr>], avail_ring := [0]\<rparr>)"
  have "VirtrngIO_submit E buffer n rng t
      = Some (rng\<lparr>rng_ring := ?r\<rparr>, Wr (base (rng_dev rng) + VIRTMMIO_REG_QUEUENOTIFY) 0 # t)"
    using q a vring_okD(1) [OF ok] by (simp add: VirtrngIO_submit_def desc_upd_in avail_put_in io_defs)
  moreover have "device_chain ?r 0 = Some [(VMM_TO_DMA_ADDR E (ucast buffer), n, True)]"
    using vring_okD(1) [OF ok] by (simp add: device_chain_def)
  moreover have "vring_ok 1 ?r" using ok by (simp add: vring_ok_def)
  ultimately show ?thesis by (intro exI [of _ ?r]) simp
qed


subsection \<open>Properties\<close>

text \<open>What waiting for the event may do: the interrupt handler runs, but nobody else allocates, frees
  or copies on the driver's behalf, and the driver's structure stays in order.\<close>

definition memory_calls :: "syscall set" where
  "memory_calls = {OsalMemAlloc, OsalMemFree, LOS_ArchCopyToUser}"

definition quiet_wait :: "rng_wait \<Rightarrow> bool" where
  "quiet_wait wait \<longleftrightarrow> (\<forall>rng t ev rng' t'. rng_ready rng \<longrightarrow> wait rng t = (ev, rng', t') \<longrightarrow>
     rng_ready rng' \<and> (\<forall>f \<in> memory_calls. calls_of f t' = calls_of f t))"

text \<open>A request for \<open>n\<close> bytes at \<open>b\<close>: the ring when the driver waits, and the outcome.\<close>

definition rng_request ::
  "env \<Rightarrow> rng_wait \<Rightarrow> u32 \<Rightarrow> u32 \<Rightarrow> Virtrng \<Rightarrow> int \<Rightarrow> Virtrng \<Rightarrow> bool" where
  "rng_request E wait b n rng len rng2 \<longleftrightarrow> (\<exists>r t1 v t2. wait (rng\<lparr>rng_ring := r\<rparr>) t1 = (v, rng2, t2) \<and>
     avail_index r = avail_index (rng_ring rng) + 1 \<and> avail_ring r = [0] \<and>
     device_chain r 0 = Some [(VMM_TO_DMA_ADDR E (ucast b), n, True)] \<and>
     len = (if v \<noteq> 1 then -1 else sint (ue_len (used_ring (rng_ring rng2) ! 0))))"

lemma VirtrngIO_run:
  assumes "rng_ready rng" and "\<forall>t xs. sys_hdf E t OsalMutexLock xs = HDF_SUCCESS" and "quiet_wait wait"
  shows "\<exists>len rng2 t'. VirtrngIO E A wait b n (Some rng) t = Some (len, Some rng2, t') \<and>
    rng_request E wait b n rng len rng2 \<and> (\<forall>f \<in> memory_calls. calls_of f t' = calls_of f t)"
proof -
  let ?t1 = "Call OsalMutexLock [rng_addr rng + OFF_mutex A] # t"
  let ?t2 = "Wr (base (rng_dev rng) + 0x50) 0 # ?t1"
  obtain r where s: "VirtrngIO_submit E b n rng ?t1 = Some (rng\<lparr>rng_ring := r\<rparr>, ?t2)"
    and r: "avail_index r = avail_index (rng_ring rng) + 1" "avail_ring r = [0]"
      "device_chain r 0 = Some [(VMM_TO_DMA_ADDR E (ucast b), n, True)]" "vring_ok 1 r"
    using VirtrngIO_submit_request [OF assms(1), of E b n ?t1] by blast
  obtain v rng2 t3 where w: "wait (rng\<lparr>rng_ring := r\<rparr>) ?t2 = (v, rng2, t3)"
    by (cases "wait (rng\<lparr>rng_ring := r\<rparr>) ?t2")
  have "rng_ready (rng\<lparr>rng_ring := r\<rparr>)"
    using assms(1) r(4) by (simp add: rng_ready_def)
  then have ready2: "rng_ready rng2" and frame: "\<forall>f \<in> memory_calls. calls_of f t3 = calls_of f ?t2"
    using assms(3) w unfolding quiet_wait_def by blast+
  have "0 < length (used_ring (rng_ring rng2))"
    using ready2 by (simp add: rng_ready_def vring_ok_def)
  then have "VirtrngIO E A wait b n (Some rng) t = Some (if v \<noteq> 1 then -1 else sint (ue_len (used_ring (rng_ring rng2) ! 0)),
      Some rng2, Call OsalMutexUnlock [rng_addr rng2 + OFF_mutex A] # t3)"
    using s w assms(2) by (simp add: VirtrngIO_def io_defs)
  moreover have "\<forall>f \<in> memory_calls. calls_of f (Call OsalMutexUnlock [rng_addr rng2 + OFF_mutex A] # t3) = calls_of f t"
    using frame by (auto simp: memory_calls_def)
  moreover have "rng_request E wait b n rng (if v \<noteq> 1 then -1 else sint (ue_len (used_ring (rng_ring rng2) ! 0))) rng2"
    unfolding rng_request_def using w r by blast
  ultimately show ?thesis by blast
qed

text \<open>C16. Reading random bytes. A kernel buffer is handed to the device itself; for a user buffer the
  driver allocates a bounce buffer of the requested size, has the device fill it, copies out as many
  bytes as the device reported and frees it exactly once. In either case the device gets one
  request: a single writable buffer of the requested size. The result is the device's count, or -1
  when the wait or the copy failed.\<close>

theorem VirtrngRead_fills:
  assumes "rng_ready rng" and "\<forall>t xs. sys_hdf E t OsalMutexLock xs = HDF_SUCCESS" and "quiet_wait wait"
    and "user \<longleftrightarrow> sys_ret E t LOS_IsUserAddressRange [b, n] \<noteq> 0"
    and "tgt = (if user then sys_ret E (Call LOS_IsUserAddressRange [b, n] # t) OsalMemAlloc [n] else b)"
    and "user \<longrightarrow> tgt \<noteq> 0 \<and> tgt \<noteq> b" and "user \<or> b \<le> b + n"
  shows "\<exists>len raw rng2 t'. VirtrngRead E A wait b n (Some rng) t = Some (len, Some rng2, t') \<and>
    rng_request E wait tgt n rng raw rng2 \<and> (len = raw \<or> user \<and> len = -1) \<and>
    calls_of OsalMemAlloc t' = calls_of OsalMemAlloc t @ (if user then [[n]] else []) \<and>
    calls_of LOS_ArchCopyToUser t' = calls_of LOS_ArchCopyToUser t @
      (if user \<and> raw > 0 then [[b, tgt, of_int raw]] else []) \<and>
    calls_of OsalMemFree t' = calls_of OsalMemFree t @ (if user then [[tgt]] else [])"
proof (cases user)
  case True
  let ?t = "Call OsalMemAlloc [n] # Call LOS_IsUserAddressRange [b, n] # t"
  obtain raw rng2 t1 where io: "VirtrngIO E A wait tgt n (Some rng) ?t = Some (raw, Some rng2, t1)"
    and q: "rng_request E wait tgt n rng raw rng2" and f: "\<forall>f \<in> memory_calls. calls_of f t1 = calls_of f ?t"
    using VirtrngIO_run [OF assms(1-3)] by blast
  have k: "calls_of OsalMemAlloc t1 = calls_of OsalMemAlloc t @ [[n]]" "calls_of OsalMemFree t1 = calls_of OsalMemFree t"
    "calls_of LOS_ArchCopyToUser t1 = calls_of LOS_ArchCopyToUser t"
    using f by (simp_all add: memory_calls_def)
  have tg: "sys_ret E (Call LOS_IsUserAddressRange [b, n] # t) OsalMemAlloc [n] = tgt"
    using True assms(5) by simp
  show ?thesis
  proof (cases "raw > 0")
    case copied: True
    let ?e = "sys_ret E t1 LOS_ArchCopyToUser [b, tgt, of_int raw]"
    have "VirtrngRead E A wait b n (Some rng) t = Some (if ?e \<noteq> 0 then -1 else raw, Some rng2,
        Call OsalMemFree [tgt] # Call LOS_ArchCopyToUser [b, tgt, of_int raw] # t1)"
      using True assms(4,6) tg io copied by (simp add: VirtrngRead_def io_defs)
    moreover have "(if ?e \<noteq> 0 then -1 else raw) = raw \<or> user \<and> (if ?e \<noteq> 0 then -1 else raw) = -1"
      using True by simp
    ultimately show ?thesis
      using True q k copied by (intro exI [of _ "if ?e \<noteq> 0 then -1 else raw"] exI [of _ raw] exI [of _ rng2]
        exI [of _ "Call OsalMemFree [tgt] # Call LOS_ArchCopyToUser [b, tgt, of_int raw] # t1"]) simp
  next
    case False
    then have "VirtrngRead E A wait b n (Some rng) t = Some (raw, Some rng2, Call OsalMemFree [tgt] # t1)"
      using True assms(4,6) tg io by (simp add: VirtrngRead_def io_defs)
    then show ?thesis
      using True q k False by (intro exI [of _ raw] exI [of _ raw] exI [of _ rng2] exI [of _ "Call OsalMemFree [tgt] # t1"]) simp
  qed
next
  case False
  let ?t = "Call LOS_IsUserAddressRange [b, n] # t"
  obtain raw rng2 t1 where io: "VirtrngIO E A wait b n (Some rng) ?t = Some (raw, Some rng2, t1)"
    and q: "rng_request E wait b n rng raw rng2" and f: "\<forall>f \<in> memory_calls. calls_of f t1 = calls_of f ?t"
    using VirtrngIO_run [OF assms(1-3)] by blast
  have "\<not> b + n < b" using False assms(7) by (auto simp only: not_less)
  then have "VirtrngRead E A wait b n (Some rng) t = Some (raw, Some rng2, t1)"
    using False assms(4) io by (simp add: VirtrngRead_def io_defs)
  then show ?thesis
    using False assms(5) q f
    by (intro exI [of _ raw] exI [of _ raw] exI [of _ rng2] exI [of _ t1]) (simp add: memory_calls_def)
qed

text \<open>Registration failure. When \<open>/dev/urandom\<close> cannot be registered, \<open>VirtrngInit\<close> frees the device
  exactly once and clears the global pointer, but the operations registered before stay registered:
  a read through them dereferences the null pointer for every buffer that passes the address checks.
  Only \<open>HiRandomHwGetInteger\<close> tests for the missing device.\<close>

theorem VirtrngInit_failure_leaves_operations:
  assumes "VirtrngInitDev E A t = Some (Some rng, t1)"
    and "sys_ret E (Call RandomOperationsInit [] # t1) DevUrandomRegister [] \<noteq> 0"
  shows "\<exists>t'. VirtrngInit E A t = Some (None, t') \<and>
    calls_of RandomOperationsInit t' = calls_of RandomOperationsInit t1 @ [[]] \<and>
    calls_of LOS_DmaMemFree t' = calls_of LOS_DmaMemFree t1 @ [[rng_addr rng]] \<and>
    (\<forall>u. sys_ret E u LOS_IsUserAddressRange [b, n] = 0 \<longrightarrow>
       (HiRandomHwGetNumber E A wait b n None u = None \<longleftrightarrow> b \<le> b + n)) \<and>
    (\<forall>result u. HiRandomHwGetInteger E A wait result None u = Some (4, True, None, u))"
  using assms
  by (auto simp: VirtrngInit_def VirtrngDeInit_def io_defs Let_def HiRandomHwGetNumber_def VirtrngRead_def
      VirtrngIO_def HiRandomHwGetInteger_def)

subsection \<open>A concrete machine\<close>

definition example_rng :: rng_abi where
  "example_rng = \<lparr>SIZEOF_Virtrng = 64, OFF_mutex = 40, OFF_event = 48, rng_mutex = (\<lambda>t. 1)\<rparr>"

definition ready_rng :: Virtrng where
  "ready_rng = (zero_Virtrng 0x1000)\<lparr>rng_dev := \<lparr>base = 0x0A003E00, irq = 79,
     vq = [\<lparr>qsz = 1, q_last = 0, q_desc = 0x2000, q_avail = 0x2100, q_used = 0x2200\<rparr>]\<rparr>\<rparr>"

lemma VirtrngRead_fills_witness:
  "\<exists>len rng2 t'. VirtrngRead (example_env (\<lambda>_. 0)) example_rng
       (\<lambda>rng t. (1, rng\<lparr>rng_ring := (rng_ring rng)\<lparr>used_ring := [\<lparr>ue_id = 0, ue_len = 16\<rparr>]\<rparr>\<rparr>, t)) 0x80000 16 (Some ready_rng) []
     = Some (len, Some rng2, t') \<and> calls_of OsalMemFree t' = [[0x1000]] \<and> (len = 16 \<or> len = -1)"
proof -
  let ?w = "\<lambda>rng t. (1 :: u32, rng\<lparr>rng_ring := (rng_ring rng)\<lparr>used_ring := [\<lparr>ue_id = 0, ue_len = 16\<rparr>]\<rparr>\<rparr>, t)"
  have "quiet_wait ?w" by (auto simp: quiet_wait_def rng_ready_def vring_ok_def)
  moreover have "rng_ready ready_rng" by (simp add: rng_ready_def ready_rng_def zero_Virtrng_def)
  moreover have "\<forall>t xs. sys_hdf (example_env (\<lambda>_. 0)) t OsalMutexLock xs = HDF_SUCCESS"
    "True \<longleftrightarrow> sys_ret (example_env (\<lambda>_. 0)) [] LOS_IsUserAddressRange [0x80000, 16] \<noteq> 0"
    "(0x1000 :: u32) = (if True then sys_ret (example_env (\<lambda>_. 0)) [Call LOS_IsUserAddressRange [0x80000, 16]] OsalMemAlloc [16] else 0x80000)"
    "True \<longrightarrow> (0x1000 :: u32) \<noteq> 0 \<and> (0x1000 :: u32) \<noteq> 0x80000" "True \<or> (0x80000 :: u32) \<le> 0x80000 + 16"
    by simp_all
  ultimately obtain len raw rng2 t' where r: "VirtrngRead (example_env (\<lambda>_. 0)) example_rng ?w 0x80000 16 (Some ready_rng) []
      = Some (len, Some rng2, t')" "rng_request (example_env (\<lambda>_. 0)) ?w 0x1000 16 ready_rng raw rng2"
      "len = raw \<or> True \<and> len = -1"
      "calls_of OsalMemFree t' = calls_of OsalMemFree [] @ (if True then [[0x1000]] else [])"
    using VirtrngRead_fills [of ready_rng "example_env (\<lambda>_. 0)" ?w True "[]" "0x80000" 16 "0x1000" example_rng] by blast
  moreover from r(2) have "raw = 16" by (auto simp: rng_request_def)
  ultimately show ?thesis by auto
qed

lemmas rng_run = VirtrngInitDev_def VirtrngInitDevAux_def io_defs Let_def VirtmmioInitBegin_def VirtioResetStatus_def
  wait_driver_now driver_seen_def example_preset_def VirtmmioNegotiate_def Negotiate_def negotiate_loop.simps
  Rng_Feature0_def Rng_Feature1_def VirtmmioConfigQueue_def CalculateQueueAddr_def CompleteConfigQueue_def
  WriteQueueAddr_def zero_Virtrng_def align_example_def example_rng_def VritmmioInitEnd_def

abbreviation (input) rng_env :: env where "rng_env \<equiv> example_env (example_preset VIRTMMIO_DEVICE_ID_RNG 1)"

lemma example_rng_init: "\<exists>rng t. VirtrngInitDev rng_env example_rng [] = Some (Some rng, t) \<and> rng_addr rng = 0x1000"
  by (simp add: rng_run example_discover)

lemma VirtrngInit_failure_leaves_operations_witness:
  "\<exists>t'. VirtrngInit rng_env example_rng [] = Some (None, t') \<and>
     HiRandomHwGetInteger rng_env example_rng (\<lambda>rng t. (1, rng, t)) 0x2000 None t' = Some (4, True, None, t')"
proof -
  obtain rng t1 where i: "VirtrngInitDev rng_env example_rng [] = Some (Some rng, t1)"
    using example_rng_init by blast
  have "sys_ret rng_env (Call RandomOperationsInit [] # t1) DevUrandomRegister [] \<noteq> 0" by simp
  from VirtrngInit_failure_leaves_operations [OF i this, where b = "0x2000" and n = 4 and wait = "\<lambda>rng t. (1, rng, t)"]
  show ?thesis by blast
qed

end
