(* ===== verification/Fakesdio.thy ===== *)
theory Fakesdio
  imports Virtmmio
begin

text \<open>
  The dummy SDIO controller and GPIO controller, \<open>drivers/virtio/fakesdio.c\<close>, which exist so that the
  WLAN framework finds the bus it expects. The controller's fields that the file touches are the record
  \<open>SdioCntlr\<close>; its address is what \<open>OsalMemCalloc\<close> returned. What the framework writes into it (the
  resource values, the device that \<open>MmcCntlrAllocDev\<close> attaches) is the parameter \<open>sdio_world\<close>.
\<close>

subsection \<open>The SDIO device operations\<close>

record SdioCommonInfo =
  enTimeout :: u32
  funcNum :: u32
  irqCap :: u32
  fi_data :: u32

record SdioCntlr =
  sc_addr :: u32
  sc_index :: u16
  sc_devType :: u32
  sc_curDev :: u32

record sdio_world =
  SDIO_FUNC_INFO :: u32
  SIZEOF_MmcCntlr :: u32
  SIZEOF_GpioCntlr :: u32
  OFF_service :: u32
  sw_hostId :: "trace \<Rightarrow> u16"
  sw_devType :: "trace \<Rightarrow> u32"
  sw_curDev :: "trace \<Rightarrow> u32"
  sw_ifaceComplete :: "u32 \<Rightarrow> bool"  \<comment> \<open>whether the interface has \<open>GetUint16\<close> and \<open>GetUint32\<close>\<close>

definition FakeSdioSetBlockSize :: "u32 \<Rightarrow> HDF_STATUS" where
  "FakeSdioSetBlockSize blockSize = HDF_SUCCESS"

definition FakeSdioGetCommonInfo ::
  "sdio_world \<Rightarrow> SdioCommonInfo option \<Rightarrow> u32 \<Rightarrow> HDF_STATUS \<times> SdioCommonInfo option" where
  "FakeSdioGetCommonInfo W info infoType =
     (case info of
       None \<Rightarrow> (HDF_ERR_INVALID_PARAM, None)
     | Some i \<Rightarrow> if infoType \<noteq> SDIO_FUNC_INFO W then (HDF_ERR_NOT_SUPPORT, Some i)
                 else (HDF_SUCCESS, Some (i\<lparr>enTimeout := 0, funcNum := 1, irqCap := 0, fi_data := 0\<rparr>)))"

definition FakeSdioSetCommonInfo :: "sdio_world \<Rightarrow> SdioCommonInfo option \<Rightarrow> u32 \<Rightarrow> HDF_STATUS" where
  "FakeSdioSetCommonInfo W info infoType =
     (if info = None then HDF_ERR_INVALID_PARAM
      else if infoType \<noteq> SDIO_FUNC_INFO W then HDF_ERR_NOT_SUPPORT else HDF_SUCCESS)"

definition FakeSdioEnableFunc :: HDF_STATUS where
  "FakeSdioEnableFunc = HDF_SUCCESS"

definition FakeSdioFindFunc :: "bool \<Rightarrow> bool \<Rightarrow> HDF_STATUS" where
  "FakeSdioFindFunc devnull confnull = (if devnull \<or> confnull then HDF_ERR_INVALID_OBJECT else HDF_SUCCESS)"

subsection \<open>The controller\<close>

definition FakeSdioDeleteCntlr :: "SdioCntlr option \<Rightarrow> trace \<Rightarrow> trace" where
  "FakeSdioDeleteCntlr cp t =
     (case cp of
       None \<Rightarrow> t
     | Some c \<Rightarrow>
         let t = (if sc_curDev c \<noteq> 0
                  then kproc OsalMemFree [sc_curDev c] (kproc MmcDeviceRemove [sc_curDev c] t) else t);
             t = kproc MmcCntlrRemove [sc_addr c] t
         in kproc OsalMemFree [sc_addr c] t)"

text \<open>\<open>propnull\<close>: the device object has no property node.\<close>

definition FakeSdioCntlrParse ::
  "env \<Rightarrow> sdio_world \<Rightarrow> SdioCntlr option \<Rightarrow> bool \<Rightarrow> bool \<Rightarrow> trace \<Rightarrow> HDF_STATUS \<times> SdioCntlr option \<times> trace" where
  "FakeSdioCntlrParse E W cp objnull propnull t =
     (case cp of
       None \<Rightarrow> (HDF_FAILURE, cp, t)
     | Some c \<Rightarrow>
         if objnull then (HDF_FAILURE, cp, t) else
         if propnull then (HDF_FAILURE, cp, t) else
         let (drs, t) = kcall E DeviceResourceGetIface [] t
         in if drs = 0 \<or> \<not> sw_ifaceComplete W drs then (HDF_FAILURE, cp, t) else
         let (ret, t) = kstatus E drs_GetUint16 [] t
         in if ret \<noteq> HDF_SUCCESS then (ret, cp, t) else
         let c = c\<lparr>sc_index := sw_hostId W t\<rparr>;
             (ret, t) = kstatus E drs_GetUint32 [] t
         in if ret \<noteq> HDF_SUCCESS then (ret, Some c, t) else
         (HDF_SUCCESS, Some (c\<lparr>sc_devType := sw_devType W t\<rparr>), t))"

definition FakeSdioRescan :: "bool \<Rightarrow> HDF_STATUS" where
  "FakeSdioRescan cnull = (if cnull then HDF_ERR_INVALID_OBJECT else HDF_SUCCESS)"

text \<open>The label \<open>ERR_OUT\<close>. The results of \<open>FakeSdioBind\<close> are the status, the service pointer of the
  device object and the controller, as long as it lives.\<close>

definition sdio_err_out ::
  "HDF_STATUS \<Rightarrow> u32 \<Rightarrow> SdioCntlr option \<Rightarrow> trace \<Rightarrow> HDF_STATUS \<times> u32 \<times> SdioCntlr option \<times> trace" where
  "sdio_err_out ret service c t = (ret, service, None, FakeSdioDeleteCntlr c t)"

definition FakeSdioBind ::
  "env \<Rightarrow> sdio_world \<Rightarrow> bool \<Rightarrow> bool \<Rightarrow> u32 \<Rightarrow> trace \<Rightarrow> HDF_STATUS \<times> u32 \<times> SdioCntlr option \<times> trace" where
  "FakeSdioBind E W objnull propnull service t =
     (if objnull then (HDF_ERR_INVALID_OBJECT, service, None, t) else
      let (p, t) = kcall E OsalMemCalloc [SIZEOF_MmcCntlr W] t
      in if p = 0 then (HDF_ERR_MALLOC_FAIL, service, None, t) else
      let c = \<lparr>sc_addr = p, sc_index = 0, sc_devType = 0, sc_curDev = 0\<rparr>;
          service = p + OFF_service W;
          (ret, cp, t) = FakeSdioCntlrParse E W (Some c) objnull propnull t
      in if ret \<noteq> HDF_SUCCESS then sdio_err_out ret service cp t else
      let (ret, t) = kstatus E MmcCntlrAdd [p, 0] t
      in if ret \<noteq> HDF_SUCCESS then sdio_err_out ret service cp t else
      let (ret, t) = kstatus E MmcCntlrAllocDev [p, sc_devType (the cp)] t;
          cp = map_option (\<lambda>c. c\<lparr>sc_curDev := sw_curDev W t\<rparr>) cp
      in if ret \<noteq> HDF_SUCCESS then sdio_err_out ret service cp t else
      (HDF_SUCCESS, service, cp, kproc MmcDeviceAddOps [sc_curDev (the cp)] t))"

definition FakeSdioInit :: HDF_STATUS where
  "FakeSdioInit = HDF_SUCCESS"

text \<open>\<open>Release\<close> takes \<open>obj->service\<close> for the controller, whose first member it is.\<close>

definition FakeSdioRelease :: "bool \<Rightarrow> SdioCntlr option \<Rightarrow> trace \<Rightarrow> trace" where
  "FakeSdioRelease objnull c t = (if objnull then t else FakeSdioDeleteCntlr c t)"

subsection \<open>The GPIO controller\<close>

definition FakeGiopDummyOps0 :: "u16 \<Rightarrow> u16 \<Rightarrow> HDF_STATUS" where
  "FakeGiopDummyOps0 local dir = HDF_SUCCESS"

definition HdfWlanConfigSDIO :: "env \<Rightarrow> sdio_world \<Rightarrow> u8 \<Rightarrow> trace \<Rightarrow> HDF_STATUS \<times> trace" where
  "HdfWlanConfigSDIO E W busId t =
     (let (p, t) = kcall E OsalMemCalloc [SIZEOF_GpioCntlr W] t
      in if p = 0 then (HDF_ERR_MALLOC_FAIL, t) else
      let (ret, t) = kstatus E GpioCntlrAdd [p] t
      in if ret \<noteq> HDF_SUCCESS then (ret, kproc OsalMemFree [p] t) else (ret, t))"

subsection \<open>Properties\<close>

lemma FakeSdioCntlrParse_frame:
  assumes "FakeSdioCntlrParse E W (Some c) objnull propnull t = (ret, cp, t')" and "sc_addr c = p"
  shows "\<exists>c'. cp = Some c' \<and> sc_addr c' = p \<and> sc_curDev c' = sc_curDev c \<and>
    (\<forall>f. f \<notin> {DeviceResourceGetIface, drs_GetUint16, drs_GetUint32} \<longrightarrow> calls_of f t' = calls_of f t)"
  using assms by (auto simp: FakeSdioCntlrParse_def io_defs Let_def split: if_splits)

text \<open>Binding the dummy controller. When it fails, the status is that of the step that failed and
  everything it allocated is gone: the controller is removed and freed exactly once, and so is the
  MMC device when one was attached. When it succeeds, nothing was freed and the attached device has
  got its operations. Releasing a bound controller then frees the controller and its device.\<close>

theorem FakeSdioBind_owns_controller:
  assumes "FakeSdioBind E W False propnull service t = (ret, service', cp, t')"
    and "p = sys_ret E t OsalMemCalloc [SIZEOF_MmcCntlr W]" and "p \<noteq> 0"
  shows "(ret \<noteq> HDF_SUCCESS \<longrightarrow> cp = None \<and>
      calls_of MmcCntlrRemove t' = calls_of MmcCntlrRemove t @ [[p]] \<and>
      (\<exists>d. calls_of OsalMemFree t' = calls_of OsalMemFree t @ (if d = 0 then [] else [[d]]) @ [[p]] \<and>
        calls_of MmcDeviceRemove t' = calls_of MmcDeviceRemove t @ (if d = 0 then [] else [[d]]) \<and>
        (d \<noteq> 0 \<longrightarrow> calls_of MmcCntlrAllocDev t' \<noteq> calls_of MmcCntlrAllocDev t))) \<and>
    (ret = HDF_SUCCESS \<longrightarrow> (\<exists>c. cp = Some c \<and> sc_addr c = p \<and>
      calls_of OsalMemFree t' = calls_of OsalMemFree t \<and>
      calls_of MmcDeviceAddOps t' = calls_of MmcDeviceAddOps t @ [[sc_curDev c]] \<and>
      calls_of OsalMemFree (FakeSdioRelease False cp t') = calls_of OsalMemFree t' @
        (if sc_curDev c = 0 then [] else [[sc_curDev c]]) @ [[p]]))"
proof -
  let ?c = "\<lparr>sc_addr = p, sc_index = 0, sc_devType = 0, sc_curDev = 0\<rparr>"
  let ?t = "Call OsalMemCalloc [SIZEOF_MmcCntlr W] # t"
  obtain ret1 cp1 t1 where parse: "FakeSdioCntlrParse E W (Some ?c) False propnull ?t = (ret1, cp1, t1)"
    by (cases "FakeSdioCntlrParse E W (Some ?c) False propnull ?t")
  obtain c1 where c1: "cp1 = Some c1" "sc_addr c1 = p" "sc_curDev c1 = 0"
    and frame: "\<forall>f. f \<notin> {DeviceResourceGetIface, drs_GetUint16, drs_GetUint32} \<longrightarrow> calls_of f t1 = calls_of f ?t"
    using FakeSdioCntlrParse_frame [OF parse refl] by auto
  have k: "calls_of OsalMemFree t1 = calls_of OsalMemFree t" "calls_of MmcDeviceRemove t1 = calls_of MmcDeviceRemove t"
    "calls_of MmcCntlrRemove t1 = calls_of MmcCntlrRemove t" "calls_of MmcCntlrAllocDev t1 = calls_of MmcCntlrAllocDev t"
    "calls_of MmcDeviceAddOps t1 = calls_of MmcDeviceAddOps t"
    using frame by simp_all
  let ?t2 = "Call MmcCntlrAdd [p, 0] # t1"
  let ?t3 = "Call MmcCntlrAllocDev [p, sc_devType c1] # ?t2"
  let ?c3 = "c1\<lparr>sc_curDev := sw_curDev W ?t3\<rparr>"
  have run: "FakeSdioBind E W False propnull service t =
      (if ret1 \<noteq> HDF_SUCCESS then sdio_err_out ret1 (p + OFF_service W) (Some c1) t1
       else if sys_hdf E t1 MmcCntlrAdd [p, 0] \<noteq> HDF_SUCCESS
         then sdio_err_out (sys_hdf E t1 MmcCntlrAdd [p, 0]) (p + OFF_service W) (Some c1) ?t2
       else if sys_hdf E ?t2 MmcCntlrAllocDev [p, sc_devType c1] \<noteq> HDF_SUCCESS
         then sdio_err_out (sys_hdf E ?t2 MmcCntlrAllocDev [p, sc_devType c1]) (p + OFF_service W) (Some ?c3) ?t3
       else (HDF_SUCCESS, p + OFF_service W, Some ?c3, Call MmcDeviceAddOps [sc_curDev ?c3] # ?t3))"
    using parse c1 assms(2) [symmetric] assms(3)
    by (simp only: FakeSdioBind_def io_defs Let_def if_False prod.case option.map option.sel split: if_split)
  consider "(ret, service', cp, t') = sdio_err_out ret (p + OFF_service W) (Some c1) t1" "ret \<noteq> HDF_SUCCESS"
    | "(ret, service', cp, t') = sdio_err_out ret (p + OFF_service W) (Some c1) ?t2" "ret \<noteq> HDF_SUCCESS"
    | "(ret, service', cp, t') = sdio_err_out ret (p + OFF_service W) (Some ?c3) ?t3" "ret \<noteq> HDF_SUCCESS"
    | "ret = HDF_SUCCESS" "cp = Some ?c3" "t' = Call MmcDeviceAddOps [sc_curDev ?c3] # ?t3"
    using run assms(1) by (auto simp: sdio_err_out_def split: if_splits)
  then show ?thesis
  proof cases
    case 1
    then show ?thesis using c1 k by (auto simp: sdio_err_out_def FakeSdioDeleteCntlr_def io_defs intro!: exI [of _ 0])
  next
    case 2
    then show ?thesis using c1 k by (auto simp: sdio_err_out_def FakeSdioDeleteCntlr_def io_defs intro!: exI [of _ 0])
  next
    case 3
    then show ?thesis
      using c1 k by (auto simp: sdio_err_out_def FakeSdioDeleteCntlr_def io_defs Let_def intro!: exI [of _ "sw_curDev W ?t3"])
  next
    case 4
    then show ?thesis using c1 k by (simp add: FakeSdioRelease_def FakeSdioDeleteCntlr_def io_defs Let_def)
  qed
qed

definition example_sdio :: sdio_world where
  "example_sdio = \<lparr>SDIO_FUNC_INFO = 1, SIZEOF_MmcCntlr = 0x100, SIZEOF_GpioCntlr = 0x40, OFF_service = 0,
     sw_hostId = (\<lambda>t. 2), sw_devType = (\<lambda>t. 1), sw_curDev = (\<lambda>t. 0x2000), sw_ifaceComplete = (\<lambda>d. True)\<rparr>"

text \<open>One machine where binding succeeds and one where the framework refuses to attach a device.\<close>

lemma FakeSdioBind_owns_controller_witness:
  "(\<exists>service' cp t'. FakeSdioBind (example_env (\<lambda>_. 0)) example_sdio False False 0 [] = (HDF_SUCCESS, service', cp, t') \<and>
     calls_of OsalMemFree t' = []) \<and>
   (\<exists>ret service' cp t'. FakeSdioBind ((example_env (\<lambda>_. 0))\<lparr>sys_hdf := \<lambda>t f xs. if f = MmcCntlrAllocDev then HDF_ERR_IO else HDF_SUCCESS\<rparr>)
     example_sdio False False 0 [] = (ret, service', cp, t') \<and> ret = HDF_ERR_IO \<and> cp = None \<and>
     calls_of MmcCntlrRemove t' = [[0x1000]])"
proof (intro conjI)
  let ?E = "example_env (\<lambda>_. 0)"
  obtain service' cp t' where r: "FakeSdioBind ?E example_sdio False False 0 [] = (HDF_SUCCESS, service', cp, t')"
    by (simp add: FakeSdioBind_def FakeSdioCntlrParse_def example_sdio_def io_defs Let_def)
  from FakeSdioBind_owns_controller [OF r refl] have "calls_of OsalMemFree t' = []" by auto
  with r show "\<exists>service' cp t'. FakeSdioBind ?E example_sdio False False 0 [] = (HDF_SUCCESS, service', cp, t') \<and>
     calls_of OsalMemFree t' = []" by blast
next
  let ?E = "(example_env (\<lambda>_. 0))\<lparr>sys_hdf := \<lambda>t f xs. if f = MmcCntlrAllocDev then HDF_ERR_IO else HDF_SUCCESS\<rparr>"
  have p: "sys_ret ?E t OsalMemCalloc xs = 0x1000" for t xs by (simp add: example_env_def)
  obtain service' cp t' where r: "FakeSdioBind ?E example_sdio False False 0 [] = (HDF_ERR_IO, service', cp, t')"
    by (simp add: FakeSdioBind_def FakeSdioCntlrParse_def example_sdio_def example_env_def io_defs Let_def sdio_err_out_def)
  from FakeSdioBind_owns_controller [OF r refl] have "cp = None" "calls_of MmcCntlrRemove t' = [[0x1000]]"
    by (simp_all add: p)
  with r show "\<exists>ret service' cp t'. FakeSdioBind ?E example_sdio False False 0 [] = (ret, service', cp, t') \<and> ret = HDF_ERR_IO \<and>
     cp = None \<and> calls_of MmcCntlrRemove t' = [[0x1000]]" by blast
qed

end
