(* ===== verification/UartPl011.thy ===== *)
theory UartPl011
  imports Virtmmio
begin

text \<open>
  The PL011 UART, \<open>drivers/uart/uart_pl011.c\<close> and \<open>uart_pl011.h\<close>: the interrupt handler, the line
  configuration and the receive ring buffer. \<open>UartDriverData\<close>, \<open>UartPl011Port\<close> and \<open>UartTransfer\<close> are
  the C structs; a pointer that may be null is an option. The operation table \<open>UartOps\<close> is not a
  field of \<open>UartDriverData\<close> but an argument of the functions of theory \<open>Uart\<close> that go through it.
  The enumerations of the UART framework and the constants of the board are the parameter
  \<open>uart_consts\<close>. 8- and 16-bit register accesses are recorded with their value zero-extended.
\<close>

subsection \<open>Data\<close>

record UartAttribute =
  dataBits :: u32
  parity :: u32
  stopBits :: u32
  rts :: u32
  cts :: u32
  fifoRxEn :: u32
  fifoTxEn :: u32

record UartTransfer =
  tr_addr :: u32
  rp :: u32
  wp :: u32
  tr_data :: "u8 list"

record UartPl011Port =
  port_addr :: u32
  physBase :: u32
  irqNum :: u32
  port_flags :: u32

record UartDriverData =
  udd_addr :: u32
  num :: u32
  baudrate :: u32
  attr :: UartAttribute
  rxTransfer :: "UartTransfer option"
  count :: "32 word"
  state :: u32
  flags :: u32
  priv_port :: "UartPl011Port option"

text \<open>The operation table: each entry is a function or null.\<close>

record UartOps =
  op_StartUp :: "(UartDriverData \<Rightarrow> trace \<Rightarrow> (HDF_STATUS \<times> UartDriverData \<times> trace) option) option"
  op_ShutDown :: "(UartDriverData \<Rightarrow> trace \<Rightarrow> HDF_STATUS \<times> UartDriverData \<times> trace) option"
  op_StartTx :: "(UartDriverData \<Rightarrow> u32 \<Rightarrow> u32 \<Rightarrow> trace \<Rightarrow> HDF_STATUS \<times> trace) option"
  op_Config :: "(UartDriverData \<Rightarrow> trace \<Rightarrow> (HDF_STATUS \<times> trace) option) option"
  op_DmaShutDown :: "(UartDriverData \<Rightarrow> u32 \<Rightarrow> trace \<Rightarrow> UartDriverData \<times> trace) option"

text \<open>\<open>memcpy_ok n\<close>: whether \<open>memcpy_s\<close> copies \<open>n\<close> bytes. \<open>attr_field\<close> is the conversion to a field of
  \<open>struct UartAttribute\<close>, a bit field of the framework.\<close>

record uart_consts =
  UART_ATTR_DATABIT_5 :: u32
  UART_ATTR_DATABIT_6 :: u32
  UART_ATTR_DATABIT_7 :: u32
  UART_ATTR_DATABIT_8 :: u32
  UART_ATTR_PARITY_EVEN :: u32
  UART_ATTR_PARITY_ODD :: u32
  UART_ATTR_PARITY_MARK :: u32
  UART_ATTR_PARITY_SPACE :: u32
  UART_ATTR_STOPBIT_2 :: u32
  UART_ATTR_CTS_EN :: u32
  UART_ATTR_RTS_EN :: u32
  CONFIG_UART_CLK_INPUT :: u32
  CONSOLE_UART :: u32
  memcpy_ok :: "u32 \<Rightarrow> bool"
  attr_field :: "u32 \<Rightarrow> u32"
  SIZEOF_UartTransfer :: u32
  SIZEOF_UartDriverData :: u32
  SIZEOF_UartPl011Port :: u32
  OFF_wait :: u32

subsection \<open>Registers\<close>

abbreviation (input) UART_DR :: u32 where "UART_DR \<equiv> 0x0"
abbreviation (input) UART_RSR :: u32 where "UART_RSR \<equiv> 0x04"
abbreviation (input) UART_FR :: u32 where "UART_FR \<equiv> 0x18"
abbreviation (input) UART_CLR :: u32 where "UART_CLR \<equiv> 0x44"
abbreviation (input) UART_CR :: u32 where "UART_CR \<equiv> 0x30"
abbreviation (input) UART_IBRD :: u32 where "UART_IBRD \<equiv> 0x24"
abbreviation (input) UART_FBRD :: u32 where "UART_FBRD \<equiv> 0x28"
abbreviation (input) UART_LCR_H :: u32 where "UART_LCR_H \<equiv> 0x2C"
abbreviation (input) UART_IFLS :: u32 where "UART_IFLS \<equiv> 0x34"
abbreviation (input) UART_IMSC :: u32 where "UART_IMSC \<equiv> 0x38"
abbreviation (input) UART_MIS :: u32 where "UART_MIS \<equiv> 0x40"
abbreviation (input) UART_IFLS_RX4_8 :: u32 where "UART_IFLS_RX4_8 \<equiv> 0x10"
abbreviation (input) UART_IFLS_TX7_8 :: u32 where "UART_IFLS_TX7_8 \<equiv> 0x04"
abbreviation (input) UART_CR_CTS :: u32 where "UART_CR_CTS \<equiv> 0x8000"
abbreviation (input) UART_CR_RTS :: u32 where "UART_CR_RTS \<equiv> 0x4000"
abbreviation (input) UART_CR_RX_EN :: u32 where "UART_CR_RX_EN \<equiv> 0x200"
abbreviation (input) UART_CR_TX_EN :: u32 where "UART_CR_TX_EN \<equiv> 0x100"
abbreviation (input) UART_CR_EN :: u32 where "UART_CR_EN \<equiv> 1"
abbreviation (input) UART_FR_RXFE :: u32 where "UART_FR_RXFE \<equiv> 0x10"
abbreviation (input) UART_FR_BUSY :: u32 where "UART_FR_BUSY \<equiv> 0x08"
abbreviation (input) UART_LCR_H_BREAK :: u32 where "UART_LCR_H_BREAK \<equiv> 0x01"
abbreviation (input) UART_LCR_H_PEN :: u32 where "UART_LCR_H_PEN \<equiv> 0x02"
abbreviation (input) UART_LCR_H_EPS :: u32 where "UART_LCR_H_EPS \<equiv> 0x04"
abbreviation (input) UART_LCR_H_STP2 :: u32 where "UART_LCR_H_STP2 \<equiv> 0x08"
abbreviation (input) UART_LCR_H_FIFO_EN :: u32 where "UART_LCR_H_FIFO_EN \<equiv> 0x10"
abbreviation (input) UART_LCR_H_8_BIT :: u32 where "UART_LCR_H_8_BIT \<equiv> 0x60"
abbreviation (input) UART_LCR_H_7_BIT :: u32 where "UART_LCR_H_7_BIT \<equiv> 0x40"
abbreviation (input) UART_LCR_H_6_BIT :: u32 where "UART_LCR_H_6_BIT \<equiv> 0x20"
abbreviation (input) UART_LCR_H_5_BIT :: u32 where "UART_LCR_H_5_BIT \<equiv> 0"
abbreviation (input) UART_LCR_H_SPS :: u32 where "UART_LCR_H_SPS \<equiv> 0x80"
abbreviation (input) UART_MIS_RX :: u32 where "UART_MIS_RX \<equiv> 0x10"
abbreviation (input) UART_IMSC_TIMEOUT :: u32 where "UART_IMSC_TIMEOUT \<equiv> 0x40"
abbreviation (input) UART_IMSC_RX :: u32 where "UART_IMSC_RX \<equiv> 0x10"
abbreviation (input) BUF_SIZE :: u32 where "BUF_SIZE \<equiv> 0x4000"
abbreviation (input) FIFO_SIZE :: nat where "FIFO_SIZE \<equiv> 128"
abbreviation (input) UART_WAIT_MS :: u32 where "UART_WAIT_MS \<equiv> 10"
abbreviation (input) IBRD_COEFFICIENTS :: u32 where "IBRD_COEFFICIENTS \<equiv> 16"
abbreviation (input) FBRD_COEFFICIENTS :: u32 where "FBRD_COEFFICIENTS \<equiv> 8"
abbreviation (input) UART_FLG_DMA_RX :: u32 where "UART_FLG_DMA_RX \<equiv> 1"
abbreviation (input) UART_FLG_DMA_TX :: u32 where "UART_FLG_DMA_TX \<equiv> 2"
abbreviation (input) UART_FLG_RD_BLOCK :: u32 where "UART_FLG_RD_BLOCK \<equiv> 4"
abbreviation (input) PL011_FLG_IRQ_REQUESTED :: u32 where "PL011_FLG_IRQ_REQUESTED \<equiv> 1"

definition OSAL_READW :: "env \<Rightarrow> u32 \<Rightarrow> trace \<Rightarrow> u32 \<times> trace" where
  "OSAL_READW E a t = (let v = rd_reg E t a AND 0xFFFF in (v, Rd a v # t))"

definition OSAL_READB :: "env \<Rightarrow> u32 \<Rightarrow> trace \<Rightarrow> u32 \<times> trace" where
  "OSAL_READB E a t = (let v = rd_reg E t a AND 0xFF in (v, Rd a v # t))"

definition OSAL_WRITEW :: "u32 \<Rightarrow> u32 \<Rightarrow> trace \<Rightarrow> trace" where
  "OSAL_WRITEW v a t = Wr a (v AND 0xFFFF) # t"

definition OSAL_WRITEB :: "u32 \<Rightarrow> u32 \<Rightarrow> trace \<Rightarrow> trace" where
  "OSAL_WRITEB v a t = Wr a (v AND 0xFF) # t"

subsection \<open>The receive ring\<close>

text \<open>\<open>memcpy_s\<close> out of and into the ring's array; outside the array is undefined.\<close>

definition copy_out :: "u8 list \<Rightarrow> u32 \<Rightarrow> u32 \<Rightarrow> u8 list option" where
  "copy_out d off n = (if unat off + unat n \<le> length d then Some (take (unat n) (drop (unat off) d)) else None)"

definition copy_in :: "u8 list \<Rightarrow> u32 \<Rightarrow> u8 list \<Rightarrow> u8 list option" where
  "copy_in d off bs = (if unat off + length bs \<le> length d
     then Some (take (unat off) d @ bs @ drop (unat off + length bs) d) else None)"

text \<open>A guarded copy \<open>n > 0 && memcpy_s(...) != EOK\<close>: \<open>Inl\<close> is the error return.\<close>

definition read_part :: "uart_consts \<Rightarrow> u8 list \<Rightarrow> u32 \<Rightarrow> u32 \<Rightarrow> (HDF_STATUS + u8 list) option" where
  "read_part C d off n =
     (if n > 0 then if \<not> memcpy_ok C n then Some (Inl HDF_ERR_IO)
        else do { bs \<leftarrow> copy_out d off n; Some (Inr bs) }
      else Some (Inr []))"

definition write_part :: "uart_consts \<Rightarrow> u8 list \<Rightarrow> u32 \<Rightarrow> u8 list \<Rightarrow> u32 \<Rightarrow> (HDF_STATUS + u8 list) option" where
  "write_part C d off bs n =
     (if n > 0 then if \<not> memcpy_ok C n then Some (Inl HDF_ERR_IO)
        else do { d \<leftarrow> copy_in d off (take (unat n) bs); Some (Inr d) }
      else Some (Inr d))"

text \<open>\<open>Pl011Read\<close>: an error, or the bytes copied to the caller's buffer, whose number is the C result.\<close>

definition Pl011Read ::
  "uart_consts \<Rightarrow> bool \<Rightarrow> u32 \<Rightarrow> UartDriverData \<Rightarrow> ((HDF_STATUS + u8 list) \<times> UartDriverData) option" where
  "Pl011Read C bufnull cnt udd =
     (if bufnull \<or> cnt = 0 then Some (Inl HDF_ERR_INVALID_PARAM, udd) else
      case rxTransfer udd of
        None \<Rightarrow> Some (Inl HDF_ERR_INVALID_PARAM, udd)
      | Some tr \<Rightarrow>
          let w = wp tr; r = rp tr; d = tr_data tr in
          if r = w then Some (Inr [], udd) else
          if r < w then
            let upperHalf = (if cnt > w - r then w - r else cnt) in do {
              p \<leftarrow> read_part C d r upperHalf;
              (case p of
                Inl e \<Rightarrow> Some (Inl e, udd)
              | Inr bs \<Rightarrow> Some (Inr bs, udd\<lparr>rxTransfer := Some (tr\<lparr>rp := r + upperHalf\<rparr>)\<rparr>))
            }
          else
            let cnt = (if cnt > BUF_SIZE - r + w then BUF_SIZE - r + w else cnt);
                upperHalf = (if cnt > BUF_SIZE - r then BUF_SIZE - r else cnt);
                lowerHalf = (if cnt > BUF_SIZE - r then cnt - (BUF_SIZE - r) else 0) in do {
              p \<leftarrow> read_part C d r upperHalf;
              (case p of
                Inl e \<Rightarrow> Some (Inl e, udd)
              | Inr bs1 \<Rightarrow> do {
                  p \<leftarrow> read_part C d 0 lowerHalf;
                  (case p of
                    Inl e \<Rightarrow> Some (Inl e, udd)
                  | Inr bs2 \<Rightarrow>
                      let r = r + upperHalf; r = (if r \<ge> BUF_SIZE then lowerHalf else r)
                      in Some (Inr (bs1 @ bs2), udd\<lparr>rxTransfer := Some (tr\<lparr>rp := r\<rparr>)\<rparr>))
                })
            })"

definition Pl011Notify :: "u32 \<Rightarrow> trace \<Rightarrow> HDF_STATUS \<times> trace" where
  "Pl011Notify wait t =
     (if wait = 0 then (HDF_ERR_INVALID_PARAM, t)
      else (HDF_SUCCESS, kproc notify_poll [wait] (kproc LOS_EventWrite [wait, 1] t)))"

text \<open>The end of \<open>PL011UartRecvNotify\<close>: notify the reader, then publish the new write position.\<close>

definition recv_done ::
  "uart_consts \<Rightarrow> UartDriverData \<Rightarrow> UartTransfer \<Rightarrow> u8 list \<Rightarrow> u32 \<Rightarrow> u32 \<Rightarrow> trace
     \<Rightarrow> ((HDF_STATUS + u32) \<times> UartDriverData \<times> trace) option" where
  "recv_done C udd tr d w n t =
     (let tr = tr\<lparr>tr_data := d\<rparr>;
          (ret, t) = Pl011Notify (udd_addr udd + OFF_wait C) t
      in if ret \<noteq> HDF_SUCCESS then Some (Inl HDF_FAILURE, udd\<lparr>rxTransfer := Some tr\<rparr>, t)
         else Some (Inr n, udd\<lparr>rxTransfer := Some (tr\<lparr>wp := w\<rparr>)\<rparr>, t))"

definition PL011UartRecvNotify ::
  "uart_consts \<Rightarrow> u8 list \<Rightarrow> u32 \<Rightarrow> UartDriverData \<Rightarrow> trace
     \<Rightarrow> ((HDF_STATUS + u32) \<times> UartDriverData \<times> trace) option" where
  "PL011UartRecvNotify C buf cnt udd t =
     (if cnt = 0 then Some (Inl HDF_ERR_INVALID_PARAM, udd, t) else
      case rxTransfer udd of
        None \<Rightarrow> Some (Inl HDF_ERR_INVALID_PARAM, udd, t)
      | Some tr \<Rightarrow>
          let w = wp tr; r = rp tr; d = tr_data tr in
          if w < r then
            let upperHalf = (if cnt > r - w - 1 then r - w - 1 else cnt) in do {
              p \<leftarrow> write_part C d w buf upperHalf;
              (case p of
                Inl e \<Rightarrow> Some (Inl e, udd, t)
              | Inr d \<Rightarrow> recv_done C udd tr d (w + upperHalf) upperHalf t)
            }
          else
            let cnt = (if cnt > (BUF_SIZE - w) + r - 1 then (BUF_SIZE - w) + r - 1 else cnt);
                upperHalf = (if cnt > BUF_SIZE - w then BUF_SIZE - w else cnt);
                lowerHalf = (if cnt > BUF_SIZE - w then cnt - (BUF_SIZE - w) else 0) in do {
              p \<leftarrow> write_part C d w buf upperHalf;
              (case p of
                Inl e \<Rightarrow> Some (Inl e, udd, t)
              | Inr d1 \<Rightarrow> do {
                  p \<leftarrow> write_part C d1 0 (drop (unat upperHalf) buf) lowerHalf;
                  (case p of
                    Inl e \<Rightarrow> Some (Inl e, udd\<lparr>rxTransfer := Some (tr\<lparr>tr_data := d1\<rparr>)\<rparr>, t)
                  | Inr d2 \<Rightarrow>
                      let w = w + upperHalf; w = (if w \<ge> BUF_SIZE then lowerHalf else w)
                      in recv_done C udd tr d2 w (upperHalf + lowerHalf) t)
                })
            })"

definition PL011UartRxBufEmpty :: "UartDriverData \<Rightarrow> bool option" where
  "PL011UartRxBufEmpty udd = do { tr \<leftarrow> rxTransfer udd; Some (wp tr = rp tr) }"

subsection \<open>The interrupt\<close>

text \<open>The loop over the receive FIFO, with the number of characters the buffer still has room for:
  the characters read, and whether a magic key ended it.\<close>

fun irq_loop :: "env \<Rightarrow> bool \<Rightarrow> u32 \<Rightarrow> nat \<Rightarrow> u8 list \<Rightarrow> trace \<Rightarrow> u8 list \<times> bool \<times> trace" where
  "irq_loop E console b 0 buf t = (buf, False, t)"
| "irq_loop E console b (Suc n) buf t =
     (let (fr, t) = OSAL_READB E (b + UART_FR) t
      in if fr AND UART_FR_RXFE \<noteq> 0 then (buf, False, t) else
      let (c, t) = OSAL_READB E (b + UART_DR) t;
          buf = buf @ [ucast c]
      in if \<not> console then irq_loop E console b n buf t else
      let (k, t) = kcall E CheckMagicKey [c] t
      in if k \<noteq> 0 then (buf, True, t) else irq_loop E console b n buf t)"

definition Pl011Irq ::
  "env \<Rightarrow> uart_consts \<Rightarrow> UartDriverData option \<Rightarrow> trace \<Rightarrow> (HDF_STATUS \<times> UartDriverData option \<times> trace) option" where
  "Pl011Irq E C uddp t =
     (case uddp of
       None \<Rightarrow> Some (HDF_FAILURE, None, t)
     | Some udd \<Rightarrow>
       (case priv_port udd of
         None \<Rightarrow> Some (HDF_FAILURE, Some udd, t)
       | Some port \<Rightarrow>
           let b = physBase port;
               (status, t) = OSAL_READW E (b + UART_MIS) t
           in if status AND (UART_MIS_RX OR UART_IMSC_TIMEOUT) \<noteq> 0 then
                (let (buf, magic, t) = irq_loop E (num udd = CONSOLE_UART C) b FIFO_SIZE [] t
                 in if magic then Some (HDF_SUCCESS, Some udd, OSAL_WRITEW 0xFFFF (b + UART_CLR) t)
                 else do {
                   (_, udd, t) \<leftarrow> PL011UartRecvNotify C buf (of_nat (length buf)) udd t;
                   Some (HDF_SUCCESS, Some udd, OSAL_WRITEW 0xFFFF (b + UART_CLR) t)
                 })
              else Some (HDF_SUCCESS, Some udd, OSAL_WRITEW 0xFFFF (b + UART_CLR) t)))"

subsection \<open>Configuration of the line\<close>

definition Pl011ConfigBaudrate :: "uart_consts \<Rightarrow> UartDriverData \<Rightarrow> UartPl011Port \<Rightarrow> trace \<Rightarrow> trace" where
  "Pl011ConfigBaudrate C udd port t =
     (let tmp = (ucast IBRD_COEFFICIENTS :: u64) * ucast (baudrate udd)
      in if tmp = 0 \<or> tmp > 0xFFFFFFFF then t else
      let v = IBRD_COEFFICIENTS * baudrate udd;
          divider = CONFIG_UART_CLK_INPUT C div v;
          remainder = CONFIG_UART_CLK_INPUT C mod v;
          v = (FBRD_COEFFICIENTS * remainder) div baudrate udd;
          fraction = drop_bit 1 v + (v AND 1);
          t = WRITE_UINT32 divider (physBase port + UART_IBRD) t
      in WRITE_UINT32 fraction (physBase port + UART_FBRD) t)"

definition Pl011ConfigDataBits :: "uart_consts \<Rightarrow> UartDriverData \<Rightarrow> u32 \<Rightarrow> u32" where
  "Pl011ConfigDataBits C udd lcrh =
     (let lcrh = lcrh AND NOT UART_LCR_H_8_BIT; b = dataBits (attr udd)
      in if b = UART_ATTR_DATABIT_5 C then lcrh OR UART_LCR_H_5_BIT
         else if b = UART_ATTR_DATABIT_6 C then lcrh OR UART_LCR_H_6_BIT
         else if b = UART_ATTR_DATABIT_7 C then lcrh OR UART_LCR_H_7_BIT
         else lcrh OR UART_LCR_H_8_BIT)"

definition Pl011ConfigParity :: "uart_consts \<Rightarrow> UartDriverData \<Rightarrow> u32 \<Rightarrow> u32" where
  "Pl011ConfigParity C udd lcrh =
     (let p = parity (attr udd)
      in if p = UART_ATTR_PARITY_EVEN C then
           lcrh OR UART_LCR_H_PEN OR UART_LCR_H_EPS OR UART_LCR_H_FIFO_EN
         else if p = UART_ATTR_PARITY_ODD C then
           (lcrh OR UART_LCR_H_PEN) AND NOT UART_LCR_H_EPS OR UART_LCR_H_FIFO_EN
         else if p = UART_ATTR_PARITY_MARK C then
           (lcrh OR UART_LCR_H_PEN) AND NOT UART_LCR_H_EPS OR UART_LCR_H_FIFO_EN OR UART_LCR_H_SPS
         else if p = UART_ATTR_PARITY_SPACE C then
           lcrh OR UART_LCR_H_PEN OR UART_LCR_H_EPS OR UART_LCR_H_FIFO_EN OR UART_LCR_H_SPS
         else lcrh AND NOT UART_LCR_H_PEN AND NOT UART_LCR_H_SPS)"

definition Pl011ConfigStopBits :: "uart_consts \<Rightarrow> UartDriverData \<Rightarrow> u32 \<Rightarrow> u32" where
  "Pl011ConfigStopBits C udd lcrh =
     (if stopBits (attr udd) = UART_ATTR_STOPBIT_2 C then lcrh OR UART_LCR_H_STP2
      else lcrh AND NOT UART_LCR_H_STP2)"

definition lcrh_value :: "uart_consts \<Rightarrow> UartDriverData \<Rightarrow> u32 \<Rightarrow> u32" where
  "lcrh_value C udd lcrh =
     (let lcrh = Pl011ConfigDataBits C udd lcrh;
          lcrh = lcrh AND NOT UART_LCR_H_PEN;
          lcrh = lcrh AND NOT UART_LCR_H_EPS;
          lcrh = lcrh AND NOT UART_LCR_H_SPS;
          lcrh = Pl011ConfigParity C udd lcrh;
          lcrh = Pl011ConfigStopBits C udd lcrh
      in if fifoRxEn (attr udd) \<noteq> 0 \<or> fifoTxEn (attr udd) \<noteq> 0 then lcrh OR UART_LCR_H_FIFO_EN else lcrh)"

definition Pl011ConfigLCRH :: "uart_consts \<Rightarrow> UartDriverData \<Rightarrow> UartPl011Port \<Rightarrow> u32 \<Rightarrow> trace \<Rightarrow> trace" where
  "Pl011ConfigLCRH C udd port lcrh t = OSAL_WRITEB (lcrh_value C udd lcrh) (physBase port + UART_LCR_H) t"

definition Pl011ConfigIn :: "env \<Rightarrow> uart_consts \<Rightarrow> UartDriverData \<Rightarrow> trace \<Rightarrow> HDF_STATUS \<times> trace" where
  "Pl011ConfigIn E C udd t =
     (case priv_port udd of
       None \<Rightarrow> (HDF_ERR_INVALID_PARAM, t)
     | Some port \<Rightarrow>
         let b = physBase port;
             (cr, t) = OSAL_READW E (b + UART_CR) t;
             (lcrh, t) = OSAL_READW E (b + UART_LCR_H) t;
             t = OSAL_WRITEW 0 (b + UART_CR) t;
             cr = (if UART_ATTR_CTS_EN C = cts (attr udd) then cr OR UART_CR_CTS else cr AND NOT UART_CR_CTS);
             cr = (if UART_ATTR_RTS_EN C = rts (attr udd) then cr OR UART_CR_RTS else cr AND NOT UART_CR_RTS);
             lcrh = lcrh AND NOT UART_LCR_H_FIFO_EN;
             t = OSAL_WRITEB lcrh (b + UART_LCR_H) t;
             cr = cr AND NOT UART_CR_EN;
             t = OSAL_WRITEW cr (b + UART_CR) t;
             t = Pl011ConfigBaudrate C udd port t;
             t = Pl011ConfigLCRH C udd port lcrh t;
             cr = cr OR UART_CR_EN;
             t = OSAL_WRITEW cr (b + UART_CR) t
         in (HDF_SUCCESS, t))"

subsection \<open>The operations\<close>

definition Pl011StartUp ::
  "env \<Rightarrow> uart_consts \<Rightarrow> UartDriverData \<Rightarrow> trace \<Rightarrow> HDF_STATUS \<times> UartDriverData \<times> trace" where
  "Pl011StartUp E C udd t =
     (case priv_port udd of
       None \<Rightarrow> (HDF_ERR_INVALID_PARAM, udd, t)
     | Some port \<Rightarrow>
         let b = physBase port;
             t = kproc uart_clk_cfg [num udd, 1] t;
             t = OSAL_WRITEW 0 (b + UART_CR) t;
             t = OSAL_WRITEW 0xFF (b + UART_RSR) t;
             t = OSAL_WRITEW 0xFFFF (b + UART_CLR) t;
             t = OSAL_WRITEW 0 (b + UART_IMSC) t;
             t = OSAL_WRITEW (UART_IFLS_RX4_8 OR UART_IFLS_TX7_8) (b + UART_IFLS) t;
             (port, t) = (if flags udd AND UART_FLG_DMA_RX = 0 \<and> port_flags port AND PL011_FLG_IRQ_REQUESTED = 0
               then let (ret, t) = kstatus E OsalRegisterIrq [irqNum port, udd_addr udd] t
                    in if ret = HDF_SUCCESS
                       then (port\<lparr>port_flags := port_flags port OR PL011_FLG_IRQ_REQUESTED\<rparr>,
                             OSAL_WRITEW (UART_IMSC_RX OR UART_IMSC_TIMEOUT) (b + UART_IMSC) t)
                       else (port, t)
               else (port, t));
             (cr, t) = OSAL_READW E (b + UART_CR) t;
             cr = cr OR UART_CR_EN OR UART_CR_RX_EN OR UART_CR_TX_EN;
             t = WRITE_UINT32 cr (b + UART_CR) t;
             udd = udd\<lparr>priv_port := Some port\<rparr>;
             (ret, t) = Pl011ConfigIn E C udd t
         in (ret, udd, t))"

definition Pl011ShutDown :: "env \<Rightarrow> UartDriverData \<Rightarrow> trace \<Rightarrow> HDF_STATUS \<times> UartDriverData \<times> trace" where
  "Pl011ShutDown E udd t =
     (case priv_port udd of
       None \<Rightarrow> (HDF_ERR_INVALID_PARAM, udd, t)
     | Some port \<Rightarrow>
         let b = physBase port;
             t = OSAL_WRITEW 0 (b + UART_IMSC) t;
             t = OSAL_WRITEW 0xFFFF (b + UART_CLR) t;
             (port, t) = (if port_flags port AND PL011_FLG_IRQ_REQUESTED \<noteq> 0
               then (port\<lparr>port_flags := port_flags port AND NOT PL011_FLG_IRQ_REQUESTED\<rparr>,
                     kproc OsalUnregisterIrq [irqNum port, udd_addr udd] t)
               else (port, t));
             (reg, t) = OSAL_READW E (b + UART_CR) t;
             reg = reg AND NOT UART_CR_TX_EN AND NOT UART_CR_RX_EN AND NOT UART_CR_EN;
             t = OSAL_WRITEW reg (b + UART_CR) t;
             (reg, t) = OSAL_READW E (b + UART_LCR_H) t;
             reg = reg AND NOT UART_LCR_H_BREAK AND NOT UART_LCR_H_FIFO_EN;
             t = OSAL_WRITEW reg (b + UART_LCR_H) t;
             t = kproc uart_clk_cfg [num udd, 0] t
         in (HDF_SUCCESS, udd\<lparr>priv_port := Some port\<rparr>, t))"

definition Pl011StartTx :: "UartDriverData \<Rightarrow> u32 \<Rightarrow> u32 \<Rightarrow> trace \<Rightarrow> HDF_STATUS \<times> trace" where
  "Pl011StartTx udd buf cnt t =
     (if buf = 0 \<or> cnt = 0 then (HDF_ERR_INVALID_PARAM, t) else
      case priv_port udd of
        None \<Rightarrow> (HDF_ERR_INVALID_PARAM, t)
      | Some port \<Rightarrow> (HDF_SUCCESS, kproc UartPutsReg [physBase port, buf, cnt] t))"

text \<open>The wait for the end of a transmission.\<close>

partial_function (option) wait_sent :: "env \<Rightarrow> u32 \<Rightarrow> trace \<Rightarrow> trace option" where
  "wait_sent E b t =
     (let (fr, t) = OSAL_READB E (b + UART_FR) t
      in if fr AND UART_FR_BUSY = 0 then Some t
         else wait_sent E b (kproc OsalMSleep [UART_WAIT_MS] t))"

definition Pl011Config :: "env \<Rightarrow> uart_consts \<Rightarrow> UartDriverData \<Rightarrow> trace \<Rightarrow> (HDF_STATUS \<times> trace) option" where
  "Pl011Config E C udd t =
     (case priv_port udd of
       None \<Rightarrow> Some (HDF_ERR_INVALID_PARAM, t)
     | Some port \<Rightarrow> do {
         t \<leftarrow> wait_sent E (physBase port) t;
         Some (Pl011ConfigIn E C udd t)
       })"

definition Pl011GetOps :: "env \<Rightarrow> uart_consts \<Rightarrow> UartOps" where
  "Pl011GetOps E C = \<lparr>op_StartUp = Some (\<lambda>udd t. Some (Pl011StartUp E C udd t)),
     op_ShutDown = Some (Pl011ShutDown E), op_StartTx = Some Pl011StartTx,
     op_Config = Some (Pl011Config E C), op_DmaShutDown = None\<rparr>"

subsection \<open>The ring as a bounded queue\<close>

text \<open>The bytes between the read and the write position, oldest first. One byte of the array stays
  free, so that a full ring differs from an empty one.\<close>

definition ring_bytes :: "UartTransfer \<Rightarrow> u8 list" where
  "ring_bytes tr = (let r = unat (rp tr); w = unat (wp tr); d = tr_data tr
     in if r \<le> w then take (w - r) (drop r d) else drop r d @ take w d)"

definition ring_ok :: "UartTransfer \<Rightarrow> bool" where
  "ring_ok tr \<longleftrightarrow> length (tr_data tr) = 0x4000 \<and> unat (rp tr) < 0x4000 \<and> unat (wp tr) < 0x4000"

lemma ring_bytes_length: "ring_ok tr \<Longrightarrow> length (ring_bytes tr) \<le> 0x3FFF"
  by (auto simp: ring_ok_def ring_bytes_def Let_def)

lemma read_part_ok:
  "memcpy_ok C n \<Longrightarrow> unat off + unat n \<le> length d \<Longrightarrow> read_part C d off n = Some (Inr (take (unat n) (drop (unat off) d)))"
  by (auto simp: read_part_def copy_out_def word_gt_0 split: if_splits)

lemma write_part_ok:
  assumes "memcpy_ok C n" and "unat off + unat n \<le> length d" and "unat n \<le> length bs"
  shows "write_part C d off bs n = Some (Inr (take (unat off) d @ take (unat n) bs @ drop (unat off + unat n) d))"
  using assms by (cases "n = 0") (auto simp: write_part_def copy_in_def word_gt_0 min_def)

lemma unat_minus: "unat (b :: u32) \<le> unat a \<Longrightarrow> unat (a - b) = unat a - unat b"
  by (simp add: unat_sub word_le_nat_alt)

lemma unat_plus: "unat (a :: u32) + unat b < 2 ^ 32 \<Longrightarrow> unat (a + b) = unat a + unat b"
  by (simp add: unat_word_ariths)

text \<open>The two halves of a wrapped transfer, on natural numbers.\<close>

lemma wrapped_halves:
  fixes n N r w :: nat
  assumes "c = min n (N - r + w)" and "u = min c (N - r)" and "l = c - u" and "w < r" and "r < N"
  shows "n < N - r \<Longrightarrow> u = n \<and> l = 0" and "N - r \<le> n \<Longrightarrow> u = N - r \<and> l = min (n - (N - r)) w"
  using assms by (auto simp: min_def split: if_splits)

lemma wrapped_read:
  fixes n N r w :: nat
  assumes "c = min n (N - r + w)" and "u = min c (N - r)" and "l = c - u" and "w < r" and "r < N" and "length d = N"
  shows "take u (drop r d) @ take l d = take n (drop r d @ take w d)"
    and "r' = (if N \<le> r + u then l else r + u) \<Longrightarrow>
      (if r' \<le> w then take (w - r') (drop r' d) else drop r' d @ take w d) = drop n (drop r d @ take w d)"
proof -
  note h = wrapped_halves [OF assms(1-5)]
  show "take u (drop r d) @ take l d = take n (drop r d @ take w d)"
    using h assms(4-6) by (cases "n < N - r") (simp_all add: min.commute)
  assume r': "r' = (if N \<le> r + u then l else r + u)"
  show "(if r' \<le> w then take (w - r') (drop r' d) else drop r' d @ take w d) = drop n (drop r d @ take w d)"
  proof (cases "n < N - r")
    case True
    then show ?thesis using h(1) r' assms(4-6) by (simp add: add.commute)
  next
    case False
    then have "r' = min (n - (N - r)) w" using h(2) r' assms(5) by simp
    then show ?thesis
      using False assms(4-6) by (cases "n - (N - r) \<le> w") (simp_all add: drop_take min_def)
  qed
qed

text \<open>Reading takes the oldest bytes.\<close>

lemma Pl011Read_takes:
  assumes "rxTransfer udd = Some tr" and ok: "ring_ok tr" and mc: "\<forall>n. memcpy_ok C n" and "cnt \<noteq> 0"
  shows "\<exists>tr'. Pl011Read C False cnt udd = Some (Inr (take (unat cnt) (ring_bytes tr)), udd\<lparr>rxTransfer := Some tr'\<rparr>) \<and>
    ring_ok tr' \<and> ring_bytes tr' = drop (unat cnt) (ring_bytes tr)"
proof -
  let ?r = "rp tr" and ?w = "wp tr" and ?d = "tr_data tr"
  have len: "length ?d = 0x4000" and rb: "unat ?r < 0x4000" and wb: "unat ?w < 0x4000"
    using ok by (simp_all add: ring_ok_def)
  consider "?r = ?w" | "?r < ?w" | "?w < ?r" by (metis linorder_neqE)
  then show ?thesis
  proof cases
    case 1
    then have "ring_bytes tr = []" by (simp add: ring_bytes_def)
    moreover have "udd\<lparr>rxTransfer := Some tr\<rparr> = udd" using assms(1) by simp
    ultimately show ?thesis
      using 1 assms(1,4) ok by (intro exI [of _ tr]) (simp add: Pl011Read_def)
  next
    case 2
    then have lt: "unat ?r < unat ?w" by (simp add: word_less_nat_alt)
    define u where "u = (if cnt > ?w - ?r then ?w - ?r else cnt)"
    have u: "unat u = min (unat cnt) (unat ?w - unat ?r)"
      using lt by (auto simp: u_def word_less_nat_alt unat_minus)
    have new: "unat (?r + u) = unat ?r + unat u"
      using rb wb lt u by (intro unat_plus) simp
    have "read_part C ?d ?r u = Some (Inr (take (unat u) (drop (unat ?r) ?d)))"
      using mc len wb u lt by (intro read_part_ok) auto
    then have run: "Pl011Read C False cnt udd = Some (Inr (take (unat u) (drop (unat ?r) ?d)),
        udd\<lparr>rxTransfer := Some (tr\<lparr>rp := ?r + u\<rparr>)\<rparr>)"
      using assms(1,4) 2 by (simp add: Pl011Read_def Let_def u_def)
    have "take (unat u) (drop (unat ?r) ?d) = take (unat cnt) (ring_bytes tr)"
      using lt by (simp add: ring_bytes_def Let_def u min.commute)
    moreover have "ring_bytes (tr\<lparr>rp := ?r + u\<rparr>) = drop (unat cnt) (ring_bytes tr)"
      using lt len wb by (auto simp: ring_bytes_def Let_def new u drop_take min_def add.commute [of "unat cnt" "unat (rp tr)"])
    moreover have "ring_ok (tr\<lparr>rp := ?r + u\<rparr>)"
      using ok new u lt wb by (auto simp: ring_ok_def)
    ultimately show ?thesis using run by metis
  next
    case 3
    then have lt: "unat ?w < unat ?r" by (simp add: word_less_nat_alt)
    have br: "unat (0x4000 - ?r) = 0x4000 - unat ?r"
      using rb by (subst unat_minus) simp_all
    have tot: "unat (0x4000 - ?r + ?w) = 0x4000 - unat ?r + unat ?w"
      using br wb by (subst unat_plus) simp_all
    define c where "c = (if cnt > 0x4000 - ?r + ?w then 0x4000 - ?r + ?w else cnt)"
    define u where "u = (if c > 0x4000 - ?r then 0x4000 - ?r else c)"
    define l where "l = (if c > 0x4000 - ?r then c - (0x4000 - ?r) else 0)"
    have c: "unat c = min (unat cnt) (0x4000 - unat ?r + unat ?w)"
      by (auto simp: c_def word_less_nat_alt tot)
    have u: "unat u = min (unat c) (0x4000 - unat ?r)"
      by (auto simp: u_def word_less_nat_alt br)
    have l: "unat l = unat c - unat u"
      by (auto simp: l_def u word_less_nat_alt br unat_minus)
    have new: "unat (?r + u) = unat ?r + unat u"
      using rb u by (intro unat_plus) simp
    have lw: "unat l \<le> unat ?w" "unat u \<le> 0x4000 - unat ?r"
      using l u c by (simp_all only: min_def split: if_splits) linarith+
    define r' where "r' = (if ?r + u \<ge> 0x4000 then l else ?r + u)"
    have r': "unat r' = (if unat ?r + unat u \<ge> 0x4000 then unat l else unat ?r + unat u)"
      by (simp add: r'_def word_le_nat_alt new)
    have p1: "read_part C ?d ?r u = Some (Inr (take (unat u) (drop (unat ?r) ?d)))"
      using mc len rb lw by (intro read_part_ok) simp_all
    have p2: "read_part C ?d 0 l = Some (Inr (take (unat l) ?d))"
      using read_part_ok [of C l 0 ?d] mc len wb lw by simp
    have notlt: "(?r < ?w) = False" "(?r = ?w) = False"
      using 3 by auto
    have run: "Pl011Read C False cnt udd = Some (Inr (take (unat u) (drop (unat ?r) ?d) @ take (unat l) ?d),
        udd\<lparr>rxTransfer := Some (tr\<lparr>rp := r'\<rparr>)\<rparr>)"
      using assms(1,4) p1 p2 notlt
      by (simp only: Pl011Read_def Let_def c_def [symmetric] u_def [symmetric] l_def [symmetric] r'_def [symmetric]
        option.case if_False if_True simp_thms bind.bind_lunit sum.case)
    have "take (unat u) (drop (unat ?r) ?d) @ take (unat l) ?d = take (unat cnt) (ring_bytes tr)"
      using wrapped_read(1) [OF c u l lt rb len] lt by (simp add: ring_bytes_def Let_def)
    moreover have "ring_bytes (tr\<lparr>rp := r'\<rparr>) = drop (unat cnt) (ring_bytes tr)"
      using wrapped_read(2) [OF c u l lt rb len r'] lt by (simp add: ring_bytes_def Let_def)
    moreover have "ring_ok (tr\<lparr>rp := r'\<rparr>)"
      using ok r' lw wb by (simp add: ring_ok_def)
    ultimately show ?thesis using run by metis
  qed
qed

text \<open>Writing appends as many bytes as there is room for.\<close>

lemma straight_write:
  fixes N r w u :: nat
  assumes "length d = N" and "w + u < r" and "r < N" and "u \<le> length b"
    and "d' = take w d @ take u b @ drop (w + u) d"
  shows "length d' = N" and "drop r d' @ take (w + u) d' = drop r d @ take w d @ take u b"
proof -
  show "length d' = N" using assms by (simp add: min_def)
  have "drop r d' = drop r d" using assms by (simp add: min_def)
  moreover have "take (w + u) d' = take w d @ take u b" using assms by (simp add: min_def)
  ultimately show "drop r d' @ take (w + u) d' = drop r d @ take w d @ take u b" by simp
qed

lemma wrapped_write:
  fixes N r w n u l :: nat
  assumes "c = min n (N - w + r - 1)" and "u = min c (N - w)" and "l = c - u" and "r \<le> w" and "w < N"
    and "length d = N" and "n \<le> length b"
    and "d1 = take w d @ take u b @ drop (w + u) d" and "d2 = take l (drop u b) @ drop l d1"
    and "w' = (if N \<le> w + u then l else w + u)"
  shows "length d2 = N" and "w' < N" and "l \<le> N"
    and "(if r \<le> w' then take (w' - r) (drop r d2) else drop r d2 @ take w' d2) = take (w - r) (drop r d) @ take c b"
    and "u + l = c"
proof -
  have cn: "c \<le> n" "c \<le> N - w + r - 1"
    unfolding assms(1) by (rule min.cobounded1 min.cobounded2)+
  have uc: "u \<le> c" "u \<le> N - w"
    unfolding assms(2) by (rule min.cobounded1 min.cobounded2)+
  have ul: "u + l = c" "c \<le> length b" "u \<le> N - w" "u \<le> length b"
    using cn uc assms(3,7) by linarith+
  have len1: "length d1 = N" using ul(3,4) assms(5,6,8) by simp
  have lr: "l \<le> r" "N \<le> w + u \<longrightarrow> l < r"
  proof -
    have "u = c \<or> u = N - w" using assms(2) by (simp add: min_def)
    then show "l \<le> r" "N \<le> w + u \<longrightarrow> l < r" using cn ul assms(5) by linarith+
  qed
  have tl: "length (take l (drop u b)) = l" using ul by simp
  then show "length d2 = N" using len1 assms(4,5,9) lr by simp
  show "w' < N" using assms(4,5,10) lr by auto
  show "l \<le> N" using lr assms(4,5) by simp
  show "u + l = c" by (rule ul)
  have d1: "drop r d1 = take (w - r) (drop r d) @ take u b @ drop (w + u) d"
    using assms(4-6,8) by (simp add: drop_take)
  show "(if r \<le> w' then take (w' - r) (drop r d2) else drop r d2 @ take w' d2) = take (w - r) (drop r d) @ take c b"
  proof (cases "N \<le> w + u")
    case True
    then have "w' = l" "l < r" "w + u = N" using assms(5,10) lr ul by auto
    moreover have "drop r d2 = drop r d1" "take l d2 = take l (drop u b)"
      unfolding assms(9) using \<open>l < r\<close> tl by simp_all
    moreover have "take u b @ take l (drop u b) = take c b"
      using ul by (simp add: take_add [symmetric])
    ultimately show ?thesis
      using d1 assms(6) by simp
  next
    case False
    then have "c = u" using assms(2,5) by (auto simp: min_def split: if_splits)
    then have "l = 0" "w' = w + u" "c = u" using False assms(3,10) by simp_all
    moreover have "d2 = d1" using \<open>l = 0\<close> assms(9) by simp
    moreover have "take (w + u - r) (drop r d1) = take (w - r) (drop r d) @ take u b"
    proof -
      have e: "w + u - r = length (take (w - r) (drop r d)) + length (take u b)"
        using assms(4-6) ul by simp
      have "take (length xs + length ys) (xs @ ys @ zs) = xs @ ys" for xs ys zs :: "'a list" by simp
      then show ?thesis unfolding d1 e .
    qed
    ultimately show ?thesis using assms(4) by simp
  qed
qed

lemma PL011UartRecvNotify_appends:
  assumes "rxTransfer udd = Some tr" and ok: "ring_ok tr" and mc: "\<forall>n. memcpy_ok C n" and "cnt \<noteq> 0"
    and "unat cnt \<le> length buf" and nn: "udd_addr udd + OFF_wait C \<noteq> 0"
  shows "\<exists>tr' n. PL011UartRecvNotify C buf cnt udd t = Some (Inr n, udd\<lparr>rxTransfer := Some tr'\<rparr>,
      Call notify_poll [udd_addr udd + OFF_wait C] # Call LOS_EventWrite [udd_addr udd + OFF_wait C, 1] # t) \<and>
    ring_ok tr' \<and> unat n = min (unat cnt) (0x3FFF - length (ring_bytes tr)) \<and>
    ring_bytes tr' = ring_bytes tr @ take (unat n) buf"
proof -
  let ?r = "rp tr" and ?w = "wp tr" and ?d = "tr_data tr"
  let ?t = "Call notify_poll [udd_addr udd + OFF_wait C] # Call LOS_EventWrite [udd_addr udd + OFF_wait C, 1] # t"
  have len: "length ?d = 0x4000" and rb: "unat ?r < 0x4000" and wb: "unat ?w < 0x4000"
    using ok by (simp_all add: ring_ok_def)
  have fin: "recv_done C udd tr d w n t = Some (Inr n, udd\<lparr>rxTransfer := Some (tr\<lparr>tr_data := d, wp := w\<rparr>)\<rparr>, ?t)" for d w n
    using nn by (simp add: recv_done_def Pl011Notify_def io_defs)
  show ?thesis
  proof (cases "?w < ?r")
    case True
    then have lt: "unat ?w < unat ?r" by (simp add: word_less_nat_alt)
    have m: "unat (?r - ?w - 1) = unat ?r - unat ?w - 1"
      using lt by (simp add: unat_minus)
    define u where "u = (if cnt > ?r - ?w - 1 then ?r - ?w - 1 else cnt)"
    have u: "unat u = min (unat cnt) (unat ?r - unat ?w - 1)"
      by (auto simp: u_def word_less_nat_alt m)
    have lw: "unat ?w + unat u < unat ?r" "unat u \<le> length buf" using u lt assms(5) by auto
    have new: "unat (?w + u) = unat ?w + unat u"
      using rb lw by (intro unat_plus) simp
    define d' where "d' = take (unat ?w) ?d @ take (unat u) buf @ drop (unat ?w + unat u) ?d"
    note s = straight_write [OF len lw(1) rb lw(2) d'_def]
    have "write_part C ?d ?w buf u = Some (Inr d')"
      unfolding d'_def using mc len lw rb by (intro write_part_ok) simp_all
    then have run: "PL011UartRecvNotify C buf cnt udd t = Some (Inr u, udd\<lparr>rxTransfer := Some (tr\<lparr>tr_data := d', wp := ?w + u\<rparr>)\<rparr>, ?t)"
      using assms(1,4) True fin by (simp add: PL011UartRecvNotify_def Let_def u_def)
    have "ring_bytes (tr\<lparr>tr_data := d', wp := ?w + u\<rparr>) = ring_bytes tr @ take (unat u) buf"
      using s(2) lt lw by (simp add: ring_bytes_def Let_def new)
    moreover have "ring_ok (tr\<lparr>tr_data := d', wp := ?w + u\<rparr>)"
      using ok s(1) lw rb by (simp add: ring_ok_def new)
    moreover have "unat u = min (unat cnt) (0x3FFF - length (ring_bytes tr))"
      using lt rb wb len by (simp add: ring_bytes_def Let_def u)
    ultimately show ?thesis using run by blast
  next
    case False
    then have le: "unat ?r \<le> unat ?w" by (simp add: word_less_nat_alt)
    have bw: "unat (0x4000 - ?w) = 0x4000 - unat ?w"
      using wb by (subst unat_minus) simp_all
    have bwr: "unat (0x4000 - ?w + ?r) = 0x4000 - unat ?w + unat ?r"
      using bw rb by (subst unat_plus) simp_all
    define k where "k = 0x4000 - ?w + ?r - 1"
    have m: "unat k = 0x4000 - unat ?w + unat ?r - 1"
      unfolding k_def using bwr wb by (subst unat_minus) simp_all
    define c where "c = (if cnt > k then k else cnt)"
    define u where "u = (if c > 0x4000 - ?w then 0x4000 - ?w else c)"
    define l where "l = (if c > 0x4000 - ?w then c - (0x4000 - ?w) else 0)"
    have c: "unat c = min (unat cnt) (0x4000 - unat ?w + unat ?r - 1)"
      by (auto simp: c_def word_less_nat_alt m)
    have u: "unat u = min (unat c) (0x4000 - unat ?w)"
      by (auto simp: u_def word_less_nat_alt bw)
    have l: "unat l = unat c - unat u"
      by (auto simp: l_def u word_less_nat_alt bw unat_minus)
    have "unat u \<le> unat c" "unat c \<le> unat cnt" and ub1: "unat u \<le> 0x4000 - unat ?w"
      unfolding u c by (rule min.cobounded1 min.cobounded2)+
    then have ub: "unat u \<le> 0x4000 - unat ?w" "unat u \<le> length buf"
      using assms(5) by linarith+
    have new: "unat (?w + u) = unat ?w + unat u"
      using wb ub by (intro unat_plus) simp
    define w' where "w' = (if ?w + u \<ge> 0x4000 then l else ?w + u)"
    have w': "unat w' = (if 0x4000 \<le> unat ?w + unat u then unat l else unat ?w + unat u)"
      by (simp add: w'_def word_le_nat_alt new)
    define d1 where "d1 = take (unat ?w) ?d @ take (unat u) buf @ drop (unat ?w + unat u) ?d"
    define d2 where "d2 = take (unat l) (drop (unat u) buf) @ drop (unat l) d1"
    note s = wrapped_write [OF c u l le wb len assms(5) d1_def d2_def w']
    have len1: "length d1 = 0x4000" using len ub wb by (simp add: d1_def min_def)
    have p1: "write_part C ?d ?w buf u = Some (Inr d1)"
      unfolding d1_def using mc len ub wb by (intro write_part_ok) simp_all
    have "unat l \<le> length (drop (unat u) buf)"
      using s(5) c assms(5) by simp
    then have p2: "write_part C d1 0 (drop (unat u) buf) l = Some (Inr d2)"
      unfolding d2_def using write_part_ok [of C l 0 d1 "drop (unat u) buf"] mc len1 s(3) by simp
    have notlt: "(?w < ?r) = False" using False by simp
    have run: "PL011UartRecvNotify C buf cnt udd t
        = Some (Inr (u + l), udd\<lparr>rxTransfer := Some (tr\<lparr>tr_data := d2, wp := w'\<rparr>)\<rparr>, ?t)"
      using assms(1,4) p1 p2 notlt fin
      by (simp only: PL011UartRecvNotify_def Let_def k_def [symmetric] c_def [symmetric] u_def [symmetric] l_def [symmetric] w'_def [symmetric]
        option.case if_False if_True simp_thms bind.bind_lunit sum.case)
    have n: "unat (u + l) = unat c"
      using s(5) c wb rb by (subst unat_plus) auto
    have "ring_bytes (tr\<lparr>tr_data := d2, wp := w'\<rparr>) = ring_bytes tr @ take (unat (u + l)) buf"
      using s(4) le by (simp add: ring_bytes_def Let_def n)
    moreover have "ring_ok (tr\<lparr>tr_data := d2, wp := w'\<rparr>)"
      using ok s(1,2) by (simp add: ring_ok_def)
    moreover have "unat (u + l) = min (unat cnt) (0x3FFF - length (ring_bytes tr))"
      using le rb wb len by (simp add: ring_bytes_def Let_def n c)
    ultimately show ?thesis using run by blast
  qed
qed

text \<open>A bounded byte queue and its clients. A client puts chunks of bytes and gets bytes; \<open>fifo_run\<close>
  collects the bytes the queue accepted and those it delivered.\<close>

datatype fifo_op = Put "u8 list" | Get u32

fun fifo_run ::
  "(u8 list \<Rightarrow> 's \<Rightarrow> (nat \<times> 's) option) \<Rightarrow> (u32 \<Rightarrow> 's \<Rightarrow> (u8 list \<times> 's) option) \<Rightarrow> fifo_op list \<Rightarrow> 's
     \<Rightarrow> (u8 list \<times> u8 list \<times> 's) option" where
  "fifo_run put get [] s = Some ([], [], s)"
| "fifo_run put get (Put bs # ops) s = do {
     (n, s) \<leftarrow> put bs s;
     (acc, del, s) \<leftarrow> fifo_run put get ops s;
     Some (take n bs @ acc, del, s)
   }"
| "fifo_run put get (Get n # ops) s = do {
     (bs, s) \<leftarrow> get n s;
     (acc, del, s) \<leftarrow> fifo_run put get ops s;
     Some (acc, bs @ del, s)
   }"

fun valid_op :: "fifo_op \<Rightarrow> bool" where
  "valid_op (Put bs) = (bs \<noteq> [] \<and> length bs < 2 ^ 32)"
| "valid_op (Get n) = (n \<noteq> 0)"

locale byte_fifo =
  fixes inv :: "'s \<Rightarrow> bool" and bytes :: "'s \<Rightarrow> u8 list" and cap :: nat
    and put :: "u8 list \<Rightarrow> 's \<Rightarrow> (nat \<times> 's) option" and get :: "u32 \<Rightarrow> 's \<Rightarrow> (u8 list \<times> 's) option"
  assumes put_appends: "inv s \<Longrightarrow> valid_op (Put bs) \<Longrightarrow> \<exists>n s'. put bs s = Some (n, s') \<and> inv s' \<and>
      n = min (length bs) (cap - length (bytes s)) \<and> bytes s' = bytes s @ take n bs"
    and get_takes: "inv s \<Longrightarrow> valid_op (Get k) \<Longrightarrow> \<exists>s'. get k s = Some (take (unat k) (bytes s), s') \<and> inv s' \<and>
      bytes s' = drop (unat k) (bytes s)"
    and bounded: "inv s \<Longrightarrow> length (bytes s) \<le> cap"
begin

lemma stream:
  assumes "inv s" and "\<forall>x \<in> set ops. valid_op x"
  shows "\<exists>acc del s'. fifo_run put get ops s = Some (acc, del, s') \<and> inv s' \<and>
    bytes s @ acc = del @ bytes s' \<and> length (bytes s') \<le> cap"
  using assms
proof (induction ops arbitrary: s)
  case Nil
  then show ?case by (simp add: bounded)
next
  case (Cons x ops)
  show ?case
  proof (cases x)
    case (Put bs)
    then obtain n s1 where p: "put bs s = Some (n, s1)" "inv s1" "bytes s1 = bytes s @ take n bs"
      using put_appends [OF Cons.prems(1), of bs] Cons.prems(2) by auto
    then obtain acc del s' where "fifo_run put get ops s1 = Some (acc, del, s')" "inv s'"
      "bytes s1 @ acc = del @ bytes s'" "length (bytes s') \<le> cap"
      using Cons.IH [of s1] Cons.prems(2) by auto
    then show ?thesis using Put p by auto
  next
    case (Get k)
    then obtain s1 where g: "get k s = Some (take (unat k) (bytes s), s1)" "inv s1" "bytes s1 = drop (unat k) (bytes s)"
      using get_takes [OF Cons.prems(1), of k] Cons.prems(2) by auto
    then obtain acc del s' where r: "fifo_run put get ops s1 = Some (acc, del, s')" "inv s'"
      "bytes s1 @ acc = del @ bytes s'" "length (bytes s') \<le> cap"
      using Cons.IH [of s1] Cons.prems(2) by auto
    have "bytes s @ acc = take (unat k) (bytes s) @ (bytes s1 @ acc)"
      by (simp only: g(3) append_assoc [symmetric] append_take_drop_id)
    then show ?thesis using Get g(1) r by auto
  qed
qed

end

text \<open>The UART's ring through its two functions.\<close>

definition uart_put :: "uart_consts \<Rightarrow> u8 list \<Rightarrow> UartDriverData \<times> trace \<Rightarrow> (nat \<times> UartDriverData \<times> trace) option" where
  "uart_put C bs s = (case PL011UartRecvNotify C bs (of_nat (length bs)) (fst s) (snd s) of
     Some (Inr n, udd, t) \<Rightarrow> Some (unat n, udd, t) | _ \<Rightarrow> None)"

definition uart_get :: "uart_consts \<Rightarrow> u32 \<Rightarrow> UartDriverData \<times> trace \<Rightarrow> (u8 list \<times> UartDriverData \<times> trace) option" where
  "uart_get C n s = (case Pl011Read C False n (fst s) of
     Some (Inr bs, udd) \<Rightarrow> Some (bs, udd, snd s) | _ \<Rightarrow> None)"

definition uart_inv :: "uart_consts \<Rightarrow> UartDriverData \<times> trace \<Rightarrow> bool" where
  "uart_inv C s \<longleftrightarrow> (\<exists>tr. rxTransfer (fst s) = Some tr \<and> ring_ok tr) \<and> (\<forall>n. memcpy_ok C n) \<and>
     udd_addr (fst s) + OFF_wait C \<noteq> 0"

definition uart_bytes :: "UartDriverData \<times> trace \<Rightarrow> u8 list" where
  "uart_bytes s = (case rxTransfer (fst s) of None \<Rightarrow> [] | Some tr \<Rightarrow> ring_bytes tr)"

interpretation uart_fifo: byte_fifo "uart_inv C" uart_bytes "0x3FFF" "uart_put C" "uart_get C" for C
proof
  fix s bs
  assume "uart_inv C s" and v: "valid_op (Put bs)"
  then obtain tr where tr: "rxTransfer (fst s) = Some tr" "ring_ok tr" "\<forall>n. memcpy_ok C n" "udd_addr (fst s) + OFF_wait C \<noteq> 0"
    by (auto simp: uart_inv_def)
  have u: "unat (of_nat (length bs) :: u32) = length bs"
    using v by (simp add: unat_of_nat)
  then have nz: "(of_nat (length bs) :: u32) \<noteq> 0"
    using v by (metis length_0_conv unat_0 valid_op.simps(1))
  obtain tr' n where "PL011UartRecvNotify C bs (of_nat (length bs)) (fst s) (snd s) = Some (Inr n, (fst s)\<lparr>rxTransfer := Some tr'\<rparr>,
      Call notify_poll [udd_addr (fst s) + OFF_wait C] # Call LOS_EventWrite [udd_addr (fst s) + OFF_wait C, 1] # snd s)"
    "ring_ok tr'" "unat n = min (length bs) (0x3FFF - length (ring_bytes tr))" "ring_bytes tr' = ring_bytes tr @ take (unat n) bs"
    using PL011UartRecvNotify_appends [OF tr(1-3) nz _ tr(4), of bs "snd s"] unfolding u by auto
  with tr show "\<exists>n s'. uart_put C bs s = Some (n, s') \<and> uart_inv C s' \<and>
      n = min (length bs) (0x3FFF - length (uart_bytes s)) \<and> uart_bytes s' = uart_bytes s @ take n bs"
    by (auto simp: uart_put_def uart_inv_def uart_bytes_def)
next
  fix s k
  assume "uart_inv C s" and v: "valid_op (Get k)"
  then obtain tr where tr: "rxTransfer (fst s) = Some tr" "ring_ok tr" "\<forall>n. memcpy_ok C n" "udd_addr (fst s) + OFF_wait C \<noteq> 0"
    by (auto simp: uart_inv_def)
  have "k \<noteq> 0" using v by simp
  from Pl011Read_takes [OF tr(1-3) this] obtain tr' where
    "Pl011Read C False k (fst s) = Some (Inr (take (unat k) (ring_bytes tr)), (fst s)\<lparr>rxTransfer := Some tr'\<rparr>)"
    "ring_ok tr'" "ring_bytes tr' = drop (unat k) (ring_bytes tr)" by blast
  with tr show "\<exists>s'. uart_get C k s = Some (take (unat k) (uart_bytes s), s') \<and> uart_inv C s' \<and>
      uart_bytes s' = drop (unat k) (uart_bytes s)"
    by (auto simp: uart_get_def uart_inv_def uart_bytes_def)
next
  fix s
  assume "uart_inv C s"
  then show "length (uart_bytes s) \<le> 0x3FFF"
    by (auto simp: uart_inv_def uart_bytes_def ring_bytes_length)
qed

text \<open>C17. The receive ring is a queue. Whatever sequence of receptions and reads the driver sees, across
  any number of wrap-arounds of the 16 KiB array, every call succeeds, a reception accepts a prefix of
  its bytes (all of them while there is room), and the bytes delivered to the readers followed by
  those still in the ring are exactly the initial contents followed by the accepted bytes: nothing is
  lost, duplicated or reordered, and at most 16383 bytes wait.\<close>

theorem uart_ring_is_a_queue:
  assumes "rxTransfer udd = Some tr" and "ring_ok tr" and "\<forall>n. memcpy_ok C n" and "udd_addr udd + OFF_wait C \<noteq> 0"
    and "\<forall>x \<in> set ops. valid_op x"
  shows "\<exists>acc del udd' t' tr'. fifo_run (uart_put C) (uart_get C) ops (udd, t) = Some (acc, del, udd', t') \<and>
    rxTransfer udd' = Some tr' \<and> ring_bytes tr @ acc = del @ ring_bytes tr' \<and> length (ring_bytes tr') \<le> 0x3FFF"
proof -
  have "uart_inv C (udd, t)" using assms by (simp add: uart_inv_def)
  from uart_fifo.stream [OF this assms(5)] show ?thesis
    using assms(1) by (fastforce simp: uart_inv_def uart_bytes_def)
qed

subsection \<open>The baud rate\<close>

lemma nearest_divisor:
  fixes clk b :: nat
  assumes "0 < b"
  shows "64 * (clk div (16 * b)) + (8 * (clk mod (16 * b)) div b + 1) div 2 = (8 * clk + b) div (2 * b)"
proof -
  let ?d = "clk div (16 * b)" and ?m = "clk mod (16 * b)"
  have "8 * clk = 8 * ?m + b * (128 * ?d)"
    using div_mult_mod_eq [of clk "16 * b"] by (simp add: algebra_simps)
  then have "8 * clk div b = 128 * ?d + 8 * ?m div b"
    using assms by simp
  moreover have "(8 * clk + b) div (2 * b) = (8 * clk div b + 1) div 2"
    using assms div_add_self2 [of b "8 * clk"] by (simp add: mult.commute [of 2 b] div_mult2_eq)
  ultimately show ?thesis by simp
qed

definition baud_divider :: "uart_consts \<Rightarrow> UartDriverData \<Rightarrow> u32" where
  "baud_divider C udd = CONFIG_UART_CLK_INPUT C div (16 * baudrate udd)"

definition baud_fraction :: "uart_consts \<Rightarrow> UartDriverData \<Rightarrow> u32" where
  "baud_fraction C udd = (let v = 8 * (CONFIG_UART_CLK_INPUT C mod (16 * baudrate udd)) div baudrate udd
     in drop_bit 1 v + (v AND 1))"

lemma Pl011ConfigBaudrate_writes:
  assumes "0 < baudrate udd" and "unat (baudrate udd) \<le> 921600"
  shows "Pl011ConfigBaudrate C udd port t = Wr (physBase port + 0x28) (baud_fraction C udd) #
      Wr (physBase port + 0x24) (baud_divider C udd) # t"
proof -
  let ?tmp = "(16 :: u64) * ucast (baudrate udd)"
  have "unat (ucast (baudrate udd) :: u64) = unat (baudrate udd)"
    using assms(2) by (simp add: unsigned_ucast_eq take_bit_nat_eq_self)
  then have "unat ?tmp = 16 * unat (baudrate udd)"
    using assms(2) by (simp add: unat_word_ariths)
  then have "?tmp \<noteq> 0" "\<not> ?tmp > 0xFFFFFFFF"
    using assms by (auto simp: word_less_nat_alt)
  then show ?thesis
    by (simp add: Pl011ConfigBaudrate_def Let_def baud_fraction_def baud_divider_def io_defs)
qed

lemma baud_values:
  fixes C :: uart_consts
  assumes "0 < baudrate udd" and "unat (baudrate udd) \<le> 921600"
  defines "b \<equiv> unat (baudrate udd)" and "clk \<equiv> unat (CONFIG_UART_CLK_INPUT C)"
  shows "unat (baud_divider C udd) = clk div (16 * b)"
    and "unat (baud_fraction C udd) = (8 * (clk mod (16 * b)) div b + 1) div 2"
proof -
  have b: "0 < b" "b \<le> 921600" using assms by (simp_all add: word_less_nat_alt)
  have m: "unat (16 * baudrate udd) = 16 * b"
    using b by (simp add: unat_word_ariths b_def)
  then show "unat (baud_divider C udd) = clk div (16 * b)"
    by (simp add: baud_divider_def unat_div clk_def)
  have r: "unat (CONFIG_UART_CLK_INPUT C mod (16 * baudrate udd)) = clk mod (16 * b)"
    using m by (simp add: unat_mod clk_def)
  moreover have "clk mod (16 * b) < 16 * b" using b by simp
  moreover have "16 * b \<le> 14745600" using b by simp
  ultimately have small: "8 * unat (CONFIG_UART_CLK_INPUT C mod (16 * baudrate udd)) < 4294967296"
    by linarith
  have "unat (8 * x) = 8 * unat x" if "8 * unat x < 4294967296" for x :: u32
    using that by (simp add: unat_word_ariths)
  from this [OF small] have r8: "unat (8 * (CONFIG_UART_CLK_INPUT C mod (16 * baudrate udd))) = 8 * (clk mod (16 * b))"
    unfolding r .
  let ?v = "8 * (CONFIG_UART_CLK_INPUT C mod (16 * baudrate udd)) div baudrate udd"
  have v: "unat ?v = 8 * (clk mod (16 * b)) div b"
    by (simp add: unat_div r8 b_def)
  have vb: "unat ?v < 128"
    unfolding v using \<open>clk mod (16 * b) < 16 * b\<close> b(1) by (simp add: less_mult_imp_div_less)
  have half: "unat (drop_bit 1 x + (x AND 1)) = (unat x + 1) div 2" if "unat x < 128" for x :: u32
  proof -
    have "unat (drop_bit 1 x) = unat x div 2"
      by (metis unat_drop_bit_eq drop_bit_eq_div power_one_right)
    moreover have "unat (x AND 1) = unat x mod 2"
      by (simp add: and_one_eq unat_mod)
    ultimately have "unat (drop_bit 1 x + (x AND 1)) = unat x div 2 + unat x mod 2"
      using that unat_plus [of "drop_bit 1 x" "x AND 1"] by simp
    then show ?thesis by presburger
  qed
  show "unat (baud_fraction C udd) = (8 * (clk mod (16 * b)) div b + 1) div 2"
    unfolding baud_fraction_def Let_def half [OF vb] v ..
qed

text \<open>The baud rate registers. For every baud rate the driver accepts, the integer and fractional
  divisor it writes are together the divisor \<open>4 * clock / baud\<close> rounded to the nearest integer. The
  fraction is at most 64, and it is 64, which the six bits of the register cannot hold, exactly when
  the remainder is at least 127/128 of the divisor's unit.\<close>

theorem Pl011ConfigBaudrate_nearest:
  assumes "0 < baudrate udd" and "baudrate udd \<le> 921600"
    and "b = unat (baudrate udd)" and "clk = unat (CONFIG_UART_CLK_INPUT C)"
  shows "\<exists>d f. Pl011ConfigBaudrate C udd port t = Wr (physBase port + UART_FBRD) f # Wr (physBase port + UART_IBRD) d # t \<and>
    64 * unat d + unat f = (8 * clk + b) div (2 * b) \<and> unat f \<le> 64 \<and>
    (unat f = 64 \<longleftrightarrow> 127 * b \<le> 8 * (clk mod (16 * b)))"
proof -
  have b: "0 < b" "unat (baudrate udd) \<le> 921600" "b \<le> 921600"
    using assms(1-3) by (simp_all add: word_less_nat_alt word_le_nat_alt)
  note v = baud_values [OF assms(1) b(2), of C, folded assms(3,4)]
  have "8 * (clk mod (16 * b)) < 128 * b" using b(1) by simp
  then have q: "8 * (clk mod (16 * b)) div b < 128"
    by (simp add: less_mult_imp_div_less)
  have "127 * b \<le> 8 * (clk mod (16 * b)) \<longleftrightarrow> 127 \<le> 8 * (clk mod (16 * b)) div b"
    using b(1) by (simp add: less_eq_div_iff_mult_less_eq)
  moreover have half: "(x + 1) div 2 \<le> 64 \<and> ((x + 1) div 2 = 64 \<longleftrightarrow> 127 \<le> x)" if "x < 128" for x :: nat
    using that by presburger
  ultimately have "unat (baud_fraction C udd) \<le> 64 \<and>
      (unat (baud_fraction C udd) = 64 \<longleftrightarrow> 127 * b \<le> 8 * (clk mod (16 * b)))"
    using q half unfolding v(2) by blast
  then show ?thesis
    using Pl011ConfigBaudrate_writes [OF assms(1) b(2)] nearest_divisor [OF b(1), of clk] v by auto
qed

subsection \<open>The line control\<close>

definition lcrh_ok :: "uart_consts \<Rightarrow> UartAttribute \<Rightarrow> u32 \<Rightarrow> bool" where
  "lcrh_ok C a v \<longleftrightarrow>
     (bit v 1 \<longleftrightarrow> parity a \<in> {UART_ATTR_PARITY_EVEN C, UART_ATTR_PARITY_ODD C, UART_ATTR_PARITY_MARK C, UART_ATTR_PARITY_SPACE C}) \<and>
     (bit v 2 \<longleftrightarrow> parity a \<in> {UART_ATTR_PARITY_EVEN C, UART_ATTR_PARITY_SPACE C}) \<and>
     (bit v 7 \<longleftrightarrow> parity a \<in> {UART_ATTR_PARITY_MARK C, UART_ATTR_PARITY_SPACE C}) \<and>
     (bit v 3 \<longleftrightarrow> stopBits a = UART_ATTR_STOPBIT_2 C) \<and>
     (bit v 4 \<longleftrightarrow> fifoRxEn a \<noteq> 0 \<or> fifoTxEn a \<noteq> 0 \<or> bit v 1) \<and>
     (bit v 6 \<longleftrightarrow> dataBits a \<notin> {UART_ATTR_DATABIT_5 C, UART_ATTR_DATABIT_6 C}) \<and>
     (bit v 5 \<longleftrightarrow> dataBits a \<notin> {UART_ATTR_DATABIT_5 C, UART_ATTR_DATABIT_7 C})"

definition attr_consts_ok :: "uart_consts \<Rightarrow> bool" where
  "attr_consts_ok C \<longleftrightarrow>
     distinct [UART_ATTR_PARITY_EVEN C, UART_ATTR_PARITY_ODD C, UART_ATTR_PARITY_MARK C, UART_ATTR_PARITY_SPACE C] \<and>
     distinct [UART_ATTR_DATABIT_5 C, UART_ATTR_DATABIT_6 C, UART_ATTR_DATABIT_7 C, UART_ATTR_DATABIT_8 C]"

lemma mask_bits:
  "bit (0x60 :: u32) n \<longleftrightarrow> n = 5 \<or> n = 6" "bit (0x40 :: u32) n \<longleftrightarrow> n = 6" "bit (0x20 :: u32) n \<longleftrightarrow> n = 5"
  "bit (0x02 :: u32) n \<longleftrightarrow> n = 1" "bit (0x04 :: u32) n \<longleftrightarrow> n = 2" "bit (0x08 :: u32) n \<longleftrightarrow> n = 3"
  "bit (0x10 :: u32) n \<longleftrightarrow> n = 4" "bit (0x80 :: u32) n \<longleftrightarrow> n = 7"
  "bit (0x8000 :: u32) n \<longleftrightarrow> n = 15" "bit (0x4000 :: u32) n \<longleftrightarrow> n = 14" "bit (1 :: u32) n \<longleftrightarrow> n = 0"
proof -
  have p: "bit (2 ^ k :: u32) n \<longleftrightarrow> n = k" if "k < 32" for k
    using that by (auto simp: bit_simps)
  have o: "(0x60 :: u32) = 2 ^ 5 OR 2 ^ 6" by simp
  show "bit (0x60 :: u32) n \<longleftrightarrow> n = 5 \<or> n = 6"
    unfolding o bit_or_iff by (simp only: p)
  show "bit (0x40 :: u32) n \<longleftrightarrow> n = 6" using p [of 6] by simp
  show "bit (0x20 :: u32) n \<longleftrightarrow> n = 5" using p [of 5] by simp
  show "bit (0x02 :: u32) n \<longleftrightarrow> n = 1" using p [of 1] by simp
  show "bit (0x04 :: u32) n \<longleftrightarrow> n = 2" using p [of 2] by simp
  show "bit (0x08 :: u32) n \<longleftrightarrow> n = 3" using p [of 3] by simp
  show "bit (0x10 :: u32) n \<longleftrightarrow> n = 4" using p [of 4] by simp
  show "bit (0x80 :: u32) n \<longleftrightarrow> n = 7" using p [of 7] by simp
  show "bit (0x8000 :: u32) n \<longleftrightarrow> n = 15" using p [of 15] by simp
  show "bit (0x4000 :: u32) n \<longleftrightarrow> n = 14" using p [of 14] by simp
  show "bit (1 :: u32) n \<longleftrightarrow> n = 0" by (simp add: bit_1_iff)
qed

lemma bit_data:
  assumes "attr_consts_ok C"
  shows "bit (Pl011ConfigDataBits C udd v) n \<longleftrightarrow> (n \<noteq> 5 \<and> n \<noteq> 6 \<and> n < 32 \<and> bit v n) \<or>
    (n = 6 \<and> dataBits (attr udd) \<noteq> UART_ATTR_DATABIT_5 C \<and> dataBits (attr udd) \<noteq> UART_ATTR_DATABIT_6 C) \<or>
    (n = 5 \<and> dataBits (attr udd) \<noteq> UART_ATTR_DATABIT_5 C \<and> dataBits (attr udd) \<noteq> UART_ATTR_DATABIT_7 C)"
proof -
  have i: "bit v n \<Longrightarrow> n < 32" using bit_imp_le_length [of v n] by simp
  have d: "UART_ATTR_DATABIT_5 C \<noteq> UART_ATTR_DATABIT_6 C" "UART_ATTR_DATABIT_5 C \<noteq> UART_ATTR_DATABIT_7 C"
    "UART_ATTR_DATABIT_6 C \<noteq> UART_ATTR_DATABIT_7 C"
    using assms unfolding attr_consts_ok_def by auto
  consider (5) "dataBits (attr udd) = UART_ATTR_DATABIT_5 C" | (6) "dataBits (attr udd) = UART_ATTR_DATABIT_6 C"
    | (7) "dataBits (attr udd) = UART_ATTR_DATABIT_7 C"
    | (8) "dataBits (attr udd) \<noteq> UART_ATTR_DATABIT_5 C" "dataBits (attr udd) \<noteq> UART_ATTR_DATABIT_6 C"
          "dataBits (attr udd) \<noteq> UART_ATTR_DATABIT_7 C"
    by blast
  then show ?thesis
    unfolding Pl011ConfigDataBits_def Let_def if_distrib [of "\<lambda>w. bit w n"] bit_or_iff bit_and_iff bit_not_iff mask_bits possible_bit_word
    by cases (use d d [symmetric] i in \<open>auto\<close>)
qed

lemma bit_parity:
  assumes "attr_consts_ok C"
  shows "bit (Pl011ConfigParity C udd v) n \<longleftrightarrow> (n \<noteq> 1 \<and> n \<noteq> 7 \<and> bit v n) \<and> \<not> (n = 2 \<and>
       parity (attr udd) \<in> {UART_ATTR_PARITY_ODD C, UART_ATTR_PARITY_MARK C}) \<or>
     (n = 7 \<and> bit v 7 \<and> parity (attr udd) \<in> {UART_ATTR_PARITY_EVEN C, UART_ATTR_PARITY_ODD C}) \<or>
     (n = 1 \<or> n = 4) \<and> parity (attr udd) \<in> {UART_ATTR_PARITY_EVEN C, UART_ATTR_PARITY_ODD C, UART_ATTR_PARITY_MARK C, UART_ATTR_PARITY_SPACE C} \<or>
     n = 2 \<and> parity (attr udd) \<in> {UART_ATTR_PARITY_EVEN C, UART_ATTR_PARITY_SPACE C} \<or>
     n = 7 \<and> parity (attr udd) \<in> {UART_ATTR_PARITY_MARK C, UART_ATTR_PARITY_SPACE C}"
proof -
  have i: "bit v n \<Longrightarrow> n < 32" using bit_imp_le_length [of v n] by simp
  obtain e od ma sp where c: "UART_ATTR_PARITY_EVEN C = e" "UART_ATTR_PARITY_ODD C = od"
      "UART_ATTR_PARITY_MARK C = ma" "UART_ATTR_PARITY_SPACE C = sp"
    by blast
  have d: "e \<noteq> od" "e \<noteq> ma" "e \<noteq> sp" "od \<noteq> ma" "od \<noteq> sp" "ma \<noteq> sp"
    using assms unfolding attr_consts_ok_def c by auto
  consider "parity (attr udd) = e" | "parity (attr udd) = od" | "parity (attr udd) = ma" | "parity (attr udd) = sp"
    | "parity (attr udd) \<noteq> e" "parity (attr udd) \<noteq> od" "parity (attr udd) \<noteq> ma" "parity (attr udd) \<noteq> sp"
    by blast
  then show ?thesis
    unfolding Pl011ConfigParity_def Let_def c
    unfolding if_distrib [of "\<lambda>w. bit w n"] bit_or_iff bit_and_iff bit_not_iff mask_bits possible_bit_word
    by cases (use d d [symmetric] i in \<open>auto\<close>)
qed

lemma bit_stop:
  "bit (Pl011ConfigStopBits C udd v) n \<longleftrightarrow> (if n = 3 then stopBits (attr udd) = UART_ATTR_STOPBIT_2 C else bit v n)"
  using bit_imp_le_length [of v n]
  unfolding Pl011ConfigStopBits_def if_distrib [of "\<lambda>w. bit w n"] bit_or_iff bit_and_iff bit_not_iff mask_bits possible_bit_word by auto

lemma lcrh_value_ok:
  assumes "attr_consts_ok C" and "\<not> bit v 4"
  shows "lcrh_ok C (attr udd) (lcrh_value C udd v)"
proof -
  have f: "bit (lcrh_value C udd v) n \<longleftrightarrow> n = 4 \<and> (fifoRxEn (attr udd) \<noteq> 0 \<or> fifoTxEn (attr udd) \<noteq> 0) \<or>
     bit (Pl011ConfigStopBits C udd (Pl011ConfigParity C udd (((Pl011ConfigDataBits C udd v AND
       NOT UART_LCR_H_PEN) AND NOT UART_LCR_H_EPS) AND NOT UART_LCR_H_SPS))) n" for n
    unfolding lcrh_value_def Let_def if_distrib [of "\<lambda>w. bit w n"] bit_or_iff mask_bits by (simp only: if_bool_eq_disj) blast
  show ?thesis
    unfolding lcrh_ok_def f bit_stop bit_parity [OF assms(1)] bit_and_iff bit_not_iff mask_bits bit_data [OF assms(1)]
    using assms(2) by auto
qed

text \<open>The control register value that the reconfiguration leaves: enabled, with the flow control the
  attributes ask for, and otherwise as it was read.\<close>

definition cr_ok :: "uart_consts \<Rightarrow> UartAttribute \<Rightarrow> u32 \<Rightarrow> u32 \<Rightarrow> bool" where
  "cr_ok C a old v \<longleftrightarrow> bit v 0 \<and> (bit v 15 \<longleftrightarrow> cts a = UART_ATTR_CTS_EN C) \<and> (bit v 14 \<longleftrightarrow> rts a = UART_ATTR_RTS_EN C) \<and>
     (\<forall>n < 16. n \<notin> {0, 14, 15} \<longrightarrow> bit v n = bit old n)"

definition cr_value :: "uart_consts \<Rightarrow> UartAttribute \<Rightarrow> u32 \<Rightarrow> u32" where
  "cr_value C a cr = (let cr = (if UART_ATTR_CTS_EN C = cts a then cr OR UART_CR_CTS else cr AND NOT UART_CR_CTS);
     cr = (if UART_ATTR_RTS_EN C = rts a then cr OR UART_CR_RTS else cr AND NOT UART_CR_RTS) in cr AND NOT UART_CR_EN)"

lemma cr_value_bit:
  "bit (cr_value C a cr) n \<longleftrightarrow> (if n = 15 then cts a = UART_ATTR_CTS_EN C else if n = 14 then rts a = UART_ATTR_RTS_EN C
     else n \<noteq> 0 \<and> bit cr n)"
  using bit_imp_le_length [of cr n]
  unfolding cr_value_def Let_def if_distrib [of "\<lambda>w. bit w n"] bit_or_iff bit_and_iff bit_not_iff mask_bits possible_bit_word
  by auto

lemma byte_bits: "bit (0xFF :: u32) n \<longleftrightarrow> n < 8" "bit (0xFFFF :: u32) n \<longleftrightarrow> n < 16"
proof -
  have m: "(0xFF :: u32) = mask 8" "(0xFFFF :: u32) = mask 16" by (simp_all add: mask_eq_exp_minus_1)
  show "bit (0xFF :: u32) n \<longleftrightarrow> n < 8" "bit (0xFFFF :: u32) n \<longleftrightarrow> n < 16"
    unfolding m bit_mask_iff possible_bit_word by auto
qed

lemma lcrh_ok_byte: "lcrh_ok C a v \<Longrightarrow> lcrh_ok C a (v AND 0xFF)"
  by (simp add: lcrh_ok_def bit_and_iff byte_bits)

text \<open>Reconfiguring the port. The registers are written in the order the device needs: the port is
  disabled, the FIFOs are switched off, the control register is written with the port still disabled,
  then the divisor and, after it, the line control register (which latches the divisor) and last the
  control register that enables the port. The line control value encodes the word length, the parity
  and the stop bits of the attributes, and the control value the flow control, everything else in it
  staying as it was read.\<close>

theorem Pl011ConfigIn_sequence:
  assumes "priv_port udd = Some port" and "attr_consts_ok C" and "0 < baudrate udd" and "baudrate udd \<le> 921600"
  shows "\<exists>cr lcrh en lc fbrd ibrd off nofifo. let b = physBase port in
    Pl011ConfigIn E C udd t = (HDF_SUCCESS, Wr (b + UART_CR) en # Wr (b + UART_LCR_H) lc #
      Wr (b + UART_FBRD) fbrd # Wr (b + UART_IBRD) ibrd # Wr (b + UART_CR) off # Wr (b + UART_LCR_H) nofifo #
      Wr (b + UART_CR) 0 # Rd (b + UART_LCR_H) lcrh # Rd (b + UART_CR) cr # t) \<and>
    cr_ok C (attr udd) cr en \<and> lcrh_ok C (attr udd) lc \<and> \<not> bit off 0 \<and> \<not> bit nofifo 4"
proof -
  let ?b = "physBase port"
  define cr where "cr = rd_reg E t (?b + UART_CR) AND 0xFFFF"
  define lcrh where "lcrh = rd_reg E (Rd (?b + UART_CR) cr # t) (?b + UART_LCR_H) AND 0xFFFF"
  define l0 where "l0 = lcrh AND NOT UART_LCR_H_FIFO_EN"
  let ?c = "cr_value C (attr udd) cr"
  have b: "unat (baudrate udd) \<le> 921600" using assms(4) by (simp add: word_le_nat_alt)
  have l4: "\<not> bit l0 4" unfolding l0_def bit_and_iff bit_not_iff mask_bits by simp
  have eq: "Pl011ConfigIn E C udd t = (HDF_SUCCESS, Wr (?b + UART_CR) ((?c OR UART_CR_EN) AND 0xFFFF) #
      Wr (?b + UART_LCR_H) (lcrh_value C udd l0 AND 0xFF) #
      Wr (?b + UART_FBRD) (baud_fraction C udd) # Wr (?b + UART_IBRD) (baud_divider C udd) #
      Wr (?b + UART_CR) (?c AND 0xFFFF) # Wr (?b + UART_LCR_H) (l0 AND 0xFF) #
      Wr (?b + UART_CR) 0 # Rd (?b + UART_LCR_H) lcrh # Rd (?b + UART_CR) cr # t)"
    unfolding Pl011ConfigIn_def assms(1) option.case OSAL_READW_def OSAL_WRITEW_def OSAL_WRITEB_def Let_def prod.case
      Pl011ConfigBaudrate_writes [OF assms(3) b] Pl011ConfigLCRH_def cr_value_def
      cr_def [symmetric] lcrh_def [symmetric] l0_def [symmetric]
    by simp
  have "cr_ok C (attr udd) cr ((?c OR UART_CR_EN) AND 0xFFFF)"
    unfolding cr_ok_def bit_and_iff bit_or_iff byte_bits cr_value_bit mask_bits by auto
  moreover have "lcrh_ok C (attr udd) (lcrh_value C udd l0 AND 0xFF)"
    by (rule lcrh_ok_byte [OF lcrh_value_ok [OF assms(2) l4]])
  moreover have "\<not> bit (?c AND 0xFFFF) 0" unfolding bit_and_iff cr_value_bit by simp
  moreover have "\<not> bit (l0 AND 0xFF) 4" using l4 unfolding bit_and_iff by simp
  ultimately show ?thesis
    using eq unfolding Let_def by blast
qed

definition ex_uart_consts :: uart_consts where
  "ex_uart_consts = \<lparr>UART_ATTR_DATABIT_5 = 3, UART_ATTR_DATABIT_6 = 2, UART_ATTR_DATABIT_7 = 1, UART_ATTR_DATABIT_8 = 0,
     UART_ATTR_PARITY_EVEN = 1, UART_ATTR_PARITY_ODD = 2, UART_ATTR_PARITY_MARK = 3, UART_ATTR_PARITY_SPACE = 4,
     UART_ATTR_STOPBIT_2 = 2, UART_ATTR_CTS_EN = 1, UART_ATTR_RTS_EN = 1, CONFIG_UART_CLK_INPUT = 24000000,
     CONSOLE_UART = 0, memcpy_ok = (\<lambda>_. True), attr_field = (\<lambda>n. n), SIZEOF_UartTransfer = 0x4010,
     SIZEOF_UartDriverData = 0x60, SIZEOF_UartPl011Port = 0x20, OFF_wait = 4\<rparr>"

definition ex_udd :: UartDriverData where
  "ex_udd = \<lparr>udd_addr = 0x1000, num = 0, baudrate = 500001,
     attr = \<lparr>dataBits = 0, parity = 0, stopBits = 0, rts = 0, cts = 0, fifoRxEn = 1, fifoTxEn = 1\<rparr>,
     rxTransfer = Some \<lparr>tr_addr = 0x8000, rp = 0x3FFE, wp = 0x3FFE, tr_data = replicate 0x4000 0\<rparr>,
     count = 1, state = 2, flags = 0,
     priv_port = Some \<lparr>port_addr = 0x2000, physBase = 0x120A0000, irqNum = 6, port_flags = 1\<rparr>\<rparr>"

lemma uart_ring_is_a_queue_witness:
  "\<exists>acc del udd' t' tr'.
     fifo_run (uart_put ex_uart_consts) (uart_get ex_uart_consts) [Put [1, 2, 3], Get 2, Put [4]] (ex_udd, []) = Some (acc, del, udd', t') \<and>
     rxTransfer udd' = Some tr' \<and> acc = del @ ring_bytes tr' \<and> length (ring_bytes tr') \<le> 0x3FFF"
  using uart_ring_is_a_queue [of ex_udd "\<lparr>tr_addr = 0x8000, rp = 0x3FFE, wp = 0x3FFE, tr_data = replicate 0x4000 0\<rparr>"
      ex_uart_consts "[Put [1, 2, 3], Get 2, Put [4]]" "[]"]
  by (simp add: ex_udd_def ex_uart_consts_def ring_ok_def ring_bytes_def)

lemma Pl011ConfigBaudrate_nearest_witness:
  "\<exists>d f. Pl011ConfigBaudrate ex_uart_consts (ex_udd\<lparr>baudrate := 750001\<rparr>) \<lparr>port_addr = 0x2000, physBase = 0x1000, irqNum = 6, port_flags = 1\<rparr> []
     = [Wr 0x1028 f, Wr 0x1024 d] \<and> 64 * unat d + unat f = 128 \<and> unat f \<le> 64 \<and> unat f = 64"
  using Pl011ConfigBaudrate_nearest [of "ex_udd\<lparr>baudrate := 750001\<rparr>" 750001 24000000 ex_uart_consts
     "\<lparr>port_addr = 0x2000, physBase = 0x1000, irqNum = 6, port_flags = 1\<rparr>" "[]"]
  by (simp add: ex_udd_def ex_uart_consts_def)

lemma Pl011ConfigIn_sequence_witness:
  "\<forall>E. \<exists>cr lcrh en lc fbrd ibrd off nofifo.
    Pl011ConfigIn E ex_uart_consts ex_udd [] = (HDF_SUCCESS, [Wr 0x120A0030 en, Wr 0x120A002C lc,
      Wr 0x120A0028 fbrd, Wr 0x120A0024 ibrd, Wr 0x120A0030 off, Wr 0x120A002C nofifo,
      Wr 0x120A0030 0, Rd 0x120A002C lcrh, Rd 0x120A0030 cr]) \<and>
    cr_ok ex_uart_consts (attr ex_udd) cr en \<and> lcrh_ok ex_uart_consts (attr ex_udd) lc \<and> \<not> bit off 0 \<and> \<not> bit nofifo 4"
proof
  fix E
  show "\<exists>cr lcrh en lc fbrd ibrd off nofifo.
    Pl011ConfigIn E ex_uart_consts ex_udd [] = (HDF_SUCCESS, [Wr 0x120A0030 en, Wr 0x120A002C lc,
      Wr 0x120A0028 fbrd, Wr 0x120A0024 ibrd, Wr 0x120A0030 off, Wr 0x120A002C nofifo,
      Wr 0x120A0030 0, Rd 0x120A002C lcrh, Rd 0x120A0030 cr]) \<and>
    cr_ok ex_uart_consts (attr ex_udd) cr en \<and> lcrh_ok ex_uart_consts (attr ex_udd) lc \<and> \<not> bit off 0 \<and> \<not> bit nofifo 4"
    using Pl011ConfigIn_sequence [of ex_udd "\<lparr>port_addr = 0x2000, physBase = 0x120A0000, irqNum = 6, port_flags = 1\<rparr>" ex_uart_consts E "[]"]
    by (simp add: ex_udd_def ex_uart_consts_def attr_consts_ok_def)
qed

end
