(* ===== verification/Uart.thy ===== *)
theory Uart
  imports UartPl011
begin

text \<open>
  The HDF UART host driver, \<open>drivers/uart/uart.c\<close>, on top of the PL011 (theory \<open>UartPl011\<close>): the state
  machine of the port, blocking reads, and the binding to the HDF device. \<open>host\<close> and \<open>host->priv\<close> are
  options; every operation takes the port \<open>host->priv\<close>, \<open>None\<close> when either pointer is null, and returns
  it updated. The operation table the functions go through is the argument \<open>ops\<close>. What happens while
  a reader waits for the event is the parameter \<open>uart_wait\<close>.
\<close>

subsection \<open>Operations of the host\<close>

abbreviation (input) UART_STATE_NOT_OPENED :: u32 where "UART_STATE_NOT_OPENED \<equiv> 0"
abbreviation (input) UART_STATE_OPENING :: u32 where "UART_STATE_OPENING \<equiv> 1"
abbreviation (input) UART_STATE_USEABLE :: u32 where "UART_STATE_USEABLE \<equiv> 2"
abbreviation (input) UART_DMA_DIR_RX :: u32 where "UART_DMA_DIR_RX \<equiv> 0"
abbreviation (input) UART_DMA_DIR_TX :: u32 where "UART_DMA_DIR_TX \<equiv> 1"
abbreviation (input) CONFIG_MAX_BAUDRATE :: u32 where "CONFIG_MAX_BAUDRATE \<equiv> 921600"

type_synonym uart_wait = "UartDriverData \<Rightarrow> trace \<Rightarrow> UartDriverData \<times> trace"

definition Hi35xxRead ::
  "uart_consts \<Rightarrow> uart_wait \<Rightarrow> bool \<Rightarrow> u32 \<Rightarrow> UartDriverData option \<Rightarrow> trace
     \<Rightarrow> ((HDF_STATUS + u8 list) \<times> UartDriverData option \<times> trace) option" where
  "Hi35xxRead C wait datanull sz port t =
     (case port of
       None \<Rightarrow> Some (Inl HDF_ERR_INVALID_PARAM, None, t)
     | Some udd \<Rightarrow>
         if state udd \<noteq> UART_STATE_USEABLE then Some (Inl HDF_FAILURE, Some udd, t) else do {
           (udd, t) \<leftarrow> (if flags udd AND UART_FLG_RD_BLOCK \<noteq> 0 then do {
                          emp \<leftarrow> PL011UartRxBufEmpty udd;
                          Some (if emp then wait udd (kproc LOS_EventRead [udd_addr udd + OFF_wait C, 1] t) else (udd, t))
                        } else Some (udd, t));
           (ret, udd) \<leftarrow> Pl011Read C datanull sz udd;
           t \<leftarrow> (if flags udd AND UART_FLG_RD_BLOCK \<noteq> 0 then do {
                   emp \<leftarrow> PL011UartRxBufEmpty udd;
                   Some (if emp then kproc LOS_EventClear [udd_addr udd + OFF_wait C, NOT 1] t else t)
                 } else Some t);
           Some (ret, Some udd, t)
         })"

definition Hi35xxWrite :: "UartOps \<Rightarrow> u32 \<Rightarrow> u32 \<Rightarrow> UartDriverData option \<Rightarrow> trace \<Rightarrow> HDF_STATUS \<times> trace" where
  "Hi35xxWrite ops data sz port t =
     (case port of
       None \<Rightarrow> (HDF_ERR_INVALID_PARAM, t)
     | Some udd \<Rightarrow>
         if state udd \<noteq> UART_STATE_USEABLE then (HDF_FAILURE, t) else
         case op_StartTx ops of
           None \<Rightarrow> (HDF_ERR_NOT_SUPPORT, t)
         | Some f \<Rightarrow> f udd data sz t)"

text \<open>The outcome and the value stored through the caller's pointer.\<close>

definition Hi35xxGetBaud :: "bool \<Rightarrow> UartDriverData option \<Rightarrow> HDF_STATUS \<times> u32 option" where
  "Hi35xxGetBaud outnull port =
     (case port of
       None \<Rightarrow> (HDF_ERR_INVALID_PARAM, None)
     | Some udd \<Rightarrow>
         if outnull then (HDF_ERR_INVALID_PARAM, None) else
         if state udd \<noteq> UART_STATE_USEABLE then (HDF_FAILURE, None) else (HDF_SUCCESS, Some (baudrate udd)))"

definition Hi35xxSetBaud ::
  "UartOps \<Rightarrow> u32 \<Rightarrow> UartDriverData option \<Rightarrow> trace \<Rightarrow> (HDF_STATUS \<times> UartDriverData option \<times> trace) option" where
  "Hi35xxSetBaud ops baudRate port t =
     (case port of
       None \<Rightarrow> Some (HDF_ERR_INVALID_PARAM, None, t)
     | Some udd \<Rightarrow>
         if state udd \<noteq> UART_STATE_USEABLE then Some (HDF_FAILURE, Some udd, t) else
         if baudRate > 0 \<and> baudRate \<le> CONFIG_MAX_BAUDRATE then
           (let udd = udd\<lparr>baudrate := baudRate\<rparr> in
            case op_Config ops of
              None \<Rightarrow> Some (HDF_ERR_NOT_SUPPORT, Some udd, t)
            | Some f \<Rightarrow> do {
                (ret, t) \<leftarrow> f udd t;
                Some (if ret \<noteq> HDF_SUCCESS then HDF_FAILURE else HDF_SUCCESS, Some udd, t)
              })
         else Some (HDF_FAILURE, Some udd, t))"

definition Hi35xxGetAttribute :: "bool \<Rightarrow> UartDriverData option \<Rightarrow> HDF_STATUS \<times> UartAttribute option" where
  "Hi35xxGetAttribute outnull port =
     (case port of
       None \<Rightarrow> (HDF_ERR_INVALID_PARAM, None)
     | Some udd \<Rightarrow>
         if outnull then (HDF_ERR_INVALID_PARAM, None) else
         if state udd \<noteq> UART_STATE_USEABLE then (HDF_FAILURE, None) else
         (HDF_SUCCESS, Some \<lparr>dataBits = dataBits (attr udd), parity = parity (attr udd), stopBits = stopBits (attr udd),
            rts = rts (attr udd), cts = cts (attr udd), fifoRxEn = fifoRxEn (attr udd), fifoTxEn = fifoTxEn (attr udd)\<rparr>))"

definition Hi35xxSetAttribute ::
  "UartOps \<Rightarrow> UartAttribute \<Rightarrow> UartDriverData option \<Rightarrow> trace \<Rightarrow> (HDF_STATUS \<times> UartDriverData option \<times> trace) option" where
  "Hi35xxSetAttribute ops a port t =
     (case port of
       None \<Rightarrow> Some (HDF_ERR_INVALID_PARAM, None, t)
     | Some udd \<Rightarrow>
         if state udd \<noteq> UART_STATE_USEABLE then Some (HDF_FAILURE, Some udd, t) else
         let udd = udd\<lparr>attr := (attr udd)\<lparr>cts := cts a, dataBits := dataBits a, fifoRxEn := fifoRxEn a,
               fifoTxEn := fifoTxEn a, parity := parity a, rts := rts a, stopBits := stopBits a\<rparr>\<rparr>
         in case op_Config ops of
              None \<Rightarrow> Some (HDF_ERR_NOT_SUPPORT, Some udd, t)
            | Some f \<Rightarrow> do {
                (ret, t) \<leftarrow> f udd t;
                Some (if ret \<noteq> HDF_SUCCESS then HDF_FAILURE else HDF_SUCCESS, Some udd, t)
              })"

datatype UartTransMode = UART_MODE_RD_BLOCK | UART_MODE_RD_NONBLOCK | UART_MODE_OTHER

definition Hi35xxSetTransMode ::
  "uart_consts \<Rightarrow> UartTransMode \<Rightarrow> UartDriverData option \<Rightarrow> trace \<Rightarrow> HDF_STATUS \<times> UartDriverData option \<times> trace" where
  "Hi35xxSetTransMode C mode port t =
     (case port of
       None \<Rightarrow> (HDF_ERR_INVALID_PARAM, None, t)
     | Some udd \<Rightarrow>
         if state udd \<noteq> UART_STATE_USEABLE then (HDF_FAILURE, Some udd, t) else
         (case mode of
            UART_MODE_RD_BLOCK \<Rightarrow> (HDF_SUCCESS, Some (udd\<lparr>flags := flags udd OR UART_FLG_RD_BLOCK\<rparr>), t)
          | UART_MODE_RD_NONBLOCK \<Rightarrow> (HDF_SUCCESS, Some (udd\<lparr>flags := flags udd AND NOT UART_FLG_RD_BLOCK\<rparr>),
              kproc LOS_EventWrite [udd_addr udd + OFF_wait C, 1] t)
          | UART_MODE_OTHER \<Rightarrow> (HDF_SUCCESS, Some udd, t)))"

text \<open>The zeroed transfer of \<open>OsalMemCalloc\<close>.\<close>

definition zero_UartTransfer :: "u32 \<Rightarrow> UartTransfer" where
  "zero_UartTransfer p = \<lparr>tr_addr = p, rp = 0, wp = 0, tr_data = replicate (unat BUF_SIZE) 0\<rparr>"

text \<open>The label \<open>FREE_TRANSFER\<close>.\<close>

definition free_transfer ::
  "HDF_STATUS \<Rightarrow> UartDriverData \<Rightarrow> trace \<Rightarrow> HDF_STATUS \<times> UartDriverData option \<times> trace" where
  "free_transfer ret udd t =
     (let t = kproc OsalMemFree [case rxTransfer udd of None \<Rightarrow> 0 | Some tr \<Rightarrow> tr_addr tr] t
      in (ret, Some (udd\<lparr>rxTransfer := None\<rparr>), t))"

definition init_useable :: "UartDriverData \<Rightarrow> trace \<Rightarrow> HDF_STATUS \<times> UartDriverData option \<times> trace" where
  "init_useable udd t = (HDF_SUCCESS, Some (udd\<lparr>state := UART_STATE_USEABLE, count := count udd + 1\<rparr>), t)"

definition Hi35xxInit ::
  "env \<Rightarrow> uart_consts \<Rightarrow> UartOps \<Rightarrow> UartDriverData option \<Rightarrow> trace
     \<Rightarrow> (HDF_STATUS \<times> UartDriverData option \<times> trace) option" where
  "Hi35xxInit E C ops port t =
     (case port of
       None \<Rightarrow> Some (HDF_ERR_INVALID_PARAM, None, t)
     | Some udd \<Rightarrow>
         if state udd = UART_STATE_NOT_OPENED then
           (let udd = udd\<lparr>state := UART_STATE_OPENING\<rparr>;
                t = kproc LOS_EventInit [udd_addr udd + OFF_wait C] t;
                (p, t) = kcall E OsalMemCalloc [SIZEOF_UartTransfer C] t
            in if p = 0 then Some (HDF_ERR_MALLOC_FAIL, Some (udd\<lparr>rxTransfer := None\<rparr>), t) else
            let udd = udd\<lparr>rxTransfer := Some (zero_UartTransfer p)\<rparr>
            in case op_StartUp ops of
                 None \<Rightarrow> Some (free_transfer HDF_ERR_NOT_SUPPORT udd t)
               | Some f \<Rightarrow> do {
                   (ret, udd, t) \<leftarrow> f udd t;
                   Some (if ret \<noteq> HDF_SUCCESS then free_transfer HDF_FAILURE udd t else init_useable udd t)
                 })
         else Some (init_useable udd t))"

definition dma_shutdown :: "UartOps \<Rightarrow> u32 \<Rightarrow> u32 \<Rightarrow> UartDriverData \<Rightarrow> trace \<Rightarrow> UartDriverData \<times> trace" where
  "dma_shutdown ops flag dir udd t =
     (if flags udd AND flag \<noteq> 0
      then case op_DmaShutDown ops of None \<Rightarrow> (udd, t) | Some f \<Rightarrow> f udd dir t
      else (udd, t))"

definition Hi35xxDeinit ::
  "uart_consts \<Rightarrow> UartOps \<Rightarrow> UartDriverData option \<Rightarrow> trace \<Rightarrow> HDF_STATUS \<times> UartDriverData option \<times> trace" where
  "Hi35xxDeinit C ops port t =
     (case port of
       None \<Rightarrow> (HDF_ERR_INVALID_PARAM, None, t)
     | Some udd \<Rightarrow>
         let udd = udd\<lparr>count := count udd - 1\<rparr>
         in if count udd \<noteq> 0 then (HDF_SUCCESS, Some udd, t) else
         let (udd, t) = dma_shutdown ops UART_FLG_DMA_RX UART_DMA_DIR_RX udd t;
             (udd, t) = dma_shutdown ops UART_FLG_DMA_TX UART_DMA_DIR_TX udd t;
             t = kproc LOS_EventDestroy [udd_addr udd + OFF_wait C] t;
             (udd, t) = (case op_ShutDown ops of
                           None \<Rightarrow> (udd, t)
                         | Some f \<Rightarrow> let (_, udd, t) = f udd t in (udd, t));
             (udd, t) = (case rxTransfer udd of
                           None \<Rightarrow> (udd, t)
                         | Some tr \<Rightarrow> (udd\<lparr>rxTransfer := None\<rparr>, kproc OsalMemFree [tr_addr tr] t))
         in (HDF_SUCCESS, Some (udd\<lparr>state := UART_STATE_NOT_OPENED\<rparr>), t))"

text \<open>\<open>Hi35xxPollEvent\<close>: \<open>Inr True\<close> for \<open>POLLIN | POLLRDNORM\<close>, \<open>Inr False\<close> for 0; \<open>HDF_OTHER (-14)\<close> is
  \<open>-EFAULT\<close>.\<close>

definition Hi35xxPollEvent ::
  "uart_consts \<Rightarrow> UartDriverData option \<Rightarrow> trace \<Rightarrow> ((HDF_STATUS + bool) \<times> trace) option" where
  "Hi35xxPollEvent C port t =
     (case port of
       None \<Rightarrow> Some (Inl HDF_FAILURE, t)
     | Some udd \<Rightarrow>
         if UART_STATE_USEABLE \<noteq> state udd then Some (Inl (HDF_OTHER (-14)), t) else do {
           let t = kproc poll_wait [udd_addr udd + OFF_wait C] t;
           emp \<leftarrow> PL011UartRxBufEmpty udd;
           Some (Inr (\<not> emp), t)
         })"

subsection \<open>Attaching the port\<close>

text \<open>The values of the device's resource file, by the name of the property; the calls are recorded
  with the position of the property in this list.\<close>

definition hcs_names :: "string list" where
  "hcs_names = [''num'', ''baudrate'', ''fifoRxEn'', ''fifoTxEn'', ''flags'', ''regPbase'', ''iomemCount'', ''interrupt'']"

type_synonym uart_hcs = "string \<Rightarrow> u32"

definition hcs_get :: "env \<Rightarrow> uart_hcs \<Rightarrow> nat \<Rightarrow> trace \<Rightarrow> u32 option \<times> trace" where
  "hcs_get E hcs i t =
     (let (ret, t) = kstatus E drs_GetUint32 [of_nat i] t
      in (if ret = HDF_SUCCESS then Some (hcs (hcs_names ! i)) else None, t))"

text \<open>\<open>UartGetConfigFromHcs\<close>; \<open>ifaceok\<close> is whether the interface has \<open>GetUint32\<close>. The results are
  success, the two structs and the history.\<close>

definition UartGetConfigFromHcs ::
  "env \<Rightarrow> uart_consts \<Rightarrow> uart_hcs \<Rightarrow> bool \<Rightarrow> UartPl011Port \<Rightarrow> UartDriverData \<Rightarrow> trace
     \<Rightarrow> bool \<times> UartPl011Port \<times> UartDriverData \<times> trace" where
  "UartGetConfigFromHcs E C hcs ifaceok port udd t =
     (let (iface, t) = kcall E DeviceResourceGetIface [] t
      in if iface = 0 \<or> \<not> ifaceok then (False, port, udd, t) else
      case hcs_get E hcs 0 t of (None, t) \<Rightarrow> (False, port, udd, t) | (Some v, t) \<Rightarrow>
      let udd = udd\<lparr>num := v\<rparr> in
      case hcs_get E hcs 1 t of (None, t) \<Rightarrow> (False, port, udd, t) | (Some v, t) \<Rightarrow>
      let udd = udd\<lparr>baudrate := v\<rparr> in
      case hcs_get E hcs 2 t of (None, t) \<Rightarrow> (False, port, udd, t) | (Some v, t) \<Rightarrow>
      let udd = udd\<lparr>attr := (attr udd)\<lparr>fifoRxEn := attr_field C v\<rparr>\<rparr> in
      case hcs_get E hcs 3 t of (None, t) \<Rightarrow> (False, port, udd, t) | (Some v, t) \<Rightarrow>
      let udd = udd\<lparr>attr := (attr udd)\<lparr>fifoTxEn := attr_field C v\<rparr>\<rparr> in
      case hcs_get E hcs 4 t of (None, t) \<Rightarrow> (False, port, udd, t) | (Some v, t) \<Rightarrow>
      let udd = udd\<lparr>flags := v\<rparr> in
      case hcs_get E hcs 5 t of (None, t) \<Rightarrow> (False, port, udd, t) | (Some regPbase, t) \<Rightarrow>
      case hcs_get E hcs 6 t of (None, t) \<Rightarrow> (False, port, udd, t) | (Some iomemCount, t) \<Rightarrow>
      let (p, t) = kcall E OsalIoRemap [regPbase, iomemCount] t;
          port = port\<lparr>physBase := p\<rparr> in
      case hcs_get E hcs 7 t of (None, t) \<Rightarrow> (False, port, udd, t) | (Some v, t) \<Rightarrow>
      (True, port\<lparr>irqNum := v\<rparr>, udd, t))"

text \<open>The structs after \<open>OsalMemCalloc\<close>.\<close>

definition zero_UartDriverData :: "u32 \<Rightarrow> UartDriverData" where
  "zero_UartDriverData p = \<lparr>udd_addr = p, num = 0, baudrate = 0,
     attr = \<lparr>dataBits = 0, parity = 0, stopBits = 0, rts = 0, cts = 0, fifoRxEn = 0, fifoTxEn = 0\<rparr>,
     rxTransfer = None, count = 0, state = UART_STATE_NOT_OPENED, flags = 0, priv_port = None\<rparr>"

record UartHost =
  host_addr :: u32
  host_num :: u32
  host_priv :: "UartDriverData option"
  host_method :: bool   \<comment> \<open>whether the method table is installed\<close>

definition Hi35xxAttach ::
  "env \<Rightarrow> uart_consts \<Rightarrow> uart_hcs \<Rightarrow> bool \<Rightarrow> bool \<Rightarrow> UartHost \<Rightarrow> trace \<Rightarrow> HDF_STATUS \<times> UartHost \<times> trace" where
  "Hi35xxAttach E C hcs ifaceok propnull host t =
     (if propnull then (HDF_FAILURE, host, t) else
      let (u, t) = kcall E OsalMemCalloc [SIZEOF_UartDriverData C] t
      in if u = 0 then (HDF_ERR_MALLOC_FAIL, host, t) else
      let (p, t) = kcall E OsalMemCalloc [SIZEOF_UartPl011Port C] t
      in if p = 0 then (HDF_ERR_MALLOC_FAIL, host, kproc OsalMemFree [u] t) else
      let port = \<lparr>port_addr = p, physBase = 0, irqNum = 0, port_flags = 0\<rparr>;
          (ok, port, udd, t) = UartGetConfigFromHcs E C hcs ifaceok port (zero_UartDriverData u) t
      in if \<not> ok \<or> physBase port = 0 then (HDF_FAILURE, host, kproc OsalMemFree [u] (kproc OsalMemFree [p] t)) else
      let udd = udd\<lparr>priv_port := Some port\<rparr>;
          host = host\<lparr>host_priv := Some udd, host_num := num udd\<rparr>
      in (HDF_SUCCESS, host, kproc UartAddDev [host_addr host] t))"

definition Hi35xxDetach :: "UartHost \<Rightarrow> trace \<Rightarrow> UartHost \<times> trace" where
  "Hi35xxDetach host t =
     (case host_priv host of
       None \<Rightarrow> (host, t)
     | Some udd \<Rightarrow>
         if state udd \<noteq> UART_STATE_NOT_OPENED then (host, t) else
         let t = kproc UartRemoveDev [host_addr host] t;
             t = (case priv_port udd of
                    None \<Rightarrow> t
                  | Some port \<Rightarrow>
                      let t = (if physBase port \<noteq> 0 then kproc OsalIoUnmap [physBase port] t else t)
                      in kproc OsalMemFree [port_addr port] t)
         in (host\<lparr>host_priv := None\<rparr>, kproc OsalMemFree [udd_addr udd] t))"

definition HdfUartDeviceBind :: "env \<Rightarrow> bool \<Rightarrow> trace \<Rightarrow> HDF_STATUS \<times> trace" where
  "HdfUartDeviceBind E devnull t =
     (if devnull then (HDF_ERR_INVALID_OBJECT, t) else
      let (h, t) = kcall E UartHostCreate [] t in (if h = 0 then HDF_FAILURE else HDF_SUCCESS, t))"

text \<open>\<open>host\<close> is what \<open>UartHostFromDevice\<close> finds.\<close>

definition HdfUartDeviceInit ::
  "env \<Rightarrow> uart_consts \<Rightarrow> uart_hcs \<Rightarrow> bool \<Rightarrow> bool \<Rightarrow> bool \<Rightarrow> UartHost option \<Rightarrow> trace
     \<Rightarrow> HDF_STATUS \<times> UartHost option \<times> trace" where
  "HdfUartDeviceInit E C hcs ifaceok propnull devnull host t =
     (if devnull then (HDF_ERR_INVALID_OBJECT, host, t) else
      case host of
        None \<Rightarrow> (HDF_FAILURE, None, t)
      | Some h \<Rightarrow>
          let (ret, h, t) = Hi35xxAttach E C hcs ifaceok propnull h t
          in if ret \<noteq> HDF_SUCCESS then (HDF_FAILURE, Some h, t)
             else (ret, Some (h\<lparr>host_method := True\<rparr>), t))"

definition HdfUartDeviceRelease :: "bool \<Rightarrow> UartHost option \<Rightarrow> trace \<Rightarrow> trace" where
  "HdfUartDeviceRelease devnull host t =
     (if devnull then t else
      case host of
        None \<Rightarrow> t
      | Some h \<Rightarrow>
          let (h, t) = (if host_priv h \<noteq> None then Hi35xxDetach h t else (h, t))
          in kproc UartHostDestroy [host_addr h] t)"

subsection \<open>The life of a port\<close>

text \<open>The states of an attached port together with the number of opens that have not been closed. The
  opens here succeed; a read, a character from the interrupt, a change of the mode, of the baud rate or
  of the attributes may come at any time, in any order.\<close>

inductive uart_reach :: "env \<Rightarrow> uart_consts \<Rightarrow> UartDriverData \<Rightarrow> trace \<Rightarrow> nat \<Rightarrow> bool"
  for E C where
  attached: "state udd = UART_STATE_NOT_OPENED \<Longrightarrow> count udd = 0 \<Longrightarrow> rxTransfer udd = None \<Longrightarrow>
    udd_addr udd + OFF_wait C \<noteq> 0 \<Longrightarrow> uart_reach E C udd t 0"
| opened: "uart_reach E C udd t n \<Longrightarrow> Suc n < 2 ^ 31 \<Longrightarrow>
    Hi35xxInit E C (Pl011GetOps E C) (Some udd) t = Some (HDF_SUCCESS, Some udd', t') \<Longrightarrow> uart_reach E C udd' t' (Suc n)"
| closed: "uart_reach E C udd t (Suc n) \<Longrightarrow>
    Hi35xxDeinit C (Pl011GetOps E C) (Some udd) t = (r, Some udd', t') \<Longrightarrow> uart_reach E C udd' t' n"
| received: "uart_reach E C udd t n \<Longrightarrow> 0 < bytes \<Longrightarrow> length buf = unat bytes \<Longrightarrow>
    PL011UartRecvNotify C buf bytes udd t = Some (r, udd', t') \<Longrightarrow> uart_reach E C udd' t' n"
| read: "uart_reach E C udd t n \<Longrightarrow> Pl011Read C datanull sz udd = Some (got, udd') \<Longrightarrow> uart_reach E C udd' t' n"
| mode: "uart_reach E C udd t n \<Longrightarrow> Hi35xxSetTransMode C m (Some udd) t = (r, Some udd', t') \<Longrightarrow> uart_reach E C udd' t' n"
| baud: "uart_reach E C udd t n \<Longrightarrow> Hi35xxSetBaud (Pl011GetOps E C) b (Some udd) t = Some (r, Some udd', t') \<Longrightarrow>
    uart_reach E C udd' t' n"
| attribute: "uart_reach E C udd t n \<Longrightarrow> Hi35xxSetAttribute (Pl011GetOps E C) a (Some udd) t = Some (r, Some udd', t') \<Longrightarrow>
    uart_reach E C udd' t' n"

definition uart_wf :: "uart_consts \<Rightarrow> UartDriverData \<Rightarrow> nat \<Rightarrow> bool" where
  "uart_wf C udd n \<longleftrightarrow> unat (count udd) = n \<and> udd_addr udd + OFF_wait C \<noteq> 0 \<and>
     (if n = 0 then state udd = UART_STATE_NOT_OPENED \<and> rxTransfer udd = None
      else state udd = UART_STATE_USEABLE \<and> (\<exists>tr. rxTransfer udd = Some tr \<and> ring_ok tr))"

lemma StartUp_frame:
  "Pl011StartUp E C udd t = (r, udd', t') \<Longrightarrow> udd' = udd\<lparr>priv_port := priv_port udd'\<rparr>"
  by (cases udd; cases "priv_port udd") (auto simp: Pl011StartUp_def Let_def split: prod.splits if_splits)

lemma ShutDown_frame:
  "Pl011ShutDown E udd t = (r, udd', t') \<Longrightarrow> udd' = udd\<lparr>priv_port := priv_port udd'\<rparr>"
  by (cases udd; cases "priv_port udd") (auto simp: Pl011ShutDown_def Let_def split: prod.splits if_splits)

lemma ops_fields:
  "op_StartUp (Pl011GetOps E C) = Some (\<lambda>udd t. Some (Pl011StartUp E C udd t))"
  "op_ShutDown (Pl011GetOps E C) = Some (Pl011ShutDown E)"
  "op_Config (Pl011GetOps E C) = Some (Pl011Config E C)"
  "dma_shutdown (Pl011GetOps E C) f d udd t = (udd, t)"
  by (simp_all add: Pl011GetOps_def dma_shutdown_def)

lemma wf_open:
  assumes "uart_wf C udd n" "Suc n < 2 ^ 31"
    and "Hi35xxInit E C (Pl011GetOps E C) (Some udd) t = Some (HDF_SUCCESS, Some udd', t')"
  shows "uart_wf C udd' (Suc n)"
proof (cases "n = 0")
  case True
  then have s: "state udd = 0" "count udd = 0" using assms(1) by (auto simp: uart_wf_def unat_eq_zero)
  obtain p tp where k: "kcall E OsalMemCalloc [SIZEOF_UartTransfer C] (kproc LOS_EventInit [udd_addr udd + OFF_wait C] t) = (p, tp)"
    by force
  let ?u = "udd\<lparr>state := UART_STATE_OPENING, rxTransfer := Some (zero_UartTransfer p)\<rparr>"
  obtain r u2 t2 where st: "Pl011StartUp E C ?u tp = (r, u2, t2)" by (cases "Pl011StartUp E C ?u tp")
  have "p \<noteq> 0" using assms(3) s k by (auto simp: Hi35xxInit_def)
  then have "udd' = u2\<lparr>state := UART_STATE_USEABLE, count := count u2 + 1\<rparr>"
    using assms(3) s k st by (auto simp: Hi35xxInit_def ops_fields init_useable_def free_transfer_def split: if_splits)
  moreover obtain q where "u2 = ?u\<lparr>priv_port := q\<rparr>" using StartUp_frame [OF st] by blast
  ultimately show ?thesis
    using True s assms(1) by (simp add: uart_wf_def ring_ok_def zero_UartTransfer_def)
next
  case False
  then have s: "state udd = 2" "unat (count udd) = n" using assms(1) by (auto simp: uart_wf_def)
  have "udd' = udd\<lparr>state := UART_STATE_USEABLE, count := count udd + 1\<rparr>"
    using assms(3) s by (simp add: Hi35xxInit_def init_useable_def)
  moreover have "unat (count udd + 1) = Suc n"
    using s(2) assms(2) by (simp add: unat_word_ariths)
  ultimately show ?thesis using False assms(1) by (auto simp: uart_wf_def)
qed

lemma wf_close:
  assumes "uart_wf C udd (Suc n)" and "Hi35xxDeinit C (Pl011GetOps E C) (Some udd) t = (r, Some udd', t')"
  shows "uart_wf C udd' n"
proof -
  have c: "unat (count udd) = Suc n" using assms(1) by (simp add: uart_wf_def)
  then have "0 < count udd" by (simp add: word_less_nat_alt)
  then have c1: "unat (count udd - 1) = n" using c by (simp add: unat_minus_one)
  show ?thesis
  proof (cases "n = 0")
    case True
    then have z: "count udd - 1 = 0" using c1 by (simp add: unat_eq_zero)
    then have o: "count udd = 1" by simp
    define t0 where "t0 = kproc LOS_EventDestroy [udd_addr udd + OFF_wait C] t"
    obtain r2 u2 t2 where sh: "Pl011ShutDown E (udd\<lparr>count := 0\<rparr>) t0 = (r2, u2, t2)"
      by (cases "Pl011ShutDown E (udd\<lparr>count := 0\<rparr>) t0")
    obtain q where q: "u2 = udd\<lparr>count := 0, priv_port := q\<rparr>" using ShutDown_frame [OF sh] by auto
    obtain tr where tr: "rxTransfer udd = Some tr" using assms(1) by (auto simp: uart_wf_def)
    have "udd' = udd\<lparr>count := 0, priv_port := q, rxTransfer := None, state := 0\<rparr>"
      using assms(2) sh q tr o by (simp add: Hi35xxDeinit_def ops_fields t0_def [symmetric])
    then show ?thesis using True assms(1) by (simp add: uart_wf_def)
  next
    case False
    then have "count udd - 1 \<noteq> 0" using c1 by auto
    then have "udd' = udd\<lparr>count := count udd - 1\<rparr>"
      using assms(2) by (simp add: Hi35xxDeinit_def)
    then show ?thesis using assms(1) c1 False by (auto simp: uart_wf_def)
  qed
qed


lemma wf_ring:
  "uart_wf C udd n \<Longrightarrow> rxTransfer udd = Some tr \<Longrightarrow> ring_ok tr \<and> 0 < n"
  by (auto simp: uart_wf_def split: if_splits)

lemma read_wf:
  assumes "uart_wf C udd n" and "\<forall>k. memcpy_ok C k" and "Pl011Read C datanull sz udd = Some (got, udd')"
  shows "uart_wf C udd' n"
proof (cases "datanull \<or> sz = 0 \<or> rxTransfer udd = None")
  case True
  then have "udd' = udd" using assms(3) by (auto simp: Pl011Read_def split: option.splits if_splits)
  then show ?thesis using assms(1) by simp
next
  case False
  then obtain tr where tr: "rxTransfer udd = Some tr" and d: "datanull = False" "sz \<noteq> 0" by auto
  note k = wf_ring [OF assms(1) tr]
  from Pl011Read_takes [OF tr conjunct1 [OF k] assms(2) d(2)] obtain tr' where
    "udd' = udd\<lparr>rxTransfer := Some tr'\<rparr>" "ring_ok tr'"
    using assms(3) d(1) by auto
  then show ?thesis using assms(1) k by (auto simp: uart_wf_def)
qed

lemma notify_wf:
  assumes "uart_wf C udd n" and "\<forall>k. memcpy_ok C k" and "0 < bytes" and "length buf = unat bytes"
    and "PL011UartRecvNotify C buf bytes udd t = Some (r, udd', t')"
  shows "uart_wf C udd' n"
proof (cases "rxTransfer udd")
  case None
  then have "udd' = udd" using assms(3-5) by (auto simp: PL011UartRecvNotify_def split: if_splits)
  then show ?thesis using assms(1) by simp
next
  case (Some tr)
  note k = wf_ring [OF assms(1) Some]
  have b: "bytes \<noteq> 0" "unat bytes \<le> length buf" using assms(3,4) by auto
  have a: "udd_addr udd + OFF_wait C \<noteq> 0" using assms(1) by (simp add: uart_wf_def)
  from PL011UartRecvNotify_appends [OF Some conjunct1 [OF k] assms(2) b a, of t] obtain tr' where
    "udd' = udd\<lparr>rxTransfer := Some tr'\<rparr>" "ring_ok tr'"
    using assms(5) by auto
  then show ?thesis using assms(1) k by (auto simp: uart_wf_def)
qed

lemma setters_frame:
  "Hi35xxSetTransMode C m (Some udd) t = (r, Some udd', t') \<Longrightarrow> uart_wf C udd n \<Longrightarrow> uart_wf C udd' n"
  "Hi35xxSetBaud ops b (Some udd) t = Some (r, Some udd', t') \<Longrightarrow> uart_wf C udd n \<Longrightarrow> uart_wf C udd' n"
  "Hi35xxSetAttribute ops a (Some udd) t = Some (r, Some udd', t') \<Longrightarrow> uart_wf C udd n \<Longrightarrow> uart_wf C udd' n"
  by (auto simp: Hi35xxSetTransMode_def Hi35xxSetBaud_def Hi35xxSetAttribute_def uart_wf_def Let_def
      split: if_splits UartTransMode.splits option.splits bind_splits)

lemma reach_wf:
  "uart_reach E C udd t n \<Longrightarrow> \<forall>k. memcpy_ok C k \<Longrightarrow> uart_wf C udd n"
proof (induction rule: uart_reach.induct)
  case (attached udd t)
  then show ?case by (simp add: uart_wf_def)
next
  case (opened udd t n udd' t')
  then show ?case by (blast intro: wf_open)
next
  case (closed udd t n r udd' t')
  then show ?case by (blast intro: wf_close)
next
  case (received udd t n bytes buf r udd' t')
  then show ?case by (blast intro: notify_wf)
next
  case (read udd t n datanull sz got udd' t')
  then show ?case by (blast intro: read_wf)
qed (blast intro: setters_frame)+

lemma nonblocking_read:
  assumes "uart_wf C udd n" and "0 < n" and "\<forall>k. memcpy_ok C k" and "sz \<noteq> 0" and "flags udd AND UART_FLG_RD_BLOCK = 0"
  shows "\<exists>tr udd'. rxTransfer udd = Some tr \<and>
    Hi35xxRead C wait False sz (Some udd) t = Some (Inr (take (unat sz) (ring_bytes tr)), Some udd', t)"
proof -
  obtain tr where tr: "state udd = 2" "rxTransfer udd = Some tr" "ring_ok tr"
    using assms(1,2) by (auto simp: uart_wf_def)
  from Pl011Read_takes [OF tr(2,3) assms(3,4)] obtain tr' where
    r: "Pl011Read C False sz udd = Some (Inr (take (unat sz) (ring_bytes tr)), udd\<lparr>rxTransfer := Some tr'\<rparr>)"
    by blast
  show ?thesis using tr assms(5) by (simp add: Hi35xxRead_def r)
qed


text \<open>Opening after a failed open. When the allocation of the receive ring fails, the open reports it but
  leaves the port in the opening state; the next open then allocates nothing, does not start the
  device and still succeeds, and polling the port it opened dereferences the null ring.\<close>

theorem Hi35xxInit_retry:
  assumes "state udd = UART_STATE_NOT_OPENED"
    and "sys_ret E (Call LOS_EventInit [udd_addr udd + OFF_wait C] # t) OsalMemCalloc [SIZEOF_UartTransfer C] = 0"
  shows "\<exists>udd1 t1 udd2. Hi35xxInit E C (Pl011GetOps E C) (Some udd) t = Some (HDF_ERR_MALLOC_FAIL, Some udd1, t1) \<and>
    Hi35xxInit E C (Pl011GetOps E C) (Some udd1) t1 = Some (HDF_SUCCESS, Some udd2, t1) \<and>
    state udd2 = UART_STATE_USEABLE \<and> rxTransfer udd2 = None \<and> Hi35xxPollEvent C (Some udd2) t1 = None"
proof -
  let ?u1 = "udd\<lparr>state := UART_STATE_OPENING, rxTransfer := None\<rparr>"
  let ?u2 = "?u1\<lparr>state := UART_STATE_USEABLE, count := count udd + 1\<rparr>"
  obtain t1 where "Hi35xxInit E C (Pl011GetOps E C) (Some udd) t = Some (HDF_ERR_MALLOC_FAIL, Some ?u1, t1)"
    using assms by (simp add: Hi35xxInit_def io_defs)
  moreover have "Hi35xxInit E C (Pl011GetOps E C) (Some ?u1) t1 = Some (HDF_SUCCESS, Some ?u2, t1)"
    by (simp add: Hi35xxInit_def init_useable_def)
  moreover have "Hi35xxPollEvent C (Some ?u2) t1 = None"
    by (simp add: Hi35xxPollEvent_def PL011UartRxBufEmpty_def)
  ultimately show ?thesis by fastforce
qed

definition ex_uart_env :: "u32 \<Rightarrow> env" where
  "ex_uart_env m = \<lparr>rd_reg = (\<lambda>t a. 0), sys_ret = (\<lambda>t c args. if c = OsalMemCalloc then m else 0),
     sys_hdf = (\<lambda>t c args. HDF_SUCCESS), ALIGN = (\<lambda>x a. x), IO_DEVICE_ADDR = (\<lambda>x. x), VMM_TO_DMA_ADDR = (\<lambda>x. x),
     LOS_ASSERT = (\<lambda>b. b)\<rparr>"

definition ex_closed :: UartDriverData where
  "ex_closed = ex_udd\<lparr>rxTransfer := None, count := 0, state := UART_STATE_NOT_OPENED\<rparr>"

lemma StartUp_success:
  assumes "priv_port udd \<noteq> None"
  shows "fst (Pl011StartUp E C udd t) = HDF_SUCCESS"
proof -
  have c: "fst (Pl011ConfigIn E C u t) = HDF_SUCCESS" if "priv_port u \<noteq> None" for u t
    using that by (auto simp: Pl011ConfigIn_def Let_def split: prod.split)
  have "Pl011StartUp E C udd t = (r, u, t2) \<Longrightarrow> r = HDF_SUCCESS" for r u t2
    using assms c [of "u" "_"] unfolding Pl011StartUp_def Let_def
    by (auto split: prod.splits if_splits) (metis c fst_conv option.distinct(1) UartDriverData.select_convs)+
  then show ?thesis by (metis prod.collapse)
qed

lemma open_succeeds:
  assumes "state udd = UART_STATE_NOT_OPENED" and "priv_port udd \<noteq> None" and "\<And>t xs. sys_ret E t OsalMemCalloc xs \<noteq> 0"
  shows "\<exists>udd' t'. Hi35xxInit E C (Pl011GetOps E C) (Some udd) t = Some (HDF_SUCCESS, Some udd', t')"
proof -
  define p where "p = sys_ret E (Call LOS_EventInit [udd_addr udd + OFF_wait C] # t) OsalMemCalloc [SIZEOF_UartTransfer C]"
  define tp where "tp = Call OsalMemCalloc [SIZEOF_UartTransfer C] # Call LOS_EventInit [udd_addr udd + OFF_wait C] # t"
  let ?u = "udd\<lparr>state := UART_STATE_OPENING, rxTransfer := Some (zero_UartTransfer p)\<rparr>"
  obtain r u2 t2 where st: "Pl011StartUp E C ?u tp = (r, u2, t2)" by (cases "Pl011StartUp E C ?u tp")
  moreover have "r = HDF_SUCCESS" using StartUp_success [of ?u E C tp] assms(2) st by simp
  moreover have "p \<noteq> 0" unfolding p_def by (rule assms(3))
  ultimately show ?thesis
    using assms(1) by (simp add: Hi35xxInit_def ops_fields io_defs init_useable_def p_def [symmetric] tp_def [symmetric])
qed

lemma ex_reach:
  "\<exists>udd t. uart_reach (ex_uart_env 0x8000) ex_uart_consts udd t 1"
proof -
  let ?E = "ex_uart_env 0x8000"
  have "uart_reach ?E ex_uart_consts ex_closed [] 0"
    by (rule uart_reach.attached) (simp_all add: ex_closed_def ex_udd_def ex_uart_consts_def)
  moreover have "\<exists>udd' t'. Hi35xxInit ?E ex_uart_consts (Pl011GetOps ?E ex_uart_consts) (Some ex_closed) [] = Some (HDF_SUCCESS, Some udd', t')"
    by (rule open_succeeds) (simp_all add: ex_closed_def ex_udd_def ex_uart_env_def)
  ultimately show ?thesis using uart_reach.opened [of ?E ex_uart_consts ex_closed "[]" 0] by fastforce
qed


lemma Hi35xxInit_retry_witness:
  "\<exists>udd1 t1 udd2. Hi35xxInit (ex_uart_env 0) ex_uart_consts (Pl011GetOps (ex_uart_env 0) ex_uart_consts) (Some ex_closed) []
      = Some (HDF_ERR_MALLOC_FAIL, Some udd1, t1) \<and>
    Hi35xxInit (ex_uart_env 0) ex_uart_consts (Pl011GetOps (ex_uart_env 0) ex_uart_consts) (Some udd1) t1 = Some (HDF_SUCCESS, Some udd2, t1) \<and>
    state udd2 = UART_STATE_USEABLE \<and> rxTransfer udd2 = None \<and> Hi35xxPollEvent ex_uart_consts (Some udd2) t1 = None"
  by (rule Hi35xxInit_retry) (simp_all add: ex_closed_def ex_uart_env_def)

end
