(* ===== verification/Cfiflash.thy ===== *)
theory Cfiflash
  imports Prelude
begin

text \<open>
  The CFI flash driver of the riscv32 board, \<open>riscv32_virt/liteos_m/board/driver/cfiflash\<close>:
  \<open>cfiflash.c\<close> (query, read, buffered write, erase), \<open>cfiflash_fs_hal.c\<close> (the FatFs and LittleFS
  block devices) and \<open>hdf_cfi.c\<close>. The flash is the device of the environment: a read returns what the
  device answers after the history. A word of the flash has the address \<open>base + 4 * word\<close>, computed on
  32 bits. Interrupt locks and barriers have no sequential effect; the reads that only feed a log
  message are left out.
\<close>

subsection \<open>Geometry and commands\<close>

abbreviation (input) CFIFLASH_MAX_NUM :: u32 where "CFIFLASH_MAX_NUM \<equiv> 2"
abbreviation (input) CFIFLASH_CAPACITY :: u32 where "CFIFLASH_CAPACITY \<equiv> 0x2000000"
abbreviation (input) CFIFLASH_ERASEBLK_SIZE :: u32 where "CFIFLASH_ERASEBLK_SIZE \<equiv> 0x40000"
abbreviation (input) CFIFLASH_ERASEBLK_WORDMASK :: u32 where "CFIFLASH_ERASEBLK_WORDMASK \<equiv> 0xFFFF0000"
abbreviation (input) CFIFLASH_ONE_BANK_BITS :: u32 where "CFIFLASH_ONE_BANK_BITS \<equiv> 24"
abbreviation (input) CFIFLASH_SECTORS :: u32 where "CFIFLASH_SECTORS \<equiv> 0x10000"
abbreviation (input) CFIFLASH_SEC_SIZE :: u32 where "CFIFLASH_SEC_SIZE \<equiv> 512"
abbreviation (input) CFIFLASH_PAGE_WORDS :: u32 where "CFIFLASH_PAGE_WORDS \<equiv> 1024"
abbreviation (input) CFIFLASH_PAGE_WORDS_MASK :: u32 where "CFIFLASH_PAGE_WORDS_MASK \<equiv> 1023"
abbreviation (input) CFIFLASH_QUERY_CMD :: u32 where "CFIFLASH_QUERY_CMD \<equiv> 0x98"
abbreviation (input) CFIFLASH_QUERY_BASE :: u32 where "CFIFLASH_QUERY_BASE \<equiv> 0x55"
abbreviation (input) CFIFLASH_QUERY_QRY :: u32 where "CFIFLASH_QUERY_QRY \<equiv> 0x10"
abbreviation (input) CFIFLASH_QUERY_VENDOR :: u32 where "CFIFLASH_QUERY_VENDOR \<equiv> 0x13"
abbreviation (input) CFIFLASH_QUERY_SIZE :: u32 where "CFIFLASH_QUERY_SIZE \<equiv> 0x27"
abbreviation (input) CFIFLASH_QUERY_PAGE_BITS :: u32 where "CFIFLASH_QUERY_PAGE_BITS \<equiv> 0x2A"
abbreviation (input) CFIFLASH_QUERY_ERASE_REGION :: u32 where "CFIFLASH_QUERY_ERASE_REGION \<equiv> 0x2C"
abbreviation (input) CFIFLASH_QUERY_BLOCKS :: u32 where "CFIFLASH_QUERY_BLOCKS \<equiv> 0x2D"
abbreviation (input) CFIFLASH_QUERY_BLOCK_SIZE :: u32 where "CFIFLASH_QUERY_BLOCK_SIZE \<equiv> 0x2F"
abbreviation (input) CFIFLASH_EXPECT_VENDOR :: u32 where "CFIFLASH_EXPECT_VENDOR \<equiv> 1"
abbreviation (input) CFIFLASH_EXPECT_PAGE_BITS :: u32 where "CFIFLASH_EXPECT_PAGE_BITS \<equiv> 11"
abbreviation (input) CFIFLASH_EXPECT_BLOCKS :: u32 where "CFIFLASH_EXPECT_BLOCKS \<equiv> 127"
abbreviation (input) CFIFLASH_EXPECT_BLOCK_SIZE :: u32 where "CFIFLASH_EXPECT_BLOCK_SIZE \<equiv> 512"
abbreviation (input) CFIFLASH_EXPECT_ERASE_REGION :: u32 where "CFIFLASH_EXPECT_ERASE_REGION \<equiv> 1"
abbreviation (input) CFIFLASH_CMD_ERASE :: u32 where "CFIFLASH_CMD_ERASE \<equiv> 0x20"
abbreviation (input) CFIFLASH_CMD_CLEAR_STATUS :: u32 where "CFIFLASH_CMD_CLEAR_STATUS \<equiv> 0x50"
abbreviation (input) CFIFLASH_CMD_READ_STATUS :: u32 where "CFIFLASH_CMD_READ_STATUS \<equiv> 0x70"
abbreviation (input) CFIFLASH_CMD_CONFIRM :: u32 where "CFIFLASH_CMD_CONFIRM \<equiv> 0xD0"
abbreviation (input) CFIFLASH_CMD_BUFWRITE :: u32 where "CFIFLASH_CMD_BUFWRITE \<equiv> 0xE8"
abbreviation (input) CFIFLASH_CMD_RESET :: u32 where "CFIFLASH_CMD_RESET \<equiv> 0xFF"
abbreviation (input) CFIFLASH_STATUS_READY_MASK :: u32 where "CFIFLASH_STATUS_READY_MASK \<equiv> 0x80"

datatype FLASH_DRESULT = FLASH_OK | FLASH_ERROR

type_synonym cfi_bases = "u32 \<Rightarrow> u32"   \<comment> \<open>\<open>g_cfiDrvBase\<close>\<close>

text \<open>The base of a flash; 0 is the null pointer.\<close>

definition GetCfiDrvPriv :: "cfi_bases \<Rightarrow> u32 \<Rightarrow> u32" where
  "GetCfiDrvPriv drv pdrv = (if pdrv < CFIFLASH_MAX_NUM then drv pdrv else 0)"

text \<open>The store has no check of the index: outside the array it is undefined.\<close>

definition SetCfiDrvPriv :: "cfi_bases \<Rightarrow> u32 \<Rightarrow> u32 \<Rightarrow> (FLASH_DRESULT \<times> cfi_bases) option" where
  "SetCfiDrvPriv drv pdrv priv =
     (if pdrv < CFIFLASH_MAX_NUM then Some (FLASH_OK, drv(pdrv := priv)) else None)"

definition CfiFlashInit :: "cfi_bases \<Rightarrow> u32 \<Rightarrow> u32 \<Rightarrow> (FLASH_DRESULT \<times> cfi_bases) option" where
  "CfiFlashInit drv pdrv priv = SetCfiDrvPriv drv pdrv priv"

definition CfiFlashSec2Bytes :: "u32 \<Rightarrow> u32" where "CfiFlashSec2Bytes sector = push_bit 9 sector"
definition CfiFlashPageWordOffset :: "u32 \<Rightarrow> u32" where "CfiFlashPageWordOffset w = w AND CFIFLASH_PAGE_WORDS_MASK"
definition CfiFlashEraseBlkWordAddr :: "u32 \<Rightarrow> u32" where "CfiFlashEraseBlkWordAddr w = w AND CFIFLASH_ERASEBLK_WORDMASK"
definition W2B :: "u32 \<Rightarrow> u32" where "W2B words = push_bit 2 words"
definition B2W :: "u32 \<Rightarrow> u32" where "B2W bytes = drop_bit 2 bytes"

text \<open>The accesses \<open>base[word] = v\<close>, \<open>base[word]\<close> and, on bytes, \<open>p[byte]\<close>.\<close>

definition flash_wr :: "u32 \<Rightarrow> u32 \<Rightarrow> u32 \<Rightarrow> trace \<Rightarrow> trace" where
  "flash_wr p w v t = Wr (p + 4 * w) v # t"

definition flash_rd :: "env \<Rightarrow> u32 \<Rightarrow> u32 \<Rightarrow> trace \<Rightarrow> u32 \<times> trace" where
  "flash_rd E p w t = (let v = rd_reg E t (p + 4 * w) in (v, Rd (p + 4 * w) v # t))"

definition flash_rdb :: "env \<Rightarrow> u32 \<Rightarrow> u32 \<Rightarrow> trace \<Rightarrow> u32 \<times> trace" where
  "flash_rdb E p n t = (let v = rd_reg E t (p + n) AND 0xFF in (v, Rd (p + n) v # t))"

subsection \<open>The query\<close>

definition CfiFlashQueryQRY :: "env \<Rightarrow> u32 \<Rightarrow> trace \<Rightarrow> FLASH_DRESULT \<times> trace" where
  "CfiFlashQueryQRY E p t =
     (let w = CFIFLASH_QUERY_QRY;
          (c, t) = flash_rdb E p (W2B w) t
      in if c = 0x51 then
           let (c, t) = flash_rdb E p (W2B (w + 1)) t
           in if c = 0x52 then
                let (c, t) = flash_rdb E p (W2B (w + 2)) t
                in (if c = 0x59 then FLASH_OK else FLASH_ERROR, t)
              else (FLASH_ERROR, t)
         else (FLASH_ERROR, t))"

definition CfiFlashQueryUint8 :: "env \<Rightarrow> u32 \<Rightarrow> u32 \<Rightarrow> u32 \<Rightarrow> trace \<Rightarrow> FLASH_DRESULT \<times> trace" where
  "CfiFlashQueryUint8 E w expect p t =
     (let (v, t) = flash_rdb E p (W2B w) t in (if v \<noteq> expect then FLASH_ERROR else FLASH_OK, t))"

definition CfiFlashQueryUint16 :: "env \<Rightarrow> u32 \<Rightarrow> u32 \<Rightarrow> u32 \<Rightarrow> trace \<Rightarrow> FLASH_DRESULT \<times> trace" where
  "CfiFlashQueryUint16 E w expect p t =
     (let (hi, t) = flash_rdb E p (W2B (w + 1)) t;
          (lo, t) = flash_rdb E p (W2B w) t
      in (if push_bit 8 hi + lo \<noteq> expect then FLASH_ERROR else FLASH_OK, t))"

definition CfiFlashQuery :: "env \<Rightarrow> cfi_bases \<Rightarrow> u32 \<Rightarrow> trace \<Rightarrow> FLASH_DRESULT \<times> trace" where
  "CfiFlashQuery E drv pdrv t =
     (let p = GetCfiDrvPriv drv pdrv in if p = 0 then (FLASH_ERROR, t) else
      let t = flash_wr p CFIFLASH_QUERY_BASE CFIFLASH_QUERY_CMD t;
          (r, t) = CfiFlashQueryQRY E p t in if r \<noteq> FLASH_OK then (FLASH_ERROR, t) else
      let (r, t) = CfiFlashQueryUint16 E CFIFLASH_QUERY_VENDOR CFIFLASH_EXPECT_VENDOR p t in
      if r \<noteq> FLASH_OK then (FLASH_ERROR, t) else
      let (r, t) = CfiFlashQueryUint8 E CFIFLASH_QUERY_SIZE CFIFLASH_ONE_BANK_BITS p t in
      if r \<noteq> FLASH_OK then (FLASH_ERROR, t) else
      let (r, t) = CfiFlashQueryUint16 E CFIFLASH_QUERY_PAGE_BITS CFIFLASH_EXPECT_PAGE_BITS p t in
      if r \<noteq> FLASH_OK then (FLASH_ERROR, t) else
      let (r, t) = CfiFlashQueryUint8 E CFIFLASH_QUERY_ERASE_REGION CFIFLASH_EXPECT_ERASE_REGION p t in
      if r \<noteq> FLASH_OK then (FLASH_ERROR, t) else
      let (r, t) = CfiFlashQueryUint16 E CFIFLASH_QUERY_BLOCKS CFIFLASH_EXPECT_BLOCKS p t in
      if r \<noteq> FLASH_OK then (FLASH_ERROR, t) else
      let (r, t) = CfiFlashQueryUint16 E CFIFLASH_QUERY_BLOCK_SIZE CFIFLASH_EXPECT_BLOCK_SIZE p t in
      if r \<noteq> FLASH_OK then (FLASH_ERROR, t) else
      (FLASH_OK, flash_wr p 0 CFIFLASH_CMD_RESET t))"

subsection \<open>Reading, writing and erasing\<close>

definition CfiFlashIsReady :: "env \<Rightarrow> u32 \<Rightarrow> u32 \<Rightarrow> trace \<Rightarrow> bool \<times> trace" where
  "CfiFlashIsReady E w p t =
     (let t = flash_wr p w CFIFLASH_CMD_READ_STATUS t;
          (v, t) = flash_rd E p w t
      in (v AND CFIFLASH_STATUS_READY_MASK \<noteq> 0, t))"

partial_function (option) wait_ready :: "env \<Rightarrow> u32 \<Rightarrow> u32 \<Rightarrow> trace \<Rightarrow> trace option" where
  "wait_ready E w p t = (let (ready, t) = CfiFlashIsReady E w p t in if ready then Some t else wait_ready E w p t)"

text \<open>The loop that programs \<open>n\<close> words; reading past the caller's buffer is undefined.\<close>

fun program_words :: "u32 \<Rightarrow> nat \<Rightarrow> u32 \<Rightarrow> u32 list \<Rightarrow> trace \<Rightarrow> (u32 \<times> u32 list \<times> trace) option" where
  "program_words p 0 w buf t = Some (w, buf, t)"
| "program_words p (Suc n) w [] t = None"
| "program_words p (Suc n) w (v # buf) t = program_words p n (w + 1) buf (flash_wr p w v t)"

partial_function (option) write_loop ::
  "env \<Rightarrow> u32 \<Rightarrow> u32 \<Rightarrow> u32 list \<Rightarrow> u32 \<Rightarrow> u32 \<Rightarrow> trace \<Rightarrow> trace option" where
  "write_loop E p w buf words wc t =
     (if words = 0 then Some t else do {
        let blk = CfiFlashEraseBlkWordAddr w;
        let t = flash_wr p blk CFIFLASH_CMD_BUFWRITE t;
        let t = flash_wr p blk (wc - 1) t;
        (w, buf, t) \<leftarrow> program_words p (unat wc) w buf t;
        let t = flash_wr p blk CFIFLASH_CMD_CONFIRM t;
        t \<leftarrow> wait_ready E blk p t;
        let words = words - wc;
        write_loop E p w buf words (if words \<ge> CFIFLASH_PAGE_WORDS then CFIFLASH_PAGE_WORDS else words) t
      })"

definition CfiFlashWriteBuf :: "env \<Rightarrow> u32 \<Rightarrow> u32 list \<Rightarrow> u32 \<Rightarrow> u32 \<Rightarrow> trace \<Rightarrow> trace option" where
  "CfiFlashWriteBuf E w buf words p t = do {
     let i = CFIFLASH_PAGE_WORDS - CfiFlashPageWordOffset w;
     t \<leftarrow> write_loop E p w buf words (if i > words then words else i) t;
     Some (flash_wr p 0 CFIFLASH_CMD_CLEAR_STATUS t)
   }"

text \<open>The loop over the words of a read, for the remaining number of words, at index \<open>i\<close>.\<close>

fun read_words :: "env \<Rightarrow> u32 \<Rightarrow> u32 \<Rightarrow> nat \<Rightarrow> nat \<Rightarrow> u32 list \<Rightarrow> trace \<Rightarrow> (u32 list \<times> trace) option" where
  "read_words E p w 0 i buf t = Some (buf, t)"
| "read_words E p w (Suc n) i buf t =
     (let (v, t) = flash_rd E p (w + of_nat i) t
      in if i < length buf then read_words E p w n (Suc i) (buf[i := v]) t else None)"

definition CfiFlashRead ::
  "env \<Rightarrow> cfi_bases \<Rightarrow> u32 \<Rightarrow> u32 list \<Rightarrow> u32 \<Rightarrow> u32 \<Rightarrow> trace \<Rightarrow> (FLASH_DRESULT \<times> u32 list \<times> trace) option" where
  "CfiFlashRead E drv pdrv buf offset nbytes t =
     (if offset + nbytes > CFIFLASH_CAPACITY then Some (FLASH_ERROR, buf, t) else
      let p = GetCfiDrvPriv drv pdrv in if p = 0 then Some (FLASH_ERROR, buf, t) else do {
        (buf, t) \<leftarrow> read_words E p (B2W offset) (unat (B2W nbytes)) 0 buf t;
        Some (FLASH_OK, buf, t)
      })"

definition CfiFlashWrite ::
  "env \<Rightarrow> cfi_bases \<Rightarrow> u32 \<Rightarrow> u32 list \<Rightarrow> u32 \<Rightarrow> u32 \<Rightarrow> trace \<Rightarrow> (FLASH_DRESULT \<times> trace) option" where
  "CfiFlashWrite E drv pdrv buf offset nbytes t =
     (if offset + nbytes > CFIFLASH_CAPACITY then Some (FLASH_ERROR, t) else
      let p = GetCfiDrvPriv drv pdrv in if p = 0 then Some (FLASH_ERROR, t) else do {
        t \<leftarrow> CfiFlashWriteBuf E (B2W offset) buf (B2W nbytes) p t;
        Some (FLASH_OK, t)
      })"

definition CfiFlashErase :: "env \<Rightarrow> cfi_bases \<Rightarrow> u32 \<Rightarrow> u32 \<Rightarrow> trace \<Rightarrow> (FLASH_DRESULT \<times> trace) option" where
  "CfiFlashErase E drv pdrv offset t =
     (if offset > CFIFLASH_CAPACITY then Some (FLASH_ERROR, t) else
      let p = GetCfiDrvPriv drv pdrv in if p = 0 then Some (FLASH_ERROR, t) else do {
        let blk = CfiFlashEraseBlkWordAddr (B2W offset);
        let t = flash_wr p blk CFIFLASH_CMD_ERASE t;
        let t = flash_wr p blk CFIFLASH_CMD_CONFIRM t;
        t \<leftarrow> wait_ready E blk p t;
        Some (FLASH_OK, flash_wr p 0 CFIFLASH_CMD_CLEAR_STATUS t)
      })"

subsection \<open>The FatFs and LittleFS devices\<close>

text \<open>The results of FatFs; a \<open>FLASH_DRESULT\<close> returned as one has the same number (0 and 1).\<close>

datatype DSTATUS = RES_OK | RES_ERROR | RES_PARERR

fun dstatus :: "FLASH_DRESULT \<Rightarrow> DSTATUS" where
  "dstatus FLASH_OK = RES_OK"
| "dstatus FLASH_ERROR = RES_ERROR"

text \<open>\<open>g_diskDrv.initialized\<close> is an array of FatFs; an index outside it is undefined.\<close>

definition DiskInit :: "env \<Rightarrow> cfi_bases \<Rightarrow> u8 \<Rightarrow> u8 list \<Rightarrow> trace \<Rightarrow> (DSTATUS \<times> u8 list \<times> trace) option" where
  "DiskInit E drv pdrv initialized t =
     (let (r, t) = CfiFlashQuery E drv (ucast pdrv) t
      in if r \<noteq> FLASH_OK then Some (RES_ERROR, initialized, t)
         else if unat pdrv < length initialized then Some (RES_OK, initialized[unat pdrv := 1], t) else None)"

definition DiskStatus :: "u8 \<Rightarrow> u8 list \<Rightarrow> DSTATUS option" where
  "DiskStatus pdrv initialized =
     (if unat pdrv < length initialized
      then Some (if initialized ! unat pdrv \<noteq> 1 then RES_ERROR else RES_OK) else None)"

definition DisckRead ::
  "env \<Rightarrow> cfi_bases \<Rightarrow> u8 \<Rightarrow> u32 list \<Rightarrow> u32 \<Rightarrow> u32 \<Rightarrow> trace \<Rightarrow> (DSTATUS \<times> u32 list \<times> trace) option" where
  "DisckRead E drv pdrv buf startSector nSectors t = do {
     let bytes = CfiFlashSec2Bytes nSectors;
     let byteOffset = CfiFlashSec2Bytes startSector;
     (r, buf, t) \<leftarrow> CfiFlashRead E drv (ucast pdrv) buf byteOffset bytes t;
     Some (dstatus r, buf, t)
   }"

definition DiskWrite ::
  "env \<Rightarrow> cfi_bases \<Rightarrow> u8 \<Rightarrow> u32 list \<Rightarrow> u32 \<Rightarrow> u32 \<Rightarrow> trace \<Rightarrow> (DSTATUS \<times> trace) option" where
  "DiskWrite E drv pdrv buf startSector nSectors t = do {
     let bytes = CfiFlashSec2Bytes nSectors;
     let byteOffset = CfiFlashSec2Bytes startSector;
     (r, t) \<leftarrow> CfiFlashWrite E drv (ucast pdrv) buf byteOffset bytes t;
     Some (dstatus r, t)
   }"

text \<open>The commands of FatFs, and the value stored through the caller's pointer.\<close>

datatype ioctl_cmd = CTRL_SYNC | GET_SECTOR_COUNT | GET_SECTOR_SIZE | GET_BLOCK_SIZE | OTHER_CMD

definition DiskIoctl :: "u8 \<Rightarrow> ioctl_cmd \<Rightarrow> u8 list \<Rightarrow> (DSTATUS \<times> u32 option) option" where
  "DiskIoctl pdrv cmd initialized =
     (if unat pdrv < length initialized then
        Some (if initialized ! unat pdrv \<noteq> 1 then (RES_ERROR, None) else
          (case cmd of
             CTRL_SYNC \<Rightarrow> (RES_OK, None)
           | GET_SECTOR_COUNT \<Rightarrow> (RES_OK, Some CFIFLASH_SECTORS)
           | GET_SECTOR_SIZE \<Rightarrow> (RES_OK, Some CFIFLASH_SEC_SIZE)
           | GET_BLOCK_SIZE \<Rightarrow> (RES_OK, Some CFIFLASH_EXPECT_ERASE_REGION)
           | OTHER_CMD \<Rightarrow> (RES_PARERR, None)))
      else None)"

record lfs_config =
  context_devid :: u32   \<comment> \<open>\<open>*(uint32_t *)cfg->context\<close>\<close>
  read_size :: u32
  prog_size :: u32
  block_size :: u32
  block_count :: u32
  cache_size :: u32
  lookahead_size :: u32
  block_cycles :: u32

definition g_lfsConfig :: lfs_config where
  "g_lfsConfig = \<lparr>context_devid = 1, read_size = 256, prog_size = 256, block_size = CFIFLASH_ERASEBLK_SIZE,
     block_count = CFIFLASH_EXPECT_BLOCKS + 1, cache_size = 256, lookahead_size = 16, block_cycles = 1000\<rparr>"

definition LittlefsRead ::
  "env \<Rightarrow> cfi_bases \<Rightarrow> lfs_config \<Rightarrow> u32 \<Rightarrow> u32 \<Rightarrow> u32 list \<Rightarrow> u32 \<Rightarrow> trace
     \<Rightarrow> (FLASH_DRESULT \<times> u32 list \<times> trace) option" where
  "LittlefsRead E drv cfg blk off buf sz t =
     (let addr = block_size cfg * blk + off in CfiFlashRead E drv (context_devid cfg) buf addr sz t)"

definition LittlefsProg ::
  "env \<Rightarrow> cfi_bases \<Rightarrow> lfs_config \<Rightarrow> u32 \<Rightarrow> u32 \<Rightarrow> u32 list \<Rightarrow> u32 \<Rightarrow> trace \<Rightarrow> (FLASH_DRESULT \<times> trace) option" where
  "LittlefsProg E drv cfg blk off buf sz t =
     (let addr = block_size cfg * blk + off in CfiFlashWrite E drv (context_devid cfg) buf addr sz t)"

definition LittlefsErase ::
  "env \<Rightarrow> cfi_bases \<Rightarrow> lfs_config \<Rightarrow> u32 \<Rightarrow> trace \<Rightarrow> (FLASH_DRESULT \<times> trace) option" where
  "LittlefsErase E drv cfg blk t =
     (let addr = block_size cfg * blk in CfiFlashErase E drv (context_devid cfg) addr t)"

definition LittlefsDriverInit :: "env \<Rightarrow> cfi_bases \<Rightarrow> trace \<Rightarrow> FLASH_DRESULT \<times> trace" where
  "LittlefsDriverInit E drv t = CfiFlashQuery E drv (context_devid g_lfsConfig) t"

subsection \<open>The HDF driver\<close>

text \<open>\<open>pbase\<close> gives the two bases of the device's resource file; \<open>objnull\<close> whether the device object or
  its property is null. The interface is used without a null check.\<close>

definition HdfCfiDriverInit ::
  "env \<Rightarrow> (nat \<Rightarrow> u32) \<Rightarrow> bool \<Rightarrow> cfi_bases \<Rightarrow> trace \<Rightarrow> (HDF_STATUS \<times> cfi_bases \<times> trace) option" where
  "HdfCfiDriverInit E pbase objnull drv t =
     (let (iface, t) = kcall E DeviceResourceGetIface [] t
      in if objnull then Some (HDF_ERR_INVALID_PARAM, drv, t) else
      if iface = 0 then None else
      let (ret, t) = kstatus E drs_GetUint32 [0] t
      in if ret \<noteq> HDF_SUCCESS then Some (HDF_FAILURE, drv, t) else do {
        (r, drv) \<leftarrow> CfiFlashInit drv 0 (pbase 0);
        (if r \<noteq> FLASH_OK then Some (HDF_ERR_NOT_SUPPORT, drv, t) else
         let (ret, t) = kstatus E drs_GetUint32 [1] t
         in if ret \<noteq> HDF_SUCCESS then Some (HDF_FAILURE, drv, t) else do {
           (r, drv) \<leftarrow> CfiFlashInit drv 1 (pbase 1);
           Some (if r \<noteq> FLASH_OK then HDF_ERR_NOT_SUPPORT else HDF_SUCCESS, drv, t)
         })
      })"

subsection \<open>The command set\<close>

text \<open>What the commands mean to a flash with the Intel command set, which the driver names in its header
  comment. A word of the flash is programmed through \<open>prog\<close> (old contents, new data). \<open>Bad\<close> is reached
  when a command sequence is not one the command set allows: a count above the size of the page
  buffer, data outside the block or in more than one page, an unconfirmed command.\<close>

datatype flash_mode =
    ReadArray | ReadStatus
  | BufCount u32
  | BufData u32 "u32 option" nat "u32 \<Rightarrow> u32 option"
  | BufConfirm u32 "u32 \<Rightarrow> u32 option"
  | EraseConfirm u32
  | Bad

definition page_of :: "u32 \<Rightarrow> u32" where "page_of w = w AND NOT 1023"

definition idle_cmd :: "u32 \<Rightarrow> u32 \<Rightarrow> flash_mode" where
  "idle_cmd w v = (if v = 0xE8 then BufCount w else if v = 0x20 then EraseConfirm w else if v = 0x70 then ReadStatus
     else if v = 0x50 \<or> v = 0xFF then ReadArray else Bad)"

fun flash_cmd :: "(u32 \<Rightarrow> u32 \<Rightarrow> u32) \<Rightarrow> u32 \<Rightarrow> u32 \<Rightarrow> flash_mode \<times> (u32 \<Rightarrow> u32) \<Rightarrow> flash_mode \<times> (u32 \<Rightarrow> u32)" where
  "flash_cmd prog w v (ReadArray, m) = (idle_cmd w v, m)"
| "flash_cmd prog w v (ReadStatus, m) = (idle_cmd w v, m)"
| "flash_cmd prog w v (BufCount blk, m) =
     (if w = blk \<and> unat v < 1024 then BufData blk None (unat v) (\<lambda>_. None) else Bad, m)"
| "flash_cmd prog w v (BufData blk pg n pend, m) =
     (if CfiFlashEraseBlkWordAddr w \<noteq> blk \<or> pg \<notin> {None, Some (page_of w)} then Bad
      else if n = 0 then BufConfirm blk (pend(w \<mapsto> v))
      else BufData blk (Some (page_of w)) (n - 1) (pend(w \<mapsto> v)), m)"
| "flash_cmd prog w v (BufConfirm blk pend, m) =
     (if w = blk \<and> v = 0xD0 then (ReadStatus, \<lambda>x. case pend x of None \<Rightarrow> m x | Some d \<Rightarrow> prog (m x) d) else (Bad, m))"
| "flash_cmd prog w v (EraseConfirm blk, m) =
     (if w = blk \<and> v = 0xD0 then (ReadStatus, \<lambda>x. if CfiFlashEraseBlkWordAddr x = CfiFlashEraseBlkWordAddr blk then 0xFFFFFFFF else m x)
      else (Bad, m))"
| "flash_cmd prog w v (Bad, m) = (Bad, m)"

text \<open>The flash after a history, from the contents \<open>m0\<close>; only writes to its own addresses reach it.\<close>

fun flash_of :: "(u32 \<Rightarrow> u32 \<Rightarrow> u32) \<Rightarrow> u32 \<Rightarrow> (u32 \<Rightarrow> u32) \<Rightarrow> trace \<Rightarrow> flash_mode \<times> (u32 \<Rightarrow> u32)" where
  "flash_of prog p m0 [] = (ReadArray, m0)"
| "flash_of prog p m0 (Wr a v # t) =
     (if a - p < CFIFLASH_CAPACITY then flash_cmd prog (drop_bit 2 (a - p)) v (flash_of prog p m0 t) else flash_of prog p m0 t)"
| "flash_of prog p m0 (_ # t) = flash_of prog p m0 t"

text \<open>The device behaves as such a flash: in the read mode it shows its contents, and after a command it
  is ready after finitely many polls.\<close>

fun polls :: "env \<Rightarrow> u32 \<Rightarrow> u32 \<Rightarrow> nat \<Rightarrow> trace \<Rightarrow> trace" where
  "polls E w p 0 t = flash_wr p w CFIFLASH_CMD_READ_STATUS t"
| "polls E w p (Suc n) t = polls E w p n (snd (CfiFlashIsReady E w p t))"

definition flash_dev :: "env \<Rightarrow> (u32 \<Rightarrow> u32 \<Rightarrow> u32) \<Rightarrow> u32 \<Rightarrow> (u32 \<Rightarrow> u32) \<Rightarrow> bool" where
  "flash_dev E prog p m0 \<longleftrightarrow>
     (\<forall>t w. fst (flash_of prog p m0 t) = ReadArray \<longrightarrow> w < 0x800000 \<longrightarrow> rd_reg E t (p + 4 * w) = snd (flash_of prog p m0 t) w) \<and>
     (\<forall>t w. w < 0x800000 \<longrightarrow> (\<exists>n. rd_reg E (polls E w p n t) (p + 4 * w) AND CFIFLASH_STATUS_READY_MASK \<noteq> 0))"

lemma flash_of_wr:
  assumes "w < 0x800000"
  shows "flash_of prog p m0 (flash_wr p w v t) = flash_cmd prog w v (flash_of prog p m0 t)"
proof -
  have u: "unat w < 0x800000" using assms by (simp add: word_less_nat_alt)
  then have "unat (4 * w) = 4 * unat w" by (simp add: unat_word_ariths)
  then have "drop_bit 2 (4 * w) = w" "4 * w < 0x2000000"
    using u by (auto simp: word_less_nat_alt drop_bit_eq_div unat_div word_eq_iff_unsigned unat_div_distrib intro!: word_unat_eq_iff [THEN iffD2])
  then show ?thesis by (simp add: flash_wr_def)
qed

lemma flash_of_ready [simp]:
  "w < 0x800000 \<Longrightarrow> flash_of prog p m0 (snd (CfiFlashIsReady E w p t)) = flash_cmd prog w 0x70 (flash_of prog p m0 t)"
  by (simp add: CfiFlashIsReady_def flash_rd_def Let_def flash_of_wr)

lemma wait_ready_ends:
  assumes "rd_reg E (polls E w p n t) (p + 4 * w) AND CFIFLASH_STATUS_READY_MASK \<noteq> 0" and "w < 0x800000"
    and "flash_of prog p m0 t = (ReadStatus, m)"
  shows "\<exists>t'. wait_ready E w p t = Some t' \<and> flash_of prog p m0 t' = (ReadStatus, m)"
  using assms
proof (induction n arbitrary: t)
  case 0
  then have "fst (CfiFlashIsReady E w p t)" by (simp add: CfiFlashIsReady_def flash_rd_def Let_def)
  then have "wait_ready E w p t = Some (snd (CfiFlashIsReady E w p t))"
    by (subst wait_ready.simps) (simp add: split_beta)
  then show ?case using 0 by (simp add: idle_cmd_def)
next
  case (Suc n)
  let ?r = "CfiFlashIsReady E w p t"
  have m: "flash_of prog p m0 (snd ?r) = (ReadStatus, m)" using Suc.prems by (simp add: idle_cmd_def)
  show ?case
  proof (cases "fst ?r")
    case True
    then show ?thesis using m by (subst wait_ready.simps) (simp add: split_beta)
  next
    case False
    then have "wait_ready E w p t = wait_ready E w p (snd ?r)"
      by (subst wait_ready.simps) (simp add: split_beta)
    then show ?thesis using Suc.IH [OF _ Suc.prems(2) m] Suc.prems(1) by simp
  qed
qed

subsection \<open>Pages and erase blocks\<close>

lemma and_not_mask_cong:
  fixes a b :: u32
  assumes "unat a div 2 ^ n = unat b div 2 ^ n"
  shows "a AND NOT (mask n) = b AND NOT (mask n)"
proof -
  have "unat (drop_bit n x) = unat x div 2 ^ n" for x :: u32
    by (subst unat_drop_bit_eq) (rule drop_bit_eq_div)
  then have "unat (drop_bit n a) = unat (drop_bit n b)" using assms by metis
  then have d: "drop_bit n a = drop_bit n b" by (simp only: word_unat_eq_iff)
  show ?thesis
  proof (rule bit_eqI)
    fix i
    have "n \<le> i \<Longrightarrow> bit a i = bit b i"
      using arg_cong [OF d, of "\<lambda>w. bit w (i - n)"] by (simp add: bit_drop_bit_eq)
    then show "bit (a AND NOT (mask n)) i = bit (b AND NOT (mask n)) i"
      by (auto simp: bit_and_iff bit_not_iff bit_mask_iff)
  qed
qed

lemma masks: "(1023 :: u32) = mask 10" "(0xFFFF0000 :: u32) = NOT (mask 16)"
  by (simp_all add: mask_eq_exp_minus_1)

lemma same_page:
  assumes "unat a div 1024 = unat b div 1024"
  shows "page_of a = page_of b" "CfiFlashEraseBlkWordAddr a = CfiFlashEraseBlkWordAddr b"
proof -
  show "page_of a = page_of b"
    unfolding page_of_def masks using assms by (intro and_not_mask_cong) simp
  have "unat a div 1024 div 64 = unat b div 1024 div 64" using assms by simp
  then show "CfiFlashEraseBlkWordAddr a = CfiFlashEraseBlkWordAddr b"
    unfolding CfiFlashEraseBlkWordAddr_def masks by (intro and_not_mask_cong) (simp add: div_mult2_eq [symmetric])
qed

lemma page_offset: "unat (CfiFlashPageWordOffset w) = unat w mod 1024"
  unfolding CfiFlashPageWordOffset_def masks by (simp add: take_bit_eq_mask [symmetric] take_bit_eq_mod unat_mod)

lemma block_le: "unat (CfiFlashEraseBlkWordAddr w) \<le> unat w"
  unfolding CfiFlashEraseBlkWordAddr_def by (simp add: word_and_le2 word_le_nat_alt [symmetric])

lemma block_idem: "CfiFlashEraseBlkWordAddr (CfiFlashEraseBlkWordAddr w) = CfiFlashEraseBlkWordAddr w"
  by (simp add: CfiFlashEraseBlkWordAddr_def and.assoc)

text \<open>The pending words of \<open>buf\<close> from the word \<open>w\<close> on.\<close>

definition pending :: "u32 \<Rightarrow> u32 list \<Rightarrow> u32 \<Rightarrow> u32 option" where
  "pending w buf = (\<lambda>x. if unat w \<le> unat x \<and> unat x < unat w + length buf then Some (buf ! (unat x - unat w)) else None)"

definition programmed :: "(u32 \<Rightarrow> u32 \<Rightarrow> u32) \<Rightarrow> u32 \<Rightarrow> u32 list \<Rightarrow> (u32 \<Rightarrow> u32) \<Rightarrow> u32 \<Rightarrow> u32" where
  "programmed prog w buf m = (\<lambda>x. case pending w buf x of None \<Rightarrow> m x | Some d \<Rightarrow> prog (m x) d)"

lemma pending_Nil [simp]: "pending w [] = (\<lambda>_. None)"
  by (rule ext) (simp add: pending_def)

lemma pending_snoc:
  assumes "unat w + length buf < 2 ^ 32"
  shows "pending w (buf @ [v]) = (pending w buf)(w + of_nat (length buf) \<mapsto> v)"
proof -
  have u: "unat (w + of_nat (length buf)) = unat w + length buf"
    using assms by (simp add: unat_word_ariths unat_of_nat take_bit_nat_eq_self)
  show ?thesis
  proof
    fix x
    show "pending w (buf @ [v]) x = ((pending w buf)(w + of_nat (length buf) \<mapsto> v)) x"
      using u by (cases "x = w + of_nat (length buf)")
        (auto simp: pending_def nth_append word_unat_eq_iff)
  qed
qed

lemma programmed_append:
  assumes "unat w + length xs + length ys < 2 ^ 32"
  shows "programmed prog (w + of_nat (length xs)) ys (programmed prog w xs m) = programmed prog w (xs @ ys) m"
proof
  fix x
  have u: "unat (w + of_nat (length xs)) = unat w + length xs"
    using assms by (simp add: unat_word_ariths unat_of_nat take_bit_nat_eq_self)
  show "programmed prog (w + of_nat (length xs)) ys (programmed prog w xs m) x = programmed prog w (xs @ ys) m x"
    by (auto simp: programmed_def pending_def u nth_append)
qed

lemma unat_add_of_nat: "unat (w :: u32) + k < 2 ^ 32 \<Longrightarrow> unat (w + of_nat k) = unat w + k"
  by (simp add: unat_word_ariths unat_of_nat take_bit_nat_eq_self)

lemma div_same_block:
  fixes a k n :: nat
  assumes "a mod n + k < n"
  shows "(a + k) div n = a div n"
proof -
  have e: "a + k = (a mod n + k) + n * (a div n)" by simp
  have "((a mod n + k) + n * (a div n)) div n = a div n + (a mod n + k) div n"
    by (rule div_mult_self2) (use assms in simp)
  also have "(a mod n + k) div n = 0" using assms by simp
  finally show ?thesis unfolding e [symmetric] add_0_right .
qed

lemma page_step:
  assumes "unat w mod 1024 + k < 1024" and "unat w + k < 0x800000"
  shows "page_of (w + of_nat k) = page_of w" "CfiFlashEraseBlkWordAddr (w + of_nat k) = CfiFlashEraseBlkWordAddr w"
    "w + of_nat k < 0x800000"
proof -
  have u: "unat (w + of_nat k) = unat w + k" using assms by (intro unat_add_of_nat) simp
  then have "unat (w + of_nat k) div 1024 = unat w div 1024" using div_same_block [OF assms(1)] by simp
  then show "page_of (w + of_nat k) = page_of w" "CfiFlashEraseBlkWordAddr (w + of_nat k) = CfiFlashEraseBlkWordAddr w"
    by (rule same_page)+
  show "w + of_nat k < 0x800000" using u assms by (simp add: word_less_nat_alt)
qed

lemma program_words_run:
  assumes "flash_of prog p m0 t = (BufData (CfiFlashEraseBlkWordAddr w) pg n (pending w bs), m)"
    and "pg = (if bs = [] then None else Some (page_of w))"
    and "Suc n \<le> length buf" and "unat w mod 1024 + length bs + n < 1024" and "unat w + length bs + n < 0x800000"
  shows "\<exists>t'. program_words p (Suc n) (w + of_nat (length bs)) buf t = Some (w + of_nat (length bs + Suc n), drop (Suc n) buf, t') \<and>
     flash_of prog p m0 t' = (BufConfirm (CfiFlashEraseBlkWordAddr w) (pending w (bs @ take (Suc n) buf)), m)"
  using assms
proof (induction n arbitrary: pg bs buf t)
  case (0 pg bs buf t)
  then obtain v rest where buf: "buf = v # rest" by (cases buf) auto
  let ?x = "w + of_nat (length bs)"
  have k: "unat w mod 1024 + length bs < 1024" "unat w + length bs < 0x800000" using 0 by simp_all
  note pg = page_step(1,2) [OF k] and x = page_step(3) [OF k]
  have "flash_of prog p m0 (flash_wr p ?x v t) = (BufConfirm (CfiFlashEraseBlkWordAddr w) (pending w (bs @ [v])), m)"
    using 0 pg k by (subst flash_of_wr [OF x], subst pending_snoc) auto
  then show ?case by (simp add: buf algebra_simps)
next
  case (Suc n pg bs buf t)
  then obtain v rest where buf: "buf = v # rest" by (cases buf) auto
  let ?x = "w + of_nat (length bs)"
  have k: "unat w mod 1024 + length bs < 1024" "unat w + length bs < 0x800000" using Suc.prems by simp_all
  note pg = page_step(1,2) [OF k] and x = page_step(3) [OF k]
  have "flash_of prog p m0 (flash_wr p ?x v t) = (BufData (CfiFlashEraseBlkWordAddr w) (Some (page_of w)) n (pending w (bs @ [v])), m)"
    using Suc.prems pg k by (subst flash_of_wr [OF x], subst pending_snoc) auto
  from Suc.IH [OF this, of rest] Suc.prems show ?case by (simp add: buf algebra_simps)
qed

lemma next_page: "(k + (1024 - k mod 1024)) mod 1024 = (0 :: nat)"
proof -
  have h: "r < 1024 \<Longrightarrow> k = 1024 * q + r \<Longrightarrow> k + (1024 - r) = 1024 * (q + 1)" for q r :: nat by simp
  have "k + (1024 - k mod 1024) = 1024 * (k div 1024 + 1)"
    by (rule h) (simp, rule mult_div_mod_eq [symmetric])
  then show ?thesis by (metis mod_mult_self1_is_0)
qed

lemma flash_dev_shows:
  "flash_dev E prog p m0 \<Longrightarrow> flash_of prog p m0 t = (ReadArray, m) \<Longrightarrow> w < 0x800000 \<Longrightarrow> rd_reg E t (p + 4 * w) = m w"
  unfolding flash_dev_def by (metis fst_conv snd_conv)

lemma write_loop_programs:
  assumes "flash_dev E prog p m0" and "fst (flash_of prog p m0 t) \<in> {ReadArray, ReadStatus}"
    and "snd (flash_of prog p m0 t) = m"
    and "words = 0 \<or> unat wc = min (unat words) (1024 - unat w mod 1024)"
    and "unat w + unat words \<le> 0x800000" and "unat words \<le> length buf"
  shows "\<exists>t'. write_loop E p w buf words wc t = Some t' \<and> fst (flash_of prog p m0 t') \<in> {ReadArray, ReadStatus} \<and>
    snd (flash_of prog p m0 t') = programmed prog w (take (unat words) buf) m"
  using assms
proof (induction "unat words" arbitrary: w buf words wc t m rule: less_induct)
  case less
  show ?case
  proof (cases "words = 0")
    case True
    then show ?thesis using less.prems by (subst write_loop.simps) (simp add: programmed_def)
  next
    case False
    let ?blk = "CfiFlashEraseBlkWordAddr w"
    have wn: "0 < unat words" using False by (simp add: unat_gt_0)
    have wc: "unat wc = min (unat words) (1024 - unat w mod 1024)" using less.prems(4) False by simp
    then have wc1: "0 < unat wc" "unat wc \<le> unat words" "unat w mod 1024 + unat wc \<le> 1024" "unat wc \<le> 1024"
      using wn by (simp_all add: min_def) linarith+
    obtain n where n: "unat wc = Suc n" using wc1(1) gr0_implies_Suc by blast
    have wc_1: "unat (wc - 1) = n" using n by (simp add: unat_minus_one unat_gt_0 [symmetric])
    have blk: "?blk < 0x800000"
      using block_le [of w] less.prems(5) wn by (simp add: word_less_nat_alt)
    define t1 where "t1 = flash_wr p ?blk (wc - 1) (flash_wr p ?blk CFIFLASH_CMD_BUFWRITE t)"
    have idle: "flash_of prog p m0 (flash_wr p ?blk CFIFLASH_CMD_BUFWRITE t) = (BufCount ?blk, m)"
      using less.prems(2,3) by (cases "flash_of prog p m0 t") (auto simp: flash_of_wr [OF blk] idle_cmd_def)
    have "flash_of prog p m0 t1 = (BufData ?blk None n (pending w []), m)"
      unfolding t1_def by (subst flash_of_wr [OF blk]) (use wc_1 n wc1(4) in \<open>simp add: idle\<close>)
    from program_words_run [OF this, of buf] obtain t2 where
      t2: "program_words p (Suc n) w buf t1 = Some (w + of_nat (Suc n), drop (Suc n) buf, t2)"
      and f2: "flash_of prog p m0 t2 = (BufConfirm ?blk (pending w (take (Suc n) buf)), m)"
      using n wc1 less.prems(5,6) by auto
    define m1 where "m1 = programmed prog w (take (Suc n) buf) m"
    have f3: "flash_of prog p m0 (flash_wr p ?blk CFIFLASH_CMD_CONFIRM t2) = (ReadStatus, m1)"
      by (simp add: flash_of_wr [OF blk] f2 m1_def programmed_def)
    obtain k where "rd_reg E (polls E ?blk p k (flash_wr p ?blk CFIFLASH_CMD_CONFIRM t2)) (p + 4 * ?blk) AND CFIFLASH_STATUS_READY_MASK \<noteq> 0"
      using less.prems(1) blk unfolding flash_dev_def by blast
    from wait_ready_ends [OF this blk f3] obtain t3 where
      t3: "wait_ready E ?blk p (flash_wr p ?blk CFIFLASH_CMD_CONFIRM t2) = Some t3" and f4: "flash_of prog p m0 t3 = (ReadStatus, m1)"
      by blast
    let ?words = "words - wc" and ?w = "w + of_nat (Suc n)"
    let ?wc = "if ?words \<ge> CFIFLASH_PAGE_WORDS then CFIFLASH_PAGE_WORDS else ?words"
    have uw: "unat ?words = unat words - Suc n" using wc1(2) n by (simp add: unat_sub word_le_nat_alt)
    have uw': "unat ?w = unat w + Suc n" using less.prems(5) wc1(2) n by (intro unat_add_of_nat) simp
    have next_wc: "?words = 0 \<or> unat ?wc = min (unat ?words) (1024 - unat ?w mod 1024)"
    proof (cases "unat words \<le> 1024 - unat w mod 1024")
      case True
      then have "unat ?words = 0" using uw wc n by simp
      then show ?thesis by (simp add: unat_eq_zero)
    next
      case False
      then have "Suc n = 1024 - unat w mod 1024" using wc n by simp
      then have "unat ?w mod 1024 = 0"
        unfolding uw' by (simp only: next_page)
      then show ?thesis by (auto simp: word_le_nat_alt min_def)
    qed
    have step: "write_loop E p w buf words wc t = write_loop E p ?w (drop (Suc n) buf) ?words ?wc t3"
      using False t2 t3 n by (subst write_loop.simps) (simp add: t1_def [symmetric] Let_def)
    have lt: "unat ?words < unat words" using uw wn by simp
    have f: "fst (flash_of prog p m0 t3) \<in> {ReadArray, ReadStatus}" "snd (flash_of prog p m0 t3) = m1" using f4 by simp_all
    have b: "unat ?w + unat ?words \<le> 0x800000" using uw uw' less.prems(5) wc1(2) n by linarith
    have l: "unat ?words \<le> length (drop (Suc n) buf)" using uw less.prems(6) by simp
    from less.hyps [OF lt less.prems(1) f next_wc b l]
    obtain t' where t': "write_loop E p ?w (drop (Suc n) buf) ?words ?wc t3 = Some t'"
      "fst (flash_of prog p m0 t') \<in> {ReadArray, ReadStatus}"
      "snd (flash_of prog p m0 t') = programmed prog ?w (take (unat ?words) (drop (Suc n) buf)) m1"
      by blast
    have "programmed prog ?w (take (unat ?words) (drop (Suc n) buf)) m1
      = programmed prog w (take (Suc n) buf @ take (unat ?words) (drop (Suc n) buf)) m"
    proof -
      have l: "length (take (Suc n) buf) = Suc n" using less.prems(6) wc1(2) n by simp
      have "length (take (unat ?words) (drop (Suc n) buf)) \<le> unat ?words" by simp
      then have "unat w + length (take (Suc n) buf) + length (take (unat ?words) (drop (Suc n) buf)) < 2 ^ 32"
        unfolding l using less.prems(5) uw wc1(2) n by (simp del: length_take length_drop)
      from programmed_append [OF this, of prog m] show ?thesis unfolding l m1_def .
    qed
    also have "take (Suc n) buf @ take (unat ?words) (drop (Suc n) buf) = take (unat words) buf"
    proof -
      have "Suc n + unat ?words = unat words" using uw wc1(2) n by simp
      then show ?thesis by (metis take_add)
    qed
    finally show ?thesis using t' step by metis
  qed
qed


lemma CfiFlashWriteBuf_programs:
  assumes "flash_dev E prog p m0" and "flash_of prog p m0 t = (ReadArray, m)"
    and "unat w + unat words \<le> 0x800000" and "unat words \<le> length buf"
  shows "\<exists>t'. CfiFlashWriteBuf E w buf words p t = Some t' \<and>
    flash_of prog p m0 t' = (ReadArray, programmed prog w (take (unat words) buf) m)"
proof -
  let ?i = "CFIFLASH_PAGE_WORDS - CfiFlashPageWordOffset w"
  have i: "unat ?i = 1024 - unat w mod 1024"
    by (subst unat_sub) (simp_all add: word_le_nat_alt page_offset less_imp_le)
  then have "unat (if ?i > words then words else ?i) = min (unat words) (1024 - unat w mod 1024)"
    by (auto simp: word_less_nat_alt min_def)
  from write_loop_programs [OF assms(1) _ _ disjI2 [OF this] assms(3,4), of t m] assms(2) obtain t' where
    t': "write_loop E p w buf words (if ?i > words then words else ?i) t = Some t'"
      "fst (flash_of prog p m0 t') \<in> {ReadArray, ReadStatus}"
      "snd (flash_of prog p m0 t') = programmed prog w (take (unat words) buf) m"
    by auto
  have "flash_of prog p m0 (flash_wr p 0 CFIFLASH_CMD_CLEAR_STATUS t') = (ReadArray, programmed prog w (take (unat words) buf) m)"
    using t'(2,3) by (cases "flash_of prog p m0 t'") (auto simp: flash_of_wr idle_cmd_def)
  then show ?thesis using t'(1) by (simp add: CfiFlashWriteBuf_def Let_def)
qed

lemma no_wrap: "unat (a :: u32) + unat b \<le> 0x2000000 \<Longrightarrow> \<not> a + b > CFIFLASH_CAPACITY"
  by (simp add: word_less_nat_alt unat_plus_if')

lemma unat_B2W: "unat (B2W x) = unat x div 4"
  by (simp add: B2W_def drop_bit_eq_div unat_div)

lemma CfiFlashWrite_programs:
  assumes "flash_dev E prog p m0" and "flash_of prog p m0 t = (ReadArray, m)" and "GetCfiDrvPriv drv pdrv = p" and "p \<noteq> 0"
    and "unat offset + unat nbytes \<le> 0x2000000" and "unat (B2W nbytes) \<le> length buf"
  shows "\<exists>t'. CfiFlashWrite E drv pdrv buf offset nbytes t = Some (FLASH_OK, t') \<and>
    flash_of prog p m0 t' = (ReadArray, programmed prog (B2W offset) (take (unat (B2W nbytes)) buf) m)"
proof -
  have "unat (B2W offset) + unat (B2W nbytes) \<le> 0x800000"
    using assms(5) unfolding unat_B2W by linarith
  from CfiFlashWriteBuf_programs [OF assms(1,2) this assms(6)] obtain t' where
    "CfiFlashWriteBuf E (B2W offset) buf (B2W nbytes) p t = Some t'"
    "flash_of prog p m0 t' = (ReadArray, programmed prog (B2W offset) (take (unat (B2W nbytes)) buf) m)"
    by blast
  then show ?thesis
    using no_wrap [OF assms(5)] assms(3,4) by (simp add: CfiFlashWrite_def Let_def)
qed

definition erased :: "u32 \<Rightarrow> (u32 \<Rightarrow> u32) \<Rightarrow> u32 \<Rightarrow> u32" where
  "erased w m = (\<lambda>x. if CfiFlashEraseBlkWordAddr x = CfiFlashEraseBlkWordAddr w then 0xFFFFFFFF else m x)"

lemma CfiFlashErase_erases:
  assumes "flash_dev E prog p m0" and "flash_of prog p m0 t = (ReadArray, m)" and "GetCfiDrvPriv drv pdrv = p" and "p \<noteq> 0"
    and "unat offset < 0x2000000"
  shows "\<exists>t'. CfiFlashErase E drv pdrv offset t = Some (FLASH_OK, t') \<and> flash_of prog p m0 t' = (ReadArray, erased (B2W offset) m)"
proof -
  let ?blk = "CfiFlashEraseBlkWordAddr (B2W offset)"
  have "unat offset div 4 < 0x800000" using assms(5) by simp
  then have blk: "?blk < 0x800000"
    using block_le [of "B2W offset"] unfolding unat_B2W word_less_nat_alt by simp
  define t1 where "t1 = flash_wr p ?blk CFIFLASH_CMD_CONFIRM (flash_wr p ?blk CFIFLASH_CMD_ERASE t)"
  have f1: "flash_of prog p m0 t1 = (ReadStatus, erased (B2W offset) m)"
    by (simp add: t1_def flash_of_wr [OF blk] assms(2) idle_cmd_def erased_def block_idem)
  obtain k where "rd_reg E (polls E ?blk p k t1) (p + 4 * ?blk) AND CFIFLASH_STATUS_READY_MASK \<noteq> 0"
    using assms(1) blk unfolding flash_dev_def by blast
  from wait_ready_ends [OF this blk f1] obtain t2 where
    t2: "wait_ready E ?blk p t1 = Some t2" "flash_of prog p m0 t2 = (ReadStatus, erased (B2W offset) m)"
    by blast
  have "flash_of prog p m0 (flash_wr p 0 CFIFLASH_CMD_CLEAR_STATUS t2) = (ReadArray, erased (B2W offset) m)"
    using t2(2) by (subst flash_of_wr) (simp_all add: idle_cmd_def)
  moreover have "\<not> offset > CFIFLASH_CAPACITY" using assms(5) by (simp add: word_less_nat_alt)
  ultimately show ?thesis
    using t2(1) assms(3,4) by (simp add: CfiFlashErase_def Let_def t1_def [symmetric])
qed

lemma flash_of_rd [simp]: "flash_of prog p m0 (Rd a v # t) = flash_of prog p m0 t"
  by simp

lemma read_words_shows:
  assumes "flash_dev E prog p m0" and "flash_of prog p m0 t = (ReadArray, m)"
    and "unat w + i + n \<le> 0x800000" and "i + n \<le> length buf"
  shows "\<exists>t'. read_words E p w n i buf t = Some (take i buf @ map (\<lambda>j. m (w + of_nat j)) [i..<i + n] @ drop (i + n) buf, t') \<and>
    flash_of prog p m0 t' = (ReadArray, m)"
  using assms(2-4)
proof (induction n arbitrary: i buf t)
  case 0
  then show ?case by simp
next
  case (Suc n)
  let ?x = "w + of_nat i"
  have "unat ?x = unat w + i" using Suc.prems by (intro unat_add_of_nat) simp
  then have x: "?x < 0x800000" using Suc.prems by (simp add: word_less_nat_alt)
  then have v: "rd_reg E t (p + 4 * ?x) = m ?x"
    by (rule flash_dev_shows [OF assms(1) Suc.prems(1)])
  have i: "i < length buf" using Suc.prems by simp
  have "read_words E p w (Suc n) i buf t = read_words E p w n (Suc i) (buf[i := m ?x]) (Rd (p + 4 * ?x) (m ?x) # t)"
    using i unfolding read_words.simps flash_rd_def Let_def prod.case v by (simp only: if_True)
  moreover from Suc.IH [of "Rd (p + 4 * ?x) (m ?x) # t" "Suc i" "buf[i := m ?x]"] Suc.prems obtain t' where
    "read_words E p w n (Suc i) (buf[i := m ?x]) (Rd (p + 4 * ?x) (m ?x) # t)
      = Some (take (Suc i) (buf[i := m ?x]) @ map (\<lambda>j. m (w + of_nat j)) [Suc i..<Suc i + n] @ drop (Suc i + n) (buf[i := m ?x]), t')"
    "flash_of prog p m0 t' = (ReadArray, m)"
    by auto
  moreover have "take (Suc i) (buf[i := m ?x]) = take i buf @ [m ?x]"
    using i by (simp add: take_Suc_conv_app_nth)
  moreover have "[i..<i + Suc n] = i # [Suc i..<Suc i + n]" by (simp add: upt_conv_Cons)
  ultimately show ?case by simp
qed

lemma CfiFlashRead_shows:
  assumes "flash_dev E prog p m0" and "flash_of prog p m0 t = (ReadArray, m)" and "GetCfiDrvPriv drv pdrv = p" and "p \<noteq> 0"
    and "unat offset + unat nbytes \<le> 0x2000000" and "unat (B2W nbytes) \<le> length buf"
  shows "\<exists>t'. CfiFlashRead E drv pdrv buf offset nbytes t = Some (FLASH_OK,
      map (\<lambda>j. m (B2W offset + of_nat j)) [0..<unat (B2W nbytes)] @ drop (unat (B2W nbytes)) buf, t') \<and>
    flash_of prog p m0 t' = (ReadArray, m)"
proof -
  have "unat (B2W offset) + 0 + unat (B2W nbytes) \<le> 0x800000"
    using assms(5) unfolding unat_B2W by linarith
  from read_words_shows [OF assms(1,2) this, of buf] assms(6) obtain t' where
    "read_words E p (B2W offset) (unat (B2W nbytes)) 0 buf t
      = Some (map (\<lambda>j. m (B2W offset + of_nat j)) [0..<unat (B2W nbytes)] @ drop (unat (B2W nbytes)) buf, t')"
    "flash_of prog p m0 t' = (ReadArray, m)"
    by auto
  then show ?thesis
    using no_wrap [OF assms(5)] assms(3,4) by (simp add: CfiFlashRead_def Let_def)
qed

subsection \<open>The flash as a block device\<close>

text \<open>What the file systems rely on: an erase sets the words of the block, a write changes the words of
  its range and, where they were erased, stores the data, a read shows the contents.\<close>

locale block_flash =
  fixes ok :: "'s \<Rightarrow> bool" and contents :: "'s \<Rightarrow> u32 \<Rightarrow> u32"
    and erase :: "u32 \<Rightarrow> 's \<Rightarrow> 's option"
    and put :: "u32 \<Rightarrow> u32 list \<Rightarrow> 's \<Rightarrow> 's option"
    and get :: "u32 \<Rightarrow> nat \<Rightarrow> 's \<Rightarrow> (u32 list \<times> 's) option"
  assumes erase: "ok s \<Longrightarrow> unat off < 0x2000000 \<Longrightarrow>
      \<exists>s'. erase off s = Some s' \<and> ok s' \<and> contents s' = erased (B2W off) (contents s)"
    and put: "ok s \<Longrightarrow> unat off + 4 * length bs \<le> 0x2000000 \<Longrightarrow>
      \<exists>s'. put off bs s = Some s' \<and> ok s' \<and>
        (\<forall>x. \<not> (unat (B2W off) \<le> unat x \<and> unat x < unat (B2W off) + length bs) \<longrightarrow> contents s' x = contents s x) \<and>
        (\<forall>j < length bs. contents s (B2W off + of_nat j) = 0xFFFFFFFF \<longrightarrow> contents s' (B2W off + of_nat j) = bs ! j)"
    and get: "ok s \<Longrightarrow> unat off + 4 * n \<le> 0x2000000 \<Longrightarrow>
      \<exists>s'. get off n s = Some (map (\<lambda>j. contents s (B2W off + of_nat j)) [0..<n], s') \<and> ok s' \<and> contents s' = contents s"
begin

text \<open>Data written into an erased block reads back, and the other blocks keep their contents.\<close>

lemma erase_put_get:
  assumes "ok s" and "unat eoff < 0x2000000" and "unat base_off + 4 * length bs \<le> 0x2000000"
    and "\<And>j. j < length bs \<Longrightarrow> CfiFlashEraseBlkWordAddr (B2W base_off + of_nat j) = CfiFlashEraseBlkWordAddr (B2W eoff)"
  shows "\<exists>s1 s2 s3. erase eoff s = Some s1 \<and> put base_off bs s1 = Some s2 \<and> get base_off (length bs) s2 = Some (bs, s3) \<and> ok s3 \<and>
    (\<forall>x. CfiFlashEraseBlkWordAddr x \<noteq> CfiFlashEraseBlkWordAddr (B2W eoff) \<longrightarrow> contents s3 x = contents s x)"
proof -
  from erase [OF assms(1,2)] obtain s1 where
    s1: "erase eoff s = Some s1" "ok s1" "contents s1 = erased (B2W eoff) (contents s)" by blast
  from put [OF s1(2) assms(3)] obtain s2 where s2: "put base_off bs s1 = Some s2" "ok s2"
    and out: "\<And>x. \<not> (unat (B2W base_off) \<le> unat x \<and> unat x < unat (B2W base_off) + length bs) \<Longrightarrow> contents s2 x = contents s1 x"
    and in_: "\<And>j. j < length bs \<Longrightarrow> contents s1 (B2W base_off + of_nat j) = 0xFFFFFFFF \<Longrightarrow> contents s2 (B2W base_off + of_nat j) = bs ! j"
    by blast
  have dat: "contents s2 (B2W base_off + of_nat j) = bs ! j" if "j < length bs" for j
    by (rule in_ [OF that]) (simp only: s1(3) erased_def assms(4) [OF that] simp_thms if_True)
  have e: "map (\<lambda>j. contents s2 (B2W base_off + of_nat j)) [0..<length bs] = bs"
  proof (rule nth_equalityI)
    fix j assume "j < length (map (\<lambda>j. contents s2 (B2W base_off + of_nat j)) [0..<length bs])"
    then show "map (\<lambda>j. contents s2 (B2W base_off + of_nat j)) [0..<length bs] ! j = bs ! j"
      using dat [of j] by simp
  qed simp
  from get [OF s2(2) assms(3)] obtain s3 where
    s3: "get base_off (length bs) s2 = Some (bs, s3)" "ok s3" "contents s3 = contents s2"
    unfolding e by blast
  have "contents s3 x = contents s x" if o: "CfiFlashEraseBlkWordAddr x \<noteq> CfiFlashEraseBlkWordAddr (B2W eoff)" for x
  proof -
    have "\<not> (unat (B2W base_off) \<le> unat x \<and> unat x < unat (B2W base_off) + length bs)"
    proof
      assume r: "unat (B2W base_off) \<le> unat x \<and> unat x < unat (B2W base_off) + length bs"
      define j where "j = unat x - unat (B2W base_off)"
      have "unat x < 2 ^ 32" using unsigned_less [of x] by simp
      then have "unat (B2W base_off + of_nat j) = unat x"
        using r by (subst unat_add_of_nat) (simp_all add: j_def)
      then have "B2W base_off + of_nat j = x" by (simp only: word_unat_eq_iff)
      moreover have "j < length bs" using r by (simp add: j_def) linarith
      ultimately show False using assms(4) o by metis
    qed
    then show ?thesis using out o by (simp add: s3(3) s1(3) erased_def)
  qed
  then show ?thesis using s1(1) s2(1) s3(1,2) by blast
qed

end

text \<open>The driver's operations, as a block device of the flash \<open>pdrv\<close>.\<close>

definition cfi_ok ::
  "env \<Rightarrow> cfi_bases \<Rightarrow> u32 \<Rightarrow> (u32 \<Rightarrow> u32 \<Rightarrow> u32) \<Rightarrow> (u32 \<Rightarrow> u32) \<Rightarrow> trace \<Rightarrow> bool" where
  "cfi_ok E drv pdrv prog m0 t \<longleftrightarrow> (let p = GetCfiDrvPriv drv pdrv in p \<noteq> 0 \<and> flash_dev E prog p m0 \<and>
     (\<forall>v. prog 0xFFFFFFFF v = v) \<and> fst (flash_of prog p m0 t) = ReadArray)"

definition cfi_contents :: "cfi_bases \<Rightarrow> u32 \<Rightarrow> (u32 \<Rightarrow> u32 \<Rightarrow> u32) \<Rightarrow> (u32 \<Rightarrow> u32) \<Rightarrow> trace \<Rightarrow> u32 \<Rightarrow> u32" where
  "cfi_contents drv pdrv prog m0 t = snd (flash_of prog (GetCfiDrvPriv drv pdrv) m0 t)"

definition cfi_erase :: "env \<Rightarrow> cfi_bases \<Rightarrow> u32 \<Rightarrow> u32 \<Rightarrow> trace \<Rightarrow> trace option" where
  "cfi_erase E drv pdrv off t = (case CfiFlashErase E drv pdrv off t of Some (FLASH_OK, t) \<Rightarrow> Some t | _ \<Rightarrow> None)"

definition cfi_put :: "env \<Rightarrow> cfi_bases \<Rightarrow> u32 \<Rightarrow> u32 \<Rightarrow> u32 list \<Rightarrow> trace \<Rightarrow> trace option" where
  "cfi_put E drv pdrv off bs t =
     (case CfiFlashWrite E drv pdrv bs off (of_nat (4 * length bs)) t of Some (FLASH_OK, t) \<Rightarrow> Some t | _ \<Rightarrow> None)"

definition cfi_get :: "env \<Rightarrow> cfi_bases \<Rightarrow> u32 \<Rightarrow> u32 \<Rightarrow> nat \<Rightarrow> trace \<Rightarrow> (u32 list \<times> trace) option" where
  "cfi_get E drv pdrv off n t =
     (case CfiFlashRead E drv pdrv (replicate n 0) off (of_nat (4 * n)) t of Some (FLASH_OK, bs, t) \<Rightarrow> Some (bs, t) | _ \<Rightarrow> None)"

lemma nbytes_words:
  assumes "4 * n \<le> 0x2000000"
  shows "unat (of_nat (4 * n) :: u32) = 4 * n" "unat (B2W (of_nat (4 * n))) = n"
proof -
  show u: "unat (of_nat (4 * n) :: u32) = 4 * n" using assms by (simp only: unat_of_nat) (simp add: take_bit_nat_eq_self)
  show "unat (B2W (of_nat (4 * n))) = n" unfolding unat_B2W u by simp
qed

interpretation cfi_flash: block_flash "cfi_ok E drv pdrv prog m0" "cfi_contents drv pdrv prog m0"
    "cfi_erase E drv pdrv" "cfi_put E drv pdrv" "cfi_get E drv pdrv" for E drv pdrv prog m0
proof
  fix s off
  let ?p = "GetCfiDrvPriv drv pdrv"
  assume ok: "cfi_ok E drv pdrv prog m0 s"
  then obtain m where d: "flash_dev E prog ?p m0" and m: "flash_of prog ?p m0 s = (ReadArray, m)" and p: "?p \<noteq> 0"
    and blank: "\<And>v. prog 0xFFFFFFFF v = v"
    by (cases "flash_of prog ?p m0 s") (auto simp: cfi_ok_def Let_def)
  have cm: "cfi_contents drv pdrv prog m0 s = m" by (simp add: cfi_contents_def m)
  show "\<exists>s'. cfi_erase E drv pdrv off s = Some s' \<and> cfi_ok E drv pdrv prog m0 s' \<and>
      cfi_contents drv pdrv prog m0 s' = erased (B2W off) (cfi_contents drv pdrv prog m0 s)" if "unat off < 0x2000000"
    using CfiFlashErase_erases [OF d m refl p that] d p blank
    by (auto simp: cfi_erase_def cfi_ok_def cfi_contents_def m)
  show "\<exists>s'. cfi_put E drv pdrv off bs s = Some s' \<and> cfi_ok E drv pdrv prog m0 s' \<and>
        (\<forall>x. \<not> (unat (B2W off) \<le> unat x \<and> unat x < unat (B2W off) + length bs) \<longrightarrow>
           cfi_contents drv pdrv prog m0 s' x = cfi_contents drv pdrv prog m0 s x) \<and>
        (\<forall>j < length bs. cfi_contents drv pdrv prog m0 s (B2W off + of_nat j) = 0xFFFFFFFF \<longrightarrow>
           cfi_contents drv pdrv prog m0 s' (B2W off + of_nat j) = bs ! j)"
    if r: "unat off + 4 * length bs \<le> 0x2000000" for bs
  proof -
    have w: "4 * length bs \<le> 0x2000000" using r by simp
    have ob: "unat (B2W off) + length bs < 2 ^ 32" using r unfolding unat_B2W by simp
    have "unat off + unat (of_nat (4 * length bs) :: u32) \<le> 0x2000000" using r nbytes_words(1) [OF w] by simp
    from CfiFlashWrite_programs [OF d m refl p this, of bs] obtain t' where
      t': "CfiFlashWrite E drv pdrv bs off (of_nat (4 * length bs)) s = Some (FLASH_OK, t')"
      "flash_of prog ?p m0 t' = (ReadArray, programmed prog (B2W off) bs m)"
      unfolding nbytes_words(2) [OF w] by auto
    have "programmed prog (B2W off) bs m (B2W off + of_nat j) = bs ! j"
      if "j < length bs" "m (B2W off + of_nat j) = 0xFFFFFFFF" for j
      using that ob blank by (simp add: programmed_def pending_def unat_add_of_nat)
    moreover have "programmed prog (B2W off) bs m x = m x"
      if "\<not> (unat (B2W off) \<le> unat x \<and> unat x < unat (B2W off) + length bs)" for x
      using that by (auto simp: programmed_def pending_def)
    ultimately show ?thesis
      using t' d p blank by (simp add: cfi_put_def cfi_ok_def cfi_contents_def m)
  qed
  show "\<exists>s'. cfi_get E drv pdrv off n s = Some (map (\<lambda>j. cfi_contents drv pdrv prog m0 s (B2W off + of_nat j)) [0..<n], s') \<and>
        cfi_ok E drv pdrv prog m0 s' \<and> cfi_contents drv pdrv prog m0 s' = cfi_contents drv pdrv prog m0 s"
    if r: "unat off + 4 * n \<le> 0x2000000" for n
  proof -
    have w: "4 * n \<le> 0x2000000" using r by simp
    have "unat off + unat (of_nat (4 * n) :: u32) \<le> 0x2000000" using r nbytes_words(1) [OF w] by simp
    from CfiFlashRead_shows [OF d m refl p this, of "replicate n 0"] obtain t' where
      "CfiFlashRead E drv pdrv (replicate n 0) off (of_nat (4 * n)) s
        = Some (FLASH_OK, map (\<lambda>j. m (B2W off + of_nat j)) [0..<n], t')"
      "flash_of prog ?p m0 t' = (ReadArray, m)"
      unfolding nbytes_words(2) [OF w] by auto
    then show ?thesis using d p blank by (simp add: cfi_get_def cfi_ok_def cfi_contents_def m)
  qed
qed


lemma same_block:
  "unat a div 65536 = unat b div 65536 \<Longrightarrow> CfiFlashEraseBlkWordAddr a = CfiFlashEraseBlkWordAddr b"
  unfolding CfiFlashEraseBlkWordAddr_def masks by (intro and_not_mask_cong) simp

text \<open>The address of a LittleFS block and of an offset in it.\<close>

lemma lfs_address:
  assumes "unat blk < 128" and "unat off + 4 * n \<le> 0x40000"
  shows "unat (0x40000 * blk + off) = 0x40000 * unat blk + unat off"
    and "unat (0x40000 * blk + off) + 4 * n \<le> 0x2000000"
    and "j < n \<Longrightarrow> CfiFlashEraseBlkWordAddr (B2W (0x40000 * blk + off) + of_nat j) = CfiFlashEraseBlkWordAddr (B2W (0x40000 * blk))"
proof -
  have m: "unat (0x40000 * blk) = 0x40000 * unat blk" using assms(1) by (simp add: unat_word_ariths)
  then show u: "unat (0x40000 * blk + off) = 0x40000 * unat blk + unat off"
    using assms by (simp add: unat_plus_if')
  show "unat (0x40000 * blk + off) + 4 * n \<le> 0x2000000"
    unfolding u using assms by linarith
  assume j: "j < n"
  have w: "unat (B2W (0x40000 * blk + off)) = 65536 * unat blk + unat off div 4"
    unfolding unat_B2W u by simp
  have k: "unat off div 4 + j < 65536" using assms(2) j by linarith
  have "unat (B2W (0x40000 * blk + off) + of_nat j) = 65536 * unat blk + (unat off div 4 + j)"
    using w k assms(1) by (subst unat_add_of_nat) simp_all
  then have "unat (B2W (0x40000 * blk + off) + of_nat j) div 65536 = unat blk" using k by simp
  moreover have "unat (B2W (0x40000 * blk)) div 65536 = unat blk" unfolding unat_B2W m by simp
  ultimately show "CfiFlashEraseBlkWordAddr (B2W (0x40000 * blk + off) + of_nat j) = CfiFlashEraseBlkWordAddr (B2W (0x40000 * blk))"
    by (intro same_block) simp
qed

lemma cfi_ops_defs:
  "cfi_erase E drv pdrv off t = Some t' \<longleftrightarrow> CfiFlashErase E drv pdrv off t = Some (FLASH_OK, t')"
  "cfi_put E drv pdrv off bs t = Some t' \<longleftrightarrow> CfiFlashWrite E drv pdrv bs off (of_nat (4 * length bs)) t = Some (FLASH_OK, t')"
  "cfi_get E drv pdrv off n t = Some (bs', t') \<longleftrightarrow> CfiFlashRead E drv pdrv (replicate n 0) off (of_nat (4 * n)) t = Some (FLASH_OK, bs', t')"
  by (auto simp: cfi_erase_def cfi_put_def cfi_get_def split: option.splits FLASH_DRESULT.splits)

text \<open>C19. Storing on the flash. On a flash with the Intel command set, for every block the file system is
  configured with and every range inside it: erasing the block, programming the range (in as many page
  buffer commands as it takes) and reading it back all end and succeed and return the data; every word
  of the other blocks is as before, and the flash is back in its read mode.\<close>

theorem littlefs_store:
  assumes "drv 1 \<noteq> 0" and "flash_dev E prog (drv 1) m0" and "\<And>v. prog 0xFFFFFFFF v = v"
    and "flash_of prog (drv 1) m0 t = (ReadArray, m)"
    and "blk < block_count g_lfsConfig" and "unat off + 4 * length bs \<le> unat (block_size g_lfsConfig)"
  shows "\<exists>t1 t2 t3 m'. LittlefsErase E drv g_lfsConfig blk t = Some (FLASH_OK, t1) \<and>
    LittlefsProg E drv g_lfsConfig blk off bs (of_nat (4 * length bs)) t1 = Some (FLASH_OK, t2) \<and>
    LittlefsRead E drv g_lfsConfig blk off (replicate (length bs) 0) (of_nat (4 * length bs)) t2 = Some (FLASH_OK, bs, t3) \<and>
    flash_of prog (drv 1) m0 t3 = (ReadArray, m') \<and>
    (\<forall>x. CfiFlashEraseBlkWordAddr x \<noteq> CfiFlashEraseBlkWordAddr (B2W (block_size g_lfsConfig * blk)) \<longrightarrow> m' x = m x)"
proof -
  have g: "block_size g_lfsConfig = 0x40000" "block_count g_lfsConfig = 128" "context_devid g_lfsConfig = 1"
    by (simp_all add: g_lfsConfig_def)
  have b: "unat blk < 128" using assms(5) unfolding g by (simp add: word_less_nat_alt)
  have o: "unat off + 4 * length bs \<le> 0x40000" using assms(6) unfolding g by simp
  have p: "GetCfiDrvPriv drv 1 = drv 1" by (simp add: GetCfiDrvPriv_def)
  have "cfi_ok E drv 1 prog m0 t" using assms(1-4) by (simp add: cfi_ok_def p)
  moreover have "unat (0x40000 * blk) < 0x2000000" using b by (simp add: unat_word_ariths)
  ultimately obtain t1 t2 t3 where r: "cfi_erase E drv 1 (0x40000 * blk) t = Some t1"
    "cfi_put E drv 1 (0x40000 * blk + off) bs t1 = Some t2"
    "cfi_get E drv 1 (0x40000 * blk + off) (length bs) t2 = Some (bs, t3)" "cfi_ok E drv 1 prog m0 t3"
    "\<forall>x. CfiFlashEraseBlkWordAddr x \<noteq> CfiFlashEraseBlkWordAddr (B2W (0x40000 * blk)) \<longrightarrow>
       cfi_contents drv 1 prog m0 t3 x = cfi_contents drv 1 prog m0 t x"
    using cfi_flash.erase_put_get [of E drv 1 prog m0 t "0x40000 * blk" "0x40000 * blk + off" bs] lfs_address [OF b o] by blast
  moreover obtain m' where "flash_of prog (drv 1) m0 t3 = (ReadArray, m')"
    using r(4) by (cases "flash_of prog (drv 1) m0 t3") (simp add: cfi_ok_def p Let_def)
  ultimately show ?thesis
    unfolding LittlefsErase_def LittlefsProg_def LittlefsRead_def g Let_def cfi_ops_defs
    using assms(4) by (auto simp: cfi_contents_def p)
qed

text \<open>The numbers are 32-bit: a sector and the sector \<open>2 ^ 23\<close> above it are the same to the FatFs device.\<close>

lemma DiskWrite_sector_wraps:
  "DiskWrite E drv pdrv buf (s + 0x800000) n t = DiskWrite E drv pdrv buf s n t"
proof -
  have "CfiFlashSec2Bytes (s + 0x800000) = CfiFlashSec2Bytes s"
    unfolding CfiFlashSec2Bytes_def push_bit_add by simp
  then show ?thesis by (simp add: DiskWrite_def)
qed

text \<open>A read that ends exactly at the wrap-around of the 32-bit sum passes the check of the bounds and
  returns the word in front of the flash.\<close>

lemma CfiFlashRead_wraps:
  assumes "pdrv < 2" and "drv pdrv \<noteq> 0"
  shows "CfiFlashRead E drv pdrv [x] 0xFFFFFFFC 4 t
    = Some (FLASH_OK, [rd_reg E t (drv pdrv + 0xFFFFFFFC)], Rd (drv pdrv + 0xFFFFFFFC) (rd_reg E t (drv pdrv + 0xFFFFFFFC)) # t)"
proof -
  have w: "B2W 0xFFFFFFFC = 0x3FFFFFFF" "B2W 4 = 1" by (simp_all add: B2W_def)
  show ?thesis
    using assms by (simp add: CfiFlashRead_def w GetCfiDrvPriv_def flash_rd_def Let_def)
qed

subsection \<open>An erase at the end of the flash\<close>

lemma IsReady_address: "CfiFlashIsReady E w p t = CfiFlashIsReady E 0 (p + 4 * w) t"
  by (simp add: CfiFlashIsReady_def flash_wr_def flash_rd_def)

lemma wait_ready_address:
  assumes "rd_reg E (polls E w p n t) (p + 4 * w) AND CFIFLASH_STATUS_READY_MASK \<noteq> 0"
  shows "wait_ready E w p t = wait_ready E 0 (p + 4 * w) t"
  using assms
proof (induction n arbitrary: t)
  case 0
  then have "fst (CfiFlashIsReady E w p t)" by (simp add: CfiFlashIsReady_def flash_rd_def Let_def)
  then show ?case
    by (subst wait_ready.simps, subst (2) wait_ready.simps) (simp add: IsReady_address [of E w p] split_beta)
next
  case (Suc n)
  then have "wait_ready E w p (snd (CfiFlashIsReady E w p t)) = wait_ready E 0 (p + 4 * w) (snd (CfiFlashIsReady E w p t))"
    by simp
  then show ?case
    by (subst wait_ready.simps, subst (2) wait_ready.simps) (simp add: IsReady_address [of E w p] split_beta)
qed

lemma polls_address: "polls E w p n t = polls E 0 (p + 4 * w) n t"
  by (induction n arbitrary: t) (simp_all add: flash_wr_def IsReady_address [of E w p])

text \<open>An erase at the end of the flash. The check of the offset lets the capacity itself pass, and the
  erase then goes to the words after the flash. When the second flash follows the first, as the two of
  the board do, erasing the first at its capacity succeeds and erases the first block of the second,
  which is left in the status mode.\<close>

theorem CfiFlashErase_capacity:
  assumes "drv 0 \<noteq> 0" and "drv 1 = drv 0 + CFIFLASH_CAPACITY" and "flash_dev E prog (drv 1) m0"
    and "flash_of prog (drv 1) m0 t = (ReadArray, m)"
  shows "\<exists>t'. CfiFlashErase E drv 0 CFIFLASH_CAPACITY t = Some (FLASH_OK, t') \<and>
    flash_of prog (drv 1) m0 t' = (ReadStatus, erased 0 m)"
proof -
  let ?p = "drv 0" and ?q = "drv 1"
  have q: "?q = ?p + 4 * 0x800000" using assms(2) by simp
  have blk: "CfiFlashEraseBlkWordAddr (B2W 0x2000000) = 0x800000"
    by (simp add: CfiFlashEraseBlkWordAddr_def B2W_def)
  have wr: "flash_wr ?p 0x800000 v t = flash_wr ?q 0 v t" for v t by (simp add: flash_wr_def assms(2))
  define t1 where "t1 = flash_wr ?q 0 CFIFLASH_CMD_CONFIRM (flash_wr ?q 0 CFIFLASH_CMD_ERASE t)"
  have f1: "flash_of prog ?q m0 t1 = (ReadStatus, erased 0 m)"
    by (simp add: t1_def flash_of_wr assms(4) idle_cmd_def erased_def)
  have zl: "(0 :: u32) < 0x800000" by simp
  obtain k where k: "rd_reg E (polls E 0 ?q k t1) (?q + 4 * 0) AND CFIFLASH_STATUS_READY_MASK \<noteq> 0"
    using assms(3) zl unfolding flash_dev_def by blast
  from wait_ready_ends [OF this _ f1] obtain t2 where
    t2: "wait_ready E 0 ?q t1 = Some t2" "flash_of prog ?q m0 t2 = (ReadStatus, erased 0 m)"
    by auto
  have "wait_ready E 0x800000 ?p t1 = Some t2"
    using wait_ready_address [of E "0x800000" ?p k t1] k t2(1) unfolding polls_address [of E "0x800000" ?p] q by simp
  then have "CfiFlashErase E drv 0 CFIFLASH_CAPACITY t = Some (FLASH_OK, flash_wr ?p 0 CFIFLASH_CMD_CLEAR_STATUS t2)"
    using assms(1) by (simp add: CfiFlashErase_def GetCfiDrvPriv_def blk Let_def wr t1_def)
  moreover have "flash_of prog ?q m0 (flash_wr ?p 0 CFIFLASH_CMD_CLEAR_STATUS t2) = flash_of prog ?q m0 t2"
    by (simp add: flash_wr_def assms(2))
  ultimately show ?thesis using t2(2) by metis
qed

subsection \<open>Witnesses\<close>

text \<open>A flash that is always ready.\<close>

definition ex_flash_env :: "u32 \<Rightarrow> env" where
  "ex_flash_env p = \<lparr>rd_reg = (\<lambda>t a. case flash_of (AND) p (\<lambda>_. 0) t of (ReadArray, m) \<Rightarrow> m (drop_bit 2 (a - p)) | _ \<Rightarrow> 0x80),
     sys_ret = (\<lambda>t c args. 0), sys_hdf = (\<lambda>t c args. HDF_SUCCESS), ALIGN = (\<lambda>x a. x), IO_DEVICE_ADDR = (\<lambda>x. x),
     VMM_TO_DMA_ADDR = (\<lambda>x. x), LOS_ASSERT = (\<lambda>b. b)\<rparr>"

lemma word_address: "w < 0x800000 \<Longrightarrow> drop_bit 2 (4 * w) = (w :: u32)"
proof -
  assume "w < 0x800000"
  then have u: "unat w < 0x800000" by (simp add: word_less_nat_alt)
  then have "unat (4 * w) = 4 * unat w" by (simp add: unat_word_ariths)
  then show ?thesis by (simp only: word_unat_eq_iff drop_bit_eq_div unat_div) simp
qed

lemma ex_flash_dev: "flash_dev (ex_flash_env p) (AND) p (\<lambda>_. 0)"
proof -
  have "fst (flash_cmd (AND) w 0x70 s) \<noteq> ReadArray" for w :: u32 and s
    by (cases s; cases "fst s") (auto simp: idle_cmd_def)
  then have mode: "fst (flash_of (AND) p (\<lambda>_. 0) (flash_wr p w 0x70 t)) \<noteq> ReadArray" if "w < 0x800000" for w t
    using flash_of_wr [OF that] by simp
  have "rd_reg (ex_flash_env p) (polls (ex_flash_env p) w p 0 t) (p + 4 * w) AND CFIFLASH_STATUS_READY_MASK \<noteq> 0"
    if "w < 0x800000" for w t
    using mode [OF that, of t] by (cases "flash_of (AND) p (\<lambda>_. 0) (flash_wr p w 0x70 t)") (simp add: ex_flash_env_def split: flash_mode.splits)
  moreover have "rd_reg (ex_flash_env p) t (p + 4 * w) = snd (flash_of (AND) p (\<lambda>_. 0) t) w"
    if "fst (flash_of (AND) p (\<lambda>_. 0) t) = ReadArray" "w < 0x800000" for t w
    using that by (cases "flash_of (AND) p (\<lambda>_. 0) t") (simp add: ex_flash_env_def word_address)
  ultimately show ?thesis unfolding flash_dev_def by blast
qed

lemma ones_and: "(0xFFFFFFFF :: u32) AND v = v"
proof -
  have "(0xFFFFFFFF :: u32) = - 1" by simp
  then show ?thesis by (simp only: and.left_neutral)
qed

lemma littlefs_store_witness:
  "\<exists>t1 t2 t3 m'. LittlefsErase (ex_flash_env 0x22000000) (\<lambda>_. 0x22000000) g_lfsConfig 127 [] = Some (FLASH_OK, t1) \<and>
    LittlefsProg (ex_flash_env 0x22000000) (\<lambda>_. 0x22000000) g_lfsConfig 127 0xFF8 [1, 2, 3, 4] 16 t1 = Some (FLASH_OK, t2) \<and>
    LittlefsRead (ex_flash_env 0x22000000) (\<lambda>_. 0x22000000) g_lfsConfig 127 0xFF8 [0, 0, 0, 0] 16 t2 = Some (FLASH_OK, [1, 2, 3, 4], t3) \<and>
    flash_of (AND) 0x22000000 (\<lambda>_. 0) t3 = (ReadArray, m') \<and> m' 0 = 0"
proof -
  have b: "CfiFlashEraseBlkWordAddr 0 \<noteq> CfiFlashEraseBlkWordAddr (B2W (block_size g_lfsConfig * 127))"
    by (simp add: CfiFlashEraseBlkWordAddr_def B2W_def g_lfsConfig_def)
  have "\<exists>t1 t2 t3 m'. LittlefsErase (ex_flash_env 0x22000000) (\<lambda>_. 0x22000000) g_lfsConfig 127 [] = Some (FLASH_OK, t1) \<and>
    LittlefsProg (ex_flash_env 0x22000000) (\<lambda>_. 0x22000000) g_lfsConfig 127 0xFF8 [1, 2, 3, 4] (of_nat (4 * length [1, 2, 3, 4 :: u32])) t1 = Some (FLASH_OK, t2) \<and>
    LittlefsRead (ex_flash_env 0x22000000) (\<lambda>_. 0x22000000) g_lfsConfig 127 0xFF8 (replicate (length [1, 2, 3, 4 :: u32]) 0)
      (of_nat (4 * length [1, 2, 3, 4 :: u32])) t2 = Some (FLASH_OK, [1, 2, 3, 4], t3) \<and>
    flash_of (AND) 0x22000000 (\<lambda>_. 0) t3 = (ReadArray, m') \<and>
    (\<forall>x. CfiFlashEraseBlkWordAddr x \<noteq> CfiFlashEraseBlkWordAddr (B2W (block_size g_lfsConfig * 127)) \<longrightarrow> m' x = 0)"
    by (rule littlefs_store [where m = "\<lambda>_. 0"]) (simp_all add: ex_flash_dev ones_and g_lfsConfig_def)
  then show ?thesis using b by simp fastforce
qed

lemma CfiFlashErase_capacity_witness:
  "\<exists>t'. CfiFlashErase (ex_flash_env 0x22000000) (\<lambda>d. if d = 0 then 0x20000000 else 0x22000000) 0 CFIFLASH_CAPACITY [] = Some (FLASH_OK, t') \<and>
    flash_of (AND) 0x22000000 (\<lambda>_. 0) t' = (ReadStatus, erased 0 (\<lambda>_. 0))"
  using CfiFlashErase_capacity [of "\<lambda>d. if d = 0 then 0x20000000 else 0x22000000" "ex_flash_env 0x22000000" "(AND)" "\<lambda>_. 0" "[]" "\<lambda>_. 0"]
  by (simp add: ex_flash_dev)

end
