(* ===== verification/Fbmem.thy ===== *)
theory Fbmem
  imports Prelude "HOL-Library.Multiset"
begin

text \<open>
  The registry of the frame buffers of the riscv32 board,
  \<open>riscv32_virt/liteos_m/board/driver/video\<close>: \<open>key_cache.c\<close> (a hash table of names), \<open>fb_mem.c\<close>
  (registering and looking up a driver by name) and \<open>fb_init.c\<close>. A C string is the list of its bytes
  before the terminating zero. The blocks of the heap that the code shares by pointer, \<open>struct fb_mem\<close>, are a
  map from addresses; a \<open>struct KeyCache\<close> is only reached through the lists of the table, which are
  Isabelle lists with the head of the list first. The table is the empty list before \<open>KeyCacheInit\<close>, so
  that using it then is undefined. \<open>vnodeMux\<close> is the handle the kernel stores.
\<close>

type_synonym cstring = "u8 list"

abbreviation (input) LOSCFG_MAX_PATH_CACHE_SIZE :: nat where "LOSCFG_MAX_PATH_CACHE_SIZE \<equiv> 512"
abbreviation (input) PATH_CACHE_HASH_MASK :: u32 where "PATH_CACHE_HASH_MASK \<equiv> 511"
abbreviation (input) FNV1_32A_INIT :: u32 where "FNV1_32A_INIT \<equiv> 0x811c9dc5"
abbreviation (input) FNV_32_PRIME :: u32 where "FNV_32_PRIME \<equiv> 0x01000193"
abbreviation (input) PATH_MAX :: nat where "PATH_MAX \<equiv> 256"
abbreviation (input) V_CREATE :: u32 where "V_CREATE \<equiv> 1"
abbreviation (input) V_DUMMY :: u32 where "V_DUMMY \<equiv> 4"
abbreviation (input) LOS_OK :: int where "LOS_OK \<equiv> 0"
abbreviation (input) LOS_NOK :: int where "LOS_NOK \<equiv> 1"
abbreviation (input) ENOENT :: int where "ENOENT \<equiv> 2"
abbreviation (input) ENXIO :: int where "ENXIO \<equiv> 6"
abbreviation (input) ENOMEM :: int where "ENOMEM \<equiv> 12"
abbreviation (input) EEXIST :: int where "EEXIST \<equiv> 17"
abbreviation (input) ENODEV :: int where "ENODEV \<equiv> 19"
abbreviation (input) EINVAL :: int where "EINVAL \<equiv> 22"

subsection \<open>The state\<close>

record KeyCache =
  kc_addr :: u32
  kc_fbmem :: u32
  kc_nameLen :: u8
  kc_name :: cstring

record fb_mem =
  fm_hash :: u32
  fm_uid :: u32
  fm_data :: u32

record registry =
  buckets :: "KeyCache list list"     \<comment> \<open>\<open>g_keyCacheHashEntrys\<close>\<close>
  fbmems :: "u32 \<Rightarrow> fb_mem option"     \<comment> \<open>the allocated \<open>struct fb_mem\<close>\<close>
  vnodeMux :: u32
  reg_hist :: trace

text \<open>The sizes of the structs (the cache entry's depends on the debug configuration), \<open>NAME_MAX\<close> and
  whether \<open>strncpy_s\<close> copies.\<close>

record reg_consts =
  SIZEOF_KeyCache :: u32
  SIZEOF_fb_mem :: u32
  NAME_MAX :: nat
  strncpy_ok :: "cstring \<Rightarrow> u8 \<Rightarrow> bool"

definition rcall :: "env \<Rightarrow> syscall \<Rightarrow> u32 list \<Rightarrow> registry \<Rightarrow> u32 \<times> registry" where
  "rcall E f xs s = (let (v, t) = kcall E f xs (reg_hist s) in (v, s\<lparr>reg_hist := t\<rparr>))"

definition rproc :: "syscall \<Rightarrow> u32 list \<Rightarrow> registry \<Rightarrow> registry" where
  "rproc f xs s = s\<lparr>reg_hist := kproc f xs (reg_hist s)\<rparr>"

subsection \<open>The hash\<close>

text \<open>FNV-1a over \<open>len\<close> bytes, and over a string.\<close>

fun LOS_HashFNV32aBuf :: "u8 list \<Rightarrow> nat \<Rightarrow> u32 \<Rightarrow> u32 option" where
  "LOS_HashFNV32aBuf buf 0 hval = Some hval"
| "LOS_HashFNV32aBuf [] (Suc len) hval = None"
| "LOS_HashFNV32aBuf (b # buf) (Suc len) hval = LOS_HashFNV32aBuf buf len ((hval XOR ucast b) * FNV_32_PRIME)"

fun LOS_HashFNV32aStr :: "cstring \<Rightarrow> u32 \<Rightarrow> u32" where
  "LOS_HashFNV32aStr [] hval = hval"
| "LOS_HashFNV32aStr (b # s) hval =
     (if b = 0 then hval else LOS_HashFNV32aStr s ((hval XOR ucast b) * FNV_32_PRIME))"

text \<open>The string with its terminating zero is the buffer.\<close>

definition NameHash :: "cstring \<Rightarrow> nat \<Rightarrow> u32 option" where
  "NameHash name len = LOS_HashFNV32aBuf (name @ [0]) len FNV1_32A_INIT"

definition hash_slot :: "cstring \<Rightarrow> nat \<Rightarrow> nat option" where
  "hash_slot name len = do { h \<leftarrow> NameHash name len; Some (unat (h AND PATH_CACHE_HASH_MASK)) }"

text \<open>\<open>!strncmp(a, b, n)\<close>.\<close>

fun strncmp_eq :: "cstring \<Rightarrow> cstring \<Rightarrow> nat \<Rightarrow> bool" where
  "strncmp_eq a b 0 = True"
| "strncmp_eq [] [] (Suc n) = True"
| "strncmp_eq [] (y # b) (Suc n) = (y = 0)"
| "strncmp_eq (x # a) [] (Suc n) = (x = 0)"
| "strncmp_eq (x # a) (y # b) (Suc n) = (x = y \<and> (x = 0 \<or> strncmp_eq a b n))"

subsection \<open>The key cache\<close>

definition KeyCacheInit :: "registry \<Rightarrow> int \<times> registry" where
  "KeyCacheInit s = (LOS_OK, s\<lparr>buckets := replicate LOSCFG_MAX_PATH_CACHE_SIZE []\<rparr>)"

text \<open>The two numbers \<open>KeyCacheMemoryDump\<close> prints: the entries and the bytes.\<close>

definition KeyCacheMemoryDump :: "reg_consts \<Rightarrow> registry \<Rightarrow> (nat \<times> nat) option" where
  "KeyCacheMemoryDump K s =
     (if buckets s = [] then None else
      let entries = concat (buckets s);
          keyCacheNum = length entries;
          nameSum = sum_list (map (\<lambda>kc. unat (kc_nameLen kc)) entries)
      in Some (keyCacheNum, keyCacheNum * unat (SIZEOF_KeyCache K) + nameSum))"

text \<open>\<open>LOS_ListAdd\<close> puts the entry in front.\<close>

definition KeyCacheInsert :: "KeyCache \<Rightarrow> cstring \<Rightarrow> nat \<Rightarrow> registry \<Rightarrow> registry option" where
  "KeyCacheInsert kc name len s = do {
     h \<leftarrow> hash_slot name len;
     bucket \<leftarrow> aget (buckets s) h;
     bs \<leftarrow> aset (buckets s) h (kc # bucket);
     Some (s\<lparr>buckets := bs\<rparr>)
   }"

text \<open>The result is the address of the entry, 0 for the null pointer. Without the copy of the name the
  entry is neither freed nor inserted.\<close>

definition KeyCacheAlloc ::
  "env \<Rightarrow> reg_consts \<Rightarrow> u32 \<Rightarrow> cstring \<Rightarrow> u8 \<Rightarrow> registry \<Rightarrow> (u32 \<times> registry) option" where
  "KeyCacheAlloc E K fbmem name len s =
     (if unat len > NAME_MAX K \<or> fbmem = 0 then Some (0, s) else
      let (p, s) = rcall E c_zalloc [SIZEOF_KeyCache K + ucast len + 1] s
      in if p = 0 then Some (0, s) else
         if \<not> strncpy_ok K name len then Some (0, s) else do {
           s \<leftarrow> KeyCacheInsert \<lparr>kc_addr = p, kc_fbmem = fbmem, kc_nameLen = len, kc_name = take (unat len) name\<rparr>
                  name (unat len) s;
           Some (p, s)
         })"

text \<open>Deleting the entry at the address from the list it is linked in.\<close>

definition KeyCacheFree :: "u32 \<Rightarrow> registry \<Rightarrow> int \<times> registry" where
  "KeyCacheFree kc s =
     (if kc = 0 then (- ENOENT, s) else
      (LOS_OK, rproc c_free [kc] (s\<lparr>buckets := map (filter (\<lambda>e. kc_addr e \<noteq> kc)) (buckets s)\<rparr>)))"

fun find_key :: "KeyCache list \<Rightarrow> cstring \<Rightarrow> nat \<Rightarrow> u32 option" where
  "find_key [] name len = None"
| "find_key (kc # kcs) name len =
     (if unat (kc_nameLen kc) = len \<and> strncmp_eq (kc_name kc) name len then Some (kc_fbmem kc) else find_key kcs name len)"

text \<open>The entry found, or none for \<open>-ENOENT\<close>; the outer option is definedness.\<close>

definition KeyCacheLookup :: "cstring \<Rightarrow> nat \<Rightarrow> registry \<Rightarrow> u32 option option" where
  "KeyCacheLookup name len s = do {
     h \<leftarrow> hash_slot name len;
     bucket \<leftarrow> aget (buckets s) h;
     Some (find_key bucket name len)
   }"

definition FbMemKeyCacheFree :: "u32 \<Rightarrow> registry \<Rightarrow> registry option" where
  "FbMemKeyCacheFree fbmem s =
     (if buckets s = [] then None else Some
      (case find (\<lambda>kc. kc_fbmem kc = fbmem) (concat (buckets s)) of
        None \<Rightarrow> s
      | Some kc \<Rightarrow> snd (KeyCacheFree (kc_addr kc) s)))"

subsection \<open>The drivers by name\<close>

definition FbMemInit :: "env \<Rightarrow> registry \<Rightarrow> int \<times> registry" where
  "FbMemInit E s =
     (let (r, s) = rcall E LOS_MuxCreate [] s in if r \<noteq> 0 then (uint r, s) else (LOS_OK, s))"

definition FbMemHold :: "env \<Rightarrow> registry \<Rightarrow> u32 \<times> registry" where
  "FbMemHold E s = rcall E LOS_MuxPend [vnodeMux s] s"

definition FbMemDrop :: "env \<Rightarrow> registry \<Rightarrow> u32 \<times> registry" where
  "FbMemDrop E s = rcall E LOS_MuxPost [vnodeMux s] s"

text \<open>The status and the block stored through \<open>result\<close>.\<close>

definition FbMemLookup ::
  "env \<Rightarrow> reg_consts \<Rightarrow> cstring \<Rightarrow> u32 \<Rightarrow> registry \<Rightarrow> (int \<times> u32 option \<times> registry) option" where
  "FbMemLookup E K key flags s = do {
     let len = length key;
     found \<leftarrow> KeyCacheLookup key len s;
     (case found of
        Some fbmem \<Rightarrow> Some (LOS_OK, Some fbmem, s)
      | None \<Rightarrow>
          if flags AND V_DUMMY \<noteq> 0 then
            (let (fbmem, s) = rcall E c_zalloc [SIZEOF_fb_mem K] s
             in if fbmem = 0 then Some (LOS_NOK, None, s) else do {
               let s = s\<lparr>fbmems := (fbmems s)(fbmem \<mapsto> \<lparr>fm_hash = 0, fm_uid = 0, fm_data = 0\<rparr>)\<rparr>;
               (_, s) \<leftarrow> KeyCacheAlloc E K fbmem key (of_nat len) s;
               Some (LOS_OK, Some fbmem, s)
             })
          else Some (- ENXIO, None, s))
   }"

text \<open>The key is \<open>None\<close> for the null pointer.\<close>

definition register_driver ::
  "env \<Rightarrow> reg_consts \<Rightarrow> cstring option \<Rightarrow> u32 \<Rightarrow> registry \<Rightarrow> (int \<times> registry) option" where
  "register_driver E K keyp prev s =
     (case keyp of
        None \<Rightarrow> Some (- EINVAL, s)
      | Some key \<Rightarrow>
          if length key \<ge> PATH_MAX then Some (- EINVAL, s) else do {
            let (_, s) = FbMemHold E s;
            (ret, _, s) \<leftarrow> FbMemLookup E K key 0 s;
            if ret = 0 then (let (_, s) = FbMemDrop E s in Some (- EEXIST, s)) else do {
              (ret, fbmem, s) \<leftarrow> FbMemLookup E K key (V_CREATE OR V_DUMMY) s;
              s \<leftarrow> (if ret = 0 then do {
                      a \<leftarrow> fbmem;
                      fm \<leftarrow> fbmems s a;
                      Some (s\<lparr>fbmems := (fbmems s)(a \<mapsto> fm\<lparr>fm_data := prev\<rparr>)\<rparr>)
                    } else Some s);
              let (_, s) = FbMemDrop E s;
              Some (ret, s)
            }
          })"

definition unregister_driver :: "env \<Rightarrow> cstring option \<Rightarrow> registry \<Rightarrow> (int \<times> registry) option" where
  "unregister_driver E keyp s =
     (case keyp of
        None \<Rightarrow> Some (- EINVAL, s)
      | Some key \<Rightarrow>
          if length key \<ge> PATH_MAX then Some (- EINVAL, s) else do {
            let (_, s) = FbMemHold E s;
            found \<leftarrow> KeyCacheLookup key (length key) s;
            (ret, s) \<leftarrow> (case found of
               None \<Rightarrow> Some (- ENOENT, s)
             | Some fbmem \<Rightarrow> do {
                 s \<leftarrow> FbMemKeyCacheFree fbmem s;
                 Some (LOS_OK, rproc c_free [fbmem] (s\<lparr>fbmems := (fbmems s)(fbmem := None)\<rparr>))
               });
            let (_, s) = FbMemDrop E s;
            Some (ret, s)
          })"

text \<open>The static flag of \<open>fb_init\<close> starts false and nothing ever sets it.\<close>

definition fb_init :: "env \<Rightarrow> bool \<Rightarrow> registry \<Rightarrow> bool \<times> registry" where
  "fb_init E g_fb_init s =
     (if g_fb_init then (g_fb_init, s) else
      let (retval, s) = FbMemInit E s
      in if retval \<noteq> LOS_OK then (g_fb_init, s) else
      let (retval, s) = KeyCacheInit s
      in if retval \<noteq> LOS_OK then (g_fb_init, s) else (g_fb_init, s))"

subsection \<open>Hash slots and names\<close>

definition fnv :: "cstring \<Rightarrow> u32" where
  "fnv name = foldl (\<lambda>h b. (h XOR ucast b) * FNV_32_PRIME) FNV1_32A_INIT name"

definition slot :: "cstring \<Rightarrow> nat" where
  "slot name = unat (fnv name AND PATH_CACHE_HASH_MASK)"

definition is_name :: "cstring \<Rightarrow> bool" where
  "is_name name \<longleftrightarrow> 0 \<notin> set name \<and> length name < PATH_MAX"

lemma HashBuf_foldl:
  "LOS_HashFNV32aBuf (name @ rest) (length name) h = Some (foldl (\<lambda>h b. (h XOR ucast b) * FNV_32_PRIME) h name)"
  by (induction name arbitrary: h) simp_all

lemma hash_slot_eq: "hash_slot name (length name) = Some (slot name)"
  by (simp add: hash_slot_def NameHash_def HashBuf_foldl slot_def fnv_def)

text \<open>The hash of a string and of its buffer are the same.\<close>

lemma HashStr_Buf:
  "0 \<notin> set name \<Longrightarrow> LOS_HashFNV32aBuf (name @ [0]) (length name) h = Some (LOS_HashFNV32aStr (name @ [0]) h)"
  by (induction name arbitrary: h) auto

lemma slot_less: "slot name < 512"
proof -
  have "unat (fnv name AND 511) \<le> unat (511 :: u32)"
    by (rule word_le_nat_alt [THEN iffD1]) (rule word_and_le1)
  then show ?thesis by (simp add: slot_def)
qed

lemma strncmp_eq_iff:
  "length a = n \<Longrightarrow> length b = n \<Longrightarrow> 0 \<notin> set a \<Longrightarrow> strncmp_eq a b n \<longleftrightarrow> a = b"
  by (induction a b n rule: strncmp_eq.induct) auto

subsection \<open>The invariant\<close>

definition entries :: "registry \<Rightarrow> KeyCache list" where
  "entries s = concat (buckets s)"

definition entry_ok :: "KeyCache \<Rightarrow> bool" where
  "entry_ok e \<longleftrightarrow> is_name (kc_name e) \<and> unat (kc_nameLen e) = length (kc_name e) \<and> kc_addr e \<noteq> 0"

definition reg_ok :: "registry \<Rightarrow> bool" where
  "reg_ok s \<longleftrightarrow> length (buckets s) = 512 \<and>
     (\<forall>i < 512. \<forall>e \<in> set (buckets s ! i). entry_ok e \<and> slot (kc_name e) = i) \<and>
     distinct (map kc_name (entries s)) \<and> distinct (map kc_fbmem (entries s)) \<and> distinct (map kc_addr (entries s)) \<and>
     kc_fbmem ` set (entries s) = dom (fbmems s)"

text \<open>The blocks of the heap that the history leaves allocated.\<close>

fun live :: "env \<Rightarrow> trace \<Rightarrow> u32 set" where
  "live E [] = {}"
| "live E (e # t) = (case e of
     Call c_zalloc xs \<Rightarrow> insert (sys_ret E t c_zalloc xs) (live E t)
   | Call c_free [p] \<Rightarrow> live E t - {p}
   | _ \<Rightarrow> live E t)"

text \<open>The documented behaviour of the allocator, while fewer than \<open>cap\<close> blocks are in use: the block is
  not null and is not one in use. In the invariant, \<open>n\<close> more names fit.\<close>

definition heap_ok :: "env \<Rightarrow> nat \<Rightarrow> bool" where
  "heap_ok E cap \<longleftrightarrow> (\<forall>t xs. card (live E t) < cap \<longrightarrow> sys_ret E t c_zalloc xs \<noteq> 0 \<and> sys_ret E t c_zalloc xs \<notin> live E t)"

lemma finite_live: "finite (live E t)"
  by (induction t) (auto split: event.split syscall.split libc_fn.split list.split)

definition reg_inv :: "env \<Rightarrow> reg_consts \<Rightarrow> nat \<Rightarrow> nat \<Rightarrow> registry \<Rightarrow> bool" where
  "reg_inv E K cap n s \<longleftrightarrow> heap_ok E cap \<and> card (live E (reg_hist s)) + 2 * n \<le> cap \<and> 255 \<le> NAME_MAX K \<and> (\<forall>name len. strncpy_ok K name len) \<and> reg_ok s \<and>
     live E (reg_hist s) = kc_addr ` set (entries s) \<union> dom (fbmems s) \<and> kc_addr ` set (entries s) \<inter> dom (fbmems s) = {}"

lemma reg_inv_next:
  assumes "reg_inv E K cap (Suc n) s" and "reg_ok s'"
    and "live E (reg_hist s') = kc_addr ` set (entries s') \<union> dom (fbmems s')"
    and "kc_addr ` set (entries s') \<inter> dom (fbmems s') = {}"
    and "card (live E (reg_hist s')) \<le> card (live E (reg_hist s)) + 2"
  shows "reg_inv E K cap n s'"
proof -
  have a: "heap_ok E cap" "card (live E (reg_hist s)) + 2 * Suc n \<le> cap" "255 \<le> NAME_MAX K" "\<forall>name len. strncpy_ok K name len"
    using assms(1) unfolding reg_inv_def by blast+
  have "card (live E (reg_hist s')) + 2 * n \<le> cap" using a(2) assms(5) unfolding mult_Suc_right by linarith
  then show ?thesis using a(1,3,4) assms(2-4) unfolding reg_inv_def by blast
qed

text \<open>The data registered under a name.\<close>

definition drivers :: "registry \<Rightarrow> cstring \<Rightarrow> u32 option" where
  "drivers s key = (case KeyCacheLookup key (length key) s of
     Some (Some a) \<Rightarrow> map_option fm_data (fbmems s a) | _ \<Rightarrow> None)"

lemma entry_in_slot:
  assumes "reg_ok s" and "e \<in> set (entries s)"
  shows "e \<in> set (buckets s ! slot (kc_name e))" "entry_ok e"
proof -
  obtain b where b: "b \<in> set (buckets s)" "e \<in> set b" using assms(2) by (auto simp: entries_def)
  then obtain i where "i < 512" "b = buckets s ! i" using assms(1) by (auto simp: in_set_conv_nth reg_ok_def)
  then show "e \<in> set (buckets s ! slot (kc_name e))" "entry_ok e" using assms(1) b(2) by (auto simp: reg_ok_def)
qed

lemma slot_in_entries:
  "reg_ok s \<Longrightarrow> e \<in> set (buckets s ! slot key) \<Longrightarrow> e \<in> set (entries s)"
  using slot_less [of key] by (auto simp: reg_ok_def entries_def)

lemma find_key_None:
  assumes "\<forall>e \<in> set b. entry_ok e"
  shows "find_key b key (length key) = None \<longleftrightarrow> (\<forall>e \<in> set b. kc_name e \<noteq> key)"
  using assms by (induction b) (auto simp: entry_ok_def is_name_def strncmp_eq_iff)

lemma find_key_Some:
  assumes "\<forall>e \<in> set b. entry_ok e" and "find_key b key (length key) = Some a"
  shows "\<exists>e \<in> set b. kc_name e = key \<and> kc_fbmem e = a"
  using assms by (induction b) (auto simp: entry_ok_def is_name_def strncmp_eq_iff split: if_splits)

lemma lookup_cases:
  assumes "reg_ok s"
  obtains (absent) "KeyCacheLookup key (length key) s = Some None" "\<forall>e \<in> set (entries s). kc_name e \<noteq> key"
  | (present) e where "KeyCacheLookup key (length key) s = Some (Some (kc_fbmem e))" "e \<in> set (entries s)" "kc_name e = key"
proof -
  let ?b = "buckets s ! slot key"
  have b: "\<forall>e \<in> set ?b. entry_ok e" "length (buckets s) = 512"
    using assms slot_less [of key] by (auto simp: reg_ok_def)
  have l: "KeyCacheLookup key (length key) s = Some (find_key ?b key (length key))"
    using b slot_less [of key] by (simp add: KeyCacheLookup_def hash_slot_eq)
  show thesis
  proof (cases "find_key ?b key (length key)")
    case None
    then have "\<forall>e \<in> set (entries s). kc_name e \<noteq> key"
      using entry_in_slot(1) [OF assms] find_key_None [OF b(1)] by metis
    then show thesis using absent l None by simp
  next
    case (Some a)
    then show thesis using present l slot_in_entries [OF assms] find_key_Some [OF b(1) Some] by auto
  qed
qed

lemma lookup_present:
  assumes "reg_ok s" and "e \<in> set (entries s)"
  shows "KeyCacheLookup (kc_name e) (length (kc_name e)) s = Some (Some (kc_fbmem e))"
  using assms(1)
proof (cases rule: lookup_cases [of s "kc_name e"])
  case absent
  then show ?thesis using assms(2) by blast
next
  case (present e')
  have "inj_on kc_name (set (entries s))" using assms(1) by (simp add: reg_ok_def distinct_map)
  then have "e' = e" using present(2,3) assms(2) by (auto dest: inj_onD)
  then show ?thesis using present(1) by simp
qed

lemma drivers_absent: "reg_ok s \<Longrightarrow> \<forall>e \<in> set (entries s). kc_name e \<noteq> key \<Longrightarrow> drivers s key = None"
  by (rule lookup_cases [of s key]) (auto simp: drivers_def)

lemma drivers_present:
  "reg_ok s \<Longrightarrow> e \<in> set (entries s) \<Longrightarrow> drivers s (kc_name e) = map_option fm_data (fbmems s (kc_fbmem e))"
  by (simp add: drivers_def lookup_present)

lemma drivers_None_iff: "reg_ok s \<Longrightarrow> drivers s key = None \<longleftrightarrow> (\<forall>e \<in> set (entries s). kc_name e \<noteq> key)"
proof
  assume ok: "reg_ok s" and n: "drivers s key = None"
  show "\<forall>e \<in> set (entries s). kc_name e \<noteq> key"
  proof (intro ballI notI)
    fix e assume e: "e \<in> set (entries s)" "kc_name e = key"
    then have "kc_fbmem e \<in> dom (fbmems s)" using ok by (auto simp: reg_ok_def)
    then show False using drivers_present [OF ok e(1)] n e(2) by auto
  qed
qed (rule drivers_absent)

text \<open>The history does not enter any of this.\<close>

lemma hist_irrelevant [simp]:
  "entries (s\<lparr>reg_hist := t\<rparr>) = entries s" "reg_ok (s\<lparr>reg_hist := t\<rparr>) = reg_ok s"
  "drivers (s\<lparr>reg_hist := t\<rparr>) = drivers s" "KeyCacheLookup k n (s\<lparr>reg_hist := t\<rparr>) = KeyCacheLookup k n s"
  by (simp_all add: entries_def reg_ok_def drivers_def KeyCacheLookup_def fun_eq_iff split: option.split)

lemma mset_concat_cons:
  "h < length bs \<Longrightarrow> mset (concat (bs[h := x # bs ! h])) = add_mset x (mset (concat bs))"
proof (induction bs arbitrary: h)
  case (Cons b bs)
  then show ?case by (cases h) auto
qed simp

lemma insert_entries:
  assumes "reg_ok s" and "is_name (kc_name e)"
  shows "\<exists>s'. KeyCacheInsert e (kc_name e) (length (kc_name e)) s = Some s' \<and> mset (entries s') = add_mset e (mset (entries s)) \<and>
    fbmems s' = fbmems s \<and> reg_hist s' = reg_hist s \<and> buckets s' = (buckets s)[slot (kc_name e) := e # buckets s ! slot (kc_name e)]"
  using assms slot_less [of "kc_name e"]
  by (simp add: KeyCacheInsert_def hash_slot_eq entries_def mset_concat_cons reg_ok_def)

lemma reg_ok_insert:
  assumes "reg_ok s" and "entry_ok e" and "mset (entries s') = add_mset e (mset (entries s))"
    and "buckets s' = (buckets s)[slot (kc_name e) := e # buckets s ! slot (kc_name e)]"
    and "fbmems s' = (fbmems s)(kc_fbmem e \<mapsto> fm)"
    and "\<forall>x \<in> set (entries s). kc_name x \<noteq> kc_name e" and "kc_fbmem e \<notin> dom (fbmems s)"
    and "kc_addr e \<notin> kc_addr ` set (entries s)"
  shows "reg_ok s'"
proof -
  have st: "set (entries s') = insert e (set (entries s))"
    using assms(3) by (metis set_mset_add_mset_insert set_mset_mset)
  have d: "distinct (map f (entries s')) \<longleftrightarrow> distinct (f e # map f (entries s))" for f :: "KeyCache \<Rightarrow> 'z"
  proof -
    have "mset (map f (entries s')) = mset (f e # map f (entries s))" using assms(3) by simp
    then show ?thesis by (rule mset_eq_imp_distinct_iff)
  qed
  have "\<forall>i < 512. \<forall>x \<in> set (buckets s' ! i). entry_ok x \<and> slot (kc_name x) = i"
    using assms(1,2,4) slot_less [of "kc_name e"] by (auto simp: reg_ok_def nth_list_update)
  moreover have "kc_fbmem e \<notin> kc_fbmem ` set (entries s)" using assms(1,7) by (simp add: reg_ok_def)
  moreover have "kc_name e \<notin> set (map kc_name (entries s))" using assms(6) by (metis imageE set_map)
  moreover have "kc_addr e \<notin> set (map kc_addr (entries s))" using assms(8) by simp
  moreover have "length (buckets s') = 512" using assms(1,4) by (simp add: reg_ok_def)
  moreover have "kc_fbmem ` set (entries s') = dom (fbmems s')" using assms(1,5) st by (simp add: reg_ok_def)
  moreover have "distinct (map kc_name (entries s))" "distinct (map kc_fbmem (entries s))" "distinct (map kc_addr (entries s))"
    using assms(1) by (simp_all add: reg_ok_def)
  ultimately show ?thesis
    unfolding reg_ok_def d by (simp only: distinct.simps set_map simp_thms)
qed

lemma filter_entries: "entries (s\<lparr>buckets := map (filter P) (buckets s)\<rparr>) = filter P (entries s)"
  by (simp add: entries_def filter_concat)

lemma reg_ok_remove:
  assumes "reg_ok s" and "e \<in> set (entries s)"
  shows "reg_ok (s\<lparr>buckets := map (filter (\<lambda>x. kc_addr x \<noteq> kc_addr e)) (buckets s), fbmems := (fbmems s)(kc_fbmem e := None)\<rparr>)"
    and "set (entries (s\<lparr>buckets := map (filter (\<lambda>x. kc_addr x \<noteq> kc_addr e)) (buckets s)\<rparr>)) = set (entries s) - {e}"
proof -
  have inj: "inj_on kc_addr (set (entries s))" "inj_on kc_fbmem (set (entries s))"
    using assms(1) by (simp_all add: reg_ok_def distinct_map)
  then show st: "set (entries (s\<lparr>buckets := map (filter (\<lambda>x. kc_addr x \<noteq> kc_addr e)) (buckets s)\<rparr>)) = set (entries s) - {e}"
    using assms(2) by (auto simp: filter_entries dest: inj_onD)
  have "kc_fbmem ` (set (entries s) - {e}) = dom (fbmems s) - {kc_fbmem e}"
    using inj(2) assms by (subst inj_on_image_set_diff [OF inj(2)]) (auto simp: reg_ok_def)
  then show "reg_ok (s\<lparr>buckets := map (filter (\<lambda>x. kc_addr x \<noteq> kc_addr e)) (buckets s), fbmems := (fbmems s)(kc_fbmem e := None)\<rparr>)"
    using assms(1) st by (auto simp: reg_ok_def entries_def filter_concat [symmetric] distinct_map inj_on_def)
qed

lemma alloc_eq:
  "rcall E f xs s = (sys_ret E (reg_hist s) f xs, s\<lparr>reg_hist := Call f xs # reg_hist s\<rparr>)"
  "rproc f xs s = s\<lparr>reg_hist := Call f xs # reg_hist s\<rparr>"
  "FbMemHold E s = (sys_ret E (reg_hist s) LOS_MuxPend [vnodeMux s], s\<lparr>reg_hist := Call LOS_MuxPend [vnodeMux s] # reg_hist s\<rparr>)"
  "FbMemDrop E s = (sys_ret E (reg_hist s) LOS_MuxPost [vnodeMux s], s\<lparr>reg_hist := Call LOS_MuxPost [vnodeMux s] # reg_hist s\<rparr>)"
  by (simp_all add: rcall_def rproc_def FbMemHold_def FbMemDrop_def io_defs)

lemma reg_swap: "s\<lparr>reg_hist := t, fbmems := X\<rparr> = s\<lparr>fbmems := X, reg_hist := t\<rparr>"
  by (cases s) simp

lemma register_present:
  assumes "reg_inv E K cap (Suc n) s" and "is_name key" and "drivers s key \<noteq> None"
  shows "\<exists>s'. register_driver E K (Some key) d s = Some (- EEXIST, s') \<and> reg_inv E K cap n s' \<and> drivers s' = drivers s"
proof -
  have ok: "reg_ok s" using assms(1) by (simp add: reg_inv_def)
  obtain a where l: "KeyCacheLookup key (length key) s = Some (Some a)"
    by (rule lookup_cases [OF ok, of key]) (use assms(3) drivers_absent [OF ok] in auto)
  let ?s = "s\<lparr>reg_hist := Call LOS_MuxPost [vnodeMux s] # Call LOS_MuxPend [vnodeMux s] # reg_hist s\<rparr>"
  have "register_driver E K (Some key) d s = Some (- EEXIST, ?s)"
    using assms(2) l by (simp add: register_driver_def FbMemLookup_def alloc_eq is_name_def)
  moreover have "reg_inv E K cap n ?s" using assms(1) by (auto simp: reg_inv_def)
  ultimately show ?thesis by auto
qed

lemma register_absent:
  assumes "reg_inv E K cap (Suc n) s" and key: "is_name key" and "drivers s key = None"
  shows "\<exists>s'. register_driver E K (Some key) d s = Some (0, s') \<and> reg_inv E K cap n s' \<and> drivers s' = (drivers s)(key \<mapsto> d)"
proof -
  have ok: "reg_ok s" and heap: "heap_ok E cap" and room: "card (live E (reg_hist s)) + 2 * Suc n \<le> cap" and K: "255 \<le> NAME_MAX K" "\<And>l. strncpy_ok K key l"
    and lv: "live E (reg_hist s) = kc_addr ` set (entries s) \<union> dom (fbmems s)" "kc_addr ` set (entries s) \<inter> dom (fbmems s) = {}"
    using assms(1) unfolding reg_inv_def by blast+
  have new: "\<forall>e \<in> set (entries s). kc_name e \<noteq> key" using assms(3) drivers_None_iff [OF ok] by simp
  have l: "KeyCacheLookup key (length key) s = Some None"
    by (rule lookup_cases [OF ok, of key]) (use new in auto)
  define t1 where "t1 = Call LOS_MuxPend [vnodeMux s] # reg_hist s"
  define a where "a = sys_ret E t1 c_zalloc [SIZEOF_fb_mem K]"
  define t2 where "t2 = Call c_zalloc [SIZEOF_fb_mem K] # t1"
  define l8 where "l8 = (of_nat (length key) :: u8)"
  define p where "p = sys_ret E t2 c_zalloc [SIZEOF_KeyCache K + ucast l8 + 1]"
  define t3 where "t3 = Call c_zalloc [SIZEOF_KeyCache K + ucast l8 + 1] # t2"
  have n: "unat l8 = length key" using key by (simp add: l8_def is_name_def unat_of_nat take_bit_nat_eq_self)
  have live1: "live E t1 = live E (reg_hist s)" "live E t2 = insert a (live E t1)" "live E t3 = insert p (live E t2)"
    by (simp_all add: t1_def t2_def t3_def a_def p_def)
  have room1: "card (live E t1) < cap" "card (live E t2) < cap"
    using room card_insert_le_m1 [of "Suc (card (live E t1))" "live E t1" a] by (simp_all add: live1)
  have a: "a \<noteq> 0" "a \<notin> live E t1" and p: "p \<noteq> 0" "p \<notin> live E t2"
    using heap room1 by (auto simp: heap_ok_def a_def p_def)
  define e where "e = \<lparr>kc_addr = p, kc_fbmem = a, kc_nameLen = l8, kc_name = key\<rparr>"
  have e: "entry_ok e" using key n p by (simp add: e_def entry_ok_def)
  let ?s2 = "s\<lparr>fbmems := (fbmems s)(a \<mapsto> \<lparr>fm_hash = 0, fm_uid = 0, fm_data = 0\<rparr>), reg_hist := t3\<rparr>"
  let ?h = "slot key"
  define s3 where "s3 = ?s2\<lparr>buckets := (buckets s)[?h := e # buckets s ! ?h]\<rparr>"
  have len: "length (buckets s) = 512" using ok by (simp add: reg_ok_def)
  have ins: "KeyCacheInsert e key (length key) ?s2 = Some s3"
    using slot_less [of key] len by (simp add: KeyCacheInsert_def hash_slot_eq s3_def)
  define s4 where "s4 = s3\<lparr>fbmems := (fbmems s3)(a \<mapsto> \<lparr>fm_hash = 0, fm_uid = 0, fm_data = d\<rparr>),
    reg_hist := Call LOS_MuxPost [vnodeMux s] # t3\<rparr>"
  have look: "FbMemLookup E K key 0 (s\<lparr>reg_hist := t1\<rparr>) = Some (- ENXIO, None, s\<lparr>reg_hist := t1\<rparr>)"
    using l by (simp add: FbMemLookup_def)
  have "KeyCacheAlloc E K a key l8 (s\<lparr>fbmems := (fbmems s)(a \<mapsto> \<lparr>fm_hash = 0, fm_uid = 0, fm_data = 0\<rparr>), reg_hist := t2\<rparr>) = Some (p, s3)"
    using ins a p n K key by (simp add: KeyCacheAlloc_def alloc_eq p_def [symmetric] t3_def [symmetric] e_def [symmetric] is_name_def)
  then have make: "FbMemLookup E K key (V_CREATE OR V_DUMMY) (s\<lparr>reg_hist := t1\<rparr>) = Some (LOS_OK, Some a, s3)"
    using l a by (simp add: FbMemLookup_def alloc_eq reg_swap a_def [symmetric] t2_def [symmetric] l8_def [symmetric])
  have reg: "register_driver E K (Some key) d s = Some (0, s4)"
    using key look make
    by (simp add: register_driver_def is_name_def alloc_eq t1_def [symmetric]) (simp add: s4_def s3_def)
  have ent: "mset (entries s4) = add_mset e (mset (entries s))"
    using slot_less [of key] len by (simp add: entries_def s4_def s3_def mset_concat_cons)
  then have st: "set (entries s4) = insert e (set (entries s))"
    by (metis set_mset_add_mset_insert set_mset_mset)
  have ok4: "reg_ok s4"
  proof (rule reg_ok_insert [OF ok e ent])
    show "buckets s4 = (buckets s)[slot (kc_name e) := e # buckets s ! slot (kc_name e)]"
      by (simp add: s4_def s3_def e_def)
    show "fbmems s4 = (fbmems s)(kc_fbmem e \<mapsto> \<lparr>fm_hash = 0, fm_uid = 0, fm_data = d\<rparr>)"
      by (simp add: s4_def s3_def e_def)
    show "\<forall>x \<in> set (entries s). kc_name x \<noteq> kc_name e" using new by (simp add: e_def)
    show "kc_fbmem e \<notin> dom (fbmems s)" using a(2) lv(1) live1(1) by (auto simp: e_def)
    show "kc_addr e \<notin> kc_addr ` set (entries s)" using p(2) lv(1) live1 by (auto simp: e_def)
  qed
  have "live E (reg_hist s4) = kc_addr ` set (entries s4) \<union> dom (fbmems s4)"
    using live1 lv(1) st by (auto simp: s4_def s3_def e_def)
  moreover have "kc_addr ` set (entries s4) \<inter> dom (fbmems s4) = {}"
    using lv live1 a(2) p(2) st by (auto simp: s4_def s3_def e_def)
  moreover have "card (live E (reg_hist s4)) \<le> card (live E (reg_hist s)) + 2"
    using a(2) p(2) finite_live [of E "reg_hist s"] by (simp add: s4_def s3_def live1)
  ultimately have "reg_inv E K cap n s4" using reg_inv_next [OF assms(1) ok4] by simp
  moreover have "drivers s4 = (drivers s)(key \<mapsto> d)"
  proof
    fix k
    show "drivers s4 k = ((drivers s)(key \<mapsto> d)) k"
    proof (cases "\<exists>x \<in> set (entries s4). kc_name x = k")
      case False
      then show ?thesis using drivers_absent [OF ok4, of k] drivers_absent [OF ok, of k] st by (auto simp: e_def)
    next
      case True
      then obtain x where x: "x \<in> set (entries s4)" "kc_name x = k" by blast
      show ?thesis
      proof (cases "x = e")
        case True
        then show ?thesis using drivers_present [OF ok4 x(1)] x(2) by (simp add: e_def s4_def)
      next
        case False
        then have xs: "x \<in> set (entries s)" using x(1) st by simp
        then have "kc_fbmem x \<in> dom (fbmems s)" using ok by (auto simp: reg_ok_def)
        then have "kc_fbmem x \<noteq> a" using a(2) lv(1) live1(1) by auto
        moreover have "k \<noteq> key" using new xs x(2) by auto
        ultimately show ?thesis
          using drivers_present [OF ok4 x(1)] drivers_present [OF ok xs] x(2) by (simp add: s4_def s3_def)
      qed
    qed
  qed
  ultimately show ?thesis using reg by blast
qed

lemma unregister_absent:
  assumes "reg_inv E K cap (Suc n) s" and "is_name key" and "drivers s key = None"
  shows "\<exists>s'. unregister_driver E (Some key) s = Some (- ENOENT, s') \<and> reg_inv E K cap n s' \<and> drivers s' = drivers s"
proof -
  have ok: "reg_ok s" using assms(1) by (simp add: reg_inv_def)
  have l: "KeyCacheLookup key (length key) s = Some None"
    by (rule lookup_cases [OF ok, of key]) (use assms(3) drivers_None_iff [OF ok] in auto)
  let ?s = "s\<lparr>reg_hist := Call LOS_MuxPost [vnodeMux s] # Call LOS_MuxPend [vnodeMux s] # reg_hist s\<rparr>"
  have "unregister_driver E (Some key) s = Some (- ENOENT, ?s)"
    using assms(2) l by (simp add: unregister_driver_def alloc_eq is_name_def)
  moreover have "reg_inv E K cap n ?s" using assms(1) by (auto simp: reg_inv_def)
  ultimately show ?thesis by auto
qed

lemma find_fbmem:
  assumes "reg_ok s" and "e \<in> set (entries s)"
  shows "find (\<lambda>x. kc_fbmem x = kc_fbmem e) (entries s) = Some e"
proof (cases "find (\<lambda>x. kc_fbmem x = kc_fbmem e) (entries s)")
  case None
  then show ?thesis using assms(2) by (auto simp: find_None_iff)
next
  case (Some x)
  then have "x \<in> set (entries s)" "kc_fbmem x = kc_fbmem e" by (auto simp: find_Some_iff)
  moreover have "inj_on kc_fbmem (set (entries s))" using assms(1) by (simp add: reg_ok_def distinct_map)
  ultimately show ?thesis using Some assms(2) by (auto dest: inj_onD)
qed

lemma unregister_present:
  assumes "reg_inv E K cap (Suc n) s" and key: "is_name key" and "drivers s key \<noteq> None"
  shows "\<exists>s'. unregister_driver E (Some key) s = Some (0, s') \<and> reg_inv E K cap n s' \<and> drivers s' = (drivers s)(key := None)"
proof -
  have ok: "reg_ok s" and lv: "live E (reg_hist s) = kc_addr ` set (entries s) \<union> dom (fbmems s)"
      "kc_addr ` set (entries s) \<inter> dom (fbmems s) = {}"
    using assms(1) unfolding reg_inv_def by blast+
  obtain e where l: "KeyCacheLookup key (length key) s = Some (Some (kc_fbmem e))" and e: "e \<in> set (entries s)" "kc_name e = key"
    by (rule lookup_cases [OF ok, of key]) (use assms(3) drivers_absent [OF ok] in auto)
  have ne: "kc_addr e \<noteq> 0" using entry_in_slot(2) [OF ok e(1)] by (simp add: entry_ok_def)
  have b: "buckets s \<noteq> []" using ok by (auto simp: reg_ok_def)
  have f: "find (\<lambda>x. kc_fbmem x = kc_fbmem e) (concat (buckets s)) = Some e"
    using find_fbmem [OF ok e(1)] by (simp add: entries_def)
  let ?bs = "map (filter (\<lambda>x. kc_addr x \<noteq> kc_addr e)) (buckets s)"
  let ?fm = "(fbmems s)(kc_fbmem e := None)"
  define t where "t = Call LOS_MuxPost [vnodeMux s] # Call c_free [kc_fbmem e] # Call c_free [kc_addr e] # Call LOS_MuxPend [vnodeMux s] # reg_hist s"
  define s' where "s' = s\<lparr>buckets := ?bs, fbmems := ?fm, reg_hist := t\<rparr>"
  have run: "unregister_driver E (Some key) s = Some (0, s')"
    using key l ne b f
    by (simp add: unregister_driver_def alloc_eq is_name_def FbMemKeyCacheFree_def KeyCacheFree_def s'_def t_def)
  have ok': "reg_ok s'" using reg_ok_remove(1) [OF ok e(1)] by (simp add: s'_def)
  have st: "set (entries s') = set (entries s) - {e}"
    using reg_ok_remove(2) [OF ok e(1)] by (simp add: s'_def entries_def)
  have inj: "inj_on kc_addr (set (entries s))" using ok by (simp add: reg_ok_def distinct_map)
  have img: "kc_addr ` set (entries s') = kc_addr ` set (entries s) - {kc_addr e}"
    unfolding st using e(1) by (subst inj_on_image_set_diff [OF inj]) auto
  have fd: "kc_fbmem e \<in> dom (fbmems s)" using ok e(1) by (auto simp: reg_ok_def)
  have dm: "dom (fbmems s') = dom (fbmems s) - {kc_fbmem e}" by (simp add: s'_def)
  have "live E (reg_hist s') = live E (reg_hist s) - {kc_addr e} - {kc_fbmem e}" by (simp add: s'_def t_def)
  also have "\<dots> = kc_addr ` set (entries s') \<union> dom (fbmems s')"
    unfolding img dm lv(1) using lv(2) fd e(1) by blast
  finally have "live E (reg_hist s') = kc_addr ` set (entries s') \<union> dom (fbmems s')" .
  moreover have "kc_addr ` set (entries s') \<inter> dom (fbmems s') = {}" unfolding img dm using lv(2) by blast
  moreover have "card (live E (reg_hist s')) \<le> card (live E (reg_hist s))"
    by (rule card_mono [OF finite_live]) (auto simp: s'_def t_def)
  ultimately have "reg_inv E K cap n s'" using reg_inv_next [OF assms(1) ok'] by simp
  moreover have "drivers s' = (drivers s)(key := None)"
  proof
    fix k
    have injn: "inj_on kc_name (set (entries s))" "inj_on kc_fbmem (set (entries s))" using ok by (simp_all add: reg_ok_def distinct_map)
    show "drivers s' k = ((drivers s)(key := None)) k"
    proof (cases "\<exists>x \<in> set (entries s'). kc_name x = k")
      case False
      then have "k \<noteq> key \<Longrightarrow> \<forall>x \<in> set (entries s). kc_name x \<noteq> k" using st e(2) by auto
      then show ?thesis using False drivers_absent [OF ok', of k] drivers_absent [OF ok, of k] by auto
    next
      case True
      then obtain x where x: "x \<in> set (entries s')" "kc_name x = k" by blast
      then have xs: "x \<in> set (entries s)" "x \<noteq> e" using st by auto
      then have "k \<noteq> key" "kc_fbmem x \<noteq> kc_fbmem e" using injn e x(2) by (auto dest: inj_onD)
      then show ?thesis
        using drivers_present [OF ok' x(1)] drivers_present [OF ok xs(1)] x(2) by (simp add: s'_def)
    qed
  qed
  ultimately show ?thesis using run by blast
qed

subsection \<open>The registry as a map\<close>

text \<open>A registry of names, and its clients: the results of a sequence of operations and the final contents
  are those of a finite map.\<close>

datatype reg_op = Register cstring u32 | Unregister cstring

fun op_name :: "reg_op \<Rightarrow> cstring" where
  "op_name (Register key d) = key"
| "op_name (Unregister key) = key"

fun map_op :: "reg_op \<Rightarrow> (cstring \<Rightarrow> u32 option) \<Rightarrow> int \<times> (cstring \<Rightarrow> u32 option)" where
  "map_op (Register key d) m = (if m key = None then (0, m(key \<mapsto> d)) else (- EEXIST, m))"
| "map_op (Unregister key) m = (if m key = None then (- ENOENT, m) else (0, m(key := None)))"

fun map_run :: "reg_op list \<Rightarrow> (cstring \<Rightarrow> u32 option) \<Rightarrow> int list \<times> (cstring \<Rightarrow> u32 option)" where
  "map_run [] m = ([], m)"
| "map_run (x # xs) m = (let (r, m) = map_op x m; (rs, m) = map_run xs m in (r # rs, m))"

fun reg_run :: "(cstring \<Rightarrow> u32 \<Rightarrow> 's \<Rightarrow> (int \<times> 's) option) \<Rightarrow> (cstring \<Rightarrow> 's \<Rightarrow> (int \<times> 's) option) \<Rightarrow> reg_op list \<Rightarrow> 's
    \<Rightarrow> (int list \<times> 's) option" where
  "reg_run reg unreg [] s = Some ([], s)"
| "reg_run reg unreg (x # xs) s = do {
     (r, s) \<leftarrow> (case x of Register key d \<Rightarrow> reg key d s | Unregister key \<Rightarrow> unreg key s);
     (rs, s) \<leftarrow> reg_run reg unreg xs s;
     Some (r # rs, s)
   }"

locale name_registry =
  fixes inv :: "nat \<Rightarrow> 's \<Rightarrow> bool" and view :: "'s \<Rightarrow> cstring \<Rightarrow> u32 option"
    and reg :: "cstring \<Rightarrow> u32 \<Rightarrow> 's \<Rightarrow> (int \<times> 's) option"
    and unreg :: "cstring \<Rightarrow> 's \<Rightarrow> (int \<times> 's) option"
  assumes reg_step: "inv (Suc n) s \<Longrightarrow> is_name key \<Longrightarrow>
      \<exists>s'. reg key d s = Some (fst (map_op (Register key d) (view s)), s') \<and> inv n s' \<and> view s' = snd (map_op (Register key d) (view s))"
    and unreg_step: "inv (Suc n) s \<Longrightarrow> is_name key \<Longrightarrow>
      \<exists>s'. unreg key s = Some (fst (map_op (Unregister key) (view s)), s') \<and> inv n s' \<and> view s' = snd (map_op (Unregister key) (view s))"
begin

lemma step:
  "inv (Suc n) s \<Longrightarrow> is_name (op_name x) \<Longrightarrow>
     \<exists>s'. (case x of Register key d \<Rightarrow> reg key d s | Unregister key \<Rightarrow> unreg key s) = Some (fst (map_op x (view s)), s') \<and>
       inv n s' \<and> view s' = snd (map_op x (view s))"
  by (cases x) (auto dest: reg_step unreg_step simp del: map_op.simps)

lemma run:
  "inv (length xs) s \<Longrightarrow> \<forall>x \<in> set xs. is_name (op_name x) \<Longrightarrow>
     \<exists>s'. reg_run reg unreg xs s = Some (fst (map_run xs (view s)), s') \<and> inv 0 s' \<and> view s' = snd (map_run xs (view s))"
proof (induction xs arbitrary: s)
  case (Cons x xs)
  then obtain s1 where s1: "(case x of Register key d \<Rightarrow> reg key d s | Unregister key \<Rightarrow> unreg key s) = Some (fst (map_op x (view s)), s1)"
    "inv (length xs) s1" "view s1 = snd (map_op x (view s))"
    using step [of "length xs" s x] by auto
  then show ?case using Cons.IH [of s1] Cons.prems by (auto simp: split_beta)
qed simp

end

interpretation fb_registry: name_registry "reg_inv E K cap" drivers "\<lambda>key. register_driver E K (Some key)"
    "\<lambda>key. unregister_driver E (Some key)" for E K cap
proof
  fix n s key d
  assume "reg_inv E K cap (Suc n) s" "is_name key"
  then show "\<exists>s'. register_driver E K (Some key) d s = Some (fst (map_op (Register key d) (drivers s)), s') \<and> reg_inv E K cap n s' \<and>
      drivers s' = snd (map_op (Register key d) (drivers s))"
    using register_present [of E K cap n s key d] register_absent [of E K cap n s key d] by (cases "drivers s key") auto
next
  fix n s key
  assume "reg_inv E K cap (Suc n) s" "is_name key"
  then show "\<exists>s'. unregister_driver E (Some key) s = Some (fst (map_op (Unregister key) (drivers s)), s') \<and> reg_inv E K cap n s' \<and>
      drivers s' = snd (map_op (Unregister key) (drivers s))"
    using unregister_present [of E K cap n s key] unregister_absent [of E K cap n s key] by (cases "drivers s key") auto
qed

lemma initial_inv:
  assumes "heap_ok E cap" and "255 \<le> NAME_MAX K" and "\<And>name len. strncpy_ok K name len"
  shows "reg_inv E K cap (cap div 2) (snd (KeyCacheInit \<lparr>buckets = [], fbmems = (\<lambda>_. None), vnodeMux = m, reg_hist = []\<rparr>))"
    and "drivers (snd (KeyCacheInit \<lparr>buckets = [], fbmems = (\<lambda>_. None), vnodeMux = m, reg_hist = []\<rparr>)) = (\<lambda>_. None)"
proof -
  let ?s = "snd (KeyCacheInit \<lparr>buckets = [], fbmems = (\<lambda>_. None), vnodeMux = m, reg_hist = []\<rparr>)"
  have e: "entries ?s = []" by (simp add: entries_def KeyCacheInit_def)
  have "reg_ok ?s" unfolding reg_ok_def e by (simp add: KeyCacheInit_def)
  then show "reg_inv E K cap (cap div 2) ?s" "drivers ?s = (\<lambda>_. None)"
    using assms drivers_None_iff [of ?s] unfolding reg_inv_def e by (auto simp: KeyCacheInit_def e)
qed

text \<open>C20. The registry of names. After its initialisation, every sequence of registrations and
  deregistrations under legal names is defined and returns exactly the results a finite map from names
  to drivers gives (\<open>-EEXIST\<close> for a name in use, \<open>-ENOENT\<close> for an unknown one); looking a name up
  finds exactly what the map holds, whatever names share a hash slot; and the heap blocks in use at the
  end are those of the registered names, so that nothing is leaked or freed twice. The allocator has room for
  \<open>cap\<close> blocks, two for each operation.\<close>

theorem registry_is_a_map:
  assumes "heap_ok E cap" and "255 \<le> NAME_MAX K" and "\<And>name len. strncpy_ok K name len"
    and "\<forall>x \<in> set xs. is_name (op_name x)" and "2 * length xs \<le> cap"
  shows "\<exists>s. reg_run (\<lambda>key. register_driver E K (Some key)) (\<lambda>key. unregister_driver E (Some key)) xs
      (snd (KeyCacheInit \<lparr>buckets = [], fbmems = (\<lambda>_. None), vnodeMux = m, reg_hist = []\<rparr>))
      = Some (fst (map_run xs (\<lambda>_. None)), s) \<and>
    drivers s = snd (map_run xs (\<lambda>_. None)) \<and>
    card (live E (reg_hist s)) = 2 * card (dom (drivers s))"
proof -
  note init = initial_inv [OF assms(1-3), of m]
  have init0: "reg_inv E K cap (length xs) (snd (KeyCacheInit \<lparr>buckets = [], fbmems = (\<lambda>_. None), vnodeMux = m, reg_hist = []\<rparr>))"
    using init(1) assms(5) unfolding reg_inv_def by (auto simp: KeyCacheInit_def)
  obtain s where s: "reg_run (\<lambda>key. register_driver E K (Some key)) (\<lambda>key. unregister_driver E (Some key)) xs
      (snd (KeyCacheInit \<lparr>buckets = [], fbmems = (\<lambda>_. None), vnodeMux = m, reg_hist = []\<rparr>))
      = Some (fst (map_run xs (\<lambda>_. None)), s)" "reg_inv E K cap 0 s" "drivers s = snd (map_run xs (\<lambda>_. None))"
    using fb_registry.run [OF init0 assms(4)] unfolding init(2) by blast
  have ok: "reg_ok s" using s(2) by (simp add: reg_inv_def)
  have inj: "inj_on kc_addr (set (entries s))" "inj_on kc_fbmem (set (entries s))" "inj_on kc_name (set (entries s))"
    using ok by (simp_all add: reg_ok_def distinct_map)
  have dm: "dom (fbmems s) = kc_fbmem ` set (entries s)" using ok by (simp add: reg_ok_def)
  have "dom (drivers s) = kc_name ` set (entries s)"
    using drivers_None_iff [OF ok] by (auto simp: dom_def)
  moreover have "card (live E (reg_hist s)) = card (kc_addr ` set (entries s)) + card (kc_fbmem ` set (entries s))"
    using s(2) unfolding reg_inv_def dm by (simp add: card_Un_disjoint)
  ultimately have "card (live E (reg_hist s)) = 2 * card (dom (drivers s))"
    using inj by (simp add: card_image)
  then show ?thesis using s(1,3) by blast
qed

text \<open>An allocator with the addresses 1 to 7.\<close>

definition ex_pick :: "u32 set \<Rightarrow> u32" where
  "ex_pick S = (case filter (\<lambda>a. a \<notin> S) [1, 2, 3, 4, 5, 6, 7] of [] \<Rightarrow> 1 | a # _ \<Rightarrow> a)"

fun ex_live :: "trace \<Rightarrow> u32 set" where
  "ex_live [] = {}"
| "ex_live (e # t) = (case e of
     Call c_zalloc xs \<Rightarrow> insert (ex_pick (ex_live t)) (ex_live t)
   | Call c_free [p] \<Rightarrow> ex_live t - {p}
   | _ \<Rightarrow> ex_live t)"

definition ex_reg_env :: env where
  "ex_reg_env = \<lparr>rd_reg = (\<lambda>t a. 0), sys_ret = (\<lambda>t f xs. ex_pick (ex_live t)),
     sys_hdf = (\<lambda>t f xs. HDF_SUCCESS), ALIGN = (\<lambda>x a. x), IO_DEVICE_ADDR = (\<lambda>x. x), VMM_TO_DMA_ADDR = (\<lambda>x. x),
     LOS_ASSERT = (\<lambda>b. b)\<rparr>"

definition ex_reg_consts :: reg_consts where
  "ex_reg_consts = \<lparr>SIZEOF_KeyCache = 16, SIZEOF_fb_mem = 12, NAME_MAX = 255, strncpy_ok = (\<lambda>_ _. True)\<rparr>"

lemma ex_live_eq: "live ex_reg_env t = ex_live t"
  by (induction t) (auto simp: ex_reg_env_def split: event.split syscall.split libc_fn.split list.split)

lemma ex_heap_ok: "heap_ok ex_reg_env 6"
proof -
  have "ex_pick (ex_live t) \<noteq> 0 \<and> ex_pick (ex_live t) \<notin> ex_live t" if "card (ex_live t) < 6" for t
  proof (cases "filter (\<lambda>a. a \<notin> ex_live t) [1, 2, 3, 4, 5, 6, 7 :: u32]")
    case Nil
    then have "set [1, 2, 3, 4, 5, 6, 7 :: u32] \<subseteq> ex_live t" unfolding filter_empty_conv by blast
    then have "card (set [1, 2, 3, 4, 5, 6, 7 :: u32]) \<le> card (ex_live t)"
      using finite_live [of ex_reg_env t] unfolding ex_live_eq by (intro card_mono)
    then show ?thesis using that by simp
  next
    case (Cons a rest)
    then have "a \<in> set (filter (\<lambda>a. a \<notin> ex_live t) [1, 2, 3, 4, 5, 6, 7 :: u32])" by simp
    then have "a \<notin> ex_live t" "a \<in> set [1, 2, 3, 4, 5, 6, 7]" unfolding set_filter by blast+
    then have "a \<noteq> 0" by auto
    then show ?thesis using Cons \<open>a \<notin> ex_live t\<close> by (simp add: ex_pick_def del: filter.simps)
  qed
  then show ?thesis unfolding heap_ok_def ex_live_eq by (simp add: ex_reg_env_def)
qed

lemma registry_is_a_map_witness:
  "\<exists>s. reg_run (\<lambda>key. register_driver ex_reg_env ex_reg_consts (Some key)) (\<lambda>key. unregister_driver ex_reg_env (Some key))
      [Register [47, 49] 9, Register [47, 49] 8, Unregister [47, 49]]
      (snd (KeyCacheInit \<lparr>buckets = [], fbmems = (\<lambda>_. None), vnodeMux = 0, reg_hist = []\<rparr>)) = Some ([0, - 17, 0], s) \<and>
    drivers s = (\<lambda>_. None)"
  using registry_is_a_map [of ex_reg_env 6 ex_reg_consts "[Register [47, 49] 9, Register [47, 49] 8, Unregister [47, 49]]" 0]
  by (auto simp: ex_heap_ok ex_reg_consts_def is_name_def)

text \<open>When only the cache entry cannot be allocated, the lookup reports success for a block that no name
  leads to.\<close>

lemma FbMemLookup_lost:
  assumes "KeyCacheLookup key (length key) s = Some None"
    and "sys_ret E (reg_hist s) c_zalloc [SIZEOF_fb_mem K] = a" and "a \<noteq> 0"
    and "\<And>n. sys_ret E (Call c_zalloc [SIZEOF_fb_mem K] # reg_hist s) c_zalloc [n] = 0"
  shows "\<exists>s'. FbMemLookup E K key (V_CREATE OR V_DUMMY) s = Some (LOS_OK, Some a, s') \<and>
    KeyCacheLookup key (length key) s' = Some None \<and> a \<in> dom (fbmems s')"
proof -
  let ?s1 = "s\<lparr>fbmems := (fbmems s)(a \<mapsto> \<lparr>fm_hash = 0, fm_uid = 0, fm_data = 0\<rparr>), reg_hist := Call c_zalloc [SIZEOF_fb_mem K] # reg_hist s\<rparr>"
  have k: "KeyCacheLookup key (length key) s' = KeyCacheLookup key (length key) s" if "buckets s' = buckets s" for s'
    using that by (simp add: KeyCacheLookup_def)
  obtain s' p where s': "KeyCacheAlloc E K a key (of_nat (length key)) ?s1 = Some (p, s')" "buckets s' = buckets s" "fbmems s' = fbmems ?s1"
    using assms(3,4) by (cases "NAME_MAX K < unat (of_nat (length key) :: u8)") (simp_all add: KeyCacheAlloc_def alloc_eq)
  have "FbMemLookup E K key (V_CREATE OR V_DUMMY) s = Some (LOS_OK, Some a, s')"
    using assms(1-3) s'(1) by (simp add: FbMemLookup_def alloc_eq reg_swap)
  then show ?thesis using k [OF s'(2)] assms(1) s'(3) by auto
qed

text \<open>Every call of \<open>fb_init\<close> empties the table again.\<close>

lemma fb_init_again:
  assumes "sys_ret E (reg_hist s) LOS_MuxCreate [] = 0"
  shows "fst (fb_init E False s) = False" "buckets (snd (fb_init E False s)) = replicate LOSCFG_MAX_PATH_CACHE_SIZE []"
  using assms by (simp_all add: fb_init_def FbMemInit_def KeyCacheInit_def alloc_eq Let_def)

end
