(* ===== verification/Fb.thy ===== *)
theory Fb
  imports Fbmem
begin

text \<open>
  The frame buffer devices of the riscv32 board, \<open>riscv32_virt/liteos_m/board/driver/video/fb.c\<close>, on
  top of the registry of names (theory \<open>Fbmem\<close>), in the configuration of \<open>fb.h\<close>, which defines
  \<open>CONFIG_FB_CMAP\<close>, \<open>CONFIG_FB_OVERLAY\<close>, \<open>CONFIG_FB_OVERLAY_BLIT\<close> and \<open>CONFIG_FB_TRANSPARENCY\<close> and no other option.

  The display hardware is the parameter \<open>fb_hw\<close>, with a state of its own, \<open>'h\<close>: what \<open>fb.c\<close> calls of it are functions
  of that state and the trace, \<open>None\<close> when they do not end or are undefined. An operation that fills a struct returns
  what it stored, if it stored anything. The allocated \<open>struct fb_chardev_s\<close> are a map from addresses, and reading
  through an address outside it is undefined.
\<close>

abbreviation (input) FB_DEV_MAXNUM :: int where "FB_DEV_MAXNUM \<equiv> 32"

record fb_chardev_s =
  cd_vtable :: u32
  cd_fbmem :: u32
  cd_fblen :: u32
  cd_plane :: u8
  cd_bpp :: u8

record fb_videoinfo_s =
  vi_fmt :: u8
  vi_xres :: u16
  vi_yres :: u16
  vi_nplanes :: u8
  vi_noverlays :: u8

record fb_planeinfo_s =
  pi_fbmem :: u32
  pi_fblen :: u32
  pi_stride :: u16
  pi_display :: u8
  pi_bpp :: u8

record fb_transp_s =
  tp_transp :: u8
  transp_mode :: u8

record fb_area_s =
  ar_x :: u16
  ar_y :: u16
  ar_w :: u16
  ar_h :: u16

record fb_overlayinfo_s =
  oi_fbmem :: u32
  oi_memphys :: u32
  oi_fblen :: u32
  oi_stride :: u16
  oi_overlay :: u8
  oi_bpp :: u8
  oi_blank :: u8
  oi_chromakey :: u32
  oi_color :: u32
  oi_transp :: fb_transp_s
  oi_sarea :: fb_area_s
  oi_accl :: u32

type_synonym 'h hw_state = "'h \<times> trace"

text \<open>The operations of the table. An operation of type \<open>fb_var_op\<close> is only called with the address of a pointer variable of
  \<open>fb_ioctl\<close> where it expects a struct (see there); its argument is what the variable holds, and it is undefined if it
  reads or writes the struct.\<close>

type_synonym 'h fb_var_op = "(u32 \<Rightarrow> 'h hw_state \<Rightarrow> (int \<times> 'h hw_state) option) option"

record 'h fb_vtable_s =
  getvideoinfo :: "('h hw_state \<Rightarrow> (int \<times> fb_videoinfo_s option \<times> 'h hw_state) option) option"
  vt_getplaneinfo :: "(int \<Rightarrow> 'h hw_state \<Rightarrow> (int \<times> fb_planeinfo_s option \<times> 'h hw_state) option) option"
  getcmap :: "'h fb_var_op"
  putcmap :: "'h fb_var_op"
  getoverlayinfo :: "(int \<Rightarrow> 'h hw_state \<Rightarrow> (int \<times> fb_overlayinfo_s option \<times> 'h hw_state) option) option"
  settransp :: "'h fb_var_op"
  setchromakey :: "'h fb_var_op"
  setcolor :: "'h fb_var_op"
  setblank :: "'h fb_var_op"
  setarea :: "'h fb_var_op"
  vt_blit :: "'h fb_var_op"
  vt_blend :: "'h fb_var_op"
  vt_fb_open :: "('h hw_state \<Rightarrow> (int \<times> 'h hw_state) option) option"
  vt_fb_release :: "('h hw_state \<Rightarrow> (int \<times> 'h hw_state) option) option"
  vt_fb_ioctl :: "(int \<Rightarrow> u32 \<Rightarrow> 'h hw_state \<Rightarrow> (int \<times> 'h hw_state) option) option"

text \<open>\<open>overlay_at\<close> is the \<open>overlay\<close> member of a caller's \<open>struct fb_overlayinfo_s\<close>.\<close>

record 'h fb_hw =
  up_fbinitialize_hw :: "int \<Rightarrow> 'h hw_state \<Rightarrow> (int \<times> 'h hw_state) option"
  up_fbgetvplane :: "int \<Rightarrow> int \<Rightarrow> 'h hw_state \<Rightarrow> (u32 \<times> 'h hw_state) option"
  up_fbuninitialize_hw :: "int \<Rightarrow> 'h hw_state \<Rightarrow> 'h hw_state option"
  vtable_at :: "u32 \<Rightarrow> 'h fb_vtable_s option"
  overlay_at :: "u32 \<Rightarrow> u8 option"
  SIZEOF_fb_chardev :: u32

record 'h fb_sys =
  fb_reg :: registry
  chardevs :: "u32 \<Rightarrow> fb_chardev_s option"
  g_fb_dev :: "u32 list"
  fb_hwst :: 'h

definition fb_hist :: "'h fb_sys \<Rightarrow> trace" where "fb_hist s = reg_hist (fb_reg s)"

definition set_hist :: "trace \<Rightarrow> 'h fb_sys \<Rightarrow> 'h fb_sys" where
  "set_hist t s = s\<lparr>fb_reg := (fb_reg s)\<lparr>reg_hist := t\<rparr>\<rparr>"

text \<open>The hardware's part of the state, and its update.\<close>

definition hw_of :: "'h fb_sys \<Rightarrow> 'h hw_state" where "hw_of s = (fb_hwst s, fb_hist s)"

definition set_hw :: "'h hw_state \<Rightarrow> 'h fb_sys \<Rightarrow> 'h fb_sys" where
  "set_hw d s = set_hist (snd d) (s\<lparr>fb_hwst := fst d\<rparr>)"

subsection \<open>Opening and closing\<close>

text \<open>The status and the block stored through \<open>result\<close>.\<close>

definition fb_open ::
  "env \<Rightarrow> reg_consts \<Rightarrow> 'h fb_hw \<Rightarrow> cstring option \<Rightarrow> 'h fb_sys \<Rightarrow> (int \<times> u32 option \<times> 'h fb_sys) option" where
  "fb_open E K H keyp s =
     (case keyp of
        None \<Rightarrow> Some (- EINVAL, None, s)
      | Some key \<Rightarrow>
          if length key \<ge> PATH_MAX then Some (- EINVAL, None, s) else do {
            let (_, r) = FbMemHold E (fb_reg s);
            (ret, fbmem, r) \<leftarrow> FbMemLookup E K key 0 r;
            let (_, r) = FbMemDrop E r;
            let s = s\<lparr>fb_reg := r\<rparr>;
            if ret \<noteq> 0 then Some (ret, None, s) else do {
              a \<leftarrow> fbmem;
              fm \<leftarrow> fbmems (fb_reg s) a;
              if fm_data fm = 0 then Some (- ENODEV, None, s) else do {
                fb \<leftarrow> chardevs s (fm_data fm);
                if cd_vtable fb = 0 then Some (- EINVAL, None, s) else do {
                  vt \<leftarrow> vtable_at H (cd_vtable fb);
                  (case vt_fb_open vt of
                     None \<Rightarrow> Some (ret, None, s)
                   | Some f \<Rightarrow> do {
                       (ret, d) \<leftarrow> f (hw_of s);
                       Some (ret, if ret = 0 then Some a else None, set_hw d s)
                     })
                }
              }
            }
          })"

definition fb_close :: "'h fb_hw \<Rightarrow> u32 \<Rightarrow> 'h fb_sys \<Rightarrow> (int \<times> 'h fb_sys) option" where
  "fb_close H fbmem s = do {
     fm \<leftarrow> fbmems (fb_reg s) fbmem;
     if fm_data fm = 0 then Some (- ENODEV, s) else do {
       fb \<leftarrow> chardevs s (fm_data fm);
       if cd_vtable fb = 0 then Some (- EINVAL, s) else do {
         vt \<leftarrow> vtable_at H (cd_vtable fb);
         (case vt_fb_release vt of
            None \<Rightarrow> Some (- EINVAL, s)
          | Some f \<Rightarrow> do { (ret, d) \<leftarrow> f (hw_of s); Some (ret, set_hw d s) })
       }
     }
   }"

subsection \<open>Controls\<close>

datatype fb_cmd = FIOC_MMAP | FBIOGET_VIDEOINFO | FBIOGET_PLANEINFO | FBIOGET_CMAP | FBIOPUT_CMAP |
  FBIO_SELECT_OVERLAY | FBIOGET_OVERLAYINFO | FBIOSET_TRANSP | FBIOSET_CHROMAKEY | FBIOSET_COLOR | FBIOSET_BLANK |
  FBIOSET_AREA | FBIOSET_BLIT | FBIOSET_BLEND | FB_OTHER_CMD int

text \<open>\<open>DEBUGASSERT\<close>, which is \<open>LOS_ASSERT\<close>, of the device's table and an operation in it, and the call after it.\<close>

definition vt_op :: "env \<Rightarrow> 'h fb_hw \<Rightarrow> fb_chardev_s \<Rightarrow> ('h fb_vtable_s \<Rightarrow> 'f option) \<Rightarrow> 'f option" where
  "vt_op E H fb op = do {
     vt \<leftarrow> vtable_at H (cd_vtable fb);
     if LOS_ASSERT E (cd_vtable fb \<noteq> 0 \<and> op vt \<noteq> None) then op vt else None
   }"

definition var_ioctl ::
  "env \<Rightarrow> 'h fb_hw \<Rightarrow> fb_chardev_s \<Rightarrow> ('h fb_vtable_s \<Rightarrow> 'h fb_var_op) \<Rightarrow> u32 \<Rightarrow> 'h fb_sys \<Rightarrow> (int \<times> u32 option \<times> 'h fb_sys) option" where
  "var_ioctl E H fb op arg s = do {
     f \<leftarrow> vt_op E H fb op;
     (ret, d) \<leftarrow> f arg (hw_of s);
     Some (ret, None, set_hw d s)
   }"

text \<open>The status and the word stored through \<open>arg\<close>. But for \<open>FBIO_SELECT_OVERLAY\<close> the commands that have a struct pass the
  address of their own pointer variable where the operation expects the struct: a store to it, when there is
  one, is beyond the variable and undefined.\<close>

definition fb_ioctl ::
  "env \<Rightarrow> 'h fb_hw \<Rightarrow> u32 \<Rightarrow> fb_cmd \<Rightarrow> u32 \<Rightarrow> 'h fb_sys \<Rightarrow> (int \<times> u32 option \<times> 'h fb_sys) option" where
  "fb_ioctl E H fbmem cmd arg s = do {
     fm \<leftarrow> fbmems (fb_reg s) fbmem;
     fb \<leftarrow> chardevs s (fm_data fm);
     (case cmd of
        FIOC_MMAP \<Rightarrow>
          if LOS_ASSERT E (arg \<noteq> 0) \<and> arg \<noteq> 0 then Some (0, Some (cd_fbmem fb), s) else None
      | FBIOGET_VIDEOINFO \<Rightarrow> do {
          f \<leftarrow> vt_op E H fb getvideoinfo;
          (ret, info, d) \<leftarrow> f (hw_of s);
          if info \<noteq> None then None else Some (ret, None, set_hw d s)
        }
      | FBIOGET_PLANEINFO \<Rightarrow> do {
          f \<leftarrow> vt_op E H fb vt_getplaneinfo;
          (ret, info, d) \<leftarrow> f (uint (cd_plane fb)) (hw_of s);
          if info \<noteq> None then None else Some (ret, None, set_hw d s)
        }
      | FBIOGET_CMAP \<Rightarrow> var_ioctl E H fb getcmap arg s
      | FBIOPUT_CMAP \<Rightarrow> var_ioctl E H fb putcmap arg s
      | FBIO_SELECT_OVERLAY \<Rightarrow> do {
          f \<leftarrow> vt_op E H fb getoverlayinfo;
          (ret, info, d) \<leftarrow> f (sint arg) (hw_of s);
          let s = set_hw d s;
          if ret = 0 then do {
            oi \<leftarrow> info;
            Some (ret, None, s\<lparr>chardevs := (chardevs s)(fm_data fm \<mapsto>
              fb\<lparr>cd_fbmem := oi_fbmem oi, cd_fblen := oi_fblen oi, cd_bpp := oi_bpp oi\<rparr>)\<rparr>)
          } else Some (ret, None, s)
        }
      | FBIOGET_OVERLAYINFO \<Rightarrow> do {
          f \<leftarrow> vt_op E H fb getoverlayinfo;
          n \<leftarrow> overlay_at H arg;
          (ret, info, d) \<leftarrow> f (uint n) (hw_of s);
          if info \<noteq> None then None else Some (ret, None, set_hw d s)
        }
      | FBIOSET_TRANSP \<Rightarrow> var_ioctl E H fb settransp arg s
      | FBIOSET_CHROMAKEY \<Rightarrow> var_ioctl E H fb setchromakey arg s
      | FBIOSET_COLOR \<Rightarrow> var_ioctl E H fb setcolor arg s
      | FBIOSET_BLANK \<Rightarrow> var_ioctl E H fb setblank arg s
      | FBIOSET_AREA \<Rightarrow> var_ioctl E H fb setarea arg s
      | FBIOSET_BLIT \<Rightarrow> var_ioctl E H fb vt_blit arg s
      | FBIOSET_BLEND \<Rightarrow> var_ioctl E H fb vt_blend arg s
      | FB_OTHER_CMD c \<Rightarrow> do {
          f \<leftarrow> vt_op E H fb vt_fb_ioctl;
          (ret, d) \<leftarrow> f c arg (hw_of s);
          Some (ret, None, set_hw d s)
        })
   }"

text \<open>\<open>getplaneinfo\<close>: the status, which is always 0, and whether \<open>*result\<close> was set; what it is set to is
  the address of a local variable, whose life ends with the call.\<close>

definition getplaneinfo :: "'h fb_hw \<Rightarrow> u32 \<Rightarrow> 'h fb_sys \<Rightarrow> (int \<times> bool \<times> 'h fb_sys) option" where
  "getplaneinfo H fbmem s = do {
     fm \<leftarrow> fbmems (fb_reg s) fbmem;
     fb \<leftarrow> chardevs s (fm_data fm);
     vt \<leftarrow> vtable_at H (cd_vtable fb);
     f \<leftarrow> vt_getplaneinfo vt;
     (ret, _, d) \<leftarrow> f (uint (cd_plane fb)) (hw_of s);
     Some (0, ret = 0, set_hw d s)
   }"

subsection \<open>Registering a display\<close>

text \<open>\<open>sprintf_s\<close> of \<open>/dev/fb%d\<close> and \<open>/dev/fb%d.%d\<close> into 16 bytes; a text that does not fit leaves the
  empty string.\<close>

fun dec :: "nat \<Rightarrow> cstring" where
  "dec n = (if n < 10 then [of_nat (48 + n)] else dec (n div 10) @ [of_nat (48 + n mod 10)])"

declare dec.simps [simp del]

definition dec_int :: "int \<Rightarrow> cstring" where
  "dec_int i = (if i < 0 then 45 # dec (nat (- i)) else dec (nat i))"

definition fits16 :: "cstring \<Rightarrow> cstring" where
  "fits16 s = (if length s < 16 then s else [])"

definition dev_fb :: cstring where "dev_fb = [47, 100, 101, 118, 47, 102, 98]"   \<comment> \<open>\<open>/dev/fb\<close>\<close>

definition devname1 :: "int \<Rightarrow> cstring" where
  "devname1 display = fits16 (dev_fb @ dec_int display)"

definition devname2 :: "int \<Rightarrow> int \<Rightarrow> cstring" where
  "devname2 display plane = fits16 (dev_fb @ dec_int display @ [46] @ dec_int plane)"

text \<open>The label \<open>errout_with_fb\<close>.\<close>

definition errout_with_fb :: "u32 \<Rightarrow> int \<Rightarrow> 'h fb_sys \<Rightarrow> int \<times> 'h fb_sys" where
  "errout_with_fb fb ret s = (ret, set_hist (kproc c_free [fb] (fb_hist s)) (s\<lparr>chardevs := (chardevs s)(fb := None)\<rparr>))"

text \<open>The end of \<open>fb_register\<close>, from the registration of the name on, and before it the first overlay, which is cleared
  but not selected.\<close>

definition register_fb ::
  "env \<Rightarrow> reg_consts \<Rightarrow> int \<Rightarrow> int \<Rightarrow> u8 \<Rightarrow> u32 \<Rightarrow> 'h fb_sys \<Rightarrow> (int \<times> 'h fb_sys) option" where
  "register_fb E K display plane nplanes fb s = do {
     let devname = (if nplanes < 2 then devname1 display else devname2 display plane);
     (ret, r) \<leftarrow> register_driver E K (Some devname) fb (fb_reg s);
     let s = s\<lparr>fb_reg := r\<rparr>;
     if ret < 0 then Some (errout_with_fb fb ret s) else do {
       devs \<leftarrow> aset (g_fb_dev s) (nat display) fb;
       Some (0, s\<lparr>g_fb_dev := devs\<rparr>)
     }
   }"

definition clear_overlay ::
  "env \<Rightarrow> reg_consts \<Rightarrow> 'h fb_vtable_s \<Rightarrow> int \<Rightarrow> int \<Rightarrow> u8 \<Rightarrow> u32 \<Rightarrow> 'h fb_sys \<Rightarrow> (int \<times> 'h fb_sys) option" where
  "clear_overlay E K vt display plane nplanes fb s = do {
     h \<leftarrow> (if LOS_ASSERT E (getoverlayinfo vt \<noteq> None) then getoverlayinfo vt else None);
     (ret, oinfo, d) \<leftarrow> h 0 (hw_of s);
     let s = set_hw d s;
     if ret < 0 then Some (errout_with_fb fb ret s) else do {
       oi \<leftarrow> oinfo;
       register_fb E K display plane nplanes fb (set_hist (kproc c_memset [oi_fbmem oi, 0, oi_fblen oi] (fb_hist s)) s)
     }
   }"

definition fb_register ::
  "env \<Rightarrow> reg_consts \<Rightarrow> 'h fb_hw \<Rightarrow> int \<Rightarrow> int \<Rightarrow> 'h fb_sys \<Rightarrow> (int \<times> 'h fb_sys) option" where
  "fb_register E K H display plane s =
     (if display < 0 \<or> display \<ge> FB_DEV_MAXNUM then Some (- EINVAL, s) else
      let (fb, t) = kcall E c_malloc [SIZEOF_fb_chardev H] (fb_hist s);
          s = set_hist t s
      in if fb = 0 then Some (- ENOMEM, s) else do {
        (ret, d) \<leftarrow> up_fbinitialize_hw H display (hw_of s);
        let s = set_hw d s;
        if ret < 0 then Some (errout_with_fb fb ret s) else
        if \<not> LOS_ASSERT E (uint (of_int plane :: u32) \<le> 255) then None else do {
          (vtp, d) \<leftarrow> up_fbgetvplane H display plane (hw_of s);
          let s = set_hw d s;
          if vtp = 0 then Some (errout_with_fb fb ret s) else do {
            vt \<leftarrow> vtable_at H vtp;
            f \<leftarrow> (if LOS_ASSERT E (getvideoinfo vt \<noteq> None) then getvideoinfo vt else None);
            (ret, vinfo, d) \<leftarrow> f (hw_of s);
            let s = set_hw d s;
            if ret < 0 then Some (errout_with_fb fb ret s) else do {
              vi \<leftarrow> vinfo;
              let nplanes = vi_nplanes vi;
              if \<not> LOS_ASSERT E (nplanes > 0 \<and> uint (of_int plane :: u32) < uint nplanes) then None else do {
                g \<leftarrow> (if LOS_ASSERT E (vt_getplaneinfo vt \<noteq> None) then vt_getplaneinfo vt else None);
                (ret, pinfo, d) \<leftarrow> g plane (hw_of s);
                let s = set_hw d s;
                if ret < 0 then Some (errout_with_fb fb ret s) else do {
                  pinf \<leftarrow> pinfo;
                  let s = s\<lparr>chardevs := (chardevs s)(fb \<mapsto> \<lparr>cd_vtable = vtp, cd_fbmem = pi_fbmem pinf, cd_fblen = pi_fblen pinf,
                              cd_plane = of_int plane, cd_bpp = pi_bpp pinf\<rparr>)\<rparr>;
                  let s = set_hist (kproc c_memset [pi_fbmem pinf, 0, pi_fblen pinf] (fb_hist s)) s;
                  clear_overlay E K vt display plane nplanes fb s
                }
              }
            }
          }
        }
      })"

definition fb_unregister :: "env \<Rightarrow> 'h fb_hw \<Rightarrow> int \<Rightarrow> 'h fb_sys \<Rightarrow> (int \<times> 'h fb_sys) option" where
  "fb_unregister E H display s =
     (if display < 0 \<or> display \<ge> FB_DEV_MAXNUM then Some (- EINVAL, s) else do {
        (_, r) \<leftarrow> unregister_driver E (Some (devname1 display)) (fb_reg s);
        let s = s\<lparr>fb_reg := r\<rparr>;
        d \<leftarrow> up_fbuninitialize_hw H display (hw_of s);
        let s = set_hw d s;
        fb \<leftarrow> aget (g_fb_dev s) (nat display);
        let s = set_hist (kproc c_free [fb] (fb_hist s)) (s\<lparr>chardevs := (chardevs s)(fb := None)\<rparr>);
        devs \<leftarrow> aset (g_fb_dev s) (nat display) 0;
        Some (0, s\<lparr>g_fb_dev := devs\<rparr>)
      })"

subsection \<open>Device names\<close>

lemma digit_nonzero: "k < 10 \<Longrightarrow> (of_nat (48 + k) :: u8) \<noteq> 0"
proof
  assume k: "k < 10" and z: "(of_nat (48 + k) :: u8) = 0"
  have "unat (of_nat (48 + k) :: u8) = 48 + k"
    using k by (simp only: unat_of_nat) (simp add: take_bit_nat_eq_self)
  then show False using z by simp
qed

lemma dec_nonzero: "0 \<notin> set (dec n)"
proof (induction n rule: dec.induct)
  case (1 n)
  have "n mod 10 < 10" by simp
  then show ?case
    using 1 digit_nonzero [of n] digit_nonzero [of "n mod 10"] by (subst dec.simps) (auto simp del: of_nat_add)
qed

lemma dec_length: "n < 1000 \<Longrightarrow> length (dec n) \<le> 3" "n < 100 \<Longrightarrow> length (dec n) \<le> 2"
proof -
  have 1: "length (dec n) = 1" if "n < 10" for n using that by (subst dec.simps) simp
  have 2: "length (dec n) \<le> 2" if "n < 100" for n
    using 1 [of "n div 10"] 1 [of n] that by (cases "n < 10") (simp, subst dec.simps, simp)
  show "n < 100 \<Longrightarrow> length (dec n) \<le> 2" by (rule 2)
  show "length (dec n) \<le> 3" if "n < 1000"
    using 2 [of "n div 10"] 1 [of n] that by (cases "n < 10") (simp, subst dec.simps, simp)
qed

lemma devname_fits:
  assumes "0 \<le> display" "display < 32" "0 \<le> plane" "plane < 256"
  shows "devname1 display = dev_fb @ dec_int display" "devname2 display plane = dev_fb @ dec_int display @ [46] @ dec_int plane"
    and "devname1 display \<noteq> devname2 display plane"
proof -
  have "length (dec (nat display)) \<le> 2" using assms(2) by (intro dec_length) simp
  moreover have "length (dec (nat plane)) \<le> 3" using assms(4) by (intro dec_length) simp
  ultimately show a: "devname1 display = dev_fb @ dec_int display" "devname2 display plane = dev_fb @ dec_int display @ [46] @ dec_int plane"
    using assms by (simp_all add: devname1_def devname2_def fits16_def dev_fb_def dec_int_def)
  then show "devname1 display \<noteq> devname2 display plane" by simp
qed

lemma devname_is_name: "is_name (devname1 display)" "is_name (devname2 display plane)"
  using dec_nonzero by (auto simp: is_name_def devname1_def devname2_def fits16_def dev_fb_def dec_int_def split: if_splits)

subsection \<open>Opening by name\<close>

lemma reg_inv_hist:
  "live E t = live E (reg_hist r) \<Longrightarrow> reg_inv E K cap n (r\<lparr>reg_hist := t\<rparr>) = reg_inv E K cap n r"
  by (simp add: reg_inv_def)

lemma FbMemLookup_drivers:
  assumes "reg_ok r"
  shows "drivers r key = None \<Longrightarrow> FbMemLookup E K key 0 r = Some (- ENXIO, None, r)"
    and "drivers r key = Some d \<Longrightarrow> \<exists>a fm. FbMemLookup E K key 0 r = Some (0, Some a, r) \<and> fbmems r a = Some fm \<and> fm_data fm = d"
proof -
  show "FbMemLookup E K key 0 r = Some (- ENXIO, None, r)" if "drivers r key = None"
    by (rule lookup_cases [OF assms, of key]) (use that drivers_None_iff [OF assms] in \<open>auto simp: FbMemLookup_def\<close>)
  show "\<exists>a fm. FbMemLookup E K key 0 r = Some (0, Some a, r) \<and> fbmems r a = Some fm \<and> fm_data fm = d" if d: "drivers r key = Some d"
  proof (rule lookup_cases [OF assms, of key])
    assume "\<forall>e \<in> set (entries r). kc_name e \<noteq> key"
    then show ?thesis using d drivers_absent [OF assms] by simp
  next
    fix e assume l: "KeyCacheLookup key (length key) r = Some (Some (kc_fbmem e))" "e \<in> set (entries r)" "kc_name e = key"
    then show ?thesis using d drivers_present [OF assms l(2)] by (cases "fbmems r (kc_fbmem e)") (auto simp: FbMemLookup_def)
  qed
qed

lemma fb_open_unknown:
  assumes "reg_ok (fb_reg s)" and "is_name key" and "drivers (fb_reg s) key = None"
  shows "\<exists>s'. fb_open E K H (Some key) s = Some (- ENXIO, None, s')"
  using assms FbMemLookup_drivers(1) [of "(fb_reg s)\<lparr>reg_hist := t\<rparr>" key E K for t]
  by (auto simp: fb_open_def alloc_eq is_name_def)

lemma fb_open_known:
  assumes "reg_ok (fb_reg s)" and "is_name key" and "drivers (fb_reg s) key = Some d" and "d \<noteq> 0"
  shows "chardevs s d = None \<Longrightarrow> fb_open E K H (Some key) s = None"
    and "chardevs s d = Some fb \<Longrightarrow> cd_vtable fb \<noteq> 0 \<Longrightarrow> vtable_at H (cd_vtable fb) = Some vt \<Longrightarrow> vt_fb_open vt = Some f \<Longrightarrow>
      (\<And>t. \<exists>d. f (fb_hwst s, t) = Some (0, d)) \<Longrightarrow> \<exists>a s'. fb_open E K H (Some key) s = Some (0, Some a, s')"
proof -
  let ?r = "(fb_reg s)\<lparr>reg_hist := Call LOS_MuxPend [vnodeMux (fb_reg s)] # reg_hist (fb_reg s)\<rparr>"
  obtain a fm where l: "FbMemLookup E K key 0 ?r = Some (0, Some a, ?r)" "fbmems (fb_reg s) a = Some fm" "fm_data fm = d"
    using FbMemLookup_drivers(2) [of ?r key d E K] assms(1,3) by auto
  show "chardevs s d = None \<Longrightarrow> fb_open E K H (Some key) s = None"
    using l assms(2,4) by (simp add: fb_open_def alloc_eq is_name_def)
  show "\<exists>a s'. fb_open E K H (Some key) s = Some (0, Some a, s')"
    if c: "chardevs s d = Some fb" "cd_vtable fb \<noteq> 0" "vtable_at H (cd_vtable fb) = Some vt" "vt_fb_open vt = Some f"
      and o: "\<And>t. \<exists>d. f (fb_hwst s, t) = Some (0, d)"
  proof -
    define t1 where "t1 = Call LOS_MuxPost [vnodeMux (fb_reg s)] # Call LOS_MuxPend [vnodeMux (fb_reg s)] # reg_hist (fb_reg s)"
    obtain d' where "f (fb_hwst s, t1) = Some (0, d')" using o by blast
    then show ?thesis
      using l assms(2,4) c by (simp add: fb_open_def alloc_eq is_name_def hw_of_def fb_hist_def t1_def)
  qed
qed

subsection \<open>A display from its registration to its end\<close>

lemma set_hist_simps [simp]:
  "fb_hist (set_hist t s) = t" "chardevs (set_hist t s) = chardevs s" "g_fb_dev (set_hist t s) = g_fb_dev s"
  "fb_reg (set_hist t s) = (fb_reg s)\<lparr>reg_hist := t\<rparr>" "set_hist t (set_hist t' s) = set_hist t s" "fb_hwst (set_hist t s) = fb_hwst s"
  "fb_hist (s\<lparr>chardevs := c\<rparr>) = fb_hist s" "fb_hist (s\<lparr>g_fb_dev := d\<rparr>) = fb_hist s" "fb_hist (s\<lparr>fb_hwst := h\<rparr>) = fb_hist s"
  by (simp_all add: set_hist_def fb_hist_def)

lemma set_hw_simps [simp]:
  "fb_hist (set_hw d s) = snd d" "fb_hwst (set_hw d s) = fst d" "chardevs (set_hw d s) = chardevs s" "g_fb_dev (set_hw d s) = g_fb_dev s"
  "fb_reg (set_hw d s) = (fb_reg s)\<lparr>reg_hist := snd d\<rparr>" "hw_of (set_hist t s) = (fb_hwst s, t)" "hw_of (set_hw d s) = d"
  "hw_of (s\<lparr>chardevs := c\<rparr>) = hw_of s" "set_hw d (set_hist t s) = set_hw d s" "set_hw d (set_hw d' s) = set_hw d s"
  by (simp_all add: set_hw_def hw_of_def set_hist_def fb_hist_def)

text \<open>What the hardware of a display promises to \<open>fb.c\<close>: from a state in \<open>P\<close> the initialisation succeeds, and then the queries
  give the information \<open>vi\<close>, \<open>pf\<close> and \<open>oi\<close>, among whose planes is \<open>plane\<close>, the device can be opened, and its end is defined.
  None of the operations touches the memory of the registry.\<close>

locale display_hw =
  fixes E :: env and H :: "'h fb_hw" and display plane :: int and vtp :: u32 and vt :: "'h fb_vtable_s"
    and P :: "'h \<Rightarrow> bool" and Q :: "fb_videoinfo_s \<Rightarrow> fb_planeinfo_s \<Rightarrow> fb_overlayinfo_s \<Rightarrow> 'h \<Rightarrow> bool"
  assumes table: "vtp \<noteq> 0" "vtable_at H vtp = Some vt"
    and planes: "Q vi pf oi h \<Longrightarrow> 0 \<le> plane \<and> plane < uint (vi_nplanes vi)"
    and init: "P h \<Longrightarrow> \<exists>h' t' vi pf oi. up_fbinitialize_hw H display (h, t) = Some (0, h', t') \<and> live E t' = live E t \<and> Q vi pf oi h'"
    and getvplane: "Q vi pf oi h \<Longrightarrow> \<exists>h' t'. up_fbgetvplane H display plane (h, t) = Some (vtp, h', t') \<and> live E t' = live E t \<and> Q vi pf oi h'"
    and videoinfo: "\<exists>f. getvideoinfo vt = Some f \<and>
      (\<forall>vi pf oi h t. Q vi pf oi h \<longrightarrow> (\<exists>h' t'. f (h, t) = Some (0, Some vi, h', t') \<and> live E t' = live E t \<and> Q vi pf oi h'))"
    and planeinfo: "\<exists>f. vt_getplaneinfo vt = Some f \<and>
      (\<forall>vi pf oi h t. Q vi pf oi h \<longrightarrow> (\<exists>h' t'. f plane (h, t) = Some (0, Some pf, h', t') \<and> live E t' = live E t \<and> Q vi pf oi h'))"
    and overlayinfo: "\<exists>f. getoverlayinfo vt = Some f \<and>
      (\<forall>vi pf oi h t. Q vi pf oi h \<longrightarrow> (\<exists>h' t'. f 0 (h, t) = Some (0, Some oi, h', t') \<and> live E t' = live E t \<and> Q vi pf oi h'))"
    and opens: "\<exists>f. vt_fb_open vt = Some f \<and> (\<forall>vi pf oi h t. Q vi pf oi h \<longrightarrow> (\<exists>d. f (h, t) = Some (0, d)))"
    and ends: "Q vi pf oi h \<Longrightarrow> \<exists>d. up_fbuninitialize_hw H display (h, t) = Some d"
begin

lemma registers:
  fixes name :: "fb_videoinfo_s \<Rightarrow> cstring"
  defines "name \<equiv> \<lambda>vi. if vi_nplanes vi < 2 then devname1 display else devname2 display plane"
  assumes inv: "reg_inv E K cap (Suc n) (fb_reg s)" and P: "P (fb_hwst s)"
    and d: "0 \<le> display" "display < 32" and devs: "length (g_fb_dev s) = 32"
    and fb: "fb = sys_ret E (fb_hist s) c_malloc [SIZEOF_fb_chardev H]" "fb \<noteq> 0" and as: "LOS_ASSERT E True"
    and new: "drivers (fb_reg s) (devname1 display) = None" "drivers (fb_reg s) (devname2 display plane) = None"
  shows "\<exists>s' vi pf oi. fb_register E K H display plane s = Some (0, s') \<and> Q vi pf oi (fb_hwst s') \<and> reg_inv E K cap n (fb_reg s') \<and>
    drivers (fb_reg s') = (drivers (fb_reg s))(name vi \<mapsto> fb) \<and> g_fb_dev s' = (g_fb_dev s)[nat display := fb] \<and>
    chardevs s' = (chardevs s)(fb \<mapsto> \<lparr>cd_vtable = vtp, cd_fbmem = pi_fbmem pf, cd_fblen = pi_fblen pf, cd_plane = of_int plane, cd_bpp = pi_bpp pf\<rparr>)"
proof -
  define t1 where "t1 = Call c_malloc [SIZEOF_fb_chardev H] # fb_hist s"
  obtain h2 t2 vi pf oi where 2: "up_fbinitialize_hw H display (fb_hwst s, t1) = Some (0, h2, t2)" "live E t2 = live E t1" "Q vi pf oi h2"
    using init [OF P] by blast
  obtain h3 t3 where 3: "up_fbgetvplane H display plane (h2, t2) = Some (vtp, h3, t3)" "live E t3 = live E t2" "Q vi pf oi h3"
    using getvplane [OF 2(3)] by blast
  obtain f h4 t4 where 4: "getvideoinfo vt = Some f" "f (h3, t3) = Some (0, Some vi, h4, t4)" "live E t4 = live E t3" "Q vi pf oi h4"
    using videoinfo 3(3) by blast
  obtain g h5 t5 where 5: "vt_getplaneinfo vt = Some g" "g plane (h4, t4) = Some (0, Some pf, h5, t5)" "live E t5 = live E t4" "Q vi pf oi h5"
    using planeinfo 4(4) by blast
  define t5' where "t5' = Call c_memset [pi_fbmem pf, 0, pi_fblen pf] # t5"
  obtain o' h6 t6 where 6: "getoverlayinfo vt = Some o'" "o' 0 (h5, t5') = Some (0, Some oi, h6, t6)" "live E t6 = live E t5'" "Q vi pf oi h6"
    using overlayinfo 5(4) by blast
  define t7 where "t7 = Call c_memset [oi_fbmem oi, 0, oi_fblen oi] # t6"
  have "uint (vi_nplanes vi) < 256" using unsigned_less [of "vi_nplanes vi"] by simp
  then have pl: "uint (of_int plane :: u32) = plane" "plane < 256" "0 \<le> plane" "plane < uint (vi_nplanes vi)"
    using planes [OF 2(3)] by (simp_all add: uint_word_of_int_eq take_bit_int_eq_self)
  have vi0: "vi_nplanes vi > 0" using pl by (simp add: word_less_def)
  define cd where "cd = \<lparr>cd_vtable = vtp, cd_fbmem = pi_fbmem pf, cd_fblen = pi_fblen pf, cd_plane = of_int plane, cd_bpp = pi_bpp pf\<rparr>"
  define s1 where "s1 = set_hw (h6, t7) s"
  have "live E t7 = live E (reg_hist (fb_reg s))"
    using 2(2) 3(2) 4(3) 5(3) 6(3) by (simp add: t7_def t5'_def t1_def fb_hist_def)
  then have "reg_inv E K cap (Suc n) (fb_reg s1)" using inv by (simp only: reg_inv_hist s1_def set_hw_simps snd_conv)
  moreover have "is_name (name vi)" by (simp add: name_def devname_is_name)
  moreover have "drivers (fb_reg s1) (name vi) = None" using new by (simp add: name_def s1_def)
  ultimately obtain r where r: "register_driver E K (Some (name vi)) fb (fb_reg s1) = Some (0, r)" "reg_inv E K cap n r"
    "drivers r = (drivers (fb_reg s1))(name vi \<mapsto> fb)"
    using register_absent [of E K cap n "fb_reg s1" "name vi" fb] by auto
  have k: "kcall E c_malloc [SIZEOF_fb_chardev H] (fb_hist s) = (fb, t1)" by (simp add: io_defs fb(1) t1_def)
  have nz: "fb \<noteq> 0" by (fact fb(2))
  have nm: "(if vi_nplanes vi < 2 then devname1 display else devname2 display plane) = name vi" by (simp add: name_def)
  let ?s = "s1\<lparr>fb_reg := r, chardevs := (chardevs s)(fb \<mapsto> cd), g_fb_dev := (g_fb_dev s)[nat display := fb]\<rparr>"
  have reg: "register_fb E K display plane (vi_nplanes vi) fb (s1\<lparr>chardevs := (chardevs s)(fb \<mapsto> cd)\<rparr>) = Some (0, ?s)"
    unfolding register_fb_def nm using r(1) d devs by (simp add: aset_def Let_def s1_def)
  have m5: "kproc c_memset [pi_fbmem pf, 0, pi_fblen pf] t5 = t5'" and m7: "kproc c_memset [oi_fbmem oi, 0, oi_fblen oi] t6 = t7"
    by (simp_all add: io_defs t5'_def t7_def)
  have s: "set_hist t7 (set_hw (h6, t6) ((set_hw (h5, t5) s)\<lparr>chardevs := (chardevs s)(fb \<mapsto> cd)\<rparr>)) =
      s1\<lparr>chardevs := (chardevs s)(fb \<mapsto> cd)\<rparr>"
    by (simp add: s1_def set_hw_def set_hist_def)
  have "clear_overlay E K vt display plane (vi_nplanes vi) fb (set_hist t5' ((set_hw (h5, t5) s)\<lparr>chardevs := (chardevs s)(fb \<mapsto> cd)\<rparr>)) = Some (0, ?s)"
    using 5 6 as by (simp add: clear_overlay_def m7 s reg Let_def)
  then have "fb_register E K H display plane s = Some (0, ?s)"
    using d as table 2(1) 3(1) 4(1,2) 5(1,2) pl vi0 nz
    by (simp add: fb_register_def k m5 cd_def Let_def)
  then show ?thesis using r 6(4) by (intro exI [of _ ?s] exI [of _ vi] exI [of _ pf] exI [of _ oi]) (simp add: cd_def s1_def)
qed

text \<open>The unregistration frees the device that is in the table of displays and takes the one-plane name out of
  the registry, whatever name the registration has used.\<close>

lemma unregisters:
  assumes inv: "reg_inv E K cap (Suc n) (fb_reg s)" and d: "0 \<le> display" "display < 32" and devs: "length (g_fb_dev s) = 32"
    and Q: "Q vi pf oi (fb_hwst s)"
  shows "\<exists>s' t. fb_unregister E H display s = Some (0, s') \<and> reg_ok (fb_reg s') \<and>
    drivers (fb_reg s') = (drivers (fb_reg s))(devname1 display := None) \<and> g_fb_dev s' = (g_fb_dev s)[nat display := 0] \<and>
    chardevs s' = (chardevs s)(g_fb_dev s ! nat display := None) \<and>
    up_fbuninitialize_hw H display (fb_hwst s, t) = Some (fb_hwst s', tl (fb_hist s')) \<and>
    fb_hist s' = Call c_free [g_fb_dev s ! nat display] # tl (fb_hist s')"
proof -
  obtain c r where r: "unregister_driver E (Some (devname1 display)) (fb_reg s) = Some (c, r)" "reg_inv E K cap n r"
    "drivers r = (drivers (fb_reg s))(devname1 display := None)"
  proof (cases "drivers (fb_reg s) (devname1 display)")
    case None
    then have "drivers (fb_reg s) = (drivers (fb_reg s))(devname1 display := None)" by auto
    then show ?thesis using unregister_absent [OF inv devname_is_name(1) None] that by auto
  next
    case (Some a)
    then show ?thesis using unregister_present [OF inv devname_is_name(1) [of display]] that by auto
  qed
  obtain h' t' where e: "up_fbuninitialize_hw H display (fb_hwst s, reg_hist r) = Some (h', t')"
    using ends [OF Q] by force
  have h: "hw_of (s\<lparr>fb_reg := r\<rparr>) = (fb_hwst s, reg_hist r)" by (simp add: hw_of_def fb_hist_def)
  let ?fb = "g_fb_dev s ! nat display"
  let ?s = "(set_hist (Call c_free [?fb] # t') (set_hw (h', t') (s\<lparr>fb_reg := r\<rparr>)\<lparr>chardevs := (chardevs s)(?fb := None)\<rparr>))
    \<lparr>g_fb_dev := (g_fb_dev s)[nat display := 0]\<rparr>"
  have "nat display < 32" using d by simp
  then have "fb_unregister E H display s = Some (0, ?s)"
    using d devs r(1) e by (simp add: fb_unregister_def aget_def aset_def Let_def h io_defs)
  moreover have "fb_hist ?s = Call c_free [?fb] # t'" by (simp add: fb_hist_def)
  ultimately show ?thesis using r(2,3) e
    by (intro exI [of _ ?s] exI [of _ "reg_hist r"]) (simp add: reg_inv_def)
qed

end


definition ex_fb_env :: env where
  "ex_fb_env = ex_reg_env\<lparr>sys_ret := \<lambda>t f xs. if f = c_malloc then 256 else sys_ret ex_reg_env t f xs\<rparr>"

text \<open>A display with \<open>n\<close> planes in one piece of memory.\<close>

definition ex_vinfo :: "u8 \<Rightarrow> fb_videoinfo_s" where
  "ex_vinfo n = \<lparr>vi_fmt = 12, vi_xres = 16, vi_yres = 16, vi_nplanes = n, vi_noverlays = 1\<rparr>"

definition ex_pinfo :: fb_planeinfo_s where
  "ex_pinfo = \<lparr>pi_fbmem = 4096, pi_fblen = 1024, pi_stride = 64, pi_display = 0, pi_bpp = 32\<rparr>"

definition ex_oinfo :: fb_overlayinfo_s where
  "ex_oinfo = \<lparr>oi_fbmem = 4096, oi_memphys = 4096, oi_fblen = 1024, oi_stride = 64, oi_overlay = 0, oi_bpp = 32, oi_blank = 0,
     oi_chromakey = 0, oi_color = 0, oi_transp = \<lparr>tp_transp = 0, transp_mode = 0\<rparr>, oi_sarea = \<lparr>ar_x = 0, ar_y = 0, ar_w = 16, ar_h = 16\<rparr>,
     oi_accl = 0\<rparr>"

definition ex_vtable :: "u8 \<Rightarrow> unit fb_vtable_s" where
  "ex_vtable n = \<lparr>getvideoinfo = Some (\<lambda>d. Some (0, Some (ex_vinfo n), d)),
     vt_getplaneinfo = Some (\<lambda>p d. Some (0, Some ex_pinfo, d)), getcmap = None, putcmap = None,
     getoverlayinfo = Some (\<lambda>p d. Some (0, Some ex_oinfo, d)), settransp = None, setchromakey = None, setcolor = None,
     setblank = None, setarea = None, vt_blit = None, vt_blend = None,
     vt_fb_open = Some (\<lambda>d. Some (0, d)), vt_fb_release = Some (\<lambda>d. Some (0, d)), vt_fb_ioctl = None\<rparr>"

definition ex_fb_hw :: "u8 \<Rightarrow> unit fb_hw" where
  "ex_fb_hw n = \<lparr>up_fbinitialize_hw = (\<lambda>_ d. Some (0, d)), up_fbgetvplane = (\<lambda>_ _ d. Some (512, d)), up_fbuninitialize_hw = (\<lambda>_ d. Some d),
     vtable_at = (\<lambda>a. if a = 512 then Some (ex_vtable n) else None), overlay_at = (\<lambda>a. None), SIZEOF_fb_chardev = 16\<rparr>"

definition ex_fb_sys :: "unit fb_sys" where
  "ex_fb_sys = \<lparr>fb_reg = snd (KeyCacheInit \<lparr>buckets = [], fbmems = (\<lambda>_. None), vnodeMux = 0, reg_hist = []\<rparr>),
     chardevs = (\<lambda>_. None), g_fb_dev = replicate 32 0, fb_hwst = ()\<rparr>"

lemma ex_fb_heap: "heap_ok ex_fb_env 6"
proof -
  have "live ex_fb_env t = live ex_reg_env t" for t
    by (induction t) (auto simp: ex_fb_env_def split: event.split syscall.split libc_fn.split list.split)
  then show ?thesis using ex_heap_ok by (simp add: heap_ok_def ex_fb_env_def)
qed

lemma ex_display: "0 \<le> p \<Longrightarrow> p < uint n \<Longrightarrow>
    display_hw E (ex_fb_hw n) 0 p 512 (ex_vtable n) (\<lambda>_. True) (\<lambda>vi pf oi _. vi = ex_vinfo n \<and> pf = ex_pinfo \<and> oi = ex_oinfo)"
  by unfold_locales (auto simp: ex_fb_hw_def ex_vtable_def ex_vinfo_def)


end
