(* ===== verification/Mmz.thy ===== *)
theory Mmz
  imports Prelude "HOL-Library.Multiset"
begin

text \<open>
  The device of physically contiguous memory, \<open>drivers/char/mmz/mmz.c\<close>: a process allocates contiguous pages or maps given ones into
  its address space and passes the addresses in a \<open>MmzMemory\<close>. The virtual memory of the kernel is
  outside: its regions, its page structs and its page tables answer through the environment, and what the driver asks of them
  is the history. \<open>page_maps\<close> and \<open>regions\<close> read off it the pages that were mapped and the regions the driver holds.
\<close>

subsection \<open>Data\<close>

text \<open>The struct in the caller's memory, by reference. Addresses have 32 bits; \<open>size\<close> is an \<open>int32_t\<close>.\<close>

record MmzMemory =
  mz_vaddr :: u32
  mz_paddr :: u64
  mz_size :: u32

text \<open>The kernel's part: the process, what \<open>LOS_RegionAlloc\<close> put into a region, the flags, the rounding macro and the
  encoding of \<open>ioctl\<close> numbers.\<close>

record mmz_kernel =
  curVmSpace :: u32
  range_base :: "u32 \<Rightarrow> u32"
  regionFlags :: "u32 \<Rightarrow> u32"
  ROUNDUP :: "u32 \<Rightarrow> u32 \<Rightarrow> u32"
  FLAG_PERM_USER :: u32
  FLAG_PERM_READ :: u32
  FLAG_PERM_WRITE :: u32
  FLAG_CACHED :: u32
  FLAG_UNCACHED :: u32
  IOR :: "nat \<Rightarrow> int"

abbreviation (input) MMZ_PAGE_SIZE :: u32 where "MMZ_PAGE_SIZE \<equiv> 0x1000"
abbreviation (input) MMZ_PAGE_SHIFT :: nat where "MMZ_PAGE_SHIFT \<equiv> 12"
abbreviation (input) EINVAL :: int where "EINVAL \<equiv> 22"
abbreviation (input) ENOMEM :: int where "ENOMEM \<equiv> 12"

text \<open>\<open>MMZ_TYPE\<close> and the commands made of it.\<close>

abbreviation "MMZ_CACHE_TYPE M \<equiv> IOR M 1"
abbreviation "MMZ_NOCACHE_TYPE M \<equiv> IOR M 2"
abbreviation "MMZ_FREE_TYPE M \<equiv> IOR M 3"
abbreviation "MMZ_MAP_CACHE_TYPE M \<equiv> IOR M 4"
abbreviation "MMZ_MAP_NOCACHE_TYPE M \<equiv> IOR M 5"
abbreviation "MMZ_UNMAP_TYPE M \<equiv> IOR M 6"
abbreviation "MMZ_FLUSH_CACHE_TYPE M \<equiv> IOR M 7"
abbreviation "MMZ_FLUSH_NOCACHE_TYPE M \<equiv> IOR M 8"
abbreviation "MMZ_INVALIDATE_TYPE M \<equiv> IOR M 9"

subsection \<open>Mapping page by page\<close>

text \<open>The loop of \<open>MmzAlloc\<close> and of \<open>MmzMap\<close>: the early return if there is one, and the last status.\<close>

partial_function (option) map_pages ::
  "env \<Rightarrow> mmz_kernel \<Rightarrow> u32 \<Rightarrow> u32 \<Rightarrow> u32 \<Rightarrow> u32 \<Rightarrow> u32 \<Rightarrow> int \<Rightarrow> trace \<Rightarrow> (int option \<times> int \<times> trace) option" where
  "map_pages E M flags region vaddr paddr sz status t =
     (if sz = 0 then Some (None, status, t)
      else let (vmPage, t) = kcall E LOS_VmPageGet [paddr] t in
        if vmPage = 0 then Some (Some (- EINVAL), status, kproc LOS_RegionFree [curVmSpace M, region] t)
        else let t = kproc LOS_AtomicInc [vmPage] t;
                 (r, t) = kcall E LOS_ArchMmuMap [curVmSpace M, vaddr, paddr, 1, flags] t
             in if sint r \<le> 0 then Some (Some (sint r), sint r, kproc LOS_RegionFree [curVmSpace M, region] t)
                else map_pages E M flags region (vaddr + MMZ_PAGE_SIZE) (paddr + MMZ_PAGE_SIZE) (sz - MMZ_PAGE_SIZE) (sint r) t)"

definition rw_flags :: "mmz_kernel \<Rightarrow> u32" where
  "rw_flags M = FLAG_PERM_USER M OR FLAG_PERM_READ M OR FLAG_PERM_WRITE M"

text \<open>The \<open>switch\<close> on the command, in both functions.\<close>

definition cache_flags :: "mmz_kernel \<Rightarrow> int \<Rightarrow> int \<Rightarrow> int \<Rightarrow> u32 option" where
  "cache_flags M cached uncached cmd =
     (if cmd = cached then Some (rw_flags M OR FLAG_CACHED M)
      else if cmd = uncached then Some (rw_flags M OR FLAG_UNCACHED M) else None)"

definition MmzAlloc :: "env \<Rightarrow> mmz_kernel \<Rightarrow> int \<Rightarrow> MmzMemory \<Rightarrow> trace \<Rightarrow> (int \<times> MmzMemory \<times> trace) option" where
  "MmzAlloc E M cmd mmzm t =
     (let sz = ROUNDUP M (mz_size mmzm) MMZ_PAGE_SIZE in
      case cache_flags M (MMZ_CACHE_TYPE M) (MMZ_NOCACHE_TYPE M) cmd of None \<Rightarrow> Some (- EINVAL, mmzm, t)
      | Some vmFlags \<Rightarrow>
          let (vmRegion, t) = kcall E LOS_RegionAlloc [curVmSpace M, 0, sz, vmFlags, 0] t in
          if vmRegion = 0 then Some (- ENOMEM, mmzm, t) else
          let (kvaddr, t) = kcall E LOS_PhysPagesAlloc [drop_bit MMZ_PAGE_SHIFT sz] t in
          if kvaddr = 0 then Some (- ENOMEM, mmzm, kproc LOS_RegionFree [curVmSpace M, vmRegion] t) else do {
            let (paddr, t) = kcall E LOS_PaddrQuery [kvaddr] t;
            let mmzm = mmzm\<lparr>mz_paddr := ucast paddr\<rparr>;
            (early, _, t) \<leftarrow> map_pages E M vmFlags vmRegion (range_base M vmRegion) paddr sz 0 t;
            Some (case early of Some status \<Rightarrow> (status, mmzm, t)
                  | None \<Rightarrow> (0, mmzm\<lparr>mz_vaddr := range_base M vmRegion\<rparr>, t))
          })"

definition MmzMap :: "env \<Rightarrow> mmz_kernel \<Rightarrow> int \<Rightarrow> MmzMemory \<Rightarrow> trace \<Rightarrow> (int \<times> MmzMemory \<times> trace) option" where
  "MmzMap E M cmd mmzm t =
     (let paddr = ucast (mz_paddr mmzm); sz = ROUNDUP M (mz_size mmzm) MMZ_PAGE_SIZE in
      case cache_flags M (MMZ_MAP_CACHE_TYPE M) (MMZ_MAP_NOCACHE_TYPE M) cmd of None \<Rightarrow> Some (- EINVAL, mmzm, t)
      | Some vmFlags \<Rightarrow>
          let (vmRegion, t) = kcall E LOS_RegionAlloc [curVmSpace M, 0, sz, vmFlags, 0] t in
          if vmRegion = 0 then Some (- ENOMEM, mmzm, t) else do {
            let mmzm = mmzm\<lparr>mz_vaddr := range_base M vmRegion\<rparr>;
            (early, status, t) \<leftarrow> map_pages E M (regionFlags M vmRegion) vmRegion (range_base M vmRegion) paddr sz 0 t;
            Some (case early of Some status \<Rightarrow> (status, mmzm, t) | None \<Rightarrow> (status, mmzm, t))
          })"

definition MmzUnMap :: "env \<Rightarrow> mmz_kernel \<Rightarrow> MmzMemory \<Rightarrow> trace \<Rightarrow> int \<times> trace" where
  "MmzUnMap E M mmzm t = (let (r, t) = kcall E OsUnMMap [curVmSpace M, mz_vaddr mmzm, mz_size mmzm] t in (sint r, t))"

definition MmzFree :: "env \<Rightarrow> mmz_kernel \<Rightarrow> MmzMemory \<Rightarrow> trace \<Rightarrow> int \<times> trace" where
  "MmzFree E M mmzm t =
     (let done = (\<lambda>(ret :: int, t). (ret, kproc LOS_MuxRelease [curVmSpace M] t));
          t = kproc LOS_MuxAcquire [curVmSpace M] t;
          (pa, t) = kcall E LOS_PaddrQuery [mz_vaddr mmzm] t
      in if ucast (mz_paddr mmzm) \<noteq> pa then done (- EINVAL, t) else
      let (region, t) = kcall E LOS_RegionFind [curVmSpace M, mz_vaddr mmzm] t
      in if region = 0 then done (- EINVAL, t) else
      let (ret, t) = kcall E LOS_RegionFree [curVmSpace M, region] t
      in if ret \<noteq> 0 then done (- EINVAL, t) else done (0, t))"

definition MmzFlush :: "MmzMemory \<Rightarrow> trace \<Rightarrow> int \<times> trace" where
  "MmzFlush mmzm t = (0, kproc DCacheFlushRange [mz_vaddr mmzm, mz_vaddr mmzm + mz_size mmzm] t)"

definition MmzInvalidate :: "MmzMemory \<Rightarrow> trace \<Rightarrow> int \<times> trace" where
  "MmzInvalidate mmzm t = (0, kproc DCacheInvRange [mz_vaddr mmzm, mz_vaddr mmzm + mz_size mmzm] t)"

definition MmzIoctl :: "env \<Rightarrow> mmz_kernel \<Rightarrow> int \<Rightarrow> MmzMemory \<Rightarrow> trace \<Rightarrow> (int \<times> MmzMemory \<times> trace) option" where
  "MmzIoctl E M cmd arg t =
     (if cmd = MMZ_CACHE_TYPE M \<or> cmd = MMZ_NOCACHE_TYPE M then MmzAlloc E M cmd arg t
      else if cmd = MMZ_FREE_TYPE M then (let (r, t) = MmzFree E M arg t in Some (r, arg, t))
      else if cmd = MMZ_MAP_CACHE_TYPE M \<or> cmd = MMZ_MAP_NOCACHE_TYPE M then MmzMap E M cmd arg t
      else if cmd = MMZ_UNMAP_TYPE M then (let (r, t) = MmzUnMap E M arg t in Some (r, arg, t))
      else if cmd = MMZ_FLUSH_CACHE_TYPE M \<or> cmd = MMZ_FLUSH_NOCACHE_TYPE M then (let (r, t) = MmzFlush arg t in Some (r, arg, t))
      else if cmd = MMZ_INVALIDATE_TYPE M then (let (r, t) = MmzInvalidate arg t in Some (r, arg, t))
      else Some (- EINVAL, arg, t))"

text \<open>The registration under \<open>/dev/mmz\<close> with mode 0666; name and table of operations are fixed.\<close>

definition DevMmzRegister :: "env \<Rightarrow> trace \<Rightarrow> int \<times> trace" where
  "DevMmzRegister E t = (let (r, t) = kcall E vfs_register_driver [0x1B6, 0] t in (sint r, t))"

definition MmzOpen :: "int" where "MmzOpen = 0"

definition MmzClose :: "int" where "MmzClose = 0"

subsection \<open>What the history shows\<close>

text \<open>The pages that were mapped, in order: address, physical address, flags. A call that mapped nothing does not count.\<close>

fun page_maps :: "env \<Rightarrow> trace \<Rightarrow> (u32 \<times> u32 \<times> u32) list" where
  "page_maps E [] = []"
| "page_maps E (Call f xs # t) = page_maps E t @
     (if f = LOS_ArchMmuMap \<and> 0 < sint (sys_ret E t f xs) then [(xs ! 1, xs ! 2, xs ! 4)] else [])"
| "page_maps E (_ # t) = page_maps E t"

text \<open>The regions that were allocated and not freed.\<close>

fun regions :: "env \<Rightarrow> trace \<Rightarrow> u32 multiset" where
  "regions E [] = {#}"
| "regions E (Call f xs # t) =
     (if f = LOS_RegionAlloc \<and> sys_ret E t f xs \<noteq> 0 then add_mset (sys_ret E t f xs) (regions E t)
      else if f = LOS_RegionFree then regions E t - {#xs ! 1#} else regions E t)"
| "regions E (_ # t) = regions E t"

text \<open>The mapping of \<open>n\<close> pages from \<open>v\<close> to \<open>p\<close>.\<close>

definition page_run :: "u32 \<Rightarrow> u32 \<Rightarrow> u32 \<Rightarrow> nat \<Rightarrow> (u32 \<times> u32 \<times> u32) list" where
  "page_run flags v p n = map (\<lambda>i. (v + of_nat i * MMZ_PAGE_SIZE, p + of_nat i * MMZ_PAGE_SIZE, flags)) [0..<n]"

lemma page_run_0 [simp]: "page_run flags v p 0 = []"
  by (simp add: page_run_def)

lemma page_run_Suc: "page_run flags v p (Suc n) = (v, p, flags) # page_run flags (v + MMZ_PAGE_SIZE) (p + MMZ_PAGE_SIZE) n"
  by (simp only: page_run_def upt_rec [of 0 "Suc n"] map_Suc_upt [symmetric])
    (simp add: algebra_simps)

text \<open>The loop ends for a size in pages. Either every page was mapped and the last status is positive, or the region was
  freed and the caller gets a negative or null status.\<close>

lemma map_pages_outcome:
  assumes "unat sz = n * 4096" and "region \<in># regions E t"
  shows "\<exists>early s t' k. map_pages E M flags region v p sz s0 t = Some (early, s, t') \<and>
    page_maps E t' = page_maps E t @ page_run flags v p k \<and>
    calls_of LOS_PhysPagesFree t' = calls_of LOS_PhysPagesFree t \<and>
    (case early of None \<Rightarrow> k = n \<and> regions E t' = regions E t \<and> (if n = 0 then s = s0 else 0 < s)
     | Some r \<Rightarrow> k < n \<and> r \<le> 0 \<and> regions E t' = regions E t - {#region#})"
  using assms
proof (induction n arbitrary: sz v p s0 t)
  case 0
  then have "sz = 0" by (simp add: unat_eq_zero)
  then show ?case
    by (subst map_pages.simps) (simp add: exI [of _ 0])
next
  case (Suc n)
  have nz: "sz \<noteq> 0" using Suc.prems(1) by auto
  have sub: "unat (sz - MMZ_PAGE_SIZE) = n * 4096"
    using Suc.prems(1) by (subst unat_sub) (simp_all add: word_le_nat_alt)
  define t1 where "t1 = Call LOS_VmPageGet [p] # t"
  define pg where "pg = sys_ret E t LOS_VmPageGet [p]"
  define t2 where "t2 = Call LOS_AtomicInc [pg] # t1"
  define a where "a = [curVmSpace M, v, p, 1, flags]"
  define t3 where "t3 = Call LOS_ArchMmuMap a # t2"
  define r where "r = sys_ret E t2 LOS_ArchMmuMap a"
  note defs = t1_def t2_def t3_def
  show ?case
  proof (cases "pg = 0")
    case True
    then have "map_pages E M flags region v p sz s0 t =
        Some (Some (- EINVAL), s0, Call LOS_RegionFree [curVmSpace M, region] # t1)"
      by (subst map_pages.simps) (simp add: nz io_defs Let_def pg_def t1_def)
    then show ?thesis
      by (simp add: t1_def exI [of _ 0])
  next
    case ne: False
    have step: "map_pages E M flags region v p sz s0 t =
        (if sint r \<le> 0 then Some (Some (sint r), sint r, Call LOS_RegionFree [curVmSpace M, region] # t3)
         else map_pages E M flags region (v + MMZ_PAGE_SIZE) (p + MMZ_PAGE_SIZE) (sz - MMZ_PAGE_SIZE) (sint r) t3)"
      using ne by (subst map_pages.simps) (simp add: nz io_defs Let_def pg_def r_def a_def defs)
    show ?thesis
    proof (cases "sint r \<le> 0")
      case True
      then show ?thesis
        by (simp add: step) (simp add: defs r_def [symmetric, unfolded defs] exI [of _ 0])
    next
      case False
      have ph3: "calls_of LOS_PhysPagesFree t3 = calls_of LOS_PhysPagesFree t" by (simp add: defs)
      have maps: "page_maps E t3 = page_maps E t @ [(v, p, flags)]" and regs: "regions E t3 = regions E t"
        using False by (simp_all add: defs r_def a_def)
      have "region \<in># regions E t3" using Suc.prems(2) regs by simp
      from Suc.IH [OF sub this, of "v + MMZ_PAGE_SIZE" "p + MMZ_PAGE_SIZE" "sint r"]
      obtain early s t' k where m: "map_pages E M flags region (v + MMZ_PAGE_SIZE) (p + MMZ_PAGE_SIZE)
            (sz - MMZ_PAGE_SIZE) (sint r) t3 = Some (early, s, t')"
        and pm: "page_maps E t' = page_maps E t3 @ page_run flags (v + MMZ_PAGE_SIZE) (p + MMZ_PAGE_SIZE) k"
        and ph: "calls_of LOS_PhysPagesFree t' = calls_of LOS_PhysPagesFree t3"
        and c: "case early of None \<Rightarrow> k = n \<and> regions E t' = regions E t3 \<and> (if n = 0 then s = sint r else 0 < s)
          | Some r \<Rightarrow> k < n \<and> r \<le> 0 \<and> regions E t' = regions E t3 - {#region#}"
        by blast
      have "page_maps E t' = page_maps E t @ page_run flags v p (Suc k)"
        by (simp add: pm maps page_run_Suc)
      moreover have "case early of None \<Rightarrow> Suc k = Suc n \<and> regions E t' = regions E t \<and> 0 < s
          | Some r \<Rightarrow> Suc k < Suc n \<and> r \<le> 0 \<and> regions E t' = regions E t - {#region#}"
        using c False by (cases early) (auto simp: regs split: if_splits)
      ultimately show ?thesis
        using False by (intro exI [of _ early] exI [of _ s] exI [of _ t'] exI [of _ "Suc k"])
          (simp add: step m ph ph3 cong: option.case_cong)
    qed
  qed
qed



text \<open>C31. Mapping given physical pages: no check is made of them, and every page from the address the caller names is
  mapped. A successful call returns the last status, which is positive, and not 0, unless the size is 0. When a page
  cannot be mapped the region is freed again, and the caller still gets its address.\<close>

theorem MmzMap_maps_given_pages:
  assumes "unat (ROUNDUP M (mz_size m) MMZ_PAGE_SIZE) = n * 4096"
    and "cache_flags M (MMZ_MAP_CACHE_TYPE M) (MMZ_MAP_NOCACHE_TYPE M) cmd = Some flags"
    and "sys_ret E t LOS_RegionAlloc [curVmSpace M, 0, ROUNDUP M (mz_size m) MMZ_PAGE_SIZE, flags, 0] = region"
    and "region \<noteq> 0"
  shows "\<exists>r t' k. MmzMap E M cmd m t = Some (r, m\<lparr>mz_vaddr := range_base M region\<rparr>, t') \<and>
    page_maps E t' = page_maps E t @ page_run (regionFlags M region) (range_base M region) (ucast (mz_paddr m)) k \<and>
    (k = n \<and> (if n = 0 then r = 0 else 0 < r) \<and> regions E t' = add_mset region (regions E t) \<or>
     k < n \<and> r \<le> 0 \<and> regions E t' = regions E t)"
proof -
  define sz where "sz = ROUNDUP M (mz_size m) MMZ_PAGE_SIZE"
  define t1 where "t1 = Call LOS_RegionAlloc [curVmSpace M, 0, sz, flags, 0] # t"
  define v where "v = range_base M region"
  have reg: "regions E t1 = add_mset region (regions E t)" and pm: "page_maps E t1 = page_maps E t"
    using assms(3,4) by (simp_all add: t1_def sz_def)
  have "unat sz = n * 4096" using assms(1) by (simp add: sz_def)
  moreover have "region \<in># regions E t1" by (simp add: reg)
  ultimately obtain early s t' k
    where mp: "map_pages E M (regionFlags M region) region v (ucast (mz_paddr m)) sz 0 t1 = Some (early, s, t')"
    and o: "page_maps E t' = page_maps E t1 @ page_run (regionFlags M region) v (ucast (mz_paddr m)) k"
    and c: "case early of None \<Rightarrow> k = n \<and> regions E t' = regions E t1 \<and> (if n = 0 then s = 0 else 0 < s)
      | Some r \<Rightarrow> k < n \<and> r \<le> 0 \<and> regions E t' = regions E t1 - {#region#}"
    using map_pages_outcome by blast
  have un: "MmzMap E M cmd m t = Some (case early of Some r \<Rightarrow> r | None \<Rightarrow> s, m\<lparr>mz_vaddr := v\<rparr>, t')"
    using assms(2,3,4) mp
    by (simp add: MmzMap_def io_defs Let_def sz_def [symmetric] t1_def [symmetric] v_def [symmetric] split: option.splits)
  show ?thesis
    by (intro exI [of _ "case early of Some r \<Rightarrow> r | None \<Rightarrow> s"] exI [of _ t'] exI [of _ k])
      (use c in \<open>cases early; simp add: un v_def [symmetric] o pm reg\<close>)
qed

text \<open>Freeing holds the lock of the process from its first to its last call, on every path. The result is 0 or
  \<open>-EINVAL\<close>, a region is freed only when the address is mapped to the physical address the caller states, and at most
  that one is.\<close>

theorem MmzFree_locked:
  "\<exists>r us. MmzFree E M m t = (r, Call LOS_MuxRelease [curVmSpace M] # us @ Call LOS_MuxAcquire [curVmSpace M] # t) \<and>
    calls_of LOS_MuxAcquire us = [] \<and> calls_of LOS_MuxRelease us = [] \<and> (r = 0 \<or> r = - EINVAL) \<and>
    (case calls_of LOS_RegionFree us of [] \<Rightarrow> r = - EINVAL
     | fs \<Rightarrow> sys_ret E (Call LOS_MuxAcquire [curVmSpace M] # t) LOS_PaddrQuery [mz_vaddr m] = ucast (mz_paddr m) \<and>
         (\<exists>region s. region = sys_ret E s LOS_RegionFind [curVmSpace M, mz_vaddr m] \<and> region \<noteq> 0 \<and> fs = [[curVmSpace M, region]]))"
proof -
  define t1 where "t1 = Call LOS_MuxAcquire [curVmSpace M] # t"
  define q where "q = Call LOS_PaddrQuery [mz_vaddr m]"
  define f where "f = Call LOS_RegionFind [curVmSpace M, mz_vaddr m]"
  define region where "region = sys_ret E (q # t1) LOS_RegionFind [curVmSpace M, mz_vaddr m]"
  define g where "g = Call LOS_RegionFree [curVmSpace M, region]"
  have un: "MmzFree E M m t = (let rel = Call LOS_MuxRelease [curVmSpace M] in
      if sys_ret E t1 LOS_PaddrQuery [mz_vaddr m] \<noteq> ucast (mz_paddr m) then (- EINVAL, rel # q # t1)
      else if region = 0 then (- EINVAL, rel # f # q # t1)
      else (if sys_ret E (f # q # t1) LOS_RegionFree [curVmSpace M, region] \<noteq> 0 then - EINVAL else 0, rel # g # f # q # t1))"
    by (auto simp: MmzFree_def io_defs Let_def t1_def q_def f_def g_def region_def)
  consider "sys_ret E t1 LOS_PaddrQuery [mz_vaddr m] \<noteq> ucast (mz_paddr m)"
    | "sys_ret E t1 LOS_PaddrQuery [mz_vaddr m] = ucast (mz_paddr m)" "region = 0"
    | "sys_ret E t1 LOS_PaddrQuery [mz_vaddr m] = ucast (mz_paddr m)" "region \<noteq> 0"
    by blast
  then show ?thesis
  proof cases
    case 1
    then show ?thesis
      by (intro exI [of _ "- EINVAL"] exI [of _ "[q]"]) (simp add: un t1_def q_def)
  next
    case 2
    then show ?thesis
      by (intro exI [of _ "- EINVAL"] exI [of _ "[f, q]"]) (simp add: un t1_def q_def f_def)
  next
    case 3
    then show ?thesis
      by (intro exI [of _ "if sys_ret E (f # q # t1) LOS_RegionFree [curVmSpace M, region] \<noteq> 0 then - EINVAL else 0"]
          exI [of _ "[g, f, q]"])
        (auto simp: un t1_def [symmetric] region_def [symmetric], auto simp: q_def f_def g_def region_def t1_def)
  qed
qed

text \<open>A kernel that has the memory: it answers every request, one page struct for all pages.\<close>

definition mmz_example :: mmz_kernel where
  "mmz_example = \<lparr>curVmSpace = 0x10, range_base = (\<lambda>r. r + 0x1000000), regionFlags = (\<lambda>r. 7),
     ROUNDUP = align_example, FLAG_PERM_USER = 1, FLAG_PERM_READ = 2, FLAG_PERM_WRITE = 4, FLAG_CACHED = 8,
     FLAG_UNCACHED = 16, IOR = (\<lambda>n. 0x4000 + int n)\<rparr>"

definition mmz_env :: env where
  "mmz_env = \<lparr>rd_reg = (\<lambda>t a. 0),
     sys_ret = (\<lambda>t f xs. if f = LOS_RegionAlloc then 0x100 else if f = LOS_PhysPagesAlloc then 0x40000000
       else if f = LOS_PaddrQuery then 0x80000000 else if f = LOS_VmPageGet then 0x30 else if f = LOS_ArchMmuMap then 1
       else 0), sys_hdf = (\<lambda>t f xs. HDF_SUCCESS), ALIGN = align_example, IO_DEVICE_ADDR = id, VMM_TO_DMA_ADDR = id,
     LOS_ASSERT = id\<rparr>"

lemma mmz_example_size: "unat (ROUNDUP mmz_example 5000 MMZ_PAGE_SIZE) = 2 * 4096"
  by (simp add: mmz_example_def align_example_def)

lemma mmz_example_flags:
  "cache_flags mmz_example (MMZ_CACHE_TYPE mmz_example) (MMZ_NOCACHE_TYPE mmz_example) (MMZ_CACHE_TYPE mmz_example) = Some 15"
  by (simp add: mmz_example_def cache_flags_def rw_flags_def)


theorem MmzMap_maps_given_pages_witness:
  "\<exists>r t' k. MmzMap mmz_env mmz_example 0x4005 \<lparr>mz_vaddr = 0, mz_paddr = 0x9000, mz_size = 5000\<rparr> [] =
      Some (r, \<lparr>mz_vaddr = 0x1000100, mz_paddr = 0x9000, mz_size = 5000\<rparr>, t') \<and>
    page_maps mmz_env t' = page_run 7 0x1000100 0x9000 k"
  using MmzMap_maps_given_pages [of mmz_example "\<lparr>mz_vaddr = 0, mz_paddr = 0x9000, mz_size = 5000\<rparr>" 2 "0x4005" 23 mmz_env "[]" "0x100"]
  by (auto simp: mmz_example_def mmz_env_def align_example_def cache_flags_def rw_flags_def)

end
