(* ===== verification/Gralloc.thy ===== *)
theory Gralloc
  imports Mmz
begin

text \<open>
  The allocator of display buffers, \<open>hardware/display/display_gralloc.c\<close>, a library of user processes. A buffer lies
  in System V shared memory or in the contiguous memory of \<open>/dev/mmz\<close>; for the latter the calls go through \<open>ioctl\<close> to
  the driver of theory Mmz, which is composed with here. The second part is the variant of the small system
  (\<open>riscv32_virt\<close>), whose buffers are on the heap.
\<close>

subsection \<open>Data\<close>

text \<open>The formats of the table; \<open>PIXEL_FMT_OTHER\<close> is any other value of the display interface.\<close>

datatype PixelFormat =
    PIXEL_FMT_RGBX_8888 | PIXEL_FMT_RGBA_8888 | PIXEL_FMT_BGRX_8888 | PIXEL_FMT_BGRA_8888 | PIXEL_FMT_RGB_888
  | PIXEL_FMT_BGR_565 | PIXEL_FMT_RGBA_5551 | PIXEL_FMT_RGB_565 | PIXEL_FMT_BGRX_4444 | PIXEL_FMT_BGRA_4444
  | PIXEL_FMT_RGBA_4444 | PIXEL_FMT_RGBX_4444 | PIXEL_FMT_BGRX_5551 | PIXEL_FMT_BGRA_5551 | PIXEL_FMT_YCBCR_420_SP
  | PIXEL_FMT_YCRCB_420_SP | PIXEL_FMT_YCBCR_420_P | PIXEL_FMT_YCRCB_420_P | PIXEL_FMT_OTHER int

record PlaneLayoutInfo =
  numPlanes :: u32
  radio :: "u32 list"

record FormatInfo =
  fi_format :: PixelFormat
  bitsPerPixel :: u32
  planes :: "PlaneLayoutInfo option"

text \<open>\<open>BufferHandle\<close> and \<open>AllocInfo\<close> of the display interface; \<open>int32_t\<close> fields are words read with \<open>sint\<close>. A handle
  carries the address of its block.\<close>

record BufferHandle =
  bh_fd :: u32
  bh_width :: u32
  bh_stride :: u32
  bh_height :: u32
  bh_size :: u32
  bh_format :: PixelFormat
  bh_usage :: u64
  bh_virAddr :: u32
  bh_phyAddr :: u64
  bh_reserveFds :: u32
  bh_reserveInts :: u32

record PriBufferHandle = BufferHandle +
  pb_shmid :: u32
  pb_addr :: u32

record AllocInfo =
  ai_width :: u32
  ai_height :: u32
  ai_usage :: u64
  ai_format :: PixelFormat

text \<open>Constants of the display interface and of the system, and what the C library makes of the result of a driver's
  \<open>ioctl\<close>.\<close>

record gralloc_consts =
  HBM_USE_MEM_SHARE :: u64
  HBM_USE_MEM_MMZ :: u64
  HBM_USE_MEM_MMZ_CACHE :: u64
  HBM_USE_MEM_DMA :: u64
  SHM_CREATE_FLAGS :: u32
  SHM_OPEN_FLAGS :: u32
  EEXIST :: u32
  SIZEOF_PriBufferHandle :: u32
  SIZEOF_BufferHandle :: u32
  SIZEOF_GrallocFuncs :: u32
  ioctl_status :: "int \<Rightarrow> int"

abbreviation (input) DISPLAY_SUCCESS :: int where "DISPLAY_SUCCESS \<equiv> 0"
abbreviation (input) DISPLAY_FAILURE :: int where "DISPLAY_FAILURE \<equiv> - 1"
abbreviation (input) DISPLAY_FD_ERR :: int where "DISPLAY_FD_ERR \<equiv> - 2"
abbreviation (input) DISPLAY_NULL_PTR :: int where "DISPLAY_NULL_PTR \<equiv> - 4"
abbreviation (input) DISPLAY_NOT_SUPPORT :: int where "DISPLAY_NOT_SUPPORT \<equiv> - 5"

abbreviation (input) MAX_MALLOC_SIZE :: int where "MAX_MALLOC_SIZE \<equiv> 0x10000000"
abbreviation (input) SHM_MAX_KEY :: int where "SHM_MAX_KEY \<equiv> 10000"
abbreviation (input) SHM_START_KEY :: int where "SHM_START_KEY \<equiv> 1"
abbreviation (input) INVALID_SHMID :: u32 where "INVALID_SHMID \<equiv> - 1"
abbreviation (input) MAX_PLANES :: nat where "MAX_PLANES \<equiv> 3"

subsection \<open>Sizes\<close>

definition DIV_ROUND_UP :: "u32 \<Rightarrow> u32 \<Rightarrow> u32" where
  "DIV_ROUND_UP n d = (n + d - 1) div d"

definition ALIGN_UP :: "u32 \<Rightarrow> u32 \<Rightarrow> u32" where
  "ALIGN_UP x a = (x + (a - 1)) div a * a"

definition g_yuv420SPLayout :: PlaneLayoutInfo where
  "g_yuv420SPLayout = \<lparr>numPlanes = 2, radio = [4, 2, 0]\<rparr>"

definition g_yuv420PLayout :: PlaneLayoutInfo where
  "g_yuv420PLayout = \<lparr>numPlanes = 3, radio = [4, 1, 1]\<rparr>"

definition fmtInfos :: "FormatInfo list" where
  "fmtInfos = map (\<lambda>(f, n, p). \<lparr>fi_format = f, bitsPerPixel = n, planes = p\<rparr>)
    [(PIXEL_FMT_RGBX_8888, 32, None), (PIXEL_FMT_RGBA_8888, 32, None),
     (PIXEL_FMT_BGRX_8888, 32, None), (PIXEL_FMT_BGRA_8888, 32, None),
     (PIXEL_FMT_RGB_888, 24, None), (PIXEL_FMT_BGR_565, 16, None),
     (PIXEL_FMT_RGBA_5551, 16, None), (PIXEL_FMT_RGB_565, 16, None),
     (PIXEL_FMT_BGRX_4444, 16, None), (PIXEL_FMT_BGRA_4444, 16, None),
     (PIXEL_FMT_RGBA_4444, 16, None), (PIXEL_FMT_RGBX_4444, 16, None),
     (PIXEL_FMT_BGRX_5551, 16, None), (PIXEL_FMT_BGRA_5551, 16, None),
     (PIXEL_FMT_YCBCR_420_SP, 8, Some g_yuv420SPLayout), (PIXEL_FMT_YCRCB_420_SP, 8, Some g_yuv420SPLayout),
     (PIXEL_FMT_YCBCR_420_P, 8, Some g_yuv420PLayout), (PIXEL_FMT_YCRCB_420_P, 8, Some g_yuv420PLayout)]"

definition GetFormatInfo :: "PixelFormat \<Rightarrow> FormatInfo option" where
  "GetFormatInfo format = List.find (\<lambda>fi. fi_format fi = format) fmtInfos"

text \<open>The loop over the planes after the first.\<close>

function plane_sum :: "PlaneLayoutInfo \<Rightarrow> nat \<Rightarrow> u32 \<Rightarrow> u32" where
  "plane_sum l i sm = (if i < unat (numPlanes l) \<and> i < MAX_PLANES then plane_sum l (i + 1) (sm + radio l ! i) else sm)"
  by pat_completeness auto
termination by (relation "measure (\<lambda>(l, i, sm). MAX_PLANES - i)") auto

declare plane_sum.simps [simp del]

definition AdjustStrideFromFormat :: "PixelFormat \<Rightarrow> u32 \<Rightarrow> u32" where
  "AdjustStrideFromFormat format width =
     (case GetFormatInfo format of None \<Rightarrow> width
      | Some fi \<Rightarrow> (case planes fi of None \<Rightarrow> width
          | Some l \<Rightarrow> let sm = plane_sum l 1 (radio l ! 0)
                      in if 0 < sm then DIV_ROUND_UP (width * sm) (radio l ! 0) else width))"

text \<open>\<open>int32_t\<close> multiplication: overflow is undefined.\<close>

definition mul32 :: "u32 \<Rightarrow> u32 \<Rightarrow> u32 option" where
  "mul32 a b = (let p = sint a * sint b in if - (2 ^ 31) \<le> p \<and> p < 2 ^ 31 then Some (of_int p) else None)"

definition InitBufferHandle :: "gralloc_consts \<Rightarrow> PriBufferHandle \<Rightarrow> AllocInfo \<Rightarrow> (int \<times> PriBufferHandle) option" where
  "InitBufferHandle C b info =
     (let h = ALIGN_UP (ai_height info) 2 in
      case GetFormatInfo (ai_format info) of None \<Rightarrow> Some (DISPLAY_FAILURE, b)
      | Some fmtInfo \<Rightarrow>
          let stride = ALIGN_UP (AdjustStrideFromFormat (ai_format info) (ai_width info)) 8 * bitsPerPixel fmtInfo div 8
          in do {
            sz \<leftarrow> mul32 h stride;
            Some (DISPLAY_SUCCESS, b\<lparr>bh_width := ai_width info, bh_stride := stride, bh_height := ai_height info,
              bh_size := sz, bh_usage := ai_usage info, bh_fd := - 1, pb_shmid := INVALID_SHMID,
              bh_format := ai_format info,
              bh_reserveInts := (SIZEOF_PriBufferHandle C - SIZEOF_BufferHandle C - bh_reserveFds b * 4) div 4\<rparr>)
          })"

definition size_invalid :: "PriBufferHandle \<Rightarrow> bool" where
  "size_invalid b \<longleftrightarrow> MAX_MALLOC_SIZE < sint (bh_size b) \<or> bh_size b = 0"

subsection \<open>Shared memory\<close>

definition next_key :: "int \<Rightarrow> int" where
  "next_key key = (if SHM_MAX_KEY \<le> key + 1 then SHM_START_KEY else key + 1)"

text \<open>The loop looks for a key that is not in use. Its result is the segment, or none for another error.\<close>

partial_function (option) shm_probe ::
  "env \<Rightarrow> gralloc_consts \<Rightarrow> u32 \<Rightarrow> int \<Rightarrow> trace \<Rightarrow> (u32 option \<times> int \<times> trace) option" where
  "shm_probe E C sz key t =
     (let (shmid, t) = kcall E sys_shmget [of_int key, sz, SHM_CREATE_FLAGS C] t in
      if sint shmid < 0
      then let (err, t) = kcall E sys_errno [] t
           in if err \<noteq> EEXIST C then Some (None, key, t) else shm_probe E C sz (next_key key) t
      else Some (Some shmid, key, t))"

definition AllocShm ::
  "env \<Rightarrow> gralloc_consts \<Rightarrow> PriBufferHandle \<Rightarrow> int \<Rightarrow> trace \<Rightarrow> (int \<times> PriBufferHandle \<times> int \<times> trace) option" where
  "AllocShm E C b key t = do {
     (found, key, t) \<leftarrow> shm_probe E C (bh_size b) key t;
     (case found of None \<Rightarrow> Some (DISPLAY_FAILURE, b, key, t)
      | Some shmid \<Rightarrow>
          let (pBase, t) = kcall E sys_shmat [shmid, 0, 0] t
          in if pBase = - 1 then
               let (_, t) = kcall E sys_shmctl [shmid] t in Some (DISPLAY_FAILURE, b, key, t)
             else Some (DISPLAY_SUCCESS, b\<lparr>bh_virAddr := pBase, bh_fd := of_int key, pb_shmid := shmid\<rparr>,
                        next_key key, kproc c_memset [pBase, 0, bh_size b] t))
   }"

definition FreeShm :: "env \<Rightarrow> PriBufferHandle \<Rightarrow> trace \<Rightarrow> trace" where
  "FreeShm E b t =
     (if bh_virAddr b = 0 then t
      else let (_, t) = kcall E sys_shmdt [bh_virAddr b] t; (_, t) = kcall E sys_shmctl [pb_shmid b] t in t)"

definition MmapShm :: "env \<Rightarrow> gralloc_consts \<Rightarrow> PriBufferHandle \<Rightarrow> trace \<Rightarrow> u32 \<times> PriBufferHandle \<times> trace" where
  "MmapShm E C b t =
     (let (shmid, t) = kcall E sys_shmget [bh_fd b, bh_size b, SHM_OPEN_FLAGS C] t in
      if sint shmid < 0 then (0, b, t)
      else let (pBase, t) = kcall E sys_shmat [shmid, 0, 0] t
           in if pBase = - 1 then (0, b, t) else (pBase, b\<lparr>pb_shmid := shmid\<rparr>, t))"

definition UnmapShm :: "env \<Rightarrow> PriBufferHandle \<Rightarrow> trace \<Rightarrow> int \<times> trace" where
  "UnmapShm E b t =
     (let (r, t) = kcall E sys_shmdt [bh_virAddr b] t in
      if r = - 1 then (DISPLAY_FAILURE, t)
      else if pb_shmid b \<noteq> INVALID_SHMID then (let (_, t) = kcall E sys_shmctl [pb_shmid b] t in (DISPLAY_SUCCESS, t))
      else (DISPLAY_SUCCESS, t))"

subsection \<open>Contiguous memory through the driver\<close>

definition SendCmd ::
  "env \<Rightarrow> gralloc_consts \<Rightarrow> mmz_kernel \<Rightarrow> int \<Rightarrow> MmzMemory \<Rightarrow> trace \<Rightarrow> (int \<times> MmzMemory \<times> trace) option" where
  "SendCmd E C M cmd m t =
     (let (fd, t) = kcall E sys_open [] t in
      if fd \<noteq> - 1 then do {
        (r, m, t) \<leftarrow> MmzIoctl E M cmd m t;
        Some (ioctl_status C r, m, kproc sys_close [fd] t)
      } else Some (sint fd, m, t))"

definition AllocMmz ::
  "env \<Rightarrow> gralloc_consts \<Rightarrow> mmz_kernel \<Rightarrow> PriBufferHandle \<Rightarrow> trace \<Rightarrow> (int \<times> PriBufferHandle \<times> trace) option" where
  "AllocMmz E C M b t =
     (let mmz = \<lparr>mz_vaddr = 0, mz_paddr = 0, mz_size = bh_size b\<rparr>;
          rest = (\<lambda>(_ :: int, mmz, t).
            Some (DISPLAY_SUCCESS, b\<lparr>bh_phyAddr := mz_paddr mmz, bh_virAddr := mz_vaddr mmz\<rparr>,
                  kproc c_memset [mz_vaddr mmz, 0, bh_size b] t))
      in if bh_usage b = HBM_USE_MEM_MMZ_CACHE C then SendCmd E C M (MMZ_CACHE_TYPE M) mmz t \<bind> rest
         else if bh_usage b = HBM_USE_MEM_MMZ C then SendCmd E C M (MMZ_NOCACHE_TYPE M) mmz t \<bind> rest
         else Some (DISPLAY_NOT_SUPPORT, b, t))"

definition mmz_of :: "PriBufferHandle \<Rightarrow> MmzMemory" where
  "mmz_of b = \<lparr>mz_vaddr = bh_virAddr b, mz_paddr = bh_phyAddr b, mz_size = bh_size b\<rparr>"

definition FreeMmz :: "env \<Rightarrow> gralloc_consts \<Rightarrow> mmz_kernel \<Rightarrow> u64 \<Rightarrow> u32 \<Rightarrow> trace \<Rightarrow> (int \<times> trace) option" where
  "FreeMmz E C M paddr vaddr t = do {
     (r, _, t) \<leftarrow> SendCmd E C M (MMZ_FREE_TYPE M) \<lparr>mz_vaddr = vaddr, mz_paddr = paddr, mz_size = 0\<rparr> t;
     Some (r, t) }"

definition MmzFlushCache :: "env \<Rightarrow> gralloc_consts \<Rightarrow> mmz_kernel \<Rightarrow> PriBufferHandle \<Rightarrow> trace \<Rightarrow> (int \<times> trace) option" where
  "MmzFlushCache E C M b t = do { (r, _, t) \<leftarrow> SendCmd E C M (MMZ_FLUSH_CACHE_TYPE M) (mmz_of b) t; Some (r, t) }"

definition MmzInvalidateCache :: "env \<Rightarrow> gralloc_consts \<Rightarrow> mmz_kernel \<Rightarrow> PriBufferHandle \<Rightarrow> trace \<Rightarrow> (int \<times> trace) option" where
  "MmzInvalidateCache E C M b t = do { (r, _, t) \<leftarrow> SendCmd E C M (MMZ_INVALIDATE_TYPE M) (mmz_of b) t; Some (r, t) }"

definition MmapMmzNoCache :: "env \<Rightarrow> gralloc_consts \<Rightarrow> mmz_kernel \<Rightarrow> u64 \<Rightarrow> u32 \<Rightarrow> trace \<Rightarrow> (u32 \<times> trace) option" where
  "MmapMmzNoCache E C M paddr sz t = do {
     (_, mmz, t) \<leftarrow> SendCmd E C M (MMZ_MAP_NOCACHE_TYPE M) \<lparr>mz_vaddr = 0, mz_paddr = paddr, mz_size = sz\<rparr> t;
     Some (mz_vaddr mmz, t) }"

definition MmapMmzCache :: "env \<Rightarrow> gralloc_consts \<Rightarrow> mmz_kernel \<Rightarrow> u64 \<Rightarrow> u32 \<Rightarrow> trace \<Rightarrow> (u32 \<times> trace) option" where
  "MmapMmzCache E C M paddr sz t = do {
     (_, mmz, t) \<leftarrow> SendCmd E C M (MMZ_MAP_CACHE_TYPE M) \<lparr>mz_vaddr = 0, mz_paddr = paddr, mz_size = sz\<rparr> t;
     Some (mz_vaddr mmz, t) }"

definition UnmapMmz :: "env \<Rightarrow> gralloc_consts \<Rightarrow> mmz_kernel \<Rightarrow> PriBufferHandle \<Rightarrow> trace \<Rightarrow> (int \<times> trace) option" where
  "UnmapMmz E C M b t = do { (r, _, t) \<leftarrow> SendCmd E C M (MMZ_UNMAP_TYPE M) (mmz_of b) t; Some (r, t) }"

subsection \<open>The interface of the library\<close>

text \<open>The block \<open>calloc\<close> returns.\<close>

definition zero_handle :: "u32 \<Rightarrow> PriBufferHandle" where
  "zero_handle p = \<lparr>bh_fd = 0, bh_width = 0, bh_stride = 0, bh_height = 0, bh_size = 0, bh_format = PIXEL_FMT_OTHER 0,
     bh_usage = 0, bh_virAddr = 0, bh_phyAddr = 0, bh_reserveFds = 0, bh_reserveInts = 0, pb_shmid = 0, pb_addr = p\<rparr>"

text \<open>The part of \<open>AllocMem\<close> from the check of the size to the label \<open>OUT\<close>; \<open>ret\<close> is the status so far.\<close>

definition alloc_memory ::
  "env \<Rightarrow> gralloc_consts \<Rightarrow> mmz_kernel \<Rightarrow> int \<Rightarrow> PriBufferHandle \<Rightarrow> int \<Rightarrow> trace \<Rightarrow>
   (int \<times> PriBufferHandle \<times> int \<times> trace) option" where
  "alloc_memory E C M ret b key t =
     (if size_invalid b then Some (ret, b, key, t)
      else if bh_usage b = HBM_USE_MEM_SHARE C then AllocShm E C b key t
      else if bh_usage b = HBM_USE_MEM_DMA C \<or> bh_usage b = HBM_USE_MEM_MMZ C
        then do { (ret, b, t) \<leftarrow> AllocMmz E C M b t; Some (ret, b, key, t) }
      else Some (DISPLAY_NOT_SUPPORT, b, key, t))"

text \<open>\<open>buffer\<close> is the caller's variable, \<open>None\<close> if the pointer to it is null; \<open>info\<close> may be null too. A format that is not in
  the table makes the code jump over the initialisation of \<open>bufferHdl\<close> and read it: that is undefined. A size that is out
  of range jumps to the end with the status of \<open>InitBufferHandle\<close>.\<close>

definition AllocMem ::
  "env \<Rightarrow> gralloc_consts \<Rightarrow> mmz_kernel \<Rightarrow> AllocInfo option \<Rightarrow> PriBufferHandle option option \<Rightarrow> int \<Rightarrow> trace \<Rightarrow>
   (int \<times> PriBufferHandle option option \<times> int \<times> trace) option" where
  "AllocMem E C M info buffer key t =
     (if buffer = None then Some (DISPLAY_NULL_PTR, buffer, key, t) else
      case info of None \<Rightarrow> Some (DISPLAY_NULL_PTR, buffer, key, t)
      | Some info \<Rightarrow>
          let (p, t) = kcall E c_calloc [1, SIZEOF_PriBufferHandle C] t in
          if p = 0 then Some (DISPLAY_NULL_PTR, buffer, key, t) else do {
            (ret, b) \<leftarrow> InitBufferHandle C
              (zero_handle p) info;
            if ret \<noteq> DISPLAY_SUCCESS then None else do {
              (ret, b, key, t) \<leftarrow> alloc_memory E C M ret b key t;
              Some (if ret \<noteq> DISPLAY_SUCCESS then (ret, Some None, key, kproc c_free [p] t)
                    else (ret, Some (Some b), key, t))
            }})"

definition FreeMem ::
  "env \<Rightarrow> gralloc_consts \<Rightarrow> mmz_kernel \<Rightarrow> PriBufferHandle option \<Rightarrow> trace \<Rightarrow> trace option" where
  "FreeMem E C M buffer t =
     (case buffer of None \<Rightarrow> Some t
      | Some b \<Rightarrow>
          if size_invalid b then Some t
          else if bh_usage b = HBM_USE_MEM_MMZ_CACHE C \<or> bh_usage b = HBM_USE_MEM_MMZ C
            then do { (_, t) \<leftarrow> FreeMmz E C M (bh_phyAddr b) (bh_virAddr b) t; Some t }
          else if bh_usage b = HBM_USE_MEM_SHARE C then Some (FreeShm E b t)
          else Some t)"

definition MmapCache ::
  "env \<Rightarrow> gralloc_consts \<Rightarrow> mmz_kernel \<Rightarrow> PriBufferHandle option \<Rightarrow> trace \<Rightarrow> (u32 \<times> trace) option" where
  "MmapCache E C M buffer t =
     (case buffer of None \<Rightarrow> Some (0, t)
      | Some b \<Rightarrow>
          if size_invalid b then Some (0, t)
          else if bh_usage b = HBM_USE_MEM_MMZ_CACHE C then MmapMmzCache E C M (bh_phyAddr b) (bh_size b) t
          else Some (0, t))"

definition Mmap ::
  "env \<Rightarrow> gralloc_consts \<Rightarrow> mmz_kernel \<Rightarrow> PriBufferHandle option \<Rightarrow> trace \<Rightarrow> (u32 \<times> PriBufferHandle option \<times> trace) option" where
  "Mmap E C M buffer t =
     (case buffer of None \<Rightarrow> Some (0, buffer, t)
      | Some b \<Rightarrow>
          if size_invalid b then Some (0, buffer, t)
          else if bh_usage b = HBM_USE_MEM_MMZ_CACHE C
            then do { (v, t) \<leftarrow> MmapMmzCache E C M (bh_phyAddr b) (bh_size b) t; Some (v, buffer, t) }
          else if bh_usage b = HBM_USE_MEM_MMZ C
            then do { (v, t) \<leftarrow> MmapMmzNoCache E C M (bh_phyAddr b) (bh_size b) t; Some (v, buffer, t) }
          else if bh_usage b = HBM_USE_MEM_SHARE C then (let (v, b, t) = MmapShm E C b t in Some (v, Some b, t))
          else Some (0, buffer, t))"

definition Unmap ::
  "env \<Rightarrow> gralloc_consts \<Rightarrow> mmz_kernel \<Rightarrow> PriBufferHandle option \<Rightarrow> trace \<Rightarrow> (int \<times> trace) option" where
  "Unmap E C M buffer t =
     (case buffer of None \<Rightarrow> Some (DISPLAY_NULL_PTR, t)
      | Some b \<Rightarrow>
          if bh_virAddr b = 0 then Some (DISPLAY_NULL_PTR, t)
          else if size_invalid b then Some (DISPLAY_FAILURE, t)
          else if bh_usage b = HBM_USE_MEM_MMZ_CACHE C \<or> bh_usage b = HBM_USE_MEM_MMZ C then UnmapMmz E C M b t
          else if bh_usage b = HBM_USE_MEM_SHARE C then Some (UnmapShm E b t)
          else Some (DISPLAY_FAILURE, t))"

definition FlushCache ::
  "env \<Rightarrow> gralloc_consts \<Rightarrow> mmz_kernel \<Rightarrow> PriBufferHandle option \<Rightarrow> trace \<Rightarrow> (int \<times> trace) option" where
  "FlushCache E C M buffer t =
     (case buffer of None \<Rightarrow> Some (DISPLAY_NULL_PTR, t)
      | Some b \<Rightarrow>
          if bh_virAddr b = 0 then Some (DISPLAY_NULL_PTR, t)
          else if size_invalid b then Some (DISPLAY_FAILURE, t)
          else if bh_usage b = HBM_USE_MEM_MMZ_CACHE C then do {
            (ret, t) \<leftarrow> MmzFlushCache E C M b t;
            Some (if ret \<noteq> DISPLAY_SUCCESS then DISPLAY_FAILURE else DISPLAY_SUCCESS, t)
          } else Some (DISPLAY_FAILURE, t))"

definition InvalidateCache ::
  "env \<Rightarrow> gralloc_consts \<Rightarrow> mmz_kernel \<Rightarrow> PriBufferHandle option \<Rightarrow> trace \<Rightarrow> (int \<times> trace) option" where
  "InvalidateCache E C M buffer t =
     (case buffer of None \<Rightarrow> Some (DISPLAY_NULL_PTR, t)
      | Some b \<Rightarrow>
          if bh_virAddr b = 0 then Some (DISPLAY_NULL_PTR, t)
          else if size_invalid b then Some (DISPLAY_FAILURE, t)
          else if bh_usage b = HBM_USE_MEM_MMZ_CACHE C then do {
            (ret, t) \<leftarrow> MmzInvalidateCache E C M b t;
            Some (if ret \<noteq> DISPLAY_SUCCESS then DISPLAY_FAILURE else DISPLAY_SUCCESS, t)
          } else Some (DISPLAY_FAILURE, t))"

text \<open>The table of functions is a block of the heap; \<open>funcs\<close> says whether the caller's pointer is not null.\<close>

definition GrallocInitialize :: "env \<Rightarrow> gralloc_consts \<Rightarrow> bool \<Rightarrow> trace \<Rightarrow> int \<times> u32 option \<times> trace" where
  "GrallocInitialize E C funcs t =
     (if \<not> funcs then (DISPLAY_NULL_PTR, None, t)
      else let (p, t) = kcall E c_malloc [SIZEOF_GrallocFuncs C] t
           in if p = 0 then (DISPLAY_NULL_PTR, None, t)
              else (DISPLAY_SUCCESS, Some p, kproc c_memset [p, 0, SIZEOF_GrallocFuncs C] t))"

definition GrallocUninitialize :: "u32 \<Rightarrow> trace \<Rightarrow> int \<times> trace" where
  "GrallocUninitialize funcs t = (if funcs = 0 then (DISPLAY_NULL_PTR, t) else (DISPLAY_SUCCESS, kproc c_free [funcs] t))"

subsection \<open>The variant of the small system\<close>

definition AllocMem_rv ::
  "env \<Rightarrow> gralloc_consts \<Rightarrow> AllocInfo option \<Rightarrow> PriBufferHandle option option \<Rightarrow> trace \<Rightarrow>
   (int \<times> PriBufferHandle option option \<times> trace) option" where
  "AllocMem_rv E C info buffer t =
     (if buffer = None then Some (DISPLAY_NULL_PTR, buffer, t) else
      case info of None \<Rightarrow> Some (DISPLAY_NULL_PTR, buffer, t)
      | Some info \<Rightarrow>
          let (p, t) = kcall E c_calloc [1, SIZEOF_PriBufferHandle C] t in
          if p = 0 then Some (DISPLAY_NULL_PTR, buffer, t) else do {
            (ret, b) \<leftarrow> InitBufferHandle C
              (zero_handle p) info;
            if ret \<noteq> DISPLAY_SUCCESS then None else
            let (ret, b, t) =
              (if size_invalid b then (ret, b, t)
               else let (pBase, t) = kcall E c_malloc [bh_size b] t
                    in if pBase = 0 then (DISPLAY_FAILURE, b, t)
                       else (DISPLAY_SUCCESS, b\<lparr>bh_virAddr := pBase\<rparr>, kproc c_memset [pBase, 0, bh_size b] t))
            in Some (if ret \<noteq> DISPLAY_SUCCESS then (ret, Some None, kproc c_free [p] t) else (ret, Some (Some b), t))
          })"

definition FreeMem_rv :: "PriBufferHandle option \<Rightarrow> trace \<Rightarrow> trace" where
  "FreeMem_rv buffer t =
     (case buffer of None \<Rightarrow> t
      | Some b \<Rightarrow> if size_invalid b then t else if bh_virAddr b = 0 then t else kproc c_free [bh_virAddr b] t)"

subsection \<open>A buffer holds its image\<close>

text \<open>The bytes of an image of \<open>w\<close> by \<open>h\<close> pixels: a whole plane, or a plane of brightness and two of colour at half the
  width and height, rounded up.\<close>

definition image_bytes :: "FormatInfo \<Rightarrow> nat \<Rightarrow> nat \<Rightarrow> nat" where
  "image_bytes fi w h =
     (case planes fi of None \<Rightarrow> w * h * (unat (bitsPerPixel fi) div 8)
      | Some _ \<Rightarrow> w * h + 2 * (((w + 1) div 2) * ((h + 1) div 2)))"

lemma GetFormatInfo_cases:
  assumes "GetFormatInfo f = Some fi"
  obtains "planes fi = None" "bitsPerPixel fi = 32 \<or> bitsPerPixel fi = 24 \<or> bitsPerPixel fi = 16"
    | l where "planes fi = Some l" "bitsPerPixel fi = 8" "l = g_yuv420SPLayout \<or> l = g_yuv420PLayout"
  using assms by (cases f) (auto simp: GetFormatInfo_def fmtInfos_def)

lemma plane_sums [simp]: "plane_sum g_yuv420SPLayout (Suc 0) 4 = 6" "plane_sum g_yuv420PLayout (Suc 0) 4 = 6"
  by (simp_all add: plane_sum.simps g_yuv420SPLayout_def g_yuv420PLayout_def)

lemma unat_ALIGN_UP:
  assumes "unat x + unat a \<le> 2 ^ 32" and "0 < a"
  shows "unat (ALIGN_UP x a) = (unat x + (unat a - 1)) div unat a * unat a"
proof -
  have "0 < unat a" using assms(2) by (simp add: word_less_nat_alt)
  then have le: "1 \<le> a" by (simp add: word_le_nat_alt)
  have s: "unat (x + (a - 1)) = unat x + (unat a - 1)"
    using assms(1) \<open>0 < unat a\<close> le by (subst unat_add_lem [THEN iffD1]) (simp_all add: unat_sub)
  have "(unat x + (unat a - 1)) div unat a * unat a \<le> unat x + (unat a - 1)"
    by (rule div_times_less_eq_dividend)
  also have "\<dots> < 2 ^ 32" using assms(1) \<open>0 < unat a\<close> by linarith
  finally have "unat ((x + (a - 1)) div a) * unat a < 2 ^ LENGTH(32)"
    by (simp only: unat_div s len_num1 len_bit0) simp
  then have "unat ((x + (a - 1)) div a * a) = unat ((x + (a - 1)) div a) * unat a"
    by (rule unat_mult_lem [THEN iffD1])
  then show ?thesis
    by (simp only: ALIGN_UP_def unat_div s)
qed

lemma unat_AdjustStride:
  assumes "GetFormatInfo f = Some fi" and "unat w \<le> 16384"
  shows "unat (AdjustStrideFromFormat f w) = (case planes fi of None \<Rightarrow> unat w | Some _ \<Rightarrow> (6 * unat w + 3) div 4)"
  using assms(1)
proof (cases rule: GetFormatInfo_cases)
  case 1
  then show ?thesis using assms(1) by (simp add: AdjustStrideFromFormat_def)
next
  case (2 l)
  have "radio l ! 0 = 4" using 2(3) by (auto simp: g_yuv420SPLayout_def g_yuv420PLayout_def)
  moreover have "plane_sum l 1 4 = 6" using 2(3) by auto
  ultimately have "AdjustStrideFromFormat f w = DIV_ROUND_UP (w * 6) 4"
    using assms(1) 2(1) by (simp add: AdjustStrideFromFormat_def)
  moreover have "unat (w * 6 + 4 - 1) = 6 * unat w + 3"
  proof -
    have "unat (w * 6 + 3) = 6 * unat w + 3" using assms(2) by (simp add: unat_word_ariths)
    then show ?thesis by (simp add: add.commute)
  qed
  ultimately show ?thesis
    using 2(1) by (simp add: DIV_ROUND_UP_def unat_div)
qed

lemma sint_small: "unat (x :: u32) < 2 ^ 31 \<Longrightarrow> sint x = int (unat x)"
proof -
  assume "unat x < 2 ^ 31"
  then have "int (unat x) < int (2 ^ 31)" by (rule of_nat_less_iff [THEN iffD2])
  then have "uint x < 2 ^ 31" by (simp only: uint_nat) simp
  then show ?thesis
    by (subst sint_uint) (simp add: signed_take_bit_int_eq_self order_trans [OF _ uint_ge_0])
qed

lemma mul32_small:
  assumes "unat a * unat b < 2 ^ 31" and "unat a < 2 ^ 31" and "unat b < 2 ^ 31"
  obtains c where "mul32 a b = Some c" "sint c = int (unat a * unat b)"
proof
  have p: "sint a * sint b = int (unat a * unat b)" using assms(2,3) by (simp add: sint_small)
  have "int (unat a * unat b) < 2 ^ 31" using assms(1) by (metis of_nat_less_numeral_power_cancel_iff)
  then show "mul32 a b = Some (of_int (int (unat a * unat b)))"
    using of_nat_0_le_iff [of "unat a * unat b"]
    by (simp only: mul32_def p Let_def) (simp del: of_nat_mult)
  have "signed_take_bit 31 (int (unat a * unat b)) = int (unat a * unat b)"
    using \<open>int (unat a * unat b) < 2 ^ 31\<close> of_nat_0_le_iff [of "unat a * unat b"]
    by (intro signed_take_bit_int_eq_self) linarith+
  then show "sint (of_int (int (unat a * unat b)) :: u32) = int (unat a * unat b)"
    unfolding signed_of_int by simp
qed

lemma image_fits:
  fixes w h n :: nat
  assumes "8 dvd n"
  shows "w * h * (n div 8) \<le> (h + 1) div 2 * 2 * ((w + 7) div 8 * n)"
    and "w * h + 2 * ((w + 1) div 2 * ((h + 1) div 2)) \<le> (h + 1) div 2 * 2 * (((6 * w + 3) div 4 + 7) div 8 * 8)"
proof -
  obtain k where k: "n = 8 * k" using assms ..
  have h: "h \<le> (h + 1) div 2 * 2" and w: "w \<le> (w + 7) div 8 * 8" by presburger+
  have "h * (w * k) \<le> (h + 1) div 2 * 2 * ((w + 7) div 8 * 8 * k)"
    by (intro mult_le_mono h w le_refl)
  then show "w * h * (n div 8) \<le> (h + 1) div 2 * 2 * ((w + 7) div 8 * n)"
    by (simp add: k ac_simps)
  have "w + (w + 1) div 2 \<le> (6 * w + 3) div 4" by presburger
  also have "\<dots> \<le> ((6 * w + 3) div 4 + 7) div 8 * 8" by linarith
  finally have W: "w + (w + 1) div 2 \<le> ((6 * w + 3) div 4 + 7) div 8 * 8" .
  have "w * h + 2 * ((w + 1) div 2 * ((h + 1) div 2)) \<le> (h + 1) div 2 * 2 * (w + (w + 1) div 2)"
    using mult_le_mono [OF le_refl h, of w] by (simp add: algebra_simps)
  also have "\<dots> \<le> (h + 1) div 2 * 2 * (((6 * w + 3) div 4 + 7) div 8 * 8)"
    by (intro mult_le_mono W le_refl)
  finally show "w * h + 2 * ((w + 1) div 2 * ((h + 1) div 2)) \<le> (h + 1) div 2 * 2 * (((6 * w + 3) div 4 + 7) div 8 * 8)" .
qed

text \<open>C32. A buffer is large enough for its image: for every format of the table and every width and height up to
  16384, \<open>InitBufferHandle\<close> succeeds, the stride is a whole number of groups of 8 pixels, and the size it computes, with its
  aligned height and its widened stride, covers all the planes, whole ones at odd widths and heights included.\<close>

theorem InitBufferHandle_holds_image:
  assumes "GetFormatInfo (ai_format info) = Some fi" and "unat (ai_width info) \<le> 16384" and "unat (ai_height info) \<le> 16384"
  shows "\<exists>b'. InitBufferHandle C b info = Some (DISPLAY_SUCCESS, b') \<and>
    bh_width b' = ai_width info \<and> bh_height b' = ai_height info \<and> unat (bh_stride b') mod unat (bitsPerPixel fi) = 0 \<and>
    int (image_bytes fi (unat (ai_width info)) (unat (ai_height info))) \<le> sint (bh_size b')"
proof -
  define w where "w = unat (ai_width info)"
  define h where "h = unat (ai_height info)"
  define n where "n = unat (bitsPerPixel fi)"
  define W where "W = (case planes fi of None \<Rightarrow> w | Some _ \<Rightarrow> (6 * w + 3) div 4)"
  define H where "H = ALIGN_UP (ai_height info) 2"
  define st where "st = ALIGN_UP (AdjustStrideFromFormat (ai_format info) (ai_width info)) 8 * bitsPerPixel fi div 8"
  have wh: "w \<le> 16384" "h \<le> 16384" using assms(2,3) by (simp_all add: w_def h_def)
  have n: "n = 32 \<or> n = 24 \<or> n = 16 \<or> n = 8" and n8: "planes fi \<noteq> None \<Longrightarrow> n = 8"
    using assms(1) by (cases rule: GetFormatInfo_cases, auto simp: n_def)+
  have W: "unat (AdjustStrideFromFormat (ai_format info) (ai_width info)) = W"
    using unat_AdjustStride [OF assms(1,2)] by (simp only: W_def w_def)
  have Wle: "W \<le> 24576" "n \<noteq> 8 \<Longrightarrow> W \<le> 16384" using wh n8 by (auto simp: W_def split: option.splits)
  have "unat (ALIGN_UP (AdjustStrideFromFormat (ai_format info) (ai_width info)) 8) = (W + 7) div 8 * 8"
    using W Wle by (subst unat_ALIGN_UP) auto
  then have "unat (ALIGN_UP (AdjustStrideFromFormat (ai_format info) (ai_width info)) 8 * bitsPerPixel fi) = (W + 7) div 8 * 8 * n"
    using n Wle by (subst unat_mult_lem [THEN iffD1]) (auto simp: n_def)
  then have st: "unat st = (W + 7) div 8 * n"
    by (simp add: st_def unat_div)
  have H: "unat H = (h + 1) div 2 * 2"
    using wh by (simp add: H_def unat_ALIGN_UP h_def)
  have small: "unat H \<le> 16384" "unat st \<le> 65536"
    using wh n Wle by (auto simp: H st)
  then have "unat H * unat st \<le> 16384 * 65536" by (intro mult_le_mono)
  then obtain c where c: "mul32 H st = Some c" "sint c = int (unat H * unat st)"
    using small by (elim mul32_small [rotated 3]) simp_all
  have "image_bytes fi w h \<le> unat H * unat st"
    using n n8 image_fits [of n w h] image_fits(2) [of 8 w h]
    by (cases "planes fi") (auto simp: image_bytes_def H st W_def n_def [symmetric])
  then have "int (image_bytes fi w h) \<le> sint c" unfolding c(2) by (rule zle_int [THEN iffD2])
  moreover have "unat st mod n = 0" by (simp add: st)
  ultimately show ?thesis
    using assms(1) c(1) by (simp add: InitBufferHandle_def H_def [symmetric] st_def [symmetric] w_def h_def n_def)
qed

text \<open>A system whose constants are those of the display interface.\<close>

definition gralloc_example :: gralloc_consts where
  "gralloc_example = \<lparr>HBM_USE_MEM_SHARE = 16, HBM_USE_MEM_MMZ = 4, HBM_USE_MEM_MMZ_CACHE = 32, HBM_USE_MEM_DMA = 8,
     SHM_CREATE_FLAGS = 0x7b6, SHM_OPEN_FLAGS = 0x5b6, EEXIST = 17, SIZEOF_PriBufferHandle = 64, SIZEOF_BufferHandle = 56,
     SIZEOF_GrallocFuncs = 48, ioctl_status = (\<lambda>r. if r < 0 then - 1 else r)\<rparr>"

definition handle_example :: PriBufferHandle where
  "handle_example = zero_handle 0x500"

theorem InitBufferHandle_holds_image_witness:
  "\<exists>b'. InitBufferHandle gralloc_example handle_example
      \<lparr>ai_width = 33, ai_height = 17, ai_usage = 16, ai_format = PIXEL_FMT_YCBCR_420_P\<rparr> = Some (DISPLAY_SUCCESS, b') \<and>
    33 * 17 + 2 * (17 * 9) \<le> sint (bh_size b')"
  using InitBufferHandle_holds_image [of "\<lparr>ai_width = 33, ai_height = 17, ai_usage = 16, ai_format = PIXEL_FMT_YCBCR_420_P\<rparr>"
      "\<lparr>fi_format = PIXEL_FMT_YCBCR_420_P, bitsPerPixel = 8, planes = Some g_yuv420PLayout\<rparr>" gralloc_example handle_example]
  by (auto simp: GetFormatInfo_def fmtInfos_def image_bytes_def)

subsection \<open>The search for a free key\<close>

text \<open>The state of the search after \<open>n\<close> keys that were in use.\<close>

fun probed :: "gralloc_consts \<Rightarrow> u32 \<Rightarrow> int \<Rightarrow> trace \<Rightarrow> nat \<Rightarrow> int \<times> trace" where
  "probed C sz key t 0 = (key, t)"
| "probed C sz key t (Suc n) =
     (let (key, t) = probed C sz key t n
      in (next_key key, Call sys_errno [] # Call sys_shmget [of_int key, sz, SHM_CREATE_FLAGS C] # t))"

definition key_in_use :: "env \<Rightarrow> gralloc_consts \<Rightarrow> u32 \<Rightarrow> int \<times> trace \<Rightarrow> bool" where
  "key_in_use E C sz = (\<lambda>(key, t). let c = [of_int key, sz, SHM_CREATE_FLAGS C] in
     sint (sys_ret E t sys_shmget c) < 0 \<and> sys_ret E (Call sys_shmget c # t) sys_errno [] = EEXIST C)"

lemma probed_shift: "probed C sz key t (Suc n) =
    (let (k, s) = probed C sz key t 1 in probed C sz k s n)"
  by (induction n) (simp_all add: Let_def split: prod.splits)

lemma next_key_range: "1 \<le> key \<Longrightarrow> 1 \<le> next_key key \<and> next_key key < SHM_MAX_KEY"
  by (auto simp: next_key_def)

lemma probed_range: "1 \<le> key \<Longrightarrow> key < SHM_MAX_KEY \<Longrightarrow> 1 \<le> fst (probed C sz key t n) \<and> fst (probed C sz key t n) < SHM_MAX_KEY"
  by (induction n) (auto simp: Let_def next_key_range split: prod.splits)

lemma shm_probe_step: "shm_probe E C sz key t =
    (if key_in_use E C sz (key, t) then shm_probe E C sz (fst (probed C sz key t 1)) (snd (probed C sz key t 1))
     else let c = [of_int key, sz, SHM_CREATE_FLAGS C]; r = sys_ret E t sys_shmget c in
       if sint r < 0 then Some (None, key, Call sys_errno [] # Call sys_shmget c # t) else Some (Some r, key, Call sys_shmget c # t))"
  by (subst shm_probe.simps) (simp add: key_in_use_def io_defs Let_def)

lemma shm_probe_skips:
  "\<forall>i<n. key_in_use E C sz (probed C sz key t i) \<Longrightarrow>
   shm_probe E C sz key t = shm_probe E C sz (fst (probed C sz key t n)) (snd (probed C sz key t n))"
proof (induction n)
  case (Suc n)
  obtain k s where p: "probed C sz key t n = (k, s)" by fastforce
  have "shm_probe E C sz k s = shm_probe E C sz (fst (probed C sz k s 1)) (snd (probed C sz k s 1))"
    using Suc.prems p by (subst shm_probe_step) auto
  then show ?case using Suc p by simp
qed simp

lemma shm_probe_stuck:
  assumes "shm_probe E C sz key t = Some r"
  shows "\<exists>n. \<not> key_in_use E C sz (probed C sz key t n)"
proof (rule shm_probe.raw_induct [where P = "\<lambda>E C sz key t r. \<exists>n. \<not> key_in_use E C sz (probed C sz key t n)", OF _ assms], goal_cases)
  case (1 f E C sz key t y)
  show ?case
  proof (cases "key_in_use E C sz (key, t)")
    case False
    then show ?thesis by (intro exI [of _ 0]) simp
  next
    case True
    then have "f E C sz (fst (probed C sz key t 1)) (snd (probed C sz key t 1)) = Some y"
      using 1(2) by (simp add: key_in_use_def io_defs Let_def)
    then obtain n where "\<not> key_in_use E C sz (probed C sz (fst (probed C sz key t 1)) (snd (probed C sz key t 1)) n)"
      using 1(1) by blast
    then show ?thesis
      by (intro exI [of _ "Suc n"], subst probed_shift) (simp add: case_prod_beta)
  qed
qed


text \<open>Keys stay between 1 and 9999, and a buffer gets the first key that is free: its descriptor is that key and its
  memory the segment created for it, attached and cleared, and the next search starts after it.\<close>

lemma AllocShm_first_free_key:
  assumes "1 \<le> key" and "key < SHM_MAX_KEY" and "\<forall>i<n. key_in_use E C (bh_size b) (probed C (bh_size b) key t i)"
    and "probed C (bh_size b) key t n = (k, s)" and "sys_ret E s sys_shmget [of_int k, bh_size b, SHM_CREATE_FLAGS C] = shmid"
    and "0 \<le> sint shmid"
    and "sys_ret E (Call sys_shmget [of_int k, bh_size b, SHM_CREATE_FLAGS C] # s) sys_shmat [shmid, 0, 0] = p" and "p \<noteq> - 1"
  shows "AllocShm E C b key t = Some (DISPLAY_SUCCESS, b\<lparr>bh_virAddr := p, bh_fd := of_int k, pb_shmid := shmid\<rparr>, next_key k,
      Call c_memset [p, 0, bh_size b] # Call sys_shmat [shmid, 0, 0] #
      Call sys_shmget [of_int k, bh_size b, SHM_CREATE_FLAGS C] # s) \<and>
    1 \<le> k \<and> k < SHM_MAX_KEY \<and> 1 \<le> next_key k \<and> next_key k < SHM_MAX_KEY"
proof -
  have r: "1 \<le> k" "k < SHM_MAX_KEY"
    using probed_range [OF assms(1,2), of C "bh_size b" t n] assms(4) by auto
  have "\<not> key_in_use E C (bh_size b) (k, s)"
    using assms(5,6) by (simp add: key_in_use_def Let_def)
  then have "shm_probe E C (bh_size b) key t = Some (Some shmid, k, Call sys_shmget [of_int k, bh_size b, SHM_CREATE_FLAGS C] # s)"
    using assms(5,6) unfolding shm_probe_skips [OF assms(3)] assms(4) fst_conv snd_conv
    by (subst shm_probe_step) (simp add: Let_def)
  then show ?thesis
    using assms(7,8) r next_key_range [OF r(1)] by (simp add: AllocShm_def io_defs)
qed


text \<open>A system where key 1 is in use and key 2 is free.\<close>

definition shm_env :: env where
  "shm_env = mmz_env\<lparr>sys_ret := (\<lambda>t f xs.
     if f = sys_shmget then (if xs ! 0 = 1 then - 1 else 0x21) else if f = sys_errno then 17
     else if f = sys_shmat then 0x600000 else if f = c_calloc then 0x500 else 0)\<rparr>"

lemma AllocShm_example:
  "AllocShm shm_env gralloc_example b 1 t =
     Some (DISPLAY_SUCCESS, b\<lparr>bh_virAddr := 0x600000, bh_fd := 2, pb_shmid := 0x21\<rparr>, 3,
       Call c_memset [0x600000, 0, bh_size b] # Call sys_shmat [0x21, 0, 0] # Call sys_shmget [2, bh_size b, 0x7b6] #
       Call sys_errno [] # Call sys_shmget [1, bh_size b, 0x7b6] # t)"
  using AllocShm_first_free_key [of 1 1 shm_env gralloc_example b t 2
      "Call sys_errno [] # Call sys_shmget [1, bh_size b, 0x7b6] # t" "0x21" "0x600000"]
  by (simp add: shm_env_def gralloc_example_def key_in_use_def next_key_def)

subsection \<open>What a process holds\<close>

text \<open>Handles on the heap, segments created, and addresses where segments are attached.\<close>

fun handles :: "env \<Rightarrow> trace \<Rightarrow> u32 multiset" where
  "handles E [] = {#}"
| "handles E (Call f xs # t) =
     (if f = c_calloc \<and> sys_ret E t f xs \<noteq> 0 then add_mset (sys_ret E t f xs) (handles E t)
      else if f = c_free then handles E t - {#xs ! 0#} else handles E t)"
| "handles E (_ # t) = handles E t"

fun segments :: "env \<Rightarrow> gralloc_consts \<Rightarrow> trace \<Rightarrow> u32 multiset" where
  "segments E C [] = {#}"
| "segments E C (Call f xs # t) =
     (if f = sys_shmget \<and> xs ! 2 = SHM_CREATE_FLAGS C \<and> 0 \<le> sint (sys_ret E t f xs)
      then add_mset (sys_ret E t f xs) (segments E C t)
      else if f = sys_shmctl then segments E C t - {#xs ! 0#} else segments E C t)"
| "segments E C (_ # t) = segments E C t"

fun attached :: "env \<Rightarrow> trace \<Rightarrow> u32 multiset" where
  "attached E [] = {#}"
| "attached E (Call f xs # t) =
     (if f = sys_shmat \<and> sys_ret E t f xs \<noteq> - 1 then add_mset (sys_ret E t f xs) (attached E t)
      else if f = sys_shmdt then attached E t - {#xs ! 0#} else attached E t)"
| "attached E (_ # t) = attached E t"

text \<open>A history extended by calls of the functions of a set only.\<close>

definition extends_by :: "syscall set \<Rightarrow> trace \<Rightarrow> trace \<Rightarrow> bool" where
  "extends_by F t t' \<longleftrightarrow> (\<exists>us. t' = us @ t \<and> (\<forall>e\<in>set us. \<exists>f xs. e = Call f xs \<and> f \<in> F))"

lemma extends_refl [simp]: "extends_by F t t"
  by (simp add: extends_by_def)

lemma extends_Call [simp]: "f \<in> F \<Longrightarrow> extends_by F t t' \<Longrightarrow> extends_by F t (Call f xs # t')"
  by (force simp: extends_by_def)

lemma extends_trans: "extends_by F t t' \<Longrightarrow> extends_by F t' t'' \<Longrightarrow> extends_by F t t''"
  by (force simp: extends_by_def)

lemma extends_keeps:
  assumes "extends_by F t t'"
  shows "F \<inter> {c_calloc, c_free} = {} \<Longrightarrow> handles E t' = handles E t"
    and "F \<inter> {sys_shmget, sys_shmctl} = {} \<Longrightarrow> segments E C t' = segments E C t"
    and "F \<inter> {sys_shmat, sys_shmdt} = {} \<Longrightarrow> attached E t' = attached E t"
    and "F \<inter> {LOS_RegionAlloc, LOS_RegionFree} = {} \<Longrightarrow> regions E t' = regions E t"
proof -
  obtain us where t: "t' = us @ t" and us: "\<forall>e\<in>set us. \<exists>f xs. e = Call f xs \<and> f \<in> F"
    using assms by (auto simp: extends_by_def)
  show "handles E t' = handles E t" if "F \<inter> {c_calloc, c_free} = {}"
    unfolding t using us that by (induction us) force+
  show "segments E C t' = segments E C t" if "F \<inter> {sys_shmget, sys_shmctl} = {}"
    unfolding t using us that by (induction us) force+
  show "attached E t' = attached E t" if "F \<inter> {sys_shmat, sys_shmdt} = {}"
    unfolding t using us that by (induction us) force+
  show "regions E t' = regions E t" if "F \<inter> {LOS_RegionAlloc, LOS_RegionFree} = {}"
    unfolding t using us that by (induction us) force+
qed

definition mmz_calls :: "syscall set" where
  "mmz_calls = {LOS_RegionAlloc, LOS_RegionFree, LOS_PhysPagesAlloc, LOS_PaddrQuery, LOS_VmPageGet, LOS_AtomicInc,
     LOS_ArchMmuMap, LOS_RegionFind, LOS_MuxAcquire, LOS_MuxRelease, OsUnMMap, DCacheFlushRange, DCacheInvRange}"

lemma map_pages_calls:
  assumes "map_pages E M flags region v p sz s t = Some r"
  shows "extends_by mmz_calls t (snd (snd r))"
proof (rule map_pages.raw_induct [where P = "\<lambda>E M flags region v p sz s t r. extends_by mmz_calls t (snd (snd r))", OF _ assms], goal_cases)
  case (1 f E M flags region v p sz s t r)
  define t3 where "t3 = Call LOS_ArchMmuMap [curVmSpace M, v, p, 1, flags] # Call LOS_AtomicInc [sys_ret E t LOS_VmPageGet [p]] # Call LOS_VmPageGet [p] # t"
  have t3: "extends_by mmz_calls t t3" by (simp add: t3_def mmz_calls_def)
  have k: "\<exists>v p sz s. f E M flags region v p sz s t3 = Some r \<or> extends_by mmz_calls t (snd (snd r))"
    using 1(2) by (auto simp: io_defs Let_def t3_def mmz_calls_def split: if_splits)
  then show ?case using 1(1) extends_trans [OF t3] by blast
qed

lemma MmzIoctl_calls:
  assumes "MmzIoctl E M cmd m t = Some (r, m', t')"
  shows "extends_by mmz_calls t t'"
proof -
  have alloc: "extends_by mmz_calls t t'" if "MmzAlloc E M cmd m t = Some (r, m', t')"
    using that by (auto simp: MmzAlloc_def io_defs Let_def mmz_calls_def split: option.splits if_splits Option.bind_splits
        dest!: map_pages_calls intro: extends_trans [rotated])
  have mp: "extends_by mmz_calls t t'" if "MmzMap E M cmd m t = Some (r, m', t')"
    using that by (auto simp: MmzMap_def io_defs Let_def mmz_calls_def split: option.splits if_splits Option.bind_splits
        dest!: map_pages_calls intro: extends_trans [rotated])
  have "extends_by mmz_calls t (snd (MmzFree E M m t))"
    by (simp add: MmzFree_def io_defs Let_def mmz_calls_def)
  moreover have "extends_by mmz_calls t (snd (MmzUnMap E M m t))" "extends_by mmz_calls t (snd (MmzFlush m t))"
    "extends_by mmz_calls t (snd (MmzInvalidate m t))"
    by (simp_all add: MmzUnMap_def MmzFlush_def MmzInvalidate_def io_defs Let_def mmz_calls_def)
  ultimately show ?thesis
    using assms alloc mp by (auto simp: MmzIoctl_def split: if_splits prod.splits)
qed

lemma extends_mono: "extends_by F t t' \<Longrightarrow> F \<subseteq> G \<Longrightarrow> extends_by G t t'"
  unfolding extends_by_def by (elim exE) (intro exI, blast)

lemma extends_after: "extends_by F (Call f xs # t) t' \<Longrightarrow> f \<in> F \<Longrightarrow> extends_by F t t'"
  by (rule extends_trans [of F t "Call f xs # t"]) simp_all

definition gralloc_calls :: "syscall set" where
  "gralloc_calls = mmz_calls \<union> {sys_open, sys_close, c_memset}"

lemma SendCmd_calls:
  assumes "SendCmd E C M cmd m t = Some (r, m', t')"
  shows "extends_by gralloc_calls t t'"
proof (cases "sys_ret E t sys_open [] = - 1")
  case True
  then show ?thesis using assms by (auto simp: SendCmd_def io_defs gralloc_calls_def)
next
  case False
  then obtain q s where "MmzIoctl E M cmd m (Call sys_open [] # t) = Some (q, m', s)"
    and t': "t' = Call sys_close [sys_ret E t sys_open []] # s"
    using assms by (auto simp: SendCmd_def io_defs split: Option.bind_splits)
  then have "extends_by gralloc_calls (Call sys_open [] # t) s"
    using MmzIoctl_calls extends_mono gralloc_calls_def by blast
  then have "extends_by gralloc_calls t s"
    by (rule extends_after) (simp add: gralloc_calls_def)
  then show ?thesis by (simp add: t' gralloc_calls_def)
qed

lemma AllocMmz_calls:
  assumes "AllocMmz E C M b t = Some (r, b', t')"
  shows "extends_by gralloc_calls t t' \<and> pb_addr b' = pb_addr b \<and> bh_usage b' = bh_usage b \<and> bh_size b' = bh_size b \<and>
    (r = DISPLAY_SUCCESS \<or> r = DISPLAY_NOT_SUPPORT)"
proof -
  have c: "c_memset \<in> gralloc_calls" by (simp add: gralloc_calls_def)
  show ?thesis
    using assms by (auto simp: AllocMmz_def io_defs Let_def c split: if_splits Option.bind_splits dest: SendCmd_calls)
qed

lemma InitBufferHandle_keeps: "InitBufferHandle C b info = Some (r, b') \<Longrightarrow>
    pb_addr b' = pb_addr b \<and> bh_virAddr b' = bh_virAddr b \<and>
    (r = DISPLAY_SUCCESS \<longrightarrow> bh_usage b' = ai_usage info \<and> pb_shmid b' = INVALID_SHMID)"
  by (auto simp: InitBufferHandle_def Let_def split: option.splits Option.bind_splits)

text \<open>The search creates no segment before it finds its key.\<close>

lemma shm_probe_calls:
  assumes "shm_probe E C sz key t = Some (found, k, t')"
  shows "handles E t' = handles E t \<and> attached E t' = attached E t \<and>
    segments E C t' = (case found of None \<Rightarrow> segments E C t | Some s \<Rightarrow> add_mset s (segments E C t))"
proof -
  let ?P = "\<lambda>E C (sz :: u32) (key :: int) t (found, k :: int, t'). handles E t' = handles E t \<and> attached E t' = attached E t \<and>
    segments E C t' = (case found of None \<Rightarrow> segments E C t | Some s \<Rightarrow> add_mset s (segments E C t))"
  have "?P E C sz key t (found, k, t')"
  proof (rule shm_probe.raw_induct [where P = ?P, OF _ assms], goal_cases)
    case (1 f E C sz key t y)
    define c where "c = [of_int key, sz, SHM_CREATE_FLAGS C]"
    have "c ! 2 = SHM_CREATE_FLAGS C" by (simp add: c_def)
    then show ?case
      using 1(2) 1(1) by (cases y) (auto simp: io_defs Let_def c_def [symmetric] not_less split: if_splits option.splits)
  qed
  then show ?thesis by simp
qed

lemma AllocShm_calls:
  assumes "AllocShm E C b key t = Some (r, b', k, t')"
  shows "handles E t' = handles E t \<and> pb_addr b' = pb_addr b \<and> bh_usage b' = bh_usage b \<and> bh_size b' = bh_size b \<and>
    (if r = DISPLAY_SUCCESS
     then segments E C t' = add_mset (pb_shmid b') (segments E C t) \<and> attached E t' = add_mset (bh_virAddr b') (attached E t)
     else r = DISPLAY_FAILURE \<and> segments E C t' = segments E C t \<and> attached E t' = attached E t)"
  using assms by (auto simp: AllocShm_def io_defs Let_def split: option.splits if_splits Option.bind_splits dest!: shm_probe_calls)

definition AllocMem_block :: "env \<Rightarrow> gralloc_consts \<Rightarrow> trace \<Rightarrow> u32" where
  "AllocMem_block E C t = sys_ret E t c_calloc [1, SIZEOF_PriBufferHandle C]"

lemma AllocMem_early: "buffer = None \<or> info = None \<or> AllocMem_block E C t = 0 \<Longrightarrow>
    AllocMem E C M info buffer key t = Some (DISPLAY_NULL_PTR, buffer, key,
      if buffer = None \<or> info = None then t else Call c_calloc [1, SIZEOF_PriBufferHandle C] # t)"
  by (cases info) (auto simp: AllocMem_def AllocMem_block_def io_defs)

lemma AllocMem_main: "buffer \<noteq> None \<Longrightarrow> AllocMem_block E C t \<noteq> 0 \<Longrightarrow>
    AllocMem E C M (Some i) buffer key t = do {
      (ret, b) \<leftarrow> InitBufferHandle C (zero_handle (AllocMem_block E C t)) i;
      if ret \<noteq> DISPLAY_SUCCESS then None else do {
        (ret, b, key, t') \<leftarrow> alloc_memory E C M ret b key (Call c_calloc [1, SIZEOF_PriBufferHandle C] # t);
        Some (if ret \<noteq> DISPLAY_SUCCESS then (ret, Some None, key, kproc c_free [AllocMem_block E C t] t')
              else (ret, Some (Some b), key, t')) }}"
  unfolding AllocMem_def AllocMem_block_def kcall_def by (auto simp del: not_None_eq)

lemma gralloc_calls_keep:
  assumes "extends_by gralloc_calls t t'"
  shows "handles E t' = handles E t" "segments E C t' = segments E C t" "attached E t' = attached E t"
  using extends_keeps [OF assms] by (auto simp: gralloc_calls_def mmz_calls_def)

lemma alloc_memory_calls:
  assumes "alloc_memory E C M DISPLAY_SUCCESS b key t = Some (r, b', k, t')"
  shows "handles E t' = handles E t \<and> pb_addr b' = pb_addr b \<and>
    (if r = DISPLAY_SUCCESS \<and> bh_usage b' = HBM_USE_MEM_SHARE C \<and> \<not> size_invalid b'
     then segments E C t' = add_mset (pb_shmid b') (segments E C t) \<and> attached E t' = add_mset (bh_virAddr b') (attached E t)
     else segments E C t' = segments E C t \<and> attached E t' = attached E t)"
proof -
  consider "size_invalid b" | "\<not> size_invalid b" "bh_usage b = HBM_USE_MEM_SHARE C"
    | "\<not> size_invalid b" "bh_usage b \<noteq> HBM_USE_MEM_SHARE C" "bh_usage b = HBM_USE_MEM_DMA C \<or> bh_usage b = HBM_USE_MEM_MMZ C"
    | "\<not> size_invalid b" "bh_usage b \<noteq> HBM_USE_MEM_SHARE C" "\<not> (bh_usage b = HBM_USE_MEM_DMA C \<or> bh_usage b = HBM_USE_MEM_MMZ C)"
    by blast
  then show ?thesis
  proof cases
    case 2
    then have "AllocShm E C b key t = Some (r, b', k, t')" using assms by (simp add: alloc_memory_def)
    from AllocShm_calls [OF this] show ?thesis using 2 by (auto simp: size_invalid_def)
  next
    case 3
    then obtain q s where a: "AllocMmz E C M b t = Some (r, b', t')"
      using assms by (auto simp: alloc_memory_def split: Option.bind_splits)
    from AllocMmz_calls [OF a] gralloc_calls_keep show ?thesis using 3 by auto
  qed (use assms in \<open>auto simp: alloc_memory_def\<close>)
qed

lemma AllocMem_balanced_aux:
  assumes "AllocMem E C M info buffer key t = Some (ret, out, key', t')"
  shows "if ret = DISPLAY_SUCCESS
    then \<exists>b. out = Some (Some b) \<and> pb_addr b \<noteq> 0 \<and> handles E t' = add_mset (pb_addr b) (handles E t) \<and>
      (if bh_usage b = HBM_USE_MEM_SHARE C \<and> \<not> size_invalid b
       then segments E C t' = add_mset (pb_shmid b) (segments E C t) \<and> attached E t' = add_mset (bh_virAddr b) (attached E t)
       else segments E C t' = segments E C t \<and> attached E t' = attached E t)
    else (out = buffer \<or> out = Some None) \<and> handles E t' = handles E t \<and> segments E C t' = segments E C t \<and>
      attached E t' = attached E t"
proof (cases "buffer = None \<or> info = None \<or> AllocMem_block E C t = 0")
  case True
  then show ?thesis using AllocMem_early [OF True] assms by (auto simp: AllocMem_block_def)
next
  case False
  then obtain i where i: "info = Some i" and nb: "buffer \<noteq> None" and nz: "AllocMem_block E C t \<noteq> 0" by auto
  define p where "p = AllocMem_block E C t"
  define t1 where "t1 = Call c_calloc [1, SIZEOF_PriBufferHandle C] # t"
  have p: "p \<noteq> 0" "handles E t1 = add_mset p (handles E t)" "segments E C t1 = segments E C t" "attached E t1 = attached E t"
    using nz by (simp_all add: p_def t1_def AllocMem_block_def)
  note e = assms [unfolded i AllocMem_main [OF nb nz], folded p_def, folded t1_def]
  then obtain q b0 where ini0: "InitBufferHandle C (zero_handle p) i = Some (q, b0)" by (cases "InitBufferHandle C (zero_handle p) i") auto
  have q: "q = DISPLAY_SUCCESS" using e by (simp add: ini0 split: if_splits)
  note ini = ini0 [unfolded q]
  note e1 = e [unfolded ini Option.bind.bind_lunit prod.case]
  then obtain r b k t2 where d: "alloc_memory E C M DISPLAY_SUCCESS b0 key t1 = Some (r, b, k, t2)"
    by (cases "alloc_memory E C M DISPLAY_SUCCESS b0 key t1") auto
  have res: "(ret, out, key', t') = (if r \<noteq> DISPLAY_SUCCESS then (r, Some None, k, Call c_free [p] # t2) else (r, Some (Some b), k, t2))"
    using e1 by (auto simp: d io_defs)
  have b0: "pb_addr b0 = p" using InitBufferHandle_keeps [OF ini] by (simp add: zero_handle_def)
  note m = alloc_memory_calls [OF d]
  show ?thesis
  proof (cases "r = DISPLAY_SUCCESS")
    case True
    then have "ret = DISPLAY_SUCCESS" "out = Some (Some b)" "t' = t2" using res by simp_all
    then show ?thesis using m p b0 True by simp
  next
    case False
    then have "ret = r" "out = Some None" "t' = Call c_free [p] # t2" using res by simp_all
    then show ?thesis using m p b0 False by simp
  qed
qed


abbreviation "info_example u \<equiv> \<lparr>ai_width = 8, ai_height = 2, ai_usage = u, ai_format = PIXEL_FMT_BGR_565\<rparr>"

definition buffer_example :: "u64 \<Rightarrow> PriBufferHandle" where
  "buffer_example u = (zero_handle 0x500)\<lparr>bh_width := 8, bh_stride := 16, bh_height := 2, bh_size := 32, bh_usage := u,
     bh_fd := - 1, pb_shmid := INVALID_SHMID, bh_format := PIXEL_FMT_BGR_565, bh_reserveInts := 2\<rparr>"

lemma Init_example: "InitBufferHandle gralloc_example (zero_handle 0x500) (info_example u) = Some (DISPLAY_SUCCESS, buffer_example u)"
  by (simp add: InitBufferHandle_def GetFormatInfo_def fmtInfos_def AdjustStrideFromFormat_def ALIGN_UP_def mul32_def
      zero_handle_def buffer_example_def gralloc_example_def)

lemma block_example: "AllocMem_block shm_env gralloc_example t = 0x500"
  by (simp add: AllocMem_block_def shm_env_def)

lemma AllocMem_example:
  "\<exists>t'. AllocMem shm_env gralloc_example mmz_example (Some (info_example 16)) (Some None) 1 [] =
     Some (DISPLAY_SUCCESS, Some (Some ((buffer_example 16)\<lparr>bh_virAddr := 0x600000, bh_fd := 2, pb_shmid := 0x21\<rparr>)), 3, t')"
proof -
  have "\<not> size_invalid (buffer_example 16)" "bh_usage (buffer_example 16) = HBM_USE_MEM_SHARE gralloc_example"
    by (simp_all add: size_invalid_def buffer_example_def gralloc_example_def)
  then show ?thesis
    by (subst AllocMem_main) (simp_all add: block_example Init_example alloc_memory_def AllocShm_example)
qed




text \<open>Shared memory that was allocated and freed again is detached and its segment removed, so that the process holds
  what it held before, except for the handle: \<open>FreeMem\<close> leaves its block on the heap.\<close>

theorem AllocMem_FreeMem_share:
  assumes "AllocMem E C M info buffer key t = Some (DISPLAY_SUCCESS, Some (Some b), key', t')"
    and "bh_usage b = HBM_USE_MEM_SHARE C" and "HBM_USE_MEM_SHARE C \<notin> {HBM_USE_MEM_MMZ C, HBM_USE_MEM_MMZ_CACHE C}"
    and "\<not> size_invalid b" and "bh_virAddr b \<noteq> 0"
  shows "\<exists>t''. FreeMem E C M (Some b) t' = Some t'' \<and> segments E C t'' = segments E C t \<and> attached E t'' = attached E t \<and>
    handles E t'' = add_mset (pb_addr b) (handles E t)"
proof -
  have "handles E t' = add_mset (pb_addr b) (handles E t)" "segments E C t' = add_mset (pb_shmid b) (segments E C t)"
    "attached E t' = add_mset (bh_virAddr b) (attached E t)"
    using AllocMem_balanced_aux [OF assms(1)] assms(2,4) by auto
  then show ?thesis
    using assms(2-5) by (simp add: FreeMem_def FreeShm_def io_defs)
qed

theorem AllocMem_FreeMem_share_witness:
  "\<exists>b t' t''. AllocMem shm_env gralloc_example mmz_example (Some (info_example 16)) (Some None) 1 [] =
     Some (DISPLAY_SUCCESS, Some (Some b), 3, t') \<and> FreeMem shm_env gralloc_example mmz_example (Some b) t' = Some t'' \<and>
     segments shm_env gralloc_example t'' = {#} \<and> handles shm_env t'' = {#0x500#}"
proof -
  define b where "b = (buffer_example 16)\<lparr>bh_virAddr := 0x600000, bh_fd := 2, pb_shmid := 0x21\<rparr>"
  obtain t' where a: "AllocMem shm_env gralloc_example mmz_example (Some (info_example 16)) (Some None) 1 [] =
     Some (DISPLAY_SUCCESS, Some (Some b), 3, t')"
    using AllocMem_example unfolding b_def ..
  have b: "pb_addr b = 0x500" "bh_usage b = HBM_USE_MEM_SHARE gralloc_example" "\<not> size_invalid b" "bh_virAddr b \<noteq> 0"
    "HBM_USE_MEM_SHARE gralloc_example \<notin> {HBM_USE_MEM_MMZ gralloc_example, HBM_USE_MEM_MMZ_CACHE gralloc_example}"
    by (simp_all add: b_def buffer_example_def zero_handle_def gralloc_example_def size_invalid_def)
  show ?thesis using AllocMem_FreeMem_share [OF a b(2,5,3,4)] a b(1) by auto
qed

end
