(* ===== verification/Layer.thy ===== *)
theory Layer
  imports Gralloc
begin

text \<open>
  The display layer of user space, \<open>hardware/display/display_layer.c\<close>: one layer on the frame buffer \<open>/dev/fb0\<close>,
  mapped into the process. The one static \<open>LayerPrivate\<close> is the state; the words that are mapped at \<open>fbAddr\<close> are
  part of it, none when nothing is mapped, and an access outside them is undefined.
\<close>

subsection \<open>Data\<close>

record LayerPrivate =
  lp_fd :: int
  lp_width :: u32
  lp_height :: u32
  lp_pitch :: u32
  lp_fbAddr :: u32
  lp_fbSize :: u32
  lp_layerAddr :: u32
  lp_pixFmt :: PixelFormat
  lp_map :: "u32 list"

record DisplayInfo =
  di_width :: u32
  di_height :: u32
  di_rotAngle :: nat

text \<open>A buffer of the caller, with the words that can be read at its address.\<close>

record LayerBuffer =
  lb_fenceId :: int
  lb_width :: u32
  lb_height :: u32
  lb_pixFormat :: PixelFormat
  lb_pitch :: u32
  lb_virAddr :: u32
  lb_words :: "u32 list"

text \<open>What the frame buffer shows when it is mapped, and the size of the table of functions.\<close>

record layer_consts =
  screen :: "nat \<Rightarrow> u32"
  SIZEOF_LayerFuncs :: u32

abbreviation (input) DEV_ID :: u32 where "DEV_ID \<equiv> 0"
abbreviation (input) LAYER_ID :: u32 where "LAYER_ID \<equiv> 0"
abbreviation (input) MAP_FAILED :: u32 where "MAP_FAILED \<equiv> - 1"
abbreviation (input) ROTATE_NONE :: nat where "ROTATE_NONE \<equiv> 0"

definition layer0 :: LayerPrivate where
  "layer0 = \<lparr>lp_fd = - 1, lp_width = 960, lp_height = 480, lp_pitch = 0, lp_fbAddr = 0, lp_fbSize = 0, lp_layerAddr = 0,
     lp_pixFmt = PIXEL_FMT_RGBA_8888, lp_map = []\<rparr>"

subsection \<open>Operations\<close>

definition InitDisplay :: "u32 \<Rightarrow> int" where
  "InitDisplay devId = (if devId \<noteq> DEV_ID then DISPLAY_FAILURE else DISPLAY_SUCCESS)"

definition DeinitDisplay :: "u32 \<Rightarrow> int" where
  "DeinitDisplay devId = (if devId \<noteq> DEV_ID then DISPLAY_FAILURE else DISPLAY_SUCCESS)"

text \<open>The two loops of \<open>SetBackground\<close>, over the columns and over the rows that are left.\<close>

fun fill_row :: "u32 \<Rightarrow> u32 \<Rightarrow> u32 \<Rightarrow> nat list \<Rightarrow> u32 list \<Rightarrow> u32 list option" where
  "fill_row c w j [] fb = Some fb"
| "fill_row c w j (i # is) fb = do { fb \<leftarrow> aset fb (unat (of_nat i + j * w)) c; fill_row c w j is fb }"

fun fill_rows :: "u32 \<Rightarrow> u32 \<Rightarrow> nat list \<Rightarrow> u32 list \<Rightarrow> u32 list option" where
  "fill_rows c w [] fb = Some fb"
| "fill_rows c w (j # js) fb = do { fb \<leftarrow> fill_row c w (of_nat j) [0..<unat w] fb; fill_rows c w js fb }"

definition SetBackground :: "LayerPrivate \<Rightarrow> LayerPrivate option" where
  "SetBackground priv = do {
     fb \<leftarrow> fill_rows 0xFF (lp_width priv) [0..<unat (lp_height priv)] (lp_map priv);
     Some (priv\<lparr>lp_map := fb\<rparr>) }"

text \<open>The signed product \<open>width * BITS_PER_PIXEL / BITS_TO_BYTE\<close>, undefined when it overflows; the division is exact.\<close>

definition layer_pitch :: "u32 \<Rightarrow> u32 option" where
  "layer_pitch width = do { p \<leftarrow> mul32 width 32; Some (of_int (sint p div 8)) }"

definition layer_fbSize :: "u32 \<Rightarrow> u32 \<Rightarrow> u32" where
  "layer_fbSize pitch height = (pitch * height + 0xfff) AND NOT 0xfff"

text \<open>\<open>layerInfo\<close> is the width asked for, \<open>None\<close> for the null pointer; \<open>layerId\<close> says whether the pointer is not null.\<close>

definition CreateLayer ::
  "env \<Rightarrow> layer_consts \<Rightarrow> u32 \<Rightarrow> u32 option \<Rightarrow> bool \<Rightarrow> LayerPrivate \<Rightarrow> trace \<Rightarrow>
   (int \<times> u32 option \<times> LayerPrivate \<times> trace) option" where
  "CreateLayer E L devId layerInfo layerId priv t =
     (if layerInfo = None \<or> \<not> layerId then Some (DISPLAY_NULL_PTR, None, priv, t)
      else if devId \<noteq> DEV_ID then Some (DISPLAY_FAILURE, None, priv, t)
      else let (fd, t) = kcall E sys_open [] t; priv = priv\<lparr>lp_fd := sint fd\<rparr>
      in if lp_fd priv < 0 then Some (DISPLAY_FD_ERR, None, priv, t) else do {
        pitch \<leftarrow> layer_pitch (the layerInfo);
        let fbSize = layer_fbSize pitch (lp_height priv);
        let (a, t) = kcall E sys_mmap [0, fbSize, fd] t;
        let priv = priv\<lparr>lp_pitch := pitch, lp_fbSize := fbSize, lp_fbAddr := a,
          lp_map := (if a = 0 \<or> a = MAP_FAILED then [] else map (screen L) [0..<unat fbSize div 4])\<rparr>;
        if a = 0 then
          let (_, t) = kcall E sys_close [fd] t
          in Some (DISPLAY_FAILURE, None, priv\<lparr>lp_fd := - 1, lp_pitch := 0, lp_fbSize := 0\<rparr>, t)
        else do {
          priv \<leftarrow> SetBackground priv;
          Some (DISPLAY_SUCCESS, Some LAYER_ID, priv, t)
        }
      })"

definition CloseLayer :: "env \<Rightarrow> u32 \<Rightarrow> u32 \<Rightarrow> LayerPrivate \<Rightarrow> trace \<Rightarrow> int \<times> LayerPrivate \<times> trace" where
  "CloseLayer E devId layerId priv t =
     (if devId \<noteq> DEV_ID then (DISPLAY_FAILURE, priv, t)
      else if layerId \<noteq> LAYER_ID then (DISPLAY_FAILURE, priv, t)
      else let t = (if 0 \<le> lp_fd priv then snd (kcall E sys_close [of_int (lp_fd priv)] t) else t);
               (priv, t) = (if lp_layerAddr priv \<noteq> 0 then (priv\<lparr>lp_layerAddr := 0\<rparr>, kproc c_free [lp_layerAddr priv] t)
                            else (priv, t));
               (priv, t) = (if lp_fbAddr priv \<noteq> 0
                            then (priv\<lparr>lp_map := []\<rparr>, snd (kcall E sys_munmap [lp_fbAddr priv, lp_fbSize priv] t)) else (priv, t))
           in (DISPLAY_SUCCESS, priv\<lparr>lp_fd := - 1\<rparr>, t))"

definition GetDisplayInfo :: "u32 \<Rightarrow> bool \<Rightarrow> LayerPrivate \<Rightarrow> int \<times> DisplayInfo option" where
  "GetDisplayInfo devId dispInfo priv =
     (if \<not> dispInfo then (DISPLAY_NULL_PTR, None)
      else if devId \<noteq> DEV_ID then (DISPLAY_FAILURE, None)
      else (DISPLAY_SUCCESS, Some \<lparr>di_width = lp_width priv, di_height = lp_height priv, di_rotAngle = ROTATE_NONE\<rparr>))"

text \<open>\<open>memcpy_s\<close> checks null pointers and the size of the destination; when it copies, source and destination must have
  \<open>fbSize\<close> bytes.\<close>

definition copy_frame ::
  "env \<Rightarrow> LayerPrivate \<Rightarrow> LayerBuffer \<Rightarrow> trace \<Rightarrow> (int \<times> LayerPrivate \<times> trace) option" where
  "copy_frame E priv b t =
     (let (ret, t) = kcall E memcpy_s [lp_fbAddr priv, lp_fbSize priv, lb_virAddr b, lp_fbSize priv] t;
          n = unat (lp_fbSize priv) div 4
      in if ret \<noteq> 0 then Some (sint ret, priv, t)
         else if length (lp_map priv) < n \<or> length (lb_words b) < n then None
         else Some (DISPLAY_SUCCESS, priv\<lparr>lp_map := take n (lb_words b) @ drop n (lp_map priv)\<rparr>, t))"

definition Flush ::
  "env \<Rightarrow> u32 \<Rightarrow> u32 \<Rightarrow> LayerBuffer option \<Rightarrow> LayerPrivate \<Rightarrow> trace \<Rightarrow> (int \<times> LayerPrivate \<times> trace) option" where
  "Flush E devId layerId buffer priv t =
     (if devId \<noteq> DEV_ID then Some (DISPLAY_FAILURE, priv, t)
      else if layerId \<noteq> LAYER_ID then Some (DISPLAY_FAILURE, priv, t)
      else case buffer of None \<Rightarrow> Some (DISPLAY_FAILURE, priv, t) | Some b \<Rightarrow> copy_frame E priv b t)"

definition GetLayerBuffer ::
  "env \<Rightarrow> u32 \<Rightarrow> u32 \<Rightarrow> LayerBuffer option \<Rightarrow> LayerPrivate \<Rightarrow> trace \<Rightarrow> int \<times> LayerBuffer option \<times> LayerPrivate \<times> trace" where
  "GetLayerBuffer E devId layerId buffer priv t =
     (case buffer of None \<Rightarrow> (DISPLAY_NULL_PTR, None, priv, t)
      | Some b \<Rightarrow>
          if devId \<noteq> DEV_ID then (DISPLAY_FAILURE, buffer, priv, t)
          else if layerId \<noteq> LAYER_ID then (DISPLAY_FAILURE, buffer, priv, t)
          else if lp_fd priv < 0 then (DISPLAY_FAILURE, buffer, priv, t)
          else let (a, t) = kcall E c_malloc [lp_fbSize priv] t;
                   b = b\<lparr>lb_fenceId := 0, lb_width := lp_width priv, lb_height := lp_height priv,
                         lb_pixFormat := lp_pixFmt priv, lb_pitch := lp_pitch priv, lb_virAddr := a\<rparr>
               in if a = 0 then (DISPLAY_FAILURE, Some b, priv, t)
                  else (DISPLAY_SUCCESS, Some (b\<lparr>lb_words := replicate (unat (lp_fbSize priv) div 4) 0\<rparr>),
                        priv\<lparr>lp_layerAddr := a\<rparr>, kproc c_memset [a, 0, lp_fbSize priv] t))"

definition LayerInitialize :: "env \<Rightarrow> layer_consts \<Rightarrow> bool \<Rightarrow> trace \<Rightarrow> int \<times> u32 option \<times> trace" where
  "LayerInitialize E L funcs t =
     (if \<not> funcs then (DISPLAY_NULL_PTR, None, t)
      else let (p, t) = kcall E c_malloc [SIZEOF_LayerFuncs L] t
           in if p = 0 then (DISPLAY_NULL_PTR, None, t)
              else (DISPLAY_SUCCESS, Some p, kproc c_memset [p, 0, SIZEOF_LayerFuncs L] t))"

definition LayerUninitialize :: "u32 \<Rightarrow> trace \<Rightarrow> int \<times> trace" where
  "LayerUninitialize funcs t = (if funcs = 0 then (DISPLAY_NULL_PTR, t) else (DISPLAY_SUCCESS, kproc c_free [funcs] t))"

subsection \<open>The background\<close>

lemma fill_row_append: "fill_row c w j (xs @ ys) fb = do { fb \<leftarrow> fill_row c w j xs fb; fill_row c w j ys fb }"
  by (induction xs arbitrary: fb) (auto split: Option.bind_split)

lemma fill_rows_append: "fill_rows c w (xs @ ys) fb = do { fb \<leftarrow> fill_rows c w xs fb; fill_rows c w ys fb }"
  by (induction xs arbitrary: fb) (auto split: Option.bind_split)

lemma aset_after_prefix: "length xs = k \<Longrightarrow> aset (xs @ ys) k c = (if ys = [] then None else Some (xs @ c # tl ys))"
  by (cases ys) (auto simp: aset_def)

lemma fill_row_upt:
  assumes "unat j * unat w + n < 2 ^ 32" and "J = unat j * unat w"
  shows "fill_row c w j [0..<n] fb =
    (if 0 < n \<and> length fb < J + n then None else Some (if n = 0 then fb else take J fb @ replicate n c @ drop (J + n) fb))"
  using assms(1)
proof (induction n)
  case (Suc n)
  have ix: "unat (of_nat n + j * w) = J + n"
    using Suc.prems assms(2) by (simp add: unat_word_ariths unat_of_nat take_bit_nat_eq_self)
  note IH = Suc.IH [OF Suc_lessD [OF Suc.prems [simplified add_Suc_right]]]
  show ?case
  proof (cases "length fb < J + Suc n")
    case True
    then have "fill_row c w j [0..<n] fb = None \<or> (\<exists>xs. fill_row c w j [0..<n] fb = Some xs \<and> length xs = length fb)"
      unfolding IH by auto
    then show ?thesis using True by (auto simp: fill_row_append ix aset_def)
  next
    case False
    define ys where "ys = take J fb @ replicate n c"
    have l: "length ys = J + n" using False by (simp add: ys_def)
    have d: "drop (J + n) fb \<noteq> []" "tl (drop (J + n) fb) = drop (J + Suc n) fb"
      using False by (simp_all add: tl_drop drop_Suc)
    have s: "fill_row c w j [0..<n] fb = Some (ys @ drop (J + n) fb)"
      using False by (cases "n = 0") (simp_all add: IH ys_def)
    have "aset (ys @ drop (J + n) fb) (J + n) c = Some (ys @ c # drop (J + Suc n) fb)"
      using d by (simp only: aset_after_prefix [OF l] if_False)
    then have "fill_row c w j [0..<Suc n] fb = Some (ys @ c # drop (J + Suc n) fb)"
      by (simp add: fill_row_append ix s)
    then show ?thesis using False by (simp add: ys_def replicate_app_Cons_same)
  qed
qed simp

lemma fill_rows_upt:
  assumes "n * unat w < 2 ^ 32"
  shows "fill_rows c w [0..<n] fb =
    (if length fb < n * unat w then None else Some (replicate (n * unat w) c @ drop (n * unat w) fb))"
  using assms
proof (induction n)
  case (Suc n)
  show ?case
  proof (cases "unat w = 0")
    case True
    then show ?thesis using Suc by (simp add: fill_rows_append)
  next
    case False
    then have "n \<le> n * unat w" by simp
    moreover have "n * unat w < 2 ^ 32" using Suc.prems by simp
    ultimately have "n < 2 ^ 32" by (rule le_less_trans)
    then have n: "unat (of_nat n :: u32) = n" by (simp add: unat_of_nat take_bit_nat_eq_self)
    have row: "unat (of_nat n :: u32) * unat w + unat w < 2 ^ 32" using Suc.prems unfolding n by simp
    show ?thesis
      using Suc False fill_row_upt [OF row refl, of c]
      by (auto simp: fill_rows_append n replicate_add [symmetric] add.commute)
  qed
qed simp

text \<open>The background is defined exactly when the mapping has a word for every pixel of the screen.\<close>

lemma SetBackground_eq:
  assumes "unat (lp_height p) * unat (lp_width p) < 2 ^ 32"
  shows "SetBackground p =
    (let n = unat (lp_height p) * unat (lp_width p) in
     if length (lp_map p) < n then None else Some (p\<lparr>lp_map := replicate n 0xFF @ drop n (lp_map p)\<rparr>))"
  using fill_rows_upt [OF assms] by (simp add: SetBackground_def Let_def)


lemma layer_pitch_eq: "unat w < 2 ^ 26 \<Longrightarrow> layer_pitch w = Some (w * 4)"
proof -
  assume w: "unat w < 2 ^ 26"
  obtain p where p: "mul32 w 32 = Some p" "sint p = int (unat w * unat (32 :: u32))"
    using w by (elim mul32_small [of w 32, rotated 3]) simp_all
  have "int (unat w * unat (32 :: u32)) div 8 = int (unat w) * 4" by simp
  then show ?thesis by (simp add: layer_pitch_def p)
qed

lemma layer_fbSize_eq:
  assumes "unat w * 4 * unat h + 4096 < 2 ^ 32" and "unat w < 2 ^ 26"
  shows "unat (layer_fbSize (w * 4) h) = (unat w * 4 * unat h + 4095) div 4096 * 4096"
proof -
  have a: "unat (w * 4) = unat w * 4" using assms(2) by (subst unat_mult_lem [THEN iffD1]) simp_all
  have b: "unat (w * 4 * h) = unat w * 4 * unat h" using assms(1) a by (subst unat_mult_lem [THEN iffD1]) simp_all
  have s: "unat (w * 4 * h + 0xfff) = unat w * 4 * unat h + 4095"
    using assms(1) unfolding b [symmetric] by (subst unat_add_lem [THEN iffD1]) simp_all
  have "(x :: u32) AND NOT 0xfff = of_nat (unat x div 4096 * 4096)" for x
  proof -
    have "x AND NOT 0xfff = x AND NOT (mask 12)" by (simp add: mask_eq_exp_minus_1)
    also have "\<dots> = push_bit 12 (drop_bit 12 x)" 
      by (rule bit_eqI) (auto simp: bit_and_iff bit_not_iff bit_mask_iff bit_push_bit_iff bit_drop_bit_eq)
    also have "\<dots> = of_nat (unat x div 4096 * 4096)"
    proof -
      have "unat x div 4096 = unat (x div 4096)" by (simp add: unat_div)
      then have "(of_nat (unat x div 4096) :: u32) = x div 4096" by simp
      then show ?thesis by (simp add: push_bit_eq_mult drop_bit_eq_div)
    qed
    finally show ?thesis .
  qed
  then have "unat (layer_fbSize (w * 4) h) = unat (of_nat ((unat w * 4 * unat h + 4095) div 4096 * 4096) :: u32)"
    by (simp only: layer_fbSize_def s)
  also have "\<dots> = (unat w * 4 * unat h + 4095) div 4096 * 4096"
  proof -
    have "(unat w * 4 * unat h + 4095) div 4096 * 4096 \<le> unat w * 4 * unat h + 4095" by (rule div_times_less_eq_dividend)
    also have "\<dots> < 2 ^ 32" using assms(1) by linarith
    also have "(2::nat) ^ 32 = 2 ^ LENGTH(32)" by simp
    finally have "(unat w * 4 * unat h + 4095) div 4096 * 4096 < 2 ^ LENGTH(32)" .
    then show ?thesis by (simp only: unat_of_nat mod_less)
  qed
  finally show ?thesis .
qed


text \<open>When \<open>mmap\<close> fails it returns \<open>MAP_FAILED\<close>, which the code takes for an address.\<close>

lemma CreateLayer_map_failed:
  assumes "lp_width priv = 960" and "lp_height priv = 480" and "unat w \<le> 100000" and "0 \<le> sint (sys_ret E t sys_open [])"
    and "\<And>t xs. sys_ret E t sys_mmap xs = MAP_FAILED"
  shows "CreateLayer E L DEV_ID (Some w) True priv t = None"
  using assms by (simp add: CreateLayer_def io_defs layer_pitch_eq SetBackground_eq Let_def)

text \<open>\<open>CloseLayer\<close> unmaps the frame buffer and keeps its address: a flush that \<open>memcpy_s\<close> carries out is then undefined.\<close>

lemma Flush_after_CloseLayer:
  assumes "CloseLayer E DEV_ID LAYER_ID priv t = (r, priv', t')" and "lp_fbAddr priv \<noteq> 0" and "4 \<le> lp_fbSize priv"
    and "\<And>t xs. sys_ret E t memcpy_s xs = 0"
  shows "Flush E DEV_ID LAYER_ID (Some b) priv' s = None"
proof -
  have "lp_map priv' = []" "lp_fbSize priv' = lp_fbSize priv"
    using assms(1,2) by (auto simp: CloseLayer_def io_defs Let_def split: if_splits)
  then show ?thesis
    using assms(3,4) by (simp add: Flush_def copy_frame_def io_defs Let_def word_le_nat_alt div_greater_zero_iff)
qed

definition layer_env :: env where
  "layer_env = mmz_env\<lparr>sys_ret := (\<lambda>t f xs. if f = sys_open then 3 else if f = sys_mmap then 0x40000000 else 0)\<rparr>"


end
