(* ===== verification/Rvlayer.thy ===== *)
theory Rvlayer
  imports Fb Layer
begin

text \<open>
  The display layer of the small system, \<open>riscv32_virt/liteos_m/board/hardware/display/display_layer.c\<close>, on the frame
  buffer devices of theory Fb: it opens \<open>/dev/fb0\<close>, asks for the address of the frame buffer and uses it directly.
  The functions that are the same in both variants are those of theory Layer.
\<close>

text \<open>\<open>fbmem\<close> is the block \<open>fb_open\<close> stored, 0 for null. \<open>lp_map\<close> holds the words of the frame buffer.\<close>

record LayerPrivate_rv = LayerPrivate +
  lr_fbmem :: u32

definition layer0_rv :: LayerPrivate_rv where
  "layer0_rv = \<lparr>lp_fd = - 1, lp_width = 800, lp_height = 480, lp_pitch = 0, lp_fbAddr = 0, lp_fbSize = 0, lp_layerAddr = 0,
     lp_pixFmt = PIXEL_FMT_RGBA_8888, lp_map = [], lr_fbmem = 0\<rparr>"

definition FB_PATH :: cstring where "FB_PATH = dev_fb @ [48]"   \<comment> \<open>\<open>/dev/fb0\<close>\<close>

definition SetBackground_rv :: "LayerPrivate_rv \<Rightarrow> LayerPrivate_rv option" where
  "SetBackground_rv priv = do {
     fb \<leftarrow> fill_rows 0xFF0000 (lp_width priv) [0..<unat (lp_height priv)] (lp_map priv);
     Some (priv\<lparr>lp_map := fb\<rparr>) }"

text \<open>The words of the frame buffer, as many as the device has, are \<open>memory\<close>. \<open>fb_open\<close> and \<open>fb_ioctl\<close> leave the variables of
  the caller as they are when they store nothing.\<close>

definition CreateLayer_rv ::
  "env \<Rightarrow> reg_consts \<Rightarrow> 'h fb_hw \<Rightarrow> (u32 \<Rightarrow> u32 list) \<Rightarrow> u32 \<Rightarrow> u32 option \<Rightarrow> bool \<Rightarrow> LayerPrivate_rv \<Rightarrow> 'h fb_sys \<Rightarrow>
   (int \<times> u32 option \<times> LayerPrivate_rv \<times> 'h fb_sys) option" where
  "CreateLayer_rv E K H memory devId layerInfo layerId priv s =
     (if layerInfo = None \<or> \<not> layerId then Some (DISPLAY_NULL_PTR, None, priv, s)
      else if devId \<noteq> DEV_ID then Some (DISPLAY_FAILURE, None, priv, s)
      else do {
        (fd, res, s) \<leftarrow> fb_open E K H (Some FB_PATH) s;
        let priv = priv\<lparr>lp_fd := fd, lr_fbmem := (case res of None \<Rightarrow> lr_fbmem priv | Some a \<Rightarrow> a)\<rparr>;
        if fd < 0 \<or> lr_fbmem priv = 0 then Some (DISPLAY_FD_ERR, None, priv, s) else do {
          pitch \<leftarrow> layer_pitch (the layerInfo);
          let priv = priv\<lparr>lp_pitch := pitch, lp_fbSize := layer_fbSize pitch (lp_height priv)\<rparr>;
          (_, res, s) \<leftarrow> fb_ioctl E H (lr_fbmem priv) FIOC_MMAP 1 s;
          let a = (case res of None \<Rightarrow> lp_fbAddr priv | Some a \<Rightarrow> a);
          let priv = priv\<lparr>lp_fbAddr := a, lp_map := (if a = 0 then [] else memory a)\<rparr>;
          if a = 0 then do {
            (_, s) \<leftarrow> fb_close H (lr_fbmem priv) s;
            Some (DISPLAY_FAILURE, None, priv\<lparr>lr_fbmem := 0, lp_pitch := 0, lp_fbSize := 0\<rparr>, s)
          } else do {
            priv \<leftarrow> SetBackground_rv priv;
            Some (DISPLAY_SUCCESS, Some LAYER_ID, priv, s)
          }
        }
      })"

definition free_in :: "u32 \<Rightarrow> 'h fb_sys \<Rightarrow> 'h fb_sys" where
  "free_in p s = set_hist (kproc c_free [p] (fb_hist s)) s"

definition CloseLayer_rv ::
  "'h fb_hw \<Rightarrow> u32 \<Rightarrow> u32 \<Rightarrow> LayerPrivate_rv \<Rightarrow> 'h fb_sys \<Rightarrow> (int \<times> LayerPrivate_rv \<times> 'h fb_sys) option" where
  "CloseLayer_rv H devId layerId priv s =
     (if devId \<noteq> DEV_ID then Some (DISPLAY_FAILURE, priv, s)
      else if layerId \<noteq> LAYER_ID then Some (DISPLAY_FAILURE, priv, s)
      else do {
        (priv, s) \<leftarrow> (if lr_fbmem priv \<noteq> 0 then do { (_, s) \<leftarrow> fb_close H (lr_fbmem priv) s; Some (priv\<lparr>lr_fbmem := 0\<rparr>, s) }
                      else Some (priv, s));
        let (priv, s) = (if lp_layerAddr priv \<noteq> 0 then (priv\<lparr>lp_layerAddr := 0\<rparr>, free_in (lp_layerAddr priv) s) else (priv, s));
        let (priv, s) = (if lp_fbAddr priv \<noteq> 0
                         then (priv\<lparr>lp_fbAddr := 0, lp_map := []\<rparr>, free_in (lp_fbAddr priv) s) else (priv, s));
        Some (DISPLAY_SUCCESS, priv\<lparr>lp_fd := - 1\<rparr>, s)
      })"

definition GetLayerBuffer_rv ::
  "env \<Rightarrow> u32 \<Rightarrow> u32 \<Rightarrow> LayerBuffer option \<Rightarrow> LayerPrivate_rv \<Rightarrow> trace \<Rightarrow> int \<times> LayerBuffer option \<times> LayerPrivate_rv \<times> trace" where
  "GetLayerBuffer_rv E devId layerId buffer priv t =
     (case buffer of None \<Rightarrow> (DISPLAY_NULL_PTR, None, priv, t)
      | Some b \<Rightarrow>
          if devId \<noteq> DEV_ID then (DISPLAY_FAILURE, buffer, priv, t)
          else if layerId \<noteq> LAYER_ID then (DISPLAY_FAILURE, buffer, priv, t)
          else if lp_fd priv < 0 \<or> lr_fbmem priv = 0 then (DISPLAY_FAILURE, buffer, priv, t)
          else let (a, t) = kcall E c_malloc [lp_fbSize priv] t;
                   b = b\<lparr>lb_fenceId := 0, lb_width := lp_width priv, lb_height := lp_height priv,
                         lb_pixFormat := lp_pixFmt priv, lb_pitch := lp_pitch priv, lb_virAddr := a\<rparr>
               in if a = 0 then (DISPLAY_FAILURE, Some b, priv, t)
                  else (DISPLAY_SUCCESS, Some (b\<lparr>lb_words := replicate (unat (lp_fbSize priv) div 4) 0\<rparr>),
                        priv\<lparr>lp_layerAddr := a\<rparr>, kproc c_memset [a, 0, lp_fbSize priv] t))"

subsection \<open>Opening and closing twice\<close>

text \<open>A frame buffer device that is registered as \<open>/dev/fb0\<close> and works: its operations succeed and free nothing.\<close>

definition op_ok :: "('h hw_state \<Rightarrow> (int \<times> 'h hw_state) option) option \<Rightarrow> bool" where
  "op_ok op \<longleftrightarrow> (\<exists>f. op = Some f \<and> (\<forall>d. \<exists>d'. f d = Some (0, d') \<and> calls_of c_free (snd d') = calls_of c_free (snd d)))"

definition fb0_ok :: "'h fb_hw \<Rightarrow> u32 \<Rightarrow> 'h fb_sys \<Rightarrow> bool" where
  "fb0_ok H m s \<longleftrightarrow> reg_ok (fb_reg s) \<and> fbmems (fb_reg s) 0 = None \<and>
     (\<exists>d fb vt. drivers (fb_reg s) FB_PATH = Some d \<and> d \<noteq> 0 \<and> chardevs s d = Some fb \<and> cd_fbmem fb = m \<and>
        cd_vtable fb \<noteq> 0 \<and> vtable_at H (cd_vtable fb) = Some vt \<and> op_ok (vt_fb_open vt) \<and> op_ok (vt_fb_release vt))"

lemma fb0_ok_hw [simp]: "fb0_ok H m (set_hw d s) = fb0_ok H m s"
  by (simp add: fb0_ok_def)

lemma set_hist_hw [simp]: "set_hist t (set_hw d s) = set_hw (fst d, t) s"
  by (simp add: set_hw_def set_hist_def)

lemma FB_PATH_name: "is_name FB_PATH"
  by (simp add: is_name_def FB_PATH_def dev_fb_def)

lemma fb0_open:
  assumes "fb0_ok H m s" and "LOS_ASSERT E True"
  obtains a d where "fb_open E K H (Some FB_PATH) s = Some (0, Some a, set_hw d s)" and "a \<noteq> 0"
    and "calls_of c_free (snd d) = calls_of c_free (fb_hist s)"
    and "\<And>d. fb_ioctl E H a FIOC_MMAP 1 (set_hw d s) = Some (0, Some m, set_hw d s)"
    and "\<And>d. \<exists>d'. fb_close H a (set_hw d s) = Some (0, set_hw d' s) \<and> calls_of c_free (snd d') = calls_of c_free (snd d)"
proof -
  let ?r = "(fb_reg s)\<lparr>reg_hist := Call LOS_MuxPend [vnodeMux (fb_reg s)] # reg_hist (fb_reg s)\<rparr>"
  obtain d fb vt where d: "drivers (fb_reg s) FB_PATH = Some d" "d \<noteq> 0" "chardevs s d = Some fb" "cd_fbmem fb = m"
    "cd_vtable fb \<noteq> 0" "vtable_at H (cd_vtable fb) = Some vt" and ops: "op_ok (vt_fb_open vt)" "op_ok (vt_fb_release vt)"
    and reg: "reg_ok (fb_reg s)" "fbmems (fb_reg s) 0 = None"
    using assms(1) unfolding fb0_ok_def by blast
  obtain f where f: "vt_fb_open vt = Some f" "\<And>d. \<exists>d'. f d = Some (0, d') \<and> calls_of c_free (snd d') = calls_of c_free (snd d)"
    using ops(1) unfolding op_ok_def by blast
  obtain g where g: "vt_fb_release vt = Some g" "\<And>d. \<exists>d'. g d = Some (0, d') \<and> calls_of c_free (snd d') = calls_of c_free (snd d)"
    using ops(2) unfolding op_ok_def by blast
  obtain a fm where l: "FbMemLookup E K FB_PATH 0 ?r = Some (0, Some a, ?r)" "fbmems (fb_reg s) a = Some fm" "fm_data fm = d"
    using FbMemLookup_drivers(2) [of ?r FB_PATH d E K] d(1) reg(1) by auto
  define t1 where "t1 = Call LOS_MuxPost [vnodeMux (fb_reg s)] # Call LOS_MuxPend [vnodeMux (fb_reg s)] # fb_hist s"
  obtain d' where d': "f (fb_hwst s, t1) = Some (0, d')" "calls_of c_free (snd d') = calls_of c_free (snd (fb_hwst s, t1))" using f(2) by blast
  have h: "hw_of (s\<lparr>fb_reg := (fb_reg s)\<lparr>reg_hist := t1\<rparr>\<rparr>) = (fb_hwst s, t1)" by (simp add: hw_of_def fb_hist_def)
  have e: "set_hw d (s\<lparr>fb_reg := (fb_reg s)\<lparr>reg_hist := t1\<rparr>\<rparr>) = set_hw d s" for d by (simp add: set_hw_def set_hist_def)
  have "fb_open E K H (Some FB_PATH) s = Some (0, Some a, set_hw d' s)"
    using l d f(1) FB_PATH_name d'(1)
    by (simp add: fb_open_def alloc_eq is_name_def t1_def [unfolded fb_hist_def, symmetric] h e)
  moreover have "a \<noteq> 0" using l(2) reg(2) by auto
  moreover have "calls_of c_free (snd d') = calls_of c_free (fb_hist s)" by (simp add: d'(2) t1_def)
  moreover have "fb_ioctl E H a FIOC_MMAP 1 (set_hw u s) = Some (0, Some m, set_hw u s)" for u
    using l d assms(2) by (simp add: fb_ioctl_def)
  moreover have "\<exists>d'. fb_close H a (set_hw u s) = Some (0, set_hw d' s) \<and> calls_of c_free (snd d') = calls_of c_free (snd u)" for u
  proof -
    obtain u' where "g u = Some (0, u')" "calls_of c_free (snd u') = calls_of c_free (snd u)" using g(2) by blast
    then show ?thesis using l d g(1) by (intro exI [of _ u']) (simp add: fb_close_def)
  qed
  ultimately show ?thesis using that by blast
qed

lemma layer_cycle:
  assumes "fb0_ok H m s" and "LOS_ASSERT E True" and "m \<noteq> 0" and "length (memory m) \<ge> 800 * 480" and "unat w \<le> 100000"
    and "lp_width priv = 800" "lp_height priv = 480" "lp_layerAddr priv = 0"
  obtains priv1 s1 priv2 d2 where "CreateLayer_rv E K H memory DEV_ID (Some w) True priv s = Some (DISPLAY_SUCCESS, Some LAYER_ID, priv1, s1)"
    and "CloseLayer_rv H DEV_ID LAYER_ID priv1 s1 = Some (DISPLAY_SUCCESS, priv2, set_hw d2 s)"
    and "take (800 * 480) (lp_map priv1) = replicate (800 * 480) 0xFF0000"
    and "calls_of c_free (snd d2) = calls_of c_free (fb_hist s) @ [[m]]"
    and "lp_width priv2 = 800" "lp_height priv2 = 480" "lp_layerAddr priv2 = 0" "lp_fbAddr priv2 = 0"
proof -
  define N :: nat where "N = 800 * 480"
  obtain a d1 where o: "fb_open E K H (Some FB_PATH) s = Some (0, Some a, set_hw d1 s)" "a \<noteq> 0"
      "calls_of c_free (snd d1) = calls_of c_free (fb_hist s)"
    and io: "\<And>d. fb_ioctl E H a FIOC_MMAP 1 (set_hw d s) = Some (0, Some m, set_hw d s)"
    and cl: "\<And>d. \<exists>d'. fb_close H a (set_hw d s) = Some (0, set_hw d' s) \<and> calls_of c_free (snd d') = calls_of c_free (snd d)"
    using fb0_open [OF assms(1,2)] by blast
  obtain d3 where d3: "fb_close H a (set_hw d1 s) = Some (0, set_hw d3 s)" "calls_of c_free (snd d3) = calls_of c_free (snd d1)"
    using cl by blast
  define sz where "sz = layer_fbSize (w * 4) 480"
  define q where "q = priv\<lparr>lp_fd := 0, lr_fbmem := a, lp_pitch := w * 4, lp_fbSize := sz, lp_fbAddr := m, lp_map := memory m\<rparr>"
  define q1 where "q1 = q\<lparr>lp_map := replicate N 0xFF0000 @ drop N (memory m)\<rparr>"
  have q: "lp_width q = 800" "lp_height q = 480" "lp_map q = memory m" using assms(6,7) by (simp_all add: q_def)
  have "480 * unat (800 :: u32) = N" "N < 2 ^ 32" by (simp_all add: N_def)
  then have "fill_rows 0xFF0000 800 [0..<480] (memory m) = Some (replicate N 0xFF0000 @ drop N (memory m))"
    using fill_rows_upt [of 480 800 "0xFF0000" "memory m"] assms(4) by (simp add: N_def [symmetric] not_less)
  then have bg: "SetBackground_rv q = Some q1" by (simp add: SetBackground_rv_def q q1_def del: upt_rec_numeral)
  have c: "CreateLayer_rv E K H memory DEV_ID (Some w) True priv s = Some (DISPLAY_SUCCESS, Some LAYER_ID, q1, set_hw d1 s)"
    using assms(3,5,7) o(2) bg
    by (simp add: CreateLayer_rv_def o(1) layer_pitch_eq io Let_def sz_def [symmetric] q_def)
  have d: "CloseLayer_rv H DEV_ID LAYER_ID q1 (set_hw d1 s) =
      Some (DISPLAY_SUCCESS, q1\<lparr>lr_fbmem := 0, lp_fbAddr := 0, lp_map := [], lp_fd := - 1\<rparr>, set_hw (fst d3, Call c_free [m] # snd d3) s)"
    using o(2) assms(3,8) d3(1) by (simp add: CloseLayer_rv_def q1_def q_def free_in_def io_defs)
  have tk: "take (800 * 480) (lp_map q1) = replicate (800 * 480) 0xFF0000"
    unfolding N_def [symmetric] by (simp add: q1_def)
  show ?thesis
    by (rule that [OF c d tk]) (use assms d3(2) o(3) in \<open>simp_all add: q1_def q_def N_def [symmetric]\<close>)
qed

text \<open>C37. Closing the layer gives the frame buffer of the device to \<open>free\<close>, although the device owns it and stays registered:
  opening and closing the layer a second time finds the same address again and frees it a second time.\<close>

theorem CloseLayer_rv_frees_framebuffer:
  assumes "fb0_ok H m s" and "LOS_ASSERT E True" and "m \<noteq> 0" and "length (memory m) \<ge> 800 * 480" and "unat w \<le> 100000"
  shows "\<exists>p1 s1 p2 s2 p3 s3 p4 s4.
    CreateLayer_rv E K H memory DEV_ID (Some w) True layer0_rv s = Some (DISPLAY_SUCCESS, Some LAYER_ID, p1, s1) \<and>
    CloseLayer_rv H DEV_ID LAYER_ID p1 s1 = Some (DISPLAY_SUCCESS, p2, s2) \<and> fb0_ok H m s2 \<and>
    CreateLayer_rv E K H memory DEV_ID (Some w) True p2 s2 = Some (DISPLAY_SUCCESS, Some LAYER_ID, p3, s3) \<and>
    CloseLayer_rv H DEV_ID LAYER_ID p3 s3 = Some (DISPLAY_SUCCESS, p4, s4) \<and>
    calls_of c_free (fb_hist s4) = calls_of c_free (fb_hist s) @ [[m], [m]]"
proof -
  obtain p1 s1 p2 d2 where 1: "CreateLayer_rv E K H memory DEV_ID (Some w) True layer0_rv s = Some (DISPLAY_SUCCESS, Some LAYER_ID, p1, s1)"
    "CloseLayer_rv H DEV_ID LAYER_ID p1 s1 = Some (DISPLAY_SUCCESS, p2, set_hw d2 s)"
    "calls_of c_free (snd d2) = calls_of c_free (fb_hist s) @ [[m]]" "lp_width p2 = 800" "lp_height p2 = 480" "lp_layerAddr p2 = 0"
    by (rule layer_cycle [where memory = memory and priv = layer0_rv and K = K, OF assms]) (simp_all add: layer0_rv_def)
  have s2: "fb0_ok H m (set_hw d2 s)" using assms(1) by simp
  obtain p3 s3 p4 d4 where 2: "CreateLayer_rv E K H memory DEV_ID (Some w) True p2 (set_hw d2 s) = Some (DISPLAY_SUCCESS, Some LAYER_ID, p3, s3)"
    "CloseLayer_rv H DEV_ID LAYER_ID p3 s3 = Some (DISPLAY_SUCCESS, p4, set_hw d4 (set_hw d2 s))"
    "calls_of c_free (snd d4) = calls_of c_free (fb_hist (set_hw d2 s)) @ [[m]]"
    by (rule layer_cycle [where memory = memory and priv = p2 and K = K, OF s2 assms(2-5) 1(4-6)]) auto
  show ?thesis
    using 1 2 s2 by (intro exI conjI) (assumption | simp)+
qed


lemma ex_pick_nonzero: "ex_pick S \<noteq> 0"
proof (cases "filter (\<lambda>a. a \<notin> S) [1, 2, 3, 4, 5, 6, 7 :: u32]")
  case (Cons a rest)
  then have "a \<in> set (filter (\<lambda>a. a \<notin> S) [1, 2, 3, 4, 5, 6, 7 :: u32])" by simp
  then have "a \<in> set [1, 2, 3, 4, 5, 6, 7 :: u32]" unfolding set_filter by blast
  then show ?thesis using Cons by (auto simp: ex_pick_def simp del: filter.simps)
qed (simp add: ex_pick_def)

lemma ex_live_nonzero: "0 \<notin> live ex_reg_env t"
proof (induction t)
  case (Cons e t)
  have "sys_ret ex_reg_env t c_zalloc xs \<noteq> 0" for xs by (simp add: ex_reg_env_def ex_pick_nonzero)
  then show ?case using Cons by (auto split: event.split syscall.split libc_fn.split list.split)
qed simp

definition ex_layer_sys :: "registry \<Rightarrow> unit fb_sys" where
  "ex_layer_sys r = \<lparr>fb_reg = r, chardevs = [256 \<mapsto> \<lparr>cd_vtable = 512, cd_fbmem = 4096, cd_fblen = 1536000, cd_plane = 0, cd_bpp = 32\<rparr>],
     g_fb_dev = replicate 32 0, fb_hwst = ()\<rparr>"

lemma ex_layer_fb0: "\<exists>r. fb0_ok (ex_fb_hw 1) 4096 (ex_layer_sys r) \<and> calls_of c_free (reg_hist r) = []"
proof -
  define r0 where "r0 = snd (KeyCacheInit \<lparr>buckets = [], fbmems = (\<lambda>_. None), vnodeMux = 0, reg_hist = []\<rparr>)"
  have i: "reg_inv ex_reg_env ex_reg_consts 6 (Suc 2) r0" "drivers r0 = (\<lambda>_. None)"
    using initial_inv [of ex_reg_env 6 ex_reg_consts 0] ex_heap_ok by (simp_all add: r0_def ex_reg_consts_def numeral_3_eq_3)
  obtain r where r: "reg_inv ex_reg_env ex_reg_consts 6 2 r" "drivers r = [FB_PATH \<mapsto> 256]"
    using register_absent [OF i(1) FB_PATH_name, of 256] i(2) by auto
  define r' where "r' = r\<lparr>reg_hist := []\<rparr>"
  have "reg_ok r" using r(1) by (simp add: reg_inv_def)
  moreover have "fbmems r 0 = None"
    using r(1) ex_live_nonzero [of "reg_hist r"] by (auto simp: reg_inv_def dom_def)
  moreover have "op_ok (Some (\<lambda>d :: unit hw_state. Some (0, d)))" by (simp add: op_ok_def)
  ultimately have "fb0_ok (ex_fb_hw 1) 4096 (ex_layer_sys r')"
    using r(2) by (simp add: fb0_ok_def ex_layer_sys_def ex_fb_hw_def ex_vtable_def r'_def)
  then show ?thesis by (intro exI [of _ r']) (simp add: r'_def)
qed

theorem CloseLayer_rv_frees_framebuffer_witness:
  "\<exists>r p1 s1 p2 s2 p3 s3 p4 s4.
    CreateLayer_rv ex_reg_env ex_reg_consts (ex_fb_hw 1) (\<lambda>_. replicate (800 * 480) 0) DEV_ID (Some 800) True layer0_rv (ex_layer_sys r) =
      Some (DISPLAY_SUCCESS, Some LAYER_ID, p1, s1) \<and>
    CloseLayer_rv (ex_fb_hw 1) DEV_ID LAYER_ID p1 s1 = Some (DISPLAY_SUCCESS, p2, s2) \<and>
    CreateLayer_rv ex_reg_env ex_reg_consts (ex_fb_hw 1) (\<lambda>_. replicate (800 * 480) 0) DEV_ID (Some 800) True p2 s2 =
      Some (DISPLAY_SUCCESS, Some LAYER_ID, p3, s3) \<and>
    CloseLayer_rv (ex_fb_hw 1) DEV_ID LAYER_ID p3 s3 = Some (DISPLAY_SUCCESS, p4, s4) \<and>
    calls_of c_free (fb_hist s4) = [[4096], [4096]]"
proof -
  obtain r where r: "fb0_ok (ex_fb_hw 1) 4096 (ex_layer_sys r)" "calls_of c_free (reg_hist r) = []"
    using ex_layer_fb0 by blast
  have as: "LOS_ASSERT ex_reg_env True" by (simp add: ex_reg_env_def)
  have len: "length ((\<lambda>_. replicate (800 * 480) 0 :: u32 list) (4096 :: u32)) \<ge> 800 * 480" unfolding length_replicate ..
  have c: "calls_of c_free (fb_hist (ex_layer_sys r)) = []" using r(2) by (simp add: fb_hist_def ex_layer_sys_def)
  have n: "(4096 :: u32) \<noteq> 0" "unat (800 :: u32) \<le> 100000" by simp_all
  show ?thesis
    using CloseLayer_rv_frees_framebuffer [where memory = "\<lambda>_. replicate (800 * 480) 0", OF r(1) as n(1) len n(2), of ex_reg_consts]
    unfolding c append_Nil by blast
qed

end
