(* ===== verification/Console.thy ===== *)
theory Console
  imports Prelude
begin

text \<open>
  The console of the ARM board, \<open>arm_virt/liteos_a/board/amba_pl011/amba_pl011.c\<close>: output through the data register of a
  PL011 and the line the shell reads, which the receive interrupt edits. The file of the mini system is the same.
\<close>

abbreviation (input) UART_DR :: u32 where "UART_DR \<equiv> 0"
abbreviation (input) UART_FR :: u32 where "UART_FR \<equiv> 0x18"
abbreviation (input) UART_CR :: u32 where "UART_CR \<equiv> 0x30"
abbreviation (input) UART_IFLS :: u32 where "UART_IFLS \<equiv> 0x34"
abbreviation (input) UART_IMSC :: u32 where "UART_IMSC \<equiv> 0x38"
abbreviation (input) UART_ICR :: u32 where "UART_ICR \<equiv> 0x44"
abbreviation (input) UART_FR_TXFF :: u32 where "UART_FR_TXFF \<equiv> 0x20"
abbreviation (input) CMD_LENGTH :: int where "CMD_LENGTH \<equiv> 128"

text \<open>The command line with its index, and the switch of the output. \<open>UART_REG_BASE\<close> and the number of the interrupt are
  those of the board.\<close>

record console =
  g_inputCmd :: "u8 list"
  g_inputIdx :: int
  g_uart_fputc_en :: u32

record console_consts =
  UART_REG_BASE :: u32
  NUM_HAL_INTERRUPT_UART :: u32

subsection \<open>Output\<close>

partial_function (option) spin_while_full :: "env \<Rightarrow> u32 \<Rightarrow> trace \<Rightarrow> trace option" where
  "spin_while_full E b t =
     (let (v, t) = GET_UINT32 E (b + UART_FR) t
      in if v AND UART_FR_TXFF \<noteq> 0 then spin_while_full E b t else Some t)"

definition UartPutcReg :: "env \<Rightarrow> u32 \<Rightarrow> u8 \<Rightarrow> trace \<Rightarrow> trace option" where
  "UartPutcReg E b c t = do { t \<leftarrow> spin_while_full E b t; Some (WRITE_UINT32 (ucast c) (b + UART_DR) t) }"

definition uart_putc :: "env \<Rightarrow> console_consts \<Rightarrow> u8 \<Rightarrow> trace \<Rightarrow> (int \<times> trace) option" where
  "uart_putc E C c t = do { t \<leftarrow> UartPutcReg E (UART_REG_BASE C) c t; Some (1, t) }"

definition uart_fputc :: "env \<Rightarrow> console_consts \<Rightarrow> console \<Rightarrow> u8 \<Rightarrow> trace \<Rightarrow> (int \<times> trace) option" where
  "uart_fputc E C s c t =
     (if g_uart_fputc_en s = 1 then do {
        t \<leftarrow> (if c = 10 then do { (_, t) \<leftarrow> uart_putc E C 13 t; Some t } else Some t);
        uart_putc E C c t
      } else Some (0, t))"

text \<open>The loops over the characters that are left.\<close>

fun UartPutStr :: "env \<Rightarrow> u32 \<Rightarrow> u8 list \<Rightarrow> trace \<Rightarrow> trace option" where
  "UartPutStr E b [] t = Some t"
| "UartPutStr E b (c # s) t = do {
     t \<leftarrow> (if c = 10 then UartPutcReg E b 13 t else Some t);
     t \<leftarrow> UartPutcReg E b c t;
     UartPutStr E b s t }"

definition UartPutsReg :: "env \<Rightarrow> console \<Rightarrow> u32 \<Rightarrow> u8 list \<Rightarrow> bool \<Rightarrow> trace \<Rightarrow> (nat \<times> trace) option" where
  "UartPutsReg E s b str isLock t =
     (if g_uart_fputc_en s = 0 then Some (0, t) else do { t \<leftarrow> UartPutStr E b str t; Some (length str, t) })"

definition UartPuts :: "env \<Rightarrow> console_consts \<Rightarrow> console \<Rightarrow> u8 list \<Rightarrow> bool \<Rightarrow> trace \<Rightarrow> trace option" where
  "UartPuts E C s str isLock t = do { (_, t) \<leftarrow> UartPutsReg E s (UART_REG_BASE C) str isLock t; Some t }"

fun puts_loop :: "env \<Rightarrow> console_consts \<Rightarrow> console \<Rightarrow> u8 list \<Rightarrow> trace \<Rightarrow> trace option" where
  "puts_loop E C s [] t = Some t"
| "puts_loop E C s (c # str) t = do {
     t \<leftarrow> (if c \<noteq> 0 then do {
             t \<leftarrow> (if c = 10 then do { (_, t) \<leftarrow> uart_fputc E C s 13 t; Some t } else Some t);
             (_, t) \<leftarrow> uart_fputc E C s c t;
             Some t
           } else Some t);
     puts_loop E C s str t }"

definition uart_puts :: "env \<Rightarrow> console_consts \<Rightarrow> console \<Rightarrow> u8 list \<Rightarrow> trace \<Rightarrow> (nat \<times> trace) option" where
  "uart_puts E C s str t = do { t \<leftarrow> puts_loop E C s str t; Some (length str, t) }"

subsection \<open>The receive interrupt\<close>

definition uart_handler :: "env \<Rightarrow> console_consts \<Rightarrow> console \<Rightarrow> trace \<Rightarrow> (console \<times> trace) option" where
  "uart_handler E C s t =
     (let (v, t) = GET_UINT32 E (UART_REG_BASE C + UART_DR) t; c = ucast v :: u8 in
      if c = 13 \<or> c = 10 then
        if g_inputIdx s < CMD_LENGTH - 1 then do {
          cmd \<leftarrow> aset (g_inputCmd s) (nat (g_inputIdx s)) 0;
          let t = kproc LOS_EventWrite [1] t;
          (_, t) \<leftarrow> uart_putc E C 13 t;
          (_, t) \<leftarrow> uart_putc E C 10 t;
          Some (s\<lparr>g_inputCmd := cmd, g_inputIdx := g_inputIdx s + 1\<rparr>, t)
        } else Some (s, t)
      else if c = 8 \<or> c = 0x7f then
        if 0 < g_inputIdx s then do {
          (_, t) \<leftarrow> uart_putc E C 8 t;
          (_, t) \<leftarrow> uart_putc E C 32 t;
          (_, t) \<leftarrow> uart_putc E C 8 t;
          Some (s\<lparr>g_inputIdx := g_inputIdx s - 1\<rparr>, t)
        } else Some (s, t)
      else if g_inputIdx s < CMD_LENGTH - 1 then do {
        (_, t) \<leftarrow> uart_putc E C c t;
        cmd \<leftarrow> aset (g_inputCmd s) (nat (g_inputIdx s)) c;
        Some (s\<lparr>g_inputCmd := cmd, g_inputIdx := g_inputIdx s + 1\<rparr>, t)
      } else Some (s, t))"

definition uart_early_init :: "console_consts \<Rightarrow> trace \<Rightarrow> trace" where
  "uart_early_init C t = WRITE_UINT32 (push_bit 8 1 OR push_bit 0 1) (UART_REG_BASE C + UART_CR) t"

definition uart_init :: "env \<Rightarrow> console_consts \<Rightarrow> trace \<Rightarrow> trace" where
  "uart_init E C t =
     (let (ret, t) = kcall E LOS_HwiCreate [NUM_HAL_INTERRUPT_UART C, 0, 0] t in
      if ret \<noteq> 0 then t
      else let t = WRITE_UINT32 0x3ff (UART_REG_BASE C + UART_ICR) t;
               t = WRITE_UINT32 0 (UART_REG_BASE C + UART_IFLS) t;
               t = WRITE_UINT32 (push_bit 4 1 OR push_bit 6 1) (UART_REG_BASE C + UART_IMSC) t;
               (v, t) = GET_UINT32 E (UART_REG_BASE C + UART_CR) t;
               t = WRITE_UINT32 (v OR push_bit 9 1) (UART_REG_BASE C + UART_CR) t
           in kproc HalIrqUnmask [NUM_HAL_INTERRUPT_UART C] t)"

subsection \<open>Output ends and keeps its order\<close>

text \<open>The history after \<open>n\<close> polls of the flag register, and a transmitter that has room again after some number of polls,
  whatever happened before.\<close>

fun fr_polls :: "env \<Rightarrow> u32 \<Rightarrow> nat \<Rightarrow> trace \<Rightarrow> trace" where
  "fr_polls E b 0 t = t"
| "fr_polls E b (Suc n) t = fr_polls E b n (Rd (b + UART_FR) (rd_reg E t (b + UART_FR)) # t)"

definition tx_drains :: "env \<Rightarrow> u32 \<Rightarrow> bool" where
  "tx_drains E b \<longleftrightarrow> (\<forall>t. \<exists>n. rd_reg E (fr_polls E b n t) (b + UART_FR) AND UART_FR_TXFF = 0)"

lemma fr_polls_writes [simp]: "writes_of (fr_polls E b n t) = writes_of t" "calls_of f (fr_polls E b n t) = calls_of f t"
  by (induction n arbitrary: t) auto

lemma spin_ends: "rd_reg E (fr_polls E b n t) (b + UART_FR) AND UART_FR_TXFF = 0 \<Longrightarrow>
    \<exists>m. spin_while_full E b t = Some (fr_polls E b m t)"
proof (induction n arbitrary: t)
  case 0
  then show ?case by (intro exI [of _ 1], subst spin_while_full.simps) (simp add: io_defs)
next
  case (Suc n)
  let ?t = "Rd (b + UART_FR) (rd_reg E t (b + UART_FR)) # t"
  show ?case
  proof (cases "rd_reg E t (b + UART_FR) AND UART_FR_TXFF = 0")
    case True
    then show ?thesis by (intro exI [of _ 1], subst spin_while_full.simps) (simp add: io_defs)
  next
    case False
    obtain m where "spin_while_full E b ?t = Some (fr_polls E b m ?t)" using Suc by auto
    then show ?thesis using False by (intro exI [of _ "Suc m"], subst spin_while_full.simps) (simp add: io_defs)
  qed
qed

text \<open>What one character does to the history: the write of it, after polls.\<close>

definition sent :: "u32 \<Rightarrow> trace \<Rightarrow> u8 list \<Rightarrow> trace \<Rightarrow> bool" where
  "sent b t cs t' \<longleftrightarrow> writes_of t' = writes_of t @ map (\<lambda>c. (b + UART_DR, ucast c)) cs \<and> (\<forall>f. calls_of f t' = calls_of f t)"

lemma sent_Nil [simp]: "sent b t [] t" by (simp add: sent_def)

lemma sent_trans: "sent b t cs t' \<Longrightarrow> sent b t' ds t'' \<Longrightarrow> sent b t (cs @ ds) t''"
  by (simp add: sent_def)

lemma UartPutcReg_sent:
  assumes "tx_drains E b"
  obtains t' where "UartPutcReg E b c t = Some t'" "sent b t [c] t'"
proof -
  obtain n where "rd_reg E (fr_polls E b n t) (b + UART_FR) AND UART_FR_TXFF = 0" using assms unfolding tx_drains_def by blast
  then obtain m where "spin_while_full E b t = Some (fr_polls E b m t)" using spin_ends by blast
  then show ?thesis by (intro that) (auto simp: UartPutcReg_def sent_def io_defs)
qed

lemma uart_putc_sent:
  assumes "tx_drains E (UART_REG_BASE C)"
  obtains t' where "uart_putc E C c t = Some (1, t')" "sent (UART_REG_BASE C) t [c] t'"
proof -
  obtain t' where "UartPutcReg E (UART_REG_BASE C) c t = Some t'" "sent (UART_REG_BASE C) t [c] t'"
    by (rule UartPutcReg_sent [OF assms])
  then show ?thesis by (intro that) (simp_all add: uart_putc_def)
qed

text \<open>What the two routes make of a character: \<open>UartPutStr\<close> puts a carriage return before a line feed; \<open>uart_puts\<close> does so as well,
  and \<open>uart_fputc\<close>, which it calls, once more. \<open>uart_puts\<close> leaves zero bytes out.\<close>

definition crlf :: "u8 \<Rightarrow> u8 list" where
  "crlf c = (if c = 10 then [13, 10] else [c])"

definition crcrlf :: "u8 \<Rightarrow> u8 list" where
  "crcrlf c = (if c = 0 then [] else if c = 10 then [13, 13, 10] else [c])"

lemma UartPutStr_sent:
  assumes "tx_drains E b"
  shows "\<exists>t'. UartPutStr E b str t = Some t' \<and> sent b t (concat (map crlf str)) t'"
proof (induction str arbitrary: t)
  case (Cons c str)
  obtain t1 where 1: "(if c = 10 then UartPutcReg E b 13 t else Some t) = Some t1" "sent b t (if c = 10 then [13] else []) t1"
  proof (cases "c = 10")
    case True
    obtain t1 where "UartPutcReg E b 13 t = Some t1" "sent b t [13] t1" by (rule UartPutcReg_sent [OF assms])
    then show ?thesis using that True by simp
  qed (use that in simp)
  obtain t2 where 2: "UartPutcReg E b c t1 = Some t2" "sent b t1 [c] t2" by (rule UartPutcReg_sent [OF assms])
  obtain t3 where 3: "UartPutStr E b str t2 = Some t3" "sent b t2 (concat (map crlf str)) t3" using Cons.IH by blast
  have "sent b t (crlf c @ concat (map crlf str)) t3"
    using sent_trans [OF sent_trans [OF 1(2) 2(2)] 3(2)] by (simp add: crlf_def split: if_splits)
  then show ?case using 1(1) 2(1) 3(1) by auto
qed simp

lemma uart_fputc_sent:
  assumes "tx_drains E (UART_REG_BASE C)" and "g_uart_fputc_en s = 1"
  obtains t' where "uart_fputc E C s c t = Some (1, t')" "sent (UART_REG_BASE C) t (crlf c) t'"
proof (cases "c = 10")
  case True
  obtain t1 where 1: "uart_putc E C 13 t = Some (1, t1)" "sent (UART_REG_BASE C) t [13] t1" by (rule uart_putc_sent [OF assms(1)])
  obtain t2 where 2: "uart_putc E C 10 t1 = Some (1, t2)" "sent (UART_REG_BASE C) t1 [10] t2" by (rule uart_putc_sent [OF assms(1)])
  have "sent (UART_REG_BASE C) t [13, 10] t2" using sent_trans [OF 1(2) 2(2)] by simp
  then show ?thesis using that 1(1) 2(1) True assms(2) by (simp add: uart_fputc_def crlf_def)
next
  case False
  obtain t1 where "uart_putc E C c t = Some (1, t1)" "sent (UART_REG_BASE C) t [c] t1" by (rule uart_putc_sent [OF assms(1)])
  then show ?thesis using that False assms(2) by (simp add: uart_fputc_def crlf_def)
qed

lemma puts_loop_sent:
  assumes "tx_drains E (UART_REG_BASE C)" and "g_uart_fputc_en s = 1"
  shows "\<exists>t'. puts_loop E C s str t = Some t' \<and> sent (UART_REG_BASE C) t (concat (map crcrlf str)) t'"
proof (induction str arbitrary: t)
  case (Cons c str)
  define b where "b = UART_REG_BASE C"
  obtain t1 where 1: "(if c = 10 then do { (_, t) \<leftarrow> uart_fputc E C s 13 t; Some t } else Some t) = Some t1"
    "sent b t (if c = 10 then [13] else []) t1"
  proof (cases "c = 10")
    case True
    obtain t1 where "uart_fputc E C s 13 t = Some (1, t1)" "sent b t (crlf 13) t1"
      unfolding b_def by (rule uart_fputc_sent [OF assms])
    then show ?thesis using that True by (simp add: crlf_def)
  qed (use that in simp)
  obtain t2 where 2: "uart_fputc E C s c t1 = Some (1, t2)" "sent b t1 (crlf c) t2"
    unfolding b_def by (rule uart_fputc_sent [OF assms])
  show ?case
  proof (cases "c = 0")
    case True
    then show ?thesis using Cons.IH [of t] by (simp add: crcrlf_def)
  next
    case False
    obtain t3 where 3: "puts_loop E C s str t2 = Some t3" "sent b t2 (concat (map crcrlf str)) t3"
      using Cons.IH unfolding b_def by blast
    have "sent b t (crcrlf c @ concat (map crcrlf str)) t3"
      using sent_trans [OF sent_trans [OF 1(2) 2(2)] 3(2)] False by (simp add: crlf_def crcrlf_def split: if_splits)
    then show ?thesis using 1(1) 2(1) 3(1) False by (simp add: b_def)
  qed
qed simp

text \<open>Both ways to print a text end when the transmitter drains, and send its characters in order and nothing
  else. They differ in a line feed: the driver's own \<open>UartPuts\<close> sends one carriage return before it, \<open>uart_puts\<close> two.\<close>

theorem console_output:
  assumes "tx_drains E (UART_REG_BASE C)" and "g_uart_fputc_en s = 1"
  shows "\<exists>t' t''. UartPuts E C s str lock t = Some t' \<and> uart_puts E C s str t = Some (length str, t'') \<and>
    writes_of t' = writes_of t @ map (\<lambda>c. (UART_REG_BASE C + UART_DR, ucast c)) (concat (map crlf str)) \<and>
    writes_of t'' = writes_of t @ map (\<lambda>c. (UART_REG_BASE C + UART_DR, ucast c)) (concat (map crcrlf str))"
  using UartPutStr_sent [OF assms(1), of str t] puts_loop_sent [OF assms, of str t] assms(2)
  by (auto simp: UartPuts_def UartPutsReg_def uart_puts_def sent_def)

subsection \<open>The command line\<close>

definition con_ok :: "console \<Rightarrow> bool" where
  "con_ok s \<longleftrightarrow> length (g_inputCmd s) = 128 \<and> 0 \<le> g_inputIdx s \<and> g_inputIdx s \<le> 127"

text \<open>The line that was typed, and what a key makes of it and shows on the terminal.\<close>

definition line :: "console \<Rightarrow> u8 list" where
  "line s = take (nat (g_inputIdx s)) (g_inputCmd s)"

definition edit_key :: "u8 list \<Rightarrow> u8 \<Rightarrow> u8 list" where
  "edit_key l c = (if c \<in> {8, 0x7f} then butlast l else if 127 \<le> length l then l else l @ [if c \<in> {13, 10} then 0 else c])"

definition echo :: "u8 list \<Rightarrow> u8 \<Rightarrow> u8 list" where
  "echo l c = (if c \<in> {8, 0x7f} then (if l = [] then [] else [8, 32, 8]) else if 127 \<le> length l then []
     else if c \<in> {13, 10} then [13, 10] else [c])"

lemma line_length: "con_ok s \<Longrightarrow> length (line s) = nat (g_inputIdx s)"
  by (auto simp: con_ok_def line_def)

lemma line_snoc:
  assumes "con_ok s" and "g_inputIdx s < 127" and "s' = s\<lparr>g_inputCmd := (g_inputCmd s)[nat (g_inputIdx s) := c], g_inputIdx := g_inputIdx s + 1\<rparr>"
  shows "con_ok s' \<and> line s' = line s @ [c]"
  using assms by (simp add: con_ok_def line_def nat_add_distrib take_Suc_conv_app_nth)

lemma line_butlast:
  assumes "con_ok s" and "0 < g_inputIdx s"
  shows "con_ok (s\<lparr>g_inputIdx := g_inputIdx s - 1\<rparr>) \<and> line (s\<lparr>g_inputIdx := g_inputIdx s - 1\<rparr>) = butlast (line s)"
proof -
  have n: "nat (g_inputIdx s - 1) = nat (g_inputIdx s) - 1" by (simp add: nat_diff_distrib)
  have "nat (g_inputIdx s) \<le> length (g_inputCmd s)" using assms(1) by (auto simp: con_ok_def)
  then have "butlast (line s) = take (nat (g_inputIdx s) - 1) (g_inputCmd s)" unfolding line_def by (rule butlast_take)
  then show ?thesis using assms n by (simp add: con_ok_def) (simp add: line_def)
qed

text \<open>C38. The receive interrupt is a line editor: it ends when the transmitter drains, never writes outside the line of 128
  bytes, and the line it leaves, what it echoes and when it wakes the shell are those of \<open>edit_key\<close> and \<open>echo\<close>. A line of
  127 characters takes no further key but a deletion: the return key is then ignored as well, and the shell is not woken.\<close>

theorem uart_handler_edits:
  assumes "tx_drains E (UART_REG_BASE C)" and "con_ok s" and "c = ucast (rd_reg E t (UART_REG_BASE C + UART_DR))"
  shows "\<exists>s' t'. uart_handler E C s t = Some (s', t') \<and> con_ok s' \<and> line s' = edit_key (line s) c \<and>
    writes_of t' = writes_of t @ map (\<lambda>c. (UART_REG_BASE C + UART_DR, ucast c)) (echo (line s) c) \<and>
    calls_of LOS_EventWrite t' = calls_of LOS_EventWrite t @
      (if c \<in> {13, 10} \<and> length (line s) < 127 then [[1]] else [])"
proof -
  define b where "b = UART_REG_BASE C"
  define t0 where "t0 = Rd (b + UART_DR) (rd_reg E t (b + UART_DR)) # t"
  have r: "GET_UINT32 E (UART_REG_BASE C + UART_DR) t = (rd_reg E t (UART_REG_BASE C + UART_DR), t0)" by (simp add: io_defs t0_def b_def)
  have len: "length (line s) = nat (g_inputIdx s)" using assms(2) by (rule line_length)
  have ix: "0 \<le> g_inputIdx s" "g_inputIdx s \<le> 127" "length (g_inputCmd s) = 128" using assms(2) by (simp_all add: con_ok_def)
  note un = uart_handler_def [of E C s t, unfolded r Let_def prod.case, folded assms(3)]
  note putc = uart_putc_sent [OF assms(1), folded b_def]
  consider "c \<in> {13, 10}" "g_inputIdx s < 127" | "c \<in> {8, 0x7f}" "0 < g_inputIdx s"
    | "c \<notin> {13, 10, 8, 0x7f}" "g_inputIdx s < 127"
    | "c \<in> {8, 0x7f}" "g_inputIdx s = 0" | "c \<notin> {8, 0x7f}" "g_inputIdx s = 127"
    using ix by fastforce
  then show ?thesis
  proof cases
    case 1
    obtain t1 where 1: "uart_putc E C 13 (Call LOS_EventWrite [1] # t0) = Some (1, t1)" "sent b (Call LOS_EventWrite [1] # t0) [13] t1"
      by (rule putc)
    obtain t2 where 2: "uart_putc E C 10 t1 = Some (1, t2)" "sent b t1 [10] t2" by (rule putc)
    have s: "sent b (Call LOS_EventWrite [1] # t0) [13, 10] t2" using sent_trans [OF 1(2) 2(2)] by simp
    define s' where "s' = s\<lparr>g_inputCmd := (g_inputCmd s)[nat (g_inputIdx s) := 0], g_inputIdx := g_inputIdx s + 1\<rparr>"
    have "uart_handler E C s t = Some (s', t2)"
      unfolding un using \<open>c \<in> {13, 10}\<close> \<open>g_inputIdx s < 127\<close> ix 1(1) 2(1) by (auto simp: io_defs s'_def)
    moreover have "con_ok s' \<and> line s' = line s @ [0]" by (rule line_snoc [OF assms(2) \<open>g_inputIdx s < 127\<close> s'_def])
    ultimately show ?thesis
      using s \<open>c \<in> {13, 10}\<close> \<open>g_inputIdx s < 127\<close> len by (auto simp: sent_def t0_def b_def edit_key_def echo_def)
  next
    case 2
    obtain t1 where 1: "uart_putc E C 8 t0 = Some (1, t1)" "sent b t0 [8] t1" by (rule putc)
    obtain t2 where 2: "uart_putc E C 32 t1 = Some (1, t2)" "sent b t1 [32] t2" by (rule putc)
    obtain t3 where 3: "uart_putc E C 8 t2 = Some (1, t3)" "sent b t2 [8] t3" by (rule putc)
    have s: "sent b t0 [8, 32, 8] t3" using sent_trans [OF sent_trans [OF 1(2) 2(2)] 3(2)] by simp
    have "uart_handler E C s t = Some (s\<lparr>g_inputIdx := g_inputIdx s - 1\<rparr>, t3)"
      unfolding un using \<open>c \<in> {8, 0x7f}\<close> \<open>0 < g_inputIdx s\<close> 1(1) 2(1) 3(1) by auto
    then show ?thesis
      using s \<open>c \<in> {8, 0x7f}\<close> \<open>0 < g_inputIdx s\<close> len line_butlast [OF assms(2)]
      by (auto simp: sent_def t0_def b_def edit_key_def echo_def)
  next
    case 3
    obtain t1 where 1: "uart_putc E C c t0 = Some (1, t1)" "sent b t0 [c] t1" by (rule putc)
    define s' where "s' = s\<lparr>g_inputCmd := (g_inputCmd s)[nat (g_inputIdx s) := c], g_inputIdx := g_inputIdx s + 1\<rparr>"
    have "uart_handler E C s t = Some (s', t1)"
      unfolding un using 3 ix 1(1) by (auto simp: s'_def)
    moreover have "con_ok s' \<and> line s' = line s @ [c]" by (rule line_snoc [OF assms(2) 3(2) s'_def])
    ultimately show ?thesis
      using 1(2) 3 len by (auto simp: sent_def t0_def b_def edit_key_def echo_def)
  next
    case 4
    then have "uart_handler E C s t = Some (s, t0)" unfolding un by auto
    then show ?thesis using 4 len assms(2) by (auto simp: t0_def edit_key_def echo_def line_def)
  next
    case 5
    then have "uart_handler E C s t = Some (s, t0)" unfolding un by auto
    then show ?thesis using 5 len assms(2) by (auto simp: t0_def edit_key_def echo_def)
  qed
qed

definition con_env :: env where
  "con_env = \<lparr>rd_reg = (\<lambda>t a. if a = 0x9000000 then 65 else 0), sys_ret = (\<lambda>t f xs. 0), sys_hdf = (\<lambda>t f xs. HDF_SUCCESS),
     ALIGN = align_example, IO_DEVICE_ADDR = id, VMM_TO_DMA_ADDR = id, LOS_ASSERT = id\<rparr>"

definition con_example :: console where
  "con_example = \<lparr>g_inputCmd = replicate 128 0, g_inputIdx = 0, g_uart_fputc_en = 1\<rparr>"

definition con_consts :: console_consts where
  "con_consts = \<lparr>UART_REG_BASE = 0x9000000, NUM_HAL_INTERRUPT_UART = 33\<rparr>"

lemma con_env_drains: "tx_drains con_env (UART_REG_BASE con_consts)"
  by (simp add: tx_drains_def con_env_def con_consts_def)

lemma con_example_ok: "con_ok con_example" "g_uart_fputc_en con_example = 1" "line con_example = []"
  by (simp_all add: con_ok_def con_example_def line_def)

theorem console_output_witness:
  "\<exists>t' t''. UartPuts con_env con_consts con_example [65, 10] True [] = Some t' \<and>
    uart_puts con_env con_consts con_example [65, 10] [] = Some (length [65 :: u8, 10], t'') \<and>
    writes_of t' = [(0x9000000, 65), (0x9000000, 13), (0x9000000, 10)] \<and>
    writes_of t'' = [(0x9000000, 65), (0x9000000, 13), (0x9000000, 13), (0x9000000, 10)]"
  using console_output [OF con_env_drains con_example_ok(2), of "[65, 10]" True "[]"]
  by (simp add: con_consts_def crlf_def crcrlf_def)

theorem uart_handler_edits_witness:
  "\<exists>s' t'. uart_handler con_env con_consts con_example [] = Some (s', t') \<and> line s' = [65] \<and> writes_of t' = [(0x9000000, 65)]"
proof -
  have c: "65 = (ucast (rd_reg con_env [] (UART_REG_BASE con_consts + UART_DR)) :: u8)"
    by (simp add: con_env_def con_consts_def)
  show ?thesis
    using uart_handler_edits [OF con_env_drains con_example_ok(1) c] con_example_ok(3)
    by (auto simp: edit_key_def echo_def con_consts_def)
qed

end
