(* ===== verification/Plic.thy ===== *)
theory Plic
  imports Prelude
begin

text \<open>
  The interrupt controller of the riscv32 board, \<open>riscv32_virt/liteos_m/board/driver/plic.c\<close>: the enable bits, the
  priorities, and the handler of the external interrupt, which claims an interrupt, calls its hook from the table of the
  kernel and completes it.
\<close>

abbreviation (input) PLIC_PRIO_BASE :: u32 where "PLIC_PRIO_BASE \<equiv> 0xC000000"
abbreviation (input) PLIC_ENABLE_BASE :: u32 where "PLIC_ENABLE_BASE \<equiv> 0xC002000"
abbreviation (input) PLIC_REG_BASE :: u32 where "PLIC_REG_BASE \<equiv> 0xC200000"
abbreviation (input) RISCV_SYS_MAX_IRQ :: u32 where "RISCV_SYS_MAX_IRQ \<equiv> 11"

text \<open>The kernel's part: the number of external interrupts, its table of hooks with their parameters (0 for no hook), the number of
  the machine's external interrupt, and its default handler, which may not return.\<close>

record plic_kernel =
  VECTOR_CNT :: nat
  g_hwiForm :: "(u32 \<times> u32) list"
  RISCV_MACH_EXT_IRQ :: u32
  default_handler :: "u32 \<Rightarrow> trace \<Rightarrow> trace option"

definition OsMachineExternalInterrupt :: "env \<Rightarrow> plic_kernel \<Rightarrow> trace \<Rightarrow> trace option" where
  "OsMachineExternalInterrupt E K t =
     (let plicReg = PLIC_REG_BASE + 4; (irqNum, t) = GET_UINT32 E plicReg t; saveIrqNum = irqNum in do {
        t \<leftarrow> (if VECTOR_CNT K \<le> unat irqNum \<or> irqNum = 0 then default_handler K irqNum t else Some t);
        let irqNum = irqNum + RISCV_SYS_MAX_IRQ;
        (pfnHook, uwParam) \<leftarrow> aget (g_hwiForm K) (unat irqNum);
        if pfnHook = 0 then None else
        let t = kproc HwiHook [pfnHook, uwParam] t in Some (WRITE_UINT32 saveIrqNum plicReg t)
      })"

definition OS_PLIC_MAX :: "plic_kernel \<Rightarrow> nat" where "OS_PLIC_MAX K = VECTOR_CNT K div 32 + 1"

text \<open>A loop that writes 0 to consecutive registers, as many as are left.\<close>

fun clear_regs :: "nat \<Rightarrow> u32 \<Rightarrow> trace \<Rightarrow> trace" where
  "clear_regs 0 reg t = t"
| "clear_regs (Suc n) reg t = clear_regs n (reg + 4) (WRITE_UINT32 0 reg t)"

definition PlicIrqInit :: "env \<Rightarrow> plic_kernel \<Rightarrow> trace \<Rightarrow> trace" where
  "PlicIrqInit E K t =
     (let t = clear_regs (OS_PLIC_MAX K) PLIC_ENABLE_BASE t;
          t = clear_regs (VECTOR_CNT K) PLIC_PRIO_BASE t;
          t = WRITE_UINT32 0 PLIC_REG_BASE t;
          (_, t) = kcall E LOS_HwiCreate [RISCV_MACH_EXT_IRQ K, 1, 0, 0] t
      in t)"

definition PlicIrqSetPrio :: "u32 \<Rightarrow> u32 \<Rightarrow> trace \<Rightarrow> trace" where
  "PlicIrqSetPrio vector pri t = WRITE_UINT32 pri (PLIC_PRIO_BASE + 4 * (vector - RISCV_SYS_MAX_IRQ)) t"

definition enable_reg :: "u32 \<Rightarrow> u32" where
  "enable_reg locIrq = PLIC_ENABLE_BASE + 4 * drop_bit 5 locIrq"

definition PlicIrqEnable :: "env \<Rightarrow> u32 \<Rightarrow> trace \<Rightarrow> trace" where
  "PlicIrqEnable E vector t =
     (let locIrq = vector - RISCV_SYS_MAX_IRQ; plicReg = enable_reg locIrq;
          (irqValue, t) = GET_UINT32 E plicReg t
      in WRITE_UINT32 (irqValue OR push_bit (unat (locIrq AND 31)) 1) plicReg t)"

definition PlicIrqDisable :: "env \<Rightarrow> u32 \<Rightarrow> trace \<Rightarrow> trace" where
  "PlicIrqDisable E vector t =
     (let locIrq = vector - RISCV_SYS_MAX_IRQ; plicReg = enable_reg locIrq;
          (irqValue, t) = GET_UINT32 E plicReg t
      in WRITE_UINT32 (irqValue AND NOT (push_bit (unat (locIrq AND 31)) 1)) plicReg t)"

subsection \<open>The enable bits\<close>

text \<open>A device whose registers hold what was written last; \<open>regs\<close> is what they held before the history \<open>t\<close>.\<close>

fun stored :: "(u32 \<Rightarrow> u32) \<Rightarrow> (u32 \<times> u32) list \<Rightarrow> u32 \<Rightarrow> u32" where
  "stored regs [] = regs"
| "stored regs ((a, v) # ws) = stored (regs(a := v)) ws"

lemma stored_snoc: "stored regs (ws @ [(a, v)]) = (stored regs ws)(a := v)"
  by (induction ws arbitrary: regs) auto

definition plain_registers :: "env \<Rightarrow> (u32 \<Rightarrow> u32) \<Rightarrow> bool" where
  "plain_registers E regs \<longleftrightarrow> (\<forall>t a. rd_reg E t a = stored regs (writes_of t) a)"

definition enabled :: "env \<Rightarrow> trace \<Rightarrow> nat \<Rightarrow> bool" where
  "enabled E t irq = bit (rd_reg E t (PLIC_ENABLE_BASE + 4 * of_nat (irq div 32))) (irq mod 32)"

lemma vector_irq:
  assumes "irq < 1024"
  shows "enable_reg (of_nat irq) = PLIC_ENABLE_BASE + 4 * of_nat (irq div 32)"
    and "unat ((of_nat irq :: u32) AND 31) = irq mod 32"
proof -
  have u: "unat (of_nat irq :: u32) = irq" using assms by (simp add: unat_of_nat take_bit_nat_eq_self)
  have "drop_bit 5 (of_nat irq :: u32) = of_nat (irq div 32)"
    unfolding word_unat_eq_iff using assms by (simp add: unat_div u drop_bit_eq_div unat_of_nat take_bit_nat_eq_self)
  then show "enable_reg (of_nat irq) = PLIC_ENABLE_BASE + 4 * of_nat (irq div 32)" by (simp add: enable_reg_def)
  have "(of_nat irq :: u32) AND 31 = take_bit 5 (of_nat irq)" by (simp add: take_bit_eq_mask mask_eq_exp_minus_1)
  then show "unat ((of_nat irq :: u32) AND 31) = irq mod 32" by (simp add: take_bit_eq_mod unat_mod u)
qed

lemma enable_addr_inj:
  assumes "i < 1024" and "j < 1024"
  shows "4 * of_nat (i div 32) = 4 * (of_nat (j div 32) :: u32) \<longleftrightarrow> i div 32 = j div 32"
proof -
  have a: "unat (4 * of_nat (k div 32) :: u32) = 4 * (k div 32)" if "k < 1024" for k :: nat
  proof -
    have "k div 32 < 32" using that by simp
    then show ?thesis by (simp add: unat_word_ariths unat_of_nat take_bit_nat_eq_self)
  qed
  have "4 * of_nat (i div 32) = (4 * of_nat (j div 32) :: u32) \<longleftrightarrow> 4 * (i div 32) = 4 * (j div 32)"
    unfolding word_unat_eq_iff a [OF assms(1)] a [OF assms(2)] ..
  then show ?thesis by simp
qed

lemma irq_eq_iff: "i = j \<longleftrightarrow> i div 32 = j div 32 \<and> i mod 32 = j mod (32 :: nat)"
  by (metis div_mult_mod_eq)

lemma Plic_bits:
  assumes "plain_registers E regs" and "i < 1024" and "j < 1024"
  shows "enabled E (PlicIrqEnable E (of_nat i + RISCV_SYS_MAX_IRQ) t) j \<longleftrightarrow> j = i \<or> enabled E t j"
    and "enabled E (PlicIrqDisable E (of_nat i + RISCV_SYS_MAX_IRQ) t) j \<longleftrightarrow> j \<noteq> i \<and> enabled E t j"
proof -
  have r: "rd_reg E t a = stored regs (writes_of t) a" for t a using assms(1) by (simp add: plain_registers_def)
  have b: "bit (2 ^ m :: u32) n \<longleftrightarrow> n = m" if "m < 32" for m n
    using that by (auto simp: bit_exp_iff)
  have m: "i mod 32 < 32" "j mod 32 < 32" by simp_all
  show "enabled E (PlicIrqEnable E (of_nat i + RISCV_SYS_MAX_IRQ) t) j \<longleftrightarrow> j = i \<or> enabled E t j"
    using m by (auto simp: enabled_def PlicIrqEnable_def io_defs Let_def r stored_snoc vector_irq [OF assms(2)] enable_addr_inj [OF assms(3,2)]
        bit_or_iff b irq_eq_iff [of j i])
  show "enabled E (PlicIrqDisable E (of_nat i + RISCV_SYS_MAX_IRQ) t) j \<longleftrightarrow> j \<noteq> i \<and> enabled E t j"
    using m by (auto simp: enabled_def PlicIrqDisable_def io_defs Let_def r stored_snoc vector_irq [OF assms(2)] enable_addr_inj [OF assms(3,2)]
        bit_and_iff bit_not_iff b irq_eq_iff [of j i])
qed

text \<open>C39. On registers that keep what is written, enabling or disabling one of the external interrupts changes the enable bit of
  that interrupt and of no other.\<close>

theorem Plic_enable_disable:
  assumes "plain_registers E regs" and "i < 1024" and "j < 1024"
  shows "(enabled E (PlicIrqEnable E (of_nat i + RISCV_SYS_MAX_IRQ) t) j \<longleftrightarrow> j = i \<or> enabled E t j) \<and>
    (enabled E (PlicIrqDisable E (of_nat i + RISCV_SYS_MAX_IRQ) t) j \<longleftrightarrow> j \<noteq> i \<and> enabled E t j)"
  using Plic_bits [OF assms] by blast

text \<open>An external interrupt is claimed, its hook is called once with its parameter, and it is completed with the number
  that was claimed. When nothing is pending (0) or the number is out of range, and the default handler returns, the code
  does not stop: for 0 it calls the hook of table entry 11, and beyond the end of the table it is undefined.\<close>

theorem OsMachineExternalInterrupt_dispatch:
  assumes "length (g_hwiForm K) = VECTOR_CNT K + 11" and "VECTOR_CNT K < 1024" and "irq = rd_reg E t (PLIC_REG_BASE + 4)"
    and "unat irq < 1024"
    and "\<And>n t. \<exists>t'. default_handler K n t = Some t' \<and> writes_of t' = writes_of t \<and> calls_of HwiHook t' = calls_of HwiHook t"
    and "\<forall>e\<in>set (g_hwiForm K). fst e \<noteq> 0"
  shows "case OsMachineExternalInterrupt E K t of
      Some t' \<Rightarrow> unat irq < VECTOR_CNT K \<and>
        calls_of HwiHook t' = calls_of HwiHook t @ [[fst (g_hwiForm K ! (unat irq + 11)), snd (g_hwiForm K ! (unat irq + 11))]] \<and>
        writes_of t' = writes_of t @ [(PLIC_REG_BASE + 4, irq)]
    | None \<Rightarrow> VECTOR_CNT K \<le> unat irq"
proof -
  define t0 where "t0 = Rd (PLIC_REG_BASE + 4) irq # t"
  have g: "GET_UINT32 E (PLIC_REG_BASE + 4) t = (irq, t0)" by (simp add: io_defs t0_def assms(3))
  have ix: "unat (irq + RISCV_SYS_MAX_IRQ) = unat irq + 11" using assms(4) by (simp add: unat_word_ariths)
  obtain t1 where t1: "(if VECTOR_CNT K \<le> unat irq \<or> irq = 0 then default_handler K irq t0 else Some t0) = Some t1"
    "writes_of t1 = writes_of t" "calls_of HwiHook t1 = calls_of HwiHook t"
  proof (cases "VECTOR_CNT K \<le> unat irq \<or> irq = 0")
    case True
    obtain t1 where "default_handler K irq t0 = Some t1" "writes_of t1 = writes_of t0" "calls_of HwiHook t1 = calls_of HwiHook t0"
      using assms(5) by blast
    then show ?thesis using that True by (simp add: t0_def)
  next
    case False
    show ?thesis by (rule that [of t0]) (use False in \<open>simp_all add: t0_def\<close>)
  qed
  have run: "OsMachineExternalInterrupt E K t =
      do { (h, p) \<leftarrow> aget (g_hwiForm K) (unat irq + 11); if h = 0 then None else
        Some (WRITE_UINT32 irq (PLIC_REG_BASE + 4) (kproc HwiHook [h, p] t1)) }"
    unfolding OsMachineExternalInterrupt_def Let_def g prod.case t1(1) ix by simp
  show ?thesis
  proof (cases "unat irq < VECTOR_CNT K")
    case True
    then have "fst (g_hwiForm K ! (unat irq + 11)) \<noteq> 0" using assms(1,6) by simp
    then show ?thesis using True assms(1) t1(2,3) unfolding run
      by (simp add: io_defs case_prod_beta)
  next
    case False
    then show ?thesis using assms(1) unfolding run by (simp add: aget_def)
  qed
qed

text \<open>Registers that answer from the history.\<close>

definition plic_env :: env where
  "plic_env = \<lparr>rd_reg = (\<lambda>t a. stored (\<lambda>a. if a = PLIC_REG_BASE + 4 then 10 else 0) (writes_of t) a), sys_ret = (\<lambda>t f xs. 0),
     sys_hdf = (\<lambda>t f xs. HDF_SUCCESS), ALIGN = align_example, IO_DEVICE_ADDR = id, VMM_TO_DMA_ADDR = id, LOS_ASSERT = id\<rparr>"

theorem Plic_enable_disable_witness:
  "enabled plic_env (PlicIrqEnable plic_env (of_nat 33 + RISCV_SYS_MAX_IRQ) []) 33 \<and>
   \<not> enabled plic_env (PlicIrqEnable plic_env (of_nat 33 + RISCV_SYS_MAX_IRQ) []) 1"
proof -
  have p: "plain_registers plic_env (\<lambda>a. if a = PLIC_REG_BASE + 4 then 10 else 0)"
    by (simp add: plain_registers_def plic_env_def)
  have "\<not> enabled plic_env [] 1" by (simp add: enabled_def plic_env_def)
  then show ?thesis using Plic_enable_disable [OF p, of 33 33 "[]"] Plic_enable_disable [OF p, of 33 1 "[]"] by simp
qed

definition plic_example :: plic_kernel where
  "plic_example = \<lparr>VECTOR_CNT = 53, g_hwiForm = replicate 64 (0x80000100, 7), RISCV_MACH_EXT_IRQ = 11,
     default_handler = (\<lambda>n t. Some (Call HalHwiDefaultHandler [n] # t))\<rparr>"

theorem OsMachineExternalInterrupt_dispatch_witness:
  "\<exists>t'. OsMachineExternalInterrupt plic_env plic_example [] = Some t' \<and> writes_of t' = [(PLIC_REG_BASE + 4, 10)]"
proof -
  have 1: "length (g_hwiForm plic_example) = VECTOR_CNT plic_example + 11" "VECTOR_CNT plic_example < 1024"
    "\<forall>e\<in>set (g_hwiForm plic_example). fst e \<noteq> 0"
    by (simp_all add: plic_example_def)
  have 2: "10 = rd_reg plic_env [] (PLIC_REG_BASE + 4)" by (simp add: plic_env_def)
  have 3: "\<exists>t'. default_handler plic_example n t = Some t' \<and> writes_of t' = writes_of t \<and> calls_of HwiHook t' = calls_of HwiHook t" for n t
    by (simp add: plic_example_def)
  show ?thesis
    using OsMachineExternalInterrupt_dispatch [OF 1(1,2) 2 _ 3 1(3)]
    by (simp split: option.splits) (simp add: plic_example_def)
qed

end
