(* ===== verification/Ramflash.thy ===== *)
theory Ramflash
  imports Prelude
begin

text \<open>
  Two small parts of the ARM boards. The flash in memory of \<open>arm_mps2_an386/liteos_m/board/driver/flash/ram_virt_flash.c\<close>:
  two partitions on the heap and the four operations of the file systems, which take absolute addresses. And the list of
  functions that a reset calls, \<open>arm_virt/liteos_a/board/extcmd/reset_shell.c\<close>.
\<close>

subsection \<open>Flash in memory\<close>

record HalLogicPartition =
  partitionStartAddr :: u32
  partitionLength :: u32

text \<open>The two partitions, the bytes of the memory, and the configuration.\<close>

record ram_flash =
  g_halPartitions :: "HalLogicPartition list"
  rf_mem :: "u32 \<Rightarrow> u8"

record flash_config =
  LOSCFG_SUPPORT_LITTLEFS :: bool
  LOSCFG_SUPPORT_FATFS :: bool

abbreviation (input) FLASH_PARTITION_DATA0 :: nat where "FLASH_PARTITION_DATA0 \<equiv> 0"
abbreviation (input) FLASH_PARTITION_DATA1 :: nat where "FLASH_PARTITION_DATA1 \<equiv> 1"

definition ram_flash0 :: "(u32 \<Rightarrow> u8) \<Rightarrow> ram_flash" where
  "ram_flash0 mem = \<lparr>g_halPartitions = replicate 2 \<lparr>partitionStartAddr = 0x21800000, partitionLength = 0x800000\<rparr>, rf_mem = mem\<rparr>"

text \<open>One partition gets its memory: whether it did.\<close>

definition alloc_partition :: "env \<Rightarrow> nat \<Rightarrow> ram_flash \<Rightarrow> trace \<Rightarrow> (bool \<times> ram_flash \<times> trace) option" where
  "alloc_partition E p s t = do {
     part \<leftarrow> aget (g_halPartitions s) p;
     let (a, t) = kcall E c_malloc [partitionLength part] t;
     if a = 0 then Some (False, s, t) else do {
       ps \<leftarrow> aset (g_halPartitions s) p (part\<lparr>partitionStartAddr := a\<rparr>);
       Some (True, s\<lparr>g_halPartitions := ps\<rparr>, t)
     } }"

text \<open>Whether the result is the table and not the null pointer.\<close>

definition getPartitionInfo :: "env \<Rightarrow> flash_config \<Rightarrow> ram_flash \<Rightarrow> trace \<Rightarrow> (bool \<times> ram_flash \<times> trace) option" where
  "getPartitionInfo E F s t = do {
     (ok, s, t) \<leftarrow> (if LOSCFG_SUPPORT_LITTLEFS F then alloc_partition E FLASH_PARTITION_DATA0 s t else Some (True, s, t));
     if \<not> ok then Some (False, s, t) else do {
       (ok, s, t) \<leftarrow> (if LOSCFG_SUPPORT_FATFS F then alloc_partition E FLASH_PARTITION_DATA1 s t else Some (True, s, t));
       if ok then Some (True, s, t)
       else if LOSCFG_SUPPORT_LITTLEFS F then do {
         part \<leftarrow> aget (g_halPartitions s) FLASH_PARTITION_DATA0;
         Some (False, s, kproc c_free [partitionStartAddr part] t)
       } else Some (False, s, t)
     } }"

text \<open>The check every operation starts with: the length that is left, or none behind the end of the partition.\<close>

definition clamp :: "ram_flash \<Rightarrow> nat \<Rightarrow> u32 \<Rightarrow> u32 \<Rightarrow> u32 option option" where
  "clamp s pdrv startAddr len = do {
     part \<leftarrow> aget (g_halPartitions s) pdrv;
     let partitionEnd = partitionStartAddr part + partitionLength part;
     Some (if partitionEnd \<le> startAddr then None
           else Some (if partitionEnd < startAddr + len then partitionEnd - startAddr else len)) }"

text \<open>\<open>memset_s\<close> and \<open>memcpy_s\<close> of \<open>n\<close> bytes; the bytes of the caller are a list, and reading or writing beyond it is undefined.\<close>

definition flash_set_bytes :: "u32 \<Rightarrow> u8 list \<Rightarrow> (u32 \<Rightarrow> u8) \<Rightarrow> u32 \<Rightarrow> u8" where
  "flash_set_bytes a bs mem = (\<lambda>x. if unat (x - a) < length bs then bs ! unat (x - a) else mem x)"

definition get_bytes :: "u32 \<Rightarrow> nat \<Rightarrow> (u32 \<Rightarrow> u8) \<Rightarrow> u8 list" where
  "get_bytes a n mem = map (\<lambda>i. mem (a + of_nat i)) [0..<n]"

definition virt_flash_erase :: "env \<Rightarrow> nat \<Rightarrow> u32 \<Rightarrow> u32 \<Rightarrow> ram_flash \<Rightarrow> trace \<Rightarrow> (int \<times> ram_flash \<times> trace) option" where
  "virt_flash_erase E pdrv offSet sz s t = do {
     r \<leftarrow> clamp s pdrv offSet sz;
     (case r of None \<Rightarrow> Some (- 1, s, t)
      | Some n \<Rightarrow>
          let (intSave, t) = kcall E LOS_IntLock [] t;
              s = s\<lparr>rf_mem := flash_set_bytes offSet (replicate (unat n) 0) (rf_mem s)\<rparr>
          in Some (0, s, kproc LOS_IntRestore [intSave] t)) }"

definition virt_flash_write ::
  "env \<Rightarrow> nat \<Rightarrow> u32 \<Rightarrow> u8 list \<Rightarrow> u32 \<Rightarrow> ram_flash \<Rightarrow> trace \<Rightarrow> (int \<times> ram_flash \<times> trace) option" where
  "virt_flash_write E pdrv offSet buf bufLen s t = do {
     r \<leftarrow> clamp s pdrv offSet bufLen;
     (case r of None \<Rightarrow> Some (- 1, s, t)
      | Some n \<Rightarrow>
          let (intSave, t) = kcall E LOS_IntLock [] t
          in if length buf < unat n then None else
             Some (0, s\<lparr>rf_mem := flash_set_bytes offSet (take (unat n) buf) (rf_mem s)\<rparr>, kproc LOS_IntRestore [intSave] t)) }"

definition virt_flash_erase_write ::
  "env \<Rightarrow> nat \<Rightarrow> u32 \<Rightarrow> u8 list \<Rightarrow> u32 \<Rightarrow> ram_flash \<Rightarrow> trace \<Rightarrow> (int \<times> ram_flash \<times> trace) option" where
  "virt_flash_erase_write E pdrv offSet buf bufLen s t = do {
     r \<leftarrow> clamp s pdrv offSet bufLen;
     (case r of None \<Rightarrow> Some (- 1, s, t)
      | Some n \<Rightarrow>
          let (intSave, t) = kcall E LOS_IntLock [] t;
              s = s\<lparr>rf_mem := flash_set_bytes offSet (replicate (unat n) 0) (rf_mem s)\<rparr>
          in if length buf < unat n then None else
             Some (0, s\<lparr>rf_mem := flash_set_bytes offSet (take (unat n) buf) (rf_mem s)\<rparr>, kproc LOS_IntRestore [intSave] t)) }"

text \<open>The buffer as the read leaves it.\<close>

definition virt_flash_read ::
  "env \<Rightarrow> nat \<Rightarrow> u32 \<Rightarrow> u8 list \<Rightarrow> u32 \<Rightarrow> ram_flash \<Rightarrow> trace \<Rightarrow> (int \<times> u8 list \<times> trace) option" where
  "virt_flash_read E pdrv offSet buf bufLen s t = do {
     r \<leftarrow> clamp s pdrv offSet bufLen;
     (case r of None \<Rightarrow> Some (- 1, buf, t)
      | Some n \<Rightarrow>
          let (intSave, t) = kcall E LOS_IntLock [] t
          in if length buf < unat n then None else
             Some (0, get_bytes offSet (unat n) (rf_mem s) @ drop (unat n) buf, kproc LOS_IntRestore [intSave] t)) }"

subsection \<open>The functions a reset calls\<close>

record hook_node =
  hn_addr :: u32
  pHandler :: u32
  pParam :: u32

definition osReHookFuncAdd :: "env \<Rightarrow> u32 \<Rightarrow> u32 \<Rightarrow> u32 \<Rightarrow> hook_node list \<Rightarrow> trace \<Rightarrow> int \<times> hook_node list \<times> trace" where
  "osReHookFuncAdd E sizeof_node handler param ns t =
     (let (p, t) = kcall E c_malloc [sizeof_node] t in
      if p = 0 then (- 1, ns, t) else (0, \<lparr>hn_addr = p, pHandler = handler, pParam = param\<rparr> # ns, t))"

text \<open>The two loops: nodes at the head, then those after a node that stays.\<close>

fun del_head :: "u32 \<Rightarrow> hook_node list \<Rightarrow> trace \<Rightarrow> hook_node list \<times> trace" where
  "del_head handler [] t = ([], t)"
| "del_head handler (n # ns) t =
     (if pHandler n = handler then del_head handler ns (kproc c_free [hn_addr n] t) else (n # ns, t))"

fun del_next :: "u32 \<Rightarrow> hook_node list \<Rightarrow> trace \<Rightarrow> hook_node list \<times> trace" where
  "del_next handler (cur # n # ns) t =
     (if pHandler n = handler then del_next handler (cur # ns) (kproc c_free [hn_addr n] t)
      else let (rest, t) = del_next handler (n # ns) t in (cur # rest, t))"
| "del_next handler ns t = (ns, t)"

definition osReHookFuncDel :: "u32 \<Rightarrow> hook_node list \<Rightarrow> trace \<Rightarrow> int \<times> hook_node list \<times> trace" where
  "osReHookFuncDel handler ns t =
     (let (ns, t) = del_head handler ns t; (ns, t) = (if ns \<noteq> [] then del_next handler ns t else (ns, t)) in (0, ns, t))"

fun osReHookFuncHandle :: "hook_node list \<Rightarrow> trace \<Rightarrow> trace" where
  "osReHookFuncHandle [] t = t"
| "osReHookFuncHandle (n # ns) t = osReHookFuncHandle ns (kproc HookHandler [pHandler n, pParam n] t)"

definition cmd_reset :: "env \<Rightarrow> hook_node list \<Rightarrow> trace \<Rightarrow> trace" where
  "cmd_reset E ns t = (let t = osReHookFuncHandle ns t; (_, t) = kcall E sys_sleep [1] t in kproc OsReboot [] t)"

subsection \<open>Deleting hooks\<close>

text \<open>A reference: what is freed and what stays.\<close>

lemma del_head_eq:
  "del_head h ns t = (dropWhile (\<lambda>n. pHandler n = h) ns, map (\<lambda>n. Call c_free [hn_addr n]) (rev (takeWhile (\<lambda>n. pHandler n = h) ns)) @ t)"
  by (induction ns arbitrary: t) (auto simp: io_defs)

lemma del_next_eq:
  "del_next h (cur # ns) t =
     (cur # filter (\<lambda>n. pHandler n \<noteq> h) ns, map (\<lambda>n. Call c_free [hn_addr n]) (rev (filter (\<lambda>n. pHandler n = h) ns)) @ t)"
  by (induction ns arbitrary: cur t) (auto simp: io_defs)

lemma filter_dropWhile: "filter P (dropWhile (\<lambda>x. \<not> P x) xs) = filter P xs"
  "filter (\<lambda>x. \<not> P x) (takeWhile (\<lambda>x. \<not> P x) xs) @ filter (\<lambda>x. \<not> P x) (dropWhile (\<lambda>x. \<not> P x) xs) = filter (\<lambda>x. \<not> P x) xs"
  by (induction xs) auto

lemma takeWhile_filter: "filter P (takeWhile P xs) = takeWhile P xs"
  by (induction xs) auto

text \<open>Deleting a function frees exactly the nodes that hold it, in their order, and leaves the others in theirs; a reset then
  calls the ones that are left, each once with its parameter, before it reboots.\<close>

theorem osReHookFuncDel_reset:
  "\<exists>t' t''. osReHookFuncDel h ns t = (0, filter (\<lambda>n. pHandler n \<noteq> h) ns, t') \<and>
    calls_of c_free t' = calls_of c_free t @ map (\<lambda>n. [hn_addr n]) (filter (\<lambda>n. pHandler n = h) ns) \<and>
    cmd_reset E (filter (\<lambda>n. pHandler n \<noteq> h) ns) t' = Call OsReboot [] # t'' \<and>
    calls_of HookHandler t'' = calls_of HookHandler t @ map (\<lambda>n. [pHandler n, pParam n]) (filter (\<lambda>n. pHandler n \<noteq> h) ns)"
proof -
  have cf: "calls_of c_free (map (\<lambda>n. Call c_free [hn_addr n]) (rev xs) @ t) = calls_of c_free t @ map (\<lambda>n. [hn_addr n]) xs"
    "calls_of HookHandler (map (\<lambda>n. Call c_free [hn_addr n]) (rev xs) @ t) = calls_of HookHandler t" for xs t
    by (induction xs rule: rev_induct) auto
  have hh: "calls_of HookHandler (osReHookFuncHandle xs t) = calls_of HookHandler t @ map (\<lambda>n. [pHandler n, pParam n]) xs" for xs t
    by (induction xs arbitrary: t) (auto simp: io_defs)
  define frees where "frees = (\<lambda>(xs :: hook_node list) t. map (\<lambda>n. Call c_free [hn_addr n]) (rev xs) @ t)"
  have f: "frees ys (frees xs t) = frees (xs @ ys) t" for xs ys t by (simp add: frees_def)
  let ?P = "\<lambda>n. pHandler n = h"
  have "filter ?P (takeWhile ?P ns) = takeWhile ?P ns" by (rule takeWhile_filter)
  moreover have "filter (\<lambda>n. \<not> ?P n) (takeWhile ?P ns) = []" by (auto simp: filter_empty_conv dest: set_takeWhileD)
  ultimately have split: "filter ?P ns = takeWhile ?P ns @ filter ?P (dropWhile ?P ns)"
    "filter (\<lambda>n. \<not> ?P n) ns = filter (\<lambda>n. \<not> ?P n) (dropWhile ?P ns)"
    using filter_append [of ?P "takeWhile ?P ns" "dropWhile ?P ns"]
      filter_append [of "\<lambda>n. \<not> ?P n" "takeWhile ?P ns" "dropWhile ?P ns"] by simp_all
  have del: "osReHookFuncDel h ns t = (0, filter (\<lambda>n. \<not> ?P n) ns, frees (filter ?P ns) t)"
  proof (cases "dropWhile ?P ns")
    case Nil
    show ?thesis unfolding split Nil by (simp add: osReHookFuncDel_def del_head_eq Nil frees_def)
  next
    case (Cons cur rest)
    then have "\<not> ?P cur" using hd_dropWhile [of ?P ns] by simp
    then show ?thesis unfolding split Cons
      by (simp add: osReHookFuncDel_def del_head_eq Cons del_next_eq frees_def)
  qed
  show ?thesis
    by (rule exI [of _ "frees (filter ?P ns) t"], rule exI [of _ "tl (cmd_reset E (filter (\<lambda>n. \<not> ?P n) ns) (frees (filter ?P ns) t))"])
      (simp add: del cmd_reset_def io_defs hh, simp add: frees_def cf)
qed

subsection \<open>Writing and reading\<close>

lemma get_flash_set_bytes:
  assumes "length bs \<le> 2 ^ 32"
  shows "get_bytes a (length bs) (flash_set_bytes a bs mem) = bs"
proof (rule nth_equalityI)
  show "get_bytes a (length bs) (flash_set_bytes a bs mem) ! i = bs ! i" if "i < length (get_bytes a (length bs) (flash_set_bytes a bs mem))" for i
  proof -
    have i: "i < length bs" using that by (simp add: get_bytes_def)
    then have "unat (of_nat i :: u32) = i" using assms by (simp add: unat_of_nat take_bit_nat_eq_self)
    then show ?thesis using i by (simp add: get_bytes_def flash_set_bytes_def)
  qed
qed (simp add: get_bytes_def)

text \<open>The operations check the end of the partition only: the address must lie in it for the bytes to.\<close>

definition in_partition :: "HalLogicPartition \<Rightarrow> u32 \<Rightarrow> bool" where
  "in_partition p a \<longleftrightarrow> unat (partitionStartAddr p) \<le> unat a \<and> unat a < unat (partitionStartAddr p) + unat (partitionLength p)"

lemma clamp_inside:
  assumes "aget (g_halPartitions s) pdrv = Some p" and "in_partition p a"
    and "unat (partitionStartAddr p) + unat (partitionLength p) < 2 ^ 32" and "unat a + unat len < 2 ^ 32"
  defines "n \<equiv> min (unat len) (unat (partitionStartAddr p) + unat (partitionLength p) - unat a)"
  shows "\<exists>r. clamp s pdrv a len = Some (Some r) \<and> unat r = n"
proof -
  define e where "e = partitionStartAddr p + partitionLength p"
  have e: "unat e = unat (partitionStartAddr p) + unat (partitionLength p)"
    using assms(3) unfolding e_def by (subst unat_add_lem [THEN iffD1]) simp_all
  have al: "unat (a + len) = unat a + unat len" using assms(4) by (subst unat_add_lem [THEN iffD1]) simp_all
  have lt: "unat a < unat e" using assms(2) e by (simp add: in_partition_def)
  then have d: "unat (e - a) = unat e - unat a" by (subst unat_sub) (simp_all add: word_le_nat_alt)
  show ?thesis
    using lt d by (auto simp: clamp_def assms(1) e_def [symmetric] word_le_nat_alt word_less_nat_alt al n_def e min_def)
qed


definition flash_env_example :: env where
  "flash_env_example = \<lparr>rd_reg = (\<lambda>t a. 0), sys_ret = (\<lambda>t f xs. 1), sys_hdf = (\<lambda>t f xs. HDF_SUCCESS),
     ALIGN = align_example, IO_DEVICE_ADDR = id, VMM_TO_DMA_ADDR = id, LOS_ASSERT = id\<rparr>"


end
