(* ===== verification/Spec2Isabelle.thy ===== *)
theory Spec2Isabelle
  imports Virtblock Virtnet Rvinput Rvnetrx Virtrng Fakesdio Uart Cfiflash Rvlayer Console Plic Ramflash
begin

text \<open>
  A verification library for the device drivers of OpenHarmony's QEMU boards (\<open>device_qemu\<close>).

  \<^bold>\<open>The program.\<close> The repository holds the board support for several QEMU machines. Its own logic is in the
  drivers: \<open>src/drivers/virtio\<close> (the virtio-mmio transport and the block, network, graphics, input and
  entropy devices for LiteOS-A, with the MMC, WLAN, SDIO and HID interfaces of the driver framework),
  \<open>src/drivers/uart\<close> (the PL011 UART), \<open>src/drivers/char/mmz\<close> (contiguous memory), the drivers of the
  \<open>riscv32_virt\<close> board (the CFI flash, the registry of frame buffers, the interrupt controller), and the display
  library of user space, \<open>src/hardware/display\<close>. The drivers share the transport: a driver discovers its device,
  negotiates features, lays out its virtqueues in a DMA block and then exchanges buffers with the
  device through the rings, while an interrupt handler takes the used buffers back.

  \<^bold>\<open>How it is modelled.\<close> Every function is a definition over the state it works on and a history. The
  history (type \<open>trace\<close>, theory Prelude) lists, newest first, each register read with its value,
  each register write, and each call of the kernel or of the framework with its arguments. The world
  outside \<open>src/\<close> is the record \<open>env\<close>: what a register reads, what a call returns, both functions of
  the history, and a few macros of the kernel. Nothing is assumed of it except the named hypotheses of a
  theorem. An operation that can leave C's defined behaviour (a null pointer, an index outside an array,
  a failed assertion) or that can wait forever has an option type, and \<open>None\<close> stands for it. Loops that poll
  a device are \<open>partial_function (option)\<close>, so that their end is a theorem and never an assumption:
  the hypothesis is always that the device answers after some finite number of polls, whatever the
  number. Other loops recurse over the list or number they count down, and need no fuel.
  Structs are records (the DMA block of a driver with its descriptor tables and rings included),
  integers keep their width, and ring indices wrap at 16 bits as in the code. Locks and memory
  barriers have no effect in a sequential history; where a handler and a function interleave, they are
  the rules of an inductive relation.

  \<^bold>\<open>The theories.\<close>
    \<^item> Prelude: widths, status codes, calls, histories, the environment, shared lemmas on words and lists.
    \<^item> Virtmmio (\<open>virtmmio.c\<close>): discovery, status handshake, feature negotiation, layout and
      registration of queues, interrupt registration. Lemmas: discovery picks the highest matching slot;
      the handshake ends exactly when the device shows its status; the queue areas are aligned, disjoint
      and inside the memory the driver reserved.
    \<^item> Virtq (\<open>virtmmio.h\<close>): descriptor tables and rings and the accesses of the drivers, with their
      bounds; the locale \<open>free_running\<close> carries the argument for indices that wrap.
    \<^item> Virtblock (\<open>virtblock.c\<close>): requests, MMC commands, CID and CSD registers, initialisation and release.
      Lemmas: a command becomes one request with the right chain; register contents; ownership of memory.
    \<^item> Virtnet (\<open>virtnet.c\<close>): receive and transmit rings, the free list of transmit descriptors, the network
      interface and the dummy WLAN card. Lemmas: the free-list invariant, the reachable states of driver, device
      and interrupt, delivery of every packet once and in order.
    \<^item> Virtgpu (\<open>virtgpu.c\<close>): commands with and without response, the refresh timer, frame buffer, mapping and
      release. Lemmas: the invariant of outstanding requests, the command sequence of the set-up.
    \<^item> Virtinput (\<open>virtinput.c\<close>): the event queue, work items, coordinate scaling, device identification.
    \<^item> Virtrng (\<open>virtrng.c\<close>) and Fakesdio (\<open>fakesdio.c\<close>): random reads; the dummy SDIO and GPIO controllers.
    \<^item> UartPl011 (\<open>uart_pl011.c\<close>): the receive ring, the interrupt, the line configuration. Lemmas: the ring
      refines a bounded queue (locale \<open>byte_fifo\<close>), the registers encode the attributes.
    \<^item> Uart (\<open>uart.c\<close>): the state machine of a port and its binding. Lemmas: the invariant of the reachable
      states by rule induction.
    \<^item> Cfiflash (\<open>cfiflash.c\<close>, \<open>cfiflash_fs_hal.c\<close>, \<open>hdf_cfi.c\<close>): query, buffered programming, erase,
      and the block devices of the two file systems. The meaning of the commands is the automaton
      \<open>flash_cmd\<close> of the Intel command set; the driver's operations are shown to use it without a protocol
      error and to implement the locale \<open>block_flash\<close>.
    \<^item> Fbmem (\<open>key_cache.c\<close>, \<open>fb_mem.c\<close>, \<open>fb_init.c\<close> of \<open>riscv32_virt\<close>): the hash table of names, the drivers
      registered by name. Lemmas: the invariant that ties buckets, entries and allocated blocks; the registry
      implements the locale \<open>name_registry\<close>, a finite map from names to data.
    \<^item> Fb (\<open>fb.c\<close>): opening, controlling, registering and unregistering frame buffer devices, on the registry.
    \<^item> Rvmmio and Rvinput (\<open>virtmmio.c\<close> and \<open>virtinput.c\<close> of \<open>riscv32_virt\<close>): the transport and the mouse of
      the small system. Lemmas: the transport is equal to that of Virtmmio up to slots, address translation and
      interrupt registration; the filter of a captured mouse is equal to a reference over the past events.
    \<^item> Rvnet and Rvnetrx (\<open>virtnet.c\<close> of \<open>riscv32_virt\<close>): the network driver below lwip. Rvnet: the free list of chains of
      any length and transmission; Rvnetrx: reception into buffers lent to lwip, interrupt, initialisation, release.
      Lemmas: the reachable states of both sides, well-formedness through the interrupt, the blocks left
      after a failed initialisation.
    \<^item> Mmz (\<open>mmz.c\<close>): allocation, mapping and release of contiguous memory. Lemmas: the loop over the pages ends and maps
      a whole run or gives its region back; freeing holds the lock on every path.
    \<^item> Gralloc (\<open>display_gralloc.c\<close>): the sizes of display buffers, shared memory, and the calls through \<open>ioctl\<close> to the driver
      of Mmz, which is composed with. Lemmas: a buffer holds its image; the search for a key; what a process
      holds after an allocation, a failure, and a release.
    \<^item> Layer and Rvlayer (\<open>display_layer.c\<close> of user space and of \<open>riscv32_virt\<close>): the one layer on the frame buffer, the
      second on top of the devices of Fb. Lemmas: what the background writes, and the life of the mapping.
    \<^item> Console (\<open>amba_pl011.c\<close>): polled output and the line editor in the receive interrupt, equal to a reference on lists.
    \<^item> Plic (\<open>plic.c\<close>): enable bits and dispatch. Ramflash (\<open>ram_virt_flash.c\<close>, \<open>reset_shell.c\<close>): the flash in memory of
      the MPS2 board, and the functions called at reset.

  \<^bold>\<open>Bounds.\<close> The sizes are those of the code: 16 and 8 entry rings, 128 interrupt characters, 16 KiB receive
  ring, 1024-word flash pages. Theorems quantify over all states and inputs within the C types unless
  a hypothesis says otherwise.

  \<^bold>\<open>Parameters.\<close> Structures of the framework that are not in the repository (offsets, constants of MMC, input
  and UART, results of \<open>memcpy_s\<close>) are records of parameters; what a device or another task does during a wait
  is an argument (\<open>others\<close>, \<open>wait\<close>). The transmit handler of the network driver runs as one step.

  \<^bold>\<open>Not modelled.\<close> Log output, locks and barriers; the tables of function pointers, whose entries are the
  definitions; the \<open>csky_driver\<close> tree of SmartL_E802, the CMSIS headers and the \<open>lan9118\<close> and
  \<open>arm_uart\<close> drivers, which are vendor code; the display, camera and audio services of
  \<open>common/virt_full\<close> (C++ glue to DRM, V4L2 and ALSA); \<open>display_gfx.c\<close>, which offers no operation; kernel configurations,
  start-up code, and the riscv32 variant of the graphics driver.
\<close>

end
